(* ===== verification/Prelude.thy ===== *)
theory Prelude
  imports Main "HOL-Library.AList" "HOL-Library.Sublist" "HOL-Library.Char_ord" "HOL-Library.List_Lexorder"
begin

text \<open>
  Shared vocabulary of the development: errors as values, Python string operations and
  the generic lemmas every component theory uses.

  Strings are lists of bytes, read as UTF-8: an ASCII literal is itself, and a character
  outside ASCII is its byte sequence. Equality, concatenation, substring search, prefix
  tests and splitting on an ASCII separator agree with Python's on such strings; changing
  case is ASCII only, and stripping removes ASCII white space only.
\<close>

named_theorems py_defs "definitions unfolded to evaluate a model on a concrete input"

section \<open>Errors as values\<close>

datatype exc_kind =
    KeyError | TypeError | ValueError | AttributeError | IndexError
  | AssertionError | ZeroDivisionError | TaskCanceledException | VaultError | VaultLockedError
  | UnsupportedMetaFilter | GaiError | LookupError | DoesNotExist | GenericException

text \<open>An exception is its class and its text, \<open>str(e)\<close>.\<close>

datatype exc = Exc exc_kind string

type_synonym 'a res = "exc + 'a"

abbreviation (input) raise :: "exc_kind \<Rightarrow> string \<Rightarrow> 'a res" where
  "raise k msg \<equiv> Inl (Exc k msg)"

fun exc_text :: "exc \<Rightarrow> string" where
  "exc_text (Exc k msg) = msg"

fun exc_class :: "exc \<Rightarrow> exc_kind" where
  "exc_class (Exc k msg) = k"

fun try_then :: "'a res \<Rightarrow> ('a \<Rightarrow> 'b res) \<Rightarrow> 'b res" where
  "try_then (Inl e) f = Inl e"
| "try_then (Inr x) f = f x"

fun map_res :: "('a \<Rightarrow> 'b res) \<Rightarrow> 'a list \<Rightarrow> 'b list res" where
  "map_res f [] = Inr []"
| "map_res f (x # xs) = try_then (f x) (\<lambda>y. try_then (map_res f xs) (\<lambda>ys. Inr (y # ys)))"

fun fold_res :: "('a \<Rightarrow> 's \<Rightarrow> 's res) \<Rightarrow> 'a list \<Rightarrow> 's \<Rightarrow> 's res" where
  "fold_res f [] s = Inr s"
| "fold_res f (x # xs) s = try_then (f x s) (fold_res f xs)"

lemma try_then_Inr_iff: "try_then r f = Inr y \<longleftrightarrow> (\<exists>x. r = Inr x \<and> f x = Inr y)"
  by (cases r) auto

lemma try_then_Inl_iff: "try_then r f = Inl e \<longleftrightarrow> r = Inl e \<or> (\<exists>x. r = Inr x \<and> f x = Inl e)"
  by (cases r) auto

lemma try_then_return [simp]: "try_then r Inr = r"
  by (cases r) auto

lemma try_then_assoc: "try_then (try_then r f) g = try_then r (\<lambda>x. try_then (f x) g)"
  by (cases r) auto

lemma try_then_cong [fundef_cong]:
  "r = r' \<Longrightarrow> (\<And>x. r' = Inr x \<Longrightarrow> f x = f' x) \<Longrightarrow> try_then r f = try_then r' f'"
  by (cases r') auto

lemma map_res_cong [fundef_cong]:
  "xs = ys \<Longrightarrow> (\<And>x. x \<in> set ys \<Longrightarrow> f x = g x) \<Longrightarrow> map_res f xs = map_res g ys"
  by (induction ys arbitrary: xs) (auto intro: try_then_cong)

lemma map_res_length: "map_res f xs = Inr ys \<Longrightarrow> length ys = length xs"
  by (induction xs arbitrary: ys) (auto simp: try_then_Inr_iff)

lemma map_res_total: "(\<And>x. x \<in> set xs \<Longrightarrow> f x = Inr (g x)) \<Longrightarrow> map_res f xs = Inr (map g xs)"
  by (induction xs) auto

lemma fold_res_append: "fold_res f (xs @ ys) s = try_then (fold_res f xs s) (fold_res f ys)"
  by (induction xs arbitrary: s) (simp_all add: try_then_assoc cong: try_then_cong)

text \<open>An invariant of the body is an invariant of the loop.\<close>

lemma fold_res_invariant:
  assumes "fold_res f xs s = Inr t" and "P s"
    and step: "\<And>x s s'. x \<in> set xs \<Longrightarrow> P s \<Longrightarrow> f x s = Inr s' \<Longrightarrow> P s'"
  shows "P t"
  using assms
proof (induction xs arbitrary: s)
  case Nil
  then show ?case by simp
next
  case (Cons x xs)
  from Cons.prems(1) obtain u where u: "f x s = Inr u" "fold_res f xs u = Inr t"
    by (auto simp: try_then_Inr_iff)
  have "P u" using Cons.prems(2,3) u(1) by (meson list.set_intros(1))
  with u(2) show ?case using Cons.IH Cons.prems(3) by (meson list.set_intros(2))
qed

section \<open>Stateful code\<close>

text \<open>
  A method is a function of the state it runs in. It returns the new state even when it
  raises: what was assigned before the exception stays assigned.
\<close>

type_synonym ('s, 'a) act = "'s \<Rightarrow> 'a res \<times> 's"

definition ret :: "'a \<Rightarrow> ('s, 'a) act" where
  "ret a = (\<lambda>s. (Inr a, s))"

definition bnd :: "('s, 'a) act \<Rightarrow> ('a \<Rightarrow> ('s, 'b) act) \<Rightarrow> ('s, 'b) act" where
  "bnd m f = (\<lambda>s. case m s of (Inl e, t) \<Rightarrow> (Inl e, t) | (Inr a, t) \<Rightarrow> f a t)"

definition lift :: "'a res \<Rightarrow> ('s, 'a) act" where
  "lift r = (\<lambda>s. (r, s))"

definition gets :: "('s \<Rightarrow> 'a) \<Rightarrow> ('s, 'a) act" where
  "gets f = (\<lambda>s. (Inr (f s), s))"

definition gets_res :: "('s \<Rightarrow> 'a res) \<Rightarrow> ('s, 'a) act" where
  "gets_res f = (\<lambda>s. (f s, s))"

definition modify :: "('s \<Rightarrow> 's) \<Rightarrow> ('s, unit) act" where
  "modify f = (\<lambda>s. (Inr (), f s))"

definition modify_res :: "('s \<Rightarrow> 's res) \<Rightarrow> ('s, unit) act" where
  "modify_res f = (\<lambda>s. case f s of Inl e \<Rightarrow> (Inl e, s) | Inr t \<Rightarrow> (Inr (), t))"

fun for_each :: "('a \<Rightarrow> ('s, unit) act) \<Rightarrow> 'a list \<Rightarrow> ('s, unit) act" where
  "for_each f [] = ret ()"
| "for_each f (x # xs) = bnd (f x) (\<lambda>_. for_each f xs)"

lemmas act_defs = ret_def bnd_def lift_def gets_def gets_res_def modify_def modify_res_def

lemma bnd_ret [simp]: "bnd (ret a) f = f a"
  by (simp add: act_defs)

lemma bnd_apply: "bnd m f s = (case m s of (Inl e, t) \<Rightarrow> (Inl e, t) | (Inr a, t) \<Rightarrow> f a t)"
  by (simp add: bnd_def)

lemma bnd_Inr: "m s = (Inr a, t) \<Longrightarrow> bnd m f s = f a t"
  by (simp add: bnd_def)

lemma bnd_Inr_iff: "bnd m f s = (Inr b, t) \<longleftrightarrow> (\<exists>a u. m s = (Inr a, u) \<and> f a u = (Inr b, t))"
  by (auto simp: bnd_apply split: prod.split sum.split)

text \<open>\<open>try: m except e: h\<close>, which keeps what \<open>m\<close> did to the state before it raised.\<close>

definition try_except :: "('s, 'a) act \<Rightarrow> (exc \<Rightarrow> ('s, 'a) act) \<Rightarrow> ('s, 'a) act" where
  "try_except m h = (\<lambda>s. case m s of (Inl e, t) \<Rightarrow> h e t | (Inr a, t) \<Rightarrow> (Inr a, t))"

text \<open>What every step of a method keeps, the method keeps, whether or not it raises.\<close>

definition keeps :: "('s \<Rightarrow> bool) \<Rightarrow> ('s, 'a) act \<Rightarrow> bool" where
  "keeps P m = (\<forall>s. P s \<longrightarrow> P (snd (m s)))"

lemma keeps_ret [intro, simp]: "keeps P (ret a)"
  and keeps_lift [intro, simp]: "keeps P (lift r)"
  and keeps_gets [intro, simp]: "keeps P (gets f)"
  and keeps_gets_res [intro, simp]: "keeps P (gets_res g)"
  by (simp_all add: keeps_def act_defs)

lemma keeps_modify [intro]: "(\<And>s. P s \<Longrightarrow> P (f s)) \<Longrightarrow> keeps P (modify f)"
  by (simp add: keeps_def act_defs)

lemma keeps_modify_res [intro]: "(\<And>s t. P s \<Longrightarrow> f s = Inr t \<Longrightarrow> P t) \<Longrightarrow> keeps P (modify_res f)"
  by (auto simp: keeps_def act_defs split: sum.splits)

lemma keeps_bnd [intro]: "keeps P m \<Longrightarrow> (\<And>a. keeps P (f a)) \<Longrightarrow> keeps P (bnd m f)"
  by (fastforce simp: keeps_def bnd_def split: prod.splits sum.splits)

lemma keeps_try_except [intro]: "keeps P m \<Longrightarrow> (\<And>e. keeps P (h e)) \<Longrightarrow> keeps P (try_except m h)"
  by (fastforce simp: keeps_def try_except_def split: prod.splits sum.splits)

lemma keeps_for_each [intro]: "(\<And>x. x \<in> set xs \<Longrightarrow> keeps P (f x)) \<Longrightarrow> keeps P (for_each f xs)"
  by (induction xs) auto

lemma keepsD: "keeps P m \<Longrightarrow> m s = (r, t) \<Longrightarrow> P s \<Longrightarrow> P t"
  by (metis keeps_def snd_conv)

section \<open>Strings\<close>

abbreviation starts_with :: "string \<Rightarrow> string \<Rightarrow> bool" where
  "starts_with s p \<equiv> prefix p s"

abbreviation ends_with :: "string \<Rightarrow> string \<Rightarrow> bool" where
  "ends_with s p \<equiv> suffix p s"

text \<open>\<open>break_at sep s\<close> is what stands before and after the leftmost occurrence of \<open>sep\<close>.\<close>

fun break_at :: "string \<Rightarrow> string \<Rightarrow> (string \<times> string) option" where
  "break_at sep [] = (if sep = [] then Some ([], []) else None)"
| "break_at sep (c # cs) =
     (if prefix sep (c # cs) then Some ([], drop (length sep) (c # cs))
      else (case break_at sep cs of None \<Rightarrow> None | Some (b, a) \<Rightarrow> Some (c # b, a)))"

definition str_in :: "string \<Rightarrow> string \<Rightarrow> bool" where
  "str_in needle s = (break_at needle s \<noteq> None)"

text \<open>\<open>s.split(sep)\<close> for a separator that is not empty.\<close>

function split_str :: "string \<Rightarrow> string \<Rightarrow> string list" where
  "split_str sep s =
     (case break_at sep s of None \<Rightarrow> [s]
      | Some (b, a) \<Rightarrow> if length a < length s then b # split_str sep a else [s])"
  by pat_completeness auto
termination by (relation "measure (\<lambda>(sep, s). length s)") auto

declare split_str.simps [simp del]

text \<open>\<open>s.split(sep, 1)\<close>.\<close>

definition split_once :: "string \<Rightarrow> string \<Rightarrow> string list" where
  "split_once sep s = (case break_at sep s of None \<Rightarrow> [s] | Some (b, a) \<Rightarrow> [b, a])"

fun join_str :: "string \<Rightarrow> string list \<Rightarrow> string" where
  "join_str sep [] = []"
| "join_str sep [x] = x"
| "join_str sep (x # y # ys) = x @ sep @ join_str sep (y # ys)"

text \<open>\<open>s.replace(old, new)\<close>; an empty \<open>old\<close> stands before every character and at the end.\<close>

definition replace_str :: "string \<Rightarrow> string \<Rightarrow> string \<Rightarrow> string" where
  "replace_str old new s =
     (if old = [] then new @ concat (map (\<lambda>c. c # new) s)
      else join_str new (split_str old s))"

definition strip_chars :: "char list \<Rightarrow> string \<Rightarrow> string" where
  "strip_chars cs s = rev (dropWhile (\<lambda>c. c \<in> set cs) (rev (dropWhile (\<lambda>c. c \<in> set cs) s)))"

definition ascii_space :: "char list" where
  "ascii_space = [CHR '' '', CHR 0x09, CHR 0x0A, CHR 0x0B, CHR 0x0C, CHR 0x0D,
                  CHR 0x1C, CHR 0x1D, CHR 0x1E, CHR 0x1F]"

definition strip :: "string \<Rightarrow> string" where
  "strip s = strip_chars ascii_space s"

definition upper_letters :: string where
  "upper_letters = ''ABCDEFGHIJKLMNOPQRSTUVWXYZ''"

definition lower_letters :: string where
  "lower_letters = ''abcdefghijklmnopqrstuvwxyz''"

definition lower_char :: "char \<Rightarrow> char" where
  "lower_char c = (case map_of (zip upper_letters lower_letters) c of None \<Rightarrow> c | Some d \<Rightarrow> d)"

definition lower :: "string \<Rightarrow> string" where
  "lower s = map lower_char s"

definition digit_chars :: string where
  "digit_chars = ''0123456789''"

definition is_digit_char :: "char \<Rightarrow> bool" where
  "is_digit_char c = (c \<in> set digit_chars)"

text \<open>\<open>s.isdigit()\<close>, for ASCII digits: false on the empty string.\<close>

definition isdigit :: "string \<Rightarrow> bool" where
  "isdigit s = (s \<noteq> [] \<and> list_all is_digit_char s)"

lemma break_at_append: "break_at sep s = Some (b, a) \<Longrightarrow> s = b @ sep @ a"
proof (induction s arbitrary: b)
  case Nil
  then show ?case by (simp split: if_splits)
next
  case (Cons c cs)
  show ?case
  proof (cases "prefix sep (c # cs)")
    case True
    then obtain zs where "c # cs = sep @ zs" by (auto simp: prefix_def)
    moreover have "b = []" "a = drop (length sep) (c # cs)" using Cons.prems True by simp_all
    ultimately show ?thesis by (metis append.left_neutral append_eq_conv_conj)
  next
    case False
    with Cons show ?thesis by (auto split: option.splits)
  qed
qed

lemma break_at_empty [simp]: "break_at [] s = Some ([], s)"
  by (cases s) simp_all

lemma break_at_None_iff: "break_at sep s = None \<longleftrightarrow> \<not> sublist sep s"
proof (induction s)
  case Nil
  show ?case by simp
next
  case (Cons c cs)
  show ?case
    using Cons by (cases "prefix sep (c # cs)") (auto simp: sublist_Cons_right split: option.splits)
qed

lemma str_in_iff: "str_in x s \<longleftrightarrow> sublist x s"
  by (simp add: str_in_def break_at_None_iff)

text \<open>Joining what was split gives the string back.\<close>

lemma split_str_nonempty: "split_str sep s \<noteq> []"
  by (subst split_str.simps) (auto split: option.splits)

lemma join_Cons: "xs \<noteq> [] \<Longrightarrow> join_str sep (x # xs) = x @ sep @ join_str sep xs"
  by (cases xs) auto

lemma join_split: "join_str sep (split_str sep s) = s"
proof (induction sep s rule: split_str.induct)
  case (1 sep s)
  show ?case
  proof (cases "break_at sep s")
    case None
    then show ?thesis by (subst split_str.simps) simp
  next
    case (Some p)
    obtain b a where p: "p = (b, a)" by (cases p)
    show ?thesis
    proof (cases "length a < length s")
      case True
      have "join_str sep (split_str sep a) = a" using 1 Some p True by simp
      moreover have "s = b @ sep @ a" using Some p break_at_append by simp
      ultimately show ?thesis
        using Some p True by (subst split_str.simps) (simp add: join_Cons split_str_nonempty)
    next
      case False
      with Some p show ?thesis by (subst split_str.simps) simp
    qed
  qed
qed

lemma split_str_absent: "\<not> sublist sep s \<Longrightarrow> split_str sep s = [s]"
  by (subst split_str.simps) (simp add: break_at_None_iff [THEN iffD2])

lemma break_at_char_absent: "x \<notin> set s \<Longrightarrow> break_at [x] s = None"
  by (induction s) auto

lemma break_at_char: "x \<notin> set b \<Longrightarrow> break_at [x] (b @ x # a) = Some (b, a)"
  by (induction b) auto

lemma split_str_char_absent: "x \<notin> set s \<Longrightarrow> split_str [x] s = [s]"
  by (subst split_str.simps) (simp add: break_at_char_absent)

lemma split_str_char: "x \<notin> set b \<Longrightarrow> split_str [x] (b @ x # a) = b # split_str [x] a"
  by (subst split_str.simps) (simp add: break_at_char)

lemma replace_absent: "old \<noteq> [] \<Longrightarrow> \<not> sublist old s \<Longrightarrow> replace_str old new s = s"
  by (simp add: replace_str_def split_str_absent)

lemma replace_char: "replace_str [x] new s = concat (map (\<lambda>c. if c = x then new else [c]) s)"
proof (induction "length s" arbitrary: s rule: less_induct)
  case less
  show ?case
  proof (cases "x \<in> set s")
    case False
    then have "concat (map (\<lambda>c. if c = x then new else [c]) s) = s" by (induction s) auto
    then show ?thesis using False by (simp add: replace_str_def split_str_char_absent)
  next
    case True
    then obtain b a where s: "s = b @ x # a" "x \<notin> set b" by (metis split_list_first)
    have "concat (map (\<lambda>c. if c = x then new else [c]) b) = b" using s(2) by (induction b) auto
    moreover have "join_str new (split_str [x] a) = concat (map (\<lambda>c. if c = x then new else [c]) a)"
      using less [of a] s(1) by (simp add: replace_str_def)
    ultimately show ?thesis
      using s by (simp add: replace_str_def split_str_char join_Cons split_str_nonempty)
  qed
qed

section \<open>Dictionaries\<close>

text \<open>
  A Python dictionary is an association list in insertion order. \<open>AList.update\<close> assigns
  in place or appends, as Python does; \<open>AList.delete\<close> is \<open>pop(k, None)\<close>.
\<close>

type_synonym ('k, 'v) dict = "('k \<times> 'v) list"

abbreviation dget :: "('k, 'v) dict \<Rightarrow> 'k \<Rightarrow> 'v option" where
  "dget d k \<equiv> map_of d k"

abbreviation dset :: "'k \<Rightarrow> 'v \<Rightarrow> ('k, 'v) dict \<Rightarrow> ('k, 'v) dict" where
  "dset k v d \<equiv> AList.update k v d"

abbreviation dpop :: "'k \<Rightarrow> ('k, 'v) dict \<Rightarrow> ('k, 'v) dict" where
  "dpop k d \<equiv> AList.delete k d"

abbreviation dkeys :: "('k, 'v) dict \<Rightarrow> 'k list" where
  "dkeys d \<equiv> map fst d"

abbreviation has_key :: "('k, 'v) dict \<Rightarrow> 'k \<Rightarrow> bool" where
  "has_key d k \<equiv> map_of d k \<noteq> None"

definition dict_ok :: "('k, 'v) dict \<Rightarrow> bool" where
  "dict_ok d = distinct (map fst d)"

text \<open>\<open>dict(pairs)\<close> and \<open>d.update(e)\<close>: assignments from left to right.\<close>

fun dupdate :: "('k, 'v) dict \<Rightarrow> ('k, 'v) dict \<Rightarrow> ('k, 'v) dict" where
  "dupdate d [] = d"
| "dupdate d ((k, v) # e) = dupdate (dset k v d) e"

lemma dget_dset: "dget (dset k v d) k' = (if k' = k then Some v else dget d k')"
  by (simp add: update_conv')

lemma dget_dpop: "dget (dpop k d) k' = (if k' = k then None else dget d k')"
  by (simp add: delete_conv')

lemma dkeys_dset: "set (dkeys (dset k v d)) = insert k (set (dkeys d))"
  by (simp add: dom_map_of_conv_image_fst [symmetric] update_conv')

lemma dset_ok [intro]: "dict_ok d \<Longrightarrow> dict_ok (dset k v d)"
  by (simp add: dict_ok_def distinct_update)

lemma dpop_ok [intro]: "dict_ok d \<Longrightarrow> dict_ok (dpop k d)"
  by (simp add: dict_ok_def distinct_delete)

lemma dupdate_ok [intro]: "dict_ok d \<Longrightarrow> dict_ok (dupdate d e)"
  by (induction d e rule: dupdate.induct) auto

lemma dset_keys_order: "has_key d k \<Longrightarrow> dkeys (dset k v d) = dkeys d"
  by (induction d) (auto split: if_splits)

lemma dset_append: "\<not> has_key d k \<Longrightarrow> dset k v d = d @ [(k, v)]"
  by (induction d) (auto split: if_splits)

lemma dset_same: "map_of d k = Some v \<Longrightarrow> dset k v d = d"
  by (induction d) (auto split: if_splits)

lemma dget_dupdate: "dict_ok e \<Longrightarrow> dget (dupdate d e) k = (case dget e k of None \<Rightarrow> dget d k | Some v \<Rightarrow> Some v)"
proof (induction d e rule: dupdate.induct)
  case (1 d)
  show ?case by simp
next
  case (2 d k' v e)
  then have "k' \<notin> dom (map_of e)" by (simp add: dict_ok_def dom_map_of_conv_image_fst)
  with 2 show ?case by (auto simp: dict_ok_def dget_dset split: option.splits)
qed

section \<open>Ordered keys\<close>

text \<open>First match of a list, as the \<open>for ... return\<close> loops of the code find it.\<close>

fun find_map :: "('a \<Rightarrow> 'b option) \<Rightarrow> 'a list \<Rightarrow> 'b option" where
  "find_map f [] = None"
| "find_map f (x # xs) = (case f x of Some y \<Rightarrow> Some y | None \<Rightarrow> find_map f xs)"

lemma find_map_Some: "find_map f xs = Some y \<Longrightarrow> \<exists>x \<in> set xs. f x = Some y"
  by (induction xs) (auto split: option.splits)

lemma find_map_None_iff: "find_map f xs = None \<longleftrightarrow> (\<forall>x \<in> set xs. f x = None)"
  by (induction xs) (auto split: option.splits)

declare str_in_def [py_defs] split_once_def [py_defs] replace_str_def [py_defs]
  strip_chars_def [py_defs] ascii_space_def [py_defs] strip_def [py_defs]
  upper_letters_def [py_defs] lower_letters_def [py_defs] lower_char_def [py_defs]
  lower_def [py_defs] digit_chars_def [py_defs] is_digit_char_def [py_defs] isdigit_def [py_defs]
  split_str.simps [py_defs]

end
