(* ===== verification/PyVal.thy ===== *)
theory PyVal
  imports Prelude Complex_Main
begin

text \<open>
  The Python values the program passes around: the values of JSON, and the streamed
  answer of a component (\<open>functools.partial\<close> over a generator). An object is an
  association list in insertion order. A float is its exact rational value: comparison
  and equality are exact, and the rounding of the arithmetic operations is not modelled.
\<close>

datatype pyval =
    PNone
  | PBool bool
  | PInt int
  | PFloat rat
  | PStr string
  | PList "pyval list"
  | PDict "(string \<times> pyval) list"
  | PStream "string list"

type_synonym pdict = "(string \<times> pyval) list"

section \<open>Truth, equality, type names\<close>

fun truthy :: "pyval \<Rightarrow> bool" where
  "truthy PNone = False"
| "truthy (PBool b) = b"
| "truthy (PInt i) = (i \<noteq> 0)"
| "truthy (PFloat r) = (r \<noteq> 0)"
| "truthy (PStr s) = (s \<noteq> [])"
| "truthy (PList xs) = (xs \<noteq> [])"
| "truthy (PDict d) = (d \<noteq> [])"
| "truthy (PStream cs) = True"

fun py_num :: "pyval \<Rightarrow> rat option" where
  "py_num (PBool b) = Some (of_bool b)"
| "py_num (PInt i) = Some (of_int i)"
| "py_num (PFloat r) = Some r"
| "py_num v = None"

text \<open>
  \<open>==\<close>: numbers by value (\<open>True == 1 == 1.0\<close>), objects regardless of the order of
  their keys, everything else structurally. Two streams are distinct objects.
\<close>

fun py_eq :: "pyval \<Rightarrow> pyval \<Rightarrow> bool"
and py_eq_list :: "pyval list \<Rightarrow> pyval list \<Rightarrow> bool"
and py_eq_dict :: "(string \<times> pyval) list \<Rightarrow> (string \<times> pyval) list \<Rightarrow> bool" where
  "py_eq PNone w = (w = PNone)"
| "py_eq (PStr s) w = (w = PStr s)"
| "py_eq (PStream cs) w = False"
| "py_eq (PList xs) w = (case w of PList ys \<Rightarrow> py_eq_list xs ys | _ \<Rightarrow> False)"
| "py_eq (PDict d) w = (case w of PDict e \<Rightarrow> length d = length e \<and> py_eq_dict d e | _ \<Rightarrow> False)"
| "py_eq (PBool b) w = (py_num w = Some (of_bool b))"
| "py_eq (PInt i) w = (py_num w = Some (of_int i))"
| "py_eq (PFloat r) w = (py_num w = Some r)"
| "py_eq_list [] ys = (ys = [])"
| "py_eq_list (x # xs) ys = (case ys of [] \<Rightarrow> False | y # zs \<Rightarrow> py_eq x y \<and> py_eq_list xs zs)"
| "py_eq_dict [] e = True"
| "py_eq_dict ((k, v) # d) e =
     ((case map_of e k of None \<Rightarrow> False | Some w \<Rightarrow> py_eq v w) \<and> py_eq_dict d e)"

definition py_in :: "pyval \<Rightarrow> pyval list \<Rightarrow> bool" where
  "py_in v xs = list_ex (py_eq v) xs"

fun type_name :: "pyval \<Rightarrow> string" where
  "type_name PNone = ''NoneType''"
| "type_name (PBool b) = ''bool''"
| "type_name (PInt i) = ''int''"
| "type_name (PFloat r) = ''float''"
| "type_name (PStr s) = ''str''"
| "type_name (PList xs) = ''list''"
| "type_name (PDict d) = ''dict''"
| "type_name (PStream cs) = ''functools.partial''"

text \<open>\<open>isinstance(w, type(v))\<close>: \<open>bool\<close> is a subclass of \<open>int\<close>.\<close>

definition same_type :: "pyval \<Rightarrow> pyval \<Rightarrow> bool" where
  "same_type w v = (type_name w = type_name v \<or> type_name w = ''bool'' \<and> type_name v = ''int'')"

definition type_repr :: "pyval \<Rightarrow> string" where
  "type_repr v = ''<class '' @ [CHR 0x27] @ type_name v @ [CHR 0x27] @ ''>''"

fun is_str :: "pyval \<Rightarrow> bool" where
  "is_str (PStr s) = True" | "is_str v = False"

fun is_list :: "pyval \<Rightarrow> bool" where
  "is_list (PList xs) = True" | "is_list v = False"

fun is_dict :: "pyval \<Rightarrow> bool" where
  "is_dict (PDict d) = True" | "is_dict v = False"

fun is_stream :: "pyval \<Rightarrow> bool" where
  "is_stream (PStream cs) = True" | "is_stream v = False"

text \<open>\<open>isinstance(v, numbers.Number)\<close> holds of booleans too.\<close>

definition is_number :: "pyval \<Rightarrow> bool" where
  "is_number v = (py_num v \<noteq> None)"

text \<open>\<open>d.get(k)\<close> and \<open>d.get(k, v)\<close>.\<close>

definition get_or :: "pdict \<Rightarrow> string \<Rightarrow> pyval \<Rightarrow> pyval" where
  "get_or d k v = (case map_of d k of None \<Rightarrow> v | Some w \<Rightarrow> w)"

abbreviation get_none :: "pdict \<Rightarrow> string \<Rightarrow> pyval" where
  "get_none d k \<equiv> get_or d k PNone"

text \<open>\<open>a or b\<close>.\<close>

definition py_or :: "pyval \<Rightarrow> pyval \<Rightarrow> pyval" where
  "py_or a b = (if truthy a then a else b)"

text \<open>Attribute and item access on a value of the wrong class raises.\<close>

definition no_attr :: "pyval \<Rightarrow> string \<Rightarrow> 'a res" where
  "no_attr v a = raise AttributeError
     ([CHR 0x27] @ type_name v @ [CHR 0x27] @ '' object has no attribute '' @ [CHR 0x27] @ a @ [CHR 0x27])"

definition as_str :: "string \<Rightarrow> pyval \<Rightarrow> string res" where
  "as_str a v = (case v of PStr s \<Rightarrow> Inr s | _ \<Rightarrow> no_attr v a)"

definition as_dict :: "string \<Rightarrow> pyval \<Rightarrow> pdict res" where
  "as_dict a v = (case v of PDict d \<Rightarrow> Inr d | _ \<Rightarrow> no_attr v a)"

definition key_error :: "string \<Rightarrow> 'a res" where
  "key_error k = raise KeyError ([CHR 0x27] @ k @ [CHR 0x27])"

text \<open>\<open>d[k]\<close> on an object: a missing key raises.\<close>

definition dict_item :: "pdict \<Rightarrow> string \<Rightarrow> pyval res" where
  "dict_item d k = (case map_of d k of None \<Rightarrow> key_error k | Some v \<Rightarrow> Inr v)"

text \<open>\<open>for x in v\<close>: the items of a list, the keys of an object, the characters of a string.\<close>

definition py_iter :: "pyval \<Rightarrow> pyval list res" where
  "py_iter v = (case v of
     PList xs \<Rightarrow> Inr xs
   | PDict d \<Rightarrow> Inr (map (PStr \<circ> fst) d)
   | PStr s \<Rightarrow> Inr (map (\<lambda>c. PStr [c]) s)
   | _ \<Rightarrow> raise TypeError ([CHR 0x27] @ type_name v @ [CHR 0x27] @ '' object is not iterable''))"

section \<open>Well-formed values\<close>

text \<open>Every object of a value has distinct keys, at every depth.\<close>

fun pv_ok :: "pyval \<Rightarrow> bool"
and pv_ok_list :: "pyval list \<Rightarrow> bool"
and pv_ok_dict :: "(string \<times> pyval) list \<Rightarrow> bool" where
  "pv_ok (PList xs) = pv_ok_list xs"
| "pv_ok (PDict d) = (distinct (map fst d) \<and> pv_ok_dict d)"
| "pv_ok v = True"
| "pv_ok_list [] = True"
| "pv_ok_list (x # xs) = (pv_ok x \<and> pv_ok_list xs)"
| "pv_ok_dict [] = True"
| "pv_ok_dict ((k, v) # d) = (pv_ok v \<and> pv_ok_dict d)"

lemma pv_ok_list_iff: "pv_ok_list xs \<longleftrightarrow> (\<forall>x \<in> set xs. pv_ok x)"
  by (induction xs) auto

lemma pv_ok_dict_iff: "pv_ok_dict d \<longleftrightarrow> (\<forall>p \<in> set d. pv_ok (snd p))"
  by (induction d) auto

fun stream_free :: "pyval \<Rightarrow> bool"
and stream_free_list :: "pyval list \<Rightarrow> bool"
and stream_free_dict :: "(string \<times> pyval) list \<Rightarrow> bool" where
  "stream_free (PList xs) = stream_free_list xs"
| "stream_free (PDict d) = stream_free_dict d"
| "stream_free (PStream cs) = False"
| "stream_free v = True"
| "stream_free_list [] = True"
| "stream_free_list (x # xs) = (stream_free x \<and> stream_free_list xs)"
| "stream_free_dict [] = True"
| "stream_free_dict ((k, v) # d) = (stream_free v \<and> stream_free_dict d)"

text \<open>Equality is reflexive on stream-free, well-formed values.\<close>

lemma py_eq_refl_aux:
  shows "pv_ok v \<Longrightarrow> stream_free v \<Longrightarrow> py_eq v v"
    and "pv_ok_list xs \<Longrightarrow> stream_free_list xs \<Longrightarrow> py_eq_list xs xs"
    and "pv_ok_dict d \<Longrightarrow> stream_free_dict d \<Longrightarrow> (\<And>k v. (k, v) \<in> set d \<Longrightarrow> map_of e k = Some v) \<Longrightarrow> py_eq_dict d e"
proof (induction v and xs and d arbitrary: and and e
    rule: pv_ok_pv_ok_list_pv_ok_dict.induct)
  case (2 d)
  then show ?case by auto
next
  case (7 k v d)
  have k: "map_of e k = Some v" by (rule "7.prems"(3)) simp
  have "py_eq v v" using "7.IH"(1) "7.prems" by simp
  moreover have "py_eq_dict d e"
    by (rule "7.IH"(2)) (use "7.prems" in auto)
  ultimately show ?case using k by simp
qed auto

lemma py_eq_refl [simp]: "pv_ok v \<Longrightarrow> stream_free v \<Longrightarrow> py_eq v v"
  by (rule py_eq_refl_aux(1))

lemma py_eq_None_right [simp]: "py_eq v PNone \<longleftrightarrow> v = PNone"
  by (cases v) auto

lemma py_eq_Str_right [simp]: "py_eq v (PStr s) \<longleftrightarrow> v = PStr s"
  by (cases v) auto

lemma py_eq_num: "py_num v = Some a \<Longrightarrow> py_eq v w \<longleftrightarrow> py_num w = Some a"
  by (cases v) auto

lemma get_or_dset: "get_or (dset k v d) k' w = (if k' = k then v else get_or d k' w)"
  by (simp add: get_or_def dget_dset)

section \<open>Text of a value\<close>

fun digits_fuel :: "nat \<Rightarrow> nat \<Rightarrow> string" where
  "digits_fuel 0 n = []"
| "digits_fuel (Suc f) n =
     (if n < 10 then [digit_chars ! n] else digits_fuel f (n div 10) @ [digit_chars ! (n mod 10)])"

lemma digits_fuel_numeral [simp]:
  "digits_fuel (numeral w) n =
     (if n < 10 then [digit_chars ! n] else digits_fuel (pred_numeral w) (n div 10) @ [digit_chars ! (n mod 10)])"
  by (simp add: numeral_eq_Suc)

definition nat_str :: "nat \<Rightarrow> string" where
  "nat_str n = digits_fuel (Suc n) n"

definition int_str :: "int \<Rightarrow> string" where
  "int_str i = (if i < 0 then CHR ''-'' # nat_str (nat (- i)) else nat_str (nat i))"

text \<open>
  The decimal text of a float: at least one fractional digit, and seventeen at most (a
  float whose exact decimal is longer is cut there).
\<close>

fun frac_places :: "nat \<Rightarrow> rat \<Rightarrow> nat" where
  "frac_places 0 r = 0"
| "frac_places (Suc f) r = (if r = of_int \<lfloor>r\<rfloor> then 0 else Suc (frac_places f (r * 10)))"

lemma frac_places_numeral [simp]:
  "frac_places (numeral w) r = (if r = of_int \<lfloor>r\<rfloor> then 0 else Suc (frac_places (pred_numeral w) (r * 10)))"
  by (simp add: numeral_eq_Suc)

definition pad_left :: "nat \<Rightarrow> string \<Rightarrow> string" where
  "pad_left n s = replicate (n - length s) (CHR ''0'') @ s"

definition float_str :: "rat \<Rightarrow> string" where
  "float_str r =
     (let a = \<bar>r\<bar>; k = max 1 (frac_places 17 a); n = nat \<lfloor>a * 10 ^ k\<rfloor>
      in (if r < 0 then ''-'' else '''') @ nat_str (n div 10 ^ k) @ ''.'' @ pad_left k (nat_str (n mod 10 ^ k)))"

definition hex_digit :: "nat \<Rightarrow> char" where
  "hex_digit n = ''0123456789abcdef'' ! n"

text \<open>\<open>repr\<close> of a string: single quotes unless the text holds them and no double quote.\<close>

definition repr_quote :: "string \<Rightarrow> char" where
  "repr_quote s = (if CHR 0x27 \<in> set s \<and> CHR 0x22 \<notin> set s then CHR 0x22 else CHR 0x27)"

definition repr_char :: "char \<Rightarrow> char \<Rightarrow> string" where
  "repr_char q c =
     (if c = CHR 0x5C then [CHR 0x5C, CHR 0x5C]
      else if c = q then [CHR 0x5C, q]
      else if c = CHR 0x0A then [CHR 0x5C, CHR ''n'']
      else if c = CHR 0x0D then [CHR 0x5C, CHR ''r'']
      else if c = CHR 0x09 then [CHR 0x5C, CHR ''t'']
      else if (of_char c :: nat) < 32 \<or> c = CHR 0x7F
        then [CHR 0x5C, CHR ''x'', hex_digit (of_char c div 16), hex_digit (of_char c mod 16)]
      else [c])"

definition str_repr :: "string \<Rightarrow> string" where
  "str_repr s = (let q = repr_quote s in [q] @ concat (map (repr_char q) s) @ [q])"

fun py_repr :: "pyval \<Rightarrow> string"
and repr_list :: "pyval list \<Rightarrow> string list"
and repr_dict :: "(string \<times> pyval) list \<Rightarrow> string list" where
  "py_repr PNone = ''None''"
| "py_repr (PBool b) = (if b then ''True'' else ''False'')"
| "py_repr (PInt i) = int_str i"
| "py_repr (PFloat r) = float_str r"
| "py_repr (PStr s) = str_repr s"
| "py_repr (PList xs) = ''['' @ join_str '', '' (repr_list xs) @ '']''"
| "py_repr (PDict d) = ''{'' @ join_str '', '' (repr_dict d) @ ''}''"
| "py_repr (PStream cs) = ''functools.partial(...)''"
| "repr_list [] = []"
| "repr_list (x # xs) = py_repr x # repr_list xs"
| "repr_dict [] = []"
| "repr_dict ((k, v) # d) = (str_repr k @ '': '' @ py_repr v) # repr_dict d"

definition py_str :: "pyval \<Rightarrow> string" where
  "py_str v = (case v of PStr s \<Rightarrow> s | _ \<Rightarrow> py_repr v)"

lemma py_str_Str [simp]: "py_str (PStr s) = s"
  by (simp add: py_str_def)

section \<open>Numbers in strings\<close>

definition digit_val :: "char \<Rightarrow> nat" where
  "digit_val c = length (takeWhile (\<lambda>d. d \<noteq> c) digit_chars)"

definition nat_of_digits :: "string \<Rightarrow> nat" where
  "nat_of_digits s = foldl (\<lambda>n c. n * 10 + digit_val c) 0 s"

definition split_sign :: "string \<Rightarrow> bool \<times> string" where
  "split_sign s = (case s of [] \<Rightarrow> (False, []) | c # cs \<Rightarrow>
     if c = CHR ''-'' then (True, cs) else if c = CHR ''+'' then (False, cs) else (False, s))"

text \<open>\<open>int(s)\<close> of a string in decimal (underscores between digits are not modelled).\<close>

definition int_of_str :: "string \<Rightarrow> int option" where
  "int_of_str s = (let (neg, ds) = split_sign (strip s)
     in if isdigit ds then Some (if neg then - int (nat_of_digits ds) else int (nat_of_digits ds)) else None)"

text \<open>\<open>float(s)\<close> of a decimal literal with an optional fraction and exponent.\<close>

definition parse_exponent :: "string \<Rightarrow> int option" where
  "parse_exponent s = (case s of [] \<Rightarrow> Some 0 | c # cs \<Rightarrow>
     if c = CHR ''e'' \<or> c = CHR ''E'' then
       (let (neg, ds) = split_sign cs
        in if isdigit ds then Some (if neg then - int (nat_of_digits ds) else int (nat_of_digits ds)) else None)
     else None)"

definition pow10 :: "int \<Rightarrow> rat" where
  "pow10 e = (if 0 \<le> e then 10 ^ nat e else 1 / 10 ^ nat (- e))"

definition parse_decimal :: "string \<Rightarrow> rat option" where
  "parse_decimal s =
     (let ip = takeWhile is_digit_char s; r1 = dropWhile is_digit_char s;
          (fp, r2) = (case r1 of [] \<Rightarrow> ([], []) | c # cs \<Rightarrow>
             if c = CHR ''.'' then (takeWhile is_digit_char cs, dropWhile is_digit_char cs) else ([], r1))
      in if ip = [] \<and> fp = [] then None
         else (case parse_exponent r2 of None \<Rightarrow> None
               | Some e \<Rightarrow> Some (of_nat (nat_of_digits (ip @ fp)) * pow10 (e - int (length fp)))))"

definition float_of_str :: "string \<Rightarrow> rat option" where
  "float_of_str s = (let (neg, t) = split_sign (strip s)
     in (case parse_decimal t of None \<Rightarrow> None | Some r \<Rightarrow> Some (if neg then - r else r)))"

text \<open>\<open>float(v)\<close> and \<open>int(v)\<close> on a value.\<close>

definition py_float :: "pyval \<Rightarrow> rat res" where
  "py_float v = (case v of
     PStr s \<Rightarrow> (case float_of_str s of Some r \<Rightarrow> Inr r
        | None \<Rightarrow> raise ValueError (''could not convert string to float: '' @ str_repr s))
   | _ \<Rightarrow> (case py_num v of Some r \<Rightarrow> Inr r
        | None \<Rightarrow> raise TypeError (''float() argument must be a string or a real number, not ''
                                    @ [CHR 0x27] @ type_name v @ [CHR 0x27])))"

definition trunc_rat :: "rat \<Rightarrow> int" where
  "trunc_rat r = (if r < 0 then - \<lfloor>- r\<rfloor> else \<lfloor>r\<rfloor>)"

definition py_int :: "pyval \<Rightarrow> int res" where
  "py_int v = (case v of
     PStr s \<Rightarrow> (case int_of_str s of Some i \<Rightarrow> Inr i
        | None \<Rightarrow> raise ValueError (''invalid literal for int() with base 10: '' @ str_repr s))
   | PBool b \<Rightarrow> Inr (of_bool b)
   | PInt i \<Rightarrow> Inr i
   | PFloat r \<Rightarrow> Inr (trunc_rat r)
   | _ \<Rightarrow> raise TypeError (''int() argument must be a string, a bytes-like object or a real number, not ''
                            @ [CHR 0x27] @ type_name v @ [CHR 0x27]))"

section \<open>Order\<close>

text \<open>
  \<open>v < w\<close>, \<open>v > w\<close>, \<open>v <= w\<close>, \<open>v >= w\<close>: numbers by value, strings and lists
  lexicographically, nothing else.
\<close>

datatype cmp_op = CLt | CGt | CLe | CGe

fun cmp_text :: "cmp_op \<Rightarrow> string" where
  "cmp_text CLt = ''<''" | "cmp_text CGt = ''>''" | "cmp_text CLe = ''<=''" | "cmp_text CGe = ''>=''"

fun cmp_ord :: "cmp_op \<Rightarrow> 'a::linorder \<Rightarrow> 'a \<Rightarrow> bool" where
  "cmp_ord CLt a b = (a < b)" | "cmp_ord CGt a b = (b < a)"
| "cmp_ord CLe a b = (a \<le> b)" | "cmp_ord CGe a b = (b \<le> a)"

definition no_order :: "cmp_op \<Rightarrow> pyval \<Rightarrow> pyval \<Rightarrow> 'a res" where
  "no_order op v w = raise TypeError ([CHR 0x27] @ cmp_text op @ [CHR 0x27] @ '' not supported between instances of ''
     @ [CHR 0x27] @ type_name v @ [CHR 0x27] @ '' and '' @ [CHR 0x27] @ type_name w @ [CHR 0x27])"

fun py_cmp :: "cmp_op \<Rightarrow> pyval \<Rightarrow> pyval \<Rightarrow> bool res"
and py_cmp_list :: "cmp_op \<Rightarrow> pyval list \<Rightarrow> pyval list \<Rightarrow> bool res" where
  "py_cmp op (PStr s) w = (case w of PStr t \<Rightarrow> Inr (cmp_ord op s t) | _ \<Rightarrow> no_order op (PStr s) w)"
| "py_cmp op (PList xs) w = (case w of PList ys \<Rightarrow> py_cmp_list op xs ys | _ \<Rightarrow> no_order op (PList xs) w)"
| "py_cmp op v w = (case (py_num v, py_num w) of (Some a, Some b) \<Rightarrow> Inr (cmp_ord op a b) | _ \<Rightarrow> no_order op v w)"
| "py_cmp_list op [] ys = Inr (cmp_ord op 0 (length ys))"
| "py_cmp_list op (x # xs) ys = (case ys of [] \<Rightarrow> Inr (cmp_ord op (1::nat) 0)
     | y # zs \<Rightarrow> if py_eq x y then py_cmp_list op xs zs else py_cmp op x y)"

section \<open>Indexing\<close>

text \<open>\<open>xs[i]\<close>: a negative index counts from the end, and outside the range it raises.\<close>

definition py_index :: "'a list \<Rightarrow> int \<Rightarrow> 'a res" where
  "py_index xs i =
     (let len = length xs; from_end = (i < 0 \<and> nat (- i) \<le> len)
      in if from_end then Inr (xs ! (len - nat (- i)))
         else if i \<ge> 0 \<and> nat i < len then Inr (xs ! nat i)
         else raise IndexError ''list index out of range'')"

text \<open>The start of a slice: \<open>xs[i:]\<close> and its complement \<open>xs[:i]\<close> clip to the list.\<close>

definition slice_pos :: "nat \<Rightarrow> int \<Rightarrow> nat" where
  "slice_pos n i = (if i < 0 then nat (max 0 (int n + i)) else min n (nat i))"

definition slice_from :: "'a list \<Rightarrow> int \<Rightarrow> 'a list" where
  "slice_from xs i = drop (slice_pos (length xs) i) xs"

definition slice_to :: "'a list \<Rightarrow> int \<Rightarrow> 'a list" where
  "slice_to xs i = take (slice_pos (length xs) i) xs"

lemma slice_to_from: "slice_to xs i @ slice_from xs i = xs"
  by (simp add: slice_to_def slice_from_def)

text \<open>\<open>v[k]\<close> with a string key, and \<open>v.get(k, w)\<close>.\<close>

definition subscript :: "pyval \<Rightarrow> string \<Rightarrow> pyval res" where
  "subscript v k = (case v of
     PDict d \<Rightarrow> dict_item d k
   | PList xs \<Rightarrow> raise TypeError ''list indices must be integers or slices, not str''
   | PStr s \<Rightarrow> raise TypeError (''string indices must be integers, not '' @ [CHR 0x27] @ ''str'' @ [CHR 0x27])
   | _ \<Rightarrow> raise TypeError ([CHR 0x27] @ type_name v @ [CHR 0x27] @ '' object is not subscriptable''))"

definition get_method :: "pyval \<Rightarrow> string \<Rightarrow> pyval \<Rightarrow> pyval res" where
  "get_method v k w = (case v of PDict d \<Rightarrow> Inr (get_or d k w) | _ \<Rightarrow> no_attr v ''get'')"

text \<open>Hashing: lists and objects cannot be keys.\<close>

definition usable_key :: "pyval \<Rightarrow> bool" where
  "usable_key v = (\<not> is_list v \<and> \<not> is_dict v)"

definition bad_key :: "pyval \<Rightarrow> 'a res" where
  "bad_key v = raise TypeError (''unhashable type: '' @ [CHR 0x27] @ type_name v @ [CHR 0x27])"

text \<open>\<open>v in s\<close>, \<open>s.startswith(v)\<close> and \<open>s.endswith(v)\<close> want a string.\<close>

definition str_arg :: "pyval \<Rightarrow> string res" where
  "str_arg v = (case v of PStr s \<Rightarrow> Inr s
     | _ \<Rightarrow> raise TypeError (''requires a string, not '' @ type_name v))"

lemmas py_value_defs = py_in_def same_type_def is_number_def get_or_def py_or_def no_attr_def
  as_str_def as_dict_def key_error_def dict_item_def py_str_def

declare py_value_defs [py_defs] type_repr_def [py_defs] nat_str_def [py_defs] int_str_def [py_defs]
  pad_left_def [py_defs] float_str_def [py_defs] hex_digit_def [py_defs]
  repr_quote_def [py_defs] repr_char_def [py_defs] str_repr_def [py_defs] digit_val_def [py_defs]
  nat_of_digits_def [py_defs] split_sign_def [py_defs] int_of_str_def [py_defs]
  parse_exponent_def [py_defs] pow10_def [py_defs] parse_decimal_def [py_defs]
  float_of_str_def [py_defs] py_float_def [py_defs] trunc_rat_def [py_defs] py_int_def [py_defs]
  no_order_def [py_defs] py_iter_def [py_defs] py_index_def [py_defs]
  slice_pos_def [py_defs] slice_from_def [py_defs] slice_to_def [py_defs] subscript_def [py_defs]
  get_method_def [py_defs] str_arg_def [py_defs]

text \<open>\<open>str.split()\<close>.\<close>

definition py_words :: "string \<Rightarrow> string list" where
  "py_words s = filter (\<lambda>w. w \<noteq> []) (split_str [CHR 0x20] (map (\<lambda>c. if c \<in> set ascii_space then CHR 0x20 else c) s))"

end
