(* ===== verification/PyRegex.thy ===== *)
theory PyRegex
  imports PyVal
begin

text \<open>
  The fragment of Python's \<open>re\<close> the program uses: character classes, sequence, ordered
  alternative, greedy repetition and numbered groups. \<open>rx_run\<close> lists every way a
  pattern can match a prefix of the text in the order the backtracking matcher tries
  them, so the head of the list is \<open>re.match\<close>. The patterns of the program never match
  the empty string; where one does, scanning skips it.
\<close>

datatype rx =
    REps
  | RSet "char list"
  | RNotSet "char list"
  | RSeq rx rx
  | RAlt rx rx
  | RStar rx
  | RGroup nat rx

type_synonym captures = "(nat \<times> string) list"

function rx_run :: "rx \<Rightarrow> string \<Rightarrow> captures \<Rightarrow> (string \<times> captures) list" where
  "rx_run REps s c = [(s, c)]"
| "rx_run (RSet cs) s c = (case s of [] \<Rightarrow> [] | x # xs \<Rightarrow> if x \<in> set cs then [(xs, c)] else [])"
| "rx_run (RNotSet cs) s c = (case s of [] \<Rightarrow> [] | x # xs \<Rightarrow> if x \<in> set cs then [] else [(xs, c)])"
| "rx_run (RSeq a b) s c = concat (map (\<lambda>(r, d). rx_run b r d) (rx_run a s c))"
| "rx_run (RAlt a b) s c = rx_run a s c @ rx_run b s c"
| "rx_run (RStar a) s c =
     concat (map (\<lambda>(r, d). if length r < length s then rx_run (RStar a) r d else []) (rx_run a s c)) @ [(s, c)]"
| "rx_run (RGroup i a) s c = map (\<lambda>(r, d). (r, (i, take (length s - length r) s) # d)) (rx_run a s c)"
  by pat_completeness auto
termination by (relation "measures [\<lambda>(a, s, c). size a, \<lambda>(a, s, c). length s]") auto

abbreviation RPlus :: "rx \<Rightarrow> rx" where
  "RPlus a \<equiv> RSeq a (RStar a)"

fun RStr :: "string \<Rightarrow> rx" where
  "RStr [] = REps"
| "RStr (x # xs) = RSeq (RSet [x]) (RStr xs)"

lemma rx_run_RStar_iff:
  "(r, d) \<in> set (rx_run (RStar a) s c) \<longleftrightarrow> (r = s \<and> d = c) \<or>
     (\<exists>r1 d1. (r1, d1) \<in> set (rx_run a s c) \<and> length r1 < length s \<and> (r, d) \<in> set (rx_run (RStar a) r1 d1))"
proof -
  have "(r, d) \<in> set (concat (map (\<lambda>(r, d). if length r < length s then F r d else []) L) @ [(s, c)]) \<longleftrightarrow>
      (r = s \<and> d = c) \<or> (\<exists>r1 d1. (r1, d1) \<in> set L \<and> length r1 < length s \<and> (r, d) \<in> set (F r1 d1))"
    for F :: "string \<Rightarrow> captures \<Rightarrow> (string \<times> captures) list" and L
    by (auto split: if_splits)
  then show ?thesis by (simp only: rx_run.simps(6) [of a s c])
qed

text \<open>What is left after a match is a suffix of the text.\<close>

lemma rx_run_suffix: "(r, d) \<in> set (rx_run a s c) \<Longrightarrow> suffix r s"
proof (induction a s c arbitrary: r d rule: rx_run.induct)
  case (4 a b s c)
  then obtain r1 d1 where "(r1, d1) \<in> set (rx_run a s c)" "(r, d) \<in> set (rx_run b r1 d1)"
    by auto
  with "4.IH"(1) [of r1 d1] "4.IH"(2) [OF _ refl, of r1 d1] show ?case by (auto intro: suffix_order.trans)
next
  case (6 a s c)
  from "6.prems" consider "r = s" | r1 d1 where "(r1, d1) \<in> set (rx_run a s c)"
      "length r1 < length s" "(r, d) \<in> set (rx_run (RStar a) r1 d1)"
    by (subst (asm) rx_run_RStar_iff) blast
  then show ?case
  proof cases
    case 1
    then show ?thesis by simp
  next
    case 2
    with "6.IH"(1) [of r1 d1] "6.IH"(2) [OF _ refl, of r1 d1] show ?thesis
      by (auto simp del: rx_run.simps intro: suffix_order.trans)
  qed
next
  case (5 a b s c)
  then show ?case by auto
next
  case (7 i a s c)
  then show ?case by auto
qed (auto split: list.splits if_splits intro: suffix_ConsI)

definition group :: "captures \<Rightarrow> nat \<Rightarrow> string" where
  "group c i = (case map_of c i of None \<Rightarrow> [] | Some t \<Rightarrow> t)"

text \<open>\<open>re.match\<close>: the first way the pattern matches at the start, as the matched text, the captures and the rest.\<close>

definition rx_match :: "rx \<Rightarrow> string \<Rightarrow> (string \<times> captures \<times> string) option" where
  "rx_match a s = (case rx_run a s [] of [] \<Rightarrow> None
     | (r, c) # ms \<Rightarrow> Some (take (length s - length r) s, c, r))"

lemma rx_match_append: "rx_match a s = Some (m, c, r) \<Longrightarrow> m @ r = s"
proof -
  assume a: "rx_match a s = Some (m, c, r)"
  then obtain ms where ms: "rx_run a s [] = (r, c) # ms" and m: "m = take (length s - length r) s"
    by (auto simp: rx_match_def split: list.splits)
  have "suffix r s" using rx_run_suffix [of r c a s "[]"] ms by simp
  then show ?thesis using m by (auto simp: suffix_def)
qed

text \<open>
  \<open>rx_search\<close>: the leftmost match that is not empty, as the text before it, the match,
  its captures and the rest.
\<close>

fun rx_search :: "rx \<Rightarrow> string \<Rightarrow> (string \<times> string \<times> captures \<times> string) option" where
  "rx_search a [] = None"
| "rx_search a (x # xs) =
     (case rx_match a (x # xs) of
        Some (m, c, r) \<Rightarrow>
          if m \<noteq> [] then Some ([], m, c, r)
          else map_option (\<lambda>(p, m, c, r). (x # p, m, c, r)) (rx_search a xs)
      | None \<Rightarrow> map_option (\<lambda>(p, m, c, r). (x # p, m, c, r)) (rx_search a xs))"

lemma rx_search_Cons:
  "rx_search a (x # xs) = Some (p, m, c, r) \<longleftrightarrow>
     rx_match a (x # xs) = Some (m, c, r) \<and> m \<noteq> [] \<and> p = [] \<or>
     (\<forall>m c r. rx_match a (x # xs) = Some (m, c, r) \<longrightarrow> m = []) \<and>
       (\<exists>p'. p = x # p' \<and> rx_search a xs = Some (p', m, c, r))"
  by (cases "rx_match a (x # xs)") (auto split: if_splits)

lemma rx_search_append: "rx_search a s = Some (p, m, c, r) \<Longrightarrow> p @ m @ r = s \<and> m \<noteq> []"
proof (induction s arbitrary: p)
  case Nil
  then show ?case by simp
next
  case (Cons x xs)
  then show ?case unfolding rx_search_Cons by (auto dest: rx_match_append)
qed

declare rx_search.simps(2) [simp del]

text \<open>
  \<open>rx_pieces\<close> is \<open>finditer\<close>: every match with the text before it, and the text after the last one.
\<close>

function rx_pieces :: "rx \<Rightarrow> string \<Rightarrow> (string \<times> string \<times> captures) list \<times> string" where
  "rx_pieces a s = (case rx_search a s of None \<Rightarrow> ([], s)
     | Some (p, m, c, r) \<Rightarrow>
         if length r < length s then (case rx_pieces a r of (ps, t) \<Rightarrow> ((p, m, c) # ps, t)) else ([], s))"
  by pat_completeness auto
termination by (relation "measure (\<lambda>(a, s). length s)") auto

declare rx_pieces.simps [simp del]

lemma rx_pieces_concat:
  "rx_pieces a s = (ps, t) \<Longrightarrow> concat (map (\<lambda>(p, m, c). p @ m) ps) @ t = s"
proof (induction a s arbitrary: ps t rule: rx_pieces.induct)
  case (1 a s)
  show ?case
  proof (cases "rx_search a s")
    case None
    with 1 show ?thesis by (simp add: rx_pieces.simps)
  next
    case (Some q)
    obtain p m c r where q: "q = (p, m, c, r)" by (cases q)
    have s: "p @ m @ r = s" "m \<noteq> []" using rx_search_append Some q by auto
    then have len: "length r < length s" by auto
    obtain ps' t' where r: "rx_pieces a r = (ps', t')" by (cases "rx_pieces a r")
    have "concat (map (\<lambda>(p, m, c). p @ m) ps') @ t' = r" using 1 Some q len r by simp
    then show ?thesis using 1 Some q len r s by (auto simp: rx_pieces.simps [of a s])
  qed
qed

text \<open>\<open>re.sub\<close> with a function of the match, and the odd and even items of \<open>re.split\<close> with one group.\<close>

definition rx_sub :: "rx \<Rightarrow> (string \<Rightarrow> captures \<Rightarrow> string) \<Rightarrow> string \<Rightarrow> string" where
  "rx_sub a f s = (case rx_pieces a s of (ps, t) \<Rightarrow> concat (map (\<lambda>(p, m, c). p @ f m c) ps) @ t)"

lemma rx_sub_id: "rx_sub a (\<lambda>m c. m) s = s"
  using rx_pieces_concat [of a s] by (auto simp: rx_sub_def split: prod.splits)

lemma rx_sub_no_match: "rx_search a s = None \<Longrightarrow> rx_sub a f s = s"
  by (simp add: rx_sub_def rx_pieces.simps)

section \<open>Captured groups\<close>

fun group_free :: "rx \<Rightarrow> bool" where
  "group_free (RSeq a b) = (group_free a \<and> group_free b)"
| "group_free (RAlt a b) = (group_free a \<and> group_free b)"
| "group_free (RStar a) = group_free a"
| "group_free (RGroup i a) = False"
| "group_free a = True"

lemma group_free_captures: "(r, d) \<in> set (rx_run a s c) \<Longrightarrow> group_free a \<Longrightarrow> d = c"
proof (induction a s c arbitrary: r d rule: rx_run.induct)
  case (6 a s c)
  from "6.prems"(1) consider "d = c" | r1 d1 where "(r1, d1) \<in> set (rx_run a s c)"
      "length r1 < length s" "(r, d) \<in> set (rx_run (RStar a) r1 d1)"
    by (subst (asm) rx_run_RStar_iff) blast
  then show ?case
  proof cases
    case 2
    with "6.IH"(1) [of r1 d1] "6.IH"(2) [OF _ refl, of r1 d1] "6.prems"(2) show ?thesis
      by (auto simp del: rx_run.simps)
  qed simp
next
  case (4 a b s c)
  then show ?case by fastforce
qed (auto split: list.splits if_splits)

lemma group_capture:
  assumes "(r, d) \<in> set (rx_run (RGroup i a) s c)" and "group_free a"
  shows "\<exists>x. s = x @ r \<and> d = (i, x) # c"
proof -
  obtain d0 where d0: "(r, d0) \<in> set (rx_run a s c)" "d = (i, take (length s - length r) s) # d0"
    using assms(1) by auto
  have "suffix r s" "d0 = c"
    using rx_run_suffix [OF d0(1)] group_free_captures [OF d0(1) assms(2)] by simp_all
  then show ?thesis using d0(2) by (auto simp: suffix_def)
qed

text \<open>A pattern made of four groups in a row cuts the match into their texts.\<close>

lemma four_groups:
  assumes "(r, d) \<in> set (rx_run (RSeq (RGroup 1 a1) (RSeq (RGroup 2 a2) (RSeq (RGroup 3 a3) (RGroup 4 a4)))) s [])"
    and "group_free a1" "group_free a2" "group_free a3" "group_free a4"
  shows "s = (group d 1 @ group d 2 @ group d 3 @ group d 4) @ r"
proof -
  obtain r1 d1 where 1: "(r1, d1) \<in> set (rx_run (RGroup 1 a1) s [])"
    and "(r, d) \<in> set (rx_run (RSeq (RGroup 2 a2) (RSeq (RGroup 3 a3) (RGroup 4 a4))) r1 d1)"
    using assms(1) by (auto simp only: rx_run.simps(4) set_concat set_map)
  then obtain r2 d2 where 2: "(r2, d2) \<in> set (rx_run (RGroup 2 a2) r1 d1)"
    and "(r, d) \<in> set (rx_run (RSeq (RGroup 3 a3) (RGroup 4 a4)) r2 d2)"
    by (auto simp only: rx_run.simps(4) set_concat set_map)
  then obtain r3 d3 where 3: "(r3, d3) \<in> set (rx_run (RGroup 3 a3) r2 d2)"
    and 4: "(r, d) \<in> set (rx_run (RGroup 4 a4) r3 d3)"
    by (auto simp only: rx_run.simps(4) set_concat set_map)
  show ?thesis
    using group_capture [OF 1 assms(2)] group_capture [OF 2 assms(3)]
      group_capture [OF 3 assms(4)] group_capture [OF 4 assms(5)]
    by (auto simp: group_def)
qed

lemma rx_search_match: "rx_search a s = Some (p, m, c, r) \<Longrightarrow> \<exists>t. rx_match a t = Some (m, c, r)"
  by (induction s arbitrary: p) (auto simp: rx_search_Cons)

lemma rx_pieces_match: "rx_pieces a s = (ps, t) \<Longrightarrow> (p, m, c) \<in> set ps \<Longrightarrow> \<exists>u r. rx_match a u = Some (m, c, r)"
proof (induction a s arbitrary: ps t rule: rx_pieces.induct)
  case (1 a s)
  show ?case
  proof (cases "rx_search a s")
    case None
    with 1 show ?thesis by (simp add: rx_pieces.simps)
  next
    case (Some q)
    obtain p' m' c' r where q: "q = (p', m', c', r)" by (cases q)
    have len: "length r < length s" using rx_search_append Some q by fastforce
    obtain ps' t' where r: "rx_pieces a r = (ps', t')" by (cases "rx_pieces a r")
    have ps: "ps = (p', m', c') # ps'" using "1.prems"(1) Some q len r by (simp add: rx_pieces.simps [of a s])
    show ?thesis
      using 1 Some q len r ps rx_search_match [of a s p' m' c' r] by auto
  qed
qed

text \<open>Replacing every match by itself changes nothing.\<close>

lemma rx_sub_same:
  assumes "\<And>u m c r. rx_match a u = Some (m, c, r) \<Longrightarrow> f m c = m"
  shows "rx_sub a f s = s"
proof -
  obtain ps t where pt: "rx_pieces a s = (ps, t)" by (cases "rx_pieces a s")
  have "map (\<lambda>(p, m, c). p @ f m c) ps = map (\<lambda>(p, m, c). p @ m) ps"
    using rx_pieces_match [OF pt] assms by (intro map_cong refl) fastforce
  then have "concat (map (\<lambda>(p, m, c). p @ f m c) ps) @ t = s"
    using rx_pieces_concat [OF pt] by (rule arg_cong [where f = "\<lambda>x. concat x @ t", THEN trans])
  then show ?thesis by (simp add: rx_sub_def pt)
qed

section \<open>The patterns of the canvas\<close>

definition upper_lower_digit :: "char list" where
  "upper_lower_digit = upper_letters @ lower_letters @ digit_chars"

text \<open>A literal, in either case where \<open>re.IGNORECASE\<close> is given.\<close>

definition both_cases :: "char \<Rightarrow> char list" where
  "both_cases x = [x] @ (case map_of (zip lower_letters upper_letters) x of None \<Rightarrow> [] | Some u \<Rightarrow> [u])"

fun RStrI :: "bool \<Rightarrow> string \<Rightarrow> rx" where
  "RStrI ic [] = REps"
| "RStrI ic (x # xs) = RSeq (RSet (if ic then both_cases x else [x])) (RStrI ic xs)"

text \<open>\<open>\{* *\{( ... )\} *\}*\<close> around the alternatives of a reference.\<close>

definition braced :: "rx \<Rightarrow> rx" where
  "braced a = RSeq (RStar (RSet ''{'')) (RSeq (RStar (RSet '' '')) (RSeq (RSet ''{'')
     (RSeq (RGroup 1 a) (RSeq (RSet ''}'') (RSeq (RStar (RSet '' '')) (RStar (RSet ''}'')))))))"

definition variable_ref_rx :: "bool \<Rightarrow> rx" where
  "variable_ref_rx ic = braced
     (RAlt (RSeq (RPlus (RSet (upper_lower_digit @ '':'')))
             (RSeq (RSet ''@'') (RPlus (RSet (upper_lower_digit @ ''_.-'')))))
       (RAlt (RSeq (RStrI ic ''sys.'') (RPlus (RSet (upper_lower_digit @ ''_.''))))
         (RSeq (RStrI ic ''env.'') (RPlus (RSet (upper_lower_digit @ ''_.''))))))"

definition iteration_alias_rx :: "rx" where
  "iteration_alias_rx = braced (RAlt (RStrI True ''item'') (RAlt (RStrI True ''index'') (RStrI True ''result'')))"

declare group_def [py_defs] rx_match_def [py_defs] rx_sub_def [py_defs] rx_pieces.simps [py_defs] rx_search.simps(2) [py_defs]
  upper_lower_digit_def [py_defs] both_cases_def [py_defs] braced_def [py_defs]
  variable_ref_rx_def [py_defs] iteration_alias_rx_def [py_defs]

end
