(* ===== verification/PyJson.thy ===== *)
theory PyJson
  imports PyVal
begin

text \<open>
  \<open>json.dumps(v, ensure_ascii=False)\<close> and \<open>json.loads(s)\<close>, and the round trip between
  them. The parser carries fuel, and twice the length of the text is always enough for a
  printed value (\<open>json_loads_dumps\<close>). \<open>NaN\<close> and the infinities are not modelled.
\<close>

section \<open>Printing\<close>

definition json_char :: "char \<Rightarrow> string" where
  "json_char c =
     (if c = CHR 0x22 then [CHR 0x5C, CHR 0x22]
      else if c = CHR 0x5C then [CHR 0x5C, CHR 0x5C]
      else if c = CHR 0x0A then [CHR 0x5C, CHR ''n'']
      else if c = CHR 0x0D then [CHR 0x5C, CHR ''r'']
      else if c = CHR 0x09 then [CHR 0x5C, CHR ''t'']
      else if c = CHR 0x0C then [CHR 0x5C, CHR ''f'']
      else if c = CHR 0x08 then [CHR 0x5C, CHR ''b'']
      else if (of_char c :: nat) < 32
        then [CHR 0x5C, CHR ''u'', CHR ''0'', CHR ''0'', hex_digit (of_char c div 16), hex_digit (of_char c mod 16)]
      else [c])"

definition json_str :: "string \<Rightarrow> string" where
  "json_str s = [CHR 0x22] @ concat (map json_char s) @ [CHR 0x22]"

fun json_dumps :: "pyval \<Rightarrow> string"
and json_items_text :: "pyval list \<Rightarrow> string list"
and json_members_text :: "(string \<times> pyval) list \<Rightarrow> string list" where
  "json_dumps PNone = ''null''"
| "json_dumps (PBool b) = (if b then ''true'' else ''false'')"
| "json_dumps (PInt i) = int_str i"
| "json_dumps (PFloat r) = float_str r"
| "json_dumps (PStr s) = json_str s"
| "json_dumps (PList xs) = ''['' @ join_str '', '' (json_items_text xs) @ '']''"
| "json_dumps (PDict d) = ''{'' @ join_str '', '' (json_members_text d) @ ''}''"
| "json_dumps (PStream cs) = []"
| "json_items_text [] = []"
| "json_items_text (x # xs) = json_dumps x # json_items_text xs"
| "json_members_text [] = []"
| "json_members_text ((k, v) # d) = (json_str k @ '': '' @ json_dumps v) # json_members_text d"

section \<open>Parsing\<close>

definition json_ws :: "char list" where
  "json_ws = [CHR '' '', CHR 0x09, CHR 0x0A, CHR 0x0D]"

definition skip_ws :: "string \<Rightarrow> string" where
  "skip_ws s = dropWhile (\<lambda>c. c \<in> set json_ws) s"

definition hex_val :: "char \<Rightarrow> nat option" where
  "hex_val c = map_of (zip ''0123456789abcdefABCDEF'' ([0..<16] @ [10..<16])) c"

definition hex4 :: "char \<Rightarrow> char \<Rightarrow> char \<Rightarrow> char \<Rightarrow> nat option" where
  "hex4 a b c d = (case (hex_val a, hex_val b, hex_val c, hex_val d) of
     (Some i, Some j, Some k, Some l) \<Rightarrow> Some (((i * 16 + j) * 16 + k) * 16 + l) | _ \<Rightarrow> None)"

definition utf8 :: "nat \<Rightarrow> string" where
  "utf8 n =
     (if n < 128 then [char_of n]
      else if n < 2048 then [char_of (192 + n div 64), char_of (128 + n mod 64)]
      else if n < 65536 then [char_of (224 + n div 4096), char_of (128 + n div 64 mod 64), char_of (128 + n mod 64)]
      else [char_of (240 + n div 262144), char_of (128 + n div 4096 mod 64),
            char_of (128 + n div 64 mod 64), char_of (128 + n mod 64)])"

definition simple_escape :: "char \<Rightarrow> char option" where
  "simple_escape c = map_of
     (zip [CHR 0x22, CHR 0x5C, CHR ''/'', CHR ''b'', CHR ''f'', CHR ''n'', CHR ''r'', CHR ''t'']
          [CHR 0x22, CHR 0x5C, CHR ''/'', CHR 0x08, CHR 0x0C, CHR 0x0A, CHR 0x0D, CHR 0x09]) c"

text \<open>The text after \<open>\u\<close> holding a low surrogate: its value and what follows it.\<close>

fun low_surrogate :: "string \<Rightarrow> (nat \<times> string) option" where
  "low_surrogate (x # y # a # b # c # d # r) =
     (if x = CHR 0x5C \<and> y = CHR ''u'' then
        (case hex4 a b c d of Some n \<Rightarrow> if 56320 \<le> n \<and> n < 57344 then Some (n, r) else None | None \<Rightarrow> None)
      else None)"
| "low_surrogate s = None"

lemma low_surrogate_length: "low_surrogate s = Some (n, r) \<Longrightarrow> length r < length s"
  by (induction s rule: low_surrogate.induct) (auto split: if_splits option.splits)

definition push_text :: "string \<Rightarrow> (string \<times> string) option \<Rightarrow> (string \<times> string) option" where
  "push_text t r = map_option (\<lambda>(s, r). (t @ s, r)) r"

function json_string :: "string \<Rightarrow> (string \<times> string) option" where
  "json_string [] = None"
| "json_string (c # cs) =
     (if c = CHR 0x22 then Some ([], cs)
      else if c = CHR 0x5C then
        (case cs of [] \<Rightarrow> None | e # ds \<Rightarrow>
           (if e = CHR ''u'' then
              (case ds of h1 # h2 # h3 # h4 # r \<Rightarrow>
                 (case hex4 h1 h2 h3 h4 of None \<Rightarrow> None
                  | Some n \<Rightarrow>
                     (if 55296 \<le> n \<and> n < 56320 then
                        (case low_surrogate r of
                           Some (m, r') \<Rightarrow> if length r' < length r
                              then push_text (utf8 (65536 + (n - 55296) * 1024 + (m - 56320))) (json_string r') else None
                         | None \<Rightarrow> push_text (utf8 n) (json_string r))
                      else push_text (utf8 n) (json_string r)))
               | _ \<Rightarrow> None)
            else (case simple_escape e of None \<Rightarrow> None | Some x \<Rightarrow> push_text [x] (json_string ds))))
      else if (of_char c :: nat) < 32 then None
      else push_text [c] (json_string cs))"
  by pat_completeness auto
termination by (relation "measure length") auto

definition exponent_part :: "string \<Rightarrow> string \<times> string" where
  "exponent_part s = (case s of [] \<Rightarrow> ([], []) | c # cs \<Rightarrow>
     if c = CHR ''e'' \<or> c = CHR ''E'' then
       (let (sg, t) = (case cs of [] \<Rightarrow> ([], []) | d # ds \<Rightarrow>
               if d = CHR ''-'' \<or> d = CHR ''+'' then ([d], ds) else ([], cs));
            ds = takeWhile is_digit_char t
        in if ds = [] then ([], s) else (c # sg @ ds, drop (length ds) t))
     else ([], s))"

definition fraction_part :: "string \<Rightarrow> string \<times> string" where
  "fraction_part s = (case s of [] \<Rightarrow> ([], []) | c # cs \<Rightarrow>
     let ds = takeWhile is_digit_char cs
     in if c = CHR ''.'' \<and> ds \<noteq> [] then (c # ds, drop (length ds) cs) else ([], s))"

definition json_number :: "string \<Rightarrow> (pyval \<times> string) option" where
  "json_number s =
     (let (neg, t) = (case s of [] \<Rightarrow> (False, []) | c # cs \<Rightarrow> if c = CHR ''-'' then (True, cs) else (False, s));
          run = takeWhile is_digit_char t;
          ip = (if starts_with run ''0'' then ''0'' else run);
          r0 = drop (length ip) t;
          (fr, r1) = fraction_part r0;
          (ex, r2) = exponent_part r1
      in if ip = [] then None
         else if fr = [] \<and> ex = [] then
           Some (PInt (if neg then - int (nat_of_digits ip) else int (nat_of_digits ip)), r0)
         else (case parse_decimal (ip @ fr @ ex) of None \<Rightarrow> None
               | Some q \<Rightarrow> Some (PFloat (if neg then - q else q), r2)))"

fun json_value :: "nat \<Rightarrow> string \<Rightarrow> (pyval \<times> string) option"
and json_items :: "nat \<Rightarrow> string \<Rightarrow> (pyval list \<times> string) option"
and json_members :: "nat \<Rightarrow> string \<Rightarrow> (pdict \<times> string) option" where
  "json_value 0 s = None"
| "json_value (Suc f) s = (case s of [] \<Rightarrow> None | c # cs \<Rightarrow>
     if c = CHR 0x22 then map_option (\<lambda>(t, r). (PStr t, r)) (json_string cs)
     else if c = CHR ''['' then
       (case skip_ws cs of [] \<Rightarrow> None | d # ds \<Rightarrow>
          if d = CHR '']'' then Some (PList [], ds)
          else map_option (\<lambda>(xs, r). (PList xs, r)) (json_items f (d # ds)))
     else if c = CHR ''{'' then
       (case skip_ws cs of [] \<Rightarrow> None | d # ds \<Rightarrow>
          if d = CHR ''}'' then Some (PDict [], ds)
          else map_option (\<lambda>(m, r). (PDict (dupdate [] m), r)) (json_members f (d # ds)))
     else if starts_with s ''null'' then Some (PNone, drop 4 s)
     else if starts_with s ''true'' then Some (PBool True, drop 4 s)
     else if starts_with s ''false'' then Some (PBool False, drop 5 s)
     else json_number s)"
| "json_items 0 s = None"
| "json_items (Suc f) s = (case json_value f s of None \<Rightarrow> None | Some (v, r) \<Rightarrow>
     (case skip_ws r of [] \<Rightarrow> None | d # ds \<Rightarrow>
        if d = CHR '','' then map_option (\<lambda>(xs, r). (v # xs, r)) (json_items f (skip_ws ds))
        else if d = CHR '']'' then Some ([v], ds) else None))"
| "json_members 0 s = None"
| "json_members (Suc f) s = (case s of [] \<Rightarrow> None | q # qs \<Rightarrow>
     if q \<noteq> CHR 0x22 then None
     else (case json_string qs of None \<Rightarrow> None | Some (k, r) \<Rightarrow>
       (case skip_ws r of [] \<Rightarrow> None | c # cs \<Rightarrow>
          if c \<noteq> CHR '':'' then None
          else (case json_value f (skip_ws cs) of None \<Rightarrow> None | Some (v, r) \<Rightarrow>
            (case skip_ws r of [] \<Rightarrow> None | d # ds \<Rightarrow>
               if d = CHR '','' then map_option (\<lambda>(m, r). ((k, v) # m, r)) (json_members f (skip_ws ds))
               else if d = CHR ''}'' then Some ([(k, v)], ds) else None)))))"

definition json_loads :: "string \<Rightarrow> pyval option" where
  "json_loads s = (case json_value (2 * length s + 2) (skip_ws s) of None \<Rightarrow> None
     | Some (v, r) \<Rightarrow> if skip_ws r = [] then Some v else None)"

section \<open>Round trip\<close>

text \<open>Values JSON carries exactly: no float, no stream, distinct keys.\<close>

fun jsonable :: "pyval \<Rightarrow> bool"
and jsonable_list :: "pyval list \<Rightarrow> bool"
and jsonable_dict :: "(string \<times> pyval) list \<Rightarrow> bool" where
  "jsonable (PList xs) = jsonable_list xs"
| "jsonable (PDict d) = (distinct (map fst d) \<and> jsonable_dict d)"
| "jsonable (PFloat r) = False"
| "jsonable (PStream cs) = False"
| "jsonable PNone = True"
| "jsonable (PBool b) = True"
| "jsonable (PInt i) = True"
| "jsonable (PStr s) = True"
| "jsonable_list [] = True"
| "jsonable_list (x # xs) = (jsonable x \<and> jsonable_list xs)"
| "jsonable_dict [] = True"
| "jsonable_dict ((k, v) # d) = (jsonable v \<and> jsonable_dict d)"

lemma jsonable_list_iff: "jsonable_list xs \<longleftrightarrow> list_all jsonable xs"
  by (induction xs) simp_all

lemma jsonable_dict_iff: "jsonable_dict d \<longleftrightarrow> list_all (\<lambda>(k, v). jsonable v) d"
  by (induction d rule: induct_list012) (auto split: prod.splits)

lemma jsonable_get: "jsonable (PDict d) \<Longrightarrow> map_of d k = Some v \<Longrightarrow> jsonable v"
  by (auto simp: jsonable_dict_iff list_all_iff dest!: map_of_SomeD)

lemma jsonable_dset: "jsonable (PDict d) \<Longrightarrow> jsonable v \<Longrightarrow> jsonable (PDict (dset k v d))"
proof -
  assume "jsonable (PDict d)" "jsonable v"
  moreover from this have "jsonable_dict (dset k v d)" by (induction d) (auto split: if_splits)
  ultimately show ?thesis by (simp add: distinct_update)
qed

subsection \<open>Strings\<close>

lemma hex_digits_read: "n < 32 \<Longrightarrow> hex4 CHR ''0'' CHR ''0'' (hex_digit (n div 16)) (hex_digit (n mod 16)) = Some n"
proof -
  have "list_all (\<lambda>n. hex4 CHR ''0'' CHR ''0'' (hex_digit (n div 16)) (hex_digit (n mod 16)) = Some n) [0..<32]"
    by code_simp
  then show "n < 32 \<Longrightarrow> ?thesis" by (simp add: list_all_iff)
qed

lemma json_string_control:
  assumes "(of_char c :: nat) < 32"
  shows "json_string ([CHR 0x5C, CHR ''u'', CHR ''0'', CHR ''0'', hex_digit (of_char c div 16), hex_digit (of_char c mod 16)] @ r)
    = push_text [c] (json_string r)"
  using hex_digits_read [OF assms] assms by (simp add: utf8_def)

lemma simple_escapes:
  "simple_escape CHR 0x22 = Some CHR 0x22" "simple_escape CHR 0x5C = Some CHR 0x5C" "simple_escape CHR ''n'' = Some CHR 0x0A"
  "simple_escape CHR ''r'' = Some CHR 0x0D" "simple_escape CHR ''t'' = Some CHR 0x09" "simple_escape CHR ''f'' = Some CHR 0x0C"
  "simple_escape CHR ''b'' = Some CHR 0x08"
  by (simp_all add: simple_escape_def)

lemma json_string_char: "json_string (json_char c @ r) = push_text [c] (json_string r)"
proof -
  consider "c \<in> {CHR 0x22, CHR 0x5C, CHR 0x0A, CHR 0x0D, CHR 0x09, CHR 0x0C, CHR 0x08}"
    | "c \<notin> {CHR 0x22, CHR 0x5C, CHR 0x0A, CHR 0x0D, CHR 0x09, CHR 0x0C, CHR 0x08}" "(of_char c :: nat) < 32"
    | "c \<notin> {CHR 0x22, CHR 0x5C, CHR 0x0A, CHR 0x0D, CHR 0x09, CHR 0x0C, CHR 0x08}" "\<not> (of_char c :: nat) < 32"
    by blast
  then show ?thesis
  proof cases
    case 1
    then show ?thesis by (auto simp: json_char_def simple_escapes)
  next
    case 2
    then have "json_char c = [CHR 0x5C, CHR ''u'', CHR ''0'', CHR ''0'', hex_digit (of_char c div 16), hex_digit (of_char c mod 16)]"
      by (simp add: json_char_def)
    then show ?thesis using json_string_control [OF 2(2), of r] by (simp only:)
  next
    case 3
    then show ?thesis by (simp add: json_char_def)
  qed
qed

lemma json_string_text: "json_string (concat (map json_char s) @ CHR 0x22 # r) = Some (s, r)"
  by (induction s) (simp_all only: list.map concat.simps append_Nil append_assoc json_string_char,
      simp_all add: push_text_def)

subsection \<open>Integers\<close>

lemma digit_chars_nth: "n < 10 \<Longrightarrow> is_digit_char (digit_chars ! n) \<and> digit_val (digit_chars ! n) = n"
proof -
  have "list_all (\<lambda>n. is_digit_char (digit_chars ! n) \<and> digit_val (digit_chars ! n) = n) [0..<10]"
    by code_simp
  then show "n < 10 \<Longrightarrow> ?thesis" by (simp add: list_all_iff)
qed

lemma nat_of_digits_snoc: "nat_of_digits (s @ [c]) = nat_of_digits s * 10 + digit_val c"
  by (simp add: nat_of_digits_def)

lemma digits_fuel_read: "n < f \<Longrightarrow> nat_of_digits (digits_fuel f n) = n \<and> digits_fuel f n \<noteq> []
    \<and> list_all is_digit_char (digits_fuel f n)"
proof (induction f arbitrary: n)
  case (Suc f)
  have "n div 10 < f" if "\<not> n < 10" using that Suc.prems by simp
  moreover have "nat_of_digits [c] = digit_val c" for c by (simp add: nat_of_digits_def)
  ultimately show ?case
    using Suc.IH [of "n div 10"] digit_chars_nth [of n] digit_chars_nth [of "n mod 10"]
    by (simp add: nat_of_digits_snoc)
qed simp

lemma digits_fuel_zero: "n < f \<Longrightarrow> starts_with (digits_fuel f n) ''0'' \<Longrightarrow> digits_fuel f n = ''0''"
proof (induction f arbitrary: n)
  case (Suc f)
  have d: "digit_chars ! m = CHR ''0'' \<longleftrightarrow> m = 0" if "m < 10" for m
    using digit_chars_nth [OF that] digit_chars_nth [of 0] by (auto simp: digit_chars_def)
  show ?case
  proof (cases "n < 10")
    case True
    with Suc.prems show ?thesis by simp
  next
    case False
    then have "n div 10 < f" "n div 10 \<noteq> 0" using Suc.prems by simp_all
    moreover from this have ne: "digits_fuel f (n div 10) \<noteq> []" using digits_fuel_read by blast
    ultimately have "starts_with (digits_fuel f (n div 10)) ''0''"
      using Suc.prems False by (cases "digits_fuel f (n div 10)") auto
    then have "digits_fuel f (n div 10) = ''0''" using Suc.IH \<open>n div 10 < f\<close> by blast
    then have "n div 10 = nat_of_digits ''0''" using digits_fuel_read [OF \<open>n div 10 < f\<close>] by simp
    then show ?thesis using \<open>n div 10 \<noteq> 0\<close> by (simp add: nat_of_digits_def digit_val_def digit_chars_def)
  qed
qed simp

lemma nat_str_read: "nat_of_digits (nat_str n) = n" "nat_str n \<noteq> []" "list_all is_digit_char (nat_str n)"
  and nat_str_zero: "starts_with (nat_str n) ''0'' \<Longrightarrow> nat_str n = ''0''"
  using digits_fuel_read [of n "Suc n"] digits_fuel_zero [of n "Suc n"] by (simp_all add: nat_str_def)


text \<open>What may follow a printed value inside a text.\<close>

definition ends_value :: "string \<Rightarrow> bool" where
  "ends_value r = (r = [] \<or> hd r \<in> set '',]}'')"

lemma takeWhile_digits: "ends_value r \<Longrightarrow> list_all is_digit_char ds \<Longrightarrow> takeWhile is_digit_char (ds @ r) = ds"
  by (cases r; induction ds) (auto simp: ends_value_def is_digit_char_def digit_chars_def)

lemma no_fraction: "ends_value r \<Longrightarrow> fraction_part r = ([], r)"
  by (cases r) (auto simp: fraction_part_def ends_value_def Let_def)

lemma no_exponent: "ends_value r \<Longrightarrow> exponent_part r = ([], r)"
  by (cases r) (auto simp: exponent_part_def ends_value_def)

lemma skip_ws_end: "ends_value r \<Longrightarrow> skip_ws r = r"
  by (cases r) (auto simp: skip_ws_def ends_value_def json_ws_def)

lemma integer_part: "ends_value r \<Longrightarrow>
    (let run = takeWhile is_digit_char (nat_str n @ r) in if starts_with run ''0'' then ''0'' else run) = nat_str n"
  using nat_str_zero [of n] by (auto simp: takeWhile_digits nat_str_read Let_def)

lemma json_number_parts:
  assumes "(case s of [] \<Rightarrow> (False, []) | c # cs \<Rightarrow> if c = CHR ''-'' then (True, cs) else (False, s)) = (neg, nat_str n @ r)"
    and "ends_value r"
  shows "json_number s = Some (PInt (if neg then - int n else int n), r)"
  using integer_part [OF assms(2), of n] nat_str_read(1,2) [of n]
  unfolding json_number_def assms(1) by (simp add: Let_def no_fraction no_exponent assms(2))

lemma json_number_nat: "ends_value r \<Longrightarrow> json_number (nat_str n @ r) = Some (PInt (int n), r)"
proof -
  assume r: "ends_value r"
  obtain c cs where cs: "nat_str n = c # cs" using nat_str_read(2) by (cases "nat_str n") auto
  have "c \<noteq> CHR ''-''" using nat_str_read(3) [of n] cs by (auto simp: is_digit_char_def digit_chars_def)
  then show ?thesis using json_number_parts [OF _ r, of "nat_str n @ r" False n] cs by simp
qed

lemma json_number_neg: "ends_value r \<Longrightarrow> json_number (CHR ''-'' # nat_str n @ r) = Some (PInt (- int n), r)"
  using json_number_parts [of "CHR ''-'' # nat_str n @ r" True n r] by simp

lemma json_number_int: "ends_value r \<Longrightarrow> json_number (int_str i @ r) = Some (PInt i, r)"
  using json_number_nat [of r "nat i"] json_number_neg [of r "nat (- i)"] by (simp add: int_str_def)

lemma int_str_first: "\<exists>c cs. int_str i = c # cs \<and> c \<in> set ''-0123456789''"
proof -
  have "\<exists>c cs. nat_str n = c # cs \<and> c \<in> set ''0123456789''" for n
    using nat_str_read(2,3) [of n] by (cases "nat_str n") (auto simp: is_digit_char_def digit_chars_def)
  then show ?thesis by (fastforce simp: int_str_def)
qed

lemma json_value_int: "ends_value r \<Longrightarrow> json_value (Suc f) (int_str i @ r) = Some (PInt i, r)"
proof -
  assume r: "ends_value r"
  obtain c cs where c: "int_str i = c # cs" "c \<in> set ''-0123456789''" using int_str_first by blast
  then show ?thesis using json_number_int [OF r, of i] by auto
qed

subsection \<open>Lists and objects\<close>

text \<open>A printed value starts with no white space and no closing bracket.\<close>

lemma dumps_first: "jsonable v \<Longrightarrow> \<exists>c cs. json_dumps v = c # cs \<and> c \<notin> set json_ws \<and> c \<noteq> CHR '']''"
proof (cases v)
  case (PInt i)
  then show ?thesis using int_str_first [of i] by (auto simp: json_ws_def)
qed (auto simp: json_str_def json_ws_def)

lemma dumps_skip: "jsonable v \<Longrightarrow> skip_ws (json_dumps v @ r) = json_dumps v @ r"
  using dumps_first [of v] by (auto simp: skip_ws_def)

lemma dupdate_new: "distinct (dkeys (d @ m)) \<Longrightarrow> dupdate d m = d @ m"
proof (induction d m rule: dupdate.induct)
  case (2 d k v e)
  then have "map_of d k = None" by (auto simp: map_of_eq_None_iff)
  then have "dset k v d = d @ [(k, v)]" by (intro dset_append) simp
  then show ?case using 2 by simp
qed simp

lemma items_texts_nonempty: "xs \<noteq> [] \<Longrightarrow> json_items_text xs \<noteq> []" "d \<noteq> [] \<Longrightarrow> json_members_text d \<noteq> []"
  by (cases xs; simp) (cases d; auto)

lemma json_items_step:
  assumes "json_value f (json_dumps x @ q) = Some (x, q)" and "q = CHR '','' # CHR '' '' # u" and "skip_ws u = u"
    and "json_items f u = Some (xs, r)"
  shows "json_items (Suc f) (json_dumps x @ q) = Some (x # xs, r)"
  using assms by (simp add: skip_ws_def json_ws_def)

lemma json_members_step:
  assumes "json_value f (json_dumps v @ q) = Some (v, q)" and "q = CHR '','' # CHR '' '' # u" and "skip_ws u = u"
    and "json_members f u = Some (m, r)" and "jsonable v"
  shows "json_members (Suc f) (json_str k @ '': '' @ json_dumps v @ q) = Some ((k, v) # m, r)"
  using assms dumps_skip [OF assms(5), of q] by (simp add: json_str_def json_string_text skip_ws_def json_ws_def)

lemma json_members_last:
  assumes "json_value f (json_dumps v @ CHR ''}'' # r) = Some (v, CHR ''}'' # r)" and "jsonable v"
  shows "json_members (Suc f) (json_str k @ '': '' @ json_dumps v @ CHR ''}'' # r) = Some ([(k, v)], r)"
  using assms dumps_skip [OF assms(2), of "CHR ''}'' # r"] by (simp add: json_str_def json_string_text skip_ws_def json_ws_def)

lemma parse_printed:
  shows "jsonable v \<Longrightarrow> 2 * length (json_dumps v) \<le> f \<Longrightarrow> ends_value r \<Longrightarrow> json_value f (json_dumps v @ r) = Some (v, r)"
    and "jsonable_list xs \<Longrightarrow> xs \<noteq> [] \<Longrightarrow> 2 * length (join_str '', '' (json_items_text xs)) + 1 \<le> f \<Longrightarrow>
      json_items f (join_str '', '' (json_items_text xs) @ CHR '']'' # r) = Some (xs, r)"
    and "jsonable_dict d \<Longrightarrow> d \<noteq> [] \<Longrightarrow> 2 * length (join_str '', '' (json_members_text d)) + 1 \<le> f \<Longrightarrow>
      json_members f (join_str '', '' (json_members_text d) @ CHR ''}'' # r) = Some (d, r)"
proof (induction v and xs and d arbitrary: f r and f r and f r
    rule: jsonable_jsonable_list_jsonable_dict.induct)
  case (1 xs)
  then obtain g where f: "f = Suc g" by (cases f) auto
  show ?case
  proof (cases "xs = []")
    case True
    then show ?thesis by (simp add: f skip_ws_def json_ws_def)
  next
    case False
    then obtain x ys where xs: "xs = x # ys" by (cases xs) auto
    obtain c cs where c: "json_dumps x = c # cs" "c \<notin> set json_ws" "c \<noteq> CHR '']''"
      using dumps_first [of x] "1.prems"(1) xs by auto
    let ?t = "join_str '', '' (json_items_text xs)"
    obtain cs' where t: "?t = c # cs'" using c(1) xs by (cases "json_items_text ys") auto
    have "json_items g (?t @ CHR '']'' # r) = Some (xs, r)"
      using 1 False f by simp
    then show ?thesis using t c by (simp add: f skip_ws_def)
  qed
next
  case (2 d)
  then obtain g where f: "f = Suc g" by (cases f) auto
  show ?case
  proof (cases "d = []")
    case True
    then show ?thesis by (simp add: f skip_ws_def json_ws_def)
  next
    case False
    then obtain k v e where d: "d = (k, v) # e" by (cases d) auto
    let ?t = "join_str '', '' (json_members_text d)"
    obtain cs' where t: "?t = CHR 0x22 # cs'" using d by (cases "json_members_text e") (auto simp: json_str_def)
    have "json_members g (?t @ CHR ''}'' # r) = Some (d, r)"
      using 2 False f by simp
    moreover have "dupdate [] d = d" using dupdate_new [of "[]" d] "2.prems"(1) by simp
    ultimately show ?thesis using t by (simp add: f skip_ws_def json_ws_def)
  qed
next
  case 5
  then show ?case by (cases f) simp_all
next
  case (6 b)
  then show ?case by (cases f; cases b) simp_all
next
  case (7 i)
  then show ?case using int_str_first [of i] json_value_int [of r _ i] by (cases f) auto
next
  case (8 s)
  then show ?case by (cases f) (simp_all add: json_str_def json_string_text)
next
  case (10 x xs)
  then obtain g where f: "f = Suc g" by (cases f) auto
  show ?case
  proof (cases xs)
    case Nil
    then have "json_value g (json_dumps x @ CHR '']'' # r) = Some (x, CHR '']'' # r)"
      using 10 f by (intro "10.IH"(1)) (simp_all add: ends_value_def)
    then show ?thesis using Nil f by (simp add: skip_ws_def json_ws_def)
  next
    case (Cons y ys)
    let ?u = "join_str '', '' (json_items_text xs) @ CHR '']'' # r"
    let ?q = "CHR '','' # CHR '' '' # ?u"
    have t: "join_str '', '' (json_items_text (x # xs)) @ CHR '']'' # r = json_dumps x @ ?q"
      using Cons by simp
    have "json_value g (json_dumps x @ ?q) = Some (x, ?q)"
      using 10 f Cons by (intro "10.IH"(1)) (simp_all add: ends_value_def)
    moreover have "json_items g ?u = Some (xs, r)"
      using 10 f Cons by (intro "10.IH"(2)) simp_all
    moreover have "skip_ws ?u = ?u"
      using dumps_skip [of y] "10.prems"(1) Cons by (cases "json_items_text ys") simp_all
    ultimately show ?thesis unfolding t f by (intro json_items_step) simp_all
  qed
next
  case (12 k v d)
  then obtain g where f: "f = Suc g" by (cases f) auto
  show ?case
  proof (cases d)
    case Nil
    then have "json_value g (json_dumps v @ CHR ''}'' # r) = Some (v, CHR ''}'' # r)"
      using 12 f by (intro "12.IH"(1)) (simp_all add: ends_value_def)
    then show ?thesis using Nil f json_members_last [of g v r k] "12.prems"(1) by simp
  next
    case (Cons p e)
    obtain k2 v2 where p: "p = (k2, v2)" by (cases p)
    let ?u = "join_str '', '' (json_members_text d) @ CHR ''}'' # r"
    let ?q = "CHR '','' # CHR '' '' # ?u"
    have t: "join_str '', '' (json_members_text ((k, v) # d)) @ CHR ''}'' # r = json_str k @ '': '' @ json_dumps v @ ?q"
      using Cons p by simp
    have "json_value g (json_dumps v @ ?q) = Some (v, ?q)"
      using 12 f Cons p by (intro "12.IH"(1)) (simp_all add: ends_value_def)
    moreover have "json_members g ?u = Some (d, r)"
      using 12 f Cons p by (intro "12.IH"(2)) simp_all
    moreover have "skip_ws ?u = ?u"
      using Cons p by (cases "json_members_text e") (simp_all add: json_str_def skip_ws_def json_ws_def)
    ultimately show ?thesis unfolding t f using "12.prems"(1) by (intro json_members_step) simp_all
  qed
qed simp_all

text \<open>Parsing what was printed gives the value back.\<close>

lemma json_loads_dumps: "jsonable v \<Longrightarrow> json_loads (json_dumps v) = Some v"
proof -
  assume v: "jsonable v"
  have "json_value (2 * length (json_dumps v) + 2) (json_dumps v @ []) = Some (v, [])"
    by (rule parse_printed(1) [OF v]) (simp_all add: ends_value_def)
  then show ?thesis using dumps_skip [OF v, of "[]"] by (simp add: json_loads_def skip_ws_def)
qed

lemma strip_clean: "list_all (\<lambda>c. c \<notin> set ascii_space) s \<Longrightarrow> strip s = s"
proof -
  assume a: "list_all (\<lambda>c. c \<notin> set ascii_space) s"
  have d: "dropWhile (\<lambda>c. c \<in> set ascii_space) t = t" if "list_all (\<lambda>c. c \<notin> set ascii_space) t" for t
    using that by (cases t) auto
  have "list_all (\<lambda>c. c \<notin> set ascii_space) (rev s)" using a by (simp add: list_all_iff)
  then show ?thesis using d [of s] d [of "rev s"] a by (simp add: strip_def strip_chars_def)
qed

lemma digit_not_space: "is_digit_char c \<Longrightarrow> c \<notin> set ascii_space"
  by (auto simp: is_digit_char_def digit_chars_def ascii_space_def)

lemma int_of_int_str: "int_of_str (int_str i) = Some i"
proof -
  have n: "isdigit (nat_str n)" "strip (nat_str n) = nat_str n" "strip (CHR ''-'' # nat_str n) = CHR ''-'' # nat_str n"
    "split_sign (nat_str n) = (False, nat_str n)" for n
  proof -
    note r = nat_str_read [of n]
    show "isdigit (nat_str n)" using r by (simp add: isdigit_def)
    have "list_all (\<lambda>c. c \<notin> set ascii_space) (nat_str n)"
      using r(3) digit_not_space by (auto simp: list_all_iff)
    then show "strip (nat_str n) = nat_str n" "strip (CHR ''-'' # nat_str n) = CHR ''-'' # nat_str n"
      by (auto intro!: strip_clean) (simp add: ascii_space_def)
    obtain c cs where "nat_str n = c # cs" using r(2) by (cases "nat_str n") auto
    then show "split_sign (nat_str n) = (False, nat_str n)"
      using r(3) by (auto simp: split_sign_def is_digit_char_def digit_chars_def)
  qed
  show ?thesis
    by (cases "i < 0") (simp_all add: int_of_str_def int_str_def n nat_str_read split_sign_def [of "CHR ''-'' # _"])
qed

lemma stream_free_jsonable:
  shows "jsonable v \<Longrightarrow> stream_free v"
    and "jsonable_list xs \<Longrightarrow> stream_free_list xs"
    and "jsonable_dict d \<Longrightarrow> stream_free_dict d"
  by (induction v and xs and d rule: jsonable_jsonable_list_jsonable_dict.induct) simp_all

declare json_char_def [py_defs] json_str_def [py_defs] json_ws_def [py_defs] skip_ws_def [py_defs]
  hex_val_def [py_defs] hex4_def [py_defs] utf8_def [py_defs] simple_escape_def [py_defs]
  push_text_def [py_defs] exponent_part_def [py_defs] fraction_part_def [py_defs]
  json_number_def [py_defs] json_loads_def [py_defs]

end
