(* ===== verification/Component.thy ===== *)
theory Component
  imports PyRegex PyJson
begin

text \<open>
  The base class of every node of an agent canvas (\<open>agent/component/base.py\<close>): its
  parameter checks, its output and input slots, its error slot and its exception handling.
  A component and its parameter object are one record; the parameter's other attributes
  are an object of JSON values.
\<close>

section \<open>Parameter checks\<close>

text \<open>A check of \<open>ComponentParamBase\<close> returns or raises \<open>ValueError\<close>.\<close>

definition check_string :: "pyval \<Rightarrow> string \<Rightarrow> unit res" where
  "check_string param description =
     (if type_name param \<notin> {''str''}
      then raise ValueError (description @ '' '' @ py_str param @ '' not supported, should be string type'')
      else Inr ())"

definition check_empty :: "pyval \<Rightarrow> string \<Rightarrow> unit res" where
  "check_empty param description =
     (if \<not> truthy param then raise ValueError (description @ '' does not support empty value.'') else Inr ())"

definition check_positive_integer :: "pyval \<Rightarrow> string \<Rightarrow> unit res" where
  "check_positive_integer param description =
     (if type_name param \<notin> {''int'', ''long''} \<or> (case py_num param of Some r \<Rightarrow> r \<le> 0 | None \<Rightarrow> False)
      then raise ValueError (description @ '' '' @ py_str param @ '' not supported, should be positive integer'')
      else Inr ())"

definition check_positive_number :: "pyval \<Rightarrow> string \<Rightarrow> unit res" where
  "check_positive_number param description =
     (if type_name param \<notin> {''float'', ''int'', ''long''} \<or> (case py_num param of Some r \<Rightarrow> r \<le> 0 | None \<Rightarrow> False)
      then raise ValueError (description @ '' '' @ py_str param @ '' not supported, should be positive numeric'')
      else Inr ())"

definition check_nonnegative_number :: "pyval \<Rightarrow> string \<Rightarrow> unit res" where
  "check_nonnegative_number param description =
     (if type_name param \<notin> {''float'', ''int'', ''long''} \<or> (case py_num param of Some r \<Rightarrow> r < 0 | None \<Rightarrow> False)
      then raise ValueError (description @ '' '' @ py_str param @ '' not supported, should be non-negative numeric'')
      else Inr ())"

definition check_decimal_float :: "pyval \<Rightarrow> string \<Rightarrow> unit res" where
  "check_decimal_float param description =
     (if type_name param \<notin> {''float'', ''int''} \<or> (case py_num param of Some r \<Rightarrow> r < 0 \<or> r > 1 | None \<Rightarrow> False)
      then raise ValueError (description @ '' '' @ py_str param
        @ '' not supported, should be a float number in range [0, 1]'')
      else Inr ())"

definition check_boolean :: "pyval \<Rightarrow> string \<Rightarrow> unit res" where
  "check_boolean param description =
     (if type_name param \<noteq> ''bool''
      then raise ValueError (description @ '' '' @ py_str param @ '' not supported, should be bool type'')
      else Inr ())"

definition check_open_unit_interval :: "pyval \<Rightarrow> string \<Rightarrow> unit res" where
  "check_open_unit_interval param description =
     (if type_name param \<notin> {''float''} \<or> (case py_num param of Some r \<Rightarrow> r \<le> 0 \<or> r \<ge> 1 | None \<Rightarrow> False)
      then raise ValueError (description @ '' should be a numeric number between 0 and 1 exclusively'')
      else Inr ())"

definition check_valid_value :: "pyval \<Rightarrow> string \<Rightarrow> pyval list \<Rightarrow> unit res" where
  "check_valid_value param description valid_values =
     (if \<not> py_in param valid_values
      then raise ValueError (description @ '' '' @ py_str param @ '' is not supported, it should be in ''
        @ py_str (PList valid_values))
      else Inr ())"

definition check_defined_type :: "pyval \<Rightarrow> string \<Rightarrow> string list \<Rightarrow> unit res" where
  "check_defined_type param description types =
     (if type_name param \<notin> set types
      then raise ValueError (description @ '' '' @ py_str param @ '' not supported, should be one of ''
        @ py_str (PList (map PStr types)))
      else Inr ())"

definition check_and_change_lower :: "pyval \<Rightarrow> string list \<Rightarrow> string \<Rightarrow> string res" where
  "check_and_change_lower param valid_list description =
     (let err = raise ValueError (description @ '' '' @ py_str param @ '' not supported, should be one of ''
                  @ py_str (PList (map PStr valid_list)))
      in case param of
           PStr s \<Rightarrow> (let lower_param = lower s in if lower_param \<in> set valid_list then Inr lower_param else err)
         | _ \<Rightarrow> err)"

text \<open>Bounds with the tolerance \<open>settings.FLOAT_ZERO\<close>.\<close>

definition float_zero :: rat where
  "float_zero = 1 / 100000000"

definition greater_equal_than :: "rat \<Rightarrow> rat \<Rightarrow> bool" where
  "greater_equal_than v limit = (v \<ge> limit - float_zero)"

definition less_equal_than :: "rat \<Rightarrow> rat \<Rightarrow> bool" where
  "less_equal_than v limit = (v \<le> limit + float_zero)"

fun in_range :: "rat \<Rightarrow> (rat \<times> rat) list \<Rightarrow> bool" where
  "in_range v [] = False"
| "in_range v ((left_limit, right_limit) # ranges) =
     (if left_limit - float_zero \<le> v \<and> v \<le> right_limit + float_zero then True else in_range v ranges)"

text \<open>
  \<open>update\<close>: every key of the configuration becomes an attribute. The keys that were
  attributes already are recorded as given by the user when the configuration is raw.
  The attributes of the modelled components are of built-in classes, for which the code
  assigns and does not descend.
\<close>

fun param_update_loop :: "bool \<Rightarrow> pdict \<Rightarrow> pdict \<Rightarrow> string list \<Rightarrow> pdict \<times> string list" where
  "param_update_loop raw attrs [] feeded = (attrs, feeded)"
| "param_update_loop raw attrs ((k, v) # conf) feeded =
     param_update_loop raw (dset k v attrs) conf
       (if has_key attrs k \<and> raw \<and> k \<notin> set feeded then feeded @ [k] else feeded)"

definition param_update :: "pdict \<Rightarrow> pdict \<Rightarrow> pdict \<times> string list" where
  "param_update attrs conf =
     (let raw = truthy (get_or conf ''_is_raw_conf'' (PBool True))
      in param_update_loop raw (if raw then dset ''_is_raw_conf'' (PBool False) attrs else attrs) conf [])"

section \<open>A component\<close>

type_synonym slot = pdict

record component =
  c_name :: string
  c_outputs :: "(string, slot) dict"
  c_inputs :: "(string, slot) dict"
  c_debug :: pdict
  c_attrs :: pdict
  c_idx :: int
  c_parent :: "string option"
  c_down :: "string list"
  c_up :: "string list"

text \<open>The attributes every parameter object is born with.\<close>

definition param_base_attrs :: pdict where
  "param_base_attrs =
     [(''message_history_window_size'', PInt 13), (''description'', PStr []), (''max_retries'', PInt 0),
      (''delay_after_error'', PFloat 2), (''exception_method'', PNone),
      (''exception_default_value'', PNone), (''exception_goto'', PNone)]"

definition get_param :: "string \<Rightarrow> component \<Rightarrow> pyval" where
  "get_param name c = get_or (c_attrs c) name PNone"

text \<open>\<open>self._param.name\<close>: an attribute that was never set raises.\<close>

definition param_attr :: "string \<Rightarrow> component \<Rightarrow> pyval res" where
  "param_attr name c = (case map_of (c_attrs c) name of Some v \<Rightarrow> Inr v
     | None \<Rightarrow> raise AttributeError (c_name c @ ''Param object has no attribute '' @ name))"

text \<open>\<open>output(var_nm)\<close> and \<open>output()\<close>.\<close>

definition cpn_output :: "string \<Rightarrow> component \<Rightarrow> pyval" where
  "cpn_output var_nm c = get_or (case map_of (c_outputs c) var_nm of None \<Rightarrow> [] | Some o' \<Rightarrow> o') ''value'' (PStr [])"

definition output_all :: "component \<Rightarrow> pyval" where
  "output_all c = PDict (map (\<lambda>(k, o'). (k, get_none o' ''value'')) (c_outputs c))"

definition output_of :: "string \<Rightarrow> component \<Rightarrow> pyval" where
  "output_of var_nm c = (if var_nm \<noteq> [] then cpn_output var_nm c else output_all c)"

definition set_output :: "string \<Rightarrow> pyval \<Rightarrow> component \<Rightarrow> component" where
  "set_output key v c =
     (let outs = (if has_key (c_outputs c) key then c_outputs c
                  else dset key [(''value'', PNone), (''type'', PStr (type_repr v))] (c_outputs c));
          slot = (case map_of outs key of None \<Rightarrow> [] | Some o' \<Rightarrow> o')
      in c\<lparr>c_outputs := dset key (dset ''value'' v slot) outs\<rparr>)"

definition error_of :: "component \<Rightarrow> pyval" where
  "error_of c = get_none (case map_of (c_outputs c) ''_ERROR'' of None \<Rightarrow> [] | Some o' \<Rightarrow> o') ''value''"

definition clear_slots :: "(string, slot) dict \<Rightarrow> (string, slot) dict" where
  "clear_slots slots = map (\<lambda>(k, o'). (k, dset ''value'' PNone o')) slots"

definition reset_component :: "bool \<Rightarrow> component \<Rightarrow> component" where
  "reset_component only_output c =
     (let c1 = c\<lparr>c_outputs := clear_slots (c_outputs c)\<rparr>
      in if only_output then c1 else c1\<lparr>c_inputs := clear_slots (c_inputs c1), c_debug := []\<rparr>)"

definition set_input_value :: "string \<Rightarrow> pyval \<Rightarrow> component \<Rightarrow> component" where
  "set_input_value key v c =
     (let ins = (if has_key (c_inputs c) key then c_inputs c else dset key [(''value'', PNone)] (c_inputs c));
          slot = (case map_of ins key of None \<Rightarrow> [] | Some i \<Rightarrow> i)
      in c\<lparr>c_inputs := dset key (dset ''value'' v slot) ins\<rparr>)"

definition get_input_value :: "string \<Rightarrow> component \<Rightarrow> pyval" where
  "get_input_value key c = (case map_of (c_inputs c) key of None \<Rightarrow> PNone | Some i \<Rightarrow> get_none i ''value'')"

text \<open>\<open>get_input_values\<close> over the element names the component declares.\<close>

definition get_input_values :: "string list \<Rightarrow> component \<Rightarrow> pyval" where
  "get_input_values elements c =
     (if c_debug c \<noteq> [] then PDict (c_debug c)
      else PDict (map (\<lambda>var. (var, get_input_value var c)) elements))"

section \<open>Exceptions\<close>

text \<open>\<open>exception_handler()\<close>: \<open>None\<close>, or where to go and what to answer.\<close>

definition exception_handler :: "component \<Rightarrow> (pyval \<times> pyval) option" where
  "exception_handler c =
     (if \<not> truthy (get_param ''exception_method'' c) then None
      else Some (get_param ''exception_goto'' c, get_param ''exception_default_value'' c))"

definition get_exception_default_value :: "component \<Rightarrow> pyval" where
  "get_exception_default_value c =
     (if \<not> py_eq (get_param ''exception_method'' c) (PStr ''comment'') then PStr []
      else get_param ''exception_default_value'' c)"

definition set_exception_default_value :: "component \<Rightarrow> component" where
  "set_exception_default_value c = set_output ''result'' (get_exception_default_value c) c"

text \<open>
  What \<open>invoke\<close> does around \<open>_invoke\<close>: the clock readings go to two outputs, an
  exception becomes the default answer or the text of the error slot, the debug inputs
  are dropped.
\<close>

definition record_failure :: "exc option \<Rightarrow> component \<Rightarrow> component" where
  "record_failure failed c = (case failed of None \<Rightarrow> c
     | Some e \<Rightarrow> if truthy (get_exception_default_value c) then set_exception_default_value c
                 else set_output ''_ERROR'' (PStr (exc_text e)) c)"

definition invoke_begin :: "rat \<Rightarrow> component \<Rightarrow> component" where
  "invoke_begin t0 c = set_output ''_created_time'' (PFloat t0) c"

definition invoke_end :: "rat \<Rightarrow> exc option \<Rightarrow> component \<Rightarrow> component" where
  "invoke_end t1 failed c =
     (let c1 = (record_failure failed c)\<lparr>c_debug := []\<rparr>;
          started = (case cpn_output ''_created_time'' c1 of PFloat t \<Rightarrow> t | _ \<Rightarrow> 0)
      in set_output ''_elapsed_time'' (PFloat (t1 - started)) c1)"

section \<open>Filling a template\<close>

text \<open>\<open>string_format\<close>: each \<open>{name}\<close> by the text of its value, \<open>None\<close> by nothing.\<close>

fun string_format :: "string \<Rightarrow> (string \<times> pyval) list \<Rightarrow> string" where
  "string_format content [] = content"
| "string_format content ((n, v) # kv) =
     string_format (replace_str (''{'' @ n @ ''}'') (if v = PNone then [] else py_str v) content) kv"

section \<open>Laws of the slots\<close>

text \<open>
  The contract the output slots, the input slots and the globals share: a named value is
  what was written there last, and a write leaves the other names alone.
\<close>

locale named_slots =
  fixes rd :: "'k \<Rightarrow> 's \<Rightarrow> 'v"
    and wr :: "'k \<Rightarrow> 'v \<Rightarrow> 's \<Rightarrow> 's"
  assumes rd_wr: "rd k (wr k' v s) = (if k = k' then v else rd k s)"
begin

lemma rd_same [simp]: "rd k (wr k v s) = v"
  by (simp add: rd_wr)

lemma rd_other [simp]: "k \<noteq> k' \<Longrightarrow> rd k (wr k' v s) = rd k s"
  by (simp add: rd_wr)

text \<open>A series of writes: the last one to a name wins, a name never written keeps its value.\<close>

lemma rd_writes:
  "rd k (fold (\<lambda>(k, v). wr k v) ps s) = (case map_of (rev ps) k of None \<Rightarrow> rd k s | Some v \<Rightarrow> v)"
proof (induction ps arbitrary: s)
  case Nil
  then show ?case by simp
next
  case (Cons p ps)
  then show ?case by (cases p) (auto simp: rd_wr map_add_def split: option.splits)
qed

lemma rd_unwritten: "k \<notin> fst ` set ps \<Longrightarrow> rd k (fold (\<lambda>(k, v). wr k v) ps s) = rd k s"
proof -
  assume "k \<notin> fst ` set ps"
  then have "map_of (rev ps) k = None" by (simp add: map_of_eq_None_iff)
  then show ?thesis by (simp add: rd_writes)
qed

lemma writes_commute_for_reader:
  "k1 \<noteq> k2 \<Longrightarrow> rd k (wr k1 a (wr k2 b s)) = rd k (wr k2 b (wr k1 a s))"
  by (simp add: rd_wr)

end

lemma output_set_output: "cpn_output k (set_output k' v c) = (if k = k' then v else cpn_output k c)"
  by (auto simp: cpn_output_def set_output_def Let_def dget_dset get_or_def split: option.splits)

interpretation outs: named_slots cpn_output set_output
  by unfold_locales (rule output_set_output)

lemma output_set_output_same [simp]: "cpn_output k (set_output k v c) = v"
  and output_set_output_other [simp]: "k \<noteq> k' \<Longrightarrow> cpn_output k (set_output k' v c) = cpn_output k c"
  by (simp_all add: output_set_output)

lemma set_output_fields [simp]:
  "c_name (set_output k v c) = c_name c" "c_inputs (set_output k v c) = c_inputs c"
  "c_debug (set_output k v c) = c_debug c" "c_attrs (set_output k v c) = c_attrs c"
  "c_idx (set_output k v c) = c_idx c" "c_parent (set_output k v c) = c_parent c"
  "c_down (set_output k v c) = c_down c" "c_up (set_output k v c) = c_up c"
  by (simp_all add: set_output_def Let_def)

lemma set_input_value_fields [simp]:
  "c_name (set_input_value k v c) = c_name c" "c_outputs (set_input_value k v c) = c_outputs c"
  "c_attrs (set_input_value k v c) = c_attrs c" "c_parent (set_input_value k v c) = c_parent c"
  "c_idx (set_input_value k v c) = c_idx c" "c_down (set_input_value k v c) = c_down c"
  "c_up (set_input_value k v c) = c_up c" "c_debug (set_input_value k v c) = c_debug c"
  by (simp_all add: set_input_value_def Let_def)

lemma output_set_input_value [simp]: "cpn_output k (set_input_value k' v c) = cpn_output k c"
  by (simp add: cpn_output_def)

lemma get_input_set_input:
  "get_input_value k (set_input_value k' v c) = (if k = k' then v else get_input_value k c)"
  by (auto simp: get_input_value_def set_input_value_def Let_def dget_dset get_or_def split: option.splits)

interpretation ins: named_slots get_input_value set_input_value
  by unfold_locales (rule get_input_set_input)

lemma error_set_output: "error_of (set_output k v c) = (if k = ''_ERROR'' then v else error_of c)"
  by (auto simp: error_of_def set_output_def Let_def dget_dset get_or_def split: option.splits)

lemma dget_clear_slots: "map_of (clear_slots slots) k = map_option (dset ''value'' PNone) (map_of slots k)"
  unfolding clear_slots_def by (induction slots) auto

lemma error_reset: "error_of (reset_component oo c) = PNone"
  by (auto simp: error_of_def reset_component_def Let_def dget_clear_slots get_or_def dget_dset split: option.splits)

lemma set_output_keys: "set (dkeys (c_outputs (set_output k v c))) = insert k (set (dkeys (c_outputs c)))"
  by (auto simp: set_output_def Let_def update_conv' simp flip: dom_map_of_conv_image_fst)

declare check_string_def [py_defs] check_empty_def [py_defs] check_positive_integer_def [py_defs]
  check_positive_number_def [py_defs] check_nonnegative_number_def [py_defs]
  check_decimal_float_def [py_defs] check_boolean_def [py_defs] check_open_unit_interval_def [py_defs]
  check_valid_value_def [py_defs] check_defined_type_def [py_defs] check_and_change_lower_def [py_defs]
  float_zero_def [py_defs] greater_equal_than_def [py_defs] less_equal_than_def [py_defs]
  param_update_def [py_defs] get_param_def [py_defs] param_attr_def [py_defs]
  cpn_output_def [py_defs] output_all_def [py_defs] output_of_def [py_defs] set_output_def [py_defs]
  error_of_def [py_defs] clear_slots_def [py_defs] reset_component_def [py_defs]
  set_input_value_def [py_defs] get_input_value_def [py_defs] get_input_values_def [py_defs]
  exception_handler_def [py_defs] get_exception_default_value_def [py_defs]
  set_exception_default_value_def [py_defs] record_failure_def [py_defs] invoke_begin_def [py_defs]
  invoke_end_def [py_defs]

end
