(* ===== verification/Canvas.thy ===== *)
theory Canvas
  imports Component
begin

text \<open>
  The in-memory canvas (\<open>agent/canvas.py\<close>): the components by id, the execution path,
  the global and environment variables, the conversation, the references and the memory.
  Variable references are resolved and assigned here.

  The Redis store, the clock and the hash function are arguments of the operations that
  use them. Reading a document attribute of a Python scalar (\<open>getattr\<close>) finds nothing.
\<close>

section \<open>State\<close>

record canvas =
  comps :: "(string, component) dict"
  path :: "string list"
  globals :: pdict
  variables :: pdict
  history :: "(string \<times> pyval) list"
  retrieval :: "pyval list"
  memory :: "(string \<times> string \<times> string) list"
  run_error :: pyval
  task_id :: string
  node_names :: "(string, string) dict"
  canceled :: bool

type_synonym 'a cact = "(canvas, 'a) act"

text \<open>The globals a canvas starts with when its DSL has none.\<close>

definition default_globals :: "string \<Rightarrow> pdict" where
  "default_globals now =
     [(''sys.query'', PStr []), (''sys.user_id'', PStr []), (''sys.conversation_turns'', PInt 0),
      (''sys.files'', PList []), (''sys.history'', PList []), (''sys.date'', PStr now)]"

definition load_globals :: "pdict \<Rightarrow> string \<Rightarrow> pyval res" where
  "load_globals dsl now = (case map_of dsl ''globals'' of
     Some (PDict g) \<Rightarrow>
       (let g1 = (if has_key g ''sys.history'' then g else dset ''sys.history'' (PList []) g);
            g2 = (if has_key g1 ''sys.date'' then g1 else dset ''sys.date'' (PStr now) g1)
        in Inr (PDict g2))
   | Some v \<Rightarrow> raise TypeError (''argument of type '' @ type_name v)
   | None \<Rightarrow> Inr (PDict (default_globals now)))"

definition load_variables :: "pdict \<Rightarrow> pyval" where
  "load_variables dsl = get_or dsl ''variables'' (PDict [])"

definition get_component :: "string \<Rightarrow> canvas \<Rightarrow> component option" where
  "get_component cpn_id c = map_of (comps c) cpn_id"

definition not_subscriptable :: "'a res" where
  "not_subscriptable = raise TypeError ([CHR 0x27] @ ''NoneType'' @ [CHR 0x27] @ '' object is not subscriptable'')"

text \<open>\<open>get_component_obj(id)\<close> subscripts the lookup, so a missing id raises.\<close>

definition get_component_obj :: "string \<Rightarrow> canvas \<Rightarrow> component res" where
  "get_component_obj cpn_id c = (case get_component cpn_id c of Some o' \<Rightarrow> Inr o' | None \<Rightarrow> not_subscriptable)"

definition get_component_type :: "string \<Rightarrow> canvas \<Rightarrow> string res" where
  "get_component_type cpn_id c = try_then (get_component_obj cpn_id c) (\<lambda>o'. Inr (c_name o'))"

definition get_component_name :: "string \<Rightarrow> canvas \<Rightarrow> string" where
  "get_component_name cid c = (case map_of (node_names c) cid of Some n \<Rightarrow> n | None \<Rightarrow> [])"

definition put_component :: "string \<Rightarrow> component \<Rightarrow> canvas \<Rightarrow> canvas" where
  "put_component cid o' c = c\<lparr>comps := dset cid o' (comps c)\<rparr>"

definition on_component :: "string \<Rightarrow> (component \<Rightarrow> component) \<Rightarrow> canvas \<Rightarrow> canvas" where
  "on_component cid f c = (case get_component cid c of Some o' \<Rightarrow> put_component cid (f o') c | None \<Rightarrow> c)"

section \<open>Reading a variable\<close>

definition strip_ref :: "string \<Rightarrow> string" where
  "strip_ref e = strip_chars ''}'' (strip_chars ''{'' (strip_chars '' '' (strip_chars ''}'' (strip_chars ''{'' e))))"

text \<open>One step of the walk of \<open>get_variable_param_value\<close> below a value that is not \<open>None\<close>.\<close>

definition descend :: "pyval \<Rightarrow> string \<Rightarrow> pyval" where
  "descend v key = (case v of
     PDict d \<Rightarrow> get_none d key
   | PList xs \<Rightarrow> (case py_int (PStr key) of Inl e \<Rightarrow> PNone
       | Inr i \<Rightarrow> (case py_index xs i of Inl e \<Rightarrow> PNone | Inr w \<Rightarrow> w))
   | _ \<Rightarrow> PNone)"

fun walk_keys :: "pyval \<Rightarrow> string list \<Rightarrow> pyval" where
  "walk_keys cur [] = cur"
| "walk_keys PNone (key # keys) = PNone"
| "walk_keys (PStr s) (key # keys) =
     (case json_loads s of None \<Rightarrow> PNone | Some v \<Rightarrow> walk_keys (descend v key) keys)"
| "walk_keys cur (key # keys) = walk_keys (descend cur key) keys"

definition get_variable_param_value :: "pyval \<Rightarrow> string \<Rightarrow> pyval" where
  "get_variable_param_value obj p = (if p = [] then obj else walk_keys obj (split_str ''.'' p))"

text \<open>\<open>cpn_id, var_nm = exp.split("@")\<close>.\<close>

definition split_ref :: "string \<Rightarrow> (string \<times> string) res" where
  "split_ref e = (case split_str ''@'' e of
     [a, b] \<Rightarrow> Inr (a, b)
   | [a] \<Rightarrow> raise ValueError ''not enough values to unpack (expected 2, got 1)''
   | _ \<Rightarrow> raise ValueError ''too many values to unpack (expected 2)'')"

definition cant_find :: "string \<Rightarrow> string \<Rightarrow> 'a res" where
  "cant_find cpn_id var_nm = raise GenericException
     (''Can'' @ [CHR 0x27] @ ''t find variable: '' @ [CHR 0x27] @ cpn_id @ ''@'' @ var_nm @ [CHR 0x27])"

text \<open>\<open>var_nm.split(".", 1)\<close> as the root key and the rest.\<close>

definition split_root :: "string \<Rightarrow> string \<times> string" where
  "split_root var_nm = (case split_once ''.'' var_nm of [a, b] \<Rightarrow> (a, b) | _ \<Rightarrow> (var_nm, []))"

definition get_variable_value :: "string \<Rightarrow> canvas \<Rightarrow> pyval res" where
  "get_variable_value e0 c =
     (let e = strip_ref e0
      in if \<not> str_in ''@'' e then dict_item (globals c) e
         else try_then (split_ref e) (\<lambda>(cpn_id, var_nm).
           (case get_component cpn_id c of
              None \<Rightarrow> cant_find cpn_id var_nm
            | Some o' \<Rightarrow>
                (let (root_key, rest) = split_root var_nm; root_val = output_of root_key o'
                 in Inr (if rest = [] then root_val else get_variable_param_value root_val rest)))))"

section \<open>Assigning a variable\<close>

fun set_keys :: "pdict \<Rightarrow> string list \<Rightarrow> pyval \<Rightarrow> pdict" where
  "set_keys d [] v = d"
| "set_keys d [key] v = dset key v d"
| "set_keys d (key # keys) v =
     dset key (PDict (set_keys (case map_of d key of Some (PDict e) \<Rightarrow> e | _ \<Rightarrow> []) keys v)) d"

text \<open>\<open>cur[k] = v\<close> on a value that is no object raises.\<close>

definition no_assignment :: "pyval \<Rightarrow> 'a res" where
  "no_assignment v = raise TypeError
     (if is_list v then ''list indices must be integers or slices, not str''
      else [CHR 0x27] @ type_name v @ [CHR 0x27] @ '' object does not support item assignment'')"

definition set_variable_param_value :: "pyval \<Rightarrow> string \<Rightarrow> pyval \<Rightarrow> pyval res" where
  "set_variable_param_value obj p v =
     (if p = [] then Inr v
      else (case obj of PDict d \<Rightarrow> Inr (PDict (set_keys d (split_str ''.'' p) v)) | _ \<Rightarrow> no_assignment obj))"

definition set_variable_value :: "string \<Rightarrow> pyval \<Rightarrow> canvas \<Rightarrow> canvas res" where
  "set_variable_value e0 v c =
     (let e = strip_ref e0
      in if \<not> str_in ''@'' e then Inr (c\<lparr>globals := dset e v (globals c)\<rparr>)
         else try_then (split_ref e) (\<lambda>(cpn_id, var_nm).
           (case get_component cpn_id c of
              None \<Rightarrow> cant_find cpn_id var_nm
            | Some o' \<Rightarrow>
                (let (root_key, rest) = split_root var_nm
                 in if rest = [] then Inr (put_component cpn_id (set_output root_key v o') c)
                    else (let r0 = output_of root_key o'; root_val = (if truthy r0 then r0 else PDict [])
                          in try_then (set_variable_param_value root_val rest v)
                               (\<lambda>w. Inr (put_component cpn_id (set_output root_key w o') c)))))))"

definition is_reff :: "string \<Rightarrow> canvas \<Rightarrow> bool" where
  "is_reff e0 c =
     (let e = strip_chars ''}'' (strip_chars ''{'' e0)
      in if \<not> str_in ''@'' e then has_key (globals c) e
         else (case split_str ''@'' e of [a, b] \<Rightarrow> get_component a c \<noteq> None | _ \<Rightarrow> False))"

section \<open>Filling references in a text\<close>

definition replacement_text :: "pyval \<Rightarrow> string" where
  "replacement_text v = (case v of
     PNone \<Rightarrow> [] | PStream chunks \<Rightarrow> concat chunks | PStr s \<Rightarrow> s | _ \<Rightarrow> json_dumps v)"

definition get_value_with_variable :: "string \<Rightarrow> canvas \<Rightarrow> string res" where
  "get_value_with_variable text c = (case rx_pieces (variable_ref_rx False) text of (ps, tail) \<Rightarrow>
     try_then (map_res (\<lambda>(before, m, g). try_then (get_variable_value (group g 1) c)
                          (\<lambda>v. Inr (before @ replacement_text v))) ps)
       (\<lambda>parts. Inr (concat parts @ tail)))"

section \<open>Conversation, references, memory\<close>

definition clear_history :: "canvas \<Rightarrow> canvas" where
  "clear_history c =
     (let g = globals c
      in c\<lparr>history := [], globals := (if is_list (get_none g ''sys.history'') then dset ''sys.history'' (PList []) g else g)\<rparr>)"

text \<open>\<open>self.globals["sys.history"].append(text)\<close>.\<close>

definition append_sys_history :: "string \<Rightarrow> canvas \<Rightarrow> canvas res" where
  "append_sys_history t c = try_then (dict_item (globals c) ''sys.history'') (\<lambda>h. case h of
     PList xs \<Rightarrow> Inr (c\<lparr>globals := dset ''sys.history'' (PList (xs @ [PStr t])) (globals c)\<rparr>)
   | _ \<Rightarrow> no_attr h ''append'')"

definition push_history :: "string \<Rightarrow> pyval \<Rightarrow> unit cact" where
  "push_history role obj = bnd (modify (\<lambda>c. c\<lparr>history := history c @ [(role, obj)]\<rparr>))
     (\<lambda>_. modify_res (append_sys_history (role @ '': '' @ py_str obj)))"

definition add_user_input :: "pyval \<Rightarrow> unit cact" where
  "add_user_input question = push_history ''user'' question"

definition get_history :: "int \<Rightarrow> canvas \<Rightarrow> pyval list" where
  "get_history window_size c =
     (if window_size \<le> 0 then []
      else map (\<lambda>(role, obj). PDict [(''role'', PStr role),
             (''content'', case obj of PDict d \<Rightarrow> get_or d ''content'' (PStr []) | _ \<Rightarrow> PStr (py_str obj))])
           (slice_from (history c) (window_size * -2)))"

definition add_memory :: "string \<Rightarrow> string \<Rightarrow> string \<Rightarrow> canvas \<Rightarrow> canvas" where
  "add_memory user assist summ c = c\<lparr>memory := memory c @ [(user, assist, summ)]\<rparr>"

text \<open>\<open>chunks_format\<close> renames the fields of the retrieved chunks (\<open>rag/prompts/generator.py\<close>).\<close>

definition get_value2 :: "pdict \<Rightarrow> string \<Rightarrow> string \<Rightarrow> pyval" where
  "get_value2 d k1 k2 = get_or d k1 (get_none d k2)"

definition format_chunk :: "pdict \<Rightarrow> pdict" where
  "format_chunk chunk =
     [(''id'', get_value2 chunk ''chunk_id'' ''id''),
      (''content'', get_value2 chunk ''content'' ''content_with_weight''),
      (''document_id'', get_value2 chunk ''doc_id'' ''document_id''),
      (''document_name'', get_value2 chunk ''docnm_kwd'' ''document_name''),
      (''dataset_id'', get_value2 chunk ''kb_id'' ''dataset_id''),
      (''image_id'', get_value2 chunk ''image_id'' ''img_id''),
      (''positions'', get_value2 chunk ''positions'' ''position_int''),
      (''url'', get_none chunk ''url''),
      (''similarity'', get_none chunk ''similarity''),
      (''vector_similarity'', get_none chunk ''vector_similarity''),
      (''term_similarity'', get_none chunk ''term_similarity''),
      (''row_id'', get_none chunk ''row_id''),
      (''doc_type'', get_value2 chunk ''doc_type_kwd'' ''doc_type''),
      (''document_metadata'', get_none chunk ''document_metadata'')]"

definition chunks_format :: "pyval \<Rightarrow> pdict list" where
  "chunks_format reference = (case reference of
     PDict d \<Rightarrow> (case get_or d ''chunks'' (PList []) of
        PList raw \<Rightarrow> List.map_filter (\<lambda>v. case v of PDict chunk \<Rightarrow> Some (format_chunk chunk) | _ \<Rightarrow> None) raw
      | _ \<Rightarrow> [])
   | _ \<Rightarrow> [])"

text \<open>
  \<open>add_reference\<close>. The guards \<open>cid not in r\<close> and \<open>doc["doc_name"] not in r\<close> look among
  the keys of the whole entry (\<open>chunks\<close> and \<open>doc_aggs\<close>), not in the bag they protect. A
  chunk key is an integer, written here in decimal, and never one of those; a document
  name that is not a string stands as its text.
\<close>

definition empty_reference :: pyval where
  "empty_reference = PDict [(''chunks'', PDict []), (''doc_aggs'', PDict [])]"

text \<open>\<open>r[bag][k] = v\<close>.\<close>

definition bag_assign :: "string \<Rightarrow> string \<Rightarrow> pyval \<Rightarrow> pdict \<Rightarrow> pdict res" where
  "bag_assign bag k v r = try_then (dict_item r bag) (\<lambda>b. case b of
     PDict d \<Rightarrow> Inr (dset bag (PDict (dset k v d)) r)
   | PList xs \<Rightarrow> (if bag = ''chunks'' then raise IndexError ''list assignment index out of range'' else no_assignment b)
   | _ \<Rightarrow> no_assignment b)"

definition add_chunk_ref :: "(string \<Rightarrow> nat) \<Rightarrow> pdict \<Rightarrow> pdict \<Rightarrow> pdict res" where
  "add_chunk_ref sha1 ck r = try_then (dict_item ck ''id'') (\<lambda>i. try_then (as_str ''encode'' i) (\<lambda>s.
     bag_assign ''chunks'' (nat_str (sha1 s mod 500)) (PDict ck) r))"

definition add_doc_ref :: "pyval \<Rightarrow> pdict \<Rightarrow> pdict res" where
  "add_doc_ref doc r = try_then (subscript doc ''doc_name'') (\<lambda>n.
     if is_list n \<or> is_dict n then raise TypeError (''unhashable type: '' @ [CHR 0x27] @ type_name n @ [CHR 0x27])
     else if has_key r (py_str n) then Inr r else bag_assign ''doc_aggs'' (py_str n) doc r)"

definition add_reference :: "(string \<Rightarrow> nat) \<Rightarrow> pyval list \<Rightarrow> pyval list \<Rightarrow> canvas \<Rightarrow> canvas res" where
  "add_reference sha1 chunks doc_infos c =
     (let rs = (if retrieval c = [] then [empty_reference] else retrieval c)
      in case last rs of
           PDict r0 \<Rightarrow> try_then (fold_res (add_chunk_ref sha1) (chunks_format (PDict [(''chunks'', PList chunks)])) r0)
             (\<lambda>r1. try_then (fold_res add_doc_ref doc_infos r1)
               (\<lambda>r2. Inr (c\<lparr>retrieval := butlast rs @ [PDict r2]\<rparr>)))
         | v \<Rightarrow> raise TypeError (type_name v))"

definition get_reference :: "canvas \<Rightarrow> pyval" where
  "get_reference c = (if retrieval c = [] then empty_reference else last (retrieval c))"

definition has_reference :: "canvas \<Rightarrow> bool" where
  "has_reference c = (case get_reference c of
     PDict d \<Rightarrow> truthy (py_or (get_none d ''chunks'') (get_none d ''doc_aggs'')) | _ \<Rightarrow> False)"

definition build_message_end :: "component \<Rightarrow> canvas \<Rightarrow> pdict" where
  "build_message_end cpn c =
     (if truthy (get_param ''status'' cpn) then [(''status'', get_param ''status'' cpn)] else [])
   @ (if is_dict (cpn_output ''attachment'' cpn) then [(''attachment'', cpn_output ''attachment'' cpn)] else [])
   @ (if has_reference c then [(''reference'', get_reference c)] else [])"

section \<open>Reset\<close>

definition zero_of :: "pyval \<Rightarrow> pyval" where
  "zero_of v = (case v of
     PStr s \<Rightarrow> PStr [] | PBool b \<Rightarrow> PInt 0 | PInt i \<Rightarrow> PInt 0 | PFloat r \<Rightarrow> PInt 0
   | PList xs \<Rightarrow> PList [] | PDict d \<Rightarrow> PDict [] | _ \<Rightarrow> PNone)"

definition default_of_type :: "string \<Rightarrow> pyval" where
  "default_of_type t =
     (if t = ''number'' then PInt 0 else if t = ''boolean'' then PBool False
      else if t = ''object'' then PDict [] else if starts_with t ''array'' then PList [] else PStr [])"

definition env_default :: "pdict \<Rightarrow> string \<Rightarrow> pyval res" where
  "env_default vars key = (case map_of vars key of
     None \<Rightarrow> Inr (PStr [])
   | Some variable \<Rightarrow> try_then (get_method variable ''value'' PNone) (\<lambda>v.
       if v \<noteq> PNone then Inr v
       else try_then (get_method variable ''type'' (PStr [])) (\<lambda>t.
         try_then (as_str ''startswith'' t) (\<lambda>s. Inr (default_of_type s)))))"

definition reset_global :: "pdict \<Rightarrow> string \<times> pyval \<Rightarrow> (string \<times> pyval) res" where
  "reset_global vars kv = (case kv of (k, v) \<Rightarrow>
     if starts_with k ''sys.'' then Inr (k, zero_of v)
     else if starts_with k ''env.'' then try_then (env_default vars (drop 4 k)) (\<lambda>w. Inr (k, w))
     else Inr (k, v))"

definition reset_canvas :: "bool \<Rightarrow> canvas \<Rightarrow> canvas res" where
  "reset_canvas mem c =
     (let c1 = c\<lparr>path := [], comps := map (\<lambda>(k, o'). (k, reset_component False o')) (comps c)\<rparr>;
          c2 = (if mem then c1 else c1\<lparr>history := [], retrieval := [], memory := []\<rparr>)
      in try_then (map_res (reset_global (variables c)) (globals c2)) (\<lambda>g. Inr (c2\<lparr>globals := g\<rparr>)))"

section \<open>Input of a component\<close>

definition get_parent :: "string \<Rightarrow> canvas \<Rightarrow> string option res" where
  "get_parent cid c = (case get_component cid c of
     None \<Rightarrow> raise AttributeError ([CHR 0x27] @ ''NoneType'' @ [CHR 0x27] @ '' object has no attribute get'')
   | Some o' \<Rightarrow> (case c_parent o' of
        None \<Rightarrow> Inr None
      | Some pid \<Rightarrow> if pid = [] then Inr None else try_then (get_component_obj pid c) (\<lambda>p. Inr (Some pid))))"

text \<open>\<open>check_if_canceled\<close>: a cancelled task marks the component and reports it.\<close>

definition cancel_text :: string where
  "cancel_text = ''Task has been canceled''"

definition check_if_canceled :: "string \<Rightarrow> bool cact" where
  "check_if_canceled me = (\<lambda>c. if canceled c
     then (Inr True, on_component me (set_output ''_ERROR'' (PStr cancel_text)) c) else (Inr False, c))"

text \<open>The item reference an alias stands for inside an iteration.\<close>

definition resolve_iteration_alias_ref :: "string \<Rightarrow> string \<Rightarrow> canvas \<Rightarrow> string option res" where
  "resolve_iteration_alias_ref me e c =
     (if e \<notin> {''item'', ''index'', ''result''} then Inr None
      else try_then (get_parent me c) (\<lambda>p. case p of
        None \<Rightarrow> Inr None
      | Some pid \<Rightarrow> try_then (get_component_obj pid c) (\<lambda>po.
          if lower (c_name po) \<noteq> ''iteration'' then Inr None
          else Inr (find_map (\<lambda>(cid, o'). if c_parent o' = Some pid \<and> lower (c_name o') = ''iterationitem''
                                          then Some (cid @ ''@'' @ e) else None) (comps c)))))"

text \<open>One entry of \<open>get_input_elements_from_text\<close>.\<close>

definition element_entry :: "string \<Rightarrow> string \<Rightarrow> string \<Rightarrow> canvas \<Rightarrow> pdict res" where
  "element_entry ref cpn_id var_nm c = try_then (get_variable_value ref c) (\<lambda>v.
     if cpn_id = [] then Inr [(''name'', PStr ref), (''value'', v), (''_retrieval'', PNone), (''_cpn_id'', PStr [])]
     else try_then (get_variable_value (cpn_id @ ''@_references'') c) (\<lambda>w.
       Inr [(''name'', PStr (get_component_name cpn_id c @ ''@'' @ var_nm)), (''value'', v),
            (''_retrieval'', w), (''_cpn_id'', PStr cpn_id)]))"

definition add_reference_element :: "canvas \<Rightarrow> string \<Rightarrow> pdict \<Rightarrow> pdict res" where
  "add_reference_element c e found =
     try_then (if break_at ''@'' e \<noteq> None \<and> \<not> starts_with e ''@'' then split_ref e else Inr ([], e)) (\<lambda>(cpn_id, var_nm).
       try_then (element_entry e cpn_id var_nm c) (\<lambda>d. Inr (dset e (PDict d) found)))"

definition add_alias_element :: "string \<Rightarrow> canvas \<Rightarrow> string \<Rightarrow> pdict \<Rightarrow> pdict res" where
  "add_alias_element me c e found =
     (if has_key found e then Inr found
      else try_then (resolve_iteration_alias_ref me e c) (\<lambda>ref. case ref of
        None \<Rightarrow> Inr found
      | Some r \<Rightarrow> (case split_once ''@'' r of
           [cpn_id, var_nm] \<Rightarrow> try_then (element_entry r cpn_id var_nm c) (\<lambda>d. Inr (dset e (PDict d) found))
         | _ \<Rightarrow> raise ValueError ''not enough values to unpack (expected 2, got 1)'')))"

definition matches_of :: "rx \<Rightarrow> string \<Rightarrow> string list" where
  "matches_of a txt = map (\<lambda>(p, m, g). group g 1) (fst (rx_pieces a txt))"

definition get_input_elements_from_text :: "string \<Rightarrow> string \<Rightarrow> canvas \<Rightarrow> pdict res" where
  "get_input_elements_from_text me txt c =
     try_then (fold_res (add_reference_element c) (matches_of (variable_ref_rx True) txt) [])
       (fold_res (add_alias_element me c) (matches_of iteration_alias_rx txt))"

text \<open>
  \<open>get_input()\<close>: every declared element is read from its parameter, which is a reference,
  a template, or the value itself. The names of the declared elements are an argument.
\<close>

definition element_values :: "pdict \<Rightarrow> (string \<times> pyval) list" where
  "element_values elements = map (\<lambda>(k, e). (k, case e of PDict d \<Rightarrow> get_or d ''value'' (PStr []) | _ \<Rightarrow> PStr [])) elements"

definition input_of_param :: "string \<Rightarrow> pyval \<Rightarrow> canvas \<Rightarrow> pyval res" where
  "input_of_param me v c = (case v of
     PStr s \<Rightarrow>
       (if is_reff s c then get_variable_value s c
        else if rx_search (variable_ref_rx False) s \<noteq> None then
          try_then (get_input_elements_from_text me s c) (\<lambda>els. Inr (PStr (string_format s (element_values els))))
        else Inr v)
   | _ \<Rightarrow> Inr v)"

definition get_input_one :: "string \<Rightarrow> string \<Rightarrow> unit cact" where
  "get_input_one me var = (\<lambda>c. case get_component me c of
     None \<Rightarrow> (not_subscriptable, c)
   | Some o' \<Rightarrow> (if get_param var o' = PNone then (Inr (), c)
       else (case input_of_param me (get_param var o') c of
               Inl e \<Rightarrow> (Inl e, c)
             | Inr w \<Rightarrow> (Inr (), put_component me (set_input_value var w o') c))))"

definition get_input :: "string \<Rightarrow> string list \<Rightarrow> pdict cact" where
  "get_input me vars = bnd (for_each (get_input_one me) vars) (\<lambda>_. gets_res (\<lambda>c. case get_component me c of
     None \<Rightarrow> not_subscriptable
   | Some o' \<Rightarrow> Inr (map (\<lambda>var. (var, get_input_value var o')) (filter (\<lambda>var. get_param var o' \<noteq> PNone) vars))))"

section \<open>Laws\<close>

lemma get_put_component [simp]:
  "get_component k (put_component cid o' c) = (if k = cid then Some o' else get_component k c)"
  by (simp add: get_component_def put_component_def dget_dset)

lemma put_component_fields [simp]:
  "globals (put_component cid o' c) = globals c" "path (put_component cid o' c) = path c"
  "variables (put_component cid o' c) = variables c" "history (put_component cid o' c) = history c"
  "retrieval (put_component cid o' c) = retrieval c" "memory (put_component cid o' c) = memory c"
  "node_names (put_component cid o' c) = node_names c" "canceled (put_component cid o' c) = canceled c"
  "run_error (put_component cid o' c) = run_error c" "task_id (put_component cid o' c) = task_id c"
  by (simp_all add: put_component_def)

lemma on_component_fields [simp]:
  "globals (on_component cid f c) = globals c" "path (on_component cid f c) = path c"
  "variables (on_component cid f c) = variables c" "history (on_component cid f c) = history c"
  "retrieval (on_component cid f c) = retrieval c" "canceled (on_component cid f c) = canceled c"
  "node_names (on_component cid f c) = node_names c" "run_error (on_component cid f c) = run_error c"
  by (simp_all add: on_component_def split: option.splits)

lemma get_on_component:
  "get_component k (on_component cid f c) =
     (if k = cid then map_option f (get_component k c) else get_component k c)"
  by (auto simp: on_component_def split: option.splits)

text \<open>What \<open>set_keys\<close> wrote, the walk finds.\<close>

lemma walk_set_keys: "keys \<noteq> [] \<Longrightarrow> walk_keys (PDict (set_keys d keys v)) keys = v"
proof (induction d keys v rule: set_keys.induct)
  case (1 d v)
  then show ?case by simp
next
  case (2 d key v)
  then show ?case by (simp add: descend_def get_or_dset)
next
  case (3 d key k2 keys v)
  then show ?case by (simp add: descend_def get_or_dset)
qed

text \<open>A write below one key leaves the other keys of the object alone.\<close>

lemma set_keys_other: "keys \<noteq> [] \<Longrightarrow> k \<noteq> hd keys \<Longrightarrow> map_of (set_keys d keys v) k = map_of d k"
  by (induction d keys v rule: set_keys.induct) (auto simp: dget_dset)

lemma get_set_param_value:
  "set_variable_param_value obj p v = Inr w \<Longrightarrow> get_variable_param_value w p = v"
  by (auto simp: set_variable_param_value_def get_variable_param_value_def no_assignment_def
      walk_set_keys split_str_nonempty split: if_splits pyval.splits)

declare default_globals_def [py_defs] load_globals_def [py_defs] load_variables_def [py_defs]
  get_component_def [py_defs] not_subscriptable_def [py_defs] get_component_obj_def [py_defs]
  get_component_type_def [py_defs] get_component_name_def [py_defs] put_component_def [py_defs]
  on_component_def [py_defs] strip_ref_def [py_defs] descend_def [py_defs]
  get_variable_param_value_def [py_defs] split_ref_def [py_defs] cant_find_def [py_defs]
  split_root_def [py_defs] get_variable_value_def [py_defs] no_assignment_def [py_defs]
  set_variable_param_value_def [py_defs] set_variable_value_def [py_defs] is_reff_def [py_defs]
  replacement_text_def [py_defs] get_value_with_variable_def [py_defs] clear_history_def [py_defs]
  append_sys_history_def [py_defs] push_history_def [py_defs] add_user_input_def [py_defs]
  get_history_def [py_defs] add_memory_def [py_defs] get_value2_def [py_defs] format_chunk_def [py_defs]
  chunks_format_def [py_defs] empty_reference_def [py_defs] bag_assign_def [py_defs]
  add_chunk_ref_def [py_defs] add_doc_ref_def [py_defs] add_reference_def [py_defs]
  get_reference_def [py_defs] has_reference_def [py_defs] build_message_end_def [py_defs]
  zero_of_def [py_defs] default_of_type_def [py_defs] env_default_def [py_defs]
  reset_global_def [py_defs] reset_canvas_def [py_defs] get_parent_def [py_defs]
  cancel_text_def [py_defs] check_if_canceled_def [py_defs] resolve_iteration_alias_ref_def [py_defs]
  element_entry_def [py_defs] add_reference_element_def [py_defs] add_alias_element_def [py_defs]
  matches_of_def [py_defs] get_input_elements_from_text_def [py_defs] element_values_def [py_defs]
  input_of_param_def [py_defs] get_input_one_def [py_defs] get_input_def [py_defs]

section \<open>The variables as a store\<close>

text \<open>
  The contract of the variables of a canvas: an assignment to a name can be read back, and
  leaves every name with another root alone. \<open>wf\<close> are the names that denote one slot.
\<close>

locale variable_store =
  fixes rd :: "'r \<Rightarrow> 's \<Rightarrow> 'v res"
    and wr :: "'r \<Rightarrow> 'v \<Rightarrow> 's \<Rightarrow> 's res"
    and root :: "'r \<Rightarrow> 'k"
    and wf :: "'r \<Rightarrow> bool"
  assumes rd_wr: "wf r \<Longrightarrow> wr r v s = Inr t \<Longrightarrow> rd r t = Inr v"
    and rd_frame: "wf q \<Longrightarrow> wr r v s = Inr t \<Longrightarrow> root q \<noteq> root r \<Longrightarrow> rd q t = rd q s"
begin

definition writes :: "('r \<times> 'v) list \<Rightarrow> 's \<Rightarrow> 's res" where
  "writes ps s = fold_res (\<lambda>(r, v). wr r v) ps s"

lemma writes_Cons: "writes ((r, v) # ps) s = try_then (wr r v s) (writes ps)"
  by (cases "wr r v s") (simp_all add: writes_def)

lemma writes_frame:
  "writes ps s = Inr t \<Longrightarrow> wf q \<Longrightarrow> root q \<notin> root ` fst ` set ps \<Longrightarrow> rd q t = rd q s"
proof (induction ps arbitrary: s)
  case Nil
  then show ?case by (simp add: writes_def)
next
  case (Cons p ps)
  obtain r v where p: "p = (r, v)" by (cases p)
  from Cons.prems(1) obtain u where u: "wr r v s = Inr u" "writes ps u = Inr t"
    unfolding p writes_Cons by (auto simp: try_then_Inr_iff)
  show ?case using Cons.IH [OF u(2)] Cons.prems rd_frame [OF _ u(1)] p by auto
qed

lemma writes_last:
  assumes "writes (ps @ [(r, v)] @ qs) s = Inr t" and "wf r" and "root r \<notin> root ` fst ` set qs"
  shows "rd r t = Inr v"
proof -
  obtain u w where "wr r v u = Inr w" "writes qs w = Inr t"
    using assms(1) by (auto simp: writes_def fold_res_append try_then_Inr_iff)
  then show ?thesis using writes_frame [of qs w t r] rd_wr [OF assms(2)] assms(2,3) by simp
qed

end

text \<open>The slot a reference lies in: a global, or an output of a component.\<close>

definition ref_root :: "string \<Rightarrow> string \<times> string" where
  "ref_root e0 = (let e = strip_ref e0 in
     if \<not> str_in ''@'' e then ([], e)
     else (case split_ref e of Inr (cid, var) \<Rightarrow> (''@'' @ cid, fst (split_root var)) | Inl x \<Rightarrow> ([], [])))"

definition names_slot :: "string \<Rightarrow> bool" where
  "names_slot e0 = (let e = strip_ref e0 in
     \<not> str_in ''@'' e \<or> (case split_ref e of Inr (cid, var) \<Rightarrow> fst (split_root var) \<noteq> [] | Inl x \<Rightarrow> True))"

lemma output_of_set_output: "k \<noteq> [] \<Longrightarrow> output_of k (set_output k' v o') = (if k = k' then v else output_of k o')"
  by (simp add: output_of_def output_set_output)

lemma set_then_get:
  assumes "names_slot e" and "set_variable_value e v c = Inr c'"
  shows "get_variable_value e c' = Inr v"
proof (cases "str_in ''@'' (strip_ref e)")
  case False
  with assms(2) show ?thesis
    by (auto simp: set_variable_value_def get_variable_value_def dict_item_def dget_dset)
next
  case True
  with assms(2) obtain cid var where sp: "split_ref (strip_ref e) = Inr (cid, var)"
    by (auto simp: set_variable_value_def try_then_Inr_iff)
  obtain rk rest where sr: "split_root var = (rk, rest)" by (cases "split_root var")
  have rk: "rk \<noteq> []" using assms(1) True sp sr by (simp add: names_slot_def)
  obtain o' where o': "get_component cid c = Some o'"
    using assms(2) True sp by (auto simp: set_variable_value_def cant_find_def split: option.splits)
  show ?thesis
  proof (cases "rest = []")
    case rest: True
    show ?thesis using assms(2) True sp o' sr rest rk
      by (auto simp: set_variable_value_def get_variable_value_def output_of_set_output)
  next
    case rest: False
    then show ?thesis using assms(2) True sp o' sr rk
      by (auto simp: set_variable_value_def get_variable_value_def output_of_set_output
          try_then_Inr_iff get_set_param_value Let_def)
  qed
qed

lemma set_frame:
  assumes "names_slot q" and "set_variable_value e v c = Inr c'" and "ref_root q \<noteq> ref_root e"
  shows "get_variable_value q c' = get_variable_value q c"
proof (cases "str_in ''@'' (strip_ref e)")
  case False
  then have c': "c' = c\<lparr>globals := dset (strip_ref e) v (globals c)\<rparr>"
    using assms(2) by (simp add: set_variable_value_def)
  show ?thesis
  proof (cases "str_in ''@'' (strip_ref q)")
    case True
    then show ?thesis by (simp add: get_variable_value_def c' get_component_def)
  next
    case q: False
    then have "strip_ref q \<noteq> strip_ref e" using assms(3) False by (auto simp: ref_root_def Let_def)
    then show ?thesis using q by (simp add: get_variable_value_def c' dict_item_def dget_dset)
  qed
next
  case True
  with assms(2) obtain cid var where sp: "split_ref (strip_ref e) = Inr (cid, var)"
    by (auto simp: set_variable_value_def try_then_Inr_iff)
  obtain rk rest where sr: "split_root var = (rk, rest)" by (cases "split_root var")
  obtain o' where o': "get_component cid c = Some o'"
    using assms(2) True sp by (auto simp: set_variable_value_def cant_find_def split: option.splits)
  obtain w where c': "c' = put_component cid (set_output rk w o') c"
    using assms(2) True sp sr o' by (auto simp: set_variable_value_def Let_def try_then_Inr_iff split: if_splits)
  show ?thesis
  proof (cases "str_in ''@'' (strip_ref q)")
    case False
    then show ?thesis by (simp add: get_variable_value_def c')
  next
    case q: True
    show ?thesis
    proof (cases "split_ref (strip_ref q)")
      case (Inl x)
      then show ?thesis using q by (simp add: get_variable_value_def)
    next
      case (Inr p)
      obtain qcid qvar where p: "p = (qcid, qvar)" by (cases p)
      obtain qk qr where qs: "split_root qvar = (qk, qr)" by (cases "split_root qvar")
      have "qk \<noteq> []" "qcid = cid \<Longrightarrow> qk \<noteq> rk"
        using assms(1,3) q Inr p qs True sp sr by (auto simp: names_slot_def ref_root_def Let_def)
      then show ?thesis using q Inr p qs o'
        by (auto simp: get_variable_value_def c' output_of_set_output split: option.splits)
    qed
  qed
qed

text \<open>The canvas keeps the contract.\<close>

interpretation vars: variable_store get_variable_value set_variable_value ref_root names_slot
  by unfold_locales (rule set_then_get, assumption, assumption, rule set_frame)


lemma zero_of_idem: "zero_of (zero_of v) = zero_of v"
  by (cases v) (simp_all add: zero_of_def)

lemma reset_global_idem: "reset_global vars p = Inr q \<Longrightarrow> reset_global vars q = Inr q \<and> fst q = fst p"
  by (cases p) (auto simp: reset_global_def zero_of_idem try_then_Inr_iff split: if_splits)

lemma reset_globals_idem: "map_res (reset_global vars) g = Inr g' \<Longrightarrow> map_res (reset_global vars) g' = Inr g' \<and> dkeys g' = dkeys g"
proof (induction g arbitrary: g')
  case Nil
  then show ?case by simp
next
  case (Cons p g)
  then show ?case by (auto simp: try_then_Inr_iff dest: reset_global_idem)
qed

lemma clear_slots_idem: "clear_slots (clear_slots d) = clear_slots d"
proof -
  have "dset k (v::pyval) (dset k v e) = dset k v e" for k :: string and v and e :: pdict
    by (induction e) auto
  then show ?thesis by (simp add: clear_slots_def split_def comp_def)
qed

lemma reset_component_idem: "reset_component b (reset_component b o') = reset_component b o'"
  by (simp add: reset_component_def Let_def clear_slots_idem)

lemma cpn_output_reset: "cpn_output k (reset_component b o') = (if has_key (c_outputs o') k then PNone else PStr [])"
  by (auto simp: cpn_output_def reset_component_def Let_def dget_clear_slots get_or_def dget_dset split: option.splits)

lemma reset_component_clear:
  "\<not> truthy (cpn_output k (reset_component b o'))" "c_debug (reset_component False o') = []"
  by (simp_all add: cpn_output_reset) (simp add: reset_component_def Let_def)

lemma get_component_reset: "reset_canvas mem c = Inr d \<Longrightarrow>
    get_component k d = map_option (reset_component False) (get_component k c)"
  by (auto simp: reset_canvas_def Let_def try_then_Inr_iff get_component_def map_of_map)

text \<open>Resetting a canvas empties its path, every output slot, error slot and debug input, keeps the names of
  its globals, keeps or drops the conversation as asked, and doing it again changes nothing.\<close>

theorem reset_canvas_idempotent:
  assumes "reset_canvas mem c = Inr d"
  shows "reset_canvas mem d = Inr d \<and> path d = [] \<and> dkeys (globals d) = dkeys (globals c)
    \<and> (\<forall>k o'. get_component k d = Some o' \<longrightarrow> (\<forall>n. \<not> truthy (cpn_output n o')) \<and> error_of o' = PNone \<and> c_debug o' = [])
    \<and> (\<not> mem \<longrightarrow> history d = [] \<and> retrieval d = [] \<and> memory d = [])
    \<and> (mem \<longrightarrow> history d = history c \<and> retrieval d = retrieval c \<and> memory d = memory c)"
proof -
  obtain g where g: "map_res (reset_global (variables c)) (globals c) = Inr g"
    and d: "d = (let c1 = c\<lparr>path := [], comps := map (\<lambda>(k, o'). (k, reset_component False o')) (comps c)\<rparr>;
                     c2 = (if mem then c1 else c1\<lparr>history := [], retrieval := [], memory := []\<rparr>)
                 in c2\<lparr>globals := g\<rparr>)"
    using assms by (auto simp: reset_canvas_def Let_def try_then_Inr_iff split: if_splits)
  note gg = reset_globals_idem [OF g]
  have "reset_canvas mem d = Inr d"
    using gg by (simp add: d reset_canvas_def Let_def split_def comp_def reset_component_idem)
  moreover have "(\<forall>n. \<not> truthy (cpn_output n o')) \<and> error_of o' = PNone \<and> c_debug o' = []"
    if "get_component k d = Some o'" for k o'
    using that get_component_reset [OF assms, of k]
    by (auto simp: reset_component_clear error_reset)
  ultimately show ?thesis using gg by (simp add: d Let_def)
qed

lemma get_history_eq: "get_history n c = map (\<lambda>(role, obj). PDict [(''role'', PStr role),
      (''content'', case obj of PDict d \<Rightarrow> get_or d ''content'' (PStr []) | _ \<Rightarrow> PStr (py_str obj))])
    (drop (length (history c) - nat (2 * n)) (history c))"
proof (cases "n \<le> 0")
  case False
  then have "slice_pos (length (history c)) (n * -2) = length (history c) - nat (2 * n)"
    by (auto simp: slice_pos_def)
  with False show ?thesis by (simp add: get_history_def slice_from_def)
qed (simp add: get_history_def)

text \<open>The history window of size \<open>n\<close> holds the last \<open>2 * n\<close> messages (all of them when there are
  fewer), and a smaller window is the end of a larger one.\<close>

theorem get_history_suffix:
  assumes "m \<le> n"
  shows "length (get_history n c) = min (nat (2 * n)) (length (history c))
    \<and> suffix (get_history m c) (get_history n c)"
proof -
  have "suffix (drop (length (history c) - nat (2 * m)) (history c)) (drop (length (history c) - nat (2 * n)) (history c))"
  proof -
    have "length (history c) - nat (2 * n) \<le> length (history c) - nat (2 * m)" using assms by linarith
    then obtain j where "length (history c) - nat (2 * m) = j + (length (history c) - nat (2 * n))"
      by (metis le_add_diff_inverse2)
    then show ?thesis by (metis drop_drop suffix_drop)
  qed
  then show ?thesis unfolding get_history_eq by (auto intro: map_mono_suffix)
qed

text \<open>A pattern that cannot match without the character \<open>x\<close>.\<close>

fun needs :: "char \<Rightarrow> rx \<Rightarrow> bool" where
  "needs x REps = False"
| "needs x (RSet cs) = (cs = [x])"
| "needs x (RNotSet cs) = False"
| "needs x (RSeq a b) = (needs x a \<or> needs x b)"
| "needs x (RAlt a b) = (needs x a \<and> needs x b)"
| "needs x (RStar a) = False"
| "needs x (RGroup i a) = needs x a"

lemma rx_run_needs: "needs x a \<Longrightarrow> x \<notin> set s \<Longrightarrow> rx_run a s c = []"
proof (induction a arbitrary: s c)
  case (RSeq a b)
  show ?case
  proof (cases "needs x a")
    case True
    then show ?thesis using RSeq by simp
  next
    case False
    then have "rx_run b r d = []" if "(r, d) \<in> set (rx_run a s c)" for r d
      using RSeq that rx_run_suffix [OF that] by (auto simp: suffix_def)
    then show ?thesis by auto
  qed
qed (auto split: list.splits)

lemma rx_search_needs: "needs x a \<Longrightarrow> x \<notin> set s \<Longrightarrow> rx_search a s = None"
  by (induction s) (simp_all add: rx_match_def rx_run_needs rx_search.simps(2))

lemma needs_brace: "needs CHR ''{'' (variable_ref_rx ic)" "needs CHR ''}'' (variable_ref_rx ic)"
  by (simp_all add: variable_ref_rx_def braced_def)

text \<open>A template without an opening brace, or without a closing one, is returned as it is.\<close>

theorem text_without_braces_kept:
  assumes "CHR ''{'' \<notin> set txt \<or> CHR ''}'' \<notin> set txt"
  shows "get_value_with_variable txt c = Inr txt"
proof -
  have "rx_search (variable_ref_rx False) txt = None"
    using assms rx_search_needs needs_brace by metis
  then show ?thesis by (simp add: get_value_with_variable_def rx_pieces.simps)
qed

section \<open>A canvas to evaluate on\<close>

definition demo_component :: "string \<Rightarrow> component" where
  "demo_component kind = \<lparr>c_name = kind, c_outputs = [], c_inputs = [], c_debug = [],
     c_attrs = param_base_attrs, c_idx = 0, c_parent = None, c_down = [], c_up = []\<rparr>"

definition demo_canvas :: canvas where
  "demo_canvas = \<lparr>comps = [(''begin'', demo_component ''Begin''), (''Message:0'', demo_component ''Message'')],
     path = [''begin''], globals = default_globals [], variables = [],
     history = [(''user'', PStr ''hi''), (''assistant'', PStr ''hello''), (''user'', PStr ''bye'')],
     retrieval = [], memory = [], run_error = PStr [], task_id = ''t'', node_names = [], canceled = False\<rparr>"

lemmas demo_defs = demo_component_def demo_canvas_def param_base_attrs_def

text \<open>C9: A value assigned to a variable reference is what the reference reads next, at any depth below the
  output it names (unless the reference has an empty output name, which stands for all outputs).\<close>

theorem variable_read_back:
  assumes "names_slot e" and "set_variable_value e v c = Inr c'"
  shows "get_variable_value e c' = Inr v"
  using assms by (rule vars.rd_wr)

text \<open>An assignment leaves every reference to another global, another component or another output unchanged.\<close>

theorem variable_frame:
  assumes "names_slot q" and "set_variable_value e v c = Inr c'" and "ref_root q \<noteq> ref_root e"
  shows "get_variable_value q c' = get_variable_value q c"
  using assms by (rule vars.rd_frame)

theorem variable_read_back_witness:
  "\<exists>c'. set_variable_value ''begin@a.b'' (PInt 7) demo_canvas = Inr c' \<and> get_variable_value ''begin@a.b'' c' = Inr (PInt 7)"
proof -
  obtain c' where c': "set_variable_value ''begin@a.b'' (PInt 7) demo_canvas = Inr c'"
    by (simp add: py_defs demo_defs Let_def)
  have "names_slot ''begin@a.b''" by (simp add: py_defs names_slot_def Let_def)
  then show ?thesis using c' variable_read_back [OF _ c'] by blast
qed

theorem variable_frame_witness:
  "\<exists>c'. set_variable_value ''begin@a.b'' (PInt 7) demo_canvas = Inr c'
     \<and> get_variable_value ''begin@b'' c' = get_variable_value ''begin@b'' demo_canvas"
proof -
  obtain c' where c': "set_variable_value ''begin@a.b'' (PInt 7) demo_canvas = Inr c'"
    by (simp add: py_defs demo_defs Let_def)
  have "names_slot ''begin@b''" "ref_root ''begin@b'' \<noteq> ref_root ''begin@a.b''"
    by (simp_all add: py_defs names_slot_def ref_root_def Let_def)
  then show ?thesis using c' variable_frame [OF _ c'] by blast
qed

theorem reset_canvas_idempotent_witness:
  "\<exists>d. reset_canvas False demo_canvas = Inr d \<and> reset_canvas False d = Inr d \<and> history d = []"
proof -
  obtain d where d: "reset_canvas False demo_canvas = Inr d"
    by (simp add: py_defs demo_defs Let_def)
  then show ?thesis using reset_canvas_idempotent [OF d] by auto
qed

theorem get_history_suffix_witness:
  "suffix (get_history 1 demo_canvas) (get_history 2 demo_canvas) \<and> length (get_history 1 demo_canvas) = 2"
  using get_history_suffix [of 1 2 demo_canvas] get_history_suffix [of 1 1 demo_canvas] by (simp add: demo_defs)

theorem text_without_braces_kept_witness:
  "get_value_with_variable ''sys.query } plain'' demo_canvas = Inr ''sys.query } plain''"
  by (rule text_without_braces_kept) simp

end
