(* ===== verification/Controls.thy ===== *)
theory Controls
  imports Canvas
begin

text \<open>
  The control-flow components of a canvas: \<open>Switch\<close> (\<open>agent/component/switch.py\<close>),
  \<open>Loop\<close> and \<open>LoopItem\<close>, \<open>Iteration\<close> and \<open>IterationItem\<close>, and the choice
  \<open>Categorize\<close> makes from a model's answer. A method runs on the canvas and is named
  by the id of its component, \<open>me\<close>.
\<close>

section \<open>Methods of a component\<close>

definition self_param :: "string \<Rightarrow> string \<Rightarrow> pyval cact" where
  "self_param me name = gets_res (\<lambda>c. try_then (get_component_obj me c) (param_attr name))"

definition self_set_output :: "string \<Rightarrow> string \<Rightarrow> pyval \<Rightarrow> unit cact" where
  "self_set_output me k v = modify (on_component me (set_output k v))"

definition self_set_input :: "string \<Rightarrow> string \<Rightarrow> pyval \<Rightarrow> unit cact" where
  "self_set_input me k v = modify (on_component me (set_input_value k v))"

definition set_idx :: "string \<Rightarrow> int \<Rightarrow> unit cact" where
  "set_idx me i = modify (on_component me (\<lambda>o'. o'\<lparr>c_idx := i\<rparr>))"

definition get_idx :: "string \<Rightarrow> int cact" where
  "get_idx me = gets_res (\<lambda>c. try_then (get_component_obj me c) (\<lambda>o'. Inr (c_idx o')))"

text \<open>\<open>get_variable_value\<close> of a value that should be a reference.\<close>

definition read_ref :: "pyval \<Rightarrow> pyval cact" where
  "read_ref v = gets_res (\<lambda>c. try_then (as_str ''strip'' v) (\<lambda>e. get_variable_value e c))"

definition self_parent :: "string \<Rightarrow> string cact" where
  "self_parent me = gets_res (\<lambda>c. try_then (get_parent me c) (\<lambda>p. case p of
     None \<Rightarrow> raise AttributeError ([CHR 0x27] @ ''NoneType'' @ [CHR 0x27] @ '' object has no attribute _param'')
   | Some pid \<Rightarrow> Inr pid))"

text \<open>Run \<open>m\<close> unless the task was cancelled.\<close>

definition unless_canceled :: "string \<Rightarrow> unit cact \<Rightarrow> unit cact" where
  "unless_canceled me m = bnd (check_if_canceled me) (\<lambda>stop. if stop then ret () else m)"

text \<open>The operator signs outside ASCII, in UTF-8.\<close>

definition sign_ne :: string where
  "sign_ne = [CHR 0xE2, CHR 0x89, CHR 0xA0]"

definition sign_ge :: string where
  "sign_ge = [CHR 0xE2, CHR 0x89, CHR 0xA5]"

definition sign_le :: string where
  "sign_le = [CHR 0xE2, CHR 0x89, CHR 0xA4]"

section \<open>Switch\<close>

definition switch_defaults :: pdict where
  "switch_defaults = dupdate param_base_attrs
     [(''conditions'', PList []), (''end_cpn_ids'', PList []),
      (''operators'', PList (map PStr [''contains'', ''not contains'', ''start with'', ''end with'', ''empty'',
         ''not empty'', ''='', sign_ne, ''>'', ''<'', sign_ge, sign_le]))]"

definition switch_check :: "component \<Rightarrow> unit res" where
  "switch_check c = try_then (param_attr ''conditions'' c) (\<lambda>conds.
     try_then (check_empty conds ''[Switch] conditions'') (\<lambda>_.
     try_then (py_iter conds) (\<lambda>cs.
     try_then (map_res (\<lambda>cond. try_then (subscript cond ''to'') (\<lambda>t.
        if \<not> truthy t then raise ValueError (''[Switch] '' @ [CHR 0x27] @ ''To'' @ [CHR 0x27] @ '' can not be empty!'')
        else Inr ())) cs) (\<lambda>_.
     try_then (param_attr ''end_cpn_ids'' c) (\<lambda>e.
       check_empty e ''[Switch] the ELSE/Other destination can not be empty.'')))))"

definition ordered_by_float :: "cmp_op \<Rightarrow> pyval \<Rightarrow> pyval \<Rightarrow> bool res" where
  "ordered_by_float op v w = (case (py_float v, py_float w) of
     (Inr a, Inr b) \<Rightarrow> Inr (cmp_ord op a b) | _ \<Rightarrow> py_cmp op v w)"

definition process_operator :: "pyval \<Rightarrow> string \<Rightarrow> pyval \<Rightarrow> bool res" where
  "process_operator inp op v =
     (if op = ''contains'' then
        try_then (as_str ''lower'' v) (\<lambda>w. try_then (as_str ''lower'' inp) (\<lambda>s. Inr (str_in (lower w) (lower s))))
      else if op = ''not contains'' then
        try_then (as_str ''lower'' v) (\<lambda>w. try_then (as_str ''lower'' inp) (\<lambda>s. Inr (\<not> str_in (lower w) (lower s))))
      else if op = ''start with'' then
        try_then (as_str ''lower'' inp) (\<lambda>s. try_then (as_str ''lower'' v) (\<lambda>w. Inr (starts_with (lower s) (lower w))))
      else if op = ''end with'' then
        try_then (as_str ''lower'' inp) (\<lambda>s. try_then (as_str ''lower'' v) (\<lambda>w. Inr (ends_with (lower s) (lower w))))
      else if op = ''empty'' then Inr (\<not> truthy inp)
      else if op = ''not empty'' then Inr (truthy inp)
      else if op = ''='' then Inr (py_eq inp v)
      else if op = sign_ne then Inr (\<not> py_eq inp v)
      else if op = ''>'' then ordered_by_float CGt inp v
      else if op = ''<'' then ordered_by_float CLt inp v
      else if op = sign_ge then ordered_by_float CGe inp v
      else if op = sign_le then ordered_by_float CLe inp v
      else raise ValueError (''Not supported operator: '' @ op))"

text \<open>One item of a condition: nothing when it names no variable, else its truth value.\<close>

definition switch_item :: "string \<Rightarrow> pyval \<Rightarrow> bool option cact" where
  "switch_item me item = bnd (lift (subscript item ''cpn_id'')) (\<lambda>ref.
     if \<not> truthy ref then ret None
     else bnd (read_ref ref) (\<lambda>cpn_v.
       bnd (self_set_input me (py_str ref) cpn_v) (\<lambda>_.
       bnd (lift (get_method item ''value'' (PStr []))) (\<lambda>v.
       bnd (lift (if is_number cpn_v then try_then (py_float v) (\<lambda>r. Inr (PFloat r)) else Inr v)) (\<lambda>operatee.
       bnd (lift (try_then (subscript item ''operator'') (\<lambda>opv. process_operator cpn_v (py_str opv) operatee)))
         (\<lambda>b. ret (Some b)))))))"

text \<open>The items of a condition: stopped by cancellation, hit early by an \<open>or\<close>, or all their values.\<close>

datatype items_end = Stopped | Hit | Values "bool list"

fun switch_items :: "string \<Rightarrow> pyval \<Rightarrow> pyval list \<Rightarrow> bool list \<Rightarrow> items_end cact" where
  "switch_items me cond [] res = ret (Values res)"
| "switch_items me cond (item # items) res = bnd (check_if_canceled me) (\<lambda>stop.
     if stop then ret Stopped
     else bnd (switch_item me item) (\<lambda>r. case r of
       None \<Rightarrow> switch_items me cond items res
     | Some b \<Rightarrow> bnd (lift (subscript cond ''logical_operator'')) (\<lambda>lop.
         if \<not> py_eq lop (PStr ''and'') \<and> list_ex id (res @ [b]) then ret Hit
         else switch_items me cond items (res @ [b]))))"

definition names_of :: "pyval list \<Rightarrow> canvas \<Rightarrow> pyval" where
  "names_of ids c = PList (map (\<lambda>v. PStr (case v of PStr s \<Rightarrow> get_component_name s c | _ \<Rightarrow> [])) ids)"

definition switch_to :: "string \<Rightarrow> pyval \<Rightarrow> unit cact" where
  "switch_to me dest = bnd (lift (py_iter dest)) (\<lambda>ids. bnd (gets (names_of ids)) (\<lambda>names.
     bnd (self_set_output me ''next'' names) (\<lambda>_. self_set_output me ''_next'' dest)))"

fun switch_conditions :: "string \<Rightarrow> pyval list \<Rightarrow> unit cact" where
  "switch_conditions me [] = bnd (self_param me ''end_cpn_ids'') (switch_to me)"
| "switch_conditions me (cond # conds) = bnd (check_if_canceled me) (\<lambda>stop.
     if stop then ret ()
     else bnd (lift (try_then (subscript cond ''items'') py_iter)) (\<lambda>items.
       bnd (switch_items me cond items []) (\<lambda>r. case r of
         Stopped \<Rightarrow> ret ()
       | Hit \<Rightarrow> bnd (lift (subscript cond ''to'')) (switch_to me)
       | Values res \<Rightarrow> if res \<noteq> [] \<and> list_all id res then bnd (lift (subscript cond ''to'')) (switch_to me)
                       else switch_conditions me conds)))"

definition switch_invoke :: "string \<Rightarrow> unit cact" where
  "switch_invoke me = unless_canceled me
     (bnd (self_param me ''conditions'') (\<lambda>cv. bnd (lift (py_iter cv)) (switch_conditions me)))"

section \<open>Categorize: the category of an answer\<close>

text \<open>\<open>s.count(sub)\<close>: the occurrences that do not overlap.\<close>

definition count_str :: "string \<Rightarrow> string \<Rightarrow> nat" where
  "count_str sub s = (if sub = [] then length s + 1 else length (split_str sub s) - 1)"

definition category_counts :: "string \<Rightarrow> pdict \<Rightarrow> (string \<times> nat) list" where
  "category_counts ans cats = map (\<lambda>(c, d). (c, count_str (lower c) (lower ans))) cats"

text \<open>\<open>max(items, key=...)\<close>: the first of the largest.\<close>

fun first_max :: "('a \<times> nat) \<Rightarrow> ('a \<times> nat) list \<Rightarrow> 'a \<times> nat" where
  "first_max best [] = best"
| "first_max best (x # xs) = first_max (if snd x > snd best then x else best) xs"

definition pick_category :: "string \<Rightarrow> pdict \<Rightarrow> string res" where
  "pick_category ans cats = (case category_counts ans cats of
     [] \<Rightarrow> raise IndexError ''list index out of range''
   | x # xs \<Rightarrow> if list_ex (\<lambda>(c, n). n \<noteq> 0) (x # xs) then Inr (fst (first_max x xs)) else Inr (fst (last (x # xs))))"

definition categorize_finish :: "string \<Rightarrow> string \<Rightarrow> pdict \<Rightarrow> unit cact" where
  "categorize_finish me ans cats = bnd (lift (pick_category ans cats)) (\<lambda>cat.
     bnd (lift (try_then (dict_item cats cat) (\<lambda>d. subscript d ''to''))) (\<lambda>dest.
     bnd (self_set_output me ''category_name'' (PStr cat)) (\<lambda>_. self_set_output me ''_next'' dest)))"

definition categorize_check :: "component \<Rightarrow> unit res" where
  "categorize_check c =
     try_then (param_attr ''message_history_window_size'' c) (\<lambda>w.
       if (type_name w \<noteq> ''int'' \<and> type_name w \<noteq> ''bool'') \<or> (case py_num w of Some r \<Rightarrow> r < 0 | None \<Rightarrow> False)
       then raise ValueError ''[Categorize] Message window size cannot be negative''
       else try_then (param_attr ''category_description'' c) (\<lambda>cd.
         try_then (check_empty cd ''[Categorize] Category examples'') (\<lambda>_.
         try_then (as_dict ''items'' cd) (\<lambda>d.
         try_then (map_res (\<lambda>(k, v).
            if k = [] then raise ValueError ''[Categorize] Category name can not be empty!''
            else try_then (get_method v ''to'' PNone) (\<lambda>t.
              if \<not> truthy t then raise ValueError
                (''[Categorize] '' @ [CHR 0x27] @ ''To'' @ [CHR 0x27] @ '' of category '' @ k @ '' can not be empty!'')
              else Inr ())) d) (\<lambda>_. Inr ())))))"

section \<open>Loop\<close>

definition loop_defaults :: pdict where
  "loop_defaults = dupdate param_base_attrs
     [(''loop_variables'', PList []), (''loop_termination_condition'', PList []), (''maximum_loop_count'', PInt 0)]"

text \<open>\<open>get_start\<close>: the first item component whose parent is this one. An item component without a parent raises.\<close>

fun find_start :: "string \<Rightarrow> string \<Rightarrow> (string, component) dict \<Rightarrow> string option res" where
  "find_start kind me [] = Inr None"
| "find_start kind me ((cid, o') # rest) =
     (if lower (c_name o') \<noteq> kind then find_start kind me rest
      else (case c_parent o' of None \<Rightarrow> key_error ''parent_id''
            | Some p \<Rightarrow> if p = me then Inr (Some cid) else find_start kind me rest))"

definition loop_get_start :: "string \<Rightarrow> canvas \<Rightarrow> string option res" where
  "loop_get_start me c = find_start ''loopitem'' me (comps c)"

definition iteration_get_start :: "string \<Rightarrow> canvas \<Rightarrow> string option res" where
  "iteration_get_start me c = find_start ''iterationitem'' me (comps c)"

definition typed_zero :: "string \<Rightarrow> pyval" where
  "typed_zero t =
     (if t = ''number'' then PInt 0 else if t = ''string'' then PStr [] else if t = ''boolean'' then PBool False
      else if starts_with t ''object'' then PDict [] else if starts_with t ''array'' then PList [] else PStr [])"

definition loop_variable :: "string \<Rightarrow> pyval \<Rightarrow> unit cact" where
  "loop_variable me item =
     bnd (lift (get_method item ''variable'' PNone)) (\<lambda>var.
     bnd (lift (get_method item ''input_mode'' PNone)) (\<lambda>mode.
     bnd (lift (get_method item ''value'' PNone)) (\<lambda>v.
     bnd (lift (get_method item ''type'' PNone)) (\<lambda>t.
       if \<not> truthy var \<or> \<not> truthy mode \<or> \<not> truthy v \<or> \<not> truthy t
       then lift (raise ValueError ''Loop Variable is not complete.'')
       else if py_eq mode (PStr ''variable'') then bnd (read_ref v) (self_set_output me (py_str var))
       else if py_eq mode (PStr ''constant'') then self_set_output me (py_str var) v
       else bnd (lift (as_str ''startswith'' t)) (\<lambda>s. self_set_output me (py_str var) (typed_zero s))))))"

definition loop_invoke :: "string \<Rightarrow> unit cact" where
  "loop_invoke me = unless_canceled me
     (bnd (self_param me ''loop_variables'') (\<lambda>lv. bnd (lift (py_iter lv)) (for_each (loop_variable me))))"

section \<open>LoopItem\<close>

definition loopitem_invoke :: "string \<Rightarrow> unit cact" where
  "loopitem_invoke me = unless_canceled me
     (bnd (self_parent me) (\<lambda>pid. bnd (self_param pid ''maximum_loop_count'') (\<lambda>m. bnd (get_idx me) (\<lambda>i.
        bnd (lift (py_cmp CGe (PInt i) m)) (\<lambda>over.
          if over then set_idx me (-1)
          else if i > 0 then unless_canceled me (set_idx me (i + 1))
          else set_idx me (i + 1))))))"

definition invalid_operator :: "string \<Rightarrow> 'a res" where
  "invalid_operator op = raise GenericException (''Invalid operator: '' @ op)"

definition condition_str :: "string \<Rightarrow> string \<Rightarrow> pyval \<Rightarrow> bool res" where
  "condition_str var op v =
     (if op = ''contains'' then try_then (str_arg v) (\<lambda>s. Inr (str_in s var))
      else if op = ''not contains'' then try_then (str_arg v) (\<lambda>s. Inr (\<not> str_in s var))
      else if op = ''start with'' then try_then (str_arg v) (\<lambda>s. Inr (starts_with var s))
      else if op = ''end with'' then try_then (str_arg v) (\<lambda>s. Inr (ends_with var s))
      else if op = ''is'' then Inr (v = PStr var)
      else if op = ''is not'' then Inr (v \<noteq> PStr var)
      else if op = ''empty'' then Inr (var = [])
      else if op = ''not empty'' then Inr (var \<noteq> [])
      else invalid_operator op)"

definition condition_bool :: "bool \<Rightarrow> string \<Rightarrow> pyval \<Rightarrow> bool res" where
  "condition_bool var op v =
     (if op = ''is'' then Inr (v = PBool var)
      else if op = ''is not'' then Inr (v \<noteq> PBool var)
      else if op = ''empty'' then Inr False
      else if op = ''not empty'' then Inr True
      else invalid_operator op)"

definition condition_number :: "pyval \<Rightarrow> string \<Rightarrow> pyval \<Rightarrow> bool res" where
  "condition_number var op v =
     (if op = ''='' then Inr (py_eq var v)
      else if op = sign_ne then Inr (\<not> py_eq var v)
      else if op = ''>'' then py_cmp CGt var v
      else if op = ''<'' then py_cmp CLt var v
      else if op = sign_ge then py_cmp CGe var v
      else if op = sign_le then py_cmp CLe var v
      else if op = ''empty'' then Inr False
      else if op = ''not empty'' then Inr True
      else invalid_operator op)"

definition condition_list :: "pyval list \<Rightarrow> string \<Rightarrow> pyval \<Rightarrow> bool res" where
  "condition_list var op v =
     (if op = ''contains'' then Inr (py_in v var)
      else if op = ''not contains'' then Inr (\<not> py_in v var)
      else if op = ''is'' then Inr (py_eq (PList var) v)
      else if op = ''is not'' then Inr (\<not> py_eq (PList var) v)
      else if op = ''empty'' then Inr (length var = 0)
      else if op = ''not empty'' then Inr (length var > 0)
      else invalid_operator op)"

definition evaluate_condition :: "pyval \<Rightarrow> string \<Rightarrow> pyval \<Rightarrow> bool res" where
  "evaluate_condition var op v = (case var of
     PStr s \<Rightarrow> condition_str s op v
   | PBool b \<Rightarrow> condition_bool b op v
   | PInt i \<Rightarrow> condition_number var op v
   | PFloat r \<Rightarrow> condition_number var op v
   | PDict d \<Rightarrow> (if op = ''empty'' then Inr (length d = 0)
                 else if op = ''not empty'' then Inr (length d > 0) else invalid_operator op)
   | PList xs \<Rightarrow> condition_list xs op v
   | PNone \<Rightarrow> Inr (op = ''empty'')
   | PStream cs \<Rightarrow> invalid_operator op)"

definition termination_condition :: "pyval \<Rightarrow> bool cact" where
  "termination_condition item =
     bnd (lift (get_method item ''variable'' PNone)) (\<lambda>vref.
     bnd (lift (get_method item ''operator'' PNone)) (\<lambda>opv.
       if \<not> truthy vref \<or> \<not> truthy opv then lift (raise ValueError ''Loop condition is incomplete.'')
       else bnd (read_ref vref) (\<lambda>var.
         bnd (lift (get_method item ''input_mode'' (PStr ''constant''))) (\<lambda>mode.
         bnd (lift (get_method item ''value'' (PStr []))) (\<lambda>w.
         bnd (if py_eq mode (PStr ''variable'') then read_ref w
              else if py_eq mode (PStr ''constant'') then ret w
              else lift (raise ValueError ''Invalid input mode.'')) (\<lambda>v.
           lift (evaluate_condition var (py_str opv) v)))))))"

fun collect :: "('a \<Rightarrow> 'b cact) \<Rightarrow> 'a list \<Rightarrow> 'b list cact" where
  "collect f [] = ret []"
| "collect f (x # xs) = bnd (f x) (\<lambda>y. bnd (collect f xs) (\<lambda>ys. ret (y # ys)))"

definition loopitem_end :: "string \<Rightarrow> bool cact" where
  "loopitem_end me = bnd (get_idx me) (\<lambda>i.
     if i = -1 then ret True
     else bnd (self_parent me) (\<lambda>pid.
       bnd (gets_res (\<lambda>c. try_then (get_component_obj pid c) (\<lambda>p. Inr (get_or (c_attrs p) ''logical_operator'' (PStr ''and''))))) (\<lambda>lop.
       bnd (bnd (self_param pid ''loop_termination_condition'') (\<lambda>v. lift (py_iter v))) (\<lambda>items.
       bnd (collect termination_condition items) (\<lambda>conditions.
         if py_eq lop (PStr ''and'') then
           (if list_all id conditions then bnd (set_idx me (-1)) (\<lambda>_. ret True) else ret False)
         else if py_eq lop (PStr ''or'') then
           (if list_ex id conditions then bnd (set_idx me (-1)) (\<lambda>_. ret True) else ret False)
         else lift (raise ValueError
           (''Invalid logical operator,should be '' @ [CHR 0x27] @ ''and'' @ [CHR 0x27] @ '' or ''
            @ [CHR 0x27] @ ''or'' @ [CHR 0x27] @ ''.'')))))))"

section \<open>Iteration and IterationItem\<close>

definition must_be_array :: "pyval \<Rightarrow> pyval \<Rightarrow> string" where
  "must_be_array ref v = py_str ref @ '' must be an array, but its type is '' @ type_repr v"

definition iteration_invoke :: "string \<Rightarrow> unit cact" where
  "iteration_invoke me = unless_canceled me
     (bnd (self_param me ''items_ref'') (\<lambda>ref. bnd (read_ref ref) (\<lambda>arr.
        if \<not> is_list arr then self_set_output me ''_ERROR'' (PStr (must_be_array ref arr)) else ret ())))"

text \<open>
  \<open>output_collation\<close>: each output of the iteration that refers to an output of one of its
  members is a list, and grows by that output. The list of component kinds to skip is
  compared with the kind of the parent.
\<close>

definition collation_skips :: "string list" where
  "collation_skips = [''categorize'', ''message'', ''switch'', ''userfillup'', ''iterationitem'']"

definition collate_slot :: "string \<Rightarrow> string \<Rightarrow> string \<times> slot \<Rightarrow> unit cact" where
  "collate_slot pid cid ks = (case ks of (k, slot) \<Rightarrow>
     (case map_of slot ''ref'' of None \<Rightarrow> ret ()
      | Some refv \<Rightarrow> bnd (lift (try_then (as_str ''split'' refv) split_ref)) (\<lambda>(rcid, var).
          if rcid \<noteq> cid then ret ()
          else bnd (gets_res (\<lambda>c. try_then (get_component_obj pid c) (\<lambda>p. Inr (output_of k p)))) (\<lambda>r0.
            bnd (gets_res (\<lambda>c. try_then (get_component_obj cid c) (\<lambda>o'. Inr (output_of var o')))) (\<lambda>v.
            (case (if truthy r0 then r0 else PList []) of
               PList xs \<Rightarrow> self_set_output pid k (PList (xs @ [v]))
             | w \<Rightarrow> lift (no_attr w ''append'')))))))"

definition collate_member :: "string \<Rightarrow> string \<Rightarrow> unit cact" where
  "collate_member pid cid = bnd (gets_res (get_parent cid)) (\<lambda>p. case p of
     None \<Rightarrow> ret ()
   | Some q \<Rightarrow>
       if q \<noteq> pid then ret ()
       else bnd (gets_res (get_component_obj q)) (\<lambda>po.
         if lower (c_name po) \<in> set collation_skips then ret ()
         else for_each (collate_slot q cid) (c_outputs po)))"

definition output_collation :: "string \<Rightarrow> unit cact" where
  "output_collation me = bnd (self_parent me) (\<lambda>pid. bnd (gets (\<lambda>c. dkeys (comps c))) (for_each (collate_member pid)))"

definition iterationitem_step :: "string \<Rightarrow> pyval list \<Rightarrow> unit cact" where
  "iterationitem_step me arr = bnd (get_idx me) (\<lambda>i.
     if i \<ge> int (length arr) then set_idx me (-1)
     else unless_canceled me
       (bnd (lift (py_index arr i)) (\<lambda>current_item.
        bnd (self_set_output me ''item'' current_item) (\<lambda>_.
        bnd (self_set_output me ''result'' current_item) (\<lambda>_.
        bnd (self_set_output me ''index'' (PInt i)) (\<lambda>_. set_idx me (i + 1)))))))"

definition iterationitem_invoke :: "string \<Rightarrow> unit cact" where
  "iterationitem_invoke me = unless_canceled me
     (bnd (self_parent me) (\<lambda>pid. bnd (self_param pid ''items_ref'') (\<lambda>ref. bnd (read_ref ref) (\<lambda>arrv.
        (case arrv of
           PList arr \<Rightarrow> bnd (get_idx me) (\<lambda>i.
             if i > 0 then unless_canceled me (bnd (output_collation me) (\<lambda>_. iterationitem_step me arr))
             else iterationitem_step me arr)
         | _ \<Rightarrow> bnd (set_idx me (-1)) (\<lambda>_. lift (raise GenericException (must_be_array ref arrv))))))))"

definition iterationitem_end :: "string \<Rightarrow> bool cact" where
  "iterationitem_end me = bnd (get_idx me) (\<lambda>i. ret (i = -1))"

section \<open>Begin\<close>

text \<open>
  The inputs given to a run. A file input is read by the file service, an argument; each
  value is both an output and an input of the component.
\<close>

definition begin_value :: "(pyval list \<Rightarrow> pyval res) \<Rightarrow> pyval \<Rightarrow> pyval res" where
  "begin_value read_files v = (case v of
     PDict d \<Rightarrow> try_then (as_str ''lower'' (get_or d ''type'' (PStr []))) (\<lambda>t.
       if str_in ''file'' (lower t) then
         (if truthy (get_none d ''optional'') \<and> get_none d ''value'' = PNone then Inr PNone
          else try_then (dict_item d ''value'') (\<lambda>fv. read_files (case fv of PList fs \<Rightarrow> fs | _ \<Rightarrow> [fv])))
       else Inr (get_none d ''value''))
   | _ \<Rightarrow> no_attr v ''get'')"

definition begin_input :: "(pyval list \<Rightarrow> pyval res) \<Rightarrow> string \<Rightarrow> string \<times> pyval \<Rightarrow> unit cact" where
  "begin_input read_files me kv = (case kv of (k, v) \<Rightarrow>
     bnd (lift (begin_value read_files v)) (\<lambda>w.
     bnd (self_set_output me k w) (\<lambda>_. self_set_input me k w)))"

definition begin_invoke :: "(pyval list \<Rightarrow> pyval res) \<Rightarrow> pdict \<Rightarrow> string \<Rightarrow> unit cact" where
  "begin_invoke read_files inputs me =
     unless_canceled me (for_each (\<lambda>kv. unless_canceled me (begin_input read_files me kv)) inputs)"

declare self_param_def [py_defs] self_set_output_def [py_defs] self_set_input_def [py_defs]
  set_idx_def [py_defs] get_idx_def [py_defs] read_ref_def [py_defs] self_parent_def [py_defs]
  unless_canceled_def [py_defs] sign_ne_def [py_defs] sign_ge_def [py_defs] sign_le_def [py_defs]
  switch_check_def [py_defs] ordered_by_float_def [py_defs] process_operator_def [py_defs]
  switch_item_def [py_defs] names_of_def [py_defs] switch_to_def [py_defs] switch_invoke_def [py_defs]
  count_str_def [py_defs] category_counts_def [py_defs] pick_category_def [py_defs]
  categorize_finish_def [py_defs] categorize_check_def [py_defs] loop_get_start_def [py_defs]
  iteration_get_start_def [py_defs] typed_zero_def [py_defs] loop_variable_def [py_defs]
  loop_invoke_def [py_defs] loopitem_invoke_def [py_defs] invalid_operator_def [py_defs]
  condition_str_def [py_defs] condition_bool_def [py_defs] condition_number_def [py_defs]
  condition_list_def [py_defs] evaluate_condition_def [py_defs] termination_condition_def [py_defs]
  loopitem_end_def [py_defs] must_be_array_def [py_defs] iteration_invoke_def [py_defs]
  collation_skips_def [py_defs] collate_slot_def [py_defs] collate_member_def [py_defs]
  output_collation_def [py_defs] iterationitem_step_def [py_defs] iterationitem_invoke_def [py_defs]
  iterationitem_end_def [py_defs] begin_value_def [py_defs] begin_input_def [py_defs] begin_invoke_def [py_defs]

end
