(* ===== verification/PyLiteral.thy ===== *)
theory PyLiteral
  imports PyJson
begin

text \<open>
  \<open>ast.literal_eval\<close> on the literals the program meets: numbers, quoted strings, the
  three constants, lists and objects with string keys, with white space between the
  tokens and before the end. A text that is no such literal raises. Tuples, sets, bytes,
  complex numbers, numeric underscores and adjacent strings are not modelled.
\<close>

definition lit_ws :: "string \<Rightarrow> string" where
  "lit_ws s = dropWhile (\<lambda>c. c \<in> set ascii_space) s"

definition lit_escape :: "char \<Rightarrow> string" where
  "lit_escape c = (case map_of
     (zip [CHR 0x5C, CHR 0x27, CHR 0x22, CHR ''a'', CHR ''b'', CHR ''f'', CHR ''n'', CHR ''r'', CHR ''t'', CHR ''v'']
          [CHR 0x5C, CHR 0x27, CHR 0x22, CHR 0x07, CHR 0x08, CHR 0x0C, CHR 0x0A, CHR 0x0D, CHR 0x09, CHR 0x0B]) c
     of Some x \<Rightarrow> [x] | None \<Rightarrow> [CHR 0x5C, c])"

fun lit_string :: "char \<Rightarrow> string \<Rightarrow> (string \<times> string) option" where
  "lit_string q [] = None"
| "lit_string q (c # cs) =
     (if c = q then Some ([], cs)
      else if c = CHR 0x0A then None
      else if c = CHR 0x5C then
        (case cs of [] \<Rightarrow> None | e # ds \<Rightarrow> map_option (\<lambda>(t, r). (lit_escape e @ t, r)) (lit_string q ds))
      else map_option (\<lambda>(t, r). (c # t, r)) (lit_string q cs))"

text \<open>A number: an optional sign, then an integer without leading zeros or a decimal.\<close>

definition lit_number :: "string \<Rightarrow> (pyval \<times> string) option" where
  "lit_number s =
     (let (neg, t) = split_sign s;
          ip = takeWhile is_digit_char t; r0 = drop (length ip) t;
          (fr, r1) = (case r0 of [] \<Rightarrow> ([], []) | c # cs \<Rightarrow>
             if c = CHR ''.'' then (let ds = takeWhile is_digit_char cs in (c # ds, drop (length ds) cs)) else ([], r0));
          (ex, r2) = exponent_part r1
      in if fr = [] \<and> ex = [] then
           (if ip = [] \<or> (hd ip = CHR ''0'' \<and> list_ex (\<lambda>c. c \<noteq> CHR ''0'') ip) then None
            else Some (PInt (if neg then - int (nat_of_digits ip) else int (nat_of_digits ip)), r0))
         else (case parse_decimal (ip @ fr @ ex) of None \<Rightarrow> None
               | Some q \<Rightarrow> Some (PFloat (if neg then - q else q), r2)))"

fun lit_value :: "nat \<Rightarrow> string \<Rightarrow> (pyval \<times> string) option"
and lit_items :: "nat \<Rightarrow> string \<Rightarrow> (pyval list \<times> string) option"
and lit_members :: "nat \<Rightarrow> string \<Rightarrow> (pdict \<times> string) option" where
  "lit_value 0 s = None"
| "lit_value (Suc f) s = (case s of [] \<Rightarrow> None | c # cs \<Rightarrow>
     if c = CHR 0x22 \<or> c = CHR 0x27 then map_option (\<lambda>(t, r). (PStr t, r)) (lit_string c cs)
     else if c = CHR ''['' then map_option (\<lambda>(xs, r). (PList xs, r)) (lit_items f (lit_ws cs))
     else if c = CHR ''{'' then map_option (\<lambda>(m, r). (PDict (dupdate [] m), r)) (lit_members f (lit_ws cs))
     else if starts_with s ''None'' then Some (PNone, drop 4 s)
     else if starts_with s ''True'' then Some (PBool True, drop 4 s)
     else if starts_with s ''False'' then Some (PBool False, drop 5 s)
     else lit_number s)"
| "lit_items 0 s = None"
| "lit_items (Suc f) s = (case s of [] \<Rightarrow> None | c # cs \<Rightarrow>
     if c = CHR '']'' then Some ([], cs)
     else (case lit_value f s of None \<Rightarrow> None | Some (v, r) \<Rightarrow>
       (case lit_ws r of [] \<Rightarrow> None | d # ds \<Rightarrow>
          if d = CHR '','' then map_option (\<lambda>(xs, r). (v # xs, r)) (lit_items f (lit_ws ds))
          else if d = CHR '']'' then Some ([v], ds) else None)))"
| "lit_members 0 s = None"
| "lit_members (Suc f) s = (case s of [] \<Rightarrow> None | q # qs \<Rightarrow>
     if q = CHR ''}'' then Some ([], qs)
     else if q \<noteq> CHR 0x22 \<and> q \<noteq> CHR 0x27 then None
     else (case lit_string q qs of None \<Rightarrow> None | Some (k, r) \<Rightarrow>
       (case lit_ws r of [] \<Rightarrow> None | c # cs \<Rightarrow>
          if c \<noteq> CHR '':'' then None
          else (case lit_value f (lit_ws cs) of None \<Rightarrow> None | Some (v, r) \<Rightarrow>
            (case lit_ws r of [] \<Rightarrow> None | d # ds \<Rightarrow>
               if d = CHR '','' then map_option (\<lambda>(m, r). ((k, v) # m, r)) (lit_members f (lit_ws ds))
               else if d = CHR ''}'' then Some ([(k, v)], ds) else None)))))"

text \<open>Leading spaces and tabs are dropped before the parse, as \<open>literal_eval\<close> does, and blank lines by the parser.\<close>

definition literal_eval :: "string \<Rightarrow> pyval option" where
  "literal_eval s =
     (let t = dropWhile (\<lambda>c. c = CHR 0x0A) (dropWhile (\<lambda>c. c = CHR '' '' \<or> c = CHR 0x09) s)
      in case lit_value (2 * length t + 2) t of None \<Rightarrow> None
         | Some (v, r) \<Rightarrow> if lit_ws r = [] then Some v else None)"

declare lit_ws_def [py_defs] lit_escape_def [py_defs] lit_number_def [py_defs] literal_eval_def [py_defs]

end
