(* ===== verification/DataComponents.thy ===== *)
theory DataComponents
  imports Controls PyLiteral
begin

text \<open>
  The data components of a canvas: \<open>ListOperations\<close>, \<open>DataOperations\<close>,
  \<open>VariableAssigner\<close>, \<open>VariableAggregator\<close> and the splitting of \<open>StringTransform\<close>
  (\<open>agent/component/*.py\<close>).
\<close>

section \<open>ListOperations\<close>

definition list_operations_check :: "component \<Rightarrow> unit res" where
  "list_operations_check c = try_then (param_attr ''query'' c) (\<lambda>q. try_then (check_empty q ''query'') (\<lambda>_.
     try_then (param_attr ''operations'' c) (\<lambda>o'. check_valid_value o' ''Support operations''
       (map PStr [''nth'', ''head'', ''tail'', ''filter'', ''sort'', ''drop_duplicates'']))))"

text \<open>\<open>_coerce_n\<close>: anything \<open>int\<close> refuses counts as 0.\<close>

definition coerce_n :: "component \<Rightarrow> int" where
  "coerce_n c = (case py_int (get_or (c_attrs c) ''n'' (PInt 0)) of Inl e \<Rightarrow> 0 | Inr i \<Rightarrow> i)"

definition is_strict :: "component \<Rightarrow> bool" where
  "is_strict c = (case get_or (c_attrs c) ''strict'' (PBool False) of
     PStr s \<Rightarrow> lower (strip s) \<in> {''1'', ''true'', ''yes'', ''on''} | v \<Rightarrow> truthy v)"

text \<open>\<open>self._param.outputs[k]["value"] = v\<close>.\<close>

definition assign_slot :: "string \<Rightarrow> string \<Rightarrow> pyval \<Rightarrow> unit cact" where
  "assign_slot me k v = modify_res (\<lambda>c. try_then (get_component_obj me c) (\<lambda>o'.
     case map_of (c_outputs o') k of None \<Rightarrow> key_error k
     | Some slot \<Rightarrow> Inr (put_component me (o'\<lparr>c_outputs := dset k (dset ''value'' v slot) (c_outputs o')\<rparr>) c)))"

definition list_set_outputs :: "string \<Rightarrow> pyval list \<Rightarrow> unit cact" where
  "list_set_outputs me outputs =
     bnd (assign_slot me ''result'' (PList outputs)) (\<lambda>_.
     bnd (assign_slot me ''first'' (if outputs = [] then PNone else hd outputs)) (\<lambda>_.
          assign_slot me ''last'' (if outputs = [] then PNone else last outputs)))"

definition strict_range_error :: "string \<Rightarrow> int \<Rightarrow> 'a res" where
  "strict_range_error operation n = raise ValueError
     (operation @ '' requires n to be within the valid range in strict mode, got '' @ int_str n @ ''.'')"

definition list_nth :: "int \<Rightarrow> bool \<Rightarrow> 'a list \<Rightarrow> 'a list res" where
  "list_nth n strict inputs =
     (if n = 0 then (if strict then strict_range_error ''nth'' n else Inr [])
      else if n > 0 then
        (if n \<le> int (length inputs) then try_then (py_index inputs (n - 1)) (\<lambda>x. Inr [x])
         else if strict then strict_range_error ''nth'' n else Inr [])
      else
        (if \<bar>n\<bar> \<le> int (length inputs) then try_then (py_index inputs n) (\<lambda>x. Inr [x])
         else if strict then strict_range_error ''nth'' n else Inr []))"

definition list_head :: "int \<Rightarrow> bool \<Rightarrow> 'a list \<Rightarrow> 'a list res" where
  "list_head n strict inputs =
     (if strict then
        (if 1 \<le> n \<and> n \<le> int (length inputs) then Inr (slice_to inputs n) else strict_range_error ''head'' n)
      else if n < 1 then Inr [] else Inr (slice_to inputs n))"

definition list_tail :: "int \<Rightarrow> bool \<Rightarrow> 'a list \<Rightarrow> 'a list res" where
  "list_tail n strict inputs =
     (if strict then
        (if 1 \<le> n \<and> n \<le> int (length inputs) then Inr (slice_from inputs (- n)) else strict_range_error ''tail'' n)
      else if n < 1 then Inr [] else Inr (slice_from inputs (- n)))"

text \<open>\<open>_norm\<close> (also \<open>DataOperations.norm\<close>) and the comparison both components share.\<close>

definition norm_text :: "pyval \<Rightarrow> string" where
  "norm_text v = (if v = PNone then [] else py_str v)"

definition list_eval :: "string \<Rightarrow> pyval \<Rightarrow> pyval \<Rightarrow> bool res" where
  "list_eval v op w =
     (if py_eq op (PStr ''='') then Inr (py_eq (PStr v) w)
      else if py_eq op (PStr sign_ne) then Inr (\<not> py_eq (PStr v) w)
      else if py_eq op (PStr ''contains'') then try_then (str_arg w) (\<lambda>s. Inr (str_in s v))
      else if py_eq op (PStr ''start with'') then try_then (str_arg w) (\<lambda>s. Inr (starts_with v s))
      else if py_eq op (PStr ''end with'') then try_then (str_arg w) (\<lambda>s. Inr (ends_with v s))
      else Inr False)"

fun filter_res :: "('a \<Rightarrow> bool res) \<Rightarrow> 'a list \<Rightarrow> 'a list res" where
  "filter_res p [] = Inr []"
| "filter_res p (x # xs) = try_then (p x) (\<lambda>b. try_then (filter_res p xs) (\<lambda>ys. Inr (if b then x # ys else ys)))"

definition list_filter :: "pyval \<Rightarrow> pyval list \<Rightarrow> pyval list res" where
  "list_filter flt inputs = filter_res (\<lambda>i. try_then (subscript flt ''operator'') (\<lambda>op.
     try_then (subscript flt ''value'') (\<lambda>w. list_eval (norm_text i) op w))) inputs"

text \<open>
  \<open>_hashable\<close>: an object becomes the tuple of its items in the order of their keys, a list
  the tuple of its members. Tuples are written as lists.
\<close>

fun insert_key :: "string \<times> pyval \<Rightarrow> (string \<times> pyval) list \<Rightarrow> (string \<times> pyval) list" where
  "insert_key p [] = [p]"
| "insert_key p (q # qs) = (if fst p \<le> fst q then p # q # qs else q # insert_key p qs)"

fun hashable :: "pyval \<Rightarrow> pyval"
and hashable_list :: "pyval list \<Rightarrow> pyval list"
and hashable_dict :: "(string \<times> pyval) list \<Rightarrow> (string \<times> pyval) list" where
  "hashable (PDict d) = PList (map (\<lambda>(k, v). PList [PStr k, v]) (hashable_dict d))"
| "hashable (PList xs) = PList (hashable_list xs)"
| "hashable v = v"
| "hashable_list [] = []"
| "hashable_list (x # xs) = hashable x # hashable_list xs"
| "hashable_dict [] = []"
| "hashable_dict ((k, v) # d) = insert_key (k, hashable v) (hashable_dict d)"

text \<open>
  \<open>sorted(xs, key=...)\<close> is stable and compares with \<open><\<close>. It fails when two keys have
  no order; \<open>reverse\<close> reverses, sorts and reverses.
\<close>

fun insert_by :: "('a \<Rightarrow> 'a \<Rightarrow> bool) \<Rightarrow> 'a \<Rightarrow> 'a list \<Rightarrow> 'a list" where
  "insert_by lt x [] = [x]"
| "insert_by lt x (y # ys) = (if lt y x then y # insert_by lt x ys else x # y # ys)"

definition sort_by :: "('a \<Rightarrow> 'a \<Rightarrow> bool) \<Rightarrow> 'a list \<Rightarrow> 'a list" where
  "sort_by lt xs = foldr (insert_by lt) xs []"

fun order_error :: "pyval \<Rightarrow> pyval list \<Rightarrow> exc option" where
  "order_error v [] = None"
| "order_error v (w # ws) = (case py_cmp CLt w v of Inl e \<Rightarrow> Some e | Inr b \<Rightarrow> order_error v ws)"

fun first_order_error :: "pyval list \<Rightarrow> exc option" where
  "first_order_error [] = None"
| "first_order_error (v # vs) = (case order_error v vs of Some e \<Rightarrow> Some e | None \<Rightarrow> first_order_error vs)"

definition py_less :: "pyval \<Rightarrow> pyval \<Rightarrow> bool" where
  "py_less v w = (py_cmp CLt v w = Inr True)"

definition py_sorted :: "(pyval \<Rightarrow> pyval) \<Rightarrow> bool \<Rightarrow> pyval list \<Rightarrow> pyval list res" where
  "py_sorted key rv xs = (case first_order_error (map key xs) of Some e \<Rightarrow> Inl e
     | None \<Rightarrow> (let lt = (\<lambda>a b. py_less (key a) (key b))
               in Inr (if rv then rev (sort_by lt (rev xs)) else sort_by lt xs)))"

definition list_sort :: "pyval \<Rightarrow> pyval list \<Rightarrow> pyval list res" where
  "list_sort method0 inputs =
     (let method = py_or method0 (PStr ''asc''); rv = py_eq method (PStr ''desc'')
      in case inputs of [] \<Rightarrow> Inr []
         | f # fs \<Rightarrow> if is_dict f then py_sorted hashable rv inputs else py_sorted id rv inputs)"

fun drop_duplicates_loop :: "pyval list \<Rightarrow> pyval list \<Rightarrow> pyval list" where
  "drop_duplicates_loop seen [] = []"
| "drop_duplicates_loop seen (item # items) =
     (let k = hashable item
      in if py_in k seen then drop_duplicates_loop seen items
         else item # drop_duplicates_loop (seen @ [k]) items)"

definition drop_duplicates :: "pyval list \<Rightarrow> pyval list" where
  "drop_duplicates inputs = drop_duplicates_loop [] inputs"

definition list_dispatch :: "component \<Rightarrow> string \<Rightarrow> pyval list \<Rightarrow> pyval list option res" where
  "list_dispatch o' op inputs =
     (let n = coerce_n o'; strict = is_strict o'; some = (\<lambda>r. try_then r (\<lambda>xs. Inr (Some xs)))
      in if op = ''nth'' then some (list_nth n strict inputs)
         else if op = ''head'' then some (list_head n strict inputs)
         else if op = ''tail'' then some (list_tail n strict inputs)
         else if op = ''filter'' then some (try_then (param_attr ''filter'' o') (\<lambda>f. list_filter f inputs))
         else if op = ''sort'' then some (list_sort (get_or (c_attrs o') ''sort_method'' (PStr ''asc'')) inputs)
         else if op = ''drop_duplicates'' then Inr (Some (drop_duplicates inputs))
         else Inr None)"

definition list_operations_invoke :: "string \<Rightarrow> unit cact" where
  "list_operations_invoke me =
     bnd (gets_res (\<lambda>c. try_then (get_component_obj me c) (\<lambda>o'. Inr (get_or (c_attrs o') ''query'' PNone)))) (\<lambda>ref.
     bnd (read_ref ref) (\<lambda>v. case v of
       PList inputs \<Rightarrow>
         bnd (self_set_input me (py_str ref) v) (\<lambda>_.
         bnd (gets_res (\<lambda>c. try_then (get_component_obj me c) (\<lambda>o'.
                try_then (param_attr ''operations'' o') (\<lambda>op. list_dispatch o' (py_str op) inputs)))) (\<lambda>r.
           (case r of None \<Rightarrow> ret () | Some outputs \<Rightarrow> list_set_outputs me outputs)))
     | _ \<Rightarrow> lift (raise TypeError ''The input of List Operations should be an array.'')))"

section \<open>DataOperations\<close>

definition data_operations_check :: "component \<Rightarrow> unit res" where
  "data_operations_check c = try_then (param_attr ''operations'' c) (\<lambda>o'. check_valid_value o' ''Support operations''
     (map PStr [''select_keys'', ''literal_eval'', ''combine'', ''filter_values'', ''append_or_update'',
                ''remove_keys'', ''rename_keys'']))"

text \<open>The objects an operation works on: an object, or the objects of a list.\<close>

definition objects_of :: "pyval \<Rightarrow> pdict list" where
  "objects_of v = (case v of
     PDict d \<Rightarrow> [d]
   | PList xs \<Rightarrow> List.map_filter (\<lambda>x. case x of PDict d \<Rightarrow> Some d | _ \<Rightarrow> None) xs
   | _ \<Rightarrow> [])"

definition select_keys :: "pyval \<Rightarrow> pdict list \<Rightarrow> pdict list res" where
  "select_keys criteria objs = map_res (\<lambda>d. filter_res (\<lambda>(k, v). case criteria of
      PList xs \<Rightarrow> Inr (py_in (PStr k) xs)
    | PStr s \<Rightarrow> Inr (str_in k s)
    | PDict e \<Rightarrow> Inr (has_key e k)
    | _ \<Rightarrow> raise TypeError (''argument of type '' @ [CHR 0x27] @ type_name criteria @ [CHR 0x27] @ '' is not iterable'')) d) objs"

text \<open>A string is evaluated when it looks like a literal; a text that fails to evaluate stays.\<close>

definition looks_literal :: "string \<Rightarrow> bool" where
  "looks_literal s =
     (let t = strip s
      in list_ex (starts_with t) [''{'', ''['', ''('', [CHR 0x27], [CHR 0x22]]
         \<or> lower t \<in> {''true'', ''false'', ''none''}
         \<or> isdigit (replace_str ''.'' [] t))"

fun recursive_eval :: "pyval \<Rightarrow> pyval"
and recursive_eval_list :: "pyval list \<Rightarrow> pyval list"
and recursive_eval_dict :: "(string \<times> pyval) list \<Rightarrow> (string \<times> pyval) list" where
  "recursive_eval (PDict d) = PDict (recursive_eval_dict d)"
| "recursive_eval (PList xs) = PList (recursive_eval_list xs)"
| "recursive_eval (PStr s) =
     (if looks_literal s then (case literal_eval s of Some v \<Rightarrow> v | None \<Rightarrow> PStr s) else PStr s)"
| "recursive_eval v = v"
| "recursive_eval_list [] = []"
| "recursive_eval_list (x # xs) = recursive_eval x # recursive_eval_list xs"
| "recursive_eval_dict [] = []"
| "recursive_eval_dict ((k, v) # d) = (k, recursive_eval v) # recursive_eval_dict d"

text \<open>
  \<open>_combine\<close> stores the value it finds first under the result's key, without copying it.
  A later value is then appended to that same list, which is still the one inside the
  input object. An entry of the result is a reference into an input object until a new
  list is built for it; the input objects are returned as the loop leaves them. Two input
  objects are taken to be distinct.
\<close>

datatype entry = Shared nat | Fresh pyval

definition entry_value :: "pdict list \<Rightarrow> string \<Rightarrow> entry \<Rightarrow> pyval" where
  "entry_value objs k e = (case e of Fresh v \<Rightarrow> v | Shared i \<Rightarrow> get_none (objs ! i) k)"

definition joined :: "pyval \<Rightarrow> pyval \<Rightarrow> pyval list" where
  "joined cur v = (case cur of
     PList xs \<Rightarrow> (case v of PList ys \<Rightarrow> xs @ ys | _ \<Rightarrow> xs @ [v])
   | _ \<Rightarrow> (case v of PList ys \<Rightarrow> cur # ys | _ \<Rightarrow> [cur, v]))"

fun combine_step :: "nat \<Rightarrow> string \<times> pyval \<Rightarrow> (string, entry) dict \<times> pdict list \<Rightarrow> (string, entry) dict \<times> pdict list" where
  "combine_step i (k, v) (result, objs) = (case map_of result k of
     None \<Rightarrow> (dset k (Shared i) result, objs)
   | Some e \<Rightarrow>
       (let cur = entry_value objs k e
        in case (cur, e) of
             (PList xs, Shared j) \<Rightarrow> (result, objs[j := dset k (PList (joined cur v)) (objs ! j)])
           | _ \<Rightarrow> (dset k (Fresh (PList (joined cur v))) result, objs)))"

fun combine_objects :: "nat \<Rightarrow> pdict list \<Rightarrow> (string, entry) dict \<times> pdict list \<Rightarrow> (string, entry) dict \<times> pdict list" where
  "combine_objects i [] st = st"
| "combine_objects i (d # ds) st = combine_objects (Suc i) ds (fold (combine_step i) d st)"

text \<open>The result, and the input objects after the call.\<close>

definition combine :: "pdict list \<Rightarrow> pdict \<times> pdict list" where
  "combine objs = (case combine_objects 0 objs ([], objs) of
     (result, objs') \<Rightarrow> (map (\<lambda>(k, e). (k, entry_value objs' k e)) result, objs'))"

definition match_rule :: "pdict \<Rightarrow> pyval \<Rightarrow> canvas \<Rightarrow> bool res" where
  "match_rule obj rule c =
     try_then (get_method rule ''key'' PNone) (\<lambda>key.
     try_then (try_then (get_method rule ''operator'' PNone) (\<lambda>o'. as_str ''lower'' (py_or o' (PStr ''equals'')))) (\<lambda>op0.
     try_then (get_method rule ''value'' PNone) (\<lambda>w.
     try_then (get_value_with_variable (norm_text w) c) (\<lambda>filled.
       let op = lower op0; target = (if filled = [] then norm_text w else filled)
       in case key of
            PStr k \<Rightarrow>
              (if \<not> has_key obj k then Inr False
               else let v = norm_text (get_none obj k)
                    in Inr (if op = ''='' then v = target
                            else if op = sign_ne then v \<noteq> target
                            else if op = ''contains'' then str_in target v
                            else if op = ''start with'' then starts_with v target
                            else if op = ''end with'' then ends_with v target
                            else False))
          | _ \<Rightarrow> Inr False))))"

text \<open>\<open>all(...)\<close> stops at the first rule that fails.\<close>

fun all_res :: "('a \<Rightarrow> bool res) \<Rightarrow> 'a list \<Rightarrow> bool res" where
  "all_res p [] = Inr True"
| "all_res p (x # xs) = try_then (p x) (\<lambda>b. if b then all_res p xs else Inr False)"

definition filter_values :: "pyval list \<Rightarrow> pdict list \<Rightarrow> canvas \<Rightarrow> pdict list res" where
  "filter_values rules objs c =
     filter_res (\<lambda>obj. if rules = [] then Inr True else all_res (\<lambda>r. match_rule obj r c) rules) objs"

definition update_item :: "canvas \<Rightarrow> pyval \<Rightarrow> pdict \<Rightarrow> pdict res" where
  "update_item c item new_obj = (case item of
     PDict d \<Rightarrow> try_then (as_str ''strip'' (py_or (get_none d ''key'') (PStr []))) (\<lambda>k0.
       let k = strip k0
       in if k = [] then Inr new_obj
          else (case get_none d ''value'' of
             PStr s \<Rightarrow> try_then (get_value_with_variable s c) (\<lambda>t. Inr (dset k (PStr (if t = [] then s else t)) new_obj))
           | v \<Rightarrow> raise TypeError (''expected string or bytes-like object, got '' @ [CHR 0x27] @ type_name v @ [CHR 0x27])))
   | _ \<Rightarrow> Inr new_obj)"

definition append_or_update :: "pyval list \<Rightarrow> pdict list \<Rightarrow> canvas \<Rightarrow> pdict list res" where
  "append_or_update updates objs c = map_res (\<lambda>obj. fold_res (update_item c) updates obj) objs"

definition remove_keys :: "pyval list \<Rightarrow> pdict list \<Rightarrow> pdict list" where
  "remove_keys ks objs = map (\<lambda>obj. fold (\<lambda>k o'. case k of PStr s \<Rightarrow> dpop s o' | _ \<Rightarrow> o') ks obj) objs"

definition rename_pair :: "pyval \<Rightarrow> pdict \<Rightarrow> pdict res" where
  "rename_pair pair new_obj = (case pair of
     PDict d \<Rightarrow> try_then (as_str ''strip'' (py_or (get_none d ''old_key'') (PStr []))) (\<lambda>old0.
       try_then (as_str ''strip'' (py_or (get_none d ''new_key'') (PStr []))) (\<lambda>new0.
         let old = strip old0; new = strip new0
         in if old = [] \<or> new = [] \<or> old = new then Inr new_obj
            else (case map_of new_obj old of None \<Rightarrow> Inr new_obj
                  | Some v \<Rightarrow> Inr (dset new v (dpop old new_obj)))))
   | _ \<Rightarrow> Inr new_obj)"

definition rename_keys :: "pyval list \<Rightarrow> pdict list \<Rightarrow> pdict list res" where
  "rename_keys pairs objs = map_res (\<lambda>obj. fold_res rename_pair pairs obj) objs"

definition objects_value :: "pdict list \<Rightarrow> pyval" where
  "objects_value ds = PList (map PDict ds)"

text \<open>\<open>getattr(self._param, name, default) or default\<close> as a list.\<close>

definition list_param :: "string \<Rightarrow> component \<Rightarrow> pyval list res" where
  "list_param name o' = py_iter (py_or (get_param name o') (PList []))"

definition data_dispatch :: "component \<Rightarrow> string \<Rightarrow> pdict list \<Rightarrow> canvas \<Rightarrow> pyval res" where
  "data_dispatch o' op objs c =
     (let value = (\<lambda>r. try_then r (\<lambda>ds. Inr (objects_value ds)))
      in if op = ''select_keys'' then value (try_then (param_attr ''select_keys'' o') (\<lambda>ks. select_keys ks objs))
         else if op = ''literal_eval'' then Inr (PList (recursive_eval_list (map PDict objs)))
         else if op = ''combine'' then Inr (PDict (fst (combine objs)))
         else if op = ''filter_values'' then value (try_then (list_param ''filter_values'' o') (\<lambda>rs. filter_values rs objs c))
         else if op = ''append_or_update'' then value (try_then (list_param ''updates'' o') (\<lambda>us. append_or_update us objs c))
         else if op = ''remove_keys'' then value (try_then (list_param ''remove_keys'' o') (\<lambda>ks. Inr (remove_keys ks objs)))
         else value (try_then (list_param ''rename_keys'' o') (\<lambda>ps. rename_keys ps objs)))"

fun gather_objects :: "string \<Rightarrow> pyval list \<Rightarrow> pdict list cact" where
  "gather_objects me [] = ret []"
| "gather_objects me (ref # refs) = bnd (read_ref ref) (\<lambda>v. bnd (self_set_input me (py_str ref) v) (\<lambda>_.
     bnd (gather_objects me refs) (\<lambda>ds. ret (objects_of v @ ds))))"

definition data_operations_invoke :: "string \<Rightarrow> unit cact" where
  "data_operations_invoke me =
     bnd (gets_res (\<lambda>c. try_then (get_component_obj me c) (\<lambda>o'. Inr (get_or (c_attrs o') ''query'' PNone)))) (\<lambda>q.
     bnd (gather_objects me (case q of PList refs \<Rightarrow> refs | _ \<Rightarrow> [q])) (\<lambda>objs.
     bnd (gets_res (\<lambda>c. try_then (get_component_obj me c) (\<lambda>o'.
            try_then (param_attr ''operations'' o') (\<lambda>op. data_dispatch o' (py_str op) objs c)))) (\<lambda>v.
       self_set_output me ''result'' v)))"

section \<open>VariableAssigner\<close>

definition clear_value :: "pyval \<Rightarrow> pyval" where
  "clear_value v = (case v of
     PList xs \<Rightarrow> PList [] | PStr s \<Rightarrow> PStr [] | PDict d \<Rightarrow> PDict [] | PBool b \<Rightarrow> PBool False
   | PInt i \<Rightarrow> PInt 0 | PFloat r \<Rightarrow> PFloat 0 | _ \<Rightarrow> PNone)"

definition fill_parameter :: "pyval \<Rightarrow> canvas \<Rightarrow> pyval res" where
  "fill_parameter p c = (case p of
     PStr s \<Rightarrow> try_then (get_value_with_variable s c) (\<lambda>t. Inr (PStr t))
   | _ \<Rightarrow> raise TypeError (''expected string or bytes-like object, got '' @ [CHR 0x27] @ type_name p @ [CHR 0x27]))"

definition set_value :: "pyval \<Rightarrow> pyval \<Rightarrow> canvas \<Rightarrow> pyval res" where
  "set_value variable p c = (case variable of
     PNone \<Rightarrow> fill_parameter p c | PStr s \<Rightarrow> fill_parameter p c | _ \<Rightarrow> Inr p)"

definition resolve_parameter :: "pyval \<Rightarrow> canvas \<Rightarrow> pyval res" where
  "resolve_parameter p c = try_then (as_str ''strip'' p) (\<lambda>e. get_variable_value e c)"

definition append_value :: "pyval \<Rightarrow> pyval \<Rightarrow> canvas \<Rightarrow> pyval res" where
  "append_value variable p c = try_then (resolve_parameter p c) (\<lambda>w.
     case (if variable = PNone then PList [] else variable) of
       PList xs \<Rightarrow> (if xs \<noteq> [] \<and> \<not> same_type w (hd xs) then Inr (PStr ''ERROR:PARAMETER_NOT_LIST_ELEMENT_TYPE'')
                    else Inr (PList (xs @ [w])))
     | _ \<Rightarrow> Inr (PStr ''ERROR:VARIABLE_NOT_LIST''))"

definition extend_value :: "pyval \<Rightarrow> pyval \<Rightarrow> canvas \<Rightarrow> pyval res" where
  "extend_value variable p c = try_then (resolve_parameter p c) (\<lambda>w.
     case (if variable = PNone then PList [] else variable) of
       PList xs \<Rightarrow> (case w of
           PList ys \<Rightarrow> (if xs \<noteq> [] \<and> ys \<noteq> [] \<and> \<not> same_type (hd ys) (hd xs)
                        then Inr (PStr ''ERROR:PARAMETER_NOT_LIST_ELEMENT_TYPE'') else Inr (PList (xs @ ys)))
         | _ \<Rightarrow> Inr (PStr ''ERROR:PARAMETER_NOT_LIST''))
     | _ \<Rightarrow> Inr (PStr ''ERROR:VARIABLE_NOT_LIST''))"

definition remove_first :: "pyval \<Rightarrow> pyval" where
  "remove_first v = (case v of PList xs \<Rightarrow> PList (slice_from xs 1) | _ \<Rightarrow> PStr ''ERROR:VARIABLE_NOT_LIST'')"

definition remove_last :: "pyval \<Rightarrow> pyval" where
  "remove_last v = (case v of PList xs \<Rightarrow> PList (slice_to xs (-1)) | _ \<Rightarrow> PStr ''ERROR:VARIABLE_NOT_LIST'')"

text \<open>Numbers that are not booleans; two integers give an integer, otherwise a float.\<close>

definition plain_number :: "pyval \<Rightarrow> rat option" where
  "plain_number v = (case v of PBool b \<Rightarrow> None | _ \<Rightarrow> py_num v)"

definition not_number :: pyval where
  "not_number = PStr ''ERROR:VARIABLE_NOT_NUMBER or PARAMETER_NOT_NUMBER''"

definition arith_value :: "(rat \<Rightarrow> rat \<Rightarrow> rat) \<Rightarrow> pyval \<Rightarrow> pyval \<Rightarrow> pyval" where
  "arith_value f v w = (case (plain_number v, plain_number w) of
     (Some a, Some b) \<Rightarrow> (if type_name v = ''int'' \<and> type_name w = ''int'' then PInt \<lfloor>f a b\<rfloor> else PFloat (f a b))
   | _ \<Rightarrow> not_number)"

definition divide_value :: "pyval \<Rightarrow> pyval \<Rightarrow> pyval" where
  "divide_value v w = (case (plain_number v, plain_number w) of
     (Some a, Some b) \<Rightarrow> (if b = 0 then PStr ''ERROR:DIVIDE_BY_ZERO'' else PFloat (a / b))
   | _ \<Rightarrow> not_number)"

definition operate :: "pyval \<Rightarrow> string \<Rightarrow> pyval \<Rightarrow> canvas \<Rightarrow> pyval res" where
  "operate variable op p c =
     (if op = ''overwrite'' then resolve_parameter p c
      else if op = ''clear'' then Inr (clear_value variable)
      else if op = ''set'' then set_value variable p c
      else if op = ''append'' then append_value variable p c
      else if op = ''extend'' then extend_value variable p c
      else if op = ''remove_first'' then Inr (remove_first variable)
      else if op = ''remove_last'' then Inr (remove_last variable)
      else if op = ''+='' then Inr (arith_value (+) variable p)
      else if op = ''-='' then Inr (arith_value (-) variable p)
      else if op = ''*='' then Inr (arith_value (*) variable p)
      else if op = ''/='' then Inr (divide_value variable p)
      else Inr PNone)"

definition assign_one :: "pyval \<Rightarrow> unit cact" where
  "assign_one item =
     bnd (lift (get_method item ''variable'' PNone)) (\<lambda>variable.
     bnd (lift (get_method item ''operator'' PNone)) (\<lambda>opv.
     bnd (lift (get_method item ''parameter'' PNone)) (\<lambda>p.
       if \<not> truthy variable \<or> \<not> truthy opv \<or> \<not> truthy p
       then lift (raise ValueError ''Variable is not complete.'')
       else bnd (read_ref variable) (\<lambda>v.
         bnd (gets_res (operate v (py_str opv) p)) (\<lambda>w.
           modify_res (set_variable_value (py_str variable) w))))))"

definition assigner_invoke :: "string \<Rightarrow> unit cact" where
  "assigner_invoke me = bnd (self_param me ''variables'') (\<lambda>vs. case vs of
     PList items \<Rightarrow> for_each assign_one items | _ \<Rightarrow> ret ())"

section \<open>VariableAggregator\<close>

definition aggregator_check_group :: "pyval \<Rightarrow> unit res" where
  "aggregator_check_group g =
     try_then (get_method g ''group_name'' PNone) (\<lambda>n.
     if \<not> truthy n then raise ValueError ''[VariableAggregator] group_name can not be empty!''
     else try_then (get_method g ''variables'' PNone) (\<lambda>vs.
       if \<not> truthy vs then raise ValueError
         (''[VariableAggregator] variables of group `'' @ py_str n @ ''` can not be empty'')
       else if \<not> is_list vs then raise ValueError
         (''[VariableAggregator] variables of group `'' @ py_str n @ ''` should be a list of strings'')
       else Inr ()))"

definition aggregator_check :: "component \<Rightarrow> unit res" where
  "aggregator_check c = try_then (param_attr ''groups'' c) (\<lambda>gs.
     try_then (check_empty gs ''[VariableAggregator] groups'') (\<lambda>_.
     try_then (py_iter gs) (\<lambda>xs. try_then (map_res aggregator_check_group xs) (\<lambda>_. Inr ()))))"

text \<open>The first selector of a group with a value that counts as true gives the group's output.\<close>

fun aggregate_selectors :: "string \<Rightarrow> string \<Rightarrow> pyval list \<Rightarrow> unit cact" where
  "aggregate_selectors me gname [] = ret ()"
| "aggregate_selectors me gname (sel # sels) =
     bnd (lift (subscript sel ''value'')) (\<lambda>ref. bnd (read_ref ref) (\<lambda>v.
       if truthy v then self_set_output me gname v else aggregate_selectors me gname sels))"

definition aggregate_group :: "string \<Rightarrow> pyval \<Rightarrow> unit cact" where
  "aggregate_group me g =
     bnd (lift (get_method g ''group_name'' PNone)) (\<lambda>n.
     bnd (lift (try_then (get_method g ''variables'' (PList [])) py_iter)) (\<lambda>sels.
     bnd (self_set_input me (py_str n @ ''.variables'') (PList sels)) (\<lambda>_.
       aggregate_selectors me (py_str n) sels)))"

definition aggregator_invoke :: "string \<Rightarrow> unit cact" where
  "aggregator_invoke me = bnd (self_param me ''groups'') (\<lambda>gs. bnd (lift (py_iter gs)) (for_each (aggregate_group me)))"

section \<open>StringTransform: split\<close>

text \<open>The alternatives of \<open>(d1|d2|...)\<close>, tried in the order of the list.\<close>

fun any_of :: "string list \<Rightarrow> rx" where
  "any_of [] = REps"
| "any_of [d] = RStr d"
| "any_of (d # e # ds) = RAlt (RStr d) (any_of (e # ds))"

text \<open>The even items of \<open>re.split(r"(...)", s)\<close>.\<close>

definition split_by :: "string list \<Rightarrow> string \<Rightarrow> string list" where
  "split_by delimiters s = (case rx_pieces (any_of delimiters) s of (ps, t) \<Rightarrow> map (\<lambda>(p, m, g). p) ps @ [t])"

definition string_split_invoke :: "string \<Rightarrow> pyval \<Rightarrow> unit cact" where
  "string_split_invoke me line = unless_canceled me (unless_canceled me
     (bnd (self_param me ''split_ref'') (\<lambda>ref.
      bnd (if \<not> truthy line then read_ref ref else ret line) (\<lambda>v0.
      bnd (lift (case (if truthy v0 then v0 else PStr []) of PStr s \<Rightarrow> Inr s
             | w \<Rightarrow> raise AssertionError (''The input variable is not a string: '' @ type_repr w))) (\<lambda>var.
      bnd (self_set_input me (py_str ref) (PStr var)) (\<lambda>_.
      bnd (bnd (self_param me ''delimiters'') (\<lambda>ds. lift (try_then (py_iter ds) (map_res (as_str ''escape''))))) (\<lambda>delims.
        self_set_output me ''result'' (PList (map PStr (split_by delims var))))))))))"

declare list_operations_check_def [py_defs] coerce_n_def [py_defs] is_strict_def [py_defs]
  assign_slot_def [py_defs] list_set_outputs_def [py_defs] strict_range_error_def [py_defs]
  list_nth_def [py_defs] list_head_def [py_defs] list_tail_def [py_defs] norm_text_def [py_defs]
  list_eval_def [py_defs] list_filter_def [py_defs] sort_by_def [py_defs] py_less_def [py_defs]
  py_sorted_def [py_defs] list_sort_def [py_defs] drop_duplicates_def [py_defs]
  list_dispatch_def [py_defs] list_operations_invoke_def [py_defs] data_operations_check_def [py_defs]
  objects_of_def [py_defs] select_keys_def [py_defs] looks_literal_def [py_defs]
  entry_value_def [py_defs] joined_def [py_defs] combine_def [py_defs] match_rule_def [py_defs]
  filter_values_def [py_defs] update_item_def [py_defs] append_or_update_def [py_defs]
  remove_keys_def [py_defs] rename_pair_def [py_defs] rename_keys_def [py_defs]
  objects_value_def [py_defs] list_param_def [py_defs] data_dispatch_def [py_defs]
  data_operations_invoke_def [py_defs] clear_value_def [py_defs] fill_parameter_def [py_defs]
  set_value_def [py_defs] resolve_parameter_def [py_defs] append_value_def [py_defs]
  extend_value_def [py_defs] remove_first_def [py_defs] remove_last_def [py_defs]
  plain_number_def [py_defs] not_number_def [py_defs] arith_value_def [py_defs]
  divide_value_def [py_defs] operate_def [py_defs] assign_one_def [py_defs] assigner_invoke_def [py_defs]
  aggregator_check_group_def [py_defs] aggregator_check_def [py_defs] aggregate_group_def [py_defs]
  aggregator_invoke_def [py_defs] split_by_def [py_defs] string_split_invoke_def [py_defs]

end
