(* ===== verification/Engine.thy ===== *)
theory Engine
  imports DataComponents
begin

text \<open>
  The run of a canvas (\<open>Canvas.run\<close> in \<open>agent/canvas.py\<close>): the start of a turn, the
  batches, the bookkeeping after a batch that extends the path, the pause at a form and
  the end of the turn. The run is a state-passing function that collects the events it
  yields.

  The components that call models, search engines or the network are one argument,
  \<open>ext\<close>, which runs \<open>_invoke\<close> of a component by its id; \<open>elems\<close> gives the input
  elements of the kinds that override \<open>get_input_elements\<close>. The clock stands still. A
  batch runs its components one after the other, in the order of the path. The loop
  carries fuel, one unit per batch.
\<close>

section \<open>State, events and environment\<close>

datatype event =
    WorkflowStarted pyval
  | NodeStarted string
  | NodeFinished string pyval pyval
  | Message pyval
  | ThinkStart
  | ThinkEnd
  | MessageEnd pdict
  | UserInputs pdict pyval
  | WorkflowFinished pyval

record run_state =
  rs_canvas :: canvas
  rs_events :: "event list"
  rs_partials :: "string list"

type_synonym 'a ract = "(run_state, 'a) act"

record run_env =
  ext :: "string \<Rightarrow> pdict \<Rightarrow> unit cact"
  elems :: "string \<Rightarrow> canvas \<Rightarrow> pdict option res"
  read_files :: "pyval list \<Rightarrow> pyval res"
  now_text :: string
  now :: rat

definition on_canvas :: "'a cact \<Rightarrow> 'a ract" where
  "on_canvas m = (\<lambda>s. case m (rs_canvas s) of (r, c) \<Rightarrow> (r, s\<lparr>rs_canvas := c\<rparr>))"

definition yield_event :: "event \<Rightarrow> unit ract" where
  "yield_event e = modify (\<lambda>s. s\<lparr>rs_events := rs_events s @ [e]\<rparr>)"

definition set_path :: "string list \<Rightarrow> unit ract" where
  "set_path p = on_canvas (modify (\<lambda>c. c\<lparr>path := p\<rparr>))"

definition get_path :: "string list ract" where
  "get_path = on_canvas (gets path)"

definition obj_of :: "string \<Rightarrow> component ract" where
  "obj_of cid = on_canvas (gets_res (get_component_obj cid))"

definition kind_of :: "component \<Rightarrow> string" where
  "kind_of o' = lower (c_name o')"

section \<open>Invoking one component\<close>

definition dispatch :: "run_env \<Rightarrow> string \<Rightarrow> pdict \<Rightarrow> unit cact" where
  "dispatch env me args = bnd (gets_res (get_component_obj me)) (\<lambda>o'.
     let k = kind_of o'
     in if k = ''begin'' then
          begin_invoke (read_files env) (case get_or args ''inputs'' (PDict []) of PDict d \<Rightarrow> d | _ \<Rightarrow> []) me
        else if k = ''switch'' then switch_invoke me
        else if k = ''loop'' then loop_invoke me
        else if k = ''loopitem'' then loopitem_invoke me
        else if k = ''exitloop'' then ret ()
        else if k = ''iteration'' then iteration_invoke me
        else if k = ''iterationitem'' then iterationitem_invoke me
        else if k = ''listoperations'' then list_operations_invoke me
        else if k = ''dataoperations'' then data_operations_invoke me
        else if k = ''variableassigner'' then assigner_invoke me
        else if k = ''variableaggregator'' then aggregator_invoke me
        else ext env me args)"

text \<open>\<open>ComponentBase.invoke\<close>: an exception of \<open>_invoke\<close> ends in the component's outputs.\<close>

definition invoke :: "run_env \<Rightarrow> string \<Rightarrow> pdict \<Rightarrow> unit cact" where
  "invoke env me args = (\<lambda>c.
     (let c1 = on_component me (invoke_begin (now env)) c
      in case dispatch env me args c1 of
           (r, c2) \<Rightarrow> (Inr (), on_component me
             (invoke_end (now env) (case r of Inl e \<Rightarrow> Some e | Inr _ \<Rightarrow> None)) c2)))"

text \<open>The input elements of a component: its own for the kinds that override the method, else the declared inputs.\<close>

definition input_elements :: "run_env \<Rightarrow> string \<Rightarrow> canvas \<Rightarrow> pdict res" where
  "input_elements env me c = try_then (elems env me c) (\<lambda>r. case r of
     Some d \<Rightarrow> Inr d
   | None \<Rightarrow> try_then (get_component_obj me c) (\<lambda>o'. Inr (map (\<lambda>(k, i). (k, PDict i)) (c_inputs o'))))"

section \<open>A batch\<close>

definition is_form_id :: "string \<Rightarrow> bool" where
  "is_form_id cid = str_in ''userfillup'' (lower cid)"

text \<open>An input that refers to a component not yet on the path before this position.\<close>

definition waits_for :: "string list \<Rightarrow> nat \<Rightarrow> pyval \<Rightarrow> bool" where
  "waits_for p i ele = (case ele of
     PDict d \<Rightarrow> (case get_none d ''_cpn_id'' of
        PStr cid \<Rightarrow> cid \<noteq> [] \<and> cid \<notin> set (take i p) \<and> \<not> is_form_id (hd p)
      | _ \<Rightarrow> False)
   | _ \<Rightarrow> False)"

definition drop_at :: "nat \<Rightarrow> 'a list \<Rightarrow> 'a list" where
  "drop_at i xs = take i xs @ drop (Suc i) xs"

text \<open>
  The selection of the batch: positions \<open>i\<close> up to \<open>t\<close> of the path. A component that
  waits for another is taken off the path, the others are called with their inputs.
\<close>

function select_batch :: "run_env \<Rightarrow> pyval \<Rightarrow> nat \<Rightarrow> nat \<Rightarrow> (string \<times> pdict) list cact" where
  "select_batch env inputs i t =
     (if i < t then
        bnd (gets path) (\<lambda>p. bnd (lift (py_index p (int i))) (\<lambda>me.
        bnd (gets_res (get_component_obj me)) (\<lambda>o'.
          if kind_of o' = ''begin'' \<or> kind_of o' = ''userfillup'' then
            bnd (select_batch env inputs (Suc i) t) (\<lambda>rest. ret ((me, [(''inputs'', inputs)]) # rest))
          else bnd (gets_res (input_elements env me)) (\<lambda>els.
            if list_ex (\<lambda>(k, e). waits_for p i e) els then
              bnd (modify (\<lambda>c. c\<lparr>path := drop_at i p\<rparr>)) (\<lambda>_. select_batch env inputs i (t - 1))
            else bnd (get_input me (map fst els)) (\<lambda>args.
              bnd (select_batch env inputs (Suc i) t) (\<lambda>rest. ret ((me, args) # rest)))))))
      else ret [])"
  by pat_completeness auto
termination by (relation "measure (\<lambda>(env, inputs, i, t). t - i)") auto

declare select_batch.simps [simp del]

definition canceled_error :: "string \<Rightarrow> 'a cact" where
  "canceled_error when = gets_res (\<lambda>c. raise TaskCanceledException
     (''Task '' @ task_id c @ '' has been canceled '' @ when))"

definition run_batch :: "run_env \<Rightarrow> pyval \<Rightarrow> nat \<Rightarrow> nat \<Rightarrow> unit cact" where
  "run_batch env inputs f t = bnd (gets canceled) (\<lambda>stop.
     if stop then canceled_error ''during batch execution.''
     else bnd (select_batch env inputs f t) (for_each (\<lambda>(me, args). invoke env me args)))"

section \<open>After a batch\<close>

definition node_finished :: "string \<Rightarrow> unit ract" where
  "node_finished cid = bnd (obj_of cid) (\<lambda>o'. yield_event (NodeFinished cid (output_all o') (error_of o')))"

text \<open>One chunk of a streamed answer.\<close>

definition stream_event :: "string \<Rightarrow> event option" where
  "stream_event m =
     (if m = [] then None else if m = ''<think>'' then Some ThinkStart
      else if m = ''</think>'' then Some ThinkEnd else Some (Message (PStr m)))"

definition stream_text :: "string list \<Rightarrow> string" where
  "stream_text ms = concat (filter (\<lambda>m. m \<noteq> ''<think>'' \<and> m \<noteq> ''</think>'') ms)"

fun finish_partials :: "string list \<Rightarrow> string list ract" where
  "finish_partials [] = ret []"
| "finish_partials (p # ps) = bnd (obj_of p) (\<lambda>o'.
     if is_stream (cpn_output ''content'' o') then ret (p # ps)
     else bnd (node_finished p) (\<lambda>_. finish_partials ps))"

definition emit_message :: "string \<Rightarrow> unit ract" where
  "emit_message cid = bnd (obj_of cid) (\<lambda>o'.
     bnd (case cpn_output ''content'' o' of
            PStream ms \<Rightarrow> bnd (for_each yield_event (List.map_filter stream_event ms))
              (\<lambda>_. on_canvas (self_set_output cid ''content'' (PStr (stream_text ms))))
          | v \<Rightarrow> yield_event (Message v)) (\<lambda>_.
     bnd (obj_of cid) (\<lambda>o''.
     bnd (on_canvas (gets (build_message_end o''))) (\<lambda>d.
     bnd (yield_event (MessageEnd d)) (\<lambda>_.
     bnd (gets rs_partials) (\<lambda>ps. bnd (finish_partials ps)
       (\<lambda>qs. modify (\<lambda>s. s\<lparr>rs_partials := qs\<rparr>))))))))"

text \<open>The error of a component: go elsewhere, answer with the default, or fail the run. True when it goes elsewhere.\<close>

definition handle_error :: "string \<Rightarrow> bool ract" where
  "handle_error cid = bnd (obj_of cid) (\<lambda>o'.
     if \<not> truthy (error_of o') then ret False
     else (let fail = bnd (on_canvas (modify (\<lambda>c. c\<lparr>run_error := error_of o'\<rparr>))) (\<lambda>_. ret False)
           in case exception_handler o' of
                None \<Rightarrow> fail
              | Some (goto, dflt) \<Rightarrow>
                  if truthy goto then
                    bnd (lift (try_then (py_iter goto) (map_res (as_str ''append'')))) (\<lambda>ids.
                    bnd (on_canvas (modify (\<lambda>c. c\<lparr>path := path c @ ids\<rparr>))) (\<lambda>_. ret True))
                  else if truthy dflt then
                    bnd (yield_event (Message dflt)) (\<lambda>_. bnd (yield_event (MessageEnd [])) (\<lambda>_. ret False))
                  else fail))"

definition finish_node :: "string \<Rightarrow> unit ract" where
  "finish_node cid = bnd (obj_of cid) (\<lambda>o'.
     if kind_of o' = ''iteration'' \<or> kind_of o' = ''loop'' then ret ()
     else if is_stream (cpn_output ''content'' o') then
       bnd (on_canvas (gets run_error)) (\<lambda>e.
         if truthy e then bnd (on_canvas (self_set_output cid ''content'' PNone)) (\<lambda>_. node_finished cid)
         else modify (\<lambda>s. s\<lparr>rs_partials := rs_partials s @ [cid]\<rparr>))
     else node_finished cid)"

text \<open>\<open>_append_path\<close> and \<open>_extend_path\<close>: nothing after a jump, and never the same id twice in a row.\<close>

definition append_path :: "bool \<Rightarrow> string \<Rightarrow> canvas \<Rightarrow> canvas" where
  "append_path other_branch cid c =
     (if other_branch then c
      else if path c \<noteq> [] \<and> last (path c) = cid then c
      else c\<lparr>path := path c @ [cid]\<rparr>)"

definition extend_path :: "bool \<Rightarrow> string list \<Rightarrow> canvas \<Rightarrow> canvas" where
  "extend_path other_branch cids c = fold (append_path other_branch) cids c"

text \<open>\<open>get_start\<close> of a loop or an iteration; no item component is no id to go to.\<close>

definition append_start :: "bool \<Rightarrow> string \<Rightarrow> unit ract" where
  "append_start ob cid = bnd (obj_of cid) (\<lambda>o'.
     bnd (on_canvas (gets_res (\<lambda>c.
       if kind_of o' = ''loop'' then loop_get_start cid c
       else if kind_of o' = ''iteration'' then iteration_get_start cid c
       else raise AttributeError ([CHR 0x27] @ c_name o' @ [CHR 0x27] @ '' object has no attribute get_start'')))) (\<lambda>st.
     case st of Some sid \<Rightarrow> on_canvas (modify (append_path ob sid))
     | None \<Rightarrow> if ob then ret () else lift not_subscriptable))"

definition parent_of :: "string \<Rightarrow> string option ract" where
  "parent_of cid = on_canvas (gets_res (get_parent cid))"

definition extend_parent_downstream :: "bool \<Rightarrow> string \<Rightarrow> unit ract" where
  "extend_parent_downstream ob pid =
     bnd (obj_of pid) (\<lambda>p. on_canvas (modify (extend_path ob (c_down p))))"

definition item_ended :: "string \<Rightarrow> component \<Rightarrow> bool ract" where
  "item_ended cid o' =
     (if kind_of o' = ''iterationitem'' then on_canvas (iterationitem_end cid)
      else if kind_of o' = ''loopitem'' then on_canvas (loopitem_end cid)
      else ret False)"

definition next_nodes :: "bool \<Rightarrow> string \<Rightarrow> unit ract" where
  "next_nodes ob cid = bnd (obj_of cid) (\<lambda>o'. bnd (item_ended cid o') (\<lambda>ended.
     if ended then
       bnd (parent_of cid) (\<lambda>p. case p of
         Some pid \<Rightarrow> bnd (node_finished pid) (\<lambda>_. extend_parent_downstream ob pid)
       | None \<Rightarrow> lift (raise AttributeError ([CHR 0x27] @ ''NoneType'' @ [CHR 0x27] @ '' object has no attribute get_input_values'')))
     else if kind_of o' = ''categorize'' \<or> kind_of o' = ''switch'' then
       (if ob then ret ()
        else bnd (lift (try_then (py_iter (cpn_output ''_next'' o')) (map_res (as_str ''lower'')))) (\<lambda>ids.
               on_canvas (modify (extend_path ob ids))))
     else if kind_of o' = ''iteration'' \<or> kind_of o' = ''loop'' then append_start ob cid
     else bnd (if kind_of o' = ''exitloop'' \<or> c_down o' = [] then parent_of cid else ret None) (\<lambda>p.
       bnd (case p of None \<Rightarrow> ret [] | Some pid \<Rightarrow> bnd (obj_of pid) (\<lambda>po. ret (kind_of po))) (\<lambda>pk.
       if kind_of o' = ''exitloop'' \<and> p = None then
         lift (raise AttributeError ([CHR 0x27] @ ''NoneType'' @ [CHR 0x27] @ '' object has no attribute component_name''))
       else if kind_of o' = ''exitloop'' \<and> pk = ''loop'' then
         (case p of Some pid \<Rightarrow> extend_parent_downstream ob pid | None \<Rightarrow> ret ())
       else if c_down o' = [] \<and> p \<noteq> None then
         (case p of Some pid \<Rightarrow> append_start ob pid | None \<Rightarrow> ret ())
       else on_canvas (modify (extend_path ob (c_down o')))))))"

definition post_process :: "string \<Rightarrow> unit ract" where
  "post_process cid = bnd (obj_of cid) (\<lambda>o'.
     bnd (if kind_of o' = ''message'' then emit_message cid else ret ()) (\<lambda>_.
     bnd (handle_error cid) (\<lambda>ob.
     bnd (finish_node cid) (\<lambda>_. next_nodes ob cid))))"

section \<open>The pause at a form\<close>

text \<open>The pending part of the path, forms first.\<close>

definition pause_path :: "(string \<Rightarrow> bool) \<Rightarrow> string list \<Rightarrow> string list" where
  "pause_path is_form pending = filter is_form pending @ filter (\<lambda>c. \<not> is_form c) pending"

definition form_kind :: "canvas \<Rightarrow> string \<Rightarrow> bool" where
  "form_kind c cid = (case get_component cid c of Some o' \<Rightarrow> kind_of o' = ''userfillup'' | None \<Rightarrow> False)"

fun ask_forms :: "run_env \<Rightarrow> string list \<Rightarrow> pdict \<Rightarrow> pyval \<Rightarrow> (pdict \<times> pyval) ract" where
  "ask_forms env [] ins tips = ret (ins, tips)"
| "ask_forms env (cid # cids) ins tips = bnd (on_canvas (gets (\<lambda>c. form_kind c cid))) (\<lambda>b.
     if \<not> b then ask_forms env cids ins tips
     else bnd (on_canvas (invoke env cid [])) (\<lambda>_.
       bnd (on_canvas (gets_res (input_elements env cid))) (\<lambda>els.
       bnd (obj_of cid) (\<lambda>o'.
         ask_forms env cids (dupdate ins els)
           (if truthy (get_param ''enable_tips'' o') then cpn_output ''tips'' o' else tips)))))"

section \<open>The loop\<close>

datatype loop_end = Ended nat | Paused | OutOfFuel

definition missing_pending :: "string list \<Rightarrow> canvas \<Rightarrow> bool" where
  "missing_pending pending c = list_ex (\<lambda>cid. get_component cid c = None) pending"

text \<open>The pending part of the path: a form there pauses the run, else it goes on from \<open>to\<close>.\<close>

definition pause_or_go :: "run_env \<Rightarrow> (nat \<Rightarrow> loop_end ract) \<Rightarrow> nat \<Rightarrow> loop_end ract" where
  "pause_or_go env go to = bnd get_path (\<lambda>p2.
     let pending = drop to p2
     in bnd (on_canvas (gets (\<lambda>c. (missing_pending pending c, list_ex (form_kind c) pending, form_kind c)))) (\<lambda>(missing, any_form, is_form).
        if missing then lift not_subscriptable
        else if any_form then
          bnd (ask_forms env (pause_path is_form pending) [] (PStr [])) (\<lambda>(ins, tips).
          bnd (set_path (pause_path is_form pending)) (\<lambda>_.
          bnd (yield_event (UserInputs ins tips)) (\<lambda>_. ret Paused)))
        else go to))"

fun main_loop :: "run_env \<Rightarrow> pyval \<Rightarrow> nat \<Rightarrow> nat \<Rightarrow> loop_end ract" where
  "main_loop env inputs 0 idx = ret OutOfFuel"
| "main_loop env inputs (Suc fuel) idx = bnd get_path (\<lambda>p.
     if \<not> idx < length p then ret (Ended idx)
     else
       bnd (for_each (\<lambda>cid. bnd (obj_of cid) (\<lambda>_. yield_event (NodeStarted cid))) (drop idx p)) (\<lambda>_.
       bnd (on_canvas (run_batch env inputs idx (length p))) (\<lambda>_.
       bnd get_path (\<lambda>p1.
       bnd (for_each post_process (drop idx p1)) (\<lambda>_.
       bnd (on_canvas (gets run_error)) (\<lambda>e.
         if truthy e then ret (Ended idx) else pause_or_go env (main_loop env inputs fuel) (length p1)))))))"

section \<open>A turn\<close>

text \<open>The components on the path start the turn with empty outputs.\<close>

definition reset_on_path :: "canvas \<Rightarrow> canvas" where
  "reset_on_path c = c\<lparr>comps := map (\<lambda>(k, o'). (k, if k \<in> set (path c) then reset_component True o' else o')) (comps c)\<rparr>"

text \<open>A webhook call: \<open>input\<close> becomes the request, everything else an output of the begin component.\<close>

definition webhook_to :: "pdict \<Rightarrow> component \<Rightarrow> component" where
  "webhook_to payload o' =
     (let o1 = (case map_of payload ''input'' of Some v \<Rightarrow> set_input_value ''request'' v o' | None \<Rightarrow> o')
      in fold (\<lambda>(kk, vv) x. if kk = ''input'' then x else set_output kk vv x) payload o1)"

definition apply_webhook :: "pdict \<Rightarrow> canvas \<Rightarrow> canvas" where
  "apply_webhook payload c = c\<lparr>comps := map (\<lambda>(k, o'). (k,
     if kind_of o' = ''begin'' \<and> py_eq (get_param ''mode'' o') (PStr ''Webhook'') then webhook_to payload o' else o')) (comps c)\<rparr>"

definition run_globals :: "run_env \<Rightarrow> string \<times> pyval \<Rightarrow> pdict \<Rightarrow> pdict res" where
  "run_globals env kv g = (case kv of (k, v) \<Rightarrow>
     if k \<in> {''query'', ''user_id'', ''files'', ''chat_template_kwargs''} \<and> truthy v then
       (if k = ''files'' then try_then (try_then (py_iter v) (read_files env)) (\<lambda>w. Inr (dset ''sys.files'' w g))
        else Inr (dset (''sys.'' @ k) v g))
     else Inr g)"

definition count_turn :: "pdict \<Rightarrow> pdict res" where
  "count_turn g = try_then (dict_item g ''sys.conversation_turns'') (\<lambda>v.
     let n = (if truthy v then v else PInt 0)
     in case n of
          PInt i \<Rightarrow> Inr (dset ''sys.conversation_turns'' (PInt (i + 1)) g)
        | PBool b \<Rightarrow> Inr (dset ''sys.conversation_turns'' (PInt (of_bool b + 1)) g)
        | PFloat r \<Rightarrow> Inr (dset ''sys.conversation_turns'' (PFloat (r + 1)) g)
        | _ \<Rightarrow> raise TypeError (''can only concatenate'' @ type_name n))"

definition set_globals :: "(pdict \<Rightarrow> pdict res) \<Rightarrow> unit cact" where
  "set_globals f = modify_res (\<lambda>c. try_then (f (globals c)) (\<lambda>g. Inr (c\<lparr>globals := g\<rparr>)))"

text \<open>A turn continues at the form the last one paused at, or starts again at \<open>begin\<close>.\<close>

definition start_path :: "string list \<Rightarrow> string list" where
  "start_path p = (if p = [] \<or> \<not> is_form_id (last p) then p @ [''begin''] else p)"

definition start_turn :: "run_env \<Rightarrow> pdict \<Rightarrow> unit cact" where
  "start_turn env kwargs =
     bnd (modify (\<lambda>c. c\<lparr>globals := dset ''sys.date'' (PStr (now_text env)) (globals c)\<rparr>)) (\<lambda>_.
     bnd (add_user_input (get_none kwargs ''query'')) (\<lambda>_.
     bnd (modify reset_on_path) (\<lambda>_.
     bnd (modify (case get_none kwargs ''webhook_payload'' of
            PDict payload \<Rightarrow> if payload = [] then id else apply_webhook payload | _ \<Rightarrow> id)) (\<lambda>_.
     bnd (set_globals (fold_res (run_globals env) kwargs)) (\<lambda>_.
     bnd (set_globals count_turn) (\<lambda>_.
     bnd (modify (\<lambda>c. if start_path (path c) = path c then c
            else c\<lparr>path := start_path (path c),
                   retrieval := retrieval c @ [PDict [(''chunks'', PList []), (''doc_aggs'', PList [])]]\<rparr>)) (\<lambda>_.
     bnd (gets canceled) (\<lambda>stop. if stop then canceled_error ''before starting.'' else ret ()))))))))"

definition finish_turn :: "nat \<Rightarrow> unit ract" where
  "finish_turn idx =
     bnd get_path (\<lambda>p. bnd (set_path (take idx p)) (\<lambda>_.
     bnd (on_canvas (gets run_error)) (\<lambda>e.
       if \<not> truthy e then
         bnd get_path (\<lambda>q. bnd (lift (py_index q (-1))) (\<lambda>cid. bnd (obj_of cid) (\<lambda>o'.
         bnd (yield_event (WorkflowFinished (output_all o'))) (\<lambda>_.
           on_canvas (push_history ''assistant'' (output_all o'))))))
       else if str_in cancel_text (py_str e) then yield_event (WorkflowFinished (PStr cancel_text))
       else ret ())))"

definition run_canvas :: "run_env \<Rightarrow> nat \<Rightarrow> pdict \<Rightarrow> loop_end ract" where
  "run_canvas env fuel kwargs =
     bnd (on_canvas (start_turn env kwargs)) (\<lambda>_.
     bnd (yield_event (WorkflowStarted (get_none kwargs ''inputs''))) (\<lambda>_.
     bnd (on_canvas (modify (\<lambda>c. c\<lparr>retrieval := retrieval c @ [empty_reference], run_error := PStr []\<rparr>))) (\<lambda>_.
     bnd get_path (\<lambda>p.
     bnd (main_loop env (get_or kwargs ''inputs'' (PDict [])) fuel (length p - 1)) (\<lambda>r.
     bnd (case r of Ended idx \<Rightarrow> finish_turn idx | _ \<Rightarrow> ret ()) (\<lambda>_. ret r))))))"

declare on_canvas_def [py_defs] yield_event_def [py_defs] set_path_def [py_defs] get_path_def [py_defs]
  obj_of_def [py_defs] kind_of_def [py_defs] dispatch_def [py_defs] invoke_def [py_defs]
  input_elements_def [py_defs] is_form_id_def [py_defs] waits_for_def [py_defs] drop_at_def [py_defs]
  select_batch.simps [py_defs] canceled_error_def [py_defs] run_batch_def [py_defs]
  node_finished_def [py_defs] stream_event_def [py_defs] stream_text_def [py_defs]
  emit_message_def [py_defs] handle_error_def [py_defs] finish_node_def [py_defs]
  append_path_def [py_defs] extend_path_def [py_defs] append_start_def [py_defs] parent_of_def [py_defs]
  extend_parent_downstream_def [py_defs] item_ended_def [py_defs] next_nodes_def [py_defs]
  post_process_def [py_defs] pause_path_def [py_defs] form_kind_def [py_defs]
  missing_pending_def [py_defs] pause_or_go_def [py_defs] reset_on_path_def [py_defs] webhook_to_def [py_defs]
  apply_webhook_def [py_defs] run_globals_def [py_defs] count_turn_def [py_defs] set_globals_def [py_defs]
  start_path_def [py_defs] start_turn_def [py_defs] finish_turn_def [py_defs] run_canvas_def [py_defs]

end
