(* ===== verification/GraphShape.thy ===== *)
theory GraphShape
  imports Engine
begin

text \<open>
  What a run never changes: the components of a canvas, their kinds, parameters, parents and edges.

  An action on a canvas is tame when it keeps the graph, the path and the cancellation flag, whether or
  not it raises. The operations of the modelled components are tame, so \<open>invoke\<close> is, as long as
  the components outside the model are; the run changes the path but not the graph.
\<close>

section \<open>The graph of a canvas\<close>

definition node_shape :: "component \<Rightarrow> string \<times> pdict \<times> string option \<times> string list \<times> string list" where
  "node_shape o' = (c_name o', c_attrs o', c_parent o', c_down o', c_up o')"

definition graph_shape :: "canvas \<Rightarrow> (string \<times> string \<times> pdict \<times> string option \<times> string list \<times> string list) list" where
  "graph_shape c = map (\<lambda>(k, o'). (k, node_shape o')) (comps c)"

definition frozen :: "canvas \<Rightarrow> canvas \<Rightarrow> bool" where
  "frozen c0 c = (graph_shape c = graph_shape c0 \<and> path c = path c0 \<and> canceled c = canceled c0)"

lemma frozen_refl [simp]: "frozen c c"
  by (simp add: frozen_def)

lemma frozen_trans: "frozen a b \<Longrightarrow> frozen b c \<Longrightarrow> frozen a c"
  by (simp add: frozen_def)

lemma map_dset_same: "map_of d k = Some v \<Longrightarrow> g w = g v \<Longrightarrow> map (\<lambda>(k, v). (k, g v)) (dset k w d) = map (\<lambda>(k, v). (k, g v)) d"
  by (induction d) auto

lemma graph_shape_put:
  "get_component cid c = Some o' \<Longrightarrow> node_shape x = node_shape o' \<Longrightarrow> graph_shape (put_component cid x c) = graph_shape c"
  by (simp add: graph_shape_def put_component_def get_component_def map_dset_same)

lemma frozen_put:
  "get_component cid c = Some o' \<Longrightarrow> node_shape x = node_shape o' \<Longrightarrow> frozen c (put_component cid x c)"
  by (simp add: frozen_def graph_shape_put)

lemma frozen_on_component:
  "(\<And>o'. node_shape (f o') = node_shape o') \<Longrightarrow> frozen c (on_component cid f c)"
  by (simp add: on_component_def frozen_put split: option.split)

lemma node_shape_slots [simp]:
  "node_shape (set_output k v o') = node_shape o'" "node_shape (set_input_value k v o') = node_shape o'"
  "node_shape (o'\<lparr>c_idx := i\<rparr>) = node_shape o'" "node_shape (o'\<lparr>c_debug := d\<rparr>) = node_shape o'"
  "node_shape (o'\<lparr>c_outputs := q\<rparr>) = node_shape o'"
  by (simp_all add: node_shape_def)

lemma node_shape_invoke [simp]:
  "node_shape (invoke_begin t o') = node_shape o'" "node_shape (invoke_end t e o') = node_shape o'"
  by (simp_all add: invoke_begin_def invoke_end_def record_failure_def set_exception_default_value_def Let_def
      split: option.split)

lemma frozen_set_variable:
  assumes "set_variable_value e v c = Inr d"
  shows "frozen c d"
proof (cases "str_in ''@'' (strip_ref e)")
  case False
  then show ?thesis using assms by (auto simp: set_variable_value_def frozen_def graph_shape_def)
next
  case True
  with assms obtain cid var where sp: "split_ref (strip_ref e) = Inr (cid, var)"
    by (auto simp: set_variable_value_def try_then_Inr_iff)
  obtain rk rest where sr: "split_root var = (rk, rest)" by (cases "split_root var")
  obtain o' where o': "get_component cid c = Some o'"
    using assms True sp by (auto simp: set_variable_value_def cant_find_def split: option.splits)
  obtain w where "d = put_component cid (set_output rk w o') c"
    using assms True sp sr o' by (auto simp: set_variable_value_def Let_def try_then_Inr_iff split: if_splits)
  then show ?thesis using frozen_put [OF o'] by simp
qed

section \<open>Tame actions\<close>

definition tame :: "'a cact \<Rightarrow> bool" where
  "tame m = (\<forall>c. frozen c (snd (m c)))"

named_theorems tame_rules \<open>introduction rules for tame actions\<close>

lemma tame_pure [tame_rules]: "tame (ret a)" "tame (lift r)" "tame (gets f)" "tame (gets_res g)"
  by (simp_all add: tame_def act_defs)

lemma tame_bnd [tame_rules]: "tame m \<Longrightarrow> (\<And>a. tame (f a)) \<Longrightarrow> tame (bnd m f)"
proof -
  assume m: "tame m" and f: "\<And>a. tame (f a)"
  show "tame (bnd m f)" unfolding tame_def
  proof
    fix c
    obtain r d where "m c = (r, d)" by (cases "m c")
    moreover then have "frozen c d" using m by (metis snd_conv tame_def)
    ultimately show "frozen c (snd (bnd m f c))"
      using f frozen_trans by (cases r) (auto simp: bnd_apply tame_def)
  qed
qed

lemma tame_if [tame_rules]: "tame a \<Longrightarrow> tame b \<Longrightarrow> tame (if p then a else b)"
  by simp

lemma tame_for_each [tame_rules]: "(\<And>x. tame (f x)) \<Longrightarrow> tame (for_each f xs)"
  by (induction xs) (auto intro: tame_rules)

lemma tame_on_component [tame_rules]:
  "(\<And>o'. node_shape (f o') = node_shape o') \<Longrightarrow> tame (modify (on_component cid f))"
  by (simp add: tame_def act_defs frozen_on_component)

lemma tame_self [tame_rules]:
  "tame (self_set_output me k v)" "tame (self_set_input me k v)" "tame (set_idx me i)" "tame (self_param me n)"
  "tame (get_idx me)" "tame (read_ref e)" "tame (self_parent me)"
  by (simp_all add: self_set_output_def self_set_input_def set_idx_def self_param_def get_idx_def read_ref_def
      self_parent_def tame_rules)

lemma tame_check [tame_rules]: "tame (check_if_canceled me)"
  by (simp add: tame_def check_if_canceled_def frozen_on_component)

lemma tame_unless [tame_rules]: "tame m \<Longrightarrow> tame (unless_canceled me m)"
  unfolding unless_canceled_def by (intro tame_rules)

section \<open>The components\<close>

lemma tame_switch_item [tame_rules]: "tame (switch_item me item)"
  unfolding switch_item_def by (intro tame_rules)

lemma tame_switch_items [tame_rules]: "tame (switch_items me cond items res)"
  by (induction items arbitrary: res) (auto intro!: tame_rules split: option.split)

lemma tame_switch_to [tame_rules]: "tame (switch_to me dest)"
  unfolding switch_to_def by (intro tame_rules)

lemma tame_switch_conditions [tame_rules]: "tame (switch_conditions me conds)"
  by (induction conds) (auto intro!: tame_rules split: items_end.split)

lemma tame_switch [tame_rules]: "tame (switch_invoke me)"
  unfolding switch_invoke_def by (intro tame_rules)

lemma tame_loop [tame_rules]: "tame (loop_invoke me)"
  unfolding loop_invoke_def loop_variable_def by (intro tame_rules)

lemma tame_loopitem [tame_rules]: "tame (loopitem_invoke me)"
  unfolding loopitem_invoke_def by (intro tame_rules)

lemma tame_condition [tame_rules]: "tame (termination_condition item)"
  unfolding termination_condition_def by (intro tame_rules)

lemma tame_collect [tame_rules]: "(\<And>x. tame (f x)) \<Longrightarrow> tame (collect f xs)"
  by (induction xs) (auto intro!: tame_rules)

lemma tame_loopitem_end [tame_rules]: "tame (loopitem_end me)"
  unfolding loopitem_end_def by (intro tame_rules)

lemma tame_iteration [tame_rules]: "tame (iteration_invoke me)"
  unfolding iteration_invoke_def by (intro tame_rules)

lemma tame_collate_slot [tame_rules]: "tame (collate_slot pid cid ks)"
  unfolding collate_slot_def by (auto intro!: tame_rules split: prod.split option.split pyval.split)

lemma tame_collate_member [tame_rules]: "tame (collate_member pid cid)"
  unfolding collate_member_def by (auto intro!: tame_rules split: option.split)

lemma tame_collation [tame_rules]: "tame (output_collation me)"
  unfolding output_collation_def by (intro tame_rules)

lemma tame_iterationitem_step [tame_rules]: "tame (iterationitem_step me arr)"
  unfolding iterationitem_step_def by (intro tame_rules)

lemma tame_iterationitem [tame_rules]: "tame (iterationitem_invoke me)"
  unfolding iterationitem_invoke_def by (auto intro!: tame_rules split: pyval.split)

lemma tame_iterationitem_end [tame_rules]: "tame (iterationitem_end me)"
  unfolding iterationitem_end_def by (intro tame_rules)

lemma tame_begin [tame_rules]: "tame (begin_invoke rf inputs me)"
  unfolding begin_invoke_def begin_input_def by (auto intro!: tame_rules split: prod.split)

lemma tame_assign_slot [tame_rules]: "tame (assign_slot me k v)"
  by (auto simp: tame_def assign_slot_def modify_res_def get_component_obj_def not_subscriptable_def key_error_def
      intro: frozen_put split: sum.split option.splits)

lemma tame_list_operations [tame_rules]: "tame (list_operations_invoke me)"
  unfolding list_operations_invoke_def list_set_outputs_def
  by (auto intro!: tame_rules split: pyval.split option.split)

lemma tame_gather [tame_rules]: "tame (gather_objects me refs)"
  by (induction refs) (auto intro!: tame_rules)

lemma tame_data_operations [tame_rules]: "tame (data_operations_invoke me)"
  unfolding data_operations_invoke_def by (intro tame_rules)

lemma tame_set_variable [tame_rules]: "tame (modify_res (set_variable_value e v))"
  by (auto simp: tame_def modify_res_def intro: frozen_set_variable split: sum.split)

lemma tame_assigner [tame_rules]: "tame (assigner_invoke me)"
  unfolding assigner_invoke_def assign_one_def by (auto intro!: tame_rules split: pyval.split)

lemma tame_selectors [tame_rules]: "tame (aggregate_selectors me g sels)"
  by (induction sels) (auto intro!: tame_rules)

lemma tame_aggregator [tame_rules]: "tame (aggregator_invoke me)"
  unfolding aggregator_invoke_def aggregate_group_def by (intro tame_rules)

section \<open>Invoking\<close>

definition tame_env :: "run_env \<Rightarrow> bool" where
  "tame_env env = (\<forall>me args. tame (ext env me args))"

lemma tame_dispatch: "tame_env env \<Longrightarrow> tame (dispatch env me args)"
  unfolding dispatch_def Let_def tame_env_def by (intro tame_rules) auto

lemma tame_invoke: "tame_env env \<Longrightarrow> tame (invoke env me args)"
proof -
  assume env: "tame_env env"
  show ?thesis unfolding tame_def
  proof
    fix c
    let ?c1 = "on_component me (invoke_begin (now env)) c"
    obtain r d where d: "dispatch env me args ?c1 = (r, d)" by (cases "dispatch env me args ?c1")
    have "frozen c ?c1" by (rule frozen_on_component) simp
    moreover have "frozen ?c1 d" using tame_dispatch [OF env] d by (metis snd_conv tame_def)
    moreover have "frozen d (on_component me (invoke_end (now env) (case r of Inl e \<Rightarrow> Some e | Inr _ \<Rightarrow> None)) d)"
      by (rule frozen_on_component) simp
    ultimately show "frozen c (snd (invoke env me args c))"
      unfolding invoke_def Let_def d prod.case snd_conv by (blast intro: frozen_trans)
  qed
qed

lemma tame_get_input_one [tame_rules]: "tame (get_input_one me var)"
  by (auto simp: tame_def get_input_one_def frozen_put split: option.split sum.split)

lemma tame_get_input [tame_rules]: "tame (get_input me vars)"
  unfolding get_input_def by (intro tame_rules)

end
