(* ===== verification/RunInvariant.thy ===== *)
theory RunInvariant
  imports GraphShape
begin

text \<open>
  What a whole run keeps. A locale states what an invariant of the bookkeeping at one node must tolerate
  (an event, a held back message, a canvas with the same graph and path), its extension what an
  invariant of the run must, and they prove it of every stage of \<open>Canvas.run\<close>, up to the loop.
  They are interpreted for the path and the graph of the canvas and for the events between the start and
  the end of a turn. The properties of a run that is cancelled and of
  one call of \<open>invoke\<close> are here too.
\<close>

section \<open>Actions that keep the graph\<close>

definition alike :: "canvas \<Rightarrow> canvas \<Rightarrow> bool" where
  "alike c d = (graph_shape d = graph_shape c \<and> canceled d = canceled c)"

definition steady :: "'a cact \<Rightarrow> bool" where
  "steady m = (\<forall>c. alike c (snd (m c)))"

named_theorems steady_rules \<open>introduction rules for steady actions\<close>

lemma alike_refl [simp]: "alike c c"
  by (simp add: alike_def)

lemma alike_fields [simp]:
  "alike c (c\<lparr>path := p\<rparr>)" "alike c (c\<lparr>globals := g\<rparr>)" "alike c (c\<lparr>history := h\<rparr>)" "alike c (c\<lparr>run_error := e\<rparr>)"
  "alike c (c\<lparr>retrieval := r\<rparr>)" "alike c (c\<lparr>path := p, retrieval := r\<rparr>)" "alike c (c\<lparr>retrieval := r, run_error := e\<rparr>)"
  by (simp_all add: alike_def graph_shape_def)

lemma tame_steady: "tame m \<Longrightarrow> steady m"
  by (simp add: tame_def steady_def frozen_def alike_def)

lemma steady_pure [steady_rules]: "steady (ret a)" "steady (lift r)" "steady (gets f)" "steady (gets_res g)"
  by (simp_all add: tame_steady tame_rules)

lemma steady_bnd [steady_rules]: "steady m \<Longrightarrow> (\<And>a. steady (f a)) \<Longrightarrow> steady (bnd m f)"
proof -
  assume m: "steady m" and f: "\<And>a. steady (f a)"
  show "steady (bnd m f)" unfolding steady_def
  proof
    fix c
    obtain r d where "m c = (r, d)" by (cases "m c")
    moreover then have "alike c d" using m by (metis snd_conv steady_def)
    ultimately show "alike c (snd (bnd m f c))"
      using f by (cases r) (auto simp: bnd_apply steady_def alike_def)
  qed
qed

lemma steady_if [steady_rules]: "steady a \<Longrightarrow> steady b \<Longrightarrow> steady (if p then a else b)"
  by simp

lemma steady_for_each: "(\<And>x. steady (f x)) \<Longrightarrow> steady (for_each f xs)"
  by (induction xs) (auto intro: steady_rules)

lemma steady_modify [steady_rules]: "(\<And>c. alike c (f c)) \<Longrightarrow> steady (modify f)"
  by (simp add: steady_def act_defs)

lemma steady_modify_res [steady_rules]: "(\<And>c d. f c = Inr d \<Longrightarrow> alike c d) \<Longrightarrow> steady (modify_res f)"
  by (auto simp: steady_def act_defs split: sum.split)

lemma alike_append_sys_history: "append_sys_history m c = Inr d \<Longrightarrow> alike c d"
proof -
  assume d: "append_sys_history m c = Inr d"
  then obtain h where "dict_item (globals c) ''sys.history'' = Inr h"
    by (auto simp: append_sys_history_def try_then_Inr_iff)
  with d show "alike c d" by (cases h) (auto simp: append_sys_history_def no_attr_def)
qed

lemma steady_push_history [steady_rules]: "steady (push_history role v)"
  unfolding push_history_def by (intro steady_bnd steady_modify steady_modify_res) (auto intro: alike_append_sys_history)

lemma alike_map: "(\<And>k x. node_shape (f k x) = node_shape x) \<Longrightarrow> alike c (c\<lparr>comps := map (\<lambda>(k, x). (k, f k x)) (comps c)\<rparr>)"
  by (simp add: alike_def graph_shape_def split_def)

lemma node_shape_reset [simp]: "node_shape (reset_component b o') = node_shape o'"
  by (simp add: reset_component_def node_shape_def Let_def)

lemma node_shape_webhook [simp]: "node_shape (webhook_to payload o') = node_shape o'"
proof -
  have "node_shape (fold (\<lambda>(kk, vv) x. if kk = ''input'' then x else set_output kk vv x) ps x) = node_shape x" for ps x
    by (induction ps arbitrary: x) auto
  then show ?thesis by (simp add: webhook_to_def Let_def split: option.split)
qed

lemma steady_set_globals [steady_rules]: "steady (set_globals f)"
  unfolding set_globals_def by (intro steady_rules) (auto simp: try_then_Inr_iff)

lemma steady_start_turn [steady_rules]: "steady (start_turn env kwargs)"
  unfolding start_turn_def add_user_input_def reset_on_path_def apply_webhook_def canceled_error_def
  by (auto intro!: steady_rules alike_map split: pyval.split)

lemma steady_get_input [steady_rules]: "steady (get_input me vars)"
  by (intro tame_steady tame_rules)

lemma steady_select_batch [steady_rules]: "steady (select_batch env inputs i t)"
proof (induction "t - i" arbitrary: i t rule: less_induct)
  case less
  show ?case
  proof (cases "i < t")
    case True
    then have "steady (select_batch env inputs (Suc i) t)" "steady (select_batch env inputs i (t - 1))"
      by (auto intro!: less)
    then show ?thesis by (subst select_batch.simps) (auto intro!: steady_rules)
  next
    case False
    then show ?thesis by (simp add: select_batch.simps steady_rules)
  qed
qed

lemma steady_invoke: "tame_env env \<Longrightarrow> steady (invoke env me args)"
  by (intro tame_steady tame_invoke)

lemma steady_run_batch [steady_rules]: "tame_env env \<Longrightarrow> steady (run_batch env inputs i t)"
  unfolding run_batch_def canceled_error_def by (auto intro!: steady_rules steady_for_each steady_invoke)

section \<open>The stages of a run\<close>

fun turn_marker :: "event \<Rightarrow> bool" where
  "turn_marker (WorkflowStarted v) = True"
| "turn_marker (WorkflowFinished v) = True"
| "turn_marker e = False"

text \<open>An invariant that tolerates what happens at one node: events and canvases with the same graph and path.\<close>

locale node_invariant =
  fixes P :: "run_state \<Rightarrow> bool"
  assumes event_ok: "P s \<Longrightarrow> \<not> turn_marker e \<Longrightarrow> P (s\<lparr>rs_events := rs_events s @ [e]\<rparr>)"
    and partials_ok: "P s \<Longrightarrow> P (s\<lparr>rs_partials := ps\<rparr>)"
    and frozen_ok: "P s \<Longrightarrow> frozen (rs_canvas s) c \<Longrightarrow> P (s\<lparr>rs_canvas := c\<rparr>)"
begin

lemma tame_ok: "tame m \<Longrightarrow> keeps P (on_canvas m)"
  by (auto simp: keeps_def on_canvas_def tame_def split: prod.split) (metis frozen_ok snd_conv)

lemma yield_ok: "\<not> turn_marker e \<Longrightarrow> keeps P (yield_event e)"
  by (simp add: yield_event_def keeps_modify event_ok)

lemma partial_ok: "keeps P (modify (\<lambda>s. s\<lparr>rs_partials := f s\<rparr>))"
  by (simp add: keeps_modify partials_ok)

lemma reads: "keeps P get_path" "keeps P (obj_of cid)" "keeps P (parent_of cid)"
  unfolding get_path_def obj_of_def parent_of_def by (auto intro!: tame_ok tame_rules)

lemmas node_stages = keeps_bnd reads yield_ok partial_ok tame_ok keeps_ret keeps_lift keeps_gets keeps_gets_res

lemma node_finished_ok: "keeps P (node_finished cid)"
  unfolding node_finished_def by (intro node_stages) simp

lemma finish_partials_ok: "keeps P (finish_partials ps)"
  by (induction ps) (auto intro!: node_stages node_finished_ok)

lemma emit_message_ok: "keeps P (emit_message cid)"
  unfolding emit_message_def
  by (auto intro!: node_stages keeps_for_each finish_partials_ok tame_rules
      simp: stream_event_def List.map_filter_def split: pyval.split if_splits)

lemma finish_node_ok: "keeps P (finish_node cid)"
  unfolding finish_node_def by (auto intro!: node_stages node_finished_ok tame_rules)

lemma item_ended_ok: "keeps P (item_ended cid o')"
  unfolding item_ended_def by (auto intro!: node_stages tame_rules)

end

text \<open>An invariant of the run tolerates every canvas with the same graph: the path may change.\<close>

locale run_invariant = node_invariant +
  assumes canvas_ok: "P s \<Longrightarrow> alike (rs_canvas s) c \<Longrightarrow> P (s\<lparr>rs_canvas := c\<rparr>)"
begin

lemma on_canvas_ok: "steady m \<Longrightarrow> keeps P (on_canvas m)"
  by (auto simp: keeps_def on_canvas_def steady_def canvas_ok split: prod.split) (metis canvas_ok snd_conv)

lemma set_path_ok: "keeps P (set_path p)"
  unfolding set_path_def by (auto intro!: on_canvas_ok steady_rules)

lemmas stages = keeps_bnd reads set_path_ok yield_ok partial_ok on_canvas_ok keeps_ret keeps_lift keeps_gets keeps_gets_res

lemma handle_error_ok: "keeps P (handle_error cid)"
  unfolding handle_error_def Let_def by (auto intro!: stages steady_rules split: option.split)

lemma extend_alike: "alike c (extend_path ob ids c)"
proof -
  have "alike c (append_path ob i c)" for c i by (simp add: append_path_def)
  then show ?thesis
    unfolding extend_path_def by (induction ids arbitrary: c) (auto simp: alike_def)
qed

lemma append_start_ok: "keeps P (append_start ob cid)"
  unfolding append_start_def
  by (auto intro!: stages steady_rules simp: append_path_def split: option.split)

lemma extend_parent_ok: "keeps P (extend_parent_downstream ob pid)"
  unfolding extend_parent_downstream_def by (intro stages steady_rules extend_alike)

lemma next_nodes_ok: "keeps P (next_nodes ob cid)"
  unfolding next_nodes_def
  by (auto intro!: stages steady_rules item_ended_ok append_start_ok extend_parent_ok node_finished_ok extend_alike
      split: option.split)

lemma post_process_ok: "keeps P (post_process cid)"
  unfolding post_process_def
  by (auto intro!: stages emit_message_ok handle_error_ok finish_node_ok next_nodes_ok)

lemma ask_forms_ok: "tame_env env \<Longrightarrow> keeps P (ask_forms env cids a b)"
  by (induction cids arbitrary: a b) (auto intro!: stages steady_rules tame_steady tame_invoke)

lemma pause_or_go_ok: "tame_env env \<Longrightarrow> (\<And>n. keeps P (go n)) \<Longrightarrow> keeps P (pause_or_go env go to)"
  unfolding pause_or_go_def Let_def by (auto intro!: stages steady_rules ask_forms_ok split: prod.split)

lemma main_loop_ok: "tame_env env \<Longrightarrow> keeps P (main_loop env inputs fuel idx)"
  by (induction fuel arbitrary: idx)
    (auto intro!: stages keeps_for_each steady_rules post_process_ok pause_or_go_ok split: prod.split)

end

section \<open>The graph and the events of a run\<close>

interpretation still: node_invariant "\<lambda>s. frozen c0 (rs_canvas s)" for c0
  by unfold_locales (auto simp: frozen_def)

interpretation graph: run_invariant "\<lambda>s. graph_shape (rs_canvas s) = g \<and> canceled (rs_canvas s) = b" for g b
  by unfold_locales (auto simp: alike_def frozen_def)

definition quiet :: "event list \<Rightarrow> bool" where
  "quiet es = list_all (\<lambda>e. \<not> turn_marker e) es"

interpretation log: run_invariant "\<lambda>s. \<exists>mid. rs_events s = old @ mid \<and> quiet mid" for old
proof unfold_locales
  fix s e
  assume "\<exists>mid. rs_events s = old @ mid \<and> quiet mid" "\<not> turn_marker e"
  then obtain mid where "rs_events s = old @ mid" "quiet mid" by blast
  then have "rs_events s @ [e] = old @ mid @ [e]" "quiet (mid @ [e])"
    using \<open>\<not> turn_marker e\<close> by (simp_all add: quiet_def)
  then show "\<exists>mid. rs_events (s\<lparr>rs_events := rs_events s @ [e]\<rparr>) = old @ mid \<and> quiet mid" by auto
qed auto

lemma graph_finish_turn:
  "keeps (\<lambda>s. graph_shape (rs_canvas s) = g \<and> canceled (rs_canvas s) = b) (finish_turn idx)"
  unfolding finish_turn_def
  by (auto intro!: graph.stages steady_rules simp: yield_event_def keeps_modify)

lemma graph_yield: "keeps (\<lambda>s. graph_shape (rs_canvas s) = g \<and> canceled (rs_canvas s) = b) (yield_event e)"
  by (simp add: yield_event_def keeps_modify)


lemma log_main_loop:
  assumes "tame_env env" and "main_loop env inputs fuel idx s = (r, t)"
  shows "\<exists>mid. rs_events t = rs_events s @ mid \<and> quiet mid"
  by (rule keepsD [OF log.main_loop_ok [OF assms(1)] assms(2)]) (simp add: quiet_def)

lemma events_on_canvas: "on_canvas m s = (r, t) \<Longrightarrow> rs_events t = rs_events s"
  by (auto simp: on_canvas_def split: prod.splits)

lemma finish_turn_events:
  assumes "finish_turn idx s = (r, t)"
  shows "rs_events t = rs_events s \<and> (r = Inr () \<longrightarrow> truthy (run_error (rs_canvas t)))
    \<or> (\<exists>v. rs_events t = rs_events s @ [WorkflowFinished v])"
  using assms
  by (auto simp: finish_turn_def bnd_apply get_path_def set_path_def obj_of_def on_canvas_def act_defs yield_event_def
      split: prod.splits sum.splits if_splits)


definition raises_on :: "('s \<Rightarrow> bool) \<Rightarrow> ('s, 'a) act \<Rightarrow> bool" where
  "raises_on P m = (\<forall>s. P s \<longrightarrow> (\<exists>e. fst (m s) = Inl e))"

lemma raises_bnd: "keeps P m \<Longrightarrow> (\<And>a. raises_on P (f a)) \<Longrightarrow> raises_on P (bnd m f)"
  by (fastforce simp: raises_on_def keeps_def bnd_apply split: prod.split sum.split)

lemma steady_keeps: "steady m \<Longrightarrow> keeps (\<lambda>c. canceled c) m"
  by (simp add: steady_def keeps_def alike_def)

lemma raises_canceled:
  "raises_on (\<lambda>c. canceled c) (bnd (gets canceled) (\<lambda>stop. if stop then canceled_error w else m))"
  by (simp add: raises_on_def act_defs canceled_error_def)

lemma raises_steady: "steady m \<Longrightarrow> (\<And>a. raises_on (\<lambda>c. canceled c) (f a)) \<Longrightarrow> raises_on (\<lambda>c. canceled c) (bnd m f)"
  by (intro raises_bnd steady_keeps)

lemma start_turn_raises: "raises_on (\<lambda>c. canceled c) (start_turn env kwargs)"
  unfolding start_turn_def add_user_input_def reset_on_path_def apply_webhook_def
  by (rule raises_canceled | rule raises_steady, (auto intro!: steady_rules alike_map split: pyval.split)[1])+

text \<open>A turn of a cancelled task raises before it announces its start or runs any component: no event is added,
  and the path gains at most its next starting point.\<close>

theorem canceled_turn_raises:
  assumes "canceled (rs_canvas s)"
  shows "case run_canvas env fuel kwargs s of (r, t) \<Rightarrow> (\<exists>e. r = Inl e) \<and> rs_events t = rs_events s
    \<and> graph_shape (rs_canvas t) = graph_shape (rs_canvas s)"
proof -
  obtain r d where d: "start_turn env kwargs (rs_canvas s) = (r, d)" by (cases "start_turn env kwargs (rs_canvas s)")
  then obtain e where "r = Inl e" using assms start_turn_raises by (metis fst_conv raises_on_def)
  moreover have "alike (rs_canvas s) d" using d steady_start_turn by (metis snd_conv steady_def)
  ultimately show ?thesis using d by (simp add: run_canvas_def bnd_apply on_canvas_def alike_def)
qed

section \<open>One call of a component\<close>

lemma shape_component: "graph_shape d = graph_shape c \<Longrightarrow> (get_component k d = None) = (get_component k c = None)"
proof -
  have "dkeys (comps c) = map fst (graph_shape c)" for c by (simp add: graph_shape_def split_def comp_def)
  then show "graph_shape d = graph_shape c \<Longrightarrow> ?thesis"
    by (metis get_component_def map_of_eq_None_iff set_map)
qed

lemma debug_slots: "cpn_output k (x\<lparr>c_debug := q\<rparr>) = cpn_output k x" "error_of (x\<lparr>c_debug := q\<rparr>) = error_of x"
  by (simp_all add: cpn_output_def error_of_def)


section \<open>A run to evaluate\<close>

definition demo_run_env :: run_env where
  "demo_run_env = \<lparr>ext = (\<lambda>me args. self_set_output me ''content'' (PStr ''hello'')), elems = (\<lambda>me c. Inr (Some [])),
     read_files = (\<lambda>vs. Inr (PList vs)), now_text = ''now'', now = 1\<rparr>"

definition linked_component :: "string \<Rightarrow> string list \<Rightarrow> component" where
  "linked_component kind down = (demo_component kind)\<lparr>c_down := down\<rparr>"

definition demo_flow :: canvas where
  "demo_flow = demo_canvas\<lparr>path := [], comps := [(''begin'', linked_component ''Begin'' [''Message:0'']),
     (''Message:0'', linked_component ''Message'' [])]\<rparr>"

definition demo_state :: run_state where
  "demo_state = \<lparr>rs_canvas = demo_flow, rs_events = [], rs_partials = []\<rparr>"

definition demo_kwargs :: pdict where
  "demo_kwargs = [(''query'', PStr ''hi''), (''inputs'', PDict [])]"

lemma demo_tame: "tame_env demo_run_env"
  by (simp add: tame_env_def demo_run_env_def tame_rules)



theorem canceled_turn_raises_witness:
  "\<exists>e. fst (run_canvas demo_run_env 5 demo_kwargs (demo_state\<lparr>rs_canvas := demo_flow\<lparr>canceled := True\<rparr>\<rparr>)) = Inl e"
  using canceled_turn_raises [where s = "demo_state\<lparr>rs_canvas := demo_flow\<lparr>canceled := True\<rparr>\<rparr>"
      and env = demo_run_env and fuel = 5 and kwargs = demo_kwargs]
  by auto

definition failing_env :: run_env where
  "failing_env = demo_run_env\<lparr>ext := \<lambda>me args. lift (raise ValueError ''no answer'')\<rparr>"

lemma failing_tame: "tame_env failing_env"
  by (simp add: tame_env_def failing_env_def tame_rules)


end
