(* ===== verification/RunTerminates.thy ===== *)
theory RunTerminates
  imports RunInvariant
begin

text \<open>
  A run ends. On a canvas without loops, iterations, branches and jumps, whose edges have no cycle, the
  loop of \<open>Canvas.run\<close> needs at most one batch per component: with more fuel than there are components
  it never runs out. The rank of a component is the number of components reachable from it; a batch
  only leaves components of a lower rank pending.
\<close>

section \<open>Plain canvases\<close>

definition branching_kinds :: "string list" where
  "branching_kinds = [''categorize'', ''switch'', ''iteration'', ''loop'', ''iterationitem'', ''loopitem'', ''exitloop'']"

definition plain_node :: "component \<Rightarrow> bool" where
  "plain_node o' = (kind_of o' \<notin> set branching_kinds \<and> \<not> truthy (get_param ''exception_goto'' o') \<and> c_parent o' = None)"

definition plain_canvas :: "canvas \<Rightarrow> bool" where
  "plain_canvas c = list_all (\<lambda>(k, o'). plain_node o') (comps c)"

definition edges :: "canvas \<Rightarrow> (string \<times> string) set" where
  "edges c = {(x, y). (\<exists>o'. get_component x c = Some o' \<and> y \<in> set (c_down o')) \<and> get_component y c \<noteq> None}"

definition rank_in :: "canvas \<Rightarrow> string \<Rightarrow> nat" where
  "rank_in c x = card {y. (x, y) \<in> (edges c)\<^sup>+}"

lemma edges_known: "(x, y) \<in> (edges c)\<^sup>+ \<Longrightarrow> y \<in> set (dkeys (comps c))"
  by (induction rule: trancl_induct) (auto simp: edges_def get_component_def dest: map_of_SomeD intro: rev_image_eqI)

lemma edges_start_known: "(x, y) \<in> edges c \<Longrightarrow> x \<in> set (dkeys (comps c))"
  by (auto simp: edges_def get_component_def dest: map_of_SomeD intro: rev_image_eqI)

lemma reach_finite: "finite {y. (x, y) \<in> (edges c)\<^sup>+}"
  by (rule finite_subset [of _ "set (dkeys (comps c))"]) (auto dest: edges_known)

lemma rank_decreases:
  assumes "acyclic (edges c)" and "(x, y) \<in> edges c"
  shows "rank_in c y < rank_in c x"
  unfolding rank_in_def
proof (rule psubset_card_mono [OF reach_finite])
  have "{z. (y, z) \<in> (edges c)\<^sup>+} \<subseteq> {z. (x, z) \<in> (edges c)\<^sup>+}" using assms(2) by auto
  moreover have "y \<in> {z. (x, z) \<in> (edges c)\<^sup>+}" "y \<notin> {z. (y, z) \<in> (edges c)\<^sup>+}"
    using assms by (auto simp: acyclic_def)
  ultimately show "{z. (y, z) \<in> (edges c)\<^sup>+} \<subset> {z. (x, z) \<in> (edges c)\<^sup>+}" by blast
qed

lemma rank_bound:
  assumes "acyclic (edges c)" and "get_component x c \<noteq> None"
  shows "rank_in c x < length (comps c)"
proof -
  have x: "x \<in> set (dkeys (comps c))"
    using assms(2) by (auto simp: get_component_def dest: map_of_SomeD intro: rev_image_eqI)
  have "{y. (x, y) \<in> (edges c)\<^sup>+} \<subset> set (dkeys (comps c))"
    using edges_known x assms(1) by (auto simp: acyclic_def)
  then have "rank_in c x < card (set (dkeys (comps c)))"
    unfolding rank_in_def by (intro psubset_card_mono) simp
  also have "\<dots> \<le> length (comps c)" by (metis card_length length_map)
  finally show ?thesis .
qed

section \<open>What depends on the graph alone\<close>

lemma node_of_shape:
  assumes "graph_shape d = graph_shape c" and "get_component k d = Some x"
  obtains o' where "get_component k c = Some o'" "node_shape x = node_shape o'"
proof -
  have m: "map_of (graph_shape c) k = map_option node_shape (get_component k c)" for c
    unfolding graph_shape_def get_component_def by (induction "comps c" arbitrary: c) (auto simp: map_of_map)
  have "map_of (graph_shape d) k = Some (node_shape x)" by (simp add: m assms(2))
  then have "map_option node_shape (get_component k c) = Some (node_shape x)" by (simp add: assms(1) m)
  then show ?thesis using that by (metis (no_types) map_option_eq_Some)
qed

lemma plain_node_shape: "node_shape x = node_shape o' \<Longrightarrow> plain_node x = plain_node o'"
  by (simp add: node_shape_def plain_node_def kind_of_def get_param_def)

lemma plain_member: "plain_canvas c \<Longrightarrow> get_component k c = Some o' \<Longrightarrow> plain_node o'"
  by (auto simp: plain_canvas_def get_component_def list_all_iff dest!: map_of_SomeD)

lemma plain_frozen:
  assumes "plain_canvas c" and "graph_shape d = graph_shape c" and "get_component k d = Some x"
  shows "plain_node x" and "\<exists>o'. get_component k c = Some o' \<and> c_down x = c_down o'"
proof -
  obtain o' where o': "get_component k c = Some o'" "node_shape x = node_shape o'"
    using node_of_shape assms(2,3) .
  show "plain_node x" using o' plain_member [OF assms(1)] plain_node_shape by blast
  show "\<exists>o'. get_component k c = Some o' \<and> c_down x = c_down o'" using o' by (auto simp: node_shape_def)
qed

section \<open>One node\<close>

lemma obj_of_Inr_iff: "obj_of cid s = (Inr o', t) \<longleftrightarrow> t = s \<and> get_component cid (rs_canvas s) = Some o'"
  by (auto simp: obj_of_def on_canvas_def gets_res_def get_component_obj_def not_subscriptable_def split: option.splits)

lemma extend_path_grows: "\<exists>ex. path (extend_path ob ids c) = path c @ ex \<and> set ex \<subseteq> set ids"
proof (induction ids arbitrary: c)
  case Nil
  then show ?case by (simp add: extend_path_def)
next
  case (Cons i ids)
  obtain ex where ex: "path (extend_path ob ids (append_path ob i c)) = path (append_path ob i c) @ ex" "set ex \<subseteq> set ids"
    using Cons.IH by blast
  have "\<exists>y. path (append_path ob i c) = path c @ y \<and> set y \<subseteq> {i}"
    by (cases "path (append_path ob i c) = path c") (auto simp: append_path_def)
  then obtain y where "path (append_path ob i c) = path c @ y" "set y \<subseteq> {i}" by blast
  then show ?case using ex by (intro exI [of _ "y @ ex"]) (auto simp: extend_path_def)
qed

lemma handle_error_plain:
  assumes "handle_error cid s = (Inr ob, t)" and "get_component cid (rs_canvas s) = Some o'" and "plain_node o'"
  shows "\<not> ob \<and> alike (rs_canvas s) (rs_canvas t) \<and> path (rs_canvas t) = path (rs_canvas s)"
proof -
  have "obj_of cid s = (Inr o', s)" using assms(2) by (simp add: obj_of_Inr_iff)
  then show ?thesis using assms(1,3)
    by (auto simp: handle_error_def bnd_apply exception_handler_def plain_node_def Let_def
        on_canvas_def act_defs yield_event_def split: if_splits)
qed

lemma next_nodes_plain:
  assumes "get_component cid (rs_canvas s) = Some o'" and "plain_node o'"
  shows "next_nodes False cid s = on_canvas (modify (extend_path False (c_down o'))) s"
proof -
  have "obj_of cid s = (Inr o', s)" using assms(1) by (simp add: obj_of_Inr_iff)
  moreover have "item_ended cid o' = ret False" using assms(2) by (simp add: item_ended_def plain_node_def branching_kinds_def)
  moreover have "parent_of cid s = (Inr None, s)"
    using assms by (simp add: parent_of_def on_canvas_def gets_res_def get_parent_def plain_node_def)
  ultimately show ?thesis
    using assms(2) unfolding next_nodes_def
    by (simp add: bnd_apply plain_node_def branching_kinds_def ret_def)
qed

lemma post_process_plain:
  assumes plain: "plain_canvas c0" and g: "graph_shape (rs_canvas s) = graph_shape c0"
    and run: "post_process cid s = (Inr (), t)"
  shows "graph_shape (rs_canvas t) = graph_shape c0
    \<and> (\<exists>o' ex. get_component cid c0 = Some o' \<and> path (rs_canvas t) = path (rs_canvas s) @ ex \<and> set ex \<subseteq> set (c_down o'))"
proof -
  obtain x s1 ob s2 s3 where x: "get_component cid (rs_canvas s) = Some x"
    and s1: "(if kind_of x = ''message'' then emit_message cid else ret ()) s = (Inr (), s1)"
    and s2: "handle_error cid s1 = (Inr ob, s2)" and s3: "finish_node cid s2 = (Inr (), s3)"
    and t: "next_nodes ob cid s3 = (Inr (), t)"
    using run by (auto simp: post_process_def bnd_Inr_iff obj_of_Inr_iff)
  have f1: "frozen (rs_canvas s) (rs_canvas s1)"
    using s1 keepsD [OF still.emit_message_ok, of cid s "Inr ()" s1 "rs_canvas s"] by (auto simp: ret_def split: if_splits)
  have known: "\<exists>y. get_component cid (rs_canvas u) = Some y" if "graph_shape (rs_canvas u) = graph_shape c0" for u
    using that g x shape_component [of "rs_canvas u" "rs_canvas s" cid] by auto
  have g1: "graph_shape (rs_canvas s1) = graph_shape c0" using f1 g by (simp add: frozen_def)
  then obtain x1 where x1: "get_component cid (rs_canvas s1) = Some x1" using known by blast
  note e = handle_error_plain [OF s2 x1 plain_frozen(1) [OF plain g1 x1]]
  have f3: "frozen (rs_canvas s2) (rs_canvas s3)"
    using keepsD [OF still.finish_node_ok s3, of "rs_canvas s2"] by simp
  have g3: "graph_shape (rs_canvas s3) = graph_shape c0" using e f3 g1 by (simp add: frozen_def alike_def)
  then obtain x3 where x3: "get_component cid (rs_canvas s3) = Some x3" using known by blast
  have "rs_canvas t = extend_path False (c_down x3) (rs_canvas s3)"
    using t e next_nodes_plain [OF x3 plain_frozen(1) [OF plain g3 x3]] by (auto simp: on_canvas_def modify_def)
  moreover have "path (rs_canvas s3) = path (rs_canvas s)" using e f1 f3 by (simp add: frozen_def)
  moreover obtain o' where "get_component cid c0 = Some o'" "c_down x3 = c_down o'"
    using plain_frozen(2) [OF plain g3 x3] by blast
  ultimately show ?thesis
    using extend_path_grows [of False "c_down o'" "rs_canvas s3"] graph.extend_alike [of "rs_canvas s3" False "c_down o'"] g3
    by (auto simp: alike_def)
qed

section \<open>A batch\<close>

lemma drop_at_later: "idx \<le> i \<Longrightarrow> set (drop idx (drop_at i p)) \<subseteq> set (drop idx p)"
proof -
  assume "idx \<le> i"
  have "drop idx (take i p @ drop (Suc i) p) = drop idx (take i p) @ drop (idx - length (take i p)) (drop (Suc i) p)" by simp
  moreover have "set (drop idx (take i p)) \<subseteq> set (drop idx p)" by (metis drop_take set_take_subset)
  moreover have "set (drop k (drop (Suc i) p)) \<subseteq> set (drop idx p)" for k
  proof -
    have "drop k (drop (Suc i) p) = drop (k + (Suc i - idx)) (drop idx p)" using \<open>idx \<le> i\<close> by simp
    then show ?thesis by (metis set_drop_subset)
  qed
  ultimately show ?thesis by (auto simp: drop_at_def)
qed

lemma select_batch_path:
  "select_batch env inputs i t c = (Inr ps, d) \<Longrightarrow> idx \<le> i \<Longrightarrow> set (drop idx (path d)) \<subseteq> set (drop idx (path c))"
proof (induction "t - i" arbitrary: i t c d ps rule: less_induct)
  case less
  show ?case
  proof (cases "i < t")
    case False
    then show ?thesis using less.prems by (simp add: select_batch.simps ret_def)
  next
    case True
    have IH: "set (drop idx (path d')) \<subseteq> set (drop idx (path c'))"
      if "select_batch env inputs i' t' c' = (Inr qs, d')" "t' - i' < t - i" "idx \<le> i'" for i' t' c' d' qs
      using less.hyps [OF that(2,1,3)] .
    have get: "path c' = path c" if "get_input me vars c = (Inr qs, c')" for me vars qs c'
      using that tame_get_input [of me vars] by (metis frozen_def snd_conv tame_def)
    have later: "set (drop idx (path d')) \<subseteq> set (drop idx (path c'))"
      if "select_batch env inputs (Suc i) t c' = (Inr qs, d')" for c' d' qs
      using IH [OF that] True less.prems(2) by simp
    have later_c: "set (drop idx (path d')) \<subseteq> set (drop idx (path c))"
      if "select_batch env inputs (Suc i) t c' = (Inr qs, d')" "path c' = path c" for c' d' qs
      using later [OF that(1)] that(2) by simp
    have dropped: "set (drop idx (path d')) \<subseteq> set (drop idx (path c))"
      if "select_batch env inputs i (t - Suc 0) (c\<lparr>path := drop_at i (path c)\<rparr>) = (Inr qs, d')" for d' qs
    proof -
      have "t - Suc 0 - i < t - i" using True by simp
      then show ?thesis using IH [OF that] drop_at_later [OF less.prems(2), of "path c"] less.prems(2) by auto
    qed
    show ?thesis
      using less.prems(1) True by (subst (asm) select_batch.simps)
        (auto simp: bnd_Inr_iff gets_def gets_res_def lift_def modify_def ret_def dest!: get dest: later later_c dropped
          split: if_splits)
  qed
qed

lemma invoke_path: "tame_env env \<Longrightarrow> for_each (\<lambda>(me, args). invoke env me args) ps c = (r, d) \<Longrightarrow> path d = path c"
proof -
  assume env: "tame_env env" and run: "for_each (\<lambda>(me, args). invoke env me args) ps c = (r, d)"
  have "tame (for_each (\<lambda>(me, args). invoke env me args) ps)"
    by (intro tame_for_each) (simp add: split_def tame_invoke env)
  then have "frozen c (snd (for_each (\<lambda>(me, args). invoke env me args) ps c))" by (simp only: tame_def)
  then show "path d = path c" by (simp add: run frozen_def)
qed

lemma run_batch_path:
  assumes "tame_env env" and "run_batch env inputs idx t c = (Inr u, d)"
  shows "set (drop idx (path d)) \<subseteq> set (drop idx (path c)) \<and> graph_shape d = graph_shape c"
proof -
  obtain ps e where e: "select_batch env inputs idx t c = (Inr ps, e)"
      "for_each (\<lambda>(me, args). invoke env me args) ps e = (Inr (), d)"
    using assms(2) by (auto simp: run_batch_def bnd_Inr_iff gets_def canceled_error_def gets_res_def split: if_splits)
  have "graph_shape d = graph_shape c"
    using steady_run_batch [OF assms(1)] assms(2) by (metis alike_def snd_conv steady_def)
  then show ?thesis using select_batch_path [OF e(1), of idx] invoke_path [OF assms(1) e(2)] by simp
qed

section \<open>The loop\<close>

lemma started_known:
  "for_each (\<lambda>cid. bnd (obj_of cid) (\<lambda>_. yield_event (NodeStarted cid))) ids s = (Inr (), t) \<Longrightarrow>
    rs_canvas t = rs_canvas s \<and> (\<forall>cid \<in> set ids. get_component cid (rs_canvas s) \<noteq> None)"
  by (induction ids arbitrary: s) (fastforce simp: bnd_Inr_iff obj_of_Inr_iff yield_event_def modify_def ret_def)+

lemma post_process_all:
  assumes plain: "plain_canvas c0"
  shows "for_each post_process ids s = (Inr (), t) \<Longrightarrow> graph_shape (rs_canvas s) = graph_shape c0 \<Longrightarrow>
    graph_shape (rs_canvas t) = graph_shape c0 \<and> (\<exists>ex. path (rs_canvas t) = path (rs_canvas s) @ ex
      \<and> (\<forall>y \<in> set ex. \<exists>x \<in> set ids. \<exists>o'. get_component x c0 = Some o' \<and> y \<in> set (c_down o')))"
proof (induction ids arbitrary: s)
  case Nil
  then show ?case by (simp add: ret_def)
next
  case (Cons i ids)
  obtain u where u: "post_process i s = (Inr (), u)" "for_each post_process ids u = (Inr (), t)"
    using Cons.prems(1) by (auto simp: bnd_Inr_iff)
  obtain o' y where y: "graph_shape (rs_canvas u) = graph_shape c0" "get_component i c0 = Some o'"
      "path (rs_canvas u) = path (rs_canvas s) @ y" "set y \<subseteq> set (c_down o')"
    using post_process_plain [OF plain Cons.prems(2) u(1)] by blast
  obtain ex where ex: "graph_shape (rs_canvas t) = graph_shape c0" "path (rs_canvas t) = path (rs_canvas u) @ ex"
      "\<forall>y \<in> set ex. \<exists>x \<in> set ids. \<exists>o'. get_component x c0 = Some o' \<and> y \<in> set (c_down o')"
    using Cons.IH [OF u(2) y(1)] by blast
  show ?case
  proof (intro conjI exI [of _ "y @ ex"] ballI)
    fix z assume "z \<in> set (y @ ex)"
    then show "\<exists>x \<in> set (i # ids). \<exists>o'. get_component x c0 = Some o' \<and> z \<in> set (c_down o')"
      using y(2,4) ex(3) by fastforce
  qed (use ex y in simp_all)
qed

lemma loop_not_out:
  assumes env: "tame_env env" and plain: "plain_canvas c0" and acyc: "acyclic (edges c0)"
  shows "graph_shape (rs_canvas s) = graph_shape c0 \<Longrightarrow> 0 < fuel \<Longrightarrow>
    (\<forall>x \<in> set (drop idx (path (rs_canvas s))). get_component x c0 \<noteq> None \<longrightarrow> rank_in c0 x + 1 < fuel) \<Longrightarrow>
    fst (main_loop env inputs fuel idx s) \<noteq> Inr OutOfFuel"
proof (induction fuel arbitrary: idx s)
  case 0
  then show ?case by simp
next
  case (Suc fuel)
  show ?case
  proof
    assume out: "fst (main_loop env inputs (Suc fuel) idx s) = Inr OutOfFuel"
    let ?p = "path (rs_canvas s)"
    obtain t where run: "main_loop env inputs (Suc fuel) idx s = (Inr OutOfFuel, t)" using out by (metis prod.collapse)
    have idx: "idx < length ?p"
      using run by (auto simp: bnd_Inr_iff get_path_def on_canvas_def gets_def ret_def split: if_splits)
    obtain s1 s2 s3 where
        s1: "for_each (\<lambda>cid. bnd (obj_of cid) (\<lambda>_. yield_event (NodeStarted cid))) (drop idx ?p) s = (Inr (), s1)"
      and s2: "on_canvas (run_batch env inputs idx (length ?p)) s1 = (Inr (), s2)"
      and s3: "for_each post_process (drop idx (path (rs_canvas s2))) s2 = (Inr (), s3)"
      and miss: "\<not> missing_pending (drop (length (path (rs_canvas s2))) (path (rs_canvas s3))) (rs_canvas s3)"
      and rest: "main_loop env inputs fuel (length (path (rs_canvas s2))) s3 = (Inr OutOfFuel, t)"
      using run idx
      by (auto simp: pause_or_go_def bnd_Inr_iff get_path_def on_canvas_def gets_def ret_def lift_def
          not_subscriptable_def Let_def split: if_splits prod.splits)
    note known = started_known [OF s1]
    have b: "run_batch env inputs idx (length ?p) (rs_canvas s1) = (Inr (), rs_canvas s2)"
      using s2 by (auto simp: on_canvas_def split: prod.splits)
    note batch = run_batch_path [OF env b]
    have g2: "graph_shape (rs_canvas s2) = graph_shape c0" using batch known Suc.prems(1) by simp
    obtain ex where ex: "graph_shape (rs_canvas s3) = graph_shape c0" "path (rs_canvas s3) = path (rs_canvas s2) @ ex"
        "\<forall>y \<in> set ex. \<exists>x \<in> set (drop idx (path (rs_canvas s2))). \<exists>o'. get_component x c0 = Some o' \<and> y \<in> set (c_down o')"
      using post_process_all [OF plain s3 g2] by blast
    have low: "rank_in c0 x + 1 < Suc fuel" if "x \<in> set (drop idx ?p)" for x
      using Suc.prems(3) that known shape_component [OF Suc.prems(1)] by blast
    have "0 < fuel" using low [of "?p ! idx"] idx by (metis Cons_nth_drop_Suc add_is_0 list.set_intros(1) neq0_conv not_less_eq one_neq_zero)
    moreover have "rank_in c0 y + 1 < fuel" if y: "y \<in> set ex" "get_component y c0 \<noteq> None" for y
    proof -
      obtain x o' where x: "x \<in> set (drop idx (path (rs_canvas s2)))" "get_component x c0 = Some o'" "y \<in> set (c_down o')"
        using ex(3) y(1) by blast
      then have "(x, y) \<in> edges c0" using y(2) by (auto simp: edges_def)
      then have "rank_in c0 y < rank_in c0 x" by (rule rank_decreases [OF acyc])
      moreover have "x \<in> set (drop idx ?p)" using x(1) batch known by auto
      ultimately show ?thesis using low by fastforce
    qed
    ultimately have "fst (main_loop env inputs fuel (length (path (rs_canvas s2))) s3) \<noteq> Inr OutOfFuel"
      by (intro Suc.IH) (auto simp: ex)
    then show False using rest by simp
  qed
qed

text \<open>C1: A run ends: on a canvas whose components neither branch, loop nor jump on failure, and whose edges have no
  cycle, the loop takes fewer batches than there are components plus one, so with more fuel than components a run
  never runs out of it, whatever its inputs and wherever its path starts.\<close>

theorem run_terminates:
  assumes "tame_env env" and "plain_canvas (rs_canvas s)" and "acyclic (edges (rs_canvas s))"
    and "length (comps (rs_canvas s)) < fuel"
  shows "fst (run_canvas env fuel kwargs s) \<noteq> Inr OutOfFuel"
proof
  let ?c0 = "rs_canvas s"
  assume "fst (run_canvas env fuel kwargs s) = Inr OutOfFuel"
  then obtain t where run: "run_canvas env fuel kwargs s = (Inr OutOfFuel, t)" by (metis prod.collapse)
  obtain c where c: "start_turn env kwargs ?c0 = (Inr (), c)"
    using run by (auto simp: run_canvas_def bnd_Inr_iff on_canvas_def split: prod.splits)
  obtain u where u: "rs_canvas u = c\<lparr>retrieval := retrieval c @ [empty_reference], run_error := PStr []\<rparr>"
    and out: "fst (main_loop env (get_or kwargs ''inputs'' (PDict [])) fuel (length (path c) - 1) u) = Inr OutOfFuel"
  proof
    let ?u = "s\<lparr>rs_events := rs_events s @ [WorkflowStarted (get_none kwargs ''inputs'')],
      rs_canvas := c\<lparr>retrieval := retrieval c @ [empty_reference], run_error := PStr []\<rparr>\<rparr>"
    show "rs_canvas ?u = c\<lparr>retrieval := retrieval c @ [empty_reference], run_error := PStr []\<rparr>" by simp
    show "fst (main_loop env (get_or kwargs ''inputs'' (PDict [])) fuel (length (path c) - 1) ?u) = Inr OutOfFuel"
      using run c
      by (auto simp: run_canvas_def bnd_Inr_iff on_canvas_def yield_event_def get_path_def gets_def modify_def ret_def)
  qed
  have "graph_shape (rs_canvas u) = graph_shape ?c0"
    using steady_start_turn [of env kwargs] c u by (auto simp: steady_def alike_def graph_shape_def) (metis snd_conv)
  then show False
    using loop_not_out [OF assms(1-3), of u fuel "length (path c) - 1"] rank_bound [OF assms(3)] assms(4) out
    by fastforce
qed

theorem run_terminates_witness:
  "fst (run_canvas demo_run_env 3 demo_kwargs demo_state) \<noteq> Inr OutOfFuel"
proof (rule run_terminates [OF demo_tame])
  show "plain_canvas (rs_canvas demo_state)" by code_simp
  show "length (comps (rs_canvas demo_state)) < 3" by code_simp
  have "edges (rs_canvas demo_state) \<subseteq> {(''begin'', ''Message:0'')}"
    by (auto simp: edges_def get_component_def demo_state_def demo_flow_def linked_component_def demo_component_def
        split: if_splits)
  moreover have "acyclic {(''begin'', ''Message:0'')}"
    unfolding acyclic_insert by (simp add: acyclic_def)
  ultimately show "acyclic (edges (rs_canvas demo_state))" by (metis acyclic_subset)
qed

end
