(* ===== verification/Pause.thy ===== *)
theory Pause
  imports RunTerminates
begin

text \<open>
  The pause of a run at a form and the start of the next turn: what a paused path looks like, and from
  which of them the next turn continues.
\<close>

section \<open>The path of a paused run\<close>

definition paused_at :: "canvas \<Rightarrow> string list \<Rightarrow> string list \<Rightarrow> bool" where
  "paused_at c forms others = (path c = forms @ others \<and> forms \<noteq> []
     \<and> list_all (form_kind c) forms \<and> list_all (\<lambda>x. \<not> form_kind c x \<and> get_component x c \<noteq> None) others)"

lemma form_kind_shape: "graph_shape d = graph_shape c \<Longrightarrow> form_kind d = form_kind c"
proof
  fix k
  assume g: "graph_shape d = graph_shape c"
  show "form_kind d k = form_kind c k"
  proof (cases "get_component k d")
    case None
    then show ?thesis using shape_component [OF g, of k] by (simp add: form_kind_def)
  next
    case (Some x)
    obtain o' where "get_component k c = Some o'" "node_shape x = node_shape o'" using node_of_shape [OF g Some] .
    then show ?thesis using Some by (simp add: form_kind_def kind_of_def node_shape_def)
  qed
qed

lemma paused_path:
  assumes "\<exists>x \<in> set pending. is_form x"
  shows "\<exists>forms others. pause_path is_form pending = forms @ others \<and> forms \<noteq> [] \<and> list_all is_form forms
    \<and> list_all (\<lambda>x. \<not> is_form x) others"
  using assms by (intro exI) (auto simp: pause_path_def list_all_iff filter_empty_conv)

lemma paused_here:
  assumes env: "tame_env env" and go: "\<And>n u. go n u = (Inr Paused, t) \<Longrightarrow> \<exists>forms others. paused_at (rs_canvas t) forms others"
    and run: "pause_or_go env go to s = (Inr Paused, t)"
  shows "\<exists>forms others. paused_at (rs_canvas t) forms others"
proof -
  define pending where "pending = drop to (path (rs_canvas s))"
  let ?q = "pause_path (form_kind (rs_canvas s)) pending"
  have here: "\<not> missing_pending pending (rs_canvas s)"
    and either: "go to s = (Inr Paused, t) \<or> list_ex (form_kind (rs_canvas s)) pending \<and> (\<exists>r u. ask_forms env ?q [] (PStr []) s = (Inr r, u)
      \<and> path (rs_canvas t) = ?q \<and> graph_shape (rs_canvas t) = graph_shape (rs_canvas u))"
    using run
    by (auto simp: pause_or_go_def pending_def Let_def bnd_Inr_iff get_path_def on_canvas_def gets_def lift_def
        not_subscriptable_def set_path_def modify_def yield_event_def ret_def graph_shape_def split: if_splits)
  from either show ?thesis
  proof (elim disjE conjE exE)
    fix r u
    assume some: "list_ex (form_kind (rs_canvas s)) pending" and u: "ask_forms env ?q [] (PStr []) s = (Inr r, u)"
      and t: "path (rs_canvas t) = ?q" "graph_shape (rs_canvas t) = graph_shape (rs_canvas u)"
    have g: "graph_shape (rs_canvas t) = graph_shape (rs_canvas s)"
      using keepsD [OF graph.ask_forms_ok [OF env] u, of "graph_shape (rs_canvas s)" "canceled (rs_canvas s)"] t(2) by simp
    have known: "get_component x (rs_canvas t) \<noteq> None" if "x \<in> set ?q" for x
      using here that shape_component [OF g, of x] by (auto simp: missing_pending_def list_ex_iff pause_path_def)
    obtain forms others where fo: "?q = forms @ others" "forms \<noteq> []" "list_all (form_kind (rs_canvas s)) forms"
        "list_all (\<lambda>x. \<not> form_kind (rs_canvas s) x) others"
      using paused_path [of pending "form_kind (rs_canvas s)"] some by (auto simp: list_ex_iff)
    then show ?thesis using t(1) known form_kind_shape [OF g]
      by (intro exI [of _ forms] exI [of _ others]) (auto simp: paused_at_def list_all_iff)
  qed (rule go)
qed

lemma paused_loop:
  assumes "tame_env env"
  shows "main_loop env inputs fuel idx s = (Inr Paused, t) \<Longrightarrow> \<exists>forms others. paused_at (rs_canvas t) forms others"
proof (induction fuel arbitrary: idx s)
  case 0
  then show ?case by (simp add: ret_def)
next
  case (Suc fuel)
  obtain to u where "pause_or_go env (main_loop env inputs fuel) to u = (Inr Paused, t)"
    using Suc.prems by (auto simp: bnd_Inr_iff ret_def split: if_splits)
  from paused_here [OF assms _ this] show ?case using Suc.IH by blast
qed

text \<open>C4: A run that pauses leaves the pending components as its path, the forms first. The next turn continues with
  the last of them when every pending component was a form; when any other was pending too, the path ends in that one and
  the next turn starts again at the beginning. (The components are named after their kinds.)\<close>

theorem paused_run_resumes:
  assumes "tame_env env" and "run_canvas env fuel kwargs s = (Inr Paused, t)"
    and "list_all (\<lambda>k. is_form_id k = form_kind (rs_canvas t) k) (dkeys (comps (rs_canvas t)))"
  shows "\<exists>forms others. paused_at (rs_canvas t) forms others
    \<and> start_path (path (rs_canvas t)) = (if others = [] then forms else forms @ others @ [''begin''])"
proof -
  obtain m u where "main_loop env (get_or kwargs ''inputs'' (PDict [])) fuel m u = (Inr Paused, t)"
    using assms(2) by (auto simp: run_canvas_def bnd_Inr_iff ret_def split: loop_end.splits)
  then obtain forms others where fo: "paused_at (rs_canvas t) forms others" using paused_loop [OF assms(1)] by blast
  have named: "is_form_id k = form_kind (rs_canvas t) k" if "get_component k (rs_canvas t) \<noteq> None" for k
    using that assms(3) by (auto simp: list_all_iff get_component_def dest!: map_of_SomeD)
  have "is_form_id (last (forms @ others)) = (others = [])"
  proof (cases "others = []")
    case True
    then have "form_kind (rs_canvas t) (last forms)" using fo by (simp add: paused_at_def list_all_iff)
    then show ?thesis using True named [of "last forms"] by (auto simp: form_kind_def split: option.splits)
  next
    case False
    then show ?thesis using fo named [of "last others"] by (simp add: paused_at_def list_all_iff)
  qed
  then show ?thesis using fo by (auto simp: paused_at_def start_path_def)
qed

definition form_flow :: "string list \<Rightarrow> run_state" where
  "form_flow down = demo_state\<lparr>rs_canvas := demo_canvas\<lparr>path := [], comps := [(''begin'', linked_component ''Begin'' down),
     (''UserFillUp:0'', linked_component ''UserFillUp'' []), (''Message:0'', linked_component ''Message'' [])]\<rparr>\<rparr>"

theorem paused_run_resumes_witness:
  "start_path (path (rs_canvas (snd (run_canvas demo_run_env 3 demo_kwargs (form_flow [''Message:0'', ''UserFillUp:0''])))))
    = [''UserFillUp:0'', ''Message:0'', ''begin'']"
proof -
  let ?run = "run_canvas demo_run_env 3 demo_kwargs (form_flow [''Message:0'', ''UserFillUp:0''])"
  have "fst ?run = Inr Paused" by code_simp
  then obtain t where t: "?run = (Inr Paused, t)" by (metis prod.collapse)
  have "list_all (\<lambda>k. is_form_id k = form_kind (rs_canvas (snd ?run)) k) (dkeys (comps (rs_canvas (snd ?run))))" by code_simp
  moreover have p: "path (rs_canvas (snd ?run)) = [''UserFillUp:0'', ''Message:0'']" by code_simp
  moreover have "\<not> form_kind (rs_canvas (snd ?run)) ''Message:0''" by code_simp
  ultimately obtain forms others where fo: "forms @ others = [''UserFillUp:0'', ''Message:0'']"
      "paused_at (rs_canvas t) forms others"
      "start_path (path (rs_canvas t)) = (if others = [] then forms else forms @ others @ [''begin''])"
      "\<not> form_kind (rs_canvas t) ''Message:0''"
    using paused_run_resumes [OF demo_tame t] t by (auto simp: paused_at_def)
  have "others \<noteq> []"
  proof
    assume "others = []"
    then show False using fo by (simp add: paused_at_def)
  qed
  then have "start_path (path (rs_canvas t)) = (forms @ others) @ [''begin'']" using fo(3) by simp
  then show ?thesis using t fo(1) by simp
qed

end
