(* ===== verification/ControlLaws.thy ===== *)
theory ControlLaws
  imports Controls
begin

text \<open>
  What the control-flow components do, stated over reference definitions. A switch goes where the first
  condition that holds says, where a condition is evaluated as a whole on the canvas as it was at the
  start; an iteration delivers the items of its array in order; a loop is bounded by its count.
\<close>

section \<open>A canvas seen through one component's inputs\<close>

text \<open>The canvas \<open>d\<close> is \<open>c\<close> but for the inputs of the component \<open>me\<close>.\<close>

definition sees :: "string \<Rightarrow> canvas \<Rightarrow> canvas \<Rightarrow> bool" where
  "sees me c d = (globals d = globals c \<and> canceled d = canceled c \<and> node_names d = node_names c
     \<and> (\<forall>k. k \<noteq> me \<longrightarrow> get_component k d = get_component k c)
     \<and> map_option (\<lambda>o'. o'\<lparr>c_inputs := []\<rparr>) (get_component me d) = map_option (\<lambda>o'. o'\<lparr>c_inputs := []\<rparr>) (get_component me c))"

lemma sees_refl [simp]: "sees me c c"
  by (simp add: sees_def)

lemma sees_component:
  assumes "sees me c d" and "get_component k c = Some o'"
  obtains x where "get_component k d = Some x" "c_outputs x = c_outputs o'" "c_attrs x = c_attrs o'"
proof (cases "k = me")
  case True
  then obtain x where "get_component k d = Some x" "x\<lparr>c_inputs := []\<rparr> = o'\<lparr>c_inputs := []\<rparr>"
    using assms by (auto simp: sees_def)
  then show ?thesis using that by (metis component.select_convs(2,5) component.surjective component.update_convs(3))
next
  case False
  then show ?thesis using assms that by (auto simp: sees_def)
qed

lemma sees_None: "sees me c d \<Longrightarrow> get_component k c = None \<Longrightarrow> get_component k d = None"
  by (cases "k = me") (auto simp: sees_def)

lemma sees_variable: "sees me c d \<Longrightarrow> get_variable_value e d = get_variable_value e c"
proof -
  assume s: "sees me c d"
  have g: "globals d = globals c" using s by (simp add: sees_def)
  show ?thesis
  proof (cases "split_ref (strip_ref e)")
    case (Inl x)
    then show ?thesis by (simp add: get_variable_value_def g Let_def)
  next
    case (Inr p)
    obtain cid var where p: "p = (cid, var)" by (cases p)
    show ?thesis
    proof (cases "get_component cid c")
      case None
      then show ?thesis using sees_None [OF s None] Inr p by (simp add: get_variable_value_def g Let_def)
    next
      case (Some o')
      obtain x where "get_component cid d = Some x" "c_outputs x = c_outputs o'" using sees_component [OF s Some] .
      moreover then have "output_of k x = output_of k o'" for k by (simp add: output_of_def cpn_output_def output_all_def)
      ultimately show ?thesis using Some Inr p by (simp add: get_variable_value_def g Let_def)
    qed
  qed
qed

lemma set_input_inputs: "(set_input_value k v o')\<lparr>c_inputs := []\<rparr> = o'\<lparr>c_inputs := []\<rparr>"
  by (simp add: set_input_value_def Let_def)

lemma sees_set_input: "sees me c d \<Longrightarrow> sees me c (on_component me (set_input_value k v) d)"
  by (simp add: sees_def get_on_component option.map_comp comp_def set_input_inputs)

section \<open>Switch\<close>

fun somes :: "'a option list \<Rightarrow> 'a list" where
  "somes [] = []"
| "somes (None # xs) = somes xs"
| "somes (Some x # xs) = x # somes xs"

text \<open>The value of one item, and of a whole condition, on a canvas.\<close>

definition item_value :: "canvas \<Rightarrow> pyval \<Rightarrow> bool option res" where
  "item_value c item = try_then (subscript item ''cpn_id'') (\<lambda>ref.
     if \<not> truthy ref then Inr None
     else try_then (try_then (as_str ''strip'' ref) (\<lambda>e. get_variable_value e c)) (\<lambda>v.
       try_then (get_method item ''value'' (PStr [])) (\<lambda>w.
       try_then (if is_number v then try_then (py_float w) (\<lambda>r. Inr (PFloat r)) else Inr w) (\<lambda>operatee.
       try_then (try_then (subscript item ''operator'') (\<lambda>op. process_operator v (py_str op) operatee))
         (\<lambda>b. Inr (Some b))))))"

definition condition_holds :: "canvas \<Rightarrow> pyval \<Rightarrow> bool res" where
  "condition_holds c cond = try_then (try_then (subscript cond ''items'') py_iter) (\<lambda>items.
     try_then (map_res (item_value c) items) (\<lambda>vs.
       let bs = somes vs
       in if bs = [] then Inr False
          else try_then (subscript cond ''logical_operator'') (\<lambda>lop.
            Inr (if py_eq lop (PStr ''and'') then list_all id bs else list_ex id bs))))"

fun switch_target :: "canvas \<Rightarrow> pyval \<Rightarrow> pyval list \<Rightarrow> pyval res" where
  "switch_target c otherwise [] = Inr otherwise"
| "switch_target c otherwise (cond # conds) = try_then (condition_holds c cond)
     (\<lambda>b. if b then subscript cond ''to'' else switch_target c otherwise conds)"

lemma check_running: "\<not> canceled c \<Longrightarrow> check_if_canceled me c = (Inr False, c)"
  by (simp add: check_if_canceled_def)

lemma sees_running: "sees me c d \<Longrightarrow> canceled d = canceled c"
  by (simp add: sees_def)

lemma switch_item_value:
  assumes "item_value c item = Inr r" and "sees me c d"
  shows "\<exists>d'. switch_item me item d = (Inr r, d') \<and> sees me c d'"
proof -
  obtain ref where ref: "subscript item ''cpn_id'' = Inr ref" using assms(1) by (auto simp: item_value_def try_then_Inr_iff)
  show ?thesis
  proof (cases "truthy ref")
    case False
    then show ?thesis using assms ref by (auto simp: item_value_def switch_item_def bnd_apply lift_def ret_def)
  next
    case True
    show ?thesis
      using assms(1) ref True sees_set_input [OF assms(2)] sees_variable [OF assms(2)]
      by (auto simp: item_value_def switch_item_def bnd_apply lift_def ret_def read_ref_def gets_res_def
          self_set_input_def modify_def try_then_Inr_iff)
  qed
qed

lemma switch_items_value:
  assumes "map_res (item_value c) items = Inr vs" and "sees me c d" and "\<not> canceled c"
    and "somes vs = [] \<or> subscript cond ''logical_operator'' = Inr lop"
  shows "\<exists>d'. sees me c d' \<and> switch_items me cond items res d =
    (Inr (if \<not> py_eq lop (PStr ''and'') \<and> somes vs \<noteq> [] \<and> (list_ex id res \<or> list_ex id (somes vs))
          then Hit else Values (res @ somes vs)), d')"
  using assms
proof (induction items arbitrary: vs d res)
  case Nil
  then show ?case by (auto simp: ret_def)
next
  case (Cons item items)
  obtain r ws where r: "item_value c item = Inr r" "map_res (item_value c) items = Inr ws" "vs = r # ws"
    using Cons.prems(1) by (auto simp: try_then_Inr_iff)
  obtain d1 where d1: "switch_item me item d = (Inr r, d1)" "sees me c d1"
    using switch_item_value [OF r(1) Cons.prems(2)] by blast
  have run: "check_if_canceled me d = (Inr False, d)"
    using Cons.prems(2,3) by (simp add: check_running sees_running)
  show ?case
  proof (cases r)
    case None
    then have "switch_items me cond (item # items) res d = switch_items me cond items res d1"
      using run d1 by (simp add: bnd_apply)
    moreover have "somes vs = somes ws" using None r(3) by simp
    ultimately show ?thesis using Cons.IH [OF r(2) d1(2) Cons.prems(3)] Cons.prems(4) by (simp only:)
  next
    case (Some b)
    then have lop: "subscript cond ''logical_operator'' = Inr lop" using Cons.prems(4) r(3) by (simp add:)
    obtain d2 where "sees me c d2" "switch_items me cond items (res @ [b]) d1 =
        (Inr (if \<not> py_eq lop (PStr ''and'') \<and> somes ws \<noteq> [] \<and> (list_ex id (res @ [b]) \<or> list_ex id (somes ws))
          then Hit else Values ((res @ [b]) @ somes ws)), d2)"
      using Cons.IH [OF r(2) d1(2) Cons.prems(3), of "res @ [b]"] lop by blast
    then show ?thesis using d1 run Some lop r(3)
      by (cases "list_ex id (res @ [b])")
        (auto simp: bnd_apply lift_def ret_def list_ex_iff)
  qed
qed

lemma switch_to_outputs:
  assumes "get_component me d = Some x"
  shows "\<exists>d' y. switch_to me (PList ids) d = (Inr (), d') \<and> get_component me d' = Some y
    \<and> cpn_output ''_next'' y = PList ids \<and> cpn_output ''next'' y = names_of ids d"
  using assms
  by (auto simp: switch_to_def bnd_apply lift_def gets_def self_set_output_def modify_def get_on_component py_iter_def)

lemma sees_names: "sees me c d \<Longrightarrow> names_of ids d = names_of ids c"
proof -
  assume "sees me c d"
  then have "get_component_name s d = get_component_name s c" for s by (simp add: sees_def get_component_name_def)
  then show ?thesis by (simp add: names_of_def cong: pyval.case_cong)
qed

lemma switch_conditions_target:
  assumes "switch_target c otherwise conds = Inr (PList ids)" and "sees me c d" and "\<not> canceled c"
    and "get_component me c = Some o'" and "map_of (c_attrs o') ''end_cpn_ids'' = Some otherwise"
  shows "\<exists>d' y. switch_conditions me conds d = (Inr (), d') \<and> get_component me d' = Some y
    \<and> cpn_output ''_next'' y = PList ids \<and> cpn_output ''next'' y = names_of ids c"
  using assms
proof (induction conds arbitrary: d)
  case Nil
  obtain x where x: "get_component me d = Some x" "c_attrs x = c_attrs o'" using sees_component [OF Nil.prems(2,4)] .
  have "self_param me ''end_cpn_ids'' d = (Inr (PList ids), d)"
    using x Nil.prems(1,5) by (simp add: self_param_def gets_res_def get_component_obj_def param_attr_def)
  moreover have "names_of ids d = names_of ids c" using Nil.prems(2) by (rule sees_names)
  ultimately show ?case using switch_to_outputs [OF x(1), of ids] by (simp add: bnd_apply)
next
  case (Cons cond conds)
  obtain b where b: "condition_holds c cond = Inr b"
      "(if b then subscript cond ''to'' else switch_target c otherwise conds) = Inr (PList ids)"
    using Cons.prems(1) by (auto simp: try_then_Inr_iff)
  obtain items vs where iv: "try_then (subscript cond ''items'') py_iter = Inr items" "map_res (item_value c) items = Inr vs"
    using b(1) by (auto simp: condition_holds_def try_then_Inr_iff)
  obtain lop where lop: "somes vs = [] \<or> subscript cond ''logical_operator'' = Inr lop"
      "b = (somes vs \<noteq> [] \<and> (if py_eq lop (PStr ''and'') then list_all id (somes vs) else list_ex id (somes vs)))"
    using b(1) iv by (auto simp: condition_holds_def try_then_Inr_iff Let_def split: if_splits)
  obtain d1 where d1: "sees me c d1" "switch_items me cond items [] d =
      (Inr (if \<not> py_eq lop (PStr ''and'') \<and> somes vs \<noteq> [] \<and> list_ex id (somes vs) then Hit else Values (somes vs)), d1)"
    using switch_items_value [OF iv(2) Cons.prems(2,3) lop(1), of "[]"] by auto
  have run: "check_if_canceled me d = (Inr False, d)"
    using Cons.prems(2,3) by (simp add: check_running sees_running)
  obtain x where x: "get_component me d1 = Some x" using sees_component [OF d1(1) Cons.prems(4)] .
  have n: "names_of ids d1 = names_of ids c" using d1(1) by (rule sees_names)
  have all_ex: "somes vs \<noteq> [] \<Longrightarrow> list_all id (somes vs) \<Longrightarrow> list_ex id (somes vs)"
    by (cases "somes vs") auto
  show ?case
  proof (cases b)
    case True
    then have "switch_conditions me (cond # conds) d = switch_to me (PList ids) d1"
      using run iv(1) d1(2) b(2) lop(2) by (auto simp: bnd_apply lift_def ret_def split: if_splits)
    then show ?thesis using switch_to_outputs [OF x, of ids] n by simp
  next
    case False
    then have "switch_conditions me (cond # conds) d = switch_conditions me conds d1"
      using run iv(1) d1(2) lop(2) all_ex by (auto simp: bnd_apply lift_def ret_def split: if_splits)
    then show ?thesis using Cons.IH [OF _ d1(1) Cons.prems(3-5)] b(2) False by simp
  qed
qed

text \<open>C6: A switch goes where the first condition that holds says, and to its other destinations when none holds: when
  every condition up to that one can be evaluated on the canvas as it stands, the switch answers with exactly that
  destination and its names. Recording its inputs while it evaluates, stopping at the first true item of an ''or''
  and stopping at the first condition make no difference.\<close>

theorem switch_takes_first_match:
  assumes "\<not> canceled c" and "get_component me c = Some o'"
    and "map_of (c_attrs o') ''conditions'' = Some (PList conds)" and "map_of (c_attrs o') ''end_cpn_ids'' = Some otherwise"
    and "switch_target c otherwise conds = Inr (PList ids)"
  shows "\<exists>d y. switch_invoke me c = (Inr (), d) \<and> get_component me d = Some y
    \<and> cpn_output ''_next'' y = PList ids \<and> cpn_output ''next'' y = names_of ids c"
proof -
  have "switch_invoke me c = switch_conditions me conds c"
    using assms(1-3)
    by (simp add: switch_invoke_def unless_canceled_def bnd_apply check_running self_param_def gets_res_def
        get_component_obj_def param_attr_def lift_def py_iter_def)
  then show ?thesis using switch_conditions_target [OF assms(5) sees_refl assms(1,2,4)] by simp
qed

section \<open>Iteration\<close>

lemma idx_of: "get_component me c = Some o' \<Longrightarrow> get_idx me c = (Inr (c_idx o'), c)"
  by (simp add: get_idx_def gets_res_def get_component_obj_def)

lemma collation_frame:
  "keeps (\<lambda>d. canceled d = b \<and> (\<exists>x. get_component me d = Some x \<and> c_idx x = i)) (output_collation me)"
  unfolding output_collation_def collate_member_def collate_slot_def self_set_output_def self_parent_def
  by (auto intro!: keeps_bnd keeps_for_each keeps_modify simp: get_on_component
      split: option.split prod.split pyval.split)

text \<open>An iteration item in its parent, with the array the parent names.\<close>

definition iterates :: "string \<Rightarrow> pyval list \<Rightarrow> int \<Rightarrow> canvas \<Rightarrow> bool" where
  "iterates me arr i c = (\<not> canceled c \<and> (\<exists>o' pid p e. get_component me c = Some o' \<and> c_idx o' = i
     \<and> c_parent o' = Some pid \<and> pid \<noteq> [] \<and> get_component pid c = Some p
     \<and> map_of (c_attrs p) ''items_ref'' = Some (PStr e) \<and> get_variable_value e c = Inr (PList arr)))"

lemma iteration_reads:
  assumes "iterates me arr i c"
  shows "iterationitem_invoke me c =
    (if i > 0 then bnd (output_collation me) (\<lambda>_. iterationitem_step me arr) c else iterationitem_step me arr c)"
  using assms
  by (auto simp: iterates_def iterationitem_invoke_def unless_canceled_def bnd_apply check_running self_parent_def
      gets_res_def get_parent_def get_component_obj_def self_param_def param_attr_def read_ref_def as_str_def
      get_idx_def ret_def)

lemma idx_slots [simp]: "cpn_output k (x\<lparr>c_idx := i\<rparr>) = cpn_output k x"
  by (simp add: cpn_output_def)

lemma iteration_step:
  assumes "\<not> canceled d" and "get_component me d = Some x" and "c_idx x = i" and "-1 \<le> i" and "arr \<noteq> []"
  shows "\<exists>d' y. iterationitem_step me arr d = (Inr (), d') \<and> get_component me d' = Some y \<and>
    (if i < int (length arr)
     then cpn_output ''item'' y = (if i = -1 then last arr else arr ! nat i) \<and> cpn_output ''index'' y = PInt i
       \<and> c_idx y = i + 1
     else c_idx y = -1)"
  using assms
  by (auto simp: iterationitem_step_def bnd_apply idx_of unless_canceled_def check_running lift_def
      self_set_output_def set_idx_def modify_def get_on_component py_index_def output_set_output last_conv_nth
      nat_diff_distrib)

text \<open>C7: An iteration delivers the items of its array in order, each with its position, and ends after the last: at
  position i the item component answers with item i and moves on, and past the end of the array it marks the end.
  The mark is the position -1, and nothing takes it back: an iteration that is entered again starts with the last
  item of the array, at position -1.\<close>

theorem iteration_delivers_in_order:
  assumes "iterates me arr i c" and "0 \<le> i \<or> i = -1 \<and> arr \<noteq> []" and "iterationitem_invoke me c = (Inr (), d)"
  shows "\<exists>y. get_component me d = Some y \<and>
    (if i < int (length arr)
     then cpn_output ''item'' y = (if i = -1 then last arr else arr ! nat i) \<and> cpn_output ''index'' y = PInt i
       \<and> c_idx y = i + 1 \<and> iterationitem_end me d = (Inr False, d)
     else iterationitem_end me d = (Inr True, d))"
proof -
  obtain c1 x where c1: "iterationitem_step me arr c1 = (Inr (), d)" "\<not> canceled c1"
      "get_component me c1 = Some x" "c_idx x = i"
  proof (cases "i > 0")
    case False
    then show ?thesis using that [of c] assms(1,3) iteration_reads [OF assms(1)] by (auto simp: iterates_def)
  next
    case True
    then obtain r c1 where "output_collation me c = (r, c1)" by (cases "output_collation me c")
    moreover have "iterationitem_invoke me c = bnd (output_collation me) (\<lambda>_. iterationitem_step me arr) c"
      using iteration_reads [OF assms(1)] True by simp
    ultimately have o: "output_collation me c = (Inr (), c1)" "iterationitem_step me arr c1 = (Inr (), d)"
      using assms(3) by (cases r; simp add: bnd_apply)+
    have "canceled c1 = canceled c \<and> (\<exists>x. get_component me c1 = Some x \<and> c_idx x = i)"
      using keepsD [OF collation_frame o(1), of "canceled c" i] assms(1) by (auto simp: iterates_def)
    then show ?thesis using that o(2) assms(1) by (auto simp: iterates_def)
  qed
  show ?thesis
  proof (cases "arr = []")
    case True
    then show ?thesis using c1 assms(2)
      by (auto simp: iterationitem_step_def bnd_apply idx_of set_idx_def modify_def get_on_component
          iterationitem_end_def ret_def)
  next
    case False
    obtain y where y: "get_component me d = Some y" "if i < int (length arr)
       then cpn_output ''item'' y = (if i = -1 then last arr else arr ! nat i) \<and> cpn_output ''index'' y = PInt i
         \<and> c_idx y = i + 1
       else c_idx y = -1"
      using iteration_step [OF c1(2-4) _ False] c1(1) assms(2) by auto
    then show ?thesis using assms(2) by (auto simp: iterationitem_end_def bnd_apply idx_of ret_def)
  qed
qed

section \<open>Loop\<close>

text \<open>A loop item at its position, below a loop with the count \<open>m\<close>.\<close>

definition loops :: "string \<Rightarrow> int \<Rightarrow> int \<Rightarrow> canvas \<Rightarrow> bool" where
  "loops me m i c = (\<not> canceled c \<and> (\<exists>o' pid p. get_component me c = Some o' \<and> c_idx o' = i
     \<and> c_parent o' = Some pid \<and> pid \<noteq> [] \<and> pid \<noteq> me \<and> get_component pid c = Some p
     \<and> map_of (c_attrs p) ''maximum_loop_count'' = Some (PInt m)))"

lemma loop_step:
  assumes "loops me m i c"
  shows "\<exists>d. loopitem_invoke me c = (Inr (), d) \<and> loops me m (if i \<ge> m then -1 else i + 1) d"
proof -
  obtain o' pid p where o': "\<not> canceled c" "get_component me c = Some o'" "c_idx o' = i" "c_parent o' = Some pid"
      "pid \<noteq> []" "pid \<noteq> me" "get_component pid c = Some p" "map_of (c_attrs p) ''maximum_loop_count'' = Some (PInt m)"
    using assms by (auto simp: loops_def)
  have "loopitem_invoke me c = set_idx me (if i \<ge> m then -1 else i + 1) c"
    using o' by (auto simp: loopitem_invoke_def unless_canceled_def bnd_apply check_running self_parent_def gets_res_def
        get_parent_def get_component_obj_def self_param_def param_attr_def idx_of lift_def ret_def)
  moreover have "loops me m j (on_component me (\<lambda>o'. o'\<lparr>c_idx := j\<rparr>) c)" for j
    using o' by (auto simp: loops_def get_on_component)
  ultimately show ?thesis by (auto simp: set_idx_def modify_def)
qed

lemma loop_rounds:
  "loops me m i c \<Longrightarrow> 0 \<le> i \<Longrightarrow> i + int k \<le> m \<Longrightarrow>
    \<exists>d. for_each (\<lambda>_. loopitem_invoke me) (replicate k ()) c = (Inr (), d) \<and> loops me m (i + int k) d"
proof (induction k arbitrary: i c)
  case 0
  then show ?case by (simp add: ret_def)
next
  case (Suc k)
  obtain d where "loopitem_invoke me c = (Inr (), d)" "loops me m (i + 1) d"
    using loop_step [OF Suc.prems(1)] Suc.prems(3) by auto
  then show ?case using Suc.IH [of "i + 1" d] Suc.prems by (simp add: bnd_apply algebra_simps)
qed

text \<open>A loop is bounded by its count: a fresh loop item counts each round, and in the round after the last one
  allowed it marks the end, which is reported without evaluating a condition.\<close>

theorem loop_count_bounded:
  assumes "loops me m 0 c" and "0 \<le> m"
  shows "(\<forall>k \<le> nat m. \<exists>d. for_each (\<lambda>_. loopitem_invoke me) (replicate k ()) c = (Inr (), d) \<and> loops me m (int k) d)
    \<and> (\<exists>d. for_each (\<lambda>_. loopitem_invoke me) (replicate (nat m + 1) ()) c = (Inr (), d) \<and> loopitem_end me d = (Inr True, d))"
proof
  show "\<forall>k \<le> nat m. \<exists>d. for_each (\<lambda>_. loopitem_invoke me) (replicate k ()) c = (Inr (), d) \<and> loops me m (int k) d"
    using loop_rounds [OF assms(1)] assms(2) by auto
  then obtain d where d: "for_each (\<lambda>_. loopitem_invoke me) (replicate (nat m) ()) c = (Inr (), d)" "loops me m m d"
    using assms(2) by force
  obtain d' where d': "loopitem_invoke me d = (Inr (), d')" "loops me m (-1) d'" using loop_step [OF d(2)] by auto
  have app: "for_each f (xs @ ys) s = bnd (for_each f xs) (\<lambda>_. for_each f ys) s" for f :: "unit \<Rightarrow> unit cact" and xs ys s
    by (induction xs arbitrary: s) (auto simp: bnd_apply split: prod.split sum.split)
  have "replicate (nat m + 1) () = replicate (nat m) () @ [()]" by (simp add: replicate_append_same)
  then have "for_each (\<lambda>_. loopitem_invoke me) (replicate (nat m + 1) ()) c = (Inr (), d')"
    using d(1) d'(1) by (simp add: app bnd_apply ret_def)
  moreover have "loopitem_end me d' = (Inr True, d')"
    using d'(2) by (auto simp: loops_def loopitem_end_def bnd_apply idx_of ret_def)
  ultimately show "\<exists>d. for_each (\<lambda>_. loopitem_invoke me) (replicate (nat m + 1) ()) c = (Inr (), d) \<and> loopitem_end me d = (Inr True, d)"
    by blast
qed

section \<open>Concrete canvases\<close>

definition param_component :: "string \<Rightarrow> string option \<Rightarrow> pdict \<Rightarrow> component" where
  "param_component kind parent params = (demo_component kind)\<lparr>c_parent := parent, c_attrs := dupdate param_base_attrs params\<rparr>"

definition demo_condition :: "string \<Rightarrow> string \<Rightarrow> pyval" where
  "demo_condition v dest = PDict [(''logical_operator'', PStr ''or''), (''to'', PList [PStr dest]),
     (''items'', PList [PDict [(''cpn_id'', PStr ''sys.query''), (''operator'', PStr ''contains''), (''value'', PStr v)],
                        PDict [(''cpn_id'', PStr []), (''operator'', PStr ''empty''), (''value'', PStr [])]])]"

definition switch_demo :: canvas where
  "switch_demo = demo_canvas\<lparr>globals := [(''sys.query'', PStr ''a red car'')],
     comps := [(''Switch:0'', param_component ''Switch'' None
       [(''conditions'', PList [demo_condition ''blue'' ''A'', demo_condition ''RED'' ''B'', demo_condition ''car'' ''C'']),
        (''end_cpn_ids'', PList [PStr ''D''])])]\<rparr>"

theorem switch_takes_first_match_witness:
  "\<exists>d y. switch_invoke ''Switch:0'' switch_demo = (Inr (), d) \<and> get_component ''Switch:0'' d = Some y
    \<and> cpn_output ''_next'' y = PList [PStr ''B'']"
proof -
  let ?conds = "[demo_condition ''blue'' ''A'', demo_condition ''RED'' ''B'', demo_condition ''car'' ''C'']"
  have "\<not> canceled switch_demo" by code_simp
  moreover have "get_component ''Switch:0'' switch_demo = Some (param_component ''Switch'' None
      [(''conditions'', PList ?conds), (''end_cpn_ids'', PList [PStr ''D''])])"
    by code_simp
  moreover have "map_of (c_attrs (param_component ''Switch'' None [(''conditions'', PList ?conds), (''end_cpn_ids'', PList [PStr ''D''])]))
      ''conditions'' = Some (PList ?conds)"
    by code_simp
  moreover have "map_of (c_attrs (param_component ''Switch'' None [(''conditions'', PList ?conds), (''end_cpn_ids'', PList [PStr ''D''])]))
      ''end_cpn_ids'' = Some (PList [PStr ''D''])"
    by code_simp
  moreover have "switch_target switch_demo (PList [PStr ''D'']) ?conds = Inr (PList [PStr ''B''])" by code_simp
  ultimately show ?thesis by (blast dest: switch_takes_first_match)
qed

definition iteration_demo :: canvas where
  "iteration_demo = demo_canvas\<lparr>globals := [(''sys.files'', PList [PStr ''a'', PStr ''b''])],
     comps := [(''Iteration:0'', param_component ''Iteration'' None [(''items_ref'', PStr ''{sys.files}'')]),
               (''IterationItem:0'', param_component ''IterationItem'' (Some ''Iteration:0'') [])]\<rparr>"

definition ended_demo :: canvas where
  "ended_demo = on_component ''IterationItem:0'' (\<lambda>x. x\<lparr>c_idx := -1\<rparr>) iteration_demo"

lemma iteration_demo_iterates: "iterates ''IterationItem:0'' [PStr ''a'', PStr ''b''] 0 iteration_demo"
  "iterates ''IterationItem:0'' [PStr ''a'', PStr ''b''] (-1) ended_demo"
  unfolding iterates_def by (simp_all add: py_defs demo_defs ended_demo_def iteration_demo_def param_component_def)

theorem iteration_delivers_in_order_witness:
  "\<exists>d y e z. iterationitem_invoke ''IterationItem:0'' iteration_demo = (Inr (), d)
    \<and> get_component ''IterationItem:0'' d = Some y \<and> cpn_output ''item'' y = PStr ''a''
    \<and> iterationitem_invoke ''IterationItem:0'' ended_demo = (Inr (), e)
    \<and> get_component ''IterationItem:0'' e = Some z \<and> cpn_output ''item'' z = PStr ''b'' \<and> cpn_output ''index'' z = PInt (-1)"
proof -
  have "fst (iterationitem_invoke ''IterationItem:0'' iteration_demo) = Inr ()"
    "fst (iterationitem_invoke ''IterationItem:0'' ended_demo) = Inr ()" by code_simp+
  then obtain d e where d: "iterationitem_invoke ''IterationItem:0'' iteration_demo = (Inr (), d)"
    and e: "iterationitem_invoke ''IterationItem:0'' ended_demo = (Inr (), e)" by (metis prod.collapse)
  show ?thesis
    using iteration_delivers_in_order [OF iteration_demo_iterates(1) _ d]
      iteration_delivers_in_order [OF iteration_demo_iterates(2) _ e] d e by fastforce
qed

definition loop_demo :: canvas where
  "loop_demo = demo_canvas\<lparr>comps := [(''Loop:0'', param_component ''Loop'' None [(''maximum_loop_count'', PInt 2)]),
     (''LoopItem:0'', param_component ''LoopItem'' (Some ''Loop:0'') [])]\<rparr>"

theorem loop_count_bounded_witness:
  "\<exists>d. for_each (\<lambda>_. loopitem_invoke ''LoopItem:0'') (replicate 3 ()) loop_demo = (Inr (), d)
    \<and> loopitem_end ''LoopItem:0'' d = (Inr True, d)"
proof -
  have "loops ''LoopItem:0'' 2 0 loop_demo"
    unfolding loops_def by (simp add: py_defs demo_defs loop_demo_def param_component_def)
  from loop_count_bounded [OF this] show ?thesis by (simp add: numeral_3_eq_3)
qed

end
