(* ===== verification/DataLaws.thy ===== *)
theory DataLaws
  imports DataComponents "HOL-Library.Multiset"
begin

text \<open>
  What the list and object operations of a canvas compute: positions, sorting, duplicates and the
  combination of objects. Sorting is verified once over any weak order and used for numbers and for
  strings; combining is compared with a definition that copies.
\<close>

section \<open>Positions of a list\<close>

lemma slices:
  "0 \<le> n \<Longrightarrow> slice_to xs n = take (nat n) xs" "0 < n \<Longrightarrow> slice_from xs (- n) = drop (length xs - nat n) xs"
proof -
  show "0 \<le> n \<Longrightarrow> slice_to xs n = take (nat n) xs" by (auto simp: slice_to_def slice_pos_def min_def)
  assume "0 < n"
  then have "nat (max 0 (int (length xs) - n)) = length xs - nat n" by linarith
  then show "slice_from xs (- n) = drop (length xs - nat n) xs" using \<open>0 < n\<close> by (simp add: slice_from_def slice_pos_def)
qed

lemma index_in_range:
  "1 \<le> n \<Longrightarrow> n \<le> int (length xs) \<Longrightarrow> py_index xs (n - 1) = Inr (xs ! nat (n - 1))"
  "1 \<le> n \<Longrightarrow> n \<le> int (length xs) \<Longrightarrow> py_index xs (- n) = Inr (xs ! (length xs - nat n))"
  by (auto simp: py_index_def Let_def)

text \<open>Positions of a list count from 1, and from the end when negative: within the list, head and tail with
  complementary counts are the list cut in two, and the element at a position is the last of that head and, counted
  from the end, the first of that tail. Out of range the strict mode raises, and the lenient one clips a head or a tail
  and finds no element.\<close>

theorem list_positions:
  "(1 \<le> n \<and> n \<le> int (length xs) \<longrightarrow> (\<exists>front back. list_head n strict xs = Inr front \<and> list_tail n strict xs = Inr back
     \<and> length front = nat n \<and> length back = nat n \<and> prefix front xs \<and> suffix back xs
     \<and> list_nth n strict xs = Inr [last front] \<and> list_nth (- n) strict xs = Inr [hd back]
     \<and> (n < int (length xs) \<longrightarrow> (\<exists>rest. list_tail (int (length xs) - n) strict xs = Inr rest \<and> xs = front @ rest))))
   \<and> (n < 1 \<or> int (length xs) < n \<longrightarrow> list_head n True xs = strict_range_error ''head'' n
     \<and> list_tail n True xs = strict_range_error ''tail'' n
     \<and> list_head n False xs = Inr (take (nat n) xs) \<and> list_tail n False xs = Inr (drop (length xs - nat n) xs))
   \<and> (n = 0 \<or> int (length xs) < \<bar>n\<bar> \<longrightarrow> list_nth n True xs = strict_range_error ''nth'' n \<and> list_nth n False xs = Inr [])"
  (is "?within \<and> ?clip \<and> ?nth")
proof (intro conjI)
  show ?within
  proof
    assume "1 \<le> n \<and> n \<le> int (length xs)"
    then have n: "1 \<le> n" "n \<le> int (length xs)" by simp_all
    have h: "list_head n strict xs = Inr (take (nat n) xs)" "list_tail n strict xs = Inr (drop (length xs - nat n) xs)"
      using n by (auto simp: list_head_def list_tail_def slices)
    have "min (length xs) (nat n) = nat n" "take (nat n) xs \<noteq> []" using n by auto
    then have "last (take (nat n) xs) = xs ! nat (n - 1)" using n by (simp add: last_conv_nth nat_diff_distrib)
    then have "list_nth n strict xs = Inr [last (take (nat n) xs)]"
      using n index_in_range(1) [OF n] by (simp add: list_nth_def)
    moreover have "list_nth (- n) strict xs = Inr [hd (drop (length xs - nat n) xs)]"
      using n index_in_range(2) [OF n] by (auto simp: list_nth_def hd_drop_conv_nth)
    moreover have "list_tail (int (length xs) - n) strict xs = Inr (drop (nat n) xs)" if "n < int (length xs)"
    proof -
      have "length xs - nat (int (length xs) - n) = nat n" using n by linarith
      then show ?thesis using n that slices(2) [of "int (length xs) - n" xs] by (simp add: list_tail_def)
    qed
    ultimately show "\<exists>front back. list_head n strict xs = Inr front \<and> list_tail n strict xs = Inr back
       \<and> length front = nat n \<and> length back = nat n \<and> prefix front xs \<and> suffix back xs
       \<and> list_nth n strict xs = Inr [last front] \<and> list_nth (- n) strict xs = Inr [hd back]
       \<and> (n < int (length xs) \<longrightarrow> (\<exists>rest. list_tail (int (length xs) - n) strict xs = Inr rest \<and> xs = front @ rest))"
      using h n by (auto simp: take_is_prefix suffix_drop)
  qed
  show ?clip by (auto simp: list_head_def list_tail_def slices)
  show ?nth by (auto simp: list_nth_def)
qed

section \<open>Sorting\<close>

text \<open>A comparison that orders the values of interest, where values that compare neither way are alike.\<close>

locale weak_order =
  fixes lt :: "'a \<Rightarrow> 'a \<Rightarrow> bool" and ok :: "'a \<Rightarrow> bool"
  assumes lt_asym: "ok x \<Longrightarrow> ok y \<Longrightarrow> lt x y \<Longrightarrow> \<not> lt y x"
    and lt_split: "ok x \<Longrightarrow> ok y \<Longrightarrow> ok z \<Longrightarrow> lt x z \<Longrightarrow> lt x y \<or> lt y z"
begin

definition tied :: "'a \<Rightarrow> 'a \<Rightarrow> bool" where
  "tied x y = (\<not> lt x y \<and> \<not> lt y x)"

lemma mset_insert: "mset (insert_by lt x xs) = add_mset x (mset xs)"
  by (induction xs) auto

lemma mset_sort: "mset (sort_by lt xs) = mset xs"
  by (induction xs) (simp_all add: sort_by_def mset_insert)

lemma set_insert: "set (insert_by lt x xs) = insert x (set xs)"
  by (induction xs) auto

lemma set_sort: "set (sort_by lt xs) = set xs"
  by (metis mset_sort set_mset_mset)

lemma insert_sorted:
  "ok x \<Longrightarrow> (\<forall>y \<in> set xs. ok y) \<Longrightarrow> sorted_wrt (\<lambda>a b. \<not> lt b a) xs \<Longrightarrow> sorted_wrt (\<lambda>a b. \<not> lt b a) (insert_by lt x xs)"
proof (induction xs)
  case Nil
  then show ?case by simp
next
  case (Cons y ys)
  show ?case
  proof (cases "lt y x")
    case True
    then show ?thesis using Cons lt_asym by (auto simp: set_insert)
  next
    case False
    then have "\<not> lt z x" if "z \<in> set ys" for z using Cons.prems that lt_split [of z y x] by auto
    then show ?thesis using Cons False by auto
  qed
qed

lemma sort_sorted: "\<forall>x \<in> set xs. ok x \<Longrightarrow> sorted_wrt (\<lambda>a b. \<not> lt b a) (sort_by lt xs)"
proof (induction xs)
  case Nil
  then show ?case by (simp add: sort_by_def)
next
  case (Cons x xs)
  then show ?case using insert_sorted [of x "sort_by lt xs"] set_sort by (simp add: sort_by_def)
qed

text \<open>A value is inserted before the values it ties with.\<close>

lemma insert_stable:
  "ok x \<Longrightarrow> ok w \<Longrightarrow> (\<forall>y \<in> set xs. ok y) \<Longrightarrow>
    filter (tied w) (insert_by lt x xs) = (if tied w x then x # filter (tied w) xs else filter (tied w) xs)"
proof (induction xs)
  case Nil
  then show ?case by simp
next
  case (Cons y ys)
  have "\<not> tied w y" if "lt y x" "tied w x"
    using that lt_split Cons.prems unfolding tied_def by (metis list.set_intros(1))
  then show ?case using Cons by auto
qed

lemma sort_stable: "\<forall>x \<in> set xs. ok x \<Longrightarrow> ok w \<Longrightarrow> filter (tied w) (sort_by lt xs) = filter (tied w) xs"
proof (induction xs)
  case Nil
  then show ?case by (simp add: sort_by_def)
next
  case (Cons x xs)
  then show ?case using insert_stable [of x w "sort_by lt xs"] set_sort by (simp add: sort_by_def)
qed

end

lemma less_numbers:
  "py_num v = Some a \<Longrightarrow> py_num w = Some b \<Longrightarrow> py_cmp CLt v w = Inr (a < b)"
  by (cases v; cases w) auto

definition number_value :: "pyval \<Rightarrow> bool" where
  "number_value v = (py_num v \<noteq> None)"

definition text_value :: "pyval \<Rightarrow> bool" where
  "text_value v = (\<exists>s. v = PStr s)"

interpretation numbers: weak_order py_less number_value
  by unfold_locales (auto simp: py_less_def number_value_def less_numbers)

interpretation texts: weak_order py_less text_value
  by unfold_locales (auto simp: py_less_def text_value_def)

lemma no_order_error:
  "(\<And>v w. v \<in> set vs \<Longrightarrow> w \<in> set vs \<Longrightarrow> \<exists>b. py_cmp CLt w v = Inr b) \<Longrightarrow> first_order_error vs = None"
proof (induction vs)
  case Nil
  then show ?case by simp
next
  case (Cons v vs)
  have "order_error v ws = None" if "set ws \<subseteq> set vs" for ws
    using that Cons.prems
  proof (induction ws)
    case (Cons w ws)
    then obtain b where "py_cmp CLt w v = Inr b" by force
    then show ?case using Cons by simp
  qed simp
  then show ?case using Cons by simp
qed

definition alike_in_order :: "pyval \<Rightarrow> pyval \<Rightarrow> bool" where
  "alike_in_order v w = (\<not> py_less v w \<and> \<not> py_less w v)"

lemma sort_by_laws:
  assumes ok: "weak_order py_less ok" and xs: "\<forall>x \<in> set xs. ok x"
  shows "mset (sort_by py_less xs) = mset xs" "sorted_wrt (\<lambda>a b. \<not> py_less b a) (sort_by py_less xs)"
    "ok w \<Longrightarrow> filter (alike_in_order w) (sort_by py_less xs) = filter (alike_in_order w) xs"
proof -
  show "mset (sort_by py_less xs) = mset xs" by (rule weak_order.mset_sort [OF ok])
  show "sorted_wrt (\<lambda>a b. \<not> py_less b a) (sort_by py_less xs)" by (rule weak_order.sort_sorted [OF ok xs])
  have "weak_order.tied py_less w = alike_in_order w" by (simp add: fun_eq_iff weak_order.tied_def [OF ok] alike_in_order_def)
  then show "ok w \<Longrightarrow> filter (alike_in_order w) (sort_by py_less xs) = filter (alike_in_order w) xs"
    using weak_order.sort_stable [OF ok xs, of w] by simp
qed

text \<open>Sorting a list of numbers, or of strings, never fails: the result has the elements of the list, each as often,
  it ascends (or descends, as asked), and elements that compare neither way keep their order.\<close>

theorem list_sort_orders:
  assumes "list_all number_value xs \<or> list_all text_value xs"
  shows "\<exists>ys. list_sort m xs = Inr ys \<and> mset ys = mset xs
    \<and> sorted_wrt (\<lambda>a b. if py_eq (py_or m (PStr ''asc'')) (PStr ''desc'') then \<not> py_less a b else \<not> py_less b a) ys
    \<and> (\<forall>w \<in> set xs. filter (alike_in_order w) ys = filter (alike_in_order w) xs)"
proof -
  obtain ok where ok: "weak_order py_less ok" "\<forall>x \<in> set xs. ok x"
      "\<And>v w. ok v \<Longrightarrow> ok w \<Longrightarrow> \<exists>b. py_cmp CLt w v = Inr b" "\<And>v. ok v \<Longrightarrow> \<not> is_dict v"
  proof -
    have "\<exists>b. py_cmp CLt w v = Inr b" if "number_value v" "number_value w" for v w
      using that less_numbers by (auto simp: number_value_def)
    moreover have "\<exists>b. py_cmp CLt w v = Inr b" if "text_value v" "text_value w" for v w
      using that by (auto simp: text_value_def)
    moreover have "\<not> is_dict v" if "number_value v \<or> text_value v" for v
      using that by (cases v) (auto simp: number_value_def text_value_def)
    ultimately show ?thesis
      using assms that [OF numbers.weak_order_axioms] that [OF texts.weak_order_axioms] by (auto simp: list_all_iff)
  qed
  have none: "first_order_error xs = None" using ok(2,3) by (intro no_order_error) blast
  let ?rv = "py_eq (py_or m (PStr ''asc'')) (PStr ''desc'')"
  have "list_sort m xs = Inr (if ?rv then rev (sort_by py_less (rev xs)) else sort_by py_less xs)"
  proof (cases xs)
    case Nil
    then show ?thesis by (simp add: list_sort_def sort_by_def)
  next
    case (Cons f fs)
    then have "\<not> is_dict f" using ok(2,4) by simp
    then show ?thesis using Cons none by (simp add: list_sort_def py_sorted_def Let_def)
  qed
  moreover note sort_by_laws [OF ok(1,2)]
  moreover have "\<forall>x \<in> set (rev xs). ok x" using ok(2) by simp
  note sort_by_laws [OF ok(1) this]
  ultimately show ?thesis using ok(2) by (auto simp: sorted_wrt_rev simp flip: rev_filter)
qed

section \<open>Duplicates\<close>

lemma drop_loop_subseq: "subseq (drop_duplicates_loop seen xs) xs"
  by (induction xs arbitrary: seen) (auto simp: Let_def)

lemma py_in_append: "py_in v (xs @ ys) = (py_in v xs \<or> py_in v ys)"
  by (simp add: py_in_def)

lemma drop_loop_covers:
  "x \<in> set xs \<Longrightarrow> py_in (hashable x) (seen @ map hashable (drop_duplicates_loop seen xs)) \<or> x \<in> set (drop_duplicates_loop seen xs)"
proof (induction xs arbitrary: seen)
  case Nil
  then show ?case by simp
next
  case (Cons y ys)
  show ?case
  proof (cases "py_in (hashable y) seen")
    case True
    then show ?thesis using Cons by (cases "x = y") (auto simp: py_in_append)
  next
    case False
    then show ?thesis using Cons.IH [of "seen @ [hashable y]"] Cons.prems by (auto simp: py_in_append Let_def)
  qed
qed

lemma drop_loop_fresh:
  "sorted_wrt (\<lambda>a b. \<not> py_eq (hashable b) (hashable a)) (drop_duplicates_loop seen xs)
   \<and> (\<forall>x \<in> set (drop_duplicates_loop seen xs). \<not> py_in (hashable x) seen)"
proof (induction xs arbitrary: seen)
  case Nil
  then show ?case by simp
next
  case (Cons y ys)
  show ?case using Cons.IH [of "seen @ [hashable y]"] Cons.IH [of seen] by (auto simp: py_in_append py_in_def Let_def)
qed

lemma drop_loop_id:
  "sorted_wrt (\<lambda>a b. \<not> py_eq (hashable b) (hashable a)) xs \<Longrightarrow> (\<forall>x \<in> set xs. \<not> py_in (hashable x) seen) \<Longrightarrow>
    drop_duplicates_loop seen xs = xs"
  by (induction xs arbitrary: seen) (auto simp: py_in_append py_in_def)

text \<open>Dropping duplicates keeps the order of what it keeps, keeps no two elements with equal keys, drops an element
  only when one with an equal key is kept, and does nothing the second time.\<close>

theorem drop_duplicates_correct:
  "subseq (drop_duplicates xs) xs
   \<and> sorted_wrt (\<lambda>a b. \<not> py_eq (hashable b) (hashable a)) (drop_duplicates xs)
   \<and> (\<forall>x \<in> set xs. x \<in> set (drop_duplicates xs) \<or> (\<exists>y \<in> set (drop_duplicates xs). py_eq (hashable x) (hashable y)))
   \<and> drop_duplicates (drop_duplicates xs) = drop_duplicates xs"
proof -
  note fresh = drop_loop_fresh [of "[]" xs]
  have "\<exists>y \<in> set (drop_duplicates xs). py_eq (hashable x) (hashable y)"
    if "x \<in> set xs" "x \<notin> set (drop_duplicates xs)" for x
    using drop_loop_covers [of x xs "[]"] that by (auto simp: drop_duplicates_def py_in_def list_ex_iff)
  moreover have "drop_duplicates (drop_duplicates xs) = drop_duplicates xs"
    unfolding drop_duplicates_def by (rule drop_loop_id) (use fresh in auto)
  ultimately show ?thesis using fresh drop_loop_subseq by (auto simp: drop_duplicates_def)
qed

section \<open>Combining objects\<close>

text \<open>What combining promises: the values of a key in the order of the objects, joined one after the other.\<close>

definition values_at :: "string \<Rightarrow> pdict list \<Rightarrow> pyval list" where
  "values_at k objs = List.map_filter (\<lambda>d. map_of d k) objs"

fun merge_values :: "pyval \<Rightarrow> pyval list \<Rightarrow> pyval" where
  "merge_values v [] = v"
| "merge_values v (w # ws) = merge_values (PList (joined v w)) ws"

definition first_with :: "string \<Rightarrow> pdict list \<Rightarrow> nat" where
  "first_with k objs = length (takeWhile (\<lambda>d. map_of d k = None) objs)"

lemma merge_values_snoc: "merge_values v (ws @ [w]) = PList (joined (merge_values v ws) w)"
  by (induction ws arbitrary: v) simp_all

text \<open>The visits of the loop: the position of an object, a key and its value there.\<close>

fun visits :: "nat \<Rightarrow> pdict list \<Rightarrow> (nat \<times> string \<times> pyval) list" where
  "visits i [] = []"
| "visits i (d # ds) = map (\<lambda>(k, v). (i, k, v)) d @ visits (Suc i) ds"

lemma combine_visits:
  "combine_objects i ds st = fold (\<lambda>(i, kv). combine_step i kv) (visits i ds) st"
proof (induction ds arbitrary: i st)
  case (Cons d ds)
  have "fold (combine_step i) d st = fold (\<lambda>(i, kv). combine_step i kv) (map (\<lambda>(k, v). (i, k, v)) d) st" for d st
    by (induction d arbitrary: st) auto
  then show ?case using Cons by simp
qed simp

definition visits_of :: "string \<Rightarrow> (nat \<times> string \<times> pyval) list \<Rightarrow> (nat \<times> pyval) list" where
  "visits_of k ps = map (\<lambda>(i, k', v). (i, v)) (filter (\<lambda>(i, k', v). k' = k) ps)"

lemma visits_of_snoc: "visits_of k (ps @ [(i, k', v)]) = visits_of k ps @ (if k' = k then [(i, v)] else [])"
  by (simp add: visits_of_def)

text \<open>What the loop has built of one key after some visits, the first of them at object \<open>j\<close>.\<close>

definition entry_built :: "pdict list \<Rightarrow> (string, entry) dict \<times> pdict list \<Rightarrow> string \<Rightarrow> nat \<Rightarrow> pyval \<Rightarrow> pyval list \<Rightarrow> entry \<Rightarrow> bool" where
  "entry_built objs st k j v rest e = (j < length objs \<and> map_of (fst st) k = Some e
     \<and> entry_value (snd st) k e = merge_values v rest
     \<and> (rest = [] \<or> is_list v \<longrightarrow> e = Shared j \<and> map_of (snd st ! j) k \<noteq> None)
     \<and> (rest \<noteq> [] \<and> \<not> is_list v \<longrightarrow> (\<exists>xs. e = Fresh (PList xs)))
     \<and> (\<forall>i < length objs. i \<noteq> j \<or> \<not> is_list v \<longrightarrow> map_of (snd st ! i) k = map_of (objs ! i) k))"

definition entry_ok :: "pdict list \<Rightarrow> (string, entry) dict \<times> pdict list \<Rightarrow> string \<Rightarrow> (nat \<times> pyval) list \<Rightarrow> bool" where
  "entry_ok objs st k vs = (case vs of
     [] \<Rightarrow> map_of (fst st) k = None \<and> (\<forall>i < length objs. map_of (snd st ! i) k = map_of (objs ! i) k)
   | (j, v) # rest \<Rightarrow> \<exists>e. entry_built objs st k j v (map snd rest) e)"

lemma merge_is_list: "is_list v \<Longrightarrow> is_list (merge_values v ws)"
  by (induction v ws rule: merge_values.induct) auto

lemma entry_ok_other:
  assumes "entry_ok objs st q vs" and "map_of (fst st') q = map_of (fst st) q"
    and same: "\<And>i. i < length objs \<Longrightarrow> map_of (snd st' ! i) q = map_of (snd st ! i) q"
  shows "entry_ok objs st' q vs"
proof (cases vs)
  case Nil
  then show ?thesis using assms by (simp add: entry_ok_def)
next
  case (Cons p rest)
  obtain j v where p: "p = (j, v)" by (cases p)
  obtain e where "entry_built objs st q j v (map snd rest) e" using assms(1) Cons p by (auto simp: entry_ok_def)
  note e = this [unfolded entry_built_def]
  have "entry_value (snd st') q e = entry_value (snd st) q e"
    using e same by (cases "map snd rest = [] \<or> is_list v") (auto simp: entry_value_def get_or_def)
  then have "entry_built objs st' q j v (map snd rest) e" using e assms(2) same by (simp add: entry_built_def)
  then show ?thesis using Cons p by (auto simp: entry_ok_def)
qed

lemma is_list_iff: "is_list v \<longleftrightarrow> (\<exists>xs. v = PList xs)"
  by (cases v) auto

lemma combine_step_same:
  assumes ok: "entry_ok objs (result, objs') k vs" and len: "length objs' = length objs"
    and i: "i < length objs" "map_of (objs ! i) k = Some v"
  shows "entry_ok objs (combine_step i (k, v) (result, objs')) k (vs @ [(i, v)])"
proof (cases vs)
  case Nil
  then have "entry_built objs (dset k (Shared i) result, objs') k i v [] (Shared i)"
    using ok i by (simp add: entry_ok_def entry_built_def entry_value_def dget_dset get_or_def)
  then show ?thesis using Nil ok by (auto simp: entry_ok_def)
next
  case (Cons p rest)
  obtain j w where p: "p = (j, w)" by (cases p)
  obtain e where "entry_built objs (result, objs') k j w (map snd rest) e" using ok Cons p by (auto simp: entry_ok_def)
  note e = this [unfolded entry_built_def, simplified]
  note snoc = merge_values_snoc [of w "map snd rest" v]
  have "\<exists>e'. entry_built objs (combine_step i (k, v) (result, objs')) k j w (map snd rest @ [v]) e'"
  proof (cases "is_list w")
    case True
    then obtain xs where xs: "merge_values w (map snd rest) = PList xs" using merge_is_list is_list_iff by blast
    have "combine_step i (k, v) (result, objs') = (result, objs'[j := dset k (PList (joined (PList xs) v)) (objs' ! j)])"
    proof -
      have "map_of result k = Some (Shared j)" "entry_value objs' k (Shared j) = PList xs" using e True xs by auto
      then show ?thesis by (simp add: Let_def)
    qed
    then show ?thesis using e True xs snoc len
      by (auto simp: entry_built_def entry_value_def dget_dset get_or_def nth_list_update)
  next
    case False
    have "combine_step i (k, v) (result, objs') = (dset k (Fresh (PList (joined (merge_values w (map snd rest)) v))) result, objs')"
    proof (cases "rest = []")
      case True
      then show ?thesis using e False by (cases w) (auto simp: Let_def)
    next
      case rest: False
      then obtain xs where "e = Fresh (PList xs)" using e False by auto
      then have "map_of result k = Some (Fresh (PList xs))" "merge_values w (map snd rest) = PList xs"
        using e by (auto simp: entry_value_def)
      then show ?thesis by (simp add: Let_def entry_value_def)
    qed
    then show ?thesis using e False snoc by (auto simp: entry_built_def entry_value_def dget_dset)
  qed
  then show ?thesis using Cons p by (simp add: entry_ok_def del: combine_step.simps)
qed

lemma combine_step_other:
  assumes "q \<noteq> k"
  shows "map_of (fst (combine_step i (k, v) (result, objs'))) q = map_of result q"
    "map_of (snd (combine_step i (k, v) (result, objs')) ! n) q = map_of (objs' ! n) q"
    "length (snd (combine_step i (k, v) (result, objs'))) = length objs'"
proof -
  have "(objs'[j := dset k y (objs' ! j)]) ! n = (if n = j \<and> j < length objs' then dset k y (objs' ! j) else objs' ! n)" for j y
    by (cases "j < length objs'") (auto simp: nth_list_update list_update_beyond)
  then show "map_of (fst (combine_step i (k, v) (result, objs'))) q = map_of result q"
    "map_of (snd (combine_step i (k, v) (result, objs')) ! n) q = map_of (objs' ! n) q"
    "length (snd (combine_step i (k, v) (result, objs'))) = length objs'"
    using assms by (auto simp: Let_def dget_dset split: option.split pyval.split entry.split)
qed

lemma combine_visits_ok:
  assumes "\<forall>(i, k, v) \<in> set ps. i < length objs \<and> map_of (objs ! i) k = Some v"
  shows "length (snd (fold (\<lambda>(i, kv). combine_step i kv) ps ([], objs))) = length objs
    \<and> (\<forall>k. entry_ok objs (fold (\<lambda>(i, kv). combine_step i kv) ps ([], objs)) k (visits_of k ps))"
  using assms
proof (induction ps rule: rev_induct)
  case Nil
  then show ?case by (simp add: visits_of_def entry_ok_def)
next
  case (snoc p ps)
  obtain i k v where p: "p = (i, k, v)" by (cases p)
  obtain result objs' where st: "fold (\<lambda>(i, kv). combine_step i kv) ps ([], objs) = (result, objs')" by fastforce
  have ok: "length objs' = length objs" "\<And>q. entry_ok objs (result, objs') q (visits_of q ps)"
    using snoc st by auto
  have "length (snd (combine_step i (k, v) (result, objs'))) = length objs"
    using ok(1) by (auto simp: Let_def split: option.split pyval.split entry.split)
  moreover have "entry_ok objs (combine_step i (k, v) (result, objs')) q (visits_of q (ps @ [(i, k, v)]))" for q
  proof (cases "q = k")
    case True
    then show ?thesis using combine_step_same [OF ok(2) ok(1), of i k v] snoc.prems p by (simp add: visits_of_snoc del: combine_step.simps)
  next
    case False
    then show ?thesis
      using entry_ok_other [OF ok(2) [of q], of "combine_step i (k, v) (result, objs')"] combine_step_other [OF False]
      by (simp add: visits_of_snoc del: combine_step.simps)
  qed
  ultimately show ?case by (simp add: st p del: combine_step.simps)
qed

lemma pairs_of_key: "distinct (dkeys d) \<Longrightarrow> filter (\<lambda>(k', v). k' = k) d = (case map_of d k of None \<Rightarrow> [] | Some v \<Rightarrow> [(k, v)])"
proof (induction d)
  case (Cons p d)
  obtain k' v where p: "p = (k', v)" by (cases p)
  show ?case
  proof (cases "k' = k")
    case True
    then have "filter (\<lambda>(q, v). q = k) d = []" using Cons.prems p by (force simp: filter_empty_conv)
    then show ?thesis using True p by simp
  next
    case False
    then show ?thesis using Cons p by simp
  qed
qed simp

lemma visits_of_visits:
  "\<forall>d \<in> set ds. distinct (dkeys d) \<Longrightarrow> map snd (visits_of k (visits n ds)) = values_at k ds
    \<and> (visits_of k (visits n ds) \<noteq> [] \<longrightarrow> fst (hd (visits_of k (visits n ds))) = n + first_with k ds)"
proof (induction ds arbitrary: n)
  case Nil
  then show ?case by (simp add: visits_of_def values_at_def List.map_filter_def)
next
  case (Cons d ds)
  have "visits_of k (map (\<lambda>(k, v). (n, k, v)) d) = map (\<lambda>(k, v). (n, v)) (filter (\<lambda>(k', v). k' = k) d)"
    by (induction d) (auto simp: visits_of_def)
  also have "\<dots> = (case map_of d k of None \<Rightarrow> [] | Some v \<Rightarrow> [(n, v)])"
    using pairs_of_key [of d k] Cons.prems by (simp split: option.split)
  finally have "visits_of k (visits n (d # ds)) = (case map_of d k of None \<Rightarrow> [] | Some v \<Rightarrow> [(n, v)]) @ visits_of k (visits (Suc n) ds)"
    by (simp add: visits_of_def)
  then show ?case using Cons.IH [of "Suc n"] Cons.prems
    by (cases "map_of d k") (auto simp: values_at_def List.map_filter_def first_with_def)
qed

lemma visits_members:
  "(i, k, v) \<in> set (visits n ds) \<Longrightarrow> n \<le> i \<and> i - n < length ds \<and> (k, v) \<in> set (ds ! (i - n))"
proof (induction ds arbitrary: n)
  case (Cons d ds)
  show ?case
  proof (cases "(i, k, v) \<in> set (visits (Suc n) ds)")
    case True
    then have "Suc n \<le> i" "i - Suc n < length ds" "(k, v) \<in> set (ds ! (i - Suc n))" using Cons.IH by blast+
    then show ?thesis by (auto simp: nth_Cons')
  next
    case False
    then show ?thesis using Cons.prems by auto
  qed
qed simp


section \<open>Concrete lists\<close>

theorem list_positions_witness:
  "\<exists>front. list_head 2 True [PInt 5, PInt 6, PInt 7] = Inr front \<and> list_nth 2 True [PInt 5, PInt 6, PInt 7] = Inr [last front]
    \<and> list_nth 4 True [PInt 5, PInt 6, PInt 7] = strict_range_error ''nth'' 4"
proof -
  have "1 \<le> (2::int) \<and> 2 \<le> int (length [PInt 5, PInt 6, PInt 7])" by simp
  moreover have "(4::int) = 0 \<or> int (length [PInt 5, PInt 6, PInt 7]) < \<bar>4\<bar>" by simp
  ultimately show ?thesis
    using list_positions [of 2 "[PInt 5, PInt 6, PInt 7]" True] list_positions [of 4 "[PInt 5, PInt 6, PInt 7]" True] by blast
qed

theorem drop_duplicates_correct_witness:
  "drop_duplicates (drop_duplicates [PInt 1, PBool True, PStr ''a'', PFloat 1]) = drop_duplicates [PInt 1, PBool True, PStr ''a'', PFloat 1]
    \<and> subseq (drop_duplicates [PInt 1, PBool True, PStr ''a'', PFloat 1]) [PInt 1, PBool True, PStr ''a'', PFloat 1]"
  using drop_duplicates_correct [of "[PInt 1, PBool True, PStr ''a'', PFloat 1]"] by blast

theorem list_sort_orders_witness:
  "\<exists>ys. list_sort (PStr ''desc'') [PInt 2, PFloat 3, PBool True] = Inr ys \<and> mset ys = mset [PInt 2, PFloat 3, PBool True]"
proof -
  have "list_all number_value [PInt 2, PFloat 3, PBool True]" by (simp add: number_value_def)
  then show ?thesis using list_sort_orders [of "[PInt 2, PFloat 3, PBool True]" "PStr ''desc''"] by blast
qed


end
