(* ===== verification/DslMigration.thy ===== *)
theory DslMigration
  imports PyRegex
begin

text \<open>
  The migration of stored canvases (\<open>agent/dsl_migration.py\<close>): component ids, component
  names, references and graph nodes of the old chunkers are rewritten to the current
  names. Ids of another class than strings map to themselves, lists and objects raise, as
  they do as keys of a dictionary.
\<close>

section \<open>The renaming\<close>

definition component_renames :: "(string, string) dict" where
  "component_renames = [(''Splitter'', ''TokenChunker''), (''HierarchicalMerger'', ''TitleChunker''),
     (''PDFGenerator'', ''DocGenerator'')]"

definition node_type_renames :: "(string, string) dict" where
  "node_type_renames = [(''splitterNode'', ''chunkerNode'')]"

text \<open>\<open>(\{+\s*)([A-Za-z0-9:_-]+)(@[A-Za-z0-9_.-]+)(\s*\}+)\<close>.\<close>

definition dsl_ref_rx :: rx where
  "dsl_ref_rx = RSeq (RGroup 1 (RSeq (RPlus (RSet ''{'')) (RStar (RSet ascii_space))))
     (RSeq (RGroup 2 (RPlus (RSet (upper_lower_digit @ '':_-''))))
     (RSeq (RGroup 3 (RSeq (RSet ''@'') (RPlus (RSet (upper_lower_digit @ ''_.-'')))))
       (RGroup 4 (RSeq (RStar (RSet ascii_space)) (RPlus (RSet ''}''))))))"

definition renamed_id :: "string \<Rightarrow> string" where
  "renamed_id cid = (case find_map (\<lambda>(old, new).
       if starts_with cid (old @ '':'') then Some (new @ '':'' @ drop (length old + 1) cid) else None) component_renames
     of Some new_id \<Rightarrow> new_id | None \<Rightarrow> cid)"

definition component_id_map :: "pdict \<Rightarrow> (string, string) dict" where
  "component_id_map components = map (\<lambda>(cid, c). (cid, renamed_id cid)) components"

text \<open>\<open>m.get(s, s)\<close>.\<close>

definition rename :: "(string, string) dict \<Rightarrow> string \<Rightarrow> string" where
  "rename m s = (case map_of m s of Some t \<Rightarrow> t | None \<Rightarrow> s)"

definition unhashable :: "pyval \<Rightarrow> 'a res" where
  "unhashable v = raise TypeError (''unhashable type: '' @ [CHR 0x27] @ type_name v @ [CHR 0x27])"

definition rename_value :: "(string, string) dict \<Rightarrow> pyval \<Rightarrow> pyval res" where
  "rename_value m v = (case v of
     PStr s \<Rightarrow> Inr (PStr (rename m s)) | PList xs \<Rightarrow> unhashable v | PDict d \<Rightarrow> unhashable v | _ \<Rightarrow> Inr v)"

definition rewrite_variable_refs :: "(string, string) dict \<Rightarrow> string \<Rightarrow> string" where
  "rewrite_variable_refs m txt =
     (if has_key m txt then rename m txt
      else rx_sub dsl_ref_rx (\<lambda>whole g. group g 1 @ rename m (group g 2) @ group g 3 @ group g 4) txt)"

fun rewrite_value :: "(string, string) dict \<Rightarrow> pyval \<Rightarrow> pyval"
and rewrite_values :: "(string, string) dict \<Rightarrow> pyval list \<Rightarrow> pyval list"
and rewrite_members :: "(string, string) dict \<Rightarrow> (string \<times> pyval) list \<Rightarrow> (string \<times> pyval) list" where
  "rewrite_value m (PStr s) = PStr (rewrite_variable_refs m s)"
| "rewrite_value m (PList xs) = PList (rewrite_values m xs)"
| "rewrite_value m (PDict d) = PDict (rewrite_members m d)"
| "rewrite_value m v = v"
| "rewrite_values m [] = []"
| "rewrite_values m (x # xs) = rewrite_value m x # rewrite_values m xs"
| "rewrite_members m [] = []"
| "rewrite_members m ((k, v) # d) = (k, rewrite_value m v) # rewrite_members m d"

section \<open>Components\<close>

definition rename_at :: "string \<Rightarrow> (string, string) dict \<Rightarrow> pdict \<Rightarrow> pdict" where
  "rename_at key m d = (case map_of d key of Some (PStr s) \<Rightarrow> dset key (PStr (rename m s)) d | _ \<Rightarrow> d)"

definition rename_list_at :: "string \<Rightarrow> (string, string) dict \<Rightarrow> pdict \<Rightarrow> pdict res" where
  "rename_list_at key m d = (case map_of d key of
     Some (PList xs) \<Rightarrow> try_then (map_res (rename_value m) xs) (\<lambda>ys. Inr (dset key (PList ys) d))
   | _ \<Rightarrow> Inr d)"

definition rename_obj :: "pdict \<Rightarrow> pdict res" where
  "rename_obj d = (case map_of d ''obj'' of
     Some (PDict obj) \<Rightarrow> try_then (rename_value component_renames (get_none obj ''component_name''))
       (\<lambda>n. Inr (dset ''obj'' (PDict (dset ''component_name'' n obj)) d))
   | _ \<Rightarrow> Inr d)"

definition rewrite_component :: "(string, string) dict \<Rightarrow> pyval \<Rightarrow> pyval res" where
  "rewrite_component m component = (case rewrite_value m component of
     PDict d \<Rightarrow> try_then (rename_obj d) (\<lambda>d1. try_then (rename_list_at ''downstream'' m d1) (\<lambda>d2.
       try_then (rename_list_at ''upstream'' m d2) (\<lambda>d3. Inr (PDict (rename_at ''parent_id'' m d3)))))
   | v \<Rightarrow> Inr v)"

definition rewrite_components :: "(string, string) dict \<Rightarrow> pdict \<Rightarrow> pdict res" where
  "rewrite_components m components = fold_res (\<lambda>(cid, component) acc.
     try_then (rewrite_component m component) (\<lambda>c. Inr (dset (rename m cid) c acc))) components []"

section \<open>The graph\<close>

definition rename_data :: "(string, string) dict \<Rightarrow> pdict \<Rightarrow> pdict" where
  "rename_data m d0 =
     (let d = rename_at ''name'' component_renames (rename_at ''label'' component_renames d0)
      in case map_of d ''form'' of Some f \<Rightarrow> dset ''form'' (rewrite_value m f) d | None \<Rightarrow> d)"

definition rename_data_at :: "(string, string) dict \<Rightarrow> pdict \<Rightarrow> pdict" where
  "rename_data_at m n = (case map_of n ''data'' of Some (PDict d) \<Rightarrow> dset ''data'' (PDict (rename_data m d)) n | _ \<Rightarrow> n)"

definition rename_node :: "(string, string) dict \<Rightarrow> pyval \<Rightarrow> pyval" where
  "rename_node m node = (case node of
     PDict n \<Rightarrow> PDict (rename_data_at m
       (rename_at ''type'' node_type_renames (rename_at ''parentId'' m (rename_at ''id'' m n))))
   | _ \<Rightarrow> node)"

text \<open>An edge id holds the ids of its ends: every old id in it is replaced, longer ids first.\<close>

definition replacements :: "(string, string) dict \<Rightarrow> (string \<times> string) list" where
  "replacements m = sort_key (\<lambda>p. - int (length (fst p))) m"

definition rename_edge_id :: "(string, string) dict \<Rightarrow> pdict \<Rightarrow> pdict" where
  "rename_edge_id m e = (case map_of e ''id'' of
     Some (PStr s) \<Rightarrow> dset ''id'' (PStr (fold (\<lambda>(old, new) t. replace_str old new t) (replacements m) s)) e
   | _ \<Rightarrow> e)"

definition rename_edge :: "(string, string) dict \<Rightarrow> pyval \<Rightarrow> pyval" where
  "rename_edge m edge = (case edge of
     PDict e \<Rightarrow> PDict (rename_edge_id m (rename_at ''target'' m (rename_at ''source'' m e)))
   | _ \<Rightarrow> edge)"

definition map_list_at :: "string \<Rightarrow> (pyval \<Rightarrow> pyval) \<Rightarrow> pdict \<Rightarrow> pdict" where
  "map_list_at key f d = (case map_of d key of Some (PList xs) \<Rightarrow> dset key (PList (map f xs)) d | _ \<Rightarrow> d)"

definition rename_graph :: "(string, string) dict \<Rightarrow> pdict \<Rightarrow> pdict" where
  "rename_graph m g = map_list_at ''edges'' (rename_edge m) (map_list_at ''nodes'' (rename_node m) g)"

definition rewrite_at :: "(string, string) dict \<Rightarrow> string \<Rightarrow> pdict \<Rightarrow> pdict" where
  "rewrite_at m key d = (case map_of d key of Some v \<Rightarrow> dset key (rewrite_value m v) d | None \<Rightarrow> d)"

definition rename_graph_at :: "(string, string) dict \<Rightarrow> pdict \<Rightarrow> pdict" where
  "rename_graph_at m d = (case map_of d ''graph'' of Some (PDict g) \<Rightarrow> dset ''graph'' (PDict (rename_graph m g)) d | _ \<Rightarrow> d)"

definition normalize_chunker_dsl :: "pyval \<Rightarrow> pyval res" where
  "normalize_chunker_dsl dsl = (case dsl of
     PDict d \<Rightarrow> (case map_of d ''components'' of
        Some (PDict components) \<Rightarrow>
          (let m = component_id_map components
           in try_then (rewrite_components m components) (\<lambda>cs.
              try_then (rename_list_at ''path'' m (dset ''components'' (PDict cs) d)) (\<lambda>d1.
                Inr (PDict (rewrite_at m ''reference'' (rewrite_at m ''messages'' (rewrite_at m ''history''
                  (rename_graph_at m d1))))))))
      | _ \<Rightarrow> Inr dsl)
   | _ \<Rightarrow> Inr dsl)"

declare component_renames_def [py_defs] node_type_renames_def [py_defs] dsl_ref_rx_def [py_defs]
  renamed_id_def [py_defs] component_id_map_def [py_defs] rename_def [py_defs] unhashable_def [py_defs]
  rename_value_def [py_defs] rewrite_variable_refs_def [py_defs] rename_at_def [py_defs]
  rename_list_at_def [py_defs] rename_obj_def [py_defs] rewrite_component_def [py_defs]
  rewrite_components_def [py_defs] rename_data_def [py_defs] rename_data_at_def [py_defs] rename_edge_id_def [py_defs] rename_node_def [py_defs]
  replacements_def [py_defs] rename_edge_def [py_defs] map_list_at_def [py_defs]
  rename_graph_def [py_defs] rewrite_at_def [py_defs] rename_graph_at_def [py_defs]
  normalize_chunker_dsl_def [py_defs]

section \<open>Renamings that change nothing\<close>

definition legacy_id :: "string \<Rightarrow> bool" where
  "legacy_id s = list_ex (\<lambda>(old, new). starts_with s (old @ '':'')) component_renames"

definition id_map :: "(string, string) dict \<Rightarrow> bool" where
  "id_map m = list_all (\<lambda>(a, b). a = b) m"

lemma rename_id_map: "id_map m \<Longrightarrow> rename m s = s"
  by (auto simp: rename_def id_map_def list_all_iff split: option.splits dest!: map_of_SomeD)

lemma renamed_id_current: "\<not> legacy_id s \<Longrightarrow> renamed_id s = s"
  by (auto simp: renamed_id_def legacy_id_def component_renames_def)

lemma renamed_id_not_legacy: "\<not> legacy_id (renamed_id s)"
  by (auto simp: renamed_id_def legacy_id_def component_renames_def)

lemma id_map_current: "\<forall>k \<in> set (dkeys d). \<not> legacy_id k \<Longrightarrow> id_map (component_id_map d)"
  by (auto simp: id_map_def component_id_map_def list_all_iff renamed_id_current)

lemma rewrite_refs_id: "id_map m \<Longrightarrow> rewrite_variable_refs m s = s"
proof -
  assume m: "id_map m"
  have "rx_sub dsl_ref_rx (\<lambda>whole g. group g 1 @ rename m (group g 2) @ group g 3 @ group g 4) s = s"
  proof (rule rx_sub_same)
    fix u w c r
    assume a: "rx_match dsl_ref_rx u = Some (w, c, r)"
    then have "(r, c) \<in> set (rx_run dsl_ref_rx u [])" by (auto simp: rx_match_def split: list.splits)
    then have "u = (group c 1 @ group c 2 @ group c 3 @ group c 4) @ r"
      unfolding dsl_ref_rx_def by (rule four_groups) simp_all
    moreover have "w @ r = u" using rx_match_append [OF a] .
    ultimately show "group c 1 @ rename m (group c 2) @ group c 3 @ group c 4 = w"
      by (simp add: rename_id_map [OF m])
  qed
  then show ?thesis by (simp add: rewrite_variable_refs_def rename_id_map [OF m])
qed

lemma rewrite_value_id:
  shows "id_map m \<Longrightarrow> rewrite_value m v = v"
    and "id_map m \<Longrightarrow> rewrite_values m xs = xs"
    and "id_map m \<Longrightarrow> rewrite_members m d = d"
  by (induction m v and m xs and m d rule: rewrite_value_rewrite_values_rewrite_members.induct)
    (simp_all add: rewrite_refs_id)

lemma replace_same: "replace_str x x s = s"
  by (induction s) (simp_all add: replace_str_def join_split)

lemma replace_each_id: "id_map rs \<Longrightarrow> fold (\<lambda>(old, new) t. replace_str old new t) rs s = s"
  by (induction rs arbitrary: s) (auto simp: id_map_def replace_same)

lemma replace_all_id: "id_map m \<Longrightarrow> fold (\<lambda>(old, new) t. replace_str old new t) (replacements m) s = s"
  by (rule replace_each_id) (simp add: id_map_def replacements_def list_all_iff)

section \<open>The operations on their own results\<close>

text \<open>The renaming \<open>m\<close> leaves what stands at a key alone.\<close>

definition stable :: "string \<Rightarrow> (string, string) dict \<Rightarrow> pdict \<Rightarrow> bool" where
  "stable key m d = (case map_of d key of Some (PStr s) \<Rightarrow> rename m s = s | _ \<Rightarrow> True)"

lemma rename_at_stable: "stable key m d \<Longrightarrow> rename_at key m d = d"
  by (auto simp: stable_def rename_at_def dset_same split: option.splits pyval.splits)

lemma stable_id_map: "id_map m \<Longrightarrow> stable key m d"
  by (auto simp: stable_def rename_id_map split: option.splits pyval.splits)

lemma rename_at_id: "id_map m \<Longrightarrow> rename_at key m d = d"
  by (simp add: rename_at_stable stable_id_map)

lemma map_of_rename_at [simp]: "k \<noteq> key \<Longrightarrow> map_of (rename_at key m d) k = map_of d k"
  by (auto simp: rename_at_def dget_dset split: option.splits pyval.splits)

lemma map_of_rename_list_at: "rename_list_at key m d = Inr e \<Longrightarrow> k \<noteq> key \<Longrightarrow> map_of e k = map_of d k"
  by (auto simp: rename_list_at_def dget_dset try_then_Inr_iff split: option.splits pyval.splits)

lemma stable_cong: "map_of d key = map_of e key \<Longrightarrow> stable key m d = stable key m e"
  by (simp add: stable_def)

lemma stable_rename_at: "(\<And>s. rename m (rename m s) = rename m s) \<Longrightarrow> stable key m (rename_at key m d)"
  by (auto simp: stable_def rename_at_def dget_dset split: option.splits pyval.splits)

lemma component_renames_twice: "rename component_renames (rename component_renames s) = rename component_renames s"
  by (auto simp: rename_def component_renames_def)

lemma node_type_renames_twice: "rename node_type_renames (rename node_type_renames s) = rename node_type_renames s"
  by (auto simp: rename_def node_type_renames_def)

text \<open>The keys of a list of ids can all be looked up.\<close>

definition ids_ok :: "string \<Rightarrow> pdict \<Rightarrow> bool" where
  "ids_ok key d = (case map_of d key of Some (PList xs) \<Rightarrow> list_all (\<lambda>v. \<not> is_list v \<and> \<not> is_dict v) xs | _ \<Rightarrow> True)"

lemma rename_value_ok: "rename_value m v = Inr w \<Longrightarrow> \<not> is_list w \<and> \<not> is_dict w"
  by (cases v) (auto simp: rename_value_def unhashable_def)

lemma rename_values_ok: "map_res (rename_value m) xs = Inr ys \<Longrightarrow> list_all (\<lambda>v. \<not> is_list v \<and> \<not> is_dict v) ys"
  by (induction xs arbitrary: ys) (auto simp: try_then_Inr_iff rename_value_ok)

lemma ids_ok_rename_list_at: "rename_list_at key m d = Inr e \<Longrightarrow> ids_ok key e"
  by (auto simp: rename_list_at_def ids_ok_def dget_dset try_then_Inr_iff rename_values_ok
      split: option.splits pyval.splits)

lemma rename_values_id:
  "id_map m \<Longrightarrow> list_all (\<lambda>v. \<not> is_list v \<and> \<not> is_dict v) xs \<Longrightarrow> map_res (rename_value m) xs = Inr xs"
  by (induction xs) (auto simp: rename_value_def rename_id_map split: pyval.splits)

lemma rename_list_at_id: "id_map m \<Longrightarrow> ids_ok key d \<Longrightarrow> rename_list_at key m d = Inr d"
  by (auto simp: rename_list_at_def ids_ok_def rename_values_id dset_same split: option.splits pyval.splits)

lemma ids_ok_cong: "map_of d key = map_of e key \<Longrightarrow> ids_ok key d = ids_ok key e"
  by (simp add: ids_ok_def)

lemma rename_value_twice:
  "(\<And>s. rename m (rename m s) = rename m s) \<Longrightarrow> rename_value m v = Inr w \<Longrightarrow> rename_value m w = Inr w"
  by (cases v) (auto simp: rename_value_def unhashable_def)

lemma rename_obj_twice:
  assumes "rename_obj d = Inr e" and "map_of e' ''obj'' = map_of e ''obj''"
  shows "rename_obj e' = Inr e'"
proof (cases "\<exists>obj. map_of d ''obj'' = Some (PDict obj)")
  case True
  then obtain obj n where "map_of d ''obj'' = Some (PDict obj)"
    and n: "rename_value component_renames (get_none obj ''component_name'') = Inr n"
    and e: "e = dset ''obj'' (PDict (dset ''component_name'' n obj)) d"
    using assms(1) by (auto simp: rename_obj_def try_then_Inr_iff)
  have "map_of e' ''obj'' = Some (PDict (dset ''component_name'' n obj))"
    using assms(2) e by (simp add: dget_dset)
  moreover have "rename_value component_renames n = Inr n"
    using rename_value_twice [OF component_renames_twice n] .
  ultimately show ?thesis by (simp add: rename_obj_def get_or_def dget_dset dset_same)
next
  case False
  then have "e = d" using assms(1) by (auto simp: rename_obj_def split: option.splits pyval.splits)
  with False assms(2) show ?thesis by (auto simp: rename_obj_def split: option.splits pyval.splits)
qed

lemma rewrite_component_nondict:
  "\<not> is_dict (rewrite_value m c) \<Longrightarrow> rewrite_component m c = Inr (rewrite_value m c)"
  by (auto simp: rewrite_component_def split: pyval.split)

lemma rewrite_component_twice:
  assumes "rewrite_component m c = Inr c1" and "id_map m1"
  shows "rewrite_component m1 c1 = Inr c1"
proof (cases "is_dict (rewrite_value m c)")
  case True
  then obtain d where PDict: "rewrite_value m c = PDict d" by (cases "rewrite_value m c") simp_all
  then obtain d1 d2 d3 where d1: "rename_obj d = Inr d1" and d2: "rename_list_at ''downstream'' m d1 = Inr d2"
    and d3: "rename_list_at ''upstream'' m d2 = Inr d3" and c1: "c1 = PDict (rename_at ''parent_id'' m d3)"
    using assms(1) by (auto simp: rewrite_component_def try_then_Inr_iff)
  let ?e = "rename_at ''parent_id'' m d3"
  have 1: "map_of ?e ''obj'' = map_of d1 ''obj''"
    using map_of_rename_list_at [OF d2] map_of_rename_list_at [OF d3] by simp
  have 2: "ids_ok ''downstream'' ?e"
    using ids_ok_rename_list_at [OF d2] map_of_rename_list_at [OF d3]
    by (simp add: ids_ok_def)
  have 3: "ids_ok ''upstream'' ?e"
    using ids_ok_rename_list_at [OF d3] by (simp add: ids_ok_def)
  show ?thesis
    unfolding c1 rewrite_component_def
    by (simp add: rewrite_value_id(3) [OF assms(2)] rename_obj_twice [OF d1 1]
        rename_list_at_id [OF assms(2)] 2 3 rename_at_id [OF assms(2)])
next
  case False
  then have "c1 = rewrite_value m c"
    using assms(1) rewrite_component_nondict by fastforce
  with False show ?thesis
    using rewrite_component_nondict [of m1 c1] by (simp add: rewrite_value_id(1) [OF assms(2)])
qed

lemma rename_data_twice: "id_map m1 \<Longrightarrow> rename_data m1 (rename_data m d) = rename_data m d"
proof -
  assume m1: "id_map m1"
  let ?d = "rename_at ''name'' component_renames (rename_at ''label'' component_renames d)"
  have l: "stable ''label'' component_renames ?d"
    using stable_rename_at [OF component_renames_twice, of "''label''" d]
    by (simp add: stable_def)
  have n: "stable ''name'' component_renames ?d"
    by (rule stable_rename_at [OF component_renames_twice])
  have "stable k component_renames (rename_data m d)" if "k = ''label'' \<or> k = ''name''" for k
    using that l n by (auto simp: rename_data_def Let_def stable_def dget_dset split: option.splits)
  then show ?thesis
    unfolding rename_data_def [of m1] Let_def
    by (auto simp: rename_at_stable rewrite_value_id(1) [OF m1] dset_same split: option.splits)
qed


lemma map_of_rename_data_at: "k \<noteq> ''data'' \<Longrightarrow> map_of (rename_data_at m n) k = map_of n k"
  by (simp add: rename_data_at_def dget_dset split: option.split pyval.split)

lemma rename_data_at_twice: "id_map m1 \<Longrightarrow> rename_data_at m1 (rename_data_at m n) = rename_data_at m n"
  by (auto simp: rename_data_at_def dget_dset dset_same rename_data_twice split: option.splits pyval.splits)

lemma rename_node_twice: "id_map m1 \<Longrightarrow> rename_node m1 (rename_node m node) = rename_node m node"
proof (cases node)
  case (PDict n0)
  assume m1: "id_map m1"
  let ?n = "rename_at ''type'' node_type_renames (rename_at ''parentId'' m (rename_at ''id'' m n0))"
  have "stable ''type'' node_type_renames ?n" by (rule stable_rename_at [OF node_type_renames_twice])
  then have "stable ''type'' node_type_renames (rename_data_at m ?n)"
    by (simp add: stable_def map_of_rename_data_at)
  then show ?thesis
    by (simp add: PDict rename_node_def rename_at_id [OF m1] rename_at_stable rename_data_at_twice [OF m1])
qed (simp_all add: rename_node_def)

lemma rename_edge_id_id: "id_map m \<Longrightarrow> rename_edge_id m e = e"
  by (simp add: rename_edge_id_def replace_all_id dset_same split: option.split pyval.split)

lemma rename_edge_twice: "id_map m1 \<Longrightarrow> rename_edge m1 (rename_edge m edge) = rename_edge m edge"
  by (cases edge) (simp_all add: rename_edge_def rename_at_id rename_edge_id_id)

lemma map_of_map_list_at: "k \<noteq> key \<Longrightarrow> map_of (map_list_at key f d) k = map_of d k"
  by (simp add: map_list_at_def dget_dset split: option.split pyval.split)

lemma map_list_at_twice:
  "(\<And>x. f (g x) = g x) \<Longrightarrow> map_of e key = map_of (map_list_at key g d) key \<Longrightarrow> map_list_at key f e = e"
  by (auto simp: map_list_at_def dget_dset comp_def dset_same split: option.splits pyval.splits)

lemma rename_graph_twice: "id_map m1 \<Longrightarrow> rename_graph m1 (rename_graph m g) = rename_graph m g"
proof -
  assume m1: "id_map m1"
  let ?g = "map_list_at ''nodes'' (rename_node m) g"
  have "map_list_at ''nodes'' (rename_node m1) (map_list_at ''edges'' (rename_edge m) ?g) = map_list_at ''edges'' (rename_edge m) ?g"
    by (rule map_list_at_twice [where g = "rename_node m" and d = g])
      (simp_all add: rename_node_twice [OF m1] map_of_map_list_at)
  moreover have "map_list_at ''edges'' (rename_edge m1) (map_list_at ''edges'' (rename_edge m) ?g) = map_list_at ''edges'' (rename_edge m) ?g"
    by (rule map_list_at_twice [where g = "rename_edge m" and d = ?g]) (simp_all add: rename_edge_twice [OF m1])
  ultimately show ?thesis by (simp add: rename_graph_def)
qed

section \<open>The whole migration\<close>

text \<open>Components with current ids, each left alone by the rewriting.\<close>

definition current_components :: "pdict \<Rightarrow> bool" where
  "current_components d = (distinct (dkeys d) \<and> (\<forall>k \<in> set (dkeys d). \<not> legacy_id k)
     \<and> (\<forall>m. id_map m \<longrightarrow> (\<forall>(k, c) \<in> set d. rewrite_component m c = Inr c)))"

lemma dset_distinct: "distinct (dkeys d) \<Longrightarrow> distinct (dkeys (dset k v d))"
  by (rule distinct_update)

lemma set_dset_subset: "set (dset k v d) \<subseteq> insert (k, v) (set d)"
  by (induction d) auto

lemma rename_component_id_map: "k \<in> set (dkeys d) \<Longrightarrow> rename (component_id_map d) k = renamed_id k"
proof -
  assume "k \<in> set (dkeys d)"
  then have "map_of (map (\<lambda>(cid, c). (cid, renamed_id cid)) d) k = Some (renamed_id k)"
    by (induction d) auto
  then show ?thesis by (simp add: rename_def component_id_map_def)
qed

lemma rewrite_components_current:
  assumes "rewrite_components (component_id_map d) d = Inr e"
  shows "current_components e"
  using assms unfolding rewrite_components_def
proof (rule fold_res_invariant)
  show "current_components []" by (simp add: current_components_def)
next
  fix p s t
  assume p: "p \<in> set d" and s: "current_components s"
    and step: "(case p of (cid, component) \<Rightarrow> \<lambda>acc. try_then (rewrite_component (component_id_map d) component)
        (\<lambda>c. Inr (dset (rename (component_id_map d) cid) c acc))) s = Inr t"
  obtain cid c where pc: "p = (cid, c)" by (cases p)
  from step pc obtain c1 where c1: "rewrite_component (component_id_map d) c = Inr c1"
    and t: "t = dset (rename (component_id_map d) cid) c1 s" by (auto simp: try_then_Inr_iff)
  have "cid \<in> set (dkeys d)" using p pc by (auto intro: rev_image_eqI)
  then have "\<not> legacy_id (rename (component_id_map d) cid)"
    by (simp add: rename_component_id_map renamed_id_not_legacy)
  moreover have "rewrite_component m b = Inr b" if "(a, b) \<in> set t" "id_map m" for m a b
    using that s rewrite_component_twice [OF c1] set_dset_subset [of "rename (component_id_map d) cid" c1 s]
    unfolding current_components_def t by blast
  moreover have "set (dkeys t) = insert (rename (component_id_map d) cid) (set (dkeys s))"
    unfolding t by (rule dkeys_dset)
  moreover have "distinct (dkeys t)" using s unfolding current_components_def t by (blast intro: dset_distinct)
  moreover have "\<forall>k \<in> set (dkeys s). \<not> legacy_id k" using s by (simp add: current_components_def)
  ultimately show "current_components t"
    unfolding current_components_def by (intro conjI allI impI ballI) auto
qed

lemma rewrite_current_acc:
  assumes "id_map m" and "\<forall>(k, c) \<in> set d. rewrite_component m c = Inr c" and "distinct (dkeys (acc @ d))"
  shows "fold_res (\<lambda>(cid, component) acc. try_then (rewrite_component m component)
      (\<lambda>c. Inr (dset (rename m cid) c acc))) d acc = Inr (acc @ d)"
  using assms(2,3)
proof (induction d arbitrary: acc)
  case Nil
  then show ?case by simp
next
  case (Cons p d)
  obtain k c where p: "p = (k, c)" by (cases p)
  have "map_of acc k = None" using Cons.prems(2) p by (simp add: map_of_eq_None_iff)
  then have "dset k c acc = acc @ [(k, c)]" by (intro dset_append) simp
  then show ?case
    using Cons.IH [of "acc @ [(k, c)]"] Cons.prems p by (simp add: rename_id_map [OF assms(1)])
qed

lemma rewrite_components_id:
  "current_components d \<Longrightarrow> rewrite_components (component_id_map d) d = Inr d"
  using rewrite_current_acc [of "component_id_map d" d "[]"] id_map_current [of d]
  by (auto simp: rewrite_components_def current_components_def)

lemma rewrite_at_id: "id_map m \<Longrightarrow> rewrite_at m key d = d"
  by (auto simp: rewrite_at_def rewrite_value_id dset_same split: option.splits)

lemma map_of_rewrite_at: "k \<noteq> key \<Longrightarrow> map_of (rewrite_at m key d) k = map_of d k"
  by (simp add: rewrite_at_def dget_dset split: option.split)

lemma map_of_rename_graph_at: "k \<noteq> ''graph'' \<Longrightarrow> map_of (rename_graph_at m d) k = map_of d k"
  by (simp add: rename_graph_at_def dget_dset split: option.split pyval.split)

lemma rename_graph_at_twice:
  "id_map m1 \<Longrightarrow> map_of e ''graph'' = map_of (rename_graph_at m d) ''graph'' \<Longrightarrow> rename_graph_at m1 e = e"
  by (auto simp: rename_graph_at_def dget_dset dset_same rename_graph_twice split: option.splits pyval.splits)

text \<open>The components of a migrated canvas.\<close>

lemma normalize_components_cases:
  assumes "normalize_chunker_dsl (PDict x) = Inr d1" and "map_of x ''components'' = Some (PDict cs)"
  obtains es y z where "rewrite_components (component_id_map cs) cs = Inr es"
    and "rename_list_at ''path'' (component_id_map cs) (dset ''components'' (PDict es) x) = Inr y"
    and "z = rewrite_at (component_id_map cs) ''reference'' (rewrite_at (component_id_map cs) ''messages''
          (rewrite_at (component_id_map cs) ''history'' (rename_graph_at (component_id_map cs) y)))"
    and "d1 = PDict z" and "map_of z ''components'' = Some (PDict es)"
proof -
  let ?m = "component_id_map cs"
  from assms obtain es y where es: "rewrite_components ?m cs = Inr es"
    and y: "rename_list_at ''path'' ?m (dset ''components'' (PDict es) x) = Inr y"
    and d1: "d1 = PDict (rewrite_at ?m ''reference'' (rewrite_at ?m ''messages'' (rewrite_at ?m ''history''
          (rename_graph_at ?m y))))"
    by (auto simp: normalize_chunker_dsl_def Let_def try_then_Inr_iff)
  have "map_of (rewrite_at ?m ''reference'' (rewrite_at ?m ''messages'' (rewrite_at ?m ''history''
          (rename_graph_at ?m y)))) ''components'' = Some (PDict es)"
    using map_of_rename_list_at [OF y] by (simp add: map_of_rewrite_at map_of_rename_graph_at dget_dset)
  with es y d1 that show thesis by blast
qed

lemma normalize_unchanged:
  "\<nexists>x cs. d = PDict x \<and> map_of x ''components'' = Some (PDict cs) \<Longrightarrow> normalize_chunker_dsl d = Inr d"
  by (auto simp: normalize_chunker_dsl_def split: pyval.splits option.splits)

lemma migrated_components:
  assumes "normalize_chunker_dsl d = Inr (PDict z)" and "map_of z ''components'' = Some (PDict cs)"
  shows "current_components cs"
proof (cases "\<exists>x cs. d = PDict x \<and> map_of x ''components'' = Some (PDict cs)")
  case True
  then obtain x cs0 where x: "d = PDict x" "map_of x ''components'' = Some (PDict cs0)" by blast
  show ?thesis
    by (rule normalize_components_cases [OF assms(1) [unfolded x(1)] x(2)])
      (use assms(2) rewrite_components_current in auto)
next
  case False
  then have "PDict z = d" using assms(1) normalize_unchanged by fastforce
  with False assms(2) show ?thesis by blast
qed

text \<open>What holds of migrated components: current ids and current component names.\<close>

lemma rename_list_at_empty: "rename_list_at key [] d = Inr e \<Longrightarrow> e = d"
proof -
  have "rename_value [] v = Inr w \<Longrightarrow> w = v" for v w
    by (cases v) (auto simp: rename_value_def rename_def unhashable_def)
  then have L: "map_res (rename_value []) xs = Inr ys \<Longrightarrow> ys = xs" for xs ys
    by (induction xs arbitrary: ys) (auto simp: try_then_Inr_iff)
  assume "rename_list_at key [] d = Inr e"
  then show ?thesis
    by (auto simp: rename_list_at_def try_then_Inr_iff dset_same split: option.splits pyval.splits dest!: L)
qed

lemma current_component_name:
  assumes "rewrite_component [] (PDict c) = Inr (PDict c)" and "map_of c ''obj'' = Some (PDict obj)"
  shows "\<exists>n. map_of obj ''component_name'' = Some n \<and> (\<forall>s. n = PStr s \<longrightarrow> s \<notin> set (dkeys component_renames))"
proof -
  have e: "id_map []" by (simp add: id_map_def)
  have "rename_obj c = Inr c"
    using assms(1) by (auto simp: rewrite_component_def rewrite_value_id(3) [OF e] try_then_Inr_iff
        rename_at_id [OF e] dest!: rename_list_at_empty)
  then obtain n where n: "rename_value component_renames (get_none obj ''component_name'') = Inr n"
    and "dset ''obj'' (PDict (dset ''component_name'' n obj)) c = c"
    using assms(2) by (auto simp: rename_obj_def try_then_Inr_iff)
  then have "map_of c ''obj'' = Some (PDict (dset ''component_name'' n obj))" by (metis dget_dset)
  then have o: "map_of obj ''component_name'' = Some n" using assms(2) by (metis dget_dset option.inject pyval.inject(6))
  then have "s \<notin> set (dkeys component_renames)" if "n = PStr s" for s
    using n that by (auto simp: get_or_def rename_value_def rename_def component_renames_def split: if_splits)
  with o show ?thesis by blast
qed

lemma migration_twice:
  assumes "normalize_chunker_dsl d = Inr d1"
  shows "normalize_chunker_dsl d1 = Inr d1"
proof (cases "\<exists>x cs. d = PDict x \<and> map_of x ''components'' = Some (PDict cs)")
  case True
  then obtain x cs where x: "d = PDict x" and cs: "map_of x ''components'' = Some (PDict cs)" by blast
  let ?m = "component_id_map cs"
  from assms x cs obtain es y where es: "rewrite_components ?m cs = Inr es"
    and y: "rename_list_at ''path'' ?m (dset ''components'' (PDict es) x) = Inr y"
    and d1: "d1 = PDict (rewrite_at ?m ''reference'' (rewrite_at ?m ''messages'' (rewrite_at ?m ''history''
          (rename_graph_at ?m y))))" (is "_ = PDict ?z")
    by (auto simp: normalize_chunker_dsl_def Let_def try_then_Inr_iff)
  note cur = rewrite_components_current [OF es]
  have m1: "id_map (component_id_map es)" using cur id_map_current by (simp add: current_components_def)
  have c: "map_of ?z ''components'' = Some (PDict es)"
    using map_of_rename_list_at [OF y] by (simp add: map_of_rewrite_at map_of_rename_graph_at dget_dset)
  have "ids_ok ''path'' ?z"
    using ids_ok_rename_list_at [OF y] by (simp add: ids_ok_def map_of_rewrite_at map_of_rename_graph_at)
  moreover have "rename_graph_at (component_id_map es) ?z = ?z"
    by (rule rename_graph_at_twice [OF m1, of _ ?m y]) (simp add: map_of_rewrite_at)
  ultimately show ?thesis
    by (simp add: d1 normalize_chunker_dsl_def c rewrite_components_id [OF cur] dset_same [OF c]
        rename_list_at_id [OF m1] rewrite_at_id [OF m1])
next
  case False
  then have "d1 = d" using assms by (auto simp: normalize_chunker_dsl_def split: pyval.splits option.splits)
  with assms show ?thesis by simp
qed


text \<open>C22: Migrating a stored canvas twice is migrating it once.\<close>

theorem migration_idempotent:
  assumes "normalize_chunker_dsl d = Inr d1"
  shows "normalize_chunker_dsl d1 = Inr d1"
  using assms by (rule migration_twice)

theorem migration_idempotent_witness:
  "\<exists>d. normalize_chunker_dsl (PDict [(''components'', PDict [(''Splitter:0'', PDict [(''obj'', PDict [(''component_name'', PStr ''Splitter'')]),
      (''downstream'', PList [PStr ''Message:1''])])]), (''path'', PList [PStr ''Splitter:0''])]) = Inr d
    \<and> normalize_chunker_dsl d = Inr d"
proof -
  obtain d where d: "normalize_chunker_dsl (PDict [(''components'', PDict [(''Splitter:0'', PDict [(''obj'', PDict [(''component_name'', PStr ''Splitter'')]),
      (''downstream'', PList [PStr ''Message:1''])])]), (''path'', PList [PStr ''Splitter:0''])]) = Inr d"
    by (simp add: py_defs Let_def)
  then show ?thesis using migration_idempotent [OF d] by blast
qed

text \<open>A migrated canvas has no component id with an old prefix and no component with an old name.\<close>

theorem migration_leaves_no_legacy:
  assumes "normalize_chunker_dsl d = Inr (PDict z)" and "map_of z ''components'' = Some (PDict cs)"
  shows "(\<forall>k \<in> set (dkeys cs). \<not> legacy_id k)
    \<and> (\<forall>k c obj. (k, PDict c) \<in> set cs \<longrightarrow> map_of c ''obj'' = Some (PDict obj) \<longrightarrow>
         (\<exists>n. map_of obj ''component_name'' = Some n \<and> (\<forall>s. n = PStr s \<longrightarrow> s \<notin> set (dkeys component_renames))))"
proof -
  have cur: "current_components cs" by (rule migrated_components [OF assms])
  have "rewrite_component [] (PDict c) = Inr (PDict c)" if "(k, PDict c) \<in> set cs" for k c
  proof -
    have "id_map []" by (simp add: id_map_def)
    then have "\<forall>(k, c) \<in> set cs. rewrite_component [] c = Inr c" using cur unfolding current_components_def by blast
    with that show ?thesis by blast
  qed
  then show ?thesis using cur current_component_name unfolding current_components_def by blast
qed

theorem migration_leaves_no_legacy_witness:
  "\<exists>z cs. normalize_chunker_dsl (PDict [(''components'', PDict [(''Splitter:0'', PDict [(''obj'', PDict [(''component_name'', PStr ''Splitter'')])])])])
      = Inr (PDict z) \<and> map_of z ''components'' = Some (PDict cs) \<and> (\<forall>k \<in> set (dkeys cs). \<not> legacy_id k)"
proof -
  obtain z cs where d: "normalize_chunker_dsl (PDict [(''components'', PDict [(''Splitter:0'', PDict [(''obj'', PDict [(''component_name'', PStr ''Splitter'')])])])])
      = Inr (PDict z)" "map_of z ''components'' = Some (PDict cs)"
    by (simp add: py_defs Let_def)
  then show ?thesis using migration_leaves_no_legacy [OF d] by blast
qed

end
