(* ===== verification/RedisStore.thy ===== *)
theory RedisStore
  imports PyJson
begin

text \<open>
  The adapter over the Redis server (\<open>rag/utils/redis_conn.py\<close>): reads and writes that
  swallow the exceptions of the client, id counters, keys created once, and the
  distributed lock. The server and its client library are a record of functions on the
  server's state; \<open>redis_laws\<close> states what the documentation of the commands promises
  while the server answers and no key expires.
\<close>

section \<open>Catching exceptions\<close>

text \<open>\<open>try: m finally: f\<close>, where \<open>f\<close> swallows its own exceptions.\<close>

definition finally_do :: "('s, 'a) act \<Rightarrow> ('s, unit) act \<Rightarrow> ('s, 'a) act" where
  "finally_do m f = (\<lambda>s. case m s of (r, t) \<Rightarrow> (r, snd (f t)))"

section \<open>The server\<close>

record 's redis_api =
  srv_alive :: "'s \<Rightarrow> bool"
  srv_open :: "('s, unit) act"
  srv_get :: "string \<Rightarrow> ('s, string option) act"
  srv_set :: "string \<Rightarrow> string \<Rightarrow> nat \<Rightarrow> ('s, unit) act"
  srv_setnx :: "string \<Rightarrow> string \<Rightarrow> ('s, bool) act"
  srv_incrby :: "string \<Rightarrow> int \<Rightarrow> ('s, int) act"
  srv_delete :: "string \<Rightarrow> ('s, unit) act"
  srv_lock :: "string \<Rightarrow> string \<Rightarrow> ('s, bool) act"

definition incremented :: "string option \<Rightarrow> int \<Rightarrow> int option" where
  "incremented v n = (case v of None \<Rightarrow> Some n | Some t \<Rightarrow> map_option (\<lambda>i. i + n) (int_of_str t))"

definition redis_laws :: "'s redis_api \<Rightarrow> ('s \<Rightarrow> bool) \<Rightarrow> ('s \<Rightarrow> string \<Rightarrow> string option) \<Rightarrow> bool" where
  "redis_laws api up look = (\<forall>s. up s \<longrightarrow> srv_alive api s
     \<and> (\<forall>k. srv_get api k s = (Inr (look s k), s))
     \<and> (\<forall>k v n. \<exists>t. srv_set api k v n s = (Inr (), t) \<and> up t \<and> look t = (look s)(k := Some v))
     \<and> (\<forall>k v. \<exists>t. srv_setnx api k v s = (Inr (look s k = None), t) \<and> up t
          \<and> look t = (if look s k = None then (look s)(k := Some v) else look s))
     \<and> (\<forall>k n i. incremented (look s k) n = Some i \<longrightarrow>
          (\<exists>t. srv_incrby api k n s = (Inr i, t) \<and> up t \<and> look t = (look s)(k := Some (int_str i))))
     \<and> (\<forall>k. \<exists>t. srv_delete api k s = (Inr (), t) \<and> up t \<and> look t = (look s)(k := None)))"

section \<open>The adapter\<close>

definition redis_get :: "'s redis_api \<Rightarrow> string \<Rightarrow> ('s, string option) act" where
  "redis_get api k = (\<lambda>s. if \<not> srv_alive api s then (Inr None, s)
     else try_except (srv_get api k) (\<lambda>e. bnd (srv_open api) (\<lambda>_. ret None)) s)"

definition redis_set :: "'s redis_api \<Rightarrow> string \<Rightarrow> string \<Rightarrow> nat \<Rightarrow> ('s, bool) act" where
  "redis_set api k v expire = try_except (bnd (srv_set api k v expire) (\<lambda>_. ret True))
     (\<lambda>e. bnd (srv_open api) (\<lambda>_. ret False))"

text \<open>\<open>json.dumps\<close> raises on what is not JSON.\<close>

definition json_text :: "pyval \<Rightarrow> string res" where
  "json_text v = (if stream_free v then Inr (json_dumps v)
     else raise TypeError ''Object of type partial is not JSON serializable'')"

definition redis_set_obj :: "'s redis_api \<Rightarrow> string \<Rightarrow> pyval \<Rightarrow> nat \<Rightarrow> ('s, bool) act" where
  "redis_set_obj api k obj expire = try_except
     (bnd (lift (json_text obj)) (\<lambda>t. bnd (srv_set api k t expire) (\<lambda>_. ret True)))
     (\<lambda>e. bnd (srv_open api) (\<lambda>_. ret False))"

definition redis_delete :: "'s redis_api \<Rightarrow> string \<Rightarrow> ('s, bool) act" where
  "redis_delete api k = try_except (bnd (srv_delete api k) (\<lambda>_. ret True))
     (\<lambda>e. bnd (srv_open api) (\<lambda>_. ret False))"

text \<open>\<open>delete_if_equal\<close>: the Lua script runs as one step on the server.\<close>

definition delete_if_equal :: "'s redis_api \<Rightarrow> string \<Rightarrow> string \<Rightarrow> ('s, bool) act" where
  "delete_if_equal api key expected = bnd (srv_get api key) (\<lambda>v.
     if v = Some expected then bnd (srv_delete api key) (\<lambda>_. ret True) else ret False)"

definition int_value :: "string option \<Rightarrow> int res" where
  "int_value v = (case v of None \<Rightarrow> raise TypeError ''int() argument must be a string''
     | Some t \<Rightarrow> py_int (PStr t))"

definition no_expiry :: nat where
  "no_expiry = 0"

text \<open>\<open>generate_auto_increment_id\<close>; the commands of a pipeline run one after the other.\<close>

definition next_id :: "'s redis_api \<Rightarrow> string \<Rightarrow> int \<Rightarrow> ('s, int) act" where
  "next_id api key increment = bnd (srv_incrby api key increment) (\<lambda>n.
     if n = increment then bnd (srv_set api key (int_str (1 + increment)) no_expiry) (\<lambda>_. ret (1 + increment))
     else ret n)"

definition generate_auto_increment_id ::
    "'s redis_api \<Rightarrow> string \<Rightarrow> string \<Rightarrow> int \<Rightarrow> int option \<Rightarrow> ('s, int) act" where
  "generate_auto_increment_id api key_prefix namespace increment ensure_minimum =
     (let key = key_prefix @ '':'' @ namespace
      in try_except
        (case ensure_minimum of
           None \<Rightarrow> next_id api key increment
         | Some lo \<Rightarrow> bnd (srv_get api key) (\<lambda>v.
             if v = None then
               bnd (srv_set api key (int_str (max 1 lo)) no_expiry) (\<lambda>_. ret (max 1 lo))
             else bnd (lift (int_value v)) (\<lambda>current.
               if current < lo then bnd (srv_set api key (int_str lo) no_expiry) (\<lambda>_. ret lo)
               else next_id api key increment)))
        (\<lambda>e. bnd (srv_open api) (\<lambda>_. ret (-1))))"

text \<open>\<open>get_or_create_secret_key\<close>: fuel for the retry after a key that vanished between the two calls.\<close>

fun get_or_create_secret_key :: "'s redis_api \<Rightarrow> nat \<Rightarrow> string \<Rightarrow> string \<Rightarrow> ('s, string option) act" where
  "get_or_create_secret_key api 0 key_name new_value = ret None"
| "get_or_create_secret_key api (Suc fuel) key_name new_value =
     bnd (srv_get api key_name) (\<lambda>existing. case existing of
       Some v \<Rightarrow> ret (Some v)
     | None \<Rightarrow> bnd (srv_setnx api key_name new_value) (\<lambda>created.
         if created then ret (Some new_value)
         else bnd (srv_get api key_name) (\<lambda>final. case final of
           Some v \<Rightarrow> ret (Some v)
         | None \<Rightarrow> get_or_create_secret_key api fuel key_name new_value)))"

text \<open>\<open>RedisDistributedLock.acquire\<close>: a lock left by the same owner is dropped first.\<close>

definition lock_acquire :: "'s redis_api \<Rightarrow> string \<Rightarrow> string \<Rightarrow> ('s, bool) act" where
  "lock_acquire api key token = bnd (delete_if_equal api key token) (\<lambda>_. srv_lock api key token)"

definition lock_release :: "'s redis_api \<Rightarrow> string \<Rightarrow> string \<Rightarrow> ('s, unit) act" where
  "lock_release api key token = bnd (delete_if_equal api key token) (\<lambda>_. ret ())"

section \<open>A server to evaluate on\<close>

text \<open>Strings by key, always up; a lock is a key that is set once.\<close>

definition map_server :: "(string, string) dict redis_api" where
  "map_server = \<lparr>
     srv_alive = (\<lambda>s. True),
     srv_open = ret (),
     srv_get = (\<lambda>k s. (Inr (map_of s k), s)),
     srv_set = (\<lambda>k v n s. (Inr (), dset k v s)),
     srv_setnx = (\<lambda>k v s. (Inr (map_of s k = None), if map_of s k = None then dset k v s else s)),
     srv_incrby = (\<lambda>k n s. case incremented (map_of s k) n of
        Some i \<Rightarrow> (Inr i, dset k (int_str i) s) | None \<Rightarrow> (raise GenericException ''value is not an integer'', s)),
     srv_delete = (\<lambda>k s. (Inr (), dpop k s)),
     srv_lock = (\<lambda>k v s. (Inr (map_of s k = None), if map_of s k = None then dset k v s else s))\<rparr>"

lemma map_server_laws: "redis_laws map_server (\<lambda>s. True) map_of"
  by (auto simp: redis_laws_def map_server_def update_conv' delete_conv' fun_upd_def)

section \<open>What the adapter does while the server answers\<close>

lemma redis_get_up: "redis_laws api up look \<Longrightarrow> up s \<Longrightarrow> redis_get api k s = (Inr (look s k), s)"
  by (simp add: redis_laws_def redis_get_def try_except_def)

lemma redis_set_obj_up:
  assumes "redis_laws api up look" and "up s" and "stream_free v"
  shows "\<exists>t. redis_set_obj api k v n s = (Inr True, t) \<and> up t \<and> look t = (look s)(k := Some (json_dumps v))"
proof -
  obtain t where "srv_set api k (json_dumps v) n s = (Inr (), t)" "up t" "look t = (look s)(k := Some (json_dumps v))"
    using assms(1,2) unfolding redis_laws_def by blast
  then show ?thesis using assms(3) by (simp add: redis_set_obj_def json_text_def try_except_def act_defs)
qed

section \<open>Counters\<close>

text \<open>The value a counter stands at: \<open>None\<close> before the first id.\<close>

definition counter_at :: "('s \<Rightarrow> string \<Rightarrow> string option) \<Rightarrow> string \<Rightarrow> int option \<Rightarrow> 's \<Rightarrow> bool" where
  "counter_at look key v s = (look s key = map_option int_str v)"

lemma next_id_up:
  assumes laws: "redis_laws api up look" and "up s" and "counter_at look key v s"
    and "0 < increment" and "\<forall>n. v = Some n \<longrightarrow> 0 \<le> n"
  shows "\<exists>i t. next_id api key increment s = (Inr i, t) \<and> up t \<and> counter_at look key (Some i) t
    \<and> (\<forall>n. v = Some n \<longrightarrow> n < i) \<and> 0 < i \<and> (\<forall>k. k \<noteq> key \<longrightarrow> look t k = look s k)"
proof -
  let ?i = "(case v of None \<Rightarrow> 0 | Some n \<Rightarrow> n) + increment"
  have "incremented (look s key) increment = Some ?i"
    using assms(3) by (simp add: incremented_def counter_at_def int_of_int_str split: option.splits)
  then obtain u where u: "srv_incrby api key increment s = (Inr ?i, u)" "up u"
    "look u = (look s)(key := Some (int_str ?i))"
    using laws assms(2) unfolding redis_laws_def by blast
  show ?thesis
  proof (cases "?i = increment")
    case True
    obtain t where t: "srv_set api key (int_str (1 + increment)) no_expiry u = (Inr (), t)" "up t"
      "look t = (look u)(key := Some (int_str (1 + increment)))"
      using laws u(2) unfolding redis_laws_def by blast
    then have "next_id api key increment s = (Inr (1 + increment), t)"
      using u True by (simp add: next_id_def act_defs)
    then show ?thesis using t u(3) True assms(4) by (auto simp: counter_at_def split: option.splits)
  next
    case False
    then have "next_id api key increment s = (Inr ?i, u)" using u by (simp add: next_id_def act_defs)
    then show ?thesis using u assms(4,5) by (auto simp: counter_at_def split: option.splits)
  qed
qed

lemma generate_id_up:
  assumes laws: "redis_laws api up look" and "up s" and c: "counter_at look (p @ '':'' @ ns) v s"
    and "0 < increment" and "\<forall>n. v = Some n \<longrightarrow> 0 \<le> n"
  shows "\<exists>i t. generate_auto_increment_id api p ns increment lo s = (Inr i, t) \<and> up t
    \<and> counter_at look (p @ '':'' @ ns) (Some i) t \<and> (\<forall>n. v = Some n \<longrightarrow> n < i) \<and> 0 < i
    \<and> (\<forall>m. lo = Some m \<longrightarrow> m \<le> i) \<and> (\<forall>k. k \<noteq> p @ '':'' @ ns \<longrightarrow> look t k = look s k)"
proof -
  let ?key = "p @ '':'' @ ns"
  obtain i t where it: "next_id api ?key increment s = (Inr i, t)" "up t" "counter_at look ?key (Some i) t"
    "\<forall>n. v = Some n \<longrightarrow> n < i" "0 < i" "\<forall>k. k \<noteq> ?key \<longrightarrow> look t k = look s k"
    using next_id_up [OF assms] by blast
  have get: "srv_get api ?key s = (Inr (look s ?key), s)"
    using laws assms(2) unfolding redis_laws_def by blast
  have set: "\<exists>t. srv_set api ?key (int_str w) no_expiry s = (Inr (), t) \<and> up t \<and> look t = (look s)(?key := Some (int_str w))" for w
    using laws assms(2) unfolding redis_laws_def by blast
  show ?thesis
  proof (cases lo)
    case None
    then show ?thesis using it by (auto simp: generate_auto_increment_id_def Let_def try_except_def)
  next
    case (Some m)
    show ?thesis
    proof (cases v)
      case None
      then have "look s ?key = None" using c by (simp add: counter_at_def)
      moreover obtain t where "srv_set api ?key (int_str (max 1 m)) no_expiry s = (Inr (), t)" "up t"
        "look t = (look s)(?key := Some (int_str (max 1 m)))" using set by blast
      ultimately show ?thesis using None Some get
        by (auto simp: generate_auto_increment_id_def Let_def try_except_def bnd_apply ret_def lift_def counter_at_def)
    next
      case v: (Some n)
      then have look: "look s ?key = Some (int_str n)" using c by (simp add: counter_at_def)
      have val: "int_value (Some (int_str n)) = Inr n" by (simp add: int_value_def py_int_def int_of_int_str)
      show ?thesis
      proof (cases "n < m")
        case True
        moreover obtain t where "srv_set api ?key (int_str m) no_expiry s = (Inr (), t)" "up t"
          "look t = (look s)(?key := Some (int_str m))" using set by blast
        ultimately show ?thesis using v Some get look val assms(5)
          by (auto simp: generate_auto_increment_id_def Let_def try_except_def bnd_apply ret_def lift_def counter_at_def)
      next
        case False
        then show ?thesis using v Some get look val it
          by (auto simp: generate_auto_increment_id_def Let_def try_except_def bnd_apply ret_def lift_def)
      qed
    qed
  qed
qed

text \<open>A series of requests for ids, each with its own minimum.\<close>

fun issue_ids :: "'s redis_api \<Rightarrow> string \<Rightarrow> string \<Rightarrow> int option list \<Rightarrow> ('s, int list) act" where
  "issue_ids api p ns [] = ret []"
| "issue_ids api p ns (lo # los) = bnd (generate_auto_increment_id api p ns 1 lo) (\<lambda>i.
     bnd (issue_ids api p ns los) (\<lambda>is. ret (i # is)))"

lemma issue_ids_up:
  assumes "redis_laws api up look" and "up s" and "counter_at look (p @ '':'' @ ns) v s"
    and "\<forall>n. v = Some n \<longrightarrow> 0 \<le> n"
  shows "\<exists>is t. issue_ids api p ns los s = (Inr is, t) \<and> length is = length los \<and> sorted_wrt (<) is
    \<and> (\<forall>i \<in> set is. 0 < i \<and> (\<forall>n. v = Some n \<longrightarrow> n < i))"
  using assms(2-4)
proof (induction los arbitrary: s v)
  case Nil
  then show ?case by (simp add: act_defs)
next
  case (Cons lo los)
  obtain i t where i: "generate_auto_increment_id api p ns 1 lo s = (Inr i, t)" "up t"
    "counter_at look (p @ '':'' @ ns) (Some i) t" "\<forall>n. v = Some n \<longrightarrow> n < i" "0 < i"
    using generate_id_up [OF assms(1) Cons.prems(1,2) _ Cons.prems(3), of 1 lo] by auto
  obtain "is" u where "issue_ids api p ns los t = (Inr is, u)" "length is = length los" "sorted_wrt (<) is"
    "\<forall>j \<in> set is. 0 < j \<and> i < j"
    using Cons.IH [OF i(2,3)] i(5) by auto
  then show ?case using i by (fastforce simp: act_defs)
qed

text \<open>While the server answers, the ids drawn from one counter, each with a minimum or none, are positive
  and strictly increasing, so no id is given out twice.\<close>

theorem ids_strictly_increase:
  assumes "redis_laws api up look" and "up s" and "look s (p @ '':'' @ ns) = None"
  shows "\<exists>is t. issue_ids api p ns los s = (Inr is, t) \<and> length is = length los
    \<and> sorted_wrt (<) is \<and> (\<forall>i \<in> set is. 0 < i)"
  using issue_ids_up [OF assms(1,2), of p ns None los] assms(3) by (auto simp: counter_at_def)

theorem ids_strictly_increase_witness:
  "\<exists>is t. issue_ids map_server ''id'' ''chat'' [None, Some 10, Some 3, None] [] = (Inr is, t)
    \<and> length is = 4 \<and> sorted_wrt (<) is"
  using ids_strictly_increase [OF map_server_laws, of "[]" "''id''" "''chat''" "[None, Some 10, Some 3, None]"] by auto

end
