(* ===== verification/CanvasReplica.thy ===== *)
theory CanvasReplica
  imports DslMigration RedisStore
begin

text \<open>
  The runtime replicas of a canvas in Redis (\<open>api/apps/services/canvas_replica_service.py\<close>):
  one JSON payload per canvas, tenant and user. The clock is an argument; waiting between
  the attempts to take the lock is not modelled.
\<close>

section \<open>Payloads\<close>

definition agent_category :: pyval where
  "agent_category = PStr ''agent_canvas''"

definition normalize_dsl :: "pyval \<Rightarrow> pyval res" where
  "normalize_dsl dsl =
     try_then (case dsl of PStr s \<Rightarrow> (case json_loads s of Some v \<Rightarrow> Inr v | None \<Rightarrow> raise ValueError ''Invalid DSL JSON string.'')
               | _ \<Rightarrow> Inr dsl) (\<lambda>normalized.
     if \<not> is_dict normalized then raise ValueError ''DSL must be a JSON object.''
     else (case try_then (normalize_chunker_dsl normalized) json_text of
        Inr t \<Rightarrow> (case json_loads t of Some v \<Rightarrow> Inr v | None \<Rightarrow> raise ValueError ''DSL is not JSON-serializable.'')
      | Inl e \<Rightarrow> raise ValueError ''DSL is not JSON-serializable.''))"

definition replica_key :: "string \<Rightarrow> string \<Rightarrow> string \<Rightarrow> string" where
  "replica_key canvas_id tenant_id user_id = ''canvas:replica'' @ '':'' @ canvas_id @ '':'' @ tenant_id @ '':'' @ user_id"

definition lock_key :: "string \<Rightarrow> string \<Rightarrow> string \<Rightarrow> string" where
  "lock_key canvas_id tenant_id user_id = ''canvas:replica:lock'' @ '':'' @ canvas_id @ '':'' @ tenant_id @ '':'' @ user_id"

definition parse_payload :: "string \<Rightarrow> pdict option" where
  "parse_payload blob = (case json_loads blob of
     Some (PDict payload) \<Rightarrow> (case normalize_dsl (get_or payload ''dsl'' (PDict [])) of
        Inr d \<Rightarrow> Some (dset ''dsl'' d payload) | Inl e \<Rightarrow> None)
   | _ \<Rightarrow> None)"

definition read_payload :: "'s redis_api \<Rightarrow> string \<Rightarrow> ('s, pdict option) act" where
  "read_payload api key = bnd (redis_get api key) (\<lambda>blob. ret (case blob of
     None \<Rightarrow> None | Some t \<Rightarrow> if t = [] then None else parse_payload t))"

definition ttl_secs :: nat where
  "ttl_secs = 3 * 60 * 60"

definition write_payload :: "'s redis_api \<Rightarrow> int \<Rightarrow> string \<Rightarrow> pdict \<Rightarrow> ('s, pdict) act" where
  "write_payload api now key payload0 =
     (let payload = dset ''updated_at'' (PInt now) payload0
      in bnd (redis_set_obj api key (PDict payload) ttl_secs) (\<lambda>_. ret payload))"

definition build_payload :: "int \<Rightarrow> string \<Rightarrow> string \<Rightarrow> string \<Rightarrow> pyval \<Rightarrow> pyval \<Rightarrow> pyval \<Rightarrow> pdict res" where
  "build_payload now canvas_id tenant_id user_id dsl canvas_category title =
     try_then (normalize_dsl dsl) (\<lambda>d. Inr
       [(''canvas_id'', PStr canvas_id), (''tenant_id'', PStr tenant_id), (''runtime_user_id'', PStr user_id),
        (''title'', py_or title (PStr [])), (''canvas_category'', py_or canvas_category agent_category),
        (''dsl'', d), (''updated_at'', PInt now)])"

section \<open>The operations\<close>

definition create_if_absent ::
    "'s redis_api \<Rightarrow> int \<Rightarrow> string \<Rightarrow> string \<Rightarrow> string \<Rightarrow> pyval \<Rightarrow> pyval \<Rightarrow> pyval \<Rightarrow> ('s, pdict) act" where
  "create_if_absent api now canvas_id tenant_id user_id dsl canvas_category title =
     (let key = replica_key canvas_id tenant_id user_id
      in bnd (read_payload api key) (\<lambda>found. case found of
           Some payload \<Rightarrow> ret payload
         | None \<Rightarrow> bnd (lift (build_payload now canvas_id tenant_id user_id dsl canvas_category title))
             (write_payload api now key)))"

definition bootstrap ::
    "'s redis_api \<Rightarrow> int \<Rightarrow> string \<Rightarrow> string \<Rightarrow> string \<Rightarrow> pyval \<Rightarrow> pyval \<Rightarrow> pyval \<Rightarrow> ('s, pdict) act" where
  "bootstrap api now canvas_id tenant_id user_id dsl canvas_category title =
     create_if_absent api now canvas_id tenant_id user_id dsl canvas_category title"

definition load_for_run :: "'s redis_api \<Rightarrow> string \<Rightarrow> string \<Rightarrow> string \<Rightarrow> ('s, pdict option) act" where
  "load_for_run api canvas_id tenant_id user_id = read_payload api (replica_key canvas_id tenant_id user_id)"

fun acquire_lock_with_retry :: "'s redis_api \<Rightarrow> nat \<Rightarrow> string \<Rightarrow> string \<Rightarrow> ('s, bool) act" where
  "acquire_lock_with_retry api 0 key token = ret False"
| "acquire_lock_with_retry api (Suc attempts) key token = bnd (lock_acquire api key token) (\<lambda>taken.
     if taken then ret True else acquire_lock_with_retry api attempts key token)"

definition lock_retry_attempts :: nat where
  "lock_retry_attempts = 3"

definition replace_for_set ::
    "'s redis_api \<Rightarrow> string \<Rightarrow> int \<Rightarrow> string \<Rightarrow> string \<Rightarrow> string \<Rightarrow> pyval \<Rightarrow> pyval \<Rightarrow> pyval \<Rightarrow> ('s, bool) act" where
  "replace_for_set api token now canvas_id tenant_id user_id dsl canvas_category title =
     (let lk = lock_key canvas_id tenant_id user_id
      in bnd (acquire_lock_with_retry api lock_retry_attempts lk token) (\<lambda>taken.
           if \<not> taken then ret False
           else finally_do
             (try_except
               (bnd (lift (build_payload now canvas_id tenant_id user_id dsl canvas_category title)) (\<lambda>payload.
                bnd (write_payload api now (replica_key canvas_id tenant_id user_id) payload) (\<lambda>_. ret True)))
               (\<lambda>e. ret False))
             (lock_release api lk token)))"

definition commit_after_run ::
    "'s redis_api \<Rightarrow> int \<Rightarrow> string \<Rightarrow> string \<Rightarrow> string \<Rightarrow> pyval \<Rightarrow> pyval \<Rightarrow> pyval \<Rightarrow> ('s, bool) act" where
  "commit_after_run api now canvas_id tenant_id user_id dsl canvas_category title =
     (let key = replica_key canvas_id tenant_id user_id
      in bnd (lift (normalize_dsl dsl)) (\<lambda>new_dsl.
         try_except
           (bnd (read_payload api key) (\<lambda>latest.
            bnd (lift (build_payload now canvas_id tenant_id user_id new_dsl
                   (case latest of None \<Rightarrow> canvas_category
                    | Some p \<Rightarrow> py_or canvas_category (get_or p ''canvas_category'' agent_category))
                   (case latest of None \<Rightarrow> title | Some p \<Rightarrow> py_or title (get_or p ''title'' (PStr []))))) (\<lambda>payload.
            bnd (write_payload api now key payload) (\<lambda>_. ret True))))
           (\<lambda>e. ret False)))"

section \<open>The migration keeps JSON\<close>

lemmas jsonable_nested = jsonable.simps(1,2)

declare jsonable_nested [simp del]

lemma jsonable_rewrite:
  shows "jsonable v \<Longrightarrow> jsonable (rewrite_value m v)"
    and "jsonable_list xs \<Longrightarrow> jsonable_list (rewrite_values m xs)"
    and "jsonable_dict d \<Longrightarrow> jsonable_dict (rewrite_members m d) \<and> dkeys (rewrite_members m d) = dkeys d"
  by (induction m v and m xs and m d rule: rewrite_value_rewrite_values_rewrite_members.induct) (auto simp: jsonable_nested)

lemma jsonable_rename_at: "jsonable (PDict d) \<Longrightarrow> jsonable (PDict (rename_at k m d))"
  unfolding rename_at_def by (auto split: option.split pyval.split intro!: jsonable_dset)

lemma jsonable_rename_values: "map_res (rename_value m) xs = Inr ys \<Longrightarrow> jsonable_list xs \<Longrightarrow> jsonable_list ys"
proof (induction xs arbitrary: ys)
  case (Cons x xs)
  have "jsonable y" if "rename_value m x = Inr y" "jsonable x" for y
    using that by (cases x) (auto simp: rename_value_def unhashable_def)
  with Cons show ?case by (auto simp: try_then_Inr_iff)
qed simp

lemma jsonable_rename_list_at: "rename_list_at k m d = Inr e \<Longrightarrow> jsonable (PDict d) \<Longrightarrow> jsonable (PDict e)"
proof (cases "\<exists>xs. map_of d k = Some (PList xs)")
  case True
  assume a: "rename_list_at k m d = Inr e" "jsonable (PDict d)"
  from True obtain xs where xs: "map_of d k = Some (PList xs)" by blast
  then obtain ys where ys: "map_res (rename_value m) xs = Inr ys" "e = dset k (PList ys) d"
    using a(1) by (auto simp: rename_list_at_def try_then_Inr_iff)
  have "jsonable (PList xs)" using jsonable_get [OF a(2) xs] .
  then have "jsonable (PList ys)" using jsonable_rename_values [OF ys(1)] by (simp add: jsonable_nested)
  then show ?thesis using ys(2) a(2) jsonable_dset by blast
next
  case False
  assume "rename_list_at k m d = Inr e" "jsonable (PDict d)"
  with False show ?thesis by (auto simp: rename_list_at_def split: option.splits pyval.splits)
qed

lemma jsonable_rename_obj: "rename_obj d = Inr e \<Longrightarrow> jsonable (PDict d) \<Longrightarrow> jsonable (PDict e)"
proof (cases "\<exists>obj. map_of d ''obj'' = Some (PDict obj)")
  case True
  assume a: "rename_obj d = Inr e" "jsonable (PDict d)"
  from True obtain obj where obj: "map_of d ''obj'' = Some (PDict obj)" by blast
  then obtain n where n: "rename_value component_renames (get_none obj ''component_name'') = Inr n"
    "e = dset ''obj'' (PDict (dset ''component_name'' n obj)) d"
    using a(1) by (auto simp: rename_obj_def try_then_Inr_iff)
  have o: "jsonable (PDict obj)" using jsonable_get [OF a(2) obj] .
  then have "jsonable (get_none obj ''component_name'')"
    using jsonable_get [OF o] by (auto simp: get_or_def split: option.splits)
  then have "jsonable n" using n(1) by (cases "get_none obj ''component_name''") (auto simp: rename_value_def unhashable_def)
  then show ?thesis using n(2) o a(2) jsonable_dset by blast
next
  case False
  assume "rename_obj d = Inr e" "jsonable (PDict d)"
  with False show ?thesis by (auto simp: rename_obj_def split: option.splits pyval.splits)
qed

lemma jsonable_rewrite_component: "rewrite_component m c = Inr e \<Longrightarrow> jsonable c \<Longrightarrow> jsonable e"
proof (cases "is_dict (rewrite_value m c)")
  case True
  assume a: "rewrite_component m c = Inr e" "jsonable c"
  obtain d where d: "rewrite_value m c = PDict d" using True by (cases "rewrite_value m c") simp_all
  have "jsonable (PDict d)" using jsonable_rewrite(1) [OF a(2), of m] by (simp only: d)
  then show ?thesis
    using a(1) by (auto simp: rewrite_component_def d try_then_Inr_iff
        dest!: jsonable_rename_obj jsonable_rename_list_at intro!: jsonable_rename_at)
next
  case False
  assume "rewrite_component m c = Inr e" "jsonable c"
  then show ?thesis using rewrite_component_nondict [OF False] jsonable_rewrite(1) by auto
qed

lemma jsonable_map_list_at:
  assumes "jsonable (PDict d)" and "\<And>v. jsonable v \<Longrightarrow> jsonable (f v)"
  shows "jsonable (PDict (map_list_at k f d))"
proof (cases "\<exists>xs. map_of d k = Some (PList xs)")
  case True
  then obtain xs where xs: "map_of d k = Some (PList xs)" by blast
  then have "jsonable (PList xs)" using assms(1) jsonable_get by blast
  then have "jsonable (PList (map f xs))" using assms(2) by (simp add: jsonable_nested jsonable_list_iff list_all_iff)
  then show ?thesis using xs assms(1) jsonable_dset [of d "PList (map f xs)" k] by (simp add: map_list_at_def)
next
  case False
  then show ?thesis using assms(1) by (auto simp: map_list_at_def split: option.splits pyval.splits)
qed

lemma jsonable_rewrite_at: "jsonable (PDict d) \<Longrightarrow> jsonable (PDict (rewrite_at m k d))"
  unfolding rewrite_at_def by (auto split: option.split intro!: jsonable_dset jsonable_rewrite(1) dest: jsonable_get)

lemma rename_data_eq: "rename_data m d = rewrite_at m ''form'' (rename_at ''name'' component_renames (rename_at ''label'' component_renames d))"
  by (simp add: rename_data_def rewrite_at_def Let_def)

lemma jsonable_rename_data: "jsonable (PDict d) \<Longrightarrow> jsonable (PDict (rename_data m d))"
  unfolding rename_data_eq by (intro jsonable_rewrite_at jsonable_rename_at)

lemma jsonable_rename_node: "jsonable v \<Longrightarrow> jsonable (rename_node m v)"
proof (cases v)
  case (PDict n)
  assume v: "jsonable v"
  let ?n = "rename_at ''type'' node_type_renames (rename_at ''parentId'' m (rename_at ''id'' m n))"
  have n: "jsonable (PDict ?n)" using v unfolding PDict by (intro jsonable_rename_at)
  have "jsonable (PDict (rename_data_at m ?n))"
  proof (cases "\<exists>d. map_of ?n ''data'' = Some (PDict d)")
    case True
    then obtain d where d: "map_of ?n ''data'' = Some (PDict d)" by blast
    then have "jsonable (PDict d)" using n jsonable_get by blast
    then show ?thesis using d n jsonable_rename_data jsonable_dset by (simp add: rename_data_at_def)
  next
    case False
    then show ?thesis using n by (auto simp: rename_data_at_def split: option.splits pyval.splits)
  qed
  then show ?thesis using PDict by (simp add: rename_node_def)
qed (simp_all add: rename_node_def)

lemma jsonable_rename_edge: "jsonable v \<Longrightarrow> jsonable (rename_edge m v)"
proof (cases v)
  case (PDict e)
  assume v: "jsonable v"
  have "jsonable (PDict (rename_at ''target'' m (rename_at ''source'' m e)))" (is "jsonable (PDict ?e)")
    using v unfolding PDict by (intro jsonable_rename_at)
  then have "jsonable (PDict (rename_edge_id m ?e))"
    unfolding rename_edge_id_def by (auto split: option.split pyval.split intro!: jsonable_dset)
  then show ?thesis using PDict by (simp add: rename_edge_def)
qed (simp_all add: rename_edge_def)

lemma jsonable_rename_graph_at: "jsonable (PDict d) \<Longrightarrow> jsonable (PDict (rename_graph_at m d))"
proof (cases "\<exists>g. map_of d ''graph'' = Some (PDict g)")
  case True
  assume d: "jsonable (PDict d)"
  from True obtain g where g: "map_of d ''graph'' = Some (PDict g)" by blast
  then have "jsonable (PDict g)" using d jsonable_get by blast
  then have "jsonable (PDict (rename_graph m g))"
    unfolding rename_graph_def by (intro jsonable_map_list_at jsonable_rename_node jsonable_rename_edge)
  then show ?thesis using g d jsonable_dset by (simp add: rename_graph_at_def)
next
  case False
  assume "jsonable (PDict d)"
  with False show ?thesis by (auto simp: rename_graph_at_def split: option.splits pyval.splits)
qed

lemma jsonable_rewrite_components:
  assumes "rewrite_components m cs = Inr es" and "jsonable (PDict cs)"
  shows "jsonable (PDict es)"
  using assms(1) unfolding rewrite_components_def
proof (rule fold_res_invariant)
  fix p s t
  assume "p \<in> set cs" "jsonable (PDict s)"
    and "(case p of (cid, component) \<Rightarrow> \<lambda>acc. try_then (rewrite_component m component)
        (\<lambda>c. Inr (dset (rename m cid) c acc))) s = Inr t"
  moreover have "jsonable (snd p)" using calculation(1) assms(2) by (auto simp: jsonable_nested jsonable_dict_iff list_all_iff)
  ultimately show "jsonable (PDict t)"
    using jsonable_rewrite_component jsonable_dset by (auto simp: try_then_Inr_iff split: prod.splits)
qed (simp add: jsonable_nested)

lemma jsonable_migrated: "normalize_chunker_dsl d = Inr e \<Longrightarrow> jsonable d \<Longrightarrow> jsonable e"
proof (cases "\<exists>x cs. d = PDict x \<and> map_of x ''components'' = Some (PDict cs)")
  case True
  assume a: "normalize_chunker_dsl d = Inr e" "jsonable d"
  from True obtain x cs where x: "d = PDict x" "map_of x ''components'' = Some (PDict cs)" by blast
  have cs: "jsonable (PDict cs)" using a(2) x jsonable_get by blast
  show ?thesis
  proof (rule normalize_components_cases [OF a(1) [unfolded x(1)] x(2)])
    fix es y z
    assume es: "rewrite_components (component_id_map cs) cs = Inr es"
      and y: "rename_list_at ''path'' (component_id_map cs) (dset ''components'' (PDict es) x) = Inr y"
      and z: "z = rewrite_at (component_id_map cs) ''reference'' (rewrite_at (component_id_map cs) ''messages''
          (rewrite_at (component_id_map cs) ''history'' (rename_graph_at (component_id_map cs) y)))"
      and e: "e = PDict z"
    have "jsonable (PDict (dset ''components'' (PDict es) x))"
      using jsonable_dset jsonable_rewrite_components [OF es cs] a(2) x(1) by blast
    then have "jsonable (PDict y)" by (rule jsonable_rename_list_at [OF y])
    then show "jsonable e" unfolding e z by (intro jsonable_rewrite_at jsonable_rename_graph_at)
  qed
next
  case False
  assume "normalize_chunker_dsl d = Inr e" "jsonable d"
  with False show ?thesis using normalize_unchanged by auto
qed


section \<open>Normal forms\<close>

lemma migrated_is_dict: "normalize_chunker_dsl (PDict d) = Inr e \<Longrightarrow> is_dict e"
  by (auto simp: normalize_chunker_dsl_def Let_def try_then_Inr_iff split: option.splits pyval.splits)

lemma normalize_dsl_object:
  assumes "jsonable (PDict d)"
  shows "normalize_dsl (PDict d) = (case normalize_chunker_dsl (PDict d) of
    Inr e \<Rightarrow> Inr e | Inl x \<Rightarrow> raise ValueError ''DSL is not JSON-serializable.'')"
  using jsonable_migrated [OF _ assms] stream_free_jsonable(1)
  by (auto simp: normalize_dsl_def json_text_def json_loads_dumps split: sum.splits)

lemma normalize_dsl_jsonable:
  assumes "jsonable (PDict d)" and "normalize_dsl (PDict d) = Inr e"
  shows "jsonable e \<and> is_dict e \<and> normalize_dsl e = Inr e"
proof -
  have n: "normalize_chunker_dsl (PDict d) = Inr e"
    using assms(2) by (auto simp: normalize_dsl_object [OF assms(1)] split: sum.splits)
  then have j: "jsonable e" "is_dict e" using jsonable_migrated [OF n assms(1)] migrated_is_dict by simp_all
  then obtain d' where "e = PDict d'" by (cases e) simp_all
  then show ?thesis using normalize_dsl_object [of d'] j migration_twice [OF n] by simp
qed

lemma read_payload_up:
  "redis_laws api up look \<Longrightarrow> up s \<Longrightarrow> read_payload api key s =
    (Inr (case look s key of None \<Rightarrow> None | Some t \<Rightarrow> if t = [] then None else parse_payload t), s)"
  by (simp add: read_payload_def redis_get_up act_defs)

text \<open>What a payload reads back as.\<close>

lemma parse_written:
  assumes "jsonable (PDict p)" and "map_of p ''dsl'' = Some e" and "normalize_dsl e = Inr e"
  shows "parse_payload (json_dumps (PDict p)) = Some p"
  using assms unfolding parse_payload_def json_loads_dumps [OF assms(1)] by (simp add: get_or_def dset_same)

lemma write_payload_up:
  assumes laws: "redis_laws api up look" and "up s" and p: "jsonable (PDict p)"
    and "map_of p ''dsl'' = Some e" and "normalize_dsl e = Inr e"
  shows "\<exists>t. write_payload api now key p s = (Inr (dset ''updated_at'' (PInt now) p), t) \<and> up t
    \<and> (\<forall>k. k \<noteq> key \<longrightarrow> look t k = look s k)
    \<and> read_payload api key t = (Inr (Some (dset ''updated_at'' (PInt now) p)), t)"
proof -
  let ?p = "dset ''updated_at'' (PInt now) p"
  have j: "jsonable (PDict ?p)" by (rule jsonable_dset [OF p]) simp
  obtain t where t: "redis_set_obj api key (PDict ?p) ttl_secs s = (Inr True, t)" "up t"
    "look t = (look s)(key := Some (json_dumps (PDict ?p)))"
    using redis_set_obj_up [OF laws assms(2) stream_free_jsonable(1) [OF j]] by blast
  have "read_payload api key t = (Inr (Some ?p), t)"
    using parse_written [OF j _ assms(5)] assms(4) t(3) by (simp add: read_payload_up [OF laws t(2)] dget_dset)
  then show ?thesis using t by (simp add: write_payload_def Let_def act_defs)
qed

lemma jsonable_build_payload:
  assumes "normalize_dsl e = Inr e" and "jsonable e" and "jsonable cat" and "jsonable title"
  obtains p where "build_payload now c t u e cat title = Inr p" and "jsonable (PDict p)" and "map_of p ''dsl'' = Some e"
    and "p = [(''canvas_id'', PStr c), (''tenant_id'', PStr t), (''runtime_user_id'', PStr u),
        (''title'', py_or title (PStr [])), (''canvas_category'', py_or cat agent_category),
        (''dsl'', e), (''updated_at'', PInt now)]"
  using assms by (simp add: build_payload_def jsonable_nested py_or_def agent_category_def)


text \<open>Bootstrapping never overwrites: when a replica can be loaded it is returned and the store is
  left as it is; otherwise the replica that is returned is the one loaded next.\<close>

theorem bootstrap_keeps_replica:
  assumes "redis_laws api up look" and "up s" and "jsonable (PDict d)" and "normalize_dsl (PDict d) = Inr e"
    and "jsonable cat" and "jsonable title"
  shows "\<exists>p s'. bootstrap api now c t u (PDict d) cat title s = (Inr p, s') \<and> load_for_run api c t u s' = (Inr (Some p), s')
    \<and> (\<forall>q. load_for_run api c t u s = (Inr (Some q), s) \<longrightarrow> p = q \<and> s' = s)"
proof -
  note e = normalize_dsl_jsonable [OF assms(3,4)]
  let ?key = "replica_key c t u"
  obtain found where found: "read_payload api ?key s = (Inr found, s)" by (simp add: read_payload_up [OF assms(1,2)])
  show ?thesis
  proof (cases found)
    case (Some q)
    then show ?thesis using found
      by (simp add: bootstrap_def create_if_absent_def load_for_run_def Let_def act_defs)
  next
    case None
    obtain p where p: "build_payload now c t u e cat title = Inr p" "jsonable (PDict p)" "map_of p ''dsl'' = Some e"
      using e assms(5,6) by (elim conjE jsonable_build_payload)
    have same: "build_payload now c t u (PDict d) cat title = build_payload now c t u e cat title"
      using e assms(4) by (simp add: build_payload_def)
    obtain s' where "write_payload api now ?key p s = (Inr (dset ''updated_at'' (PInt now) p), s')"
      "read_payload api ?key s' = (Inr (Some (dset ''updated_at'' (PInt now) p)), s')"
      using write_payload_up [OF assms(1,2) p(2,3)] e by blast
    then show ?thesis using found None p(1)
      by (simp add: bootstrap_def create_if_absent_def load_for_run_def Let_def act_defs same)
  qed
qed

text \<open>A commit reports success even when the store refuses the write: the adapter swallows the
  exception of the client and the service ignores what it returns.\<close>

theorem failed_write_reported_as_success:
  assumes "srv_alive api s" and "\<And>k. srv_get api k s = (Inr None, s)" and "\<And>k v n. srv_set api k v n s = (Inl x, s)"
    and "srv_open api s = (Inr (), s)" and "normalize_dsl dsl = Inr d" and "normalize_dsl d = Inr d"
  shows "commit_after_run api now c t u dsl cat title s = (Inr True, s)"
proof -
  have g: "read_payload api k s = (Inr None, s)" for k
    by (simp add: read_payload_def redis_get_def try_except_def assms bnd_apply ret_def)
  have "redis_set_obj api k v n s = (Inr False, s)" for k v n
    by (cases "stream_free v") (simp_all add: redis_set_obj_def json_text_def try_except_def assms act_defs)
  then have w: "write_payload api now k p s = (Inr (dset ''updated_at'' (PInt now) p), s)" for k p
    by (simp add: write_payload_def Let_def bnd_apply ret_def)
  show ?thesis
    by (simp add: commit_after_run_def Let_def bnd_apply lift_def ret_def try_except_def assms(5,6) g build_payload_def w)
qed


section \<open>The operations on a concrete store\<close>

definition demo_dsl :: pdict where
  "demo_dsl = [(''components'', PDict [(''Splitter:0'', PDict [(''obj'', PDict [(''component_name'', PStr ''Splitter'')]),
      (''downstream'', PList [PStr ''Message:1''])])]), (''path'', PList [PStr ''Splitter:0''])]"

lemma demo_dsl_jsonable: "jsonable (PDict demo_dsl)"
  by (simp add: demo_dsl_def jsonable_nested)

lemma demo_dsl_normal: obtains e where "normalize_dsl (PDict demo_dsl) = Inr e"
proof -
  obtain e where "normalize_chunker_dsl (PDict demo_dsl) = Inr e"
    by (simp add: demo_dsl_def py_defs Let_def)
  then show thesis using that normalize_dsl_object [OF demo_dsl_jsonable] by simp
qed


theorem bootstrap_keeps_replica_witness:
  "\<exists>p s'. bootstrap map_server 7 ''c1'' ''t1'' ''u1'' (PDict demo_dsl) PNone PNone [] = (Inr p, s')
    \<and> load_for_run map_server ''c1'' ''t1'' ''u1'' s' = (Inr (Some p), s')"
proof -
  obtain e where e: "normalize_dsl (PDict demo_dsl) = Inr e" by (rule demo_dsl_normal)
  show ?thesis
    using bootstrap_keeps_replica [OF map_server_laws _ demo_dsl_jsonable e, where s = "[]" and cat = PNone and title = PNone
        and now = 7 and c = "''c1''" and t = "''t1''" and u = "''u1''"] by auto
qed

text \<open>A server that refuses every write.\<close>

definition read_only_server :: "(string, string) dict redis_api" where
  "read_only_server = map_server\<lparr>srv_set := (\<lambda>k v n s. (raise GenericException ''READONLY'', s))\<rparr>"

theorem failed_write_reported_as_success_witness:
  "commit_after_run read_only_server 7 ''c1'' ''t1'' ''u1'' (PDict demo_dsl) PNone PNone [] = (Inr True, [])"
proof -
  obtain e where e: "normalize_dsl (PDict demo_dsl) = Inr e" by (rule demo_dsl_normal)
  then have "normalize_dsl e = Inr e" using normalize_dsl_jsonable [OF demo_dsl_jsonable] by blast
  with e show ?thesis
    by (intro failed_write_reported_as_success) (simp_all add: read_only_server_def map_server_def act_defs)
qed

declare jsonable_nested [simp]

end
