(* ===== verification/Vault.thy ===== *)
theory Vault
  imports RedisStore
begin

text \<open>
  The local secrets vault and what it guards: the privacy settings of a canvas
  (\<open>common/agent_privacy.py\<close>), the encrypted categories with their unlock sessions
  (\<open>common/local_secrets_vault.py\<close>) and the injection of secrets into a canvas
  (\<open>common/vault_runtime.py\<close>).

  Redis is the adapter of theory RedisStore, the files are two maps by user digest. The
  cryptography, the one-time codes, the environment and the clock are fields of
  \<open>vault_env\<close>. JSON is read and written by value: indentation, separators and ASCII
  escapes of the stored text are not modelled.
\<close>

section \<open>Privacy settings\<close>

definition coerce_dsl :: "pyval \<Rightarrow> pdict option" where
  "coerce_dsl dsl = (case dsl of
     PDict d \<Rightarrow> Some d
   | PStr s \<Rightarrow> (case json_loads s of Some (PDict d) \<Rightarrow> Some d | _ \<Rightarrow> None)
   | _ \<Rightarrow> None)"

text \<open>\<open>(data.get("globals") or {}).get("privacy") or {}\<close>.\<close>

definition privacy_of :: "pdict \<Rightarrow> pyval res" where
  "privacy_of data = try_then (get_method (py_or (get_none data ''globals'') (PDict [])) ''privacy'' PNone)
     (\<lambda>p. Inr (py_or p (PDict [])))"

text \<open>A flag of the settings; the default is another flag, or nothing.\<close>

definition privacy_flag :: "pyval \<Rightarrow> string \<Rightarrow> string option \<Rightarrow> bool" where
  "privacy_flag p name fallback = (case p of
     PDict d \<Rightarrow> truthy (get_or d name (case fallback of None \<Rightarrow> PNone | Some f \<Rightarrow> get_none d f))
   | _ \<Rightarrow> False)"

definition dsl_flag :: "string \<Rightarrow> string option \<Rightarrow> pyval \<Rightarrow> bool res" where
  "dsl_flag name fallback dsl = (case coerce_dsl dsl of
     None \<Rightarrow> Inr False
   | Some data \<Rightarrow> if data = [] then Inr False
       else try_then (privacy_of data) (\<lambda>p. Inr (privacy_flag p name fallback)))"

definition ephemeral_sessions_enabled :: "pyval \<Rightarrow> bool res" where
  "ephemeral_sessions_enabled dsl = dsl_flag ''ephemeral_sessions'' None dsl"

definition hardware_auth_required :: "pyval \<Rightarrow> bool res" where
  "hardware_auth_required dsl = dsl_flag ''hardware_auth_required'' None dsl"

definition zero_trust_enabled :: "pyval \<Rightarrow> bool res" where
  "zero_trust_enabled dsl = dsl_flag ''zero_trust'' None dsl"

definition local_vault_required :: "pyval \<Rightarrow> bool res" where
  "local_vault_required dsl = zero_trust_enabled dsl"

definition obsidian_2fa_required :: "pyval \<Rightarrow> bool res" where
  "obsidian_2fa_required dsl = dsl_flag ''obsidian_2fa'' (Some ''zero_trust'') dsl"

definition privacy_policy :: "pyval \<Rightarrow> (string \<times> bool) list res" where
  "privacy_policy dsl =
     (let data = (case coerce_dsl dsl of None \<Rightarrow> [] | Some d \<Rightarrow> d)
      in try_then (privacy_of data) (\<lambda>p0.
         let p = (if is_dict p0 then p0 else PDict [])
         in Inr [(''ephemeral_sessions'', privacy_flag p ''ephemeral_sessions'' None),
                 (''hardware_auth_required'', privacy_flag p ''hardware_auth_required'' None),
                 (''zero_trust'', privacy_flag p ''zero_trust'' None),
                 (''local_vault_required'', privacy_flag p ''local_vault_required'' (Some ''zero_trust'')),
                 (''obsidian_2fa'', privacy_flag p ''obsidian_2fa'' (Some ''zero_trust''))]))"

section \<open>The world of the vault\<close>

record 's vault_env =
  ve_redis :: "'s redis_api"
  ve_sha256 :: "string \<Rightarrow> string"
  ve_key :: "string \<Rightarrow> string"
  ve_encrypt :: "string \<Rightarrow> string \<Rightarrow> string"
  ve_decrypt :: "string \<Rightarrow> string \<Rightarrow> string res"
  ve_totp :: "string \<Rightarrow> string \<Rightarrow> bool"
  ve_new_secret :: string
  ve_master :: string
  ve_user :: string
  ve_now :: int
  ve_ttl :: nat

record 's world =
  w_redis :: "'s"
  w_meta :: "(string, string) dict"
  w_blob :: "(string, string) dict"

type_synonym ('s, 'a) vault_act = "('s world, 'a) act"

definition on_redis :: "('s, 'a) act \<Rightarrow> ('s, 'a) vault_act" where
  "on_redis m = (\<lambda>w. case m (w_redis w) of (r, s) \<Rightarrow> (r, w\<lparr>w_redis := s\<rparr>))"

definition sealed_categories :: "string list" where
  "sealed_categories = [''api_keys'', ''prompts'', ''connectors'', ''ragflow_creds'']"

section \<open>Keys and files\<close>

definition vault_error :: "string \<Rightarrow> 'a res" where
  "vault_error msg = raise VaultError msg"

definition require_master :: "'s vault_env \<Rightarrow> string res" where
  "require_master env =
     (let master = strip (ve_master env)
      in if master = [] then vault_error
           ''MAIL_INTEL_VAULT_MASTER is not configured. Set it in your host environment (never commit).''
         else Inr master)"

definition user_digest :: "'s vault_env \<Rightarrow> string \<Rightarrow> string" where
  "user_digest env user_id = take 32 (ve_sha256 env user_id)"

text \<open>The bytes of the SHA-256 digest of the parts.\<close>

definition derive_key :: "'s vault_env \<Rightarrow> string list \<Rightarrow> string" where
  "derive_key env parts = ve_key env (join_str ''|'' parts)"

definition at_rest_key :: "'s vault_env \<Rightarrow> string \<Rightarrow> string res" where
  "at_rest_key env user_id = try_then (require_master env)
     (\<lambda>m. Inr (derive_key env [m, user_id, ''mail-intel-local-vault-v1'']))"

definition meta_key :: "'s vault_env \<Rightarrow> string \<Rightarrow> string res" where
  "meta_key env user_id = try_then (require_master env)
     (\<lambda>m. Inr (derive_key env [m, user_id, ''mail-intel-local-vault-meta-v1'']))"

definition vault_initialized :: "'s vault_env \<Rightarrow> string \<Rightarrow> 's world \<Rightarrow> bool" where
  "vault_initialized env user_id w =
     (has_key (w_meta w) (user_digest env user_id) \<and> has_key (w_blob w) (user_digest env user_id))"

definition parse_file :: "string \<Rightarrow> pyval res" where
  "parse_file t = (case json_loads t of Some v \<Rightarrow> Inr v | None \<Rightarrow> raise ValueError ''Expecting value'')"

definition load_meta :: "'s vault_env \<Rightarrow> string \<Rightarrow> ('s, pyval) vault_act" where
  "load_meta env user_id = gets_res (\<lambda>w. case map_of (w_meta w) (user_digest env user_id) of
     None \<Rightarrow> vault_error ''Local vault is not initialized. Run scripts/init_mail_intel_vault.py.''
   | Some t \<Rightarrow> parse_file t)"

definition save_meta :: "'s vault_env \<Rightarrow> string \<Rightarrow> pdict \<Rightarrow> ('s, unit) vault_act" where
  "save_meta env user_id payload =
     modify (\<lambda>w. w\<lparr>w_meta := dset (user_digest env user_id) (json_dumps (PDict payload)) (w_meta w)\<rparr>)"

definition load_encrypted_blob :: "'s vault_env \<Rightarrow> string \<Rightarrow> ('s, pyval) vault_act" where
  "load_encrypted_blob env user_id = gets_res (\<lambda>w. case map_of (w_blob w) (user_digest env user_id) of
     None \<Rightarrow> vault_error ''Local vault blob is missing.''
   | Some t \<Rightarrow> parse_file t)"

definition save_encrypted_blob :: "'s vault_env \<Rightarrow> string \<Rightarrow> pdict \<Rightarrow> ('s, unit) vault_act" where
  "save_encrypted_blob env user_id envelope =
     modify (\<lambda>w. w\<lparr>w_blob := dset (user_digest env user_id) (json_dumps (PDict envelope)) (w_blob w)\<rparr>)"

section \<open>Categories at rest\<close>

definition empty_categories :: pdict where
  "empty_categories = map (\<lambda>name. (name, PDict [])) sealed_categories"

text \<open>The sections of \<open>data\<close> that are objects, over the sections of \<open>base\<close>.\<close>

definition merge_sections :: "pdict \<Rightarrow> pdict \<Rightarrow> pdict" where
  "merge_sections base data = fold (\<lambda>key acc. if is_dict (get_none data key) then dset key (get_none data key) acc else acc)
     sealed_categories base"

definition decrypt_categories :: "'s vault_env \<Rightarrow> string \<Rightarrow> ('s, pdict) vault_act" where
  "decrypt_categories env user_id = bnd (load_encrypted_blob env user_id) (\<lambda>envelope.
     bnd (lift (get_method envelope ''blob'' PNone)) (\<lambda>blob.
       if \<not> truthy blob then ret empty_categories
       else lift (try_then (at_rest_key env user_id) (\<lambda>k. try_then (as_str ''encode'' blob) (\<lambda>b.
              try_then (ve_decrypt env b k) (\<lambda>raw. try_then (parse_file raw) (\<lambda>data.
                Inr (case data of PDict d \<Rightarrow> merge_sections empty_categories d | _ \<Rightarrow> empty_categories))))))))"

definition encrypt_categories :: "'s vault_env \<Rightarrow> string \<Rightarrow> pdict \<Rightarrow> ('s, unit) vault_act" where
  "encrypt_categories env user_id categories =
     bnd (lift (json_text (PDict (map (\<lambda>name. (name, get_or categories name (PDict []))) sealed_categories)))) (\<lambda>t.
     bnd (lift (at_rest_key env user_id)) (\<lambda>k.
       save_encrypted_blob env user_id
         [(''v'', PInt 1), (''cipher'', PStr ''aes-256-gcm''), (''blob'', PStr (ve_encrypt env t k))]))"

section \<open>Sessions\<close>

definition session_key :: "string \<Rightarrow> string" where
  "session_key user_id = ''mail-intel:local-vault-session:'' @ user_id"

definition data_key :: "string \<Rightarrow> string" where
  "data_key user_id = ''mail-intel:local-vault-data:'' @ user_id"

text \<open>An object stored under a key, or nothing.\<close>

definition stored_object :: "'s vault_env \<Rightarrow> string \<Rightarrow> ('s, pdict option) vault_act" where
  "stored_object env key = bnd (try_except (on_redis (redis_get (ve_redis env) key)) (\<lambda>e. ret None)) (\<lambda>raw.
     ret (case raw of None \<Rightarrow> None | Some t \<Rightarrow>
       if t = [] then None else (case json_loads t of Some (PDict d) \<Rightarrow> Some d | _ \<Rightarrow> None)))"

definition session_payload :: "'s vault_env \<Rightarrow> string \<Rightarrow> ('s, pdict option) vault_act" where
  "session_payload env user_id = stored_object env (session_key user_id)"

definition cached_categories :: "'s vault_env \<Rightarrow> string \<Rightarrow> ('s, pdict option) vault_act" where
  "cached_categories env user_id = stored_object env (data_key user_id)"

definition store_object :: "'s vault_env \<Rightarrow> string \<Rightarrow> pdict \<Rightarrow> ('s, unit) vault_act" where
  "store_object env key payload = try_except
     (bnd (lift (json_text (PDict payload))) (\<lambda>t. bnd (on_redis (redis_set (ve_redis env) key t (ve_ttl env))) (\<lambda>_. ret ())))
     (\<lambda>e. lift (vault_error ''Vault session store unavailable.''))"

definition store_session :: "'s vault_env \<Rightarrow> string \<Rightarrow> pyval \<Rightarrow> pyval \<Rightarrow> ('s, unit) vault_act" where
  "store_session env user_id vault obsidian = store_object env (session_key user_id)
     [(''vault'', vault), (''obsidian'', obsidian), (''unlocked_at'', PInt (ve_now env))]"

definition store_decrypted_cache :: "'s vault_env \<Rightarrow> string \<Rightarrow> pdict \<Rightarrow> ('s, unit) vault_act" where
  "store_decrypted_cache env user_id categories = store_object env (data_key user_id) categories"

definition clear_session :: "'s vault_env \<Rightarrow> string \<Rightarrow> ('s, unit) vault_act" where
  "clear_session env user_id = try_except
     (bnd (on_redis (redis_delete (ve_redis env) (session_key user_id))) (\<lambda>_.
      bnd (on_redis (redis_delete (ve_redis env) (data_key user_id))) (\<lambda>_. ret ()))) (\<lambda>e. ret ())"

definition session_flag :: "string \<Rightarrow> pdict option \<Rightarrow> bool" where
  "session_flag name session = (case session of None \<Rightarrow> False | Some d \<Rightarrow> truthy (get_none d name))"

definition is_unlocked :: "'s vault_env \<Rightarrow> string \<Rightarrow> ('s, bool) vault_act" where
  "is_unlocked env user_id = bnd (session_payload env user_id) (\<lambda>s. ret (session_flag ''vault'' s))"

definition is_obsidian_unlocked :: "'s vault_env \<Rightarrow> string \<Rightarrow> ('s, bool) vault_act" where
  "is_obsidian_unlocked env user_id = bnd (session_payload env user_id) (\<lambda>s. ret (session_flag ''obsidian'' s))"

definition require_vault_unlocked :: "'s vault_env \<Rightarrow> string \<Rightarrow> ('s, unit) vault_act" where
  "require_vault_unlocked env user_id = bnd (is_unlocked env user_id) (\<lambda>b. if b then ret ()
     else lift (raise VaultLockedError ''Local vault is locked. Enter your verification code to unlock.''))"

definition require_obsidian_unlocked :: "'s vault_env \<Rightarrow> string \<Rightarrow> ('s, unit) vault_act" where
  "require_obsidian_unlocked env user_id = bnd (is_obsidian_unlocked env user_id) (\<lambda>b. if b then ret ()
     else lift (raise VaultLockedError
       ''Offline vault access is locked. Verify with your authenticator app to continue.''))"

section \<open>Unlocking\<close>

definition verify_totp :: "'s vault_env \<Rightarrow> string \<Rightarrow> string \<Rightarrow> ('s, bool) vault_act" where
  "verify_totp env user_id code = bnd (load_meta env user_id) (\<lambda>meta.
     bnd (lift (get_method meta ''totp_secret_enc'' PNone)) (\<lambda>enc.
       if \<not> truthy enc then lift (vault_error ''TOTP is not configured for this vault.'')
       else lift (try_then (meta_key env user_id) (\<lambda>k. try_then (as_str ''encode'' enc) (\<lambda>e.
              try_then (ve_decrypt env e k) (\<lambda>secret.
                let normalized = filter is_digit_char (strip code)
                in Inr (normalized \<noteq> [] \<and> ve_totp env secret normalized)))))))"

definition init_vault :: "'s vault_env \<Rightarrow> string \<Rightarrow> string \<Rightarrow> pdict \<Rightarrow> ('s, string) vault_act" where
  "init_vault env user_id totp_secret categories = bnd (lift (require_master env)) (\<lambda>_.
     let secret = (if totp_secret = [] then ve_new_secret env else totp_secret)
     in bnd (lift (meta_key env user_id)) (\<lambda>k.
        bnd (save_meta env user_id [(''v'', PInt 1), (''totp_secret_enc'', PStr (ve_encrypt env secret k))]) (\<lambda>_.
        bnd (encrypt_categories env user_id (merge_sections empty_categories categories)) (\<lambda>_. ret secret))))"

definition seal_categories :: "'s vault_env \<Rightarrow> string \<Rightarrow> pdict \<Rightarrow> ('s, unit) vault_act" where
  "seal_categories env user_id categories = bnd (gets (vault_initialized env user_id)) (\<lambda>ready.
     if \<not> ready then bnd (init_vault env user_id [] categories) (\<lambda>_. ret ())
     else bnd (decrypt_categories env user_id) (\<lambda>stored.
          let current = merge_sections stored categories
          in bnd (encrypt_categories env user_id current) (\<lambda>_.
             bnd (is_unlocked env user_id) (\<lambda>b.
               if b then store_decrypted_cache env user_id current else ret ()))))"

text \<open>\<open>begin_totp_setup\<close>; the provisioning address and its picture come from a library.\<close>

definition begin_totp_setup :: "'s vault_env \<Rightarrow> string \<Rightarrow> ('s, string) vault_act" where
  "begin_totp_setup env user_id = bnd (gets (vault_initialized env user_id)) (\<lambda>ready.
     if ready then lift (vault_error
       ''Local vault is already initialized. Enter your authenticator code to unlock.'')
     else init_vault env user_id [] [])"

definition unlock_vault ::
    "'s vault_env \<Rightarrow> string \<Rightarrow> string \<Rightarrow> string \<Rightarrow> bool \<Rightarrow> bool \<Rightarrow> ('s, pdict) vault_act" where
  "unlock_vault env user_id totp_code hardware_token want_vault want_obsidian =
     bnd (gets (vault_initialized env user_id)) (\<lambda>ready.
     if \<not> ready then lift (vault_error ''Local vault is not initialized.'')
     else bnd (verify_totp env user_id totp_code) (\<lambda>valid.
     if \<not> valid then lift (vault_error ''Invalid verification code.'')
     else bnd (session_payload env user_id) (\<lambda>found.
       let session0 = (case found of Some d \<Rightarrow> if d = [] then [(''vault'', PBool False), (''obsidian'', PBool False)] else d
                       | None \<Rightarrow> [(''vault'', PBool False), (''obsidian'', PBool False)]);
           session1 = (if want_vault then dset ''vault'' (PBool True) session0 else session0);
           session = (if want_obsidian then dset ''obsidian'' (PBool True) session1 else session1)
       in bnd (lift (dict_item session ''vault'')) (\<lambda>vault.
          bnd (lift (dict_item session ''obsidian'')) (\<lambda>obsidian.
          bnd (store_session env user_id vault obsidian) (\<lambda>_.
          bnd (if truthy vault then bnd (decrypt_categories env user_id) (store_decrypted_cache env user_id) else ret ()) (\<lambda>_.
            ret [(''unlocked'', PBool True), (''vault'', vault), (''obsidian'', obsidian),
                 (''expires_in'', PInt (int (ve_ttl env))), (''hardware_bound'', PBool (hardware_token \<noteq> []))])))))))"

definition lock_vault :: "'s vault_env \<Rightarrow> string \<Rightarrow> ('s, unit) vault_act" where
  "lock_vault env user_id = clear_session env user_id"

definition vault_status :: "'s vault_env \<Rightarrow> string \<Rightarrow> ('s, pdict) vault_act" where
  "vault_status env user_id = bnd (gets (vault_initialized env user_id)) (\<lambda>initialized.
     bnd (session_payload env user_id) (\<lambda>session.
       ret [(''initialized'', PBool initialized), (''needs_totp_setup'', PBool (\<not> initialized)),
            (''vault_unlocked'', PBool (session_flag ''vault'' session)),
            (''obsidian_unlocked'', PBool (session_flag ''obsidian'' session)),
            (''master_configured'', PBool (strip (ve_master env) \<noteq> [])),
            (''session_ttl_sec'', PInt (int (ve_ttl env))),
            (''categories'', PList (map PStr sealed_categories))]))"

section \<open>Reading secrets\<close>

definition as_section :: "pyval \<Rightarrow> pdict" where
  "as_section v = (case v of PDict d \<Rightarrow> d | _ \<Rightarrow> [])"

definition get_category :: "'s vault_env \<Rightarrow> string \<Rightarrow> string \<Rightarrow> ('s, pdict) vault_act" where
  "get_category env user_id category =
     (if category \<notin> set sealed_categories then ret []
      else bnd (is_unlocked env user_id) (\<lambda>b.
        if \<not> b then ret []
        else bnd (cached_categories env user_id) (\<lambda>cached. case cached of
             Some d \<Rightarrow> (if is_dict (get_none d category) then ret (as_section (get_none d category))
                        else bnd (decrypt_categories env user_id) (\<lambda>data. ret (as_section (get_or data category (PDict [])))))
           | None \<Rightarrow> bnd (decrypt_categories env user_id) (\<lambda>data. ret (as_section (get_or data category (PDict [])))))))"

text \<open>A string that is not blank, stripped.\<close>

definition nonblank :: "pyval \<Rightarrow> string option" where
  "nonblank v = (case v of PStr s \<Rightarrow> (if strip s = [] then None else Some (strip s)) | _ \<Rightarrow> None)"

definition get_prompt :: "'s vault_env \<Rightarrow> string \<Rightarrow> string \<Rightarrow> ('s, string option) vault_act" where
  "get_prompt env user_id name = bnd (get_category env user_id ''prompts'') (\<lambda>d. ret (nonblank (get_none d name)))"

definition get_api_key :: "'s vault_env \<Rightarrow> string \<Rightarrow> string \<Rightarrow> ('s, string option) vault_act" where
  "get_api_key env user_id name = bnd (get_category env user_id ''api_keys'') (\<lambda>d. ret (nonblank (get_none d name)))"

end
