(* ===== verification/VaultRuntime.thy ===== *)
theory VaultRuntime
  imports Vault
begin

text \<open>
  The injection of vault secrets into a canvas (\<open>common/vault_runtime.py\<close>). The
  functions change the DSL they are given in place, also when they raise half way, so they
  run on a pair of the DSL and the world of the vault. Loading a canvas swallows every
  exception of the injection (\<open>Graph.__init__\<close> in \<open>agent/canvas.py\<close>).
\<close>

section \<open>State\<close>

type_synonym ('s, 'a) inject_act = "(pdict \<times> 's world, 'a) act"

definition on_world :: "('s, 'a) vault_act \<Rightarrow> ('s, 'a) inject_act" where
  "on_world m = (\<lambda>(d, w). case m w of (r, w') \<Rightarrow> (r, (d, w')))"

definition on_dsl :: "(pdict \<Rightarrow> pdict) \<Rightarrow> ('s, unit) inject_act" where
  "on_dsl f = modify (\<lambda>(d, w). (f d, w))"

definition dsl_res :: "(pdict \<Rightarrow> 'a res) \<Rightarrow> ('s, 'a) inject_act" where
  "dsl_res f = gets_res (\<lambda>(d, w). f d)"

text \<open>The object that a path of keys leads to, changed in place.\<close>

fun update_in :: "string list \<Rightarrow> (pdict \<Rightarrow> pdict) \<Rightarrow> pdict \<Rightarrow> pdict" where
  "update_in [] f d = f d"
| "update_in (k # ks) f d = (case map_of d k of Some (PDict e) \<Rightarrow> dset k (PDict (update_in ks f e)) d | _ \<Rightarrow> d)"

definition on_params :: "string \<Rightarrow> (pdict \<Rightarrow> pdict) \<Rightarrow> ('s, unit) inject_act" where
  "on_params cid f = on_dsl (update_in [''components'', cid, ''obj'', ''params''] f)"

section \<open>Prompts\<close>

definition prompt_component_map :: "(string \<times> string) list" where
  "prompt_component_map =
     [(''begin'', ''begin_prologue''), (''Agent:InboxIndexer'', ''inbox_indexer''),
      (''Agent:CyberSecGate'', ''cyber_sec_gate''), (''Agent:CyberSecFocus'', ''cyber_sec_focus''),
      (''Agent:CareerMiner'', ''career_miner''), (''Agent:CareerMinerBrief'', ''career_miner''),
      (''Agent:CareerVerifier'', ''career_verifier''), (''Agent:AuctionMiner'', ''auction_miner''),
      (''Agent:AuctionMinerBrief'', ''auction_miner''), (''Agent:SubscriptionMiner'', ''subscription_miner''),
      (''Agent:SubscriptionMinerBrief'', ''subscription_miner''), (''Agent:CommerceMerge'', ''commerce_merge''),
      (''Agent:NotificationDigest'', ''notification_digest''),
      (''Agent:NotificationDigestBrief'', ''notification_digest''), (''Agent:FinanceMiner'', ''finance_miner''),
      (''Agent:BriefingSynth'', ''reception_synth'')]"

definition stub_prefix :: string where
  "stub_prefix = ''[PROMPT:''"

definition stub_suffix :: string where
  "stub_suffix = '' '' @ [CHR 0xE2, CHR 0x80, CHR 0x94] @ '' inject from local vault at deploy]''"

definition is_stub_prompt :: "pyval \<Rightarrow> bool" where
  "is_stub_prompt txt = (case txt of PStr s \<Rightarrow> starts_with (strip s) stub_prefix | _ \<Rightarrow> False)"

definition stub_prompt :: "string \<Rightarrow> string" where
  "stub_prompt name = stub_prefix @ name @ stub_suffix"

definition build_skeleton_prompts :: "(string \<times> string) list" where
  "build_skeleton_prompts = map (\<lambda>(key, val). (key, stub_prompt val)) (filter (\<lambda>(key, val). key \<noteq> ''begin'') prompt_component_map)"

definition resolve_user_id :: "'s vault_env \<Rightarrow> pdict \<Rightarrow> string option \<Rightarrow> string res" where
  "resolve_user_id env dsl tenant_id =
     try_then (get_method (py_or (get_none dsl ''globals'') (PDict [])) ''sys.user_id'' PNone) (\<lambda>u0.
     try_then (as_str ''strip'' (py_or u0 (PStr []))) (\<lambda>u.
       if strip u \<noteq> [] then Inr (strip u)
       else (case tenant_id of
          Some t \<Rightarrow> if t \<noteq> [] then Inr t else Inr (strip (ve_user env))
        | None \<Rightarrow> Inr (strip (ve_user env)))))"

text \<open>\<open>comp.get("obj") or {}\<close>, and its \<open>params\<close> when they are an object.\<close>

definition obj_of_component :: "pyval \<Rightarrow> pdict res" where
  "obj_of_component cpn = try_then (get_method cpn ''obj'' PNone) (\<lambda>o'. as_dict ''get'' (py_or o' (PDict [])))"

definition params_of_obj :: "pdict \<Rightarrow> pdict option" where
  "params_of_obj obj = (case get_none obj ''params'' of PDict p \<Rightarrow> Some p | _ \<Rightarrow> None)"

definition components_of :: "pdict \<Rightarrow> pdict res" where
  "components_of dsl = as_dict ''get'' (py_or (get_none dsl ''components'') (PDict []))"

definition inject_prompt :: "'s vault_env \<Rightarrow> string \<Rightarrow> string \<times> string \<Rightarrow> ('s, unit) inject_act" where
  "inject_prompt env user_id entry = (case entry of (cid, prompt_name) \<Rightarrow>
     bnd (dsl_res components_of) (\<lambda>components.
     if \<not> truthy (get_none components cid) then ret ()
     else bnd (lift (obj_of_component (get_none components cid))) (\<lambda>obj. case params_of_obj obj of
       None \<Rightarrow> ret ()
     | Some params \<Rightarrow> bnd (on_world (get_prompt env user_id prompt_name)) (\<lambda>found. case found of
         None \<Rightarrow> ret ()
       | Some prompt_text \<Rightarrow>
           if get_or obj ''component_name'' (PStr []) = PStr ''Begin''
           then on_params cid (dset ''prologue'' (PStr prompt_text))
           else if \<not> has_key params ''sys_prompt'' then ret ()
           else bnd (if is_stub_prompt (get_or params ''sys_prompt'' (PStr [])) then ret True
                     else dsl_res (\<lambda>d. zero_trust_enabled (PDict d))) (\<lambda>wanted.
             if \<not> wanted then ret ()
             else bnd (on_world (get_prompt env user_id ''no_thinking'')) (\<lambda>no_think.
               on_params cid (dset ''sys_prompt'' (PStr (replace_str ''{{NO_THINKING}}''
                 (case no_think of None \<Rightarrow> [] | Some t \<Rightarrow> t) prompt_text)))))))))"

definition inject_prompts_into_dsl :: "'s vault_env \<Rightarrow> string \<Rightarrow> ('s, unit) inject_act" where
  "inject_prompts_into_dsl env user_id =
     (if user_id = [] then ret ()
      else bnd (on_world (is_unlocked env user_id)) (\<lambda>b.
        if \<not> b then ret () else for_each (inject_prompt env user_id) prompt_component_map))"

section \<open>Keys of tools and connectors\<close>

definition inject_tool :: "string \<Rightarrow> pyval \<Rightarrow> pyval" where
  "inject_tool key tool = (case tool of
     PDict t \<Rightarrow>
       (if get_none t ''component_name'' \<noteq> PStr ''TavilySearch'' then tool
        else (let t1 = (if has_key t ''params'' then t else dset ''params'' (PDict []) t)
              in case get_none t1 ''params'' of
                   PDict p \<Rightarrow> PDict (dset ''params'' (PDict (dset ''api_key'' (PStr key) p)) t1)
                 | _ \<Rightarrow> PDict t1))
   | _ \<Rightarrow> tool)"

definition inject_tools :: "string \<Rightarrow> string \<Rightarrow> ('s, unit) inject_act" where
  "inject_tools key cid = bnd (dsl_res (\<lambda>d. try_then (components_of d) (\<lambda>cs. obj_of_component (get_none cs cid)))) (\<lambda>obj.
     case params_of_obj obj of
       None \<Rightarrow> ret ()
     | Some params \<Rightarrow> bnd (lift (py_iter (py_or (get_none params ''tools'') (PList [])))) (\<lambda>tools.
         case get_none params ''tools'' of
           PList xs \<Rightarrow> on_params cid (dset ''tools'' (PList (map (inject_tool key) xs)))
         | _ \<Rightarrow> ret ()))"

definition inject_api_keys_into_dsl :: "'s vault_env \<Rightarrow> string \<Rightarrow> ('s, unit) inject_act" where
  "inject_api_keys_into_dsl env user_id =
     (if user_id = [] then ret ()
      else bnd (on_world (is_unlocked env user_id)) (\<lambda>b.
        if \<not> b then ret ()
        else bnd (on_world (get_api_key env user_id ''TAVILY_API_KEY'')) (\<lambda>found. case found of
          None \<Rightarrow> ret ()
        | Some key \<Rightarrow> bnd (dsl_res components_of) (\<lambda>cs. for_each (inject_tools key) (dkeys cs)))))"

definition inject_connector :: "pyval \<Rightarrow> string \<Rightarrow> ('s, unit) inject_act" where
  "inject_connector imap_id cid = bnd (dsl_res (\<lambda>d. try_then (components_of d) (\<lambda>cs. obj_of_component (get_none cs cid)))) (\<lambda>obj.
     if get_none obj ''component_name'' \<noteq> PStr ''ImapInbox'' then ret ()
     else (case params_of_obj obj of
       None \<Rightarrow> ret ()
     | Some params \<Rightarrow> if truthy (get_none params ''connector_id'') then ret ()
         else on_params cid (dset ''connector_id'' (PStr (py_str imap_id)))))"

definition inject_connectors_into_dsl :: "'s vault_env \<Rightarrow> string \<Rightarrow> ('s, unit) inject_act" where
  "inject_connectors_into_dsl env user_id =
     (if user_id = [] then ret ()
      else bnd (on_world (is_unlocked env user_id)) (\<lambda>b.
        if \<not> b then ret ()
        else bnd (on_world (get_category env user_id ''connectors'')) (\<lambda>connectors.
          let imap_id = py_or (get_none connectors ''RAGFLOW_IMAP_CONNECTOR_ID'') (get_none connectors ''imap_connector_id'')
          in if \<not> truthy imap_id then ret ()
             else bnd (dsl_res components_of) (\<lambda>cs. for_each (inject_connector imap_id) (dkeys cs)))))"

section \<open>Injection when a canvas is loaded\<close>

definition maybe_inject_dsl_from_vault :: "'s vault_env \<Rightarrow> string option \<Rightarrow> ('s, unit) inject_act" where
  "maybe_inject_dsl_from_vault env tenant_id = bnd (dsl_res (\<lambda>d. zero_trust_enabled (PDict d))) (\<lambda>zero_trust.
     if \<not> zero_trust then ret ()
     else bnd (dsl_res (\<lambda>d. resolve_user_id env d tenant_id)) (\<lambda>user_id.
       if user_id = [] then ret ()
       else bnd (inject_prompts_into_dsl env user_id) (\<lambda>_.
            bnd (inject_api_keys_into_dsl env user_id) (\<lambda>_. inject_connectors_into_dsl env user_id))))"

definition load_with_vault :: "'s vault_env \<Rightarrow> string option \<Rightarrow> ('s, unit) inject_act" where
  "load_with_vault env tenant_id = try_except (maybe_inject_dsl_from_vault env tenant_id) (\<lambda>e. ret ())"

fun read_categories :: "'s vault_env \<Rightarrow> string \<Rightarrow> string list \<Rightarrow> ('s, pdict) vault_act" where
  "read_categories env user_id [] = ret []"
| "read_categories env user_id (cat # cats) = bnd (get_category env user_id cat) (\<lambda>d.
     bnd (read_categories env user_id cats) (\<lambda>rest. ret ((cat, PDict d) # rest)))"

definition load_vault_categories_for_deploy :: "'s vault_env \<Rightarrow> string \<Rightarrow> ('s, pdict) vault_act" where
  "load_vault_categories_for_deploy env user_id = bnd (is_unlocked env user_id) (\<lambda>b.
     if \<not> b then lift (raise VaultLockedError ''Unlock local vault before --inject-from-vault deploy.'')
     else read_categories env user_id sealed_categories)"

definition check_obsidian_gate :: "'s vault_env \<Rightarrow> string \<Rightarrow> ('s, unit) vault_act" where
  "check_obsidian_gate env user_id =
     (if user_id = [] then lift (raise VaultLockedError ''Offline vault access is locked.'')
      else require_obsidian_unlocked env user_id)"

definition obsidian_gate_active :: "string \<Rightarrow> bool" where
  "obsidian_gate_active setting = (lower (strip setting) \<in> {''1'', ''true'', ''yes''})"

section \<open>The world while Redis answers\<close>

definition vault_up :: "'s vault_env \<Rightarrow> ('s \<Rightarrow> bool) \<Rightarrow> ('s \<Rightarrow> string \<Rightarrow> string option) \<Rightarrow> 's world \<Rightarrow> bool" where
  "vault_up env up look w = (redis_laws (ve_redis env) up look \<and> up (w_redis w))"

definition object_at :: "('s \<Rightarrow> string \<Rightarrow> string option) \<Rightarrow> string \<Rightarrow> 's world \<Rightarrow> pdict option" where
  "object_at look key w = (case look (w_redis w) key of None \<Rightarrow> None | Some t \<Rightarrow>
     if t = [] then None else (case json_loads t of Some (PDict d) \<Rightarrow> Some d | _ \<Rightarrow> None))"

definition unlocked_at :: "('s \<Rightarrow> string \<Rightarrow> string option) \<Rightarrow> string \<Rightarrow> 's world \<Rightarrow> bool" where
  "unlocked_at look user_id w = session_flag ''vault'' (object_at look (session_key user_id) w)"

lemma stored_object_up:
  assumes "vault_up env up look w"
  shows "stored_object env key w = (Inr (object_at look key w), w)"
proof -
  have "redis_get (ve_redis env) key (w_redis w) = (Inr (look (w_redis w) key), w_redis w)"
    using redis_get_up [of "ve_redis env" up look] assms by (simp add: vault_up_def)
  then have "try_except (on_redis (redis_get (ve_redis env) key)) (\<lambda>e. ret None) w = (Inr (look (w_redis w) key), w)"
    by (simp add: on_redis_def try_except_def)
  then show ?thesis unfolding stored_object_def by (simp add: bnd_def ret_def object_at_def)
qed

lemma is_unlocked_up: "vault_up env up look w \<Longrightarrow> is_unlocked env u w = (Inr (unlocked_at look u w), w)"
  by (simp add: is_unlocked_def session_payload_def stored_object_up unlocked_at_def act_defs)

lemma redis_set_up:
  assumes "redis_laws api up look" and "up s"
  shows "\<exists>t. redis_set api k v n s = (Inr True, t) \<and> up t \<and> look t = (look s)(k := Some v)"
proof -
  obtain t where "srv_set api k v n s = (Inr (), t)" "up t" "look t = (look s)(k := Some v)"
    using assms unfolding redis_laws_def by blast
  then show ?thesis by (simp add: redis_set_def try_except_def act_defs)
qed

lemma redis_delete_up:
  assumes "redis_laws api up look" and "up s"
  shows "\<exists>t. redis_delete api k s = (Inr True, t) \<and> up t \<and> look t = (look s)(k := None)"
proof -
  obtain t where "srv_delete api k s = (Inr (), t)" "up t" "look t = (look s)(k := None)"
    using assms unfolding redis_laws_def by blast
  then show ?thesis by (simp add: redis_delete_def try_except_def act_defs)
qed

lemma store_object_up:
  assumes "vault_up env up look w" and "stream_free (PDict p)"
  shows "\<exists>t. store_object env key p w = (Inr (), w\<lparr>w_redis := t\<rparr>) \<and> vault_up env up look (w\<lparr>w_redis := t\<rparr>)
    \<and> look t = (look (w_redis w))(key := Some (json_dumps (PDict p)))"
proof -
  obtain t where t: "redis_set (ve_redis env) key (json_dumps (PDict p)) (ve_ttl env) (w_redis w) = (Inr True, t)" "up t"
    "look t = (look (w_redis w))(key := Some (json_dumps (PDict p)))"
    using redis_set_up [of "ve_redis env" up look "w_redis w"] assms(1) unfolding vault_up_def by blast
  have "json_text (PDict p) = Inr (json_dumps (PDict p))" using assms(2) by (simp only: json_text_def if_True)
  with t(1) have "store_object env key p w = (Inr (), w\<lparr>w_redis := t\<rparr>)"
    by (simp only: store_object_def on_redis_def try_except_def bnd_def lift_def ret_def prod.case sum.case)
  then show ?thesis using assms(1) t unfolding vault_up_def by auto
qed

section \<open>What an operation leaves alone\<close>

lemma keeps_if [intro]: "keeps P a \<Longrightarrow> keeps P b \<Longrightarrow> keeps P (if c then a else b)"
  by simp

lemmas keeps_rules = keeps_bnd keeps_try_except keeps_if keeps_ret keeps_lift keeps_gets keeps_gets_res

definition key_is :: "('s \<Rightarrow> bool) \<Rightarrow> ('s \<Rightarrow> string \<Rightarrow> string option) \<Rightarrow> string \<Rightarrow> string option \<Rightarrow> 's world \<Rightarrow> bool" where
  "key_is up look k v w = (up (w_redis w) \<and> look (w_redis w) k = v)"

lemma keeps_unchanged: "(\<And>w. P w \<Longrightarrow> snd (m w) = w) \<Longrightarrow> keeps P m"
  by (simp add: keeps_def)

lemma keeps_stored_object: "redis_laws (ve_redis env) up look \<Longrightarrow> keeps (key_is up look k v) (stored_object env key)"
  by (rule keeps_unchanged) (use stored_object_up [of env up look] in \<open>simp add: key_is_def vault_up_def\<close>)

lemma keeps_redis_set:
  assumes "redis_laws (ve_redis env) up look" and "k \<noteq> key"
  shows "keeps (key_is up look k v) (on_redis (redis_set (ve_redis env) key t n))"
  unfolding keeps_def
proof (intro allI impI)
  fix w
  assume w: "key_is up look k v w"
  obtain s where "redis_set (ve_redis env) key t n (w_redis w) = (Inr True, s)" "up s" "look s = (look (w_redis w))(key := Some t)"
    using redis_set_up [OF assms(1)] w unfolding key_is_def by blast
  then show "key_is up look k v (snd (on_redis (redis_set (ve_redis env) key t n) w))"
    using w assms(2) by (simp add: on_redis_def key_is_def)
qed

lemma keeps_redis_delete:
  assumes "redis_laws (ve_redis env) up look" and "k \<noteq> key \<or> v = None"
  shows "keeps (key_is up look k v) (on_redis (redis_delete (ve_redis env) key))"
  unfolding keeps_def
proof (intro allI impI)
  fix w
  assume w: "key_is up look k v w"
  obtain s where "redis_delete (ve_redis env) key (w_redis w) = (Inr True, s)" "up s" "look s = (look (w_redis w))(key := None)"
    using redis_delete_up [OF assms(1)] w unfolding key_is_def by blast
  then show "key_is up look k v (snd (on_redis (redis_delete (ve_redis env) key) w))"
    using w assms(2) by (auto simp: on_redis_def key_is_def)
qed

lemma keeps_store_object:
  "redis_laws (ve_redis env) up look \<Longrightarrow> k \<noteq> key \<Longrightarrow> keeps (key_is up look k v) (store_object env key p)"
  unfolding store_object_def by (intro keeps_try_except keeps_bnd keeps_lift keeps_ret keeps_redis_set)

lemma keeps_files [intro]:
  "keeps (key_is up look k v) (load_meta env u)" "keeps (key_is up look k v) (load_encrypted_blob env u)"
  "keeps (key_is up look k v) (save_meta env u p)" "keeps (key_is up look k v) (save_encrypted_blob env u p)"
  unfolding load_meta_def load_encrypted_blob_def save_meta_def save_encrypted_blob_def
  by (auto simp: key_is_def)

lemma keeps_decrypt [intro]: "keeps (key_is up look k v) (decrypt_categories env u)"
  unfolding decrypt_categories_def by (intro keeps_rules keeps_files)

lemma keeps_encrypt [intro]: "keeps (key_is up look k v) (encrypt_categories env u c)"
  unfolding encrypt_categories_def by (intro keeps_rules keeps_files)

lemma keeps_verify [intro]: "keeps (key_is up look k v) (verify_totp env u code)"
  unfolding verify_totp_def by (intro keeps_rules keeps_files)

lemma keeps_init [intro]: "keeps (key_is up look k v) (init_vault env u secret c)"
  unfolding init_vault_def Let_def by (intro keeps_rules keeps_files keeps_encrypt)

lemma keeps_is_unlocked:
  "redis_laws (ve_redis env) up look \<Longrightarrow> keeps (key_is up look k v) (is_unlocked env u)"
  unfolding is_unlocked_def session_payload_def by (intro keeps_bnd keeps_ret keeps_stored_object)

lemma session_keys [simp]: "session_key u = session_key u' \<longleftrightarrow> u = u'" "session_key u \<noteq> data_key u'" "data_key u \<noteq> session_key u'"
  by (simp_all add: session_key_def data_key_def)

lemma keeps_seal:
  "redis_laws (ve_redis env) up look \<Longrightarrow> keeps (key_is up look (session_key u) v) (seal_categories env u' c)"
  unfolding seal_categories_def Let_def store_decrypted_cache_def
  by (intro keeps_rules keeps_is_unlocked keeps_store_object keeps_init keeps_decrypt keeps_encrypt session_keys)

lemma keeps_unlock_other:
  "redis_laws (ve_redis env) up look \<Longrightarrow> u \<noteq> u' \<Longrightarrow>
    keeps (key_is up look (session_key u) v) (unlock_vault env u' code hw wv wo)"
  unfolding unlock_vault_def Let_def store_session_def session_payload_def store_decrypted_cache_def
  by (intro keeps_rules keeps_stored_object keeps_store_object keeps_verify keeps_decrypt session_keys) simp_all

lemma keeps_lock:
  "redis_laws (ve_redis env) up look \<Longrightarrow> u \<noteq> u' \<or> v = None \<Longrightarrow>
    keeps (key_is up look (session_key u) v) (lock_vault env u')"
  unfolding lock_vault_def clear_session_def
  by (intro keeps_rules keeps_redis_delete) auto


section \<open>A locked vault\<close>

lemma get_category_locked:
  assumes "vault_up env up look w" and "\<not> unlocked_at look u w"
  shows "get_category env u cat w = (Inr [], w)"
  by (simp add: get_category_def bnd_def ret_def is_unlocked_up [OF assms(1)] assms(2))

lemma injections_locked:
  assumes "vault_up env up look w" and "\<not> unlocked_at look u w"
  shows "inject_prompts_into_dsl env u (d, w) = (Inr (), (d, w))"
    and "inject_api_keys_into_dsl env u (d, w) = (Inr (), (d, w))"
    and "inject_connectors_into_dsl env u (d, w) = (Inr (), (d, w))"
  using is_unlocked_up [OF assms(1), of u] assms(2)
  by (simp_all add: inject_prompts_into_dsl_def inject_api_keys_into_dsl_def inject_connectors_into_dsl_def
      bnd_def ret_def on_world_def)

text \<open>C11: While a vault is locked no secret leaves it: every category reads as empty, and loading a canvas of
  that user gives the canvas as it was stored, with the world unchanged.\<close>

theorem locked_vault_reveals_nothing:
  assumes "vault_up env up look w" and "\<not> unlocked_at look u w"
    and "\<And>u'. resolve_user_id env d tenant = Inr u' \<Longrightarrow> u' = u"
  shows "get_category env u cat w = (Inr [], w) \<and> load_with_vault env tenant (d, w) = (Inr (), (d, w))"
proof -
  have "snd (maybe_inject_dsl_from_vault env tenant (d, w)) = (d, w)
      \<and> fst (maybe_inject_dsl_from_vault env tenant (d, w)) \<noteq> Inr () \<or>
    maybe_inject_dsl_from_vault env tenant (d, w) = (Inr (), (d, w))"
  proof (cases "zero_trust_enabled (PDict d)")
    case (Inl e)
    then show ?thesis by (simp add: maybe_inject_dsl_from_vault_def bnd_def dsl_res_def gets_res_def)
  next
    case zt: (Inr b)
    show ?thesis
    proof (cases "resolve_user_id env d tenant")
      case (Inl e)
      then show ?thesis using zt by (simp add: maybe_inject_dsl_from_vault_def bnd_def ret_def dsl_res_def gets_res_def)
    next
      case (Inr u')
      then have "u' = u" by (rule assms(3))
      then show ?thesis using zt Inr injections_locked [OF assms(1,2)]
        by (simp add: maybe_inject_dsl_from_vault_def bnd_def ret_def dsl_res_def gets_res_def)
    qed
  qed
  then have "load_with_vault env tenant (d, w) = (Inr (), (d, w))"
    by (auto simp: load_with_vault_def try_except_def ret_def split: prod.splits sum.splits)
  then show ?thesis using get_category_locked [OF assms(1,2)] by simp
qed

section \<open>The sessions as a state machine\<close>

text \<open>What can happen to the sessions: calls of the interface by any user, and keys that expire.\<close>

datatype vault_event = CodeAccepted string | CodeRefused string | Locked string | Sealed string | Expired string

inductive vault_step :: "'s vault_env \<Rightarrow> ('s \<Rightarrow> bool) \<Rightarrow> ('s \<Rightarrow> string \<Rightarrow> string option) \<Rightarrow>
    's world \<Rightarrow> vault_event \<Rightarrow> 's world \<Rightarrow> bool"
  for env up look where
  accepted: "verify_totp env u code w = (Inr True, w1) \<Longrightarrow> unlock_vault env u code hw wv wo w = (r, w') \<Longrightarrow>
    vault_step env up look w (CodeAccepted u) w'"
| refused: "verify_totp env u code w = (q, w1) \<Longrightarrow> q \<noteq> Inr True \<Longrightarrow> unlock_vault env u code hw wv wo w = (r, w') \<Longrightarrow>
    vault_step env up look w (CodeRefused u) w'"
| locked: "lock_vault env u w = (r, w') \<Longrightarrow> vault_step env up look w (Locked u) w'"
| sealed: "seal_categories env u c w = (r, w') \<Longrightarrow> vault_step env up look w (Sealed u) w'"
| expired: "up s \<Longrightarrow> look s = (look (w_redis w))(k := None) \<Longrightarrow>
    vault_step env up look w (Expired k) (w\<lparr>w_redis := s\<rparr>)"

inductive_cases vault_stepE: "vault_step env up look w e w'"

inductive_simps vault_step_expired: "vault_step env up look w (Expired k) w'"

inductive vault_run :: "'s vault_env \<Rightarrow> ('s \<Rightarrow> bool) \<Rightarrow> ('s \<Rightarrow> string \<Rightarrow> string option) \<Rightarrow>
    's world \<Rightarrow> vault_event list \<Rightarrow> 's world \<Rightarrow> bool"
  for env up look where
  start: "vault_run env up look w [] w"
| step: "vault_run env up look w es w1 \<Longrightarrow> vault_step env up look w1 e w2 \<Longrightarrow> vault_run env up look w (es @ [e]) w2"

lemma verify_state: "snd (verify_totp env u code w) = w"
proof -
  have "keeps (\<lambda>x. x = w) (verify_totp env u code)"
    unfolding verify_totp_def load_meta_def by (intro keeps_rules)
  then show ?thesis by (simp add: keeps_def)
qed

lemma unlock_refused:
  assumes "verify_totp env u code w = (q, w1)" and "q \<noteq> Inr True"
  shows "snd (unlock_vault env u code hw wv wo w) = w"
proof -
  have "w1 = w" using verify_state [of env u code w] assms(1) by simp
  then show ?thesis using assms
    by (cases q) (auto simp: unlock_vault_def bnd_def gets_def lift_def)
qed

text \<open>One step changes the session of a user only if a code of that user was accepted, it was locked, or it expired.\<close>

lemma vault_step_locked:
  assumes laws: "redis_laws (ve_redis env) up look" and "vault_step env up look w e w'" and "up (w_redis w)"
    and "\<not> unlocked_at look u w" and "e \<noteq> CodeAccepted u"
  shows "up (w_redis w') \<and> \<not> unlocked_at look u w'"
proof -
  have same: "up (w_redis w') \<and> \<not> unlocked_at look u w'"
    if "keeps (key_is up look (session_key u) (look (w_redis w) (session_key u))) m" and "m w = (r, w')"
    for m :: "('a world, 'b) act" and r
  proof -
    have "key_is up look (session_key u) (look (w_redis w) (session_key u)) w'"
      using keepsD [OF that] assms(3) by (simp add: key_is_def)
    then show ?thesis using assms(4) by (simp add: key_is_def unlocked_at_def object_at_def)
  qed
  from assms(2) show ?thesis
  proof cases
    case (accepted u' code w1 hw wv wo r)
    then have "u \<noteq> u'" using assms(5) by auto
    then show ?thesis using same [OF keeps_unlock_other [OF laws]] accepted by blast
  next
    case (refused u' code q w1 hw wv wo r)
    then have "w' = w" using unlock_refused by (metis snd_conv)
    then show ?thesis using assms(3,4) by simp
  next
    case (locked u' r)
    show ?thesis
    proof (cases "u = u'")
      case True
      obtain s where "redis_delete (ve_redis env) (session_key u) (w_redis w) = (Inr True, s)" "up s"
        "look s = (look (w_redis w))(session_key u := None)"
        using redis_delete_up [OF laws assms(3)] by blast
      moreover then obtain t where "redis_delete (ve_redis env) (data_key u) s = (Inr True, t)" "up t"
        "look t = (look s)(data_key u := None)"
        using redis_delete_up [OF laws] by blast
      ultimately show ?thesis using locked True
        by (auto simp: lock_vault_def clear_session_def try_except_def bnd_def ret_def on_redis_def
            unlocked_at_def object_at_def session_flag_def)
    next
      case False
      then show ?thesis using same [OF keeps_lock [OF laws]] locked by blast
    qed
  next
    case (sealed u' c r)
    then show ?thesis using same [OF keeps_seal [OF laws]] by blast
  next
    case (expired s k)
    then show ?thesis using assms(4)
      by (auto simp: unlocked_at_def object_at_def session_flag_def split: if_splits)
  qed
qed

lemma vault_run_locked:
  assumes "vault_run env up look w0 es w" and laws: "redis_laws (ve_redis env) up look"
    and "up (w_redis w0)" and "\<not> unlocked_at look u w0" and "CodeAccepted u \<notin> set es"
  shows "up (w_redis w) \<and> \<not> unlocked_at look u w"
  using assms(1,3-5)
proof (induction rule: vault_run.induct)
  case (start w)
  then show ?case by simp
next
  case (step w es w1 e w2)
  then have "up (w_redis w1)" "\<not> unlocked_at look u w1" by simp_all
  then show ?case using vault_step_locked [OF laws step.hyps(2)] step.prems(3) by auto
qed

text \<open>C12: A locked vault stays locked through any series of unlock attempts, locks, seals and expiries, by any
  users, unless a verification code of that user is accepted.\<close>

theorem vault_opens_only_with_code:
  assumes "redis_laws (ve_redis env) up look" and "vault_run env up look w0 es w"
    and "up (w_redis w0)" and "\<not> unlocked_at look u w0" and "unlocked_at look u w"
  shows "CodeAccepted u \<in> set es"
  using vault_run_locked [OF assms(2,1,3,4)] assms(5) by blast

section \<open>A world to evaluate on\<close>

text \<open>The cipher prefixes a byte, the only code is 123456, the store is a map.\<close>

definition demo_env :: "(string, string) dict vault_env" where
  "demo_env = \<lparr>ve_redis = map_server, ve_sha256 = (\<lambda>s. s), ve_key = (\<lambda>s. s),
     ve_encrypt = (\<lambda>t k. CHR ''#'' # t), ve_decrypt = (\<lambda>e k. Inr (tl e)),
     ve_totp = (\<lambda>secret code. code = ''123456''), ve_new_secret = ''SECRET'', ve_master = ''master'',
     ve_user = [], ve_now = 1, ve_ttl = 3600\<rparr>"

definition empty_world :: "(string, string) dict world" where
  "empty_world = \<lparr>w_redis = [], w_meta = [], w_blob = []\<rparr>"

definition ready_world :: "(string, string) dict world" where
  "ready_world = snd (init_vault demo_env ''ann'' [] [(''prompts'', PDict [(''begin_prologue'', PStr ''Hello'')])] empty_world)"

definition open_world :: "(string, string) dict world" where
  "open_world = snd (unlock_vault demo_env ''ann'' ''123 456'' [] True True ready_world)"

lemma ready_locked: "\<not> unlocked_at map_of ''ann'' ready_world"
  by code_simp

lemma open_unlocked: "unlocked_at map_of ''ann'' open_world"
  by code_simp

lemma code_accepted: "verify_totp demo_env ''ann'' ''123 456'' ready_world = (Inr True, ready_world)"
  by code_simp

lemma demo_up: "vault_up demo_env (\<lambda>s. True) map_of w"
  by (simp add: vault_up_def demo_env_def map_server_laws)

theorem locked_vault_reveals_nothing_witness:
  "get_category demo_env ''ann'' ''prompts'' ready_world = (Inr [], ready_world)
    \<and> load_with_vault demo_env (Some ''ann'') ([(''globals'', PDict [(''privacy'', PDict [(''zero_trust'', PBool True)])])], ready_world)
      = (Inr (), ([(''globals'', PDict [(''privacy'', PDict [(''zero_trust'', PBool True)])])], ready_world))"
proof (rule locked_vault_reveals_nothing [OF demo_up ready_locked])
  fix u'
  assume "resolve_user_id demo_env [(''globals'', PDict [(''privacy'', PDict [(''zero_trust'', PBool True)])])] (Some ''ann'') = Inr u'"
  moreover have "resolve_user_id demo_env [(''globals'', PDict [(''privacy'', PDict [(''zero_trust'', PBool True)])])] (Some ''ann'') = Inr ''ann''"
    by code_simp
  ultimately show "u' = ''ann''" by simp
qed

theorem vault_opens_only_with_code_witness:
  "\<exists>es. vault_run demo_env (\<lambda>s. True) map_of ready_world es open_world \<and> CodeAccepted ''ann'' \<in> set es"
proof -
  obtain r where "unlock_vault demo_env ''ann'' ''123 456'' [] True True ready_world = (r, open_world)"
    unfolding open_world_def by (metis prod.collapse)
  then have "vault_step demo_env (\<lambda>s. True) map_of ready_world (CodeAccepted ''ann'') open_world"
    by (rule vault_step.accepted [OF code_accepted])
  then have run: "vault_run demo_env (\<lambda>s. True) map_of ready_world ([] @ [CodeAccepted ''ann'']) open_world"
    by (rule vault_run.step [OF vault_run.start])
  have "redis_laws (ve_redis demo_env) (\<lambda>s. True) map_of" by (simp add: demo_env_def map_server_laws)
  from vault_opens_only_with_code [OF this run _ ready_locked open_unlocked] run show ?thesis by blast
qed

section \<open>Sealing, unlocking, reading\<close>

text \<open>What the program relies on of the cipher.\<close>

definition cipher_laws :: "'s vault_env \<Rightarrow> bool" where
  "cipher_laws env = (\<forall>t k. ve_decrypt env (ve_encrypt env t k) k = Inr t \<and> ve_encrypt env t k \<noteq> [])"

lemma merge_empty: "merge_sections empty_categories c =
    map (\<lambda>name. (name, if is_dict (get_none c name) then get_none c name else PDict [])) sealed_categories"
  by (simp add: merge_sections_def empty_categories_def sealed_categories_def)

lemma merge_merged: "merge_sections empty_categories (merge_sections empty_categories c) = merge_sections empty_categories c"
  by (simp add: merge_empty) (simp add: sealed_categories_def get_or_def)

lemma restrict_merged: "map (\<lambda>name. (name, get_or (merge_sections empty_categories c) name (PDict []))) sealed_categories
    = merge_sections empty_categories c"
  by (simp add: merge_empty) (simp add: sealed_categories_def get_or_def)

lemma jsonable_section: "jsonable_dict c \<Longrightarrow> jsonable (if is_dict (get_none c k) then get_none c k else PDict [])"
  by (induction c) (auto simp: get_or_def split: option.splits)

lemma jsonable_merged: "jsonable_dict c \<Longrightarrow> jsonable (PDict (merge_sections empty_categories c))"
proof -
  assume c: "jsonable_dict c"
  have "jsonable_dict (map (\<lambda>name. (name, if is_dict (get_none c name) then get_none c name else PDict [])) ns)" for ns
    using jsonable_section [OF c] by (induction ns) auto
  then have "jsonable_dict (merge_sections empty_categories c)" unfolding merge_empty .
  moreover have "distinct (dkeys (merge_sections empty_categories c))"
    unfolding merge_empty by (simp add: comp_def) (simp add: sealed_categories_def)
  ultimately show ?thesis by simp
qed


lemma map_of_map_key: "map_of (map (\<lambda>k. (k, f k)) ks) k = (if k \<in> set ks then Some (f k) else None)"
  by (induction ks) auto

text \<open>The files of a user that hold a secret and sealed categories.\<close>

definition holds :: "'s vault_env \<Rightarrow> string \<Rightarrow> string \<Rightarrow> pdict \<Rightarrow> 's world \<Rightarrow> bool" where
  "holds env u secret c w = (vault_initialized env u w
     \<and> (\<forall>code. verify_totp env u code w = (Inr (filter is_digit_char (strip code) \<noteq> []
           \<and> ve_totp env secret (filter is_digit_char (strip code))), w))
     \<and> decrypt_categories env u w = (Inr (merge_sections empty_categories c), w))"

lemma holds_redis: "holds env u secret c w \<Longrightarrow> holds env u secret c (w\<lparr>w_redis := s\<rparr>)"
proof -
  let ?v = "w\<lparr>w_redis := s\<rparr>"
  have l: "\<exists>m. load_meta env u w = (m, w) \<and> load_meta env u ?v = (m, ?v)"
    "\<exists>m. load_encrypted_blob env u w = (m, w) \<and> load_encrypted_blob env u ?v = (m, ?v)"
    by (simp_all add: load_meta_def load_encrypted_blob_def gets_res_def)
  obtain m where m: "load_meta env u w = (m, w)" "load_meta env u ?v = (m, ?v)" using l(1) by blast
  obtain n where n: "load_encrypted_blob env u w = (n, w)" "load_encrypted_blob env u ?v = (n, ?v)" using l(2) by blast
  have v: "\<exists>r. verify_totp env u code w = (r, w) \<and> verify_totp env u code ?v = (r, ?v)" for code
    unfolding verify_totp_def bnd_apply m
    by (cases m) (simp_all add: bnd_apply lift_def split: sum.split)
  have d: "\<exists>r. decrypt_categories env u w = (r, w) \<and> decrypt_categories env u ?v = (r, ?v)"
    unfolding decrypt_categories_def bnd_apply n
    by (cases n) (simp_all add: bnd_apply lift_def ret_def split: sum.split)
  assume "holds env u secret c w"
  then have h: "vault_initialized env u w" "verify_totp env u code w = (Inr (filter is_digit_char (strip code) \<noteq> []
        \<and> ve_totp env secret (filter is_digit_char (strip code))), w)"
      "decrypt_categories env u w = (Inr (merge_sections empty_categories c), w)" for code
    by (simp_all only: holds_def)
  have "vault_initialized env u ?v" using h(1) by (simp add: vault_initialized_def)
  moreover have "verify_totp env u code ?v = (Inr (filter is_digit_char (strip code) \<noteq> []
        \<and> ve_totp env secret (filter is_digit_char (strip code))), ?v)" for code
    using v [of code] unfolding h(2) by fastforce
  moreover have "decrypt_categories env u ?v = (Inr (merge_sections empty_categories c), ?v)"
    using d unfolding h(3) by fastforce
  ultimately show ?thesis unfolding holds_def by blast
qed

lemma init_vault_holds:
  assumes "cipher_laws env" and "strip (ve_master env) \<noteq> []" and "jsonable_dict c"
  shows "\<exists>w'. init_vault env u [] c w = (Inr (ve_new_secret env), w') \<and> w_redis w' = w_redis w
    \<and> holds env u (ve_new_secret env) c w'"
proof -
  let ?dig = "user_digest env u" and ?C = "merge_sections empty_categories c"
  obtain mk ak where mk: "meta_key env u = Inr mk" and ak: "at_rest_key env u = Inr ak"
    using assms(2) by (simp add: meta_key_def at_rest_key_def require_master_def Let_def)
  define meta where "meta = [(''v'', PInt 1), (''totp_secret_enc'', PStr (ve_encrypt env (ve_new_secret env) mk))]"
  define blob where "blob = [(''v'', PInt 1), (''cipher'', PStr ''aes-256-gcm''), (''blob'', PStr (ve_encrypt env (json_dumps (PDict ?C)) ak))]"
  define w' where "w' = w\<lparr>w_meta := dset ?dig (json_dumps (PDict meta)) (w_meta w), w_blob := dset ?dig (json_dumps (PDict blob)) (w_blob w)\<rparr>"
  have j: "jsonable (PDict ?C)" "jsonable (PDict meta)" "jsonable (PDict blob)"
    using jsonable_merged [OF assms(3)] by (simp_all add: meta_def blob_def)
  have t: "json_text (PDict ?C) = Inr (json_dumps (PDict ?C))"
    using stream_free_jsonable(1) [OF j(1)] by (simp only: json_text_def if_True)
  have "encrypt_categories env u ?C v = (Inr (), v\<lparr>w_blob := dset ?dig (json_dumps (PDict blob)) (w_blob v)\<rparr>)" for v
    unfolding encrypt_categories_def restrict_merged t ak blob_def
    by (simp add: bnd_def lift_def save_encrypted_blob_def modify_def del: json_dumps.simps)
  then have init: "init_vault env u [] c w = (Inr (ve_new_secret env), w')"
    using assms(2) unfolding init_vault_def mk w'_def meta_def
    by (simp add: bnd_def lift_def ret_def save_meta_def modify_def require_master_def Let_def del: json_dumps.simps)
  have files: "load_meta env u w' = (Inr (PDict meta), w')" "load_encrypted_blob env u w' = (Inr (PDict blob), w')"
    using json_loads_dumps [OF j(2)] json_loads_dumps [OF j(3)]
    by (simp_all add: load_meta_def load_encrypted_blob_def w'_def gets_res_def dget_dset parse_file_def del: json_dumps.simps)
  have "verify_totp env u code w' = (Inr (filter is_digit_char (strip code) \<noteq> []
      \<and> ve_totp env (ve_new_secret env) (filter is_digit_char (strip code))), w')" for code
    using assms(1) unfolding verify_totp_def bnd_apply files meta_def
    by (simp add: bnd_apply lift_def get_method_def get_or_def as_str_def mk cipher_laws_def Let_def)
  moreover have "decrypt_categories env u w' = (Inr ?C, w')"
    using assms(1) json_loads_dumps [OF j(1)] unfolding decrypt_categories_def bnd_apply files blob_def
    by (simp add: bnd_apply lift_def get_method_def get_or_def as_str_def ak cipher_laws_def parse_file_def merge_merged
        del: json_dumps.simps)
  moreover have "vault_initialized env u w'" by (simp add: vault_initialized_def w'_def dget_dset)
  ultimately show ?thesis using init by (simp add: holds_def w'_def)
qed

lemma unlock_holds:
  assumes up: "vault_up env up look w" and "holds env u secret c w" and "jsonable_dict c"
    and code: "filter is_digit_char (strip code) \<noteq> []" "ve_totp env secret (filter is_digit_char (strip code))"
  shows "\<exists>r w'. unlock_vault env u code hw True True w = (Inr r, w') \<and> vault_up env up look w' \<and> unlocked_at look u w'
    \<and> object_at look (data_key u) w' = Some (merge_sections empty_categories c)"
proof -
  let ?C = "merge_sections empty_categories c"
  define session0 where "session0 = (case object_at look (session_key u) w of
      Some d \<Rightarrow> if d = [] then [(''vault'', PBool False), (''obsidian'', PBool False)] else d
    | None \<Rightarrow> [(''vault'', PBool False), (''obsidian'', PBool False)])"
  define p where "p = [(''vault'', PBool True), (''obsidian'', PBool True), (''unlocked_at'', PInt (ve_now env))]"
  have jp: "jsonable (PDict p)" by (simp add: p_def)
  have jc: "jsonable (PDict ?C)" using jsonable_merged [OF assms(3)] .
  obtain t1 where t1: "store_object env (session_key u) p w = (Inr (), w\<lparr>w_redis := t1\<rparr>)"
    "vault_up env up look (w\<lparr>w_redis := t1\<rparr>)" "look t1 = (look (w_redis w))(session_key u := Some (json_dumps (PDict p)))"
    using store_object_up [OF up stream_free_jsonable(1) [OF jp]] by blast
  let ?w1 = "w\<lparr>w_redis := t1\<rparr>"
  obtain t2 where t2: "store_object env (data_key u) ?C ?w1 = (Inr (), ?w1\<lparr>w_redis := t2\<rparr>)"
    "vault_up env up look (?w1\<lparr>w_redis := t2\<rparr>)" "look t2 = (look (w_redis ?w1))(data_key u := Some (json_dumps (PDict ?C)))"
    using store_object_up [OF t1(2) stream_free_jsonable(1) [OF jc]] by blast
  let ?w2 = "?w1\<lparr>w_redis := t2\<rparr>"
  have h: "vault_initialized env u w" "verify_totp env u code w = (Inr True, w)"
    "decrypt_categories env u ?w1 = (Inr ?C, ?w1)"
    using assms(2) holds_redis [OF assms(2), of t1] code by (simp_all add: holds_def)
  let ?s = "dset ''obsidian'' (PBool True) (dset ''vault'' (PBool True) session0)"
  have items: "dict_item ?s ''vault'' = Inr (PBool True)" "dict_item ?s ''obsidian'' = Inr (PBool True)"
    by (simp_all add: dict_item_def dget_dset)
  have store: "store_session env u (PBool True) (PBool True) w = (Inr (), ?w1)" "store_decrypted_cache env u ?C ?w1 = (Inr (), ?w2)"
    using t1(1) t2(1) by (simp_all only: store_session_def store_decrypted_cache_def p_def)
  have found: "session_payload env u w = (Inr (object_at look (session_key u) w), w)"
    unfolding session_payload_def by (rule stored_object_up [OF up])
  have "\<exists>r. unlock_vault env u code hw True True w = (Inr r, ?w2)"
    by (simp add: unlock_vault_def bnd_apply gets_def h(1,2) found session0_def [symmetric] items lift_def ret_def store h(3))
  moreover have "object_at look (session_key u) ?w2 = Some p"
    using json_loads_dumps [OF jp] by (simp add: object_at_def t1(3) t2(3))
  moreover have "object_at look (data_key u) ?w2 = Some ?C"
    using json_loads_dumps [OF jc] by (simp add: object_at_def t2(3))
  ultimately show ?thesis using t2(2) by (auto simp: unlocked_at_def session_flag_def p_def get_or_def)
qed

text \<open>C13: A section sealed when the vault is created is what the user reads after unlocking it with a valid
  code: encryption at rest, the session and the cache give the section back unchanged.\<close>

theorem sealed_section_is_read_back:
  assumes "vault_up env up look w" and "cipher_laws env" and "strip (ve_master env) \<noteq> []"
    and "jsonable_dict c" and "map_of c cat = Some (PDict sec)" and "cat \<in> set sealed_categories"
    and "filter is_digit_char (strip code) \<noteq> []" and "ve_totp env (ve_new_secret env) (filter is_digit_char (strip code))"
  shows "\<exists>w1 r w2. init_vault env u [] c w = (Inr (ve_new_secret env), w1)
    \<and> unlock_vault env u code hw True True w1 = (Inr r, w2) \<and> get_category env u cat w2 = (Inr sec, w2)"
proof -
  obtain w1 where w1: "init_vault env u [] c w = (Inr (ve_new_secret env), w1)" "w_redis w1 = w_redis w"
    "holds env u (ve_new_secret env) c w1"
    using init_vault_holds [OF assms(2-4)] by blast
  have "vault_up env up look w1" using assms(1) w1(2) by (simp add: vault_up_def)
  from unlock_holds [OF this w1(3) assms(4,7,8)] obtain r w2 where w2:
    "unlock_vault env u code hw True True w1 = (Inr r, w2)" "vault_up env up look w2" "unlocked_at look u w2"
    "object_at look (data_key u) w2 = Some (merge_sections empty_categories c)" by blast
  have "get_none (merge_sections empty_categories c) cat = PDict sec"
    unfolding merge_empty using assms(5,6) by (simp add: get_or_def map_of_map_key)
  moreover have "cached_categories env u w2 = (Inr (Some (merge_sections empty_categories c)), w2)"
    using stored_object_up [OF w2(2), of "data_key u"] by (simp only: cached_categories_def w2(4))
  ultimately have "get_category env u cat w2 = (Inr sec, w2)"
    using assms(6) is_unlocked_up [OF w2(2), of u] w2(3)
    by (simp add: get_category_def bnd_apply as_section_def ret_def)
  then show ?thesis using w1(1) w2(1) by blast
qed

theorem sealed_section_is_read_back_witness:
  "\<exists>w1 r w2. init_vault demo_env ''ann'' [] [(''prompts'', PDict [(''begin_prologue'', PStr ''Hello'')])] empty_world = (Inr ''SECRET'', w1)
    \<and> unlock_vault demo_env ''ann'' ''123 456'' [] True True w1 = (Inr r, w2)
    \<and> get_category demo_env ''ann'' ''prompts'' w2 = (Inr [(''begin_prologue'', PStr ''Hello'')], w2)"
proof -
  have c: "cipher_laws demo_env" by (simp add: cipher_laws_def demo_env_def)
  have "strip (ve_master demo_env) \<noteq> []" "jsonable_dict [(''prompts'', PDict [(''begin_prologue'', PStr ''Hello'')])]"
    "''prompts'' \<in> set sealed_categories" "filter is_digit_char (strip ''123 456'') \<noteq> []"
    "ve_totp demo_env (ve_new_secret demo_env) (filter is_digit_char (strip ''123 456''))"
    by (code_simp)+
  then show ?thesis
    using sealed_section_is_read_back [OF demo_up c, where c = "[(''prompts'', PDict [(''begin_prologue'', PStr ''Hello'')])]"
        and cat = "''prompts''" and sec = "[(''begin_prologue'', PStr ''Hello'')]" and code = "''123 456''"
        and w = empty_world and u = "''ann''" and hw = "[]"]
    by (simp add: demo_env_def)
qed

end
