(* ===== verification/MetaFilter.thy ===== *)
theory MetaFilter
  imports PyLiteral Controls
begin

text \<open>
  Metadata filters and metadata maintenance, after \<^verbatim>\<open>common/metadata_utils.py\<close>.

  The metadata of the documents is a dict from a key to its values, each with the documents that carry
  it. \<open>filter_out\<close> is the loop over the values of one key; the compared value is rebound inside the loop,
  so the recursion carries it. \<open>meta_filter\<close> combines several conditions, and its list stands for the
  code's \<open>list(set(...))\<close>, whose order Python leaves open. \<open>apply_meta_data_filter\<close> threads the memoised
  metadata loader as state; the language model that writes conditions, the index that answers them and
  the loader are parameters. \<open>json_repair\<close> (third party) is a parameter too.
\<close>

type_synonym values_docs = "(pyval \<times> string list) list"

type_synonym metas = "(string, values_docs) dict"

section \<open>Conditions\<close>

definition op_mapping :: "(string, string) dict" where
  "op_mapping = [(''is'', ''=''), (''not is'', sign_ne), (''>='', sign_ge), (''<='', sign_le), (''!='', sign_ne)]"

definition convert_condition :: "pyval \<Rightarrow> pyval res" where
  "convert_condition cond = try_then (subscript cond ''comparison_operator'') (\<lambda>c.
     try_then (if usable_key c then Inr (case c of PStr s \<Rightarrow> (case map_of op_mapping s of Some t \<Rightarrow> PStr t | None \<Rightarrow> c) | _ \<Rightarrow> c)
               else bad_key c) (\<lambda>op.
     try_then (subscript cond ''name'') (\<lambda>name. try_then (subscript cond ''value'') (\<lambda>v.
       Inr (PDict [(''op'', op), (''key'', name), (''value'', v)])))))"

definition convert_conditions :: "pyval \<Rightarrow> pyval list res" where
  "convert_conditions metadata_condition =
     (let m = (if metadata_condition = PNone then PDict [] else metadata_condition)
      in try_then (get_method m ''conditions'' (PList [])) (\<lambda>cs. try_then (py_iter cs) (map_res convert_condition)))"

section \<open>One condition\<close>

definition lower_value :: "pyval \<Rightarrow> pyval" where
  "lower_value v = (case v of PStr s \<Rightarrow> PStr (lower s) | _ \<Rightarrow> v)"

definition normalize_string_values :: "pyval \<Rightarrow> pyval" where
  "normalize_string_values v = (case v of PStr s \<Rightarrow> PStr (lower s) | PList xs \<Rightarrow> PList (map lower_value xs) | _ \<Rightarrow> v)"

definition iso_date :: "string \<Rightarrow> bool" where
  "iso_date s = (length s = 10 \<and> s ! 4 = CHR ''-'' \<and> s ! 7 = CHR ''-'' \<and> isdigit (take 4 s)
     \<and> isdigit (take 2 (drop 5 s)) \<and> isdigit (take 2 (drop 8 s)))"

definition comparison_ops :: "string list" where
  "comparison_ops = [''='', sign_ne, ''>'', ''<'', sign_ge, sign_le]"

text \<open>\<open>ast.literal_eval(v)\<close>: anything but the text of a literal raises.\<close>

definition literal_of :: "pyval \<Rightarrow> pyval option" where
  "literal_of v = (case v of PStr s \<Rightarrow> literal_eval s | _ \<Rightarrow> None)"

text \<open>The two sides evaluated as literals in turn; the first failure leaves the rest as it is.\<close>

definition literal_pair :: "pyval \<Rightarrow> pyval \<Rightarrow> pyval \<times> pyval" where
  "literal_pair input v =
     (let i = (case input of PList (x # xs) \<Rightarrow> x | _ \<Rightarrow> input);
          (j, w) = (case literal_of i of None \<Rightarrow> (i, v)
            | Some l \<Rightarrow> (l, case literal_of v of None \<Rightarrow> v | Some m \<Rightarrow> m))
      in (lower_value j, lower_value w))"

text \<open>The record and the value as they are compared; None skips the record.\<close>

definition align :: "string \<Rightarrow> pyval \<Rightarrow> pyval \<Rightarrow> (pyval \<times> pyval) option" where
  "align operator input v =
     (if operator \<in> set comparison_ops then
        let input_str = strip (py_str input); value_str = strip (py_str v)
        in if iso_date value_str then if iso_date input_str then Some (PStr input_str, PStr value_str) else None
           else Some (literal_pair input v)
      else Some (normalize_string_values input, normalize_string_values v))"

text \<open>\<open>a in b\<close>.\<close>

definition py_contains :: "pyval \<Rightarrow> pyval \<Rightarrow> bool res" where
  "py_contains b a = (case b of
     PStr s \<Rightarrow> try_then (str_arg a) (\<lambda>t. Inr (str_in t s))
   | PList xs \<Rightarrow> Inr (py_in a xs)
   | PDict d \<Rightarrow> (if usable_key a then Inr (case a of PStr k \<Rightarrow> has_key d k | _ \<Rightarrow> False) else bad_key a)
   | _ \<Rightarrow> raise TypeError (''argument of type '' @ type_name b @ '' is not iterable''))"

definition items_of :: "pyval \<Rightarrow> pyval list" where
  "items_of v = (case v of PList xs \<Rightarrow> xs | _ \<Rightarrow> [v])"

definition text_of_items :: "pyval \<Rightarrow> string" where
  "text_of_items v = concat (map (\<lambda>i. lower (py_str i)) (items_of v))"

text \<open>\<open>matched\<close>: an operation that raises does not match. A record that is a list matches by its items.\<close>

definition matched :: "string \<Rightarrow> pyval \<Rightarrow> pyval \<Rightarrow> bool" where
  "matched operator input v =
     (if operator = ''contains'' then (case v of PStr s \<Rightarrow> list_ex (\<lambda>i. str_in s (py_str i)) (items_of input) | _ \<Rightarrow> False)
      else if operator = ''not contains'' then
        (case v of PStr s \<Rightarrow> list_all (\<lambda>i. \<not> str_in s (py_str i)) (items_of input) | _ \<Rightarrow> items_of input = [])
      else if operator = ''in'' then list_all (\<lambda>i. py_contains v i = Inr True) (items_of input)
      else if operator = ''not in'' then list_all (\<lambda>i. py_contains v i = Inr False) (items_of input)
      else if operator = ''start with'' then starts_with (text_of_items input) (lower (py_str v))
      else if operator = ''end with'' then ends_with (text_of_items input) (lower (py_str v))
      else if operator = ''empty'' then \<not> truthy input
      else if operator = ''not empty'' then truthy input
      else if operator = ''='' then py_eq input v
      else if operator = sign_ne then \<not> py_eq input v
      else if operator = ''>'' then py_cmp CGt input v = Inr True
      else if operator = ''<'' then py_cmp CLt input v = Inr True
      else if operator = sign_ge then py_cmp CGe input v = Inr True
      else if operator = sign_le then py_cmp CLe input v = Inr True
      else False)"

fun filter_out :: "values_docs \<Rightarrow> string \<Rightarrow> pyval \<Rightarrow> string list" where
  "filter_out [] operator v = []"
| "filter_out ((input, docids) # rest) operator v =
     (case align operator input v of
        None \<Rightarrow> filter_out rest operator v
      | Some (i, w) \<Rightarrow> (if matched operator i w then docids else []) @ filter_out rest operator w)"

section \<open>Several conditions\<close>

definition key_values :: "metas \<Rightarrow> pyval \<Rightarrow> values_docs option res" where
  "key_values metas k = (if usable_key k then Inr (case k of PStr s \<Rightarrow> map_of metas s | _ \<Rightarrow> None) else bad_key k)"

definition condition_ids :: "metas \<Rightarrow> pyval \<Rightarrow> string list res" where
  "condition_ids metas f = try_then (subscript f ''key'') (\<lambda>k. try_then (key_values metas k) (\<lambda>found. case found of
       None \<Rightarrow> Inr []
     | Some v2docs \<Rightarrow> try_then (subscript f ''op'') (\<lambda>op. try_then (subscript f ''value'') (\<lambda>v.
         Inr (filter_out v2docs (case op of PStr s \<Rightarrow> s | _ \<Rightarrow> []) v)))))"

fun combine_conditions :: "metas \<Rightarrow> bool \<Rightarrow> pyval list \<Rightarrow> string list option \<Rightarrow> string list res" where
  "combine_conditions metas every [] doc_ids = Inr (case doc_ids of None \<Rightarrow> [] | Some ds \<Rightarrow> ds)"
| "combine_conditions metas every (f # fs) doc_ids = try_then (condition_ids metas f) (\<lambda>ids. case doc_ids of
     None \<Rightarrow> combine_conditions metas every fs (Some (remdups ids))
   | Some ds \<Rightarrow>
       if every then
         let both = filter (\<lambda>d. d \<in> set ids) ds
         in if both = [] then Inr [] else combine_conditions metas every fs (Some both)
       else combine_conditions metas every fs (Some (ds @ filter (\<lambda>d. d \<notin> set ds) (remdups ids))))"

definition meta_filter :: "metas \<Rightarrow> pyval \<Rightarrow> pyval \<Rightarrow> string list res" where
  "meta_filter metas filters logic =
     try_then (py_iter filters) (\<lambda>fs. combine_conditions metas (logic = PStr ''and'') fs None)"

section \<open>Applying a filter\<close>

text \<open>
  What the call needs from outside: the model that writes conditions, the index that answers them
  (None when the service cannot be imported; it may decline with None or raise), the loader and the
  resolver of the values of a manual filter.
\<close>

record meta_env =
  gen_meta_filter :: "metas \<Rightarrow> string \<Rightarrow> (pyval \<times> pyval) list \<Rightarrow> pyval res"
  pushdown :: "(string list \<Rightarrow> pyval \<Rightarrow> pyval \<Rightarrow> string list option res) option"
  metas_loader :: "metas res option"
  manual_value_resolver :: "(pyval \<Rightarrow> pyval res) option"

record meta_state =
  cached_metas :: "metas option"
  loader_calls :: nat

type_synonym 'a meta_act = "(meta_state, 'a) act"

definition get_metas :: "meta_env \<Rightarrow> metas meta_act" where
  "get_metas env = bnd (gets cached_metas) (\<lambda>c. case c of
     Some m \<Rightarrow> ret m
   | None \<Rightarrow> (case metas_loader env of
       None \<Rightarrow> bnd (modify (\<lambda>s. s\<lparr>cached_metas := Some []\<rparr>)) (\<lambda>_. ret [])
     | Some r \<Rightarrow> bnd (modify (\<lambda>s. s\<lparr>loader_calls := Suc (loader_calls s)\<rparr>)) (\<lambda>_.
         bnd (lift r) (\<lambda>m. bnd (modify (\<lambda>s. s\<lparr>cached_metas := Some m\<rparr>)) (\<lambda>_. ret m)))))"

definition try_meta_pushdown :: "meta_env \<Rightarrow> string list \<Rightarrow> pyval \<Rightarrow> pyval \<Rightarrow> string list option" where
  "try_meta_pushdown env kb_ids conditions logic = (case pushdown env of
     None \<Rightarrow> None
   | Some service \<Rightarrow> (case service kb_ids conditions logic of Inl e \<Rightarrow> None | Inr r \<Rightarrow> r))"

definition run_metadata_filter :: "meta_env \<Rightarrow> string list \<Rightarrow> pyval \<Rightarrow> pyval \<Rightarrow> string list meta_act" where
  "run_metadata_filter env kb_ids conditions logic =
     (let pushed = (if truthy conditions \<and> kb_ids \<noteq> [] then
            (case pushdown env of None \<Rightarrow> None
             | Some service \<Rightarrow> (case service kb_ids conditions logic of Inl e \<Rightarrow> None | Inr r \<Rightarrow> r)) else None)
      in case pushed of
           Some ids \<Rightarrow> ret ids
         | None \<Rightarrow> bnd (get_metas env) (\<lambda>metas. lift (meta_filter metas conditions logic)))"

text \<open>The keys a semi-automatic filter selects and the operators it fixes.\<close>

fun selected_keys :: "pyval list \<Rightarrow> pyval list \<Rightarrow> (pyval \<times> pyval) list \<Rightarrow> (pyval list \<times> (pyval \<times> pyval) list) res" where
  "selected_keys [] keys cs = Inr (keys, cs)"
| "selected_keys (item # items) keys cs = (case item of
     PStr s \<Rightarrow> selected_keys items (keys @ [item]) cs
   | PDict d \<Rightarrow> (let key = get_none d ''key''; op = get_none d ''op'' in
       if \<not> truthy op then selected_keys items (keys @ [key]) cs
       else if usable_key key then selected_keys items (keys @ [key]) (AList.update key op cs)
       else bad_key key)
   | _ \<Rightarrow> selected_keys items keys cs)"

fun restrict_metas :: "metas \<Rightarrow> pyval list \<Rightarrow> metas \<Rightarrow> metas res" where
  "restrict_metas current [] m = Inr m"
| "restrict_metas current (k # ks) m = try_then (key_values current k) (\<lambda>found. case (k, found) of
     (PStr s, Some v) \<Rightarrow> restrict_metas current ks (dset s v m)
   | _ \<Rightarrow> restrict_metas current ks m)"

definition generated_ids :: "meta_env \<Rightarrow> string list \<Rightarrow> string list \<Rightarrow> pyval \<Rightarrow> string list option meta_act" where
  "generated_ids env kb_ids doc_ids filters =
     bnd (lift (subscript filters ''conditions'')) (\<lambda>conditions.
     bnd (lift (get_method filters ''logic'' (PStr ''and''))) (\<lambda>logic.
     bnd (run_metadata_filter env kb_ids conditions logic) (\<lambda>ids.
       ret (if doc_ids @ ids = [] then None else Some (doc_ids @ ids)))))"

definition apply_meta_data_filter ::
    "meta_env \<Rightarrow> pdict \<Rightarrow> string \<Rightarrow> string list \<Rightarrow> string list \<Rightarrow> string list option meta_act" where
  "apply_meta_data_filter env meta_data_filter question base_doc_ids kb_ids =
     (if meta_data_filter = [] then ret (Some base_doc_ids)
      else let meth = get_none meta_data_filter ''method'' in
      if meth = PStr ''auto'' then
        bnd (get_metas env) (\<lambda>metas. bnd (lift (gen_meta_filter env metas question [])) (generated_ids env kb_ids base_doc_ids))
      else if meth = PStr ''semi_auto'' then
        bnd (lift (try_then (py_iter (get_or meta_data_filter ''semi_auto'' (PList []))) (\<lambda>items. selected_keys items [] [])))
          (\<lambda>(keys, constraints).
            if keys = [] then ret (Some base_doc_ids)
            else bnd (get_metas env) (\<lambda>current. bnd (lift (restrict_metas current keys [])) (\<lambda>filtered.
              if filtered = [] then ret (Some base_doc_ids)
              else bnd (lift (gen_meta_filter env filtered question constraints)) (generated_ids env kb_ids base_doc_ids))))
      else if meth = PStr ''manual'' then
        bnd (lift (case manual_value_resolver env of
               None \<Rightarrow> Inr (get_or meta_data_filter ''manual'' (PList []))
             | Some f \<Rightarrow> try_then (py_iter (get_or meta_data_filter ''manual'' (PList []))) (\<lambda>fs.
                 try_then (map_res f fs) (\<lambda>gs. Inr (PList gs))))) (\<lambda>filters.
        bnd (run_metadata_filter env kb_ids filters (get_or meta_data_filter ''logic'' (PStr ''and''))) (\<lambda>ids.
          ret (Some (if truthy filters \<and> base_doc_ids @ ids = [] then [''-999''] else base_doc_ids @ ids))))
      else ret (Some base_doc_ids))"

section \<open>Maintaining the metadata of a document\<close>

fun dedupe_from :: "string list \<Rightarrow> pyval list \<Rightarrow> pyval list" where
  "dedupe_from seen [] = []"
| "dedupe_from seen (x # xs) = (if py_str x \<in> set seen then dedupe_from seen xs else x # dedupe_from (py_str x # seen) xs)"

definition dedupe_list :: "pyval list \<Rightarrow> pyval list" where
  "dedupe_list xs = dedupe_from [] xs"

text \<open>The value kept of a new entry: a text, or the texts of a list once each; nothing of the rest.\<close>

definition kept_value :: "pyval \<Rightarrow> pyval option" where
  "kept_value v = (case v of
     PList xs \<Rightarrow> (let ys = filter is_str xs in if ys = [] then None else Some (PList (dedupe_list ys)))
   | PStr s \<Rightarrow> Some v
   | _ \<Rightarrow> None)"

definition add_metadata :: "string \<times> pyval \<Rightarrow> pdict \<Rightarrow> pdict" where
  "add_metadata kv metadata = (case kv of (k, v0) \<Rightarrow> (case kept_value v0 of
     None \<Rightarrow> metadata
   | Some v \<Rightarrow> (case map_of metadata k of
       Some (PList old) \<Rightarrow> dset k (PList (dedupe_list (old @ items_of v))) metadata
     | _ \<Rightarrow> dset k v metadata)))"

definition update_metadata_to :: "(string \<Rightarrow> pyval option) \<Rightarrow> pdict \<Rightarrow> pyval \<Rightarrow> pdict" where
  "update_metadata_to json_repair metadata meta0 =
     (if \<not> truthy meta0 then metadata
      else let meta = (case meta0 of PStr s \<Rightarrow> (case json_repair s of None \<Rightarrow> PNone | Some v \<Rightarrow> v) | _ \<Rightarrow> meta0)
      in case meta of PDict d \<Rightarrow> fold add_metadata d metadata | _ \<Rightarrow> metadata)"

text \<open>The keys of a schema are texts here, which \<open>_is_metadata_list\<close> checks before the program builds one.\<close>

definition schema_property :: "pdict \<Rightarrow> pyval" where
  "schema_property item = PDict ([(''description'', get_or item ''description'' (PStr []))]
     @ (if truthy (get_none item ''enum'') then [(''enum'', get_none item ''enum''), (''type'', PStr ''string'')] else []))"

definition add_property :: "pyval \<Rightarrow> pdict \<Rightarrow> pdict res" where
  "add_property item properties = try_then (as_dict ''get'' item) (\<lambda>d.
     let key = get_none d ''key''
     in if \<not> truthy key then Inr properties
        else try_then (str_arg key) (\<lambda>k. Inr (dset k (schema_property d) properties)))"

definition metadata_schema :: "pyval \<Rightarrow> pdict res" where
  "metadata_schema metadata =
     (if \<not> truthy metadata then Inr []
      else try_then (py_iter metadata) (\<lambda>items. try_then (fold_res add_property items []) (\<lambda>properties.
        Inr [(''type'', PStr ''object''), (''properties'', PDict properties), (''additionalProperties'', PBool False)])))"

definition is_json_schema :: "pyval \<Rightarrow> bool" where
  "is_json_schema obj = (case obj of
     PDict d \<Rightarrow> has_key d ''$schema'' \<or> get_none d ''type'' = PStr ''object'' \<and> is_dict (get_none d ''properties'')
   | _ \<Rightarrow> False)"

definition none_or :: "(pyval \<Rightarrow> bool) \<Rightarrow> pyval \<Rightarrow> bool" where
  "none_or p v = (v = PNone \<or> p v)"

definition is_metadata_item :: "pyval \<Rightarrow> bool" where
  "is_metadata_item item = (case item of
     PDict d \<Rightarrow> is_str (get_none d ''key'') \<and> truthy (get_none d ''key'') \<and> none_or is_list (get_none d ''enum'')
       \<and> none_or is_str (get_none d ''description'') \<and> none_or is_str (get_none d ''descriptions'')
   | _ \<Rightarrow> False)"

definition is_metadata_list :: "pyval \<Rightarrow> bool" where
  "is_metadata_list obj = (case obj of PList xs \<Rightarrow> xs \<noteq> [] \<and> list_all is_metadata_item xs | _ \<Rightarrow> False)"

definition normalized_item :: "pyval \<Rightarrow> pyval" where
  "normalized_item item = (case item of
     PDict d \<Rightarrow> PDict ([(''key'', get_none d ''key''),
         (''description'', py_or (py_or (get_none d ''description'') (get_none d ''descriptions'')) (PStr []))]
       @ (if get_none d ''enum'' \<noteq> PNone then [(''enum'', get_none d ''enum'')] else []))
   | _ \<Rightarrow> item)"

definition turn2jsonschema :: "pyval \<Rightarrow> pdict res" where
  "turn2jsonschema obj =
     (if is_json_schema obj then (case obj of PDict d \<Rightarrow> Inr d | _ \<Rightarrow> Inr [])
      else if is_metadata_list obj then metadata_schema (PList (map normalized_item (items_of obj)))
      else Inr [])"

section \<open>Combining conditions\<close>

lemma combine_conditions_some:
  "map_res (condition_ids metas) fs = Inr idss \<Longrightarrow> distinct ds \<Longrightarrow>
    \<exists>r. combine_conditions metas every fs (Some ds) = Inr r \<and> distinct r
      \<and> set r = (if every then set ds \<inter> (\<Inter>ids\<in>set idss. set ids) else set ds \<union> (\<Union>ids\<in>set idss. set ids))"
proof (induction fs arbitrary: ds idss)
  case Nil
  then show ?case by auto
next
  case (Cons f fs)
  from Cons.prems(1) obtain ids rest where f: "condition_ids metas f = Inr ids" and rest: "map_res (condition_ids metas) fs = Inr rest"
    and idss: "idss = ids # rest"
    by (cases "condition_ids metas f"; cases "map_res (condition_ids metas) fs") auto
  show ?case
  proof (cases every)
    case True
    let ?both = "filter (\<lambda>d. d \<in> set ids) ds"
    show ?thesis
    proof (cases "?both = []")
      case empty: True
      then have "set ds \<inter> set ids = {}" by (auto simp: filter_empty_conv)
      then show ?thesis using True empty f idss by auto
    next
      case False
      then show ?thesis using True Cons.IH [OF rest, of ?both] Cons.prems(2) f idss by auto
    qed
  next
    case False
    let ?ds = "ds @ filter (\<lambda>d. d \<notin> set ds) (remdups ids)"
    have "distinct ?ds" using Cons.prems(2) by auto
    from Cons.IH [OF rest this] show ?thesis using False f idss by auto
  qed
qed

text \<open>C23: Several conditions joined by "and" select exactly the documents that each condition selects, joined by
  anything else the documents that some condition selects, once each; the early return on an empty
  intersection changes nothing.\<close>

theorem meta_filter_meaning:
  assumes "map_res (condition_ids metas) fs = Inr idss" and "fs \<noteq> []"
  shows "\<exists>r. meta_filter metas (PList fs) logic = Inr r \<and> distinct r
    \<and> set r = (if logic = PStr ''and'' then \<Inter>ids\<in>set idss. set ids else \<Union>ids\<in>set idss. set ids)"
proof -
  obtain f gs where fs: "fs = f # gs" using assms(2) by (cases fs) auto
  with assms(1) obtain ids rest where f: "condition_ids metas f = Inr ids"
    and rest: "map_res (condition_ids metas) gs = Inr rest" and idss: "idss = ids # rest"
    by (cases "condition_ids metas f"; cases "map_res (condition_ids metas) gs") auto
  from combine_conditions_some [OF rest distinct_remdups, of "logic = PStr ''and''" ids]
  show ?thesis by (auto simp: meta_filter_def py_iter_def fs f idss)
qed

theorem meta_filter_meaning_witness:
  "\<exists>r. meta_filter
      [(''tag'', [(PStr ''a'', [''d1'', ''d2'']), (PStr ''b'', [''d3''])]), (''year'', [(PStr ''2020'', [''d1'']), (PStr ''2024'', [''d2'', ''d3''])])]
      (PList [PDict [(''key'', PStr ''tag''), (''op'', PStr ''=''), (''value'', PStr ''A'')],
              PDict [(''key'', PStr ''year''), (''op'', PStr ''>''), (''value'', PStr ''2021'')]]) (PStr ''and'') = Inr r
    \<and> set r = {''d2''}"
proof -
  have "map_res (condition_ids [(''tag'', [(PStr ''a'', [''d1'', ''d2'']), (PStr ''b'', [''d3''])]), (''year'', [(PStr ''2020'', [''d1'']), (PStr ''2024'', [''d2'', ''d3''])])])
      [PDict [(''key'', PStr ''tag''), (''op'', PStr ''=''), (''value'', PStr ''A'')],
       PDict [(''key'', PStr ''year''), (''op'', PStr ''>''), (''value'', PStr ''2021'')]] = Inr [[''d1'', ''d2''], [''d2'', ''d3'']]"
    by code_simp
  from meta_filter_meaning [OF this, of "PStr ''and''"] show ?thesis by auto
qed

section \<open>One condition, record by record\<close>

lemma lower_idem: "lower (lower s) = lower s"
proof -
  have "list_all (\<lambda>c. lower_char (lower_char c) = lower_char c) (map (\<lambda>(a, b). a) (zip upper_letters lower_letters))" by code_simp
  moreover have "lower_char (lower_char c) = lower_char c" if "c \<notin> fst ` set (zip upper_letters lower_letters)" for c
  proof -
    from that have "map_of (zip upper_letters lower_letters) c = None" by (simp add: map_of_eq_None_iff)
    then show ?thesis by (simp add: lower_char_def)
  qed
  ultimately have "lower_char (lower_char c) = lower_char c" for c
    by (cases "c \<in> fst ` set (zip upper_letters lower_letters)") (auto simp: list_all_iff)
  then show ?thesis by (simp add: lower_def)
qed

lemma lower_value_idem: "lower_value (lower_value v) = lower_value v"
  by (cases v) (simp_all add: lower_value_def lower_idem)

lemma normalize_idem: "normalize_string_values (normalize_string_values v) = normalize_string_values v"
  by (cases v) (simp_all add: normalize_string_values_def lower_idem lower_value_idem)

definition record_matches :: "string \<Rightarrow> pyval \<Rightarrow> pyval \<Rightarrow> bool" where
  "record_matches operator v input = matched operator (normalize_string_values input) (normalize_string_values v)"

lemma filter_out_other:
  assumes "operator \<notin> set comparison_ops"
  shows "filter_out v2docs operator v = concat (map snd (filter (\<lambda>(input, ids). record_matches operator v input) v2docs))
    \<and> filter_out v2docs operator (normalize_string_values v) = filter_out v2docs operator v"
proof (induction v2docs)
  case Nil
  then show ?case by simp
next
  case (Cons r rest)
  then show ?case using assms by (cases r) (simp add: align_def record_matches_def normalize_idem)
qed

text \<open>For every operator but the six comparisons a document is selected exactly when one of the values that
  carry it matches, whatever the order of the values.\<close>

theorem other_operators_by_record:
  assumes "operator \<notin> set comparison_ops"
  shows "d \<in> set (filter_out v2docs operator v)
    \<longleftrightarrow> (\<exists>(input, ids)\<in>set v2docs. record_matches operator v input \<and> d \<in> set ids)"
  using filter_out_other [OF assms, of v2docs v] by (simp only:) force

theorem other_operators_by_record_witness:
  "''d2'' \<in> set (filter_out [(PStr ''Red Wine'', [''d1'']), (PStr ''white'', [''d2''])] ''not contains'' (PStr ''RED''))"
proof -
  have "''not contains'' \<notin> set comparison_ops" by code_simp
  moreover have "record_matches ''not contains'' (PStr ''RED'') (PStr ''white'')" by code_simp
  ultimately show ?thesis using other_operators_by_record
    [of "''not contains''" "''d2''" "[(PStr ''Red Wine'', [''d1'']), (PStr ''white'', [''d2''])]" "PStr ''RED''"] by auto
qed

text \<open>A comparison depends on the order in which the values of a key are visited: the value compared against
  is rebound inside the loop, lowered after the first value that is not a literal, and then no longer
  reads as the literal it was, so the same condition on the same data selects a document in one order and
  misses it in the other.\<close>

theorem comparison_depends_on_order:
  "filter_out [(PStr ''True'', [''d2'']), (PStr ''abc'', [''d1''])] ''='' (PStr ''True'') = [''d2'']
    \<and> filter_out [(PStr ''abc'', [''d1'']), (PStr ''True'', [''d2''])] ''='' (PStr ''True'') = []"
  by code_simp

section \<open>Applying a filter\<close>

text \<open>An action that calls the loader at most once and leaves a loaded state alone.\<close>

definition once :: "'a meta_act \<Rightarrow> bool" where
  "once m = (\<forall>s r t. m s = (r, t) \<longrightarrow> t = s \<or>
     cached_metas s = None \<and> loader_calls t \<le> Suc (loader_calls s) \<and> (cached_metas t = None \<longrightarrow> (\<exists>e. r = Inl e)))"

lemma once_bnd: "once m \<Longrightarrow> (\<And>a. once (f a)) \<Longrightarrow> once (bnd m f)"
  unfolding once_def bnd_def by (fastforce split: prod.splits sum.splits)

lemma once_pure: "once (ret a)" "once (lift r)" "once (gets g)"
  by (simp_all add: once_def ret_def lift_def gets_def)

lemma once_get_metas: "once (get_metas env)"
  by (auto simp: once_def get_metas_def act_defs split: option.splits sum.splits)

lemma once_run: "once (run_metadata_filter env kb_ids conditions logic)"
  unfolding run_metadata_filter_def Let_def
  by (auto intro!: once_bnd once_pure once_get_metas split: option.splits)

lemma once_generated: "once (generated_ids env kb_ids ids filters)"
  unfolding generated_ids_def by (intro once_bnd once_pure once_run)

lemma once_apply: "once (apply_meta_data_filter env f q base kb_ids)"
  unfolding apply_meta_data_filter_def Let_def
  by (auto intro!: once_bnd once_pure once_get_metas once_run once_generated split: option.splits)

text \<open>However a filter is applied, the metadata loader is called at most once, and not at all when the metadata
  are already there, whose memo the call leaves as it is.\<close>

theorem metadata_loaded_at_most_once:
  "loader_calls (snd (apply_meta_data_filter env f q base kb_ids s)) \<le> Suc (loader_calls s)
    \<and> snd (apply_meta_data_filter env f q base kb_ids (s\<lparr>cached_metas := Some m\<rparr>)) = s\<lparr>cached_metas := Some m\<rparr>"
proof -
  have o: "snd (apply_meta_data_filter env f q base kb_ids s) = s \<or> cached_metas s = None \<and>
      loader_calls (snd (apply_meta_data_filter env f q base kb_ids s)) \<le> Suc (loader_calls s)" for s
    using once_apply [of env f q base kb_ids] unfolding once_def by (metis prod.collapse)
  from o [of s] o [of "s\<lparr>cached_metas := Some m\<rparr>"] show ?thesis by auto
qed

lemma manual_filters_kept:
  assumes "(case manual_value_resolver env of None \<Rightarrow> Inr (PList (c # cs))
       | Some f \<Rightarrow> try_then (py_iter (PList (c # cs))) (\<lambda>fs. try_then (map_res f fs) (\<lambda>gs. Inr (PList gs)))) = Inr v"
  shows "truthy v"
proof (cases "manual_value_resolver env")
  case None
  then show ?thesis using assms by auto
next
  case (Some f)
  then obtain gs where "map_res f (c # cs) = Inr gs" "v = PList gs"
    using assms by (cases "map_res f (c # cs)") (auto simp: py_iter_def simp del: map_res.simps)
  moreover then have "gs \<noteq> []" using map_res_length by fastforce
  ultimately show ?thesis by simp
qed

text \<open>A manual filter with a condition never answers with an empty list, which a caller reads as "no
  restriction": with nothing found it answers with an identifier that no document has.\<close>

theorem manual_filter_never_empty:
  assumes "get_none f ''method'' = PStr ''manual''" and "map_of f ''manual'' = Some (PList (c # cs))"
    and "apply_meta_data_filter env f q base kb_ids s = (Inr r, t)"
  shows "\<exists>d ds. r = Some (d # ds)"
proof -
  let ?filters = "case manual_value_resolver env of None \<Rightarrow> Inr (PList (c # cs))
       | Some f \<Rightarrow> try_then (py_iter (PList (c # cs))) (\<lambda>fs. try_then (map_res f fs) (\<lambda>gs. Inr (PList gs)))"
  have "f \<noteq> []" using assms(2) by auto
  then have run: "bnd (lift ?filters) (\<lambda>v. bnd (run_metadata_filter env kb_ids v (get_or f ''logic'' (PStr ''and''))) (\<lambda>ids.
      ret (Some (if truthy v \<and> base @ ids = [] then [''-999''] else base @ ids)))) s = (Inr r, t)"
    using assms unfolding apply_meta_data_filter_def Let_def
    by (simp only: if_False if_True pyval.inject get_or_def option.case) (simp add: get_or_def)
  then obtain v where v: "?filters = Inr v" by (cases ?filters) (simp_all add: bnd_apply lift_def)
  have "truthy v" by (rule manual_filters_kept [OF v])
  then show ?thesis using run unfolding v
    by (cases base) (auto simp: bnd_apply lift_def ret_def neq_Nil_conv split: prod.splits sum.splits if_splits)
qed

theorem manual_filter_never_empty_witness:
  "\<exists>t d ds. apply_meta_data_filter \<lparr>gen_meta_filter = (\<lambda>m q c. Inr PNone), pushdown = None, metas_loader = None, manual_value_resolver = None\<rparr>
      [(''method'', PStr ''manual''), (''manual'', PList [PDict [(''key'', PStr ''year''), (''op'', PStr ''=''), (''value'', PStr ''1999'')]])]
      [] [] [] \<lparr>cached_metas = None, loader_calls = 0\<rparr> = (Inr (Some (d # ds)), t)"
proof -
  let ?f = "[(''method'', PStr ''manual''), (''manual'', PList [PDict [(''key'', PStr ''year''), (''op'', PStr ''=''), (''value'', PStr ''1999'')]])]"
  let ?e = "\<lparr>gen_meta_filter = (\<lambda>m q c. Inr PNone), pushdown = None, metas_loader = None, manual_value_resolver = None\<rparr>"
  let ?r = "apply_meta_data_filter ?e ?f [] [] [] \<lparr>cached_metas = None, loader_calls = 0\<rparr>"
  have "?r = (Inr (Some [''-999'']), \<lparr>cached_metas = Some [], loader_calls = 0\<rparr>)" by code_simp
  moreover have "get_none ?f ''method'' = PStr ''manual''" by (simp add: get_or_def)
  moreover have "map_of ?f ''manual'' = Some (PList [PDict [(''key'', PStr ''year''), (''op'', PStr ''=''), (''value'', PStr ''1999'')]])" by simp
  ultimately show ?thesis using manual_filter_never_empty [of ?f _ "[]" ?e "[]" "[]" "[]"] by blast
qed

section \<open>Maintaining metadata\<close>

lemma dedupe_from_set: "py_str ` set (dedupe_from seen xs) = py_str ` set xs - set seen"
  by (induction seen xs rule: dedupe_from.induct) auto

lemma dedupe_from_distinct: "distinct (map py_str (dedupe_from seen xs))"
  by (induction seen xs rule: dedupe_from.induct) (auto simp: dedupe_from_set)

lemma dedupe_from_id: "distinct (map py_str xs) \<Longrightarrow> py_str ` set xs \<inter> set seen = {} \<Longrightarrow> dedupe_from seen xs = xs"
  by (induction seen xs rule: dedupe_from.induct) auto

lemma dedupe_from_seen: "py_str ` set ys \<subseteq> set seen \<union> py_str ` set xs \<Longrightarrow> dedupe_from seen (xs @ ys) = dedupe_from seen xs"
proof (induction seen xs rule: dedupe_from.induct)
  case (1 seen)
  then show ?case by (induction ys) auto
next
  case (2 seen x xs)
  show ?case
  proof (cases "py_str x \<in> set seen")
    case True
    then have "py_str ` set ys \<subseteq> set seen \<union> py_str ` set xs" using "2.prems" by auto
    then show ?thesis using True "2.IH"(1) by simp
  next
    case False
    then show ?thesis using "2.IH"(2) "2.prems" by simp
  qed
qed

lemma dedupe_idem: "dedupe_list (dedupe_list xs @ ys) = dedupe_list xs" if "py_str ` set ys \<subseteq> py_str ` set xs"
  using that dedupe_from_seen [of ys "[]" "dedupe_list xs"] dedupe_from_set [of "[]" xs] dedupe_from_distinct [of "[]" xs]
  by (simp add: dedupe_list_def dedupe_from_id)

lemma add_metadata_other: "k \<noteq> fst kv \<Longrightarrow> map_of (add_metadata kv m) k = map_of m k"
  by (auto simp: add_metadata_def dget_dset split: prod.splits option.splits pyval.splits)

lemma kept_value_settled:
  "kept_value v0 = Some v \<Longrightarrow> v = PList zs \<Longrightarrow> dedupe_list (zs @ zs) = zs"
  using dedupe_idem [OF subset_refl] dedupe_from_set [of "[]"] dedupe_idem [of "dedupe_list ys" ys for ys]
  by (auto simp: kept_value_def Let_def dedupe_list_def split: pyval.splits if_splits)

lemma add_metadata_settled:
  assumes "map_of m' k = map_of (add_metadata (k, v0) m) k"
  shows "add_metadata (k, v0) m' = m'"
proof (cases "kept_value v0")
  case None
  then show ?thesis by (simp add: add_metadata_def)
next
  case (Some v)
  show ?thesis
  proof (cases "\<exists>old. map_of m k = Some (PList old)")
    case True
    then obtain old where old: "map_of m k = Some (PList old)" by blast
    then have "map_of m' k = Some (PList (dedupe_list (old @ items_of v)))"
      using assms Some by (simp add: add_metadata_def dget_dset)
    moreover have "dedupe_list (dedupe_list (old @ items_of v) @ items_of v) = dedupe_list (old @ items_of v)"
      by (rule dedupe_idem) auto
    ultimately show ?thesis using Some by (simp add: add_metadata_def dset_same)
  next
    case False
    then have "map_of m' k = Some v"
      using assms Some by (auto simp: add_metadata_def dget_dset split: option.splits pyval.splits)
    then show ?thesis using Some kept_value_settled [OF Some]
      by (cases v) (auto simp: add_metadata_def items_of_def dset_same)
  qed
qed

lemma fold_add_metadata_other: "k \<notin> fst ` set d \<Longrightarrow> map_of (fold add_metadata d m) k = map_of m k"
  by (induction d arbitrary: m) (auto simp: add_metadata_other)

lemma fold_add_metadata_idem:
  "distinct (dkeys d) \<Longrightarrow> kv \<in> set d \<Longrightarrow> add_metadata kv (fold add_metadata d m) = fold add_metadata d m"
proof (induction d arbitrary: m)
  case Nil
  then show ?case by simp
next
  case (Cons x d)
  show ?case
  proof (cases "kv = x")
    case True
    have "map_of (fold add_metadata d (add_metadata x m)) (fst x) = map_of (add_metadata x m) (fst x)"
      using Cons.prems(1) by (intro fold_add_metadata_other) simp
    then have "add_metadata (fst x, snd x) (fold add_metadata d (add_metadata x m)) = fold add_metadata d (add_metadata x m)"
      by (intro add_metadata_settled [of _ _ _ m]) simp
    then show ?thesis by (simp only: True fold_simps prod.collapse)
  next
    case False
    then have "kv \<in> set d" "distinct (dkeys d)" using Cons.prems by simp_all
    then show ?thesis using Cons.IH by (simp only: fold_simps)
  qed
qed

lemma fold_settled: "(\<And>kv. kv \<in> set d \<Longrightarrow> add_metadata kv m = m) \<Longrightarrow> fold add_metadata d m = m"
  by (induction d) simp_all

text \<open>Merging the same metadata into a document again changes nothing: lists grow by the texts they lack only.\<close>

theorem update_metadata_idempotent:
  assumes "distinct (dkeys d)"
  shows "update_metadata_to repair (update_metadata_to repair metadata (PDict d)) (PDict d) = update_metadata_to repair metadata (PDict d)"
  using fold_settled [OF fold_add_metadata_idem [OF assms]] by (auto simp: update_metadata_to_def Let_def)

theorem update_metadata_idempotent_witness:
  "update_metadata_to (\<lambda>s. None) [(''tags'', PList [PStr ''x'', PStr ''y'']), (''by'', PStr ''ann'')]
      (PDict [(''tags'', PList [PStr ''y'', PInt 3, PStr ''x'']), (''by'', PStr ''ann''), (''n'', PInt 4)])
    = [(''tags'', PList [PStr ''x'', PStr ''y'']), (''by'', PStr ''ann'')]"
proof -
  let ?d = "[(''tags'', PList [PStr ''y'', PInt 3, PStr ''x'']), (''by'', PStr ''ann''), (''n'', PInt 4)]"
  have "update_metadata_to (\<lambda>s. None) [(''tags'', PList [PStr ''x''])] (PDict ?d)
      = [(''tags'', PList [PStr ''x'', PStr ''y'']), (''by'', PStr ''ann'')]" by code_simp
  with update_metadata_idempotent [of ?d "\<lambda>s. None" "[(''tags'', PList [PStr ''x''])]"] show ?thesis by simp
qed

section \<open>Schemas\<close>

lemma add_normalized:
  assumes "is_metadata_item item"
  shows "\<exists>p'. add_property (normalized_item item) p = Inr p'"
proof -
  obtain d where d: "item = PDict d" "is_str (get_none d ''key'')" "truthy (get_none d ''key'')"
    using assms by (cases item) (simp_all add: is_metadata_item_def)
  obtain k where k: "get_none d ''key'' = PStr k" using d(2) by (cases "get_none d ''key''") simp_all
  note d(1) k d(3) [unfolded k]
  then show ?thesis by (simp add: add_property_def normalized_item_def as_dict_def str_arg_def Let_def get_or_def [of "_ # _"])
qed

lemma fold_add_normalized: "list_all is_metadata_item xs \<Longrightarrow> \<exists>p'. fold_res add_property (map normalized_item xs) p = Inr p'"
proof (induction xs arbitrary: p)
  case Nil
  then show ?case by simp
next
  case (Cons x xs)
  then obtain p1 where "add_property (normalized_item x) p = Inr p1" using add_normalized by force
  then show ?case using Cons by simp
qed



end
