(* ===== verification/MetaPushdown.thy ===== *)
theory MetaPushdown
  imports MetaFilter
begin

text \<open>
  Metadata filters evaluated by the search engine: the translation of filters into Elasticsearch queries
  (\<^verbatim>\<open>common/metadata_es_filter.py\<close>) and into Infinity expressions (\<^verbatim>\<open>common/metadata_infinity_filter.py\<close>), and
  the service that runs them or declines (\<open>filter_doc_ids_by_meta_pushdown\<close> in
  \<^verbatim>\<open>api/db/services/doc_metadata_service.py\<close>), with the flattened metadata the filter in memory works on.

  A query is the JSON value the code builds. The engine, the table of knowledge bases and the index
  directory are fields of an environment. The default prefix \<open>meta_fields\<close> is fixed. Parenthesised and
  tuple literals are not modelled, but a list without brackets is read as the tuple it is.
\<close>

section \<open>Shared coercions\<close>

definition supported_operators :: "string list" where
  "supported_operators = [''='', sign_ne, ''>'', ''<'', sign_ge, sign_le, ''in'', ''not in'', ''contains'', ''not contains'',
     ''start with'', ''end with'', ''empty'', ''not empty'']"

text \<open>\<open>op not in SUPPORTED_OPERATORS\<close> hashes the operator.\<close>

definition operator_of :: "pyval \<Rightarrow> string option res" where
  "operator_of op = (if usable_key op then Inr (case op of PStr s \<Rightarrow> if s \<in> set supported_operators then Some s else None | _ \<Rightarrow> None)
     else bad_key op)"

definition unsupported :: "string \<Rightarrow> 'a res" where
  "unsupported reason = raise UnsupportedMetaFilter reason"

definition is_text_key :: "pyval \<Rightarrow> bool" where
  "is_text_key k = (case k of PStr s \<Rightarrow> s \<noteq> [] | _ \<Rightarrow> False)"

text \<open>The members of a membership test: a list, the list a text is a literal of, or the parts of the text.\<close>

definition literal_members :: "string \<Rightarrow> pyval list option" where
  "literal_members s = (case literal_eval s of
     Some (PList xs) \<Rightarrow> Some xs
   | Some v \<Rightarrow> None
   | None \<Rightarrow> (case literal_eval (''['' @ s @ '']'') of Some (PList xs) \<Rightarrow> Some xs | _ \<Rightarrow> None))"

definition csv_parts :: "string \<Rightarrow> pyval list" where
  "csv_parts s = map PStr (filter (\<lambda>m. m \<noteq> []) (map strip (split_str '','' s)))"

definition members_of :: "pyval \<Rightarrow> pyval list" where
  "members_of v = (case v of
     PList xs \<Rightarrow> xs
   | PStr s \<Rightarrow> (case literal_members s of Some xs \<Rightarrow> xs | None \<Rightarrow> csv_parts s)
   | _ \<Rightarrow> [v])"

definition normal_member :: "pyval \<Rightarrow> pyval" where
  "normal_member m = (case m of PStr s \<Rightarrow> PStr (strip (lower s)) | _ \<Rightarrow> m)"

section \<open>Elasticsearch\<close>

definition range_ops :: "(string, string) dict" where
  "range_ops = [(''>'', ''gt''), (''<'', ''lt''), (sign_ge, ''gte''), (sign_le, ''lte'')]"

definition multivalue_unsafe_negative_ops :: "string list" where
  "multivalue_unsafe_negative_ops = [sign_ne, ''not in'']"

record translated_filter =
  tf_must :: "pyval list"
  tf_must_not :: "pyval list"

definition must_only :: "pyval list \<Rightarrow> translated_filter" where
  "must_only cs = \<lparr>tf_must = cs, tf_must_not = []\<rparr>"

definition to_clauses :: "translated_filter \<Rightarrow> pyval list" where
  "to_clauses t =
     (if tf_must t = [] \<and> tf_must_not t = [] then []
      else if tf_must_not t = [] then
        (if length (tf_must t) = 1 then tf_must t else [PDict [(''bool'', PDict [(''must'', PList (tf_must t))])]])
      else [PDict [(''bool'', PDict [(''must'', PList (tf_must t)), (''must_not'', PList (tf_must_not t))])]])"

definition field_name :: "string \<Rightarrow> string" where
  "field_name key = ''meta_fields.'' @ key"

definition keyword_path :: "string \<Rightarrow> string" where
  "keyword_path field_path = field_path @ ''.keyword''"

definition folded :: "string \<Rightarrow> string \<Rightarrow> string \<Rightarrow> pyval" where
  "folded kind field_path v = PDict [(kind, PDict [(keyword_path field_path,
     PDict [(''value'', PStr v), (''case_insensitive'', PBool True)])])]"

definition term_or_match :: "string \<Rightarrow> pyval \<Rightarrow> pyval" where
  "term_or_match field_path v = (case v of
     PStr s \<Rightarrow> folded ''term'' field_path s | _ \<Rightarrow> PDict [(''term'', PDict [(field_path, v)])])"

definition any_of :: "pyval list \<Rightarrow> pyval" where
  "any_of cs = PDict [(''bool'', PDict [(''should'', PList cs), (''minimum_should_match'', PInt 1)])]"

definition terms_string_or_numeric :: "string \<Rightarrow> pyval list \<Rightarrow> pyval" where
  "terms_string_or_numeric field_path ms =
     (if list_all (\<lambda>m. \<not> is_str m) ms then PDict [(''terms'', PDict [(field_path, PList ms)])]
      else any_of (map (term_or_match field_path) ms))"

definition escape_wildcard :: "string \<Rightarrow> string" where
  "escape_wildcard t = replace_str ''?'' [CHR 0x5C, CHR ''?''] (replace_str ''*'' [CHR 0x5C, CHR ''*'']
     (replace_str [CHR 0x5C] [CHR 0x5C, CHR 0x5C] t))"

definition es_wildcard :: "string \<Rightarrow> string \<Rightarrow> pyval" where
  "es_wildcard field_path pattern = folded ''wildcard'' field_path pattern"

definition exists_clause :: "string \<Rightarrow> pyval" where
  "exists_clause field_path = PDict [(''exists'', PDict [(''field'', PStr field_path)])]"

definition blank_clause :: "string \<Rightarrow> pyval" where
  "blank_clause field_path = PDict [(''term'', PDict [(keyword_path field_path, PStr [])])]"

definition es_coerce_scalar :: "pyval \<Rightarrow> pyval res" where
  "es_coerce_scalar v =
     (if v = PNone then unsupported ''scalar comparison value is None''
      else if is_list v \<or> is_dict v then unsupported ''scalar comparison value is non-scalar''
      else let s = strip (py_str v) in
        if iso_date s then Inr (PStr s)
        else (case literal_eval s of
            None \<Rightarrow> Inr (PStr (lower s))
          | Some (PStr t) \<Rightarrow> Inr (PStr (lower t))
          | Some p \<Rightarrow> Inr (if py_num p \<noteq> None then p else PStr (lower s))))"

definition es_coerce_range_value :: "pyval \<Rightarrow> pyval res" where
  "es_coerce_range_value v =
     (if v = PNone then unsupported ''range comparison value is None''
      else let s = strip (py_str v) in
        if iso_date s then Inr (PStr s)
        else (case literal_eval s of Some p \<Rightarrow> Inr (if py_num p \<noteq> None then p else PStr s) | None \<Rightarrow> Inr (PStr s)))"

definition es_coerce_string :: "pyval \<Rightarrow> string res" where
  "es_coerce_string v =
     (if v = PNone then unsupported ''string-operator value is None''
      else if is_list v \<or> is_dict v then unsupported ''string-operator value must be a scalar''
      else if py_str v = [] then unsupported ''string-operator value is empty''
      else Inr (py_str v))"

definition es_csv_or_list :: "pyval \<Rightarrow> pyval list res" where
  "es_csv_or_list v =
     (if v = PNone then unsupported ''membership value is None''
      else let ms = members_of v in
        if ms = [] then unsupported ''membership value resolved to empty list'' else Inr (map normal_member ms))"

definition es_translate_op :: "string \<Rightarrow> string \<Rightarrow> pyval \<Rightarrow> translated_filter res" where
  "es_translate_op op p v =
     (if op = ''empty'' then Inr (must_only [any_of
          [PDict [(''bool'', PDict [(''must_not'', PList [exists_clause p])])], blank_clause p]])
      else if op = ''not empty'' then Inr \<lparr>tf_must = [exists_clause p], tf_must_not = [blank_clause p]\<rparr>
      else if op = ''='' then try_then (es_coerce_scalar v) (\<lambda>c. Inr (must_only [term_or_match p c]))
      else if op = sign_ne then try_then (es_coerce_scalar v) (\<lambda>c.
        Inr \<lparr>tf_must = [exists_clause p], tf_must_not = [term_or_match p c]\<rparr>)
      else if has_key range_ops op then try_then (es_coerce_range_value v) (\<lambda>c.
        Inr (must_only [exists_clause p,
          PDict [(''range'', PDict [(p, PDict [(case map_of range_ops op of Some r \<Rightarrow> r | None \<Rightarrow> op, c)])])]]))
      else if op = ''in'' then try_then (es_csv_or_list v) (\<lambda>ms. Inr (must_only [terms_string_or_numeric p ms]))
      else if op = ''not in'' then try_then (es_csv_or_list v) (\<lambda>ms.
        Inr \<lparr>tf_must = [exists_clause p], tf_must_not = [terms_string_or_numeric p ms]\<rparr>)
      else if op = ''contains'' then try_then (es_coerce_string v) (\<lambda>t.
        Inr (must_only [es_wildcard p (''*'' @ escape_wildcard t @ ''*'')]))
      else if op = ''not contains'' then try_then (es_coerce_string v) (\<lambda>t.
        Inr \<lparr>tf_must = [exists_clause p], tf_must_not = [es_wildcard p (''*'' @ escape_wildcard t @ ''*'')]\<rparr>)
      else if op = ''start with'' then try_then (es_coerce_string v) (\<lambda>t. Inr (must_only [folded ''prefix'' p t]))
      else if op = ''end with'' then try_then (es_coerce_string v) (\<lambda>t.
        Inr (must_only [es_wildcard p (''*'' @ escape_wildcard t)]))
      else unsupported (''no handler for operator '' @ py_repr (PStr op)))"

definition es_translate :: "pyval \<Rightarrow> translated_filter res" where
  "es_translate flt = try_then (as_dict ''get'' flt) (\<lambda>f.
     let op = get_none f ''op''; key = get_none f ''key'' in
     case key of
       PStr k \<Rightarrow>
         (if k = [] then unsupported ''filter is missing a string key''
          else try_then (operator_of op) (\<lambda>known. case known of
            None \<Rightarrow> unsupported (''unknown operator '' @ py_repr op)
          | Some o' \<Rightarrow> es_translate_op o' (field_name k) (get_none f ''value'')))
     | _ \<Rightarrow> unsupported ''filter is missing a string key'')"

definition es_plan_pushdown :: "pyval list \<Rightarrow> string \<Rightarrow> translated_filter list res" where
  "es_plan_pushdown filters logic =
     (if logic \<notin> {''and'', ''or''} then unsupported (''unknown logic '' @ py_repr (PStr logic))
      else map_res es_translate filters)"

definition to_query :: "translated_filter list \<Rightarrow> string \<Rightarrow> string list \<Rightarrow> pyval" where
  "to_query translated logic kb_ids =
     (let kb_clause = PDict [(''terms'', PDict [(''kb_id'', PList (map PStr kb_ids))])];
          flat = concat (map to_clauses translated);
          inner = (if logic = ''or'' then any_of flat else PDict [(''bool'', PDict [(''must'', PList flat)])])
      in PDict [(''query'', PDict [(''bool'', PDict [(''filter'',
           PList (if translated = [] then [kb_clause] else [kb_clause, inner]))])])])"

definition build_meta_filter_query :: "pyval list \<Rightarrow> string \<Rightarrow> string list \<Rightarrow> pyval res" where
  "build_meta_filter_query filters logic kb_ids =
     try_then (es_plan_pushdown filters logic) (\<lambda>ts. Inr (to_query ts logic kb_ids))"

fun es_is_pushdown_supported :: "pyval list \<Rightarrow> bool res" where
  "es_is_pushdown_supported [] = Inr True"
| "es_is_pushdown_supported (flt # filters) = try_then (as_dict ''get'' flt) (\<lambda>f.
     try_then (operator_of (get_none f ''op'')) (\<lambda>known. case known of
       None \<Rightarrow> Inr False
     | Some op \<Rightarrow> if op \<in> set multivalue_unsafe_negative_ops \<or> \<not> is_text_key (get_none f ''key'') then Inr False
                 else es_is_pushdown_supported filters))"

text \<open>The document ids of a response; a hit without an id of its own names it in its source.\<close>

definition hit_id :: "pyval \<Rightarrow> string list res" where
  "hit_id hit = (case hit of
     PDict h \<Rightarrow>
       try_then (if truthy (get_none h ''_id'') then Inr (get_none h ''_id'')
         else try_then (as_dict ''get'' (py_or (get_none h ''_source'') (PDict []))) (\<lambda>source.
           Inr (py_or (get_none source ''id'') (get_none source ''doc_id'')))) (\<lambda>i.
       Inr (if truthy i then [py_str i] else []))
   | _ \<Rightarrow> Inr [])"

definition es_extract_doc_ids :: "pdict \<Rightarrow> string list res" where
  "es_extract_doc_ids response =
     (case map_of response ''hits'' of
        Some (PDict h) \<Rightarrow> try_then (py_iter (py_or (get_or h ''hits'' (PList [])) (PList []))) (\<lambda>hits.
          try_then (map_res hit_id hits) (\<lambda>ids. Inr (concat ids)))
      | _ \<Rightarrow> Inr [])"

definition es_response_total :: "pdict \<Rightarrow> int option" where
  "es_response_total response = (case get_none response ''hits'' of
     PDict h \<Rightarrow> (case get_none h ''total'' of
        PDict t \<Rightarrow> (case get_none t ''value'' of PInt i \<Rightarrow> Some i | PFloat r \<Rightarrow> Some (if r \<ge> 0 then \<lfloor>r\<rfloor> else \<lceil>r\<rceil>) | _ \<Rightarrow> None)
      | PInt i \<Rightarrow> Some i
      | PBool b \<Rightarrow> Some (of_bool b)
      | _ \<Rightarrow> None)
   | _ \<Rightarrow> None)"

section \<open>Infinity\<close>

definition bad_filter :: "string \<Rightarrow> pdict \<Rightarrow> 'a res" where
  "bad_filter what flt = raise ValueError (what @ '': '' @ py_str (PDict flt))"

text \<open>\<open>^[a-zA-Z_][a-zA-Z0-9_]*$\<close>, where \<open>$\<close> also stands before a final line feed.\<close>

definition identifier_like :: "string \<Rightarrow> bool" where
  "identifier_like s = (let t = (if s \<noteq> [] \<and> last s = CHR 0x0A then butlast s else s)
     in t \<noteq> [] \<and> \<not> is_digit_char (hd t) \<and> list_all (\<lambda>c. c \<in> set (upper_letters @ lower_letters @ digit_chars @ ''_'')) t)"

definition sql_range_ops :: "(string, string) dict" where
  "sql_range_ops = [(''>'', ''>''), (''<'', ''<''), (sign_ge, ''>=''), (sign_le, ''<='')]"

definition quote :: string where
  "quote = [CHR 0x27]"

definition dquote :: string where
  "dquote = [CHR 0x22]"

definition escape_sql_string :: "string \<Rightarrow> string" where
  "escape_sql_string s = replace_str quote (quote @ quote) s"

definition escape_like_wildcards :: "string \<Rightarrow> string" where
  "escape_like_wildcards t = replace_str ''_'' [CHR 0x5C, CHR ''_''] (replace_str ''%'' [CHR 0x5C, CHR ''%'']
     (replace_str [CHR 0x5C] [CHR 0x5C, CHR 0x5C] t))"

definition json_path :: "string \<Rightarrow> string" where
  "json_path key = quote @ ''$.'' @ key @ quote"

definition extract_string :: "string \<Rightarrow> string" where
  "extract_string key = ''JSON_EXTRACT_STRING(meta_fields, '' @ json_path key @ '')''"

definition contains_text :: "string \<Rightarrow> string \<Rightarrow> string" where
  "contains_text key t = ''JSON_CONTAINS(meta_fields, '' @ json_path key @ '', '' @ quote @ dquote @ escape_sql_string t @ dquote @ quote @ '')''"

definition contains_number :: "string \<Rightarrow> pyval \<Rightarrow> string" where
  "contains_number key v = ''JSON_CONTAINS(meta_fields, '' @ json_path key @ '', '' @ py_str v @ '')''"

definition contains_value :: "string \<Rightarrow> pyval \<Rightarrow> string" where
  "contains_value key v = (case v of PStr s \<Rightarrow> contains_text key s | _ \<Rightarrow> contains_number key v)"

definition number_or_text :: "pyval \<Rightarrow> pyval" where
  "number_or_text v = (case literal_eval (strip (py_str v)) of
     Some p \<Rightarrow> if py_num p \<noteq> None then p else PStr (py_str v) | None \<Rightarrow> PStr (py_str v))"

definition inf_coerce_scalar :: "pdict \<Rightarrow> pyval \<Rightarrow> pyval res" where
  "inf_coerce_scalar flt v =
     (if v = PNone then bad_filter ''scalar comparison value is None'' flt
      else if is_list v \<or> is_dict v then bad_filter ''scalar comparison value is non-scalar'' flt
      else Inr (number_or_text v))"

definition inf_coerce_range_value :: "pdict \<Rightarrow> pyval \<Rightarrow> pyval res" where
  "inf_coerce_range_value flt v =
     (if v = PNone then bad_filter ''range comparison value is None'' flt else Inr (number_or_text v))"

definition inf_coerce_string :: "pdict \<Rightarrow> pyval \<Rightarrow> string res" where
  "inf_coerce_string flt v =
     (if v = PNone then bad_filter ''string-operator value is None'' flt
      else if is_list v \<or> is_dict v then bad_filter ''string-operator value must be a scalar'' flt
      else if py_str v = [] then bad_filter ''string-operator value is empty'' flt
      else Inr (py_str v))"

definition inf_csv_or_list :: "pdict \<Rightarrow> pyval \<Rightarrow> pyval list res" where
  "inf_csv_or_list flt v =
     (if v = PNone then bad_filter ''membership value is None'' flt
      else let ms = members_of v in
        if ms = [] then bad_filter ''membership value resolved to empty list'' flt else Inr (map normal_member ms))"

text \<open>The texts and the numbers of a membership test, each group joined by the operator.\<close>

definition grouped :: "string \<Rightarrow> (pyval \<Rightarrow> string) \<Rightarrow> pyval list \<Rightarrow> string list" where
  "grouped joiner render vs =
     (let texts = filter is_str vs; nums = filter (\<lambda>v. \<not> is_str v) vs
      in (if texts \<noteq> [] then [''('' @ join_str joiner (map render texts) @ '')''] else [])
       @ (if nums \<noteq> [] then [''('' @ join_str joiner (map render nums) @ '')''] else []))"

definition inf_translate_op :: "pdict \<Rightarrow> string \<Rightarrow> string \<Rightarrow> pyval \<Rightarrow> string res" where
  "inf_translate_op flt op key v =
     (if op = ''empty'' then Inr (extract_string key @ '' = '' @ quote @ dquote @ dquote @ quote)
      else if op = ''not empty'' then Inr (extract_string key @ '' != '' @ quote @ dquote @ dquote @ quote)
      else if op = ''='' then try_then (inf_coerce_scalar flt v) (\<lambda>c. Inr (contains_value key c))
      else if op = sign_ne then try_then (inf_coerce_scalar flt v) (\<lambda>c. Inr (''NOT '' @ contains_value key c))
      else if has_key sql_range_ops op then try_then (inf_coerce_range_value flt v) (\<lambda>c.
        let sql_op = (case map_of sql_range_ops op of Some r \<Rightarrow> r | None \<Rightarrow> op)
        in Inr (case c of
             PStr s \<Rightarrow> extract_string key @ '' '' @ sql_op @ '' '' @ quote @ escape_sql_string s @ quote
           | _ \<Rightarrow> ''JSON_EXTRACT_DOUBLE(meta_fields, '' @ json_path key @ '') '' @ sql_op @ '' '' @ py_str c))
      else if op = ''in'' then try_then (inf_csv_or_list flt v) (\<lambda>ms. try_then (map_res (inf_coerce_range_value flt) ms) (\<lambda>cs.
        Inr (''('' @ join_str '' OR '' (grouped '' OR '' (contains_value key) cs) @ '')'')))
      else if op = ''not in'' then try_then (inf_csv_or_list flt v) (\<lambda>ms. try_then (map_res (inf_coerce_range_value flt) ms) (\<lambda>cs.
        Inr (join_str '' AND '' (grouped '' AND '' (\<lambda>c. ''NOT '' @ contains_value key c) cs))))
      else if op = ''contains'' then
        (if \<not> truthy v \<and> \<not> py_eq v (PInt 0) then bad_filter ''contains value is empty'' flt
         else try_then (inf_coerce_range_value flt v) (\<lambda>c.
           Inr (case c of PStr s \<Rightarrow> contains_text key (py_str v) | _ \<Rightarrow> contains_number key c)))
      else if op = ''not contains'' then try_then (inf_coerce_string flt v) (\<lambda>t. Inr (''NOT '' @ contains_text key t))
      else if op = ''start with'' then try_then (inf_coerce_string flt v) (\<lambda>t.
        Inr (extract_string key @ '' LIKE '' @ quote @ escape_sql_string (escape_like_wildcards t) @ ''%'' @ quote))
      else if op = ''end with'' then try_then (inf_coerce_string flt v) (\<lambda>t.
        Inr (extract_string key @ '' LIKE '' @ quote @ ''%'' @ escape_sql_string (escape_like_wildcards t) @ quote))
      else raise ValueError (''no handler for operator: '' @ py_repr (PStr op) @ '', filter: '' @ py_str (PDict flt)))"

definition inf_translate :: "pyval \<Rightarrow> string res" where
  "inf_translate flt0 = try_then (as_dict ''get'' flt0) (\<lambda>flt.
     let op = get_none flt ''op'' in
     case get_none flt ''key'' of
       PStr key \<Rightarrow>
         (if key = [] then bad_filter ''filter is missing a string key'' flt
          else if \<not> identifier_like key then bad_filter ''invalid key format (must be identifier-like)'' flt
          else try_then (operator_of op) (\<lambda>known. case known of
            None \<Rightarrow> raise ValueError (''unknown operator: '' @ py_repr op @ '', filter: '' @ py_str (PDict flt))
          | Some o' \<Rightarrow> inf_translate_op flt o' key (get_none flt ''value'')))
     | _ \<Rightarrow> bad_filter ''filter is missing a string key'' flt)"

definition inf_plan_pushdown :: "pyval list \<Rightarrow> string \<Rightarrow> string list res" where
  "inf_plan_pushdown filters logic =
     (if logic \<notin> {''and'', ''or''} then raise ValueError (''unknown logic '' @ py_repr (PStr logic))
      else map_res inf_translate filters)"

definition build_infinity_filter :: "pyval list \<Rightarrow> string \<Rightarrow> string res" where
  "build_infinity_filter filters logic =
     (if filters = [] then Inr ''1=1''
      else try_then (inf_plan_pushdown filters logic) (\<lambda>fragments.
        Inr (''('' @ join_str (if logic = ''and'' then '' AND '' else '' OR '') fragments @ '')'')))"

fun inf_is_pushdown_supported :: "pyval list \<Rightarrow> bool res" where
  "inf_is_pushdown_supported [] = Inr True"
| "inf_is_pushdown_supported (flt # filters) = try_then (as_dict ''get'' flt) (\<lambda>f.
     try_then (operator_of (get_none f ''op'')) (\<lambda>known.
       if known = None \<or> \<not> is_text_key (get_none f ''key'') then Inr False else inf_is_pushdown_supported filters))"

section \<open>The service\<close>

text \<open>
  What the service needs: the tenant of a knowledge base (None when there is none), whether an index
  exists, which engine runs, the search call of the Elasticsearch client when there is one, and the
  rows an Infinity condition selects in a table.
\<close>

record push_env =
  pe_tenant :: "string \<Rightarrow> string option res"
  pe_index_exist :: "string \<Rightarrow> bool"
  pe_infinity :: bool
  pe_es :: "(string \<Rightarrow> pyval \<Rightarrow> pdict res) option"
  pe_sql :: "string \<Rightarrow> string \<Rightarrow> string list res"

text \<open>The ids in the order of their first occurrence.\<close>

definition unique_ids :: "string list \<Rightarrow> string list" where
  "unique_ids ids = rev (remdups (rev ids))"

definition request_body :: "pyval \<Rightarrow> int \<Rightarrow> pyval" where
  "request_body q limit = PDict (dupdate (case q of PDict d \<Rightarrow> d | _ \<Rightarrow> [])
     [(''size'', PInt limit), (''_source'', PList [PStr ''id'']), (''track_total_hits'', PBool True)])"

definition filter_doc_ids_by_metadata_es ::
    "push_env \<Rightarrow> string \<Rightarrow> string list \<Rightarrow> pyval list \<Rightarrow> string \<Rightarrow> int \<Rightarrow> string list option res" where
  "filter_doc_ids_by_metadata_es env index_name kb_ids filters logic limit = (case pe_es env of
     None \<Rightarrow> Inr None
   | Some search \<Rightarrow> try_then (es_is_pushdown_supported filters) (\<lambda>ok.
       if \<not> ok then Inr None
       else (case build_meta_filter_query filters logic kb_ids of
           Inl e \<Rightarrow> if exc_class e = UnsupportedMetaFilter then Inr None else Inl e
         | Inr q \<Rightarrow> (case search index_name (request_body q limit) of
             Inl e \<Rightarrow> Inr None
           | Inr response \<Rightarrow> try_then (es_extract_doc_ids response) (\<lambda>ids.
               case es_response_total response of
                 Some n \<Rightarrow> if n > limit then Inr None else Inr (Some (unique_ids ids))
               | None \<Rightarrow> Inr (Some (unique_ids ids)))))))"

definition kb_condition :: "string list \<Rightarrow> string" where
  "kb_condition kb_ids = ''kb_id IN ('' @ join_str '', '' (map (\<lambda>k. quote @ escape_sql_string k @ quote) kb_ids) @ '')''"

definition filter_doc_ids_by_metadata_infinity ::
    "push_env \<Rightarrow> string \<Rightarrow> string list \<Rightarrow> pyval list \<Rightarrow> string \<Rightarrow> string list option res" where
  "filter_doc_ids_by_metadata_infinity env index_name kb_ids filters logic =
     try_then (inf_is_pushdown_supported filters) (\<lambda>ok.
       if \<not> ok then Inr None
       else (case try_then (build_infinity_filter filters logic) (\<lambda>sql.
               pe_sql env index_name (kb_condition kb_ids @ '' AND '' @ sql)) of
           Inl e \<Rightarrow> Inr None | Inr ids \<Rightarrow> Inr (Some ids)))"

definition doc_meta_index_name :: "string \<Rightarrow> string" where
  "doc_meta_index_name tenant_id = ''ragflow_doc_meta_'' @ tenant_id"

definition filter_doc_ids_by_meta_pushdown ::
    "push_env \<Rightarrow> string list \<Rightarrow> pyval list \<Rightarrow> string \<Rightarrow> int \<Rightarrow> string list option res" where
  "filter_doc_ids_by_meta_pushdown env kb_ids filters logic limit =
     (if kb_ids = [] \<or> filters = [] then Inr None
      else (case pe_tenant env (hd kb_ids) of
          Inl e \<Rightarrow> Inr None
        | Inr None \<Rightarrow> Inr None
        | Inr (Some tenant) \<Rightarrow>
            (let index_name = doc_meta_index_name tenant
             in if \<not> pe_index_exist env index_name then Inr (Some [])
                else if pe_infinity env then filter_doc_ids_by_metadata_infinity env index_name kb_ids filters logic
                else filter_doc_ids_by_metadata_es env index_name kb_ids filters logic limit)))"

section \<open>The metadata of all documents, by key and value\<close>

definition extract_metadata :: "pdict \<Rightarrow> pyval" where
  "extract_metadata doc = (case get_none doc ''meta_fields'' of
     PStr s \<Rightarrow> (if s = [] then PDict [] else (case json_loads s of Some v \<Rightarrow> v | None \<Rightarrow> PDict []))
   | PDict d \<Rightarrow> PDict d
   | _ \<Rightarrow> PDict [])"

definition add_value :: "string \<Rightarrow> pyval \<Rightarrow> values_docs \<Rightarrow> values_docs" where
  "add_value doc_id vv values = (if vv = PNone then values
     else let sv = PStr (py_str vv)
       in AList.update sv ((case map_of values sv of Some ids \<Rightarrow> ids | None \<Rightarrow> []) @ [doc_id]) values)"

definition add_field :: "string \<Rightarrow> string \<times> pyval \<Rightarrow> metas \<Rightarrow> metas" where
  "add_field doc_id kv m = (case kv of (k, v) \<Rightarrow>
     dset k (fold (add_value doc_id) (items_of v) (case map_of m k of Some values \<Rightarrow> values | None \<Rightarrow> [])) m)"

definition flatted_meta :: "(string \<times> pdict) list \<Rightarrow> metas" where
  "flatted_meta results = (case fold_res (\<lambda>(doc_id, doc) m.
       try_then (as_dict ''items'' (extract_metadata doc)) (\<lambda>d. Inr (fold (add_field doc_id) d m))) results [] of
     Inl e \<Rightarrow> [] | Inr m \<Rightarrow> m)"

end
