(* ===== verification/PushdownLaws.thy ===== *)
theory PushdownLaws
  imports MetaPushdown
begin

text \<open>
  Filters evaluated by the search engine against filters evaluated in memory: where both select the same
  documents, where they do not, and why a value never leaves its SQL literal. The engine is a parameter
  whose documented behaviour is a predicate.
\<close>

section \<open>The flattened metadata\<close>

definition in_values :: "values_docs \<Rightarrow> pyval \<Rightarrow> string \<Rightarrow> bool" where
  "in_values vals sv i = (\<exists>ids. map_of vals sv = Some ids \<and> i \<in> set ids)"

definition listed :: "metas \<Rightarrow> string \<Rightarrow> pyval \<Rightarrow> string \<Rightarrow> bool" where
  "listed m k sv i = (\<exists>vals. map_of m k = Some vals \<and> in_values vals sv i)"

definition metas_ok :: "metas \<Rightarrow> bool" where
  "metas_ok m = (\<forall>k vals. map_of m k = Some vals \<longrightarrow> distinct (map fst vals))"

lemma in_values_add:
  "in_values (add_value i vv vals) sv j \<longleftrightarrow> in_values vals sv j \<or> (j = i \<and> vv \<noteq> PNone \<and> sv = PStr (py_str vv))"
  by (cases "map_of vals (PStr (py_str vv))") (auto simp: in_values_def add_value_def Let_def dget_dset)

lemma in_values_fold:
  "in_values (fold (add_value i) vs vals) sv j \<longleftrightarrow>
    in_values vals sv j \<or> (j = i \<and> (\<exists>vv \<in> set vs. vv \<noteq> PNone \<and> sv = PStr (py_str vv)))"
  by (induction vs arbitrary: vals) (auto simp: in_values_add)

lemma distinct_fold_add: "distinct (map fst vals) \<Longrightarrow> distinct (map fst (fold (add_value i) vs vals))"
  by (induction vs arbitrary: vals) (auto simp: add_value_def Let_def distinct_update)

lemma listed_add_field:
  "listed (add_field i (k, v) m) k' sv j \<longleftrightarrow>
    listed m k' sv j \<or> (j = i \<and> k' = k \<and> (\<exists>vv \<in> set (items_of v). vv \<noteq> PNone \<and> sv = PStr (py_str vv)))"
proof (cases "k' = k")
  case True
  then show ?thesis
    by (cases "map_of m k") (simp_all add: listed_def add_field_def dget_dset in_values_fold in_values_def [of "[]"])
next
  case False
  then show ?thesis by (simp add: listed_def add_field_def dget_dset)
qed

lemma listed_fields:
  "listed (fold (add_field i) d m) k sv j \<longleftrightarrow>
    listed m k sv j \<or> (j = i \<and> (\<exists>v. (k, v) \<in> set d \<and> (\<exists>vv \<in> set (items_of v). vv \<noteq> PNone \<and> sv = PStr (py_str vv))))"
proof (induction d arbitrary: m)
  case (Cons p d)
  obtain k' v' where p: "p = (k', v')" by (cases p)
  have "listed (fold (add_field i) (p # d) m) k sv j = listed (fold (add_field i) d (add_field i (k', v') m)) k sv j"
    by (simp add: p)
  also have "\<dots> \<longleftrightarrow> listed (add_field i (k', v') m) k sv j
      \<or> (j = i \<and> (\<exists>v. (k, v) \<in> set d \<and> (\<exists>vv \<in> set (items_of v). vv \<noteq> PNone \<and> sv = PStr (py_str vv))))"
    by (rule Cons.IH)
  finally show ?case unfolding listed_add_field p by (simp only: list.set insert_iff prod.inject) blast
qed simp

lemma metas_ok_fields: "metas_ok m \<Longrightarrow> metas_ok (fold (add_field i) d m)"
proof (induction d arbitrary: m)
  case (Cons p d)
  have "metas_ok (add_field i p m)"
    using Cons.prems by (cases p) (auto simp: metas_ok_def add_field_def dget_dset distinct_fold_add split: option.splits)
  then show ?case using Cons.IH by simp
qed simp

lemma flatted_meta_listed:
  assumes "\<forall>(i, doc) \<in> set docs. extract_metadata doc = PDict (mf doc)"
  shows "metas_ok (flatted_meta docs) \<and> (listed (flatted_meta docs) k sv j \<longleftrightarrow>
    (\<exists>doc v. (j, doc) \<in> set docs \<and> (k, v) \<in> set (mf doc) \<and> (\<exists>vv \<in> set (items_of v). vv \<noteq> PNone \<and> sv = PStr (py_str vv))))"
proof -
  let ?step = "\<lambda>(doc_id, doc) m. try_then (as_dict ''items'' (extract_metadata doc)) (\<lambda>d. Inr (fold (add_field doc_id) d m))"
  have "\<exists>m'. fold_res ?step docs m = Inr m' \<and> (metas_ok m \<longrightarrow> metas_ok m') \<and> (listed m' k sv j \<longleftrightarrow> listed m k sv j \<or>
      (\<exists>doc v. (j, doc) \<in> set docs \<and> (k, v) \<in> set (mf doc) \<and> (\<exists>vv \<in> set (items_of v). vv \<noteq> PNone \<and> sv = PStr (py_str vv))))" for m
    using assms
  proof (induction docs arbitrary: m)
    case Nil
    then show ?case by simp
  next
    case (Cons p docs)
    obtain i doc where p: "p = (i, doc)" by (cases p)
    then have "?step p m = Inr (fold (add_field i) (mf doc) m)" using Cons.prems by (simp add: as_dict_def)
    moreover obtain m' where "fold_res ?step docs (fold (add_field i) (mf doc) m) = Inr m'"
        "metas_ok (fold (add_field i) (mf doc) m) \<longrightarrow> metas_ok m'"
        "listed m' k sv j \<longleftrightarrow> listed (fold (add_field i) (mf doc) m) k sv j \<or>
          (\<exists>doc v. (j, doc) \<in> set docs \<and> (k, v) \<in> set (mf doc) \<and> (\<exists>vv \<in> set (items_of v). vv \<noteq> PNone \<and> sv = PStr (py_str vv)))"
      using Cons.IH [of "fold (add_field i) (mf doc) m"] Cons.prems by auto
    ultimately show ?case using metas_ok_fields [of m i "mf doc"] p by (auto simp: listed_fields)
  qed
  from this [of "[]"] show ?thesis by (auto simp: flatted_meta_def metas_ok_def listed_def)
qed

text \<open>A condition in memory, over the flattened metadata.\<close>

lemma condition_ids_listed:
  assumes "metas_ok m" and "op \<notin> set comparison_ops"
  shows "\<exists>ids. condition_ids m (PDict [(''key'', PStr k), (''op'', PStr op), (''value'', v)]) = Inr ids
    \<and> (\<forall>j. j \<in> set ids \<longleftrightarrow> (\<exists>sv. listed m k sv j \<and> record_matches op v sv))"
proof (cases "map_of m k")
  case None
  then show ?thesis
    by (auto simp: condition_ids_def subscript_def dict_item_def key_values_def usable_key_def listed_def)
next
  case (Some vals)
  have "distinct (map fst vals)" using assms(1) Some by (auto simp: metas_ok_def)
  then have "(\<exists>sv ids. (sv, ids) \<in> set vals \<and> record_matches op v sv \<and> j \<in> set ids) \<longleftrightarrow>
      (\<exists>sv. in_values vals sv j \<and> record_matches op v sv)" for j
    by (auto simp: in_values_def)
  then show ?thesis using Some filter_out_other [OF assms(2), of vals v]
    by (auto simp: condition_ids_def subscript_def dict_item_def key_values_def usable_key_def listed_def)
qed

section \<open>Wildcards\<close>

definition escaped_char :: "char \<Rightarrow> string" where
  "escaped_char c = (if c \<in> {CHR 0x5C, CHR ''*'', CHR ''?''} then [CHR 0x5C, c] else [c])"

lemma escape_wildcard_chars: "escape_wildcard t = concat (map escaped_char t)"
  unfolding escape_wildcard_def replace_char by (induction t) (auto simp: escaped_char_def)

lemma lower_char_special: "lower_char c \<in> {CHR 0x5C, CHR ''*'', CHR ''?''} \<longleftrightarrow> c \<in> {CHR 0x5C, CHR ''*'', CHR ''?''}"
proof -
  have letters: "list_all (\<lambda>(a, b). a \<notin> set [CHR 0x5C, CHR ''*'', CHR ''?''] \<and> b \<notin> set [CHR 0x5C, CHR ''*'', CHR ''?'']) (zip upper_letters lower_letters)"
    by code_simp
  show ?thesis
  proof (cases "map_of (zip upper_letters lower_letters) c")
    case None
    then show ?thesis by (simp add: lower_char_def)
  next
    case (Some d)
    then have "(c, d) \<in> set (zip upper_letters lower_letters)" by (rule map_of_SomeD)
    then have "c \<notin> set [CHR 0x5C, CHR ''*'', CHR ''?'']" "d \<notin> set [CHR 0x5C, CHR ''*'', CHR ''?'']"
      using letters unfolding list_all_iff by blast+
    then show ?thesis using Some by (simp add: lower_char_def)
  qed
qed

lemma lower_char_fixed: "c \<in> {CHR 0x5C, CHR ''*'', CHR ''?''} \<Longrightarrow> lower_char c = c"
proof -
  have "list_all (\<lambda>c. lower_char c = c) [CHR 0x5C, CHR ''*'', CHR ''?'']" by code_simp
  then show "c \<in> {CHR 0x5C, CHR ''*'', CHR ''?''} \<Longrightarrow> ?thesis" by auto
qed

lemma lower_escape: "lower (escape_wildcard t) = escape_wildcard (lower t)"
proof -
  have "map lower_char (escaped_char c) = escaped_char (lower_char c)" for c
    using lower_char_special [of c] lower_char_fixed [of c] lower_char_fixed [of "CHR 0x5C"] by (simp add: escaped_char_def)
  then show ?thesis unfolding escape_wildcard_chars lower_def by (induction t) simp_all
qed

text \<open>The wildcard match of the engine, without case folding.\<close>

function glob :: "string \<Rightarrow> string \<Rightarrow> bool" where
  "glob [] s = (s = [])"
| "glob (c # p) s =
     (if c = CHR ''*'' then glob p s \<or> (case s of [] \<Rightarrow> False | x # xs \<Rightarrow> glob (c # p) xs)
      else if c = CHR 0x5C then (case p of [] \<Rightarrow> False | q # ps \<Rightarrow> (case s of [] \<Rightarrow> False | x # xs \<Rightarrow> x = q \<and> glob ps xs))
      else (case s of [] \<Rightarrow> False | x # xs \<Rightarrow> (c = CHR ''?'' \<or> x = c) \<and> glob p xs))"
  by pat_completeness auto
termination by (relation "measure (\<lambda>(p, s). length p + length s)") auto

lemma glob_star: "glob (CHR ''*'' # p) s \<longleftrightarrow> (\<exists>u v. s = u @ v \<and> glob p v)"
proof (induction s)
  case Nil
  then show ?case by simp
next
  case (Cons x xs)
  have "(\<exists>u v. x # xs = u @ v \<and> glob p v) \<longleftrightarrow> glob p (x # xs) \<or> (\<exists>u v. xs = u @ v \<and> glob p v)"
    by (auto simp: Cons_eq_append_conv)
  then show ?case using Cons by simp
qed

lemma glob_escaped: "glob (escape_wildcard t @ p) s \<longleftrightarrow> (\<exists>r. s = t @ r \<and> glob p r)"
proof (induction t arbitrary: s)
  case Nil
  then show ?case by (simp add: escape_wildcard_chars)
next
  case (Cons c t)
  have "glob (escape_wildcard (c # t) @ p) s \<longleftrightarrow> (case s of [] \<Rightarrow> False | x # xs \<Rightarrow> x = c \<and> glob (escape_wildcard t @ p) xs)"
    by (auto simp: escape_wildcard_chars escaped_char_def split: list.split)
  then show ?case using Cons by (auto split: list.split)
qed

lemma glob_contains: "glob (''*'' @ escape_wildcard t @ ''*'') s \<longleftrightarrow> sublist t s"
proof -
  have all: "glob (''*'') r" for r by (induction r) auto
  have inner: "glob (escape_wildcard t @ ''*'') v \<longleftrightarrow> (\<exists>r. v = t @ r)" for v
    unfolding glob_escaped using all by blast
  have "glob (''*'' @ escape_wildcard t @ ''*'') s \<longleftrightarrow> (\<exists>u v. s = u @ v \<and> glob (escape_wildcard t @ ''*'') v)"
    using glob_star [of "escape_wildcard t @ ''*''" s] by simp
  then show ?thesis unfolding inner sublist_def by auto
qed

lemma glob_ends: "glob (''*'' @ escape_wildcard t) s \<longleftrightarrow> suffix t s"
proof -
  have "glob (''*'' @ escape_wildcard t) s \<longleftrightarrow> (\<exists>u v. s = u @ v \<and> glob (escape_wildcard t @ []) v)"
    using glob_star [of "escape_wildcard t" s] by simp
  also have "\<dots> \<longleftrightarrow> suffix t s" unfolding glob_escaped by (auto simp: suffix_def)
  finally show ?thesis .
qed

section \<open>The engine\<close>

record es_doc =
  ed_id :: string
  ed_kb :: string
  ed_meta :: pdict

text \<open>The texts a keyword field holds for a document: one value, or one for each element of a list.\<close>

definition text_values :: "pyval \<Rightarrow> string list" where
  "text_values v = concat (map (\<lambda>i. case i of PStr s \<Rightarrow> [s] | _ \<Rightarrow> []) (items_of v))"

definition texts_at :: "pdict \<Rightarrow> string \<Rightarrow> string list" where
  "texts_at meta k = concat (map (\<lambda>(k', v). if k' = k then text_values v else []) meta)"

text \<open>What is indexed as a keyword: texts of at most 256 characters, the limit of the dynamic mapping.\<close>

definition indexed :: "es_doc \<Rightarrow> bool" where
  "indexed d = list_all (\<lambda>(k, v). list_all (\<lambda>i. case i of PStr s \<Rightarrow> length s \<le> 256 | _ \<Rightarrow> False) (items_of v)) (ed_meta d)"

text \<open>
  The documented meaning of the queries the code builds, for keys without a dot that are mapped as texts:
  compound queries, the terms of a knowledge base, and for a keyword field the query on its texts, of
  which one must match. Case is folded where the query asks for it.
\<close>

definition bool_laws :: "(pyval \<Rightarrow> es_doc \<Rightarrow> bool) \<Rightarrow> bool" where
  "bool_laws es \<longleftrightarrow>
     (\<forall>qs d. es (PDict [(''bool'', PDict [(''filter'', PList qs)])]) d = list_all (\<lambda>q. es q d) qs) \<and>
     (\<forall>qs d. es (PDict [(''bool'', PDict [(''must'', PList qs)])]) d = list_all (\<lambda>q. es q d) qs) \<and>
     (\<forall>qs d. es (PDict [(''bool'', PDict [(''must_not'', PList qs)])]) d = list_all (\<lambda>q. \<not> es q d) qs) \<and>
     (\<forall>qs ns d. es (PDict [(''bool'', PDict [(''must'', PList qs), (''must_not'', PList ns)])]) d
        = (list_all (\<lambda>q. es q d) qs \<and> list_all (\<lambda>q. \<not> es q d) ns)) \<and>
     (\<forall>qs d. es (any_of qs) d = list_ex (\<lambda>q. es q d) qs) \<and>
     (\<forall>kbs d. es (PDict [(''terms'', PDict [(''kb_id'', PList (map PStr kbs))])]) d = (ed_kb d \<in> set kbs))"

definition field_laws :: "(pyval \<Rightarrow> es_doc \<Rightarrow> bool) \<Rightarrow> bool" where
  "field_laws es \<longleftrightarrow> (\<forall>k d. CHR ''.'' \<notin> set k \<longrightarrow> indexed d \<longrightarrow>
     es (exists_clause (field_name k)) d = (texts_at (ed_meta d) k \<noteq> []) \<and>
     es (blank_clause (field_name k)) d = ([] \<in> set (texts_at (ed_meta d) k)) \<and>
     (\<forall>s. es (folded ''term'' (field_name k) s) d = list_ex (\<lambda>t. lower t = lower s) (texts_at (ed_meta d) k)) \<and>
     (\<forall>s. es (folded ''prefix'' (field_name k) s) d = list_ex (\<lambda>t. prefix (lower s) (lower t)) (texts_at (ed_meta d) k)) \<and>
     (\<forall>s. es (folded ''wildcard'' (field_name k) s) d = list_ex (\<lambda>t. glob (lower s) (lower t)) (texts_at (ed_meta d) k)))"

definition es_laws :: "(pyval \<Rightarrow> es_doc \<Rightarrow> bool) \<Rightarrow> bool" where
  "es_laws es = (bool_laws es \<and> field_laws es)"

text \<open>A search answers with the exact number of hits and the first of them up to the size asked for.\<close>

definition hit_of :: "es_doc \<Rightarrow> pyval" where
  "hit_of d = PDict [(''_id'', PStr (ed_id d))]"

definition response_of :: "es_doc list \<Rightarrow> int \<Rightarrow> pdict" where
  "response_of hits limit = [(''hits'', PDict [(''total'', PDict [(''value'', PInt (int (length hits)))]),
     (''hits'', PList (map hit_of (take (nat limit) hits)))])]"

definition answers :: "(string \<Rightarrow> pyval \<Rightarrow> pdict res) \<Rightarrow> (pyval \<Rightarrow> es_doc \<Rightarrow> bool) \<Rightarrow> es_doc list \<Rightarrow> bool" where
  "answers search es docs \<longleftrightarrow> (\<forall>index_name q limit. \<exists>hits. set hits = {d \<in> set docs. es q d} \<and> distinct hits
     \<and> search index_name (request_body (PDict [(''query'', q)]) limit) = Inr (response_of hits limit))"

text \<open>An engine that has these laws.\<close>

definition clauses_in :: "pdict \<Rightarrow> string \<Rightarrow> pyval list" where
  "clauses_in b k = (case map_of b k of Some (PList qs) \<Rightarrow> qs | _ \<Rightarrow> [])"

definition text_in :: "pdict \<Rightarrow> string \<Rightarrow> string" where
  "text_in b k = (case map_of b k of Some (PStr s) \<Rightarrow> s | _ \<Rightarrow> [])"

definition leaf_eval :: "string \<Rightarrow> pdict \<Rightarrow> es_doc \<Rightarrow> bool" where
  "leaf_eval kind b d =
     (if kind = ''terms'' then PStr (ed_kb d) \<in> set (clauses_in b ''kb_id'')
      else if kind = ''exists'' then texts_at (ed_meta d) (drop 12 (text_in b ''field'')) \<noteq> []
      else (case b of
          (p, v) # _ \<Rightarrow>
            (let ts = texts_at (ed_meta d) (drop 12 (take (length p - 8) p))
             in case v of
               PDict c \<Rightarrow> (let s = lower (text_in c ''value'')
                 in list_ex (\<lambda>t. if kind = ''wildcard'' then glob s (lower t) else if kind = ''prefix'' then prefix s (lower t) else s = lower t) ts)
             | PStr s \<Rightarrow> s \<in> set ts
             | _ \<Rightarrow> False)
        | [] \<Rightarrow> False))"

lemma clauses_in_size:
  assumes "q \<in> set (clauses_in b k)"
  shows "size q < size (PDict b)"
proof -
  obtain qs where qs: "map_of b k = Some (PList qs)" "q \<in> set qs"
    using assms by (cases "map_of b k") (auto simp: clauses_in_def split: pyval.splits)
  have "(k, PList qs) \<in> set b" using qs(1) by (rule map_of_SomeD)
  then have "size (PList qs) \<le> size_list (size_prod (\<lambda>x. 0) size) b" by (rule size_list_estimation') simp
  moreover have "size q \<le> size_list size qs" using qs(2) by (rule size_list_estimation') simp
  ultimately show ?thesis by simp
qed

function es_eval :: "pyval \<Rightarrow> es_doc \<Rightarrow> bool" where
  "es_eval q d = (case q of
     PDict ((kind, PDict b) # _) \<Rightarrow>
       (if kind = ''bool'' then
          list_all (\<lambda>c. es_eval c d) (clauses_in b ''filter'' @ clauses_in b ''must'')
          \<and> list_all (\<lambda>c. \<not> es_eval c d) (clauses_in b ''must_not'')
          \<and> (map_of b ''should'' = None \<or> list_ex (\<lambda>c. es_eval c d) (clauses_in b ''should''))
        else leaf_eval kind b d)
   | _ \<Rightarrow> False)"
  by pat_completeness auto
termination
  by (relation "measure (\<lambda>(q, d). size q)") (auto dest!: clauses_in_size)

declare es_eval.simps [simp del]

lemma es_eval_bool: "es_eval (PDict [(''bool'', PDict b)]) d = (list_all (\<lambda>c. es_eval c d) (clauses_in b ''filter'' @ clauses_in b ''must'')
    \<and> list_all (\<lambda>c. \<not> es_eval c d) (clauses_in b ''must_not'')
    \<and> (map_of b ''should'' = None \<or> list_ex (\<lambda>c. es_eval c d) (clauses_in b ''should'')))"
  by (subst es_eval.simps) simp

lemma es_eval_leaf: "kind \<noteq> ''bool'' \<Longrightarrow> es_eval (PDict [(kind, PDict b)]) d = leaf_eval kind b d"
  by (subst es_eval.simps) simp

lemma field_of: "drop 12 (field_name k) = k"
  "drop 12 (take (length (keyword_path (field_name k)) - 8) (keyword_path (field_name k))) = k"
  by (simp_all add: field_name_def keyword_path_def)

lemma es_eval_laws: "es_laws es_eval"
  unfolding es_laws_def bool_laws_def field_laws_def any_of_def exists_clause_def blank_clause_def folded_def
  by (simp add: es_eval_bool es_eval_leaf leaf_eval_def field_of text_in_def clauses_in_def Let_def image_iff list_ex_iff eq_commute)

lemma es_eval_answers:
  assumes "distinct docs"
  shows "answers (\<lambda>index_name body. case body of
      PDict b \<Rightarrow> Inr (response_of (filter (es_eval (get_none b ''query'')) docs) (case get_none b ''size'' of PInt n \<Rightarrow> n | _ \<Rightarrow> 10))
    | _ \<Rightarrow> Inr []) es_eval docs"
  unfolding answers_def
proof (intro allI)
  fix index_name q limit
  let ?hits = "filter (es_eval q) docs"
  have "set ?hits = {d \<in> set docs. es_eval q d}" "distinct ?hits" using assms by auto
  moreover have "get_none (dupdate [(''query'', q)] [(''size'', PInt limit), (''_source'', PList [PStr ''id'']), (''track_total_hits'', PBool True)]) ''query'' = q"
      "get_none (dupdate [(''query'', q)] [(''size'', PInt limit), (''_source'', PList [PStr ''id'']), (''track_total_hits'', PBool True)]) ''size'' = PInt limit"
    by (simp_all add: get_or_def)
  ultimately show "\<exists>hits. set hits = {d \<in> set docs. es_eval q d} \<and> distinct hits \<and>
      (case request_body (PDict [(''query'', q)]) limit of
        PDict b \<Rightarrow> Inr (response_of (filter (es_eval (get_none b ''query'')) docs) (case get_none b ''size'' of PInt n \<Rightarrow> n | _ \<Rightarrow> 10))
      | _ \<Rightarrow> Inr []) = Inr (response_of hits limit)"
    by (intro exI [of _ ?hits]) (simp add: request_body_def)
qed

section \<open>Conditions on texts\<close>

text \<open>A condition is a key, an operator and a text; what it asks of the texts of a document.\<close>

definition text_filter :: "string \<times> string \<times> string \<Rightarrow> pyval" where
  "text_filter c = (case c of (k, op, v) \<Rightarrow> PDict [(''key'', PStr k), (''op'', PStr op), (''value'', PStr v)])"

definition text_condition :: "string \<times> string \<times> string \<Rightarrow> bool" where
  "text_condition c = (case c of (k, op, v) \<Rightarrow>
     k \<noteq> [] \<and> CHR ''.'' \<notin> set k \<and> v \<noteq> [] \<and> op \<in> {''contains'', ''start with'', ''end with''})"

definition text_satisfies :: "pdict \<Rightarrow> string \<times> string \<times> string \<Rightarrow> bool" where
  "text_satisfies meta c = (case c of (k, op, v) \<Rightarrow> list_ex (\<lambda>t.
     if op = ''contains'' then sublist (lower v) (lower t)
     else if op = ''start with'' then prefix (lower v) (lower t) else suffix (lower v) (lower t)) (texts_at meta k))"

text \<open>Translated for the engine:\<close>

lemma lower_append: "lower (s @ t) = lower s @ lower t"
  by (simp add: lower_def)

lemma lower_star: "lower ''*'' = ''*''"
  by code_simp

lemma translate_text:
  assumes "text_condition c" and "es_laws es"
  shows "\<exists>t q. es_translate (text_filter c) = Inr t \<and> to_clauses t = [q] \<and> (\<forall>d. indexed d \<longrightarrow> es q d = text_satisfies (ed_meta d) c)"
proof -
  obtain k op v where c: "c = (k, op, v)" by (cases c)
  have k: "k \<noteq> []" "CHR ''.'' \<notin> set k" and v: "v \<noteq> []" and op: "op \<in> {''contains'', ''start with'', ''end with''}"
    using assms(1) by (auto simp: text_condition_def c)
  have "op \<in> set supported_operators" using op by (auto simp: supported_operators_def)
  then have tr: "es_translate (text_filter c) = es_translate_op op (field_name k) (PStr v)"
    using k by (simp add: es_translate_def text_filter_def c as_dict_def operator_of_def usable_key_def get_or_def)
  have co: "es_coerce_string (PStr v) = Inr v" using v by (simp add: es_coerce_string_def)
  have one: "to_clauses (must_only [q]) = [q]" for q by (simp add: to_clauses_def must_only_def)
  have laws: "es (folded ''prefix'' (field_name k) s) d = list_ex (\<lambda>t. prefix (lower s) (lower t)) (texts_at (ed_meta d) k)"
      "es (folded ''wildcard'' (field_name k) s) d = list_ex (\<lambda>t. glob (lower s) (lower t)) (texts_at (ed_meta d) k)" if "indexed d" for s d
    using assms(2) k that by (auto simp: es_laws_def field_laws_def)
  consider "op = ''contains''" | "op = ''start with''" | "op = ''end with''" using op by auto
  then show ?thesis
  proof cases
    case 1
    have "es_translate_op op (field_name k) (PStr v) = Inr (must_only [es_wildcard (field_name k) (''*'' @ escape_wildcard v @ ''*'')])"
      by (simp add: es_translate_op_def 1 co range_ops_def sign_ne_def sign_ge_def sign_le_def)
    moreover have "es (es_wildcard (field_name k) (''*'' @ escape_wildcard v @ ''*'')) d = text_satisfies (ed_meta d) c" if "indexed d" for d
      unfolding es_wildcard_def laws(2) [OF that] lower_append lower_star lower_escape glob_contains
      by (simp add: text_satisfies_def c 1)
    ultimately show ?thesis using tr one by auto
  next
    case 2
    have "es_translate_op op (field_name k) (PStr v) = Inr (must_only [folded ''prefix'' (field_name k) v])"
      by (simp add: es_translate_op_def 2 co range_ops_def sign_ne_def sign_ge_def sign_le_def)
    moreover have "es (folded ''prefix'' (field_name k) v) d = text_satisfies (ed_meta d) c" if "indexed d" for d
      unfolding laws(1) [OF that] by (simp add: text_satisfies_def c 2)
    ultimately show ?thesis using tr one by auto
  next
    case 3
    have "es_translate_op op (field_name k) (PStr v) = Inr (must_only [es_wildcard (field_name k) (''*'' @ escape_wildcard v)])"
      by (simp add: es_translate_op_def 3 co range_ops_def sign_ne_def sign_ge_def sign_le_def)
    moreover have "es (es_wildcard (field_name k) (''*'' @ escape_wildcard v)) d = text_satisfies (ed_meta d) c" if "indexed d" for d
      unfolding es_wildcard_def laws(2) [OF that] lower_append lower_star lower_escape glob_ends
      by (simp add: text_satisfies_def c 3)
    ultimately show ?thesis using tr one by auto
  qed
qed

text \<open>Answered in memory:\<close>

definition rows_of :: "string list \<Rightarrow> es_doc list \<Rightarrow> (string \<times> pdict) list" where
  "rows_of kb_ids docs = map (\<lambda>d. (ed_id d, [(''meta_fields'', PDict (ed_meta d))])) (filter (\<lambda>d. ed_kb d \<in> set kb_ids) docs)"

lemma in_texts_at: "t \<in> set (texts_at meta k) \<longleftrightarrow> (\<exists>v. (k, v) \<in> set meta \<and> PStr t \<in> set (items_of v))"
proof -
  have "t \<in> set (text_values v) \<longleftrightarrow> PStr t \<in> set (items_of v)" for v
    unfolding text_values_def by (auto split: pyval.splits)
  then show ?thesis unfolding texts_at_def by (auto split: if_splits)
qed

lemma in_rows: "(j, doc) \<in> set (rows_of kb_ids docs) \<longleftrightarrow>
    (\<exists>d \<in> set docs. ed_kb d \<in> set kb_ids \<and> j = ed_id d \<and> doc = [(''meta_fields'', PDict (ed_meta d))])"
  unfolding rows_of_def by auto

lemma rows_listed:
  assumes "list_all indexed docs"
  shows "metas_ok (flatted_meta (rows_of kb_ids docs)) \<and> (listed (flatted_meta (rows_of kb_ids docs)) k sv j \<longleftrightarrow>
    (\<exists>d \<in> set docs. ed_kb d \<in> set kb_ids \<and> j = ed_id d \<and> (\<exists>t \<in> set (texts_at (ed_meta d) k). sv = PStr t)))"
proof -
  let ?mf = "\<lambda>doc. case get_none doc ''meta_fields'' of PDict m \<Rightarrow> m | _ \<Rightarrow> []"
  have "\<forall>(i, doc) \<in> set (rows_of kb_ids docs). extract_metadata doc = PDict (?mf doc)"
    by (auto simp: rows_of_def extract_metadata_def get_or_def)
  from flatted_meta_listed [OF this, of k sv j]
  have m: "metas_ok (flatted_meta (rows_of kb_ids docs))" and
    l: "listed (flatted_meta (rows_of kb_ids docs)) k sv j \<longleftrightarrow> (\<exists>doc v. (j, doc) \<in> set (rows_of kb_ids docs) \<and> (k, v) \<in> set (?mf doc)
      \<and> (\<exists>vv \<in> set (items_of v). vv \<noteq> PNone \<and> sv = PStr (py_str vv)))" by blast+
  have "(\<exists>v. (k, v) \<in> set (ed_meta d) \<and> (\<exists>vv \<in> set (items_of v). vv \<noteq> PNone \<and> sv = PStr (py_str vv)))
      \<longleftrightarrow> (\<exists>t \<in> set (texts_at (ed_meta d) k). sv = PStr t)" if "d \<in> set docs" for d
  proof -
    have texts: "\<exists>s. vv = PStr s" if "(k, v) \<in> set (ed_meta d)" "vv \<in> set (items_of v)" for v vv
      using assms \<open>d \<in> set docs\<close> that by (cases vv) (fastforce simp: list_all_iff indexed_def)+
    show ?thesis unfolding in_texts_at Bex_def using texts by fastforce
  qed
  moreover have "?mf [(''meta_fields'', PDict m)] = m" for m by (simp add: get_or_def)
  then have "listed (flatted_meta (rows_of kb_ids docs)) k sv j \<longleftrightarrow> (\<exists>d \<in> set docs. ed_kb d \<in> set kb_ids \<and> j = ed_id d
      \<and> (\<exists>v. (k, v) \<in> set (ed_meta d) \<and> (\<exists>vv \<in> set (items_of v). vv \<noteq> PNone \<and> sv = PStr (py_str vv))))"
    unfolding l in_rows by metis
  ultimately have "listed (flatted_meta (rows_of kb_ids docs)) k sv j \<longleftrightarrow>
      (\<exists>d \<in> set docs. ed_kb d \<in> set kb_ids \<and> j = ed_id d \<and> (\<exists>t \<in> set (texts_at (ed_meta d) k). sv = PStr t))"
    by (simp cong: bex_cong)
  with m show ?thesis by blast
qed

lemma condition_in_memory:
  assumes "text_condition c" and "list_all indexed docs"
  shows "\<exists>ids. condition_ids (flatted_meta (rows_of kb_ids docs)) (text_filter c) = Inr ids
    \<and> set ids = ed_id ` {d \<in> set docs. ed_kb d \<in> set kb_ids \<and> text_satisfies (ed_meta d) c}"
proof -
  obtain k op v where c: "c = (k, op, v)" by (cases c)
  have op: "op \<in> {''contains'', ''start with'', ''end with''}" using assms(1) by (simp add: text_condition_def c)
  then have "op \<notin> set comparison_ops" by (auto simp: comparison_ops_def sign_ne_def sign_ge_def sign_le_def)
  with condition_ids_listed [of "flatted_meta (rows_of kb_ids docs)" op k "PStr v"] rows_listed [OF assms(2)]
  obtain ids where ids: "condition_ids (flatted_meta (rows_of kb_ids docs)) (text_filter c) = Inr ids"
      "\<forall>j. j \<in> set ids \<longleftrightarrow> (\<exists>sv. listed (flatted_meta (rows_of kb_ids docs)) k sv j \<and> record_matches op (PStr v) sv)"
    by (auto simp: text_filter_def c)
  have "record_matches op (PStr v) (PStr t) \<longleftrightarrow> (if op = ''contains'' then sublist (lower v) (lower t)
      else if op = ''start with'' then prefix (lower v) (lower t) else suffix (lower v) (lower t))" for t
    using op by (elim insertE emptyE)
      (simp_all add: record_matches_def normalize_string_values_def matched_def items_of_def text_of_items_def str_in_iff lower_idem)
  then have sat: "text_satisfies meta c \<longleftrightarrow> (\<exists>t \<in> set (texts_at meta k). record_matches op (PStr v) (PStr t))" for meta
    by (simp add: text_satisfies_def c list_ex_iff)
  have lr: "listed (flatted_meta (rows_of kb_ids docs)) k sv j \<longleftrightarrow>
      (\<exists>d \<in> set docs. ed_kb d \<in> set kb_ids \<and> j = ed_id d \<and> (\<exists>t \<in> set (texts_at (ed_meta d) k). sv = PStr t))" for sv j
    using rows_listed [OF assms(2)] by blast
  have "j \<in> set ids \<longleftrightarrow> (\<exists>d \<in> set docs. ed_kb d \<in> set kb_ids \<and> j = ed_id d \<and> text_satisfies (ed_meta d) c)" for j
    unfolding sat ids(2) [rule_format] lr by blast
  then show ?thesis using ids(1) by auto
qed

section \<open>The same documents either way\<close>

lemma translate_texts:
  assumes "list_all text_condition cs" and "es_laws es"
  shows "\<exists>ts qs. map_res es_translate (map text_filter cs) = Inr ts \<and> concat (map to_clauses ts) = qs \<and> length ts = length cs
    \<and> (\<forall>d. indexed d \<longrightarrow> map (\<lambda>q. es q d) qs = map (text_satisfies (ed_meta d)) cs)"
  using assms(1)
proof (induction cs)
  case Nil
  then show ?case by simp
next
  case (Cons c cs)
  then obtain ts where ts: "map_res es_translate (map text_filter cs) = Inr ts" "length ts = length cs"
      "\<forall>d. indexed d \<longrightarrow> map (\<lambda>q. es q d) (concat (map to_clauses ts)) = map (text_satisfies (ed_meta d)) cs" by auto
  have "text_condition c" using Cons.prems by simp
  from translate_text [OF this assms(2)] obtain t q where "es_translate (text_filter c) = Inr t" "to_clauses t = [q]"
      "\<forall>d. indexed d \<longrightarrow> es q d = text_satisfies (ed_meta d) c" by blast
  then show ?case using ts by auto
qed

lemma list_all_map_eq: "map f xs = map g ys \<Longrightarrow> list_all f xs = list_all g ys \<and> list_ex f xs = list_ex g ys"
proof (induction xs arbitrary: ys)
  case (Cons x xs)
  then show ?case by (cases ys) auto
qed simp

lemma text_query:
  assumes "list_all text_condition cs" and "es_laws es" and "cs \<noteq> []" and "logic \<in> {''and'', ''or''}"
  shows "\<exists>q. build_meta_filter_query (map text_filter cs) logic kb_ids = Inr (PDict [(''query'', q)])
    \<and> (\<forall>d. indexed d \<longrightarrow> es q d = (ed_kb d \<in> set kb_ids \<and>
        (if logic = ''and'' then list_all (text_satisfies (ed_meta d)) cs else list_ex (text_satisfies (ed_meta d)) cs)))"
proof -
  obtain ts where ts: "map_res es_translate (map text_filter cs) = Inr ts" "length ts = length cs"
      "\<forall>d. indexed d \<longrightarrow> map (\<lambda>q. es q d) (concat (map to_clauses ts)) = map (text_satisfies (ed_meta d)) cs"
    using translate_texts [OF assms(1,2)] by blast
  let ?kb = "PDict [(''terms'', PDict [(''kb_id'', PList (map PStr kb_ids))])]"
  let ?flat = "concat (map to_clauses ts)"
  let ?inner = "if logic = ''or'' then any_of ?flat else PDict [(''bool'', PDict [(''must'', PList ?flat)])]"
  let ?q = "PDict [(''bool'', PDict [(''filter'', PList [?kb, ?inner])])]"
  have "ts \<noteq> []" using ts(2) assms(3) by auto
  then have "build_meta_filter_query (map text_filter cs) logic kb_ids = Inr (PDict [(''query'', ?q)])"
    using ts(1) assms(4) by (simp add: build_meta_filter_query_def es_plan_pushdown_def to_query_def Let_def)
  moreover have "es ?q d = (ed_kb d \<in> set kb_ids \<and>
      (if logic = ''and'' then list_all (text_satisfies (ed_meta d)) cs else list_ex (text_satisfies (ed_meta d)) cs))" if "indexed d" for d
  proof -
    have "es ?inner d = (if logic = ''and'' then list_all (\<lambda>q. es q d) ?flat else list_ex (\<lambda>q. es q d) ?flat)"
      using assms(2,4) by (auto simp: es_laws_def bool_laws_def)
    moreover have "es ?q d = (ed_kb d \<in> set kb_ids \<and> es ?inner d)"
      using assms(2) by (simp add: es_laws_def bool_laws_def)
    moreover note list_all_map_eq [OF ts(3) [rule_format, OF that]]
    ultimately show ?thesis by simp
  qed
  ultimately show ?thesis by blast
qed

lemma texts_supported: "list_all text_condition cs \<Longrightarrow> es_is_pushdown_supported (map text_filter cs) = Inr True"
proof (induction cs)
  case (Cons c cs)
  obtain k op v where c: "c = (k, op, v)" by (cases c)
  have "k \<noteq> []" "op \<in> {''contains'', ''start with'', ''end with''}" using Cons.prems by (auto simp: text_condition_def c)
  moreover then have "op \<in> set supported_operators" "op \<notin> set multivalue_unsafe_negative_ops"
    by (auto simp: supported_operators_def multivalue_unsafe_negative_ops_def sign_ne_def)
  ultimately show ?case using Cons
    by (simp add: text_filter_def c as_dict_def get_or_def operator_of_def usable_key_def is_text_key_def)
qed simp

lemma response_read:
  assumes "list_all (\<lambda>d. ed_id d \<noteq> []) hits"
  shows "es_extract_doc_ids (response_of hits limit) = Inr (map ed_id (take (nat limit) hits))
    \<and> es_response_total (response_of hits limit) = Some (int (length hits))"
proof -
  have "list_all (\<lambda>d. ed_id d \<noteq> []) hs \<Longrightarrow> map_res hit_id (map hit_of hs) = Inr (map (\<lambda>d. [ed_id d]) hs)" for hs
    by (induction hs) (simp_all add: hit_id_def hit_of_def get_or_def py_str_def)
  moreover have "list_all (\<lambda>d. ed_id d \<noteq> []) (take (nat limit) hits)"
    using assms by (auto simp: list_all_iff dest: in_set_takeD)
  moreover have "concat (map (\<lambda>d. [ed_id d]) hs) = map ed_id hs" for hs by (induction hs) simp_all
  ultimately show ?thesis
    by (cases "take (nat limit) hits = []")
      (auto simp: es_extract_doc_ids_def es_response_total_def response_of_def get_or_def py_iter_def py_or_def)
qed

text \<open>What both ways are to find.\<close>

definition selected :: "string list \<Rightarrow> (string \<times> string \<times> string) list \<Rightarrow> string \<Rightarrow> es_doc \<Rightarrow> bool" where
  "selected kb_ids cs logic d = (ed_kb d \<in> set kb_ids \<and>
     (if logic = ''and'' then list_all (text_satisfies (ed_meta d)) cs else list_ex (text_satisfies (ed_meta d)) cs))"

lemma meta_filter_sets:
  assumes "map_res (condition_ids metas) fs = Inr idss" and "fs \<noteq> []"
  shows "\<exists>r. meta_filter metas (PList fs) logic = Inr r
    \<and> set r = (if logic = PStr ''and'' then \<Inter>ids\<in>set idss. set ids else \<Union>ids\<in>set idss. set ids)"
proof -
  obtain f gs where fs: "fs = f # gs" using assms(2) by (cases fs) auto
  with assms(1) obtain ids rest where f: "condition_ids metas f = Inr ids"
    and rest: "map_res (condition_ids metas) gs = Inr rest" and idss: "idss = ids # rest"
    by (cases "condition_ids metas f"; cases "map_res (condition_ids metas) gs") auto
  from combine_conditions_some [OF rest distinct_remdups, of "logic = PStr ''and''" ids]
  show ?thesis by (auto simp: meta_filter_def py_iter_def fs f idss)
qed

lemma filtered_in_memory:
  assumes "list_all text_condition cs" and "cs \<noteq> []" and "list_all indexed docs" and "distinct (map ed_id docs)"
  shows "\<exists>r. meta_filter (flatted_meta (rows_of kb_ids docs)) (PList (map text_filter cs)) (PStr logic) = Inr r
    \<and> set r = ed_id ` {d \<in> set docs. selected kb_ids cs logic d}"
proof -
  let ?in = "{d \<in> set docs. ed_kb d \<in> set kb_ids}"
  let ?sat = "\<lambda>c. {d \<in> ?in. text_satisfies (ed_meta d) c}"
  have inj: "inj_on ed_id ?in" using assms(4) by (auto simp: distinct_map intro: inj_on_subset)
  have "\<exists>idss. map_res (condition_ids (flatted_meta (rows_of kb_ids docs))) (map text_filter cs) = Inr idss
      \<and> map set idss = map (\<lambda>c. ed_id ` ?sat c) cs" using assms(1)
  proof (induction cs)
    case (Cons c cs)
    have "text_condition c" using Cons.prems by simp
    from condition_in_memory [OF this assms(3), of kb_ids] obtain ids
      where "condition_ids (flatted_meta (rows_of kb_ids docs)) (text_filter c) = Inr ids" "set ids = ed_id ` ?sat c"
      by (auto simp: conj_assoc)
    moreover obtain idss where "map_res (condition_ids (flatted_meta (rows_of kb_ids docs))) (map text_filter cs) = Inr idss"
        "map set idss = map (\<lambda>c. ed_id ` ?sat c) cs" using Cons by auto
    ultimately show ?case by simp
  qed simp
  then obtain idss where idss: "map_res (condition_ids (flatted_meta (rows_of kb_ids docs))) (map text_filter cs) = Inr idss"
    and sets: "set ` set idss = (\<lambda>c. ed_id ` ?sat c) ` set cs" by (metis image_set)
  obtain c where c: "c \<in> set cs" using assms(2) by (cases cs) auto
  have "\<forall>c\<in>set cs. ?sat c \<subseteq> ?in" by blast
  from image_INT [OF inj this c] have "(\<Inter>ids\<in>set idss. set ids) = ed_id ` (\<Inter>c\<in>set cs. ?sat c)"
    unfolding sets by (simp only: image_image)
  moreover have "(\<Inter>c\<in>set cs. ?sat c) = {d \<in> ?in. list_all (text_satisfies (ed_meta d)) cs}"
    using c by (auto simp: list_all_iff)
  moreover have "(\<Union>ids\<in>set idss. set ids) = ed_id ` {d \<in> ?in. list_ex (text_satisfies (ed_meta d)) cs}"
    unfolding sets by (auto simp: list_ex_iff)
  moreover have "map text_filter cs \<noteq> []" using assms(2) by simp
  ultimately show ?thesis using meta_filter_sets [OF idss, of "PStr logic"]
    by (auto simp: selected_def)
qed

lemma set_unique_ids: "set (unique_ids ids) = set ids" "distinct (unique_ids ids)" "distinct ids \<Longrightarrow> unique_ids ids = ids"
  by (simp_all add: unique_ids_def distinct_remdups_id)

lemma engine_answer:
  assumes "pe_es env = Some search" and "answers search es docs" and "list_all (\<lambda>d. ed_id d \<noteq> []) docs"
    and "es_is_pushdown_supported fs = Inr True" and "build_meta_filter_query fs logic kb_ids = Inr (PDict [(''query'', q)])"
  shows "\<exists>hits. set hits = {d \<in> set docs. es q d} \<and> distinct hits
    \<and> filter_doc_ids_by_metadata_es env index_name kb_ids fs logic limit
      = Inr (if int (length hits) \<le> limit then Some (unique_ids (map ed_id hits)) else None)"
proof -
  obtain hits where h: "set hits = {d \<in> set docs. es q d}" "distinct hits"
      "search index_name (request_body (PDict [(''query'', q)]) limit) = Inr (response_of hits limit)"
    using assms(2) unfolding answers_def by blast
  then have "list_all (\<lambda>d. ed_id d \<noteq> []) hits" using assms(3) by (auto simp: list_all_iff)
  then show ?thesis using assms h response_read [of hits limit]
    by (intro exI [of _ hits]) (simp add: filter_doc_ids_by_metadata_es_def)
qed


text \<open>Two documents of one knowledge base in a search engine.\<close>

definition demo_docs :: "es_doc list" where
  "demo_docs = [\<lparr>ed_id = ''d1'', ed_kb = ''k'', ed_meta = [(''tags'', PList [PStr ''Red Wine'', PStr ''50% *off*''])]\<rparr>,
     \<lparr>ed_id = ''d2'', ed_kb = ''k'', ed_meta = [(''tags'', PStr ''50% coffee'')]\<rparr>]"

definition demo_push :: push_env where
  "demo_push = \<lparr>pe_tenant = (\<lambda>kb. Inr (Some ''t'')), pe_index_exist = (\<lambda>i. True), pe_infinity = False,
     pe_es = Some (\<lambda>index_name body. case body of
         PDict b \<Rightarrow> Inr (response_of (filter (es_eval (get_none b ''query'')) demo_docs) (case get_none b ''size'' of PInt n \<Rightarrow> n | _ \<Rightarrow> 10))
       | _ \<Rightarrow> Inr []),
     pe_sql = (\<lambda>i c. Inr [])\<rparr>"


section \<open>Where the two ways part\<close>

lemma singleton_list: "set xs = {x} \<Longrightarrow> distinct xs \<Longrightarrow> xs = [x]"
  by (cases xs; cases "tl xs") auto

lemma laws_of:
  assumes "es_laws es"
  shows "es (PDict [(''bool'', PDict [(''filter'', PList qs)])]) d = list_all (\<lambda>q. es q d) qs"
    and "es (PDict [(''bool'', PDict [(''must'', PList qs)])]) d = list_all (\<lambda>q. es q d) qs"
    and "es (PDict [(''bool'', PDict [(''must_not'', PList qs)])]) d = list_all (\<lambda>q. \<not> es q d) qs"
    and "es (PDict [(''bool'', PDict [(''must'', PList qs), (''must_not'', PList ns)])]) d
        = (list_all (\<lambda>q. es q d) qs \<and> list_all (\<lambda>q. \<not> es q d) ns)"
    and "es (any_of qs) d = list_ex (\<lambda>q. es q d) qs"
    and "es (PDict [(''terms'', PDict [(''kb_id'', PList (map PStr kbs))])]) d = (ed_kb d \<in> set kbs)"
  using assms unfolding es_laws_def bool_laws_def by blast+

lemma field_laws_of:
  assumes "es_laws es" and "CHR ''.'' \<notin> set k" and "indexed d"
  shows "es (exists_clause (field_name k)) d = (texts_at (ed_meta d) k \<noteq> [])"
    and "es (blank_clause (field_name k)) d = ([] \<in> set (texts_at (ed_meta d) k))"
    and "es (folded ''term'' (field_name k) s) d = list_ex (\<lambda>t. lower t = lower s) (texts_at (ed_meta d) k)"
    and "es (folded ''wildcard'' (field_name k) s) d = list_ex (\<lambda>t. glob (lower s) (lower t)) (texts_at (ed_meta d) k)"
  using assms unfolding es_laws_def field_laws_def by blast+

lemma one_document:
  assumes "pe_es env = Some search" and "answers search es [d]" and "ed_id d \<noteq> []" and "limit \<ge> 1"
    and "es_is_pushdown_supported fs = Inr True" and "build_meta_filter_query fs logic kb_ids = Inr (PDict [(''query'', q)])"
  shows "filter_doc_ids_by_metadata_es env index_name kb_ids fs logic limit = Inr (Some (if es q d then [ed_id d] else []))"
proof -
  obtain hits where h: "set hits = {x \<in> set [d]. es q x}" "distinct hits"
      "filter_doc_ids_by_metadata_es env index_name kb_ids fs logic limit
        = Inr (if int (length hits) \<le> limit then Some (unique_ids (map ed_id hits)) else None)"
    using engine_answer [OF assms(1,2) _ assms(5,6), of index_name limit] assms(3) by auto
  show ?thesis
  proof (cases "es q d")
    case True
    then have "set hits = {d}" using h(1) by auto
    then have "hits = [d]" using h(2) by (rule singleton_list)
    then show ?thesis using h(3) assms(4) True by (simp add: unique_ids_def)
  next
    case False
    then have "set hits = {}" using h(1) by auto
    then have "hits = []" by simp
    then show ?thesis using h(3) assms(4) False by (simp add: unique_ids_def)
  qed
qed

definition tagged :: "pyval \<Rightarrow> es_doc" where
  "tagged v = \<lparr>ed_id = ''d1'', ed_kb = ''k'', ed_meta = [(''tags'', v)]\<rparr>"

text \<open>A condition can select one document in memory and none in the search engine, or the other way round,
  although both accept it: "not contains" on a document with several values, "empty" on a key the document
  does not have, and "in" with a text, which memory searches for the value and the engine splits into members.\<close>

theorem pushdown_differs:
  assumes "pe_es env = Some search" and "es_laws es" and "limit \<ge> 1" and "answers search es [tagged v]"
  shows "(v = PList [PStr ''red'', PStr ''blue''] \<longrightarrow>
      filter_doc_ids_by_metadata_es env index_name [''k''] [text_filter (''tags'', ''not contains'', ''red'')] ''and'' limit = Inr (Some [])
      \<and> meta_filter (flatted_meta (rows_of [''k''] [tagged v])) (PList [text_filter (''tags'', ''not contains'', ''red'')]) (PStr ''and'') = Inr [''d1''])
    \<and> (v = PStr ''red'' \<longrightarrow>
      filter_doc_ids_by_metadata_es env index_name [''k''] [text_filter (''year'', ''empty'', [])] ''and'' limit = Inr (Some [''d1''])
      \<and> meta_filter (flatted_meta (rows_of [''k''] [tagged v])) (PList [text_filter (''year'', ''empty'', [])]) (PStr ''and'') = Inr []
      \<and> filter_doc_ids_by_metadata_es env index_name [''k''] [text_filter (''tags'', ''in'', ''redwood'')] ''and'' limit = Inr (Some [])
      \<and> meta_filter (flatted_meta (rows_of [''k''] [tagged v])) (PList [text_filter (''tags'', ''in'', ''redwood'')]) (PStr ''and'') = Inr [''d1''])"
proof -
  let ?kb = "PDict [(''terms'', PDict [(''kb_id'', PList (map PStr [''k'']))])]"
  let ?q = "\<lambda>c. PDict [(''bool'', PDict [(''filter'', PList [?kb, PDict [(''bool'', PDict [(''must'', PList [c])])]])])]"
  let ?not = "PDict [(''bool'', PDict [(''must'', PList [exists_clause (field_name ''tags'')]),
      (''must_not'', PList [folded ''wildcard'' (field_name ''tags'') ''*red*''])])]"
  let ?empty = "any_of [PDict [(''bool'', PDict [(''must_not'', PList [exists_clause (field_name ''year'')])])], blank_clause (field_name ''year'')]"
  let ?in = "any_of [folded ''term'' (field_name ''tags'') ''redwood'']"
  have q: "build_meta_filter_query [text_filter (''tags'', ''not contains'', ''red'')] ''and'' [''k''] = Inr (PDict [(''query'', ?q ?not)])"
      "build_meta_filter_query [text_filter (''year'', ''empty'', [])] ''and'' [''k''] = Inr (PDict [(''query'', ?q ?empty)])"
      "build_meta_filter_query [text_filter (''tags'', ''in'', ''redwood'')] ''and'' [''k''] = Inr (PDict [(''query'', ?q ?in)])"
    by code_simp+
  have ok: "es_is_pushdown_supported [text_filter (''tags'', ''not contains'', ''red'')] = Inr True"
      "es_is_pushdown_supported [text_filter (''year'', ''empty'', [])] = Inr True"
      "es_is_pushdown_supported [text_filter (''tags'', ''in'', ''redwood'')] = Inr True"
    by code_simp+
  have mem: "meta_filter (flatted_meta (rows_of [''k''] [tagged (PList [PStr ''red'', PStr ''blue''])])) (PList [text_filter (''tags'', ''not contains'', ''red'')]) (PStr ''and'') = Inr [''d1'']"
      "meta_filter (flatted_meta (rows_of [''k''] [tagged (PStr ''red'')])) (PList [text_filter (''year'', ''empty'', [])]) (PStr ''and'') = Inr []"
      "meta_filter (flatted_meta (rows_of [''k''] [tagged (PStr ''red'')])) (PList [text_filter (''tags'', ''in'', ''redwood'')]) (PStr ''and'') = Inr [''d1'']"
    by code_simp+
  have es_q: "es (?q c) (tagged v) = es c (tagged v)" for c
    unfolding laws_of [OF assms(2)] list.pred_inject by (simp add: tagged_def)
  have ex: "list_ex P [] = False" "list_ex P (x # xs) = (P x \<or> list_ex P xs)" for P :: "pyval \<Rightarrow> bool" and x xs by simp_all
  have dot: "CHR ''.'' \<notin> set ''tags''" "CHR ''.'' \<notin> set ''year''" by simp_all
  have ix: "indexed (tagged (PList [PStr ''red'', PStr ''blue'']))" "indexed (tagged (PStr ''red''))" by code_simp+
  have texts: "texts_at (ed_meta (tagged (PList [PStr ''red'', PStr ''blue'']))) ''tags'' = [''red'', ''blue'']"
      "texts_at (ed_meta (tagged (PStr ''red''))) ''tags'' = [''red'']" "texts_at (ed_meta (tagged (PStr ''red''))) ''year'' = []"
      "glob (lower ''*red*'') (lower ''red'')" "lower ''red'' \<noteq> lower ''redwood''"
    by code_simp+
  have "es ?not (tagged v) = False" if v: "v = PList [PStr ''red'', PStr ''blue'']"
    unfolding v laws_of [OF assms(2)] list.pred_inject field_laws_of [OF assms(2) dot(1) ix(1)] texts
    using texts(4) by simp
  moreover have "es ?empty (tagged v)" "es ?in (tagged v) = False" if v: "v = PStr ''red''"
    unfolding v laws_of [OF assms(2)] list.pred_inject ex field_laws_of [OF assms(2) dot(1) ix(2)]
      field_laws_of [OF assms(2) dot(2) ix(2)] texts
    using texts(5) by simp_all
  moreover note one = one_document [OF assms(1,4) _ assms(3), of _ "''and''" "[''k'']" _ index_name]
  note one [OF _ ok(1) q(1)] one [OF _ ok(2) q(2)] one [OF _ ok(3) q(3)]
  ultimately show ?thesis using mem es_q by (simp add: tagged_def)
qed

theorem pushdown_differs_witness:
  "filter_doc_ids_by_metadata_es \<lparr>pe_tenant = (\<lambda>kb. Inr (Some ''t'')), pe_index_exist = (\<lambda>i. True), pe_infinity = False,
     pe_es = Some (\<lambda>index_name body. case body of
         PDict b \<Rightarrow> Inr (response_of (filter (es_eval (get_none b ''query'')) [tagged (PStr ''red'')]) (case get_none b ''size'' of PInt n \<Rightarrow> n | _ \<Rightarrow> 10))
       | _ \<Rightarrow> Inr []), pe_sql = (\<lambda>i c. Inr [])\<rparr> ''i'' [''k''] [text_filter (''year'', ''empty'', [])] ''and'' 5 = Inr (Some [''d1''])"
  by (rule pushdown_differs [OF _ es_eval_laws _ es_eval_answers, where limit = 5 and v = "PStr ''red''", THEN conjunct2, THEN mp, THEN conjunct1]) simp_all

end
