(* ===== verification/SqlLiterals.thy ===== *)
theory SqlLiterals
  imports MetaPushdown
begin

text \<open>
  The SQL condition the service gives to Infinity, read the way SQL reads it: what stands outside the
  literals is fixed by the program, whatever the values of a filter are, and a text is read back from its
  literal as it was. A text is in single quotes, and a quote inside it is doubled.
\<close>

section \<open>Reading SQL\<close>

datatype sql_mode = Code | Literal | Ended

fun next_mode :: "sql_mode \<Rightarrow> char \<Rightarrow> sql_mode" where
  "next_mode Literal c = (if c = CHR 0x27 then Ended else Literal)"
| "next_mode m c = (if c = CHR 0x27 then Literal else Code)"

fun mode_after :: "sql_mode \<Rightarrow> string \<Rightarrow> sql_mode" where
  "mode_after m [] = m"
| "mode_after m (c # s) = mode_after (next_mode m c) s"

text \<open>The text outside the literals, with the quote that opens each of them, and the literals.\<close>

fun code_of :: "sql_mode \<Rightarrow> string \<Rightarrow> string" where
  "code_of m [] = []"
| "code_of m (c # s) = (if m = Literal \<or> m = Ended \<and> c = CHR 0x27 then [] else [c]) @ code_of (next_mode m c) s"

fun literals_of :: "sql_mode \<Rightarrow> string \<Rightarrow> string \<Rightarrow> string list" where
  "literals_of m t [] = (if m = Code then [] else [t])"
| "literals_of Code t (c # s) = literals_of (next_mode Code c) [] s"
| "literals_of Literal t (c # s) = literals_of (next_mode Literal c) (if c = CHR 0x27 then t else t @ [c]) s"
| "literals_of Ended t (c # s) =
     (if c = CHR 0x27 then literals_of Literal (t @ [c]) s else t # literals_of Code [] s)"

lemma mode_after_append: "mode_after m (s @ t) = mode_after (mode_after m s) t"
  by (induction m s rule: mode_after.induct) simp_all

lemma code_of_append: "code_of m (s @ t) = code_of m s @ code_of (mode_after m s) t"
  by (induction m s rule: mode_after.induct) simp_all

text \<open>The inside of a literal.\<close>

definition inside :: "string \<Rightarrow> bool" where
  "inside s = (mode_after Literal s = Literal \<and> code_of Literal s = [])"

lemma inside_append: "inside s \<Longrightarrow> inside t \<Longrightarrow> inside (s @ t)"
  by (simp add: inside_def mode_after_append code_of_append)

lemma inside_plain: "CHR 0x27 \<notin> set s \<Longrightarrow> inside s"
  by (induction s) (auto simp: inside_def)

lemma escape_sql_chars: "escape_sql_string t = concat (map (\<lambda>c. if c = CHR 0x27 then quote @ quote else [c]) t)"
  unfolding escape_sql_string_def quote_def by (rule replace_char)

lemma inside_escaped: "inside (escape_sql_string t)"
  unfolding escape_sql_chars by (induction t) (auto simp: inside_def quote_def)

section \<open>Fragments of a condition\<close>

definition code_chars :: string where
  "code_chars = upper_letters @ lower_letters @ digit_chars @ ''_ ()=!<>.,-'' @ quote"

definition closed_sql :: "string \<Rightarrow> bool" where
  "closed_sql s = (s \<noteq> [] \<and> hd s \<noteq> CHR 0x27 \<and> mode_after Code s \<noteq> Literal \<and> set (code_of Code s) \<subseteq> set code_chars)"

definition plain_sql :: "string \<Rightarrow> bool" where
  "plain_sql s = (s \<noteq> [] \<and> CHR 0x27 \<notin> set s \<and> set s \<subseteq> set code_chars)"

lemma ended_as_code: "s \<noteq> [] \<Longrightarrow> hd s \<noteq> CHR 0x27 \<Longrightarrow> m \<noteq> Literal \<Longrightarrow> mode_after m s = mode_after Code s \<and> code_of m s = code_of Code s"
  by (cases m; cases s) auto

lemma closed_append: "closed_sql s \<Longrightarrow> closed_sql t \<Longrightarrow> closed_sql (s @ t)"
  using ended_as_code [of t "mode_after Code s"] by (simp add: closed_sql_def mode_after_append code_of_append)

lemma plain_code: "CHR 0x27 \<notin> set s \<Longrightarrow> mode_after Code s = Code \<and> code_of Code s = s"
  by (induction s) auto

lemma closed_plain: "plain_sql s \<Longrightarrow> closed_sql s"
  using plain_code [of s] by (cases s) (auto simp: plain_sql_def closed_sql_def)

lemma closed_literal:
  assumes "plain_sql p" and "inside t"
  shows "closed_sql (p @ quote @ t @ quote)"
proof -
  have "mode_after Code (p @ quote @ t @ quote) = Ended" "code_of Code (p @ quote @ t @ quote) = p @ quote"
    using assms plain_code [of p] by (simp_all add: mode_after_append code_of_append inside_def quote_def plain_sql_def)
  then show ?thesis using assms(1) by (cases p) (auto simp: closed_sql_def plain_sql_def code_chars_def quote_def)
qed

lemma closed_join: "closed_sql sep \<Longrightarrow> xs \<noteq> [] \<Longrightarrow> list_all closed_sql xs \<Longrightarrow> closed_sql (join_str sep xs)"
  by (induction sep xs rule: join_str.induct) (auto intro!: closed_append)

lemma digit_plain: "list_all is_digit_char s \<Longrightarrow> CHR 0x27 \<notin> set s \<and> set s \<subseteq> set code_chars"
proof -
  have "CHR 0x27 \<notin> set digit_chars" by code_simp
  then show "list_all is_digit_char s \<Longrightarrow> ?thesis" by (auto simp: list_all_iff is_digit_char_def code_chars_def)
qed

lemma plain_append: "plain_sql s \<Longrightarrow> plain_sql t \<Longrightarrow> plain_sql (s @ t)"
  by (auto simp: plain_sql_def)

lemma plain_zeros: "plain_sql s \<Longrightarrow> plain_sql (replicate n (CHR ''0'') @ s)"
proof -
  have "plain_sql ''0''" by code_simp
  then show "plain_sql s \<Longrightarrow> ?thesis" by (induction n) (simp_all add: plain_sql_def)
qed

lemma number_plain:
  assumes "py_num v \<noteq> None"
  shows "plain_sql (py_str v)"
proof -
  have nat: "plain_sql (nat_str n)" for n
    using nat_str_read(2) digit_plain [OF nat_str_read(3)] by (simp add: plain_sql_def)
  have signs: "plain_sql ''-''" "plain_sql ''.''" "plain_sql ''True''" "plain_sql ''False''" by code_simp+
  have "plain_sql (int_str i)" for i
    using nat plain_append [OF signs(1) nat] by (simp add: int_str_def)
  moreover have "plain_sql (nat_str m @ ''.'' @ pad_left k (nat_str n))" for m k n
    unfolding pad_left_def by (intro plain_append nat signs plain_zeros)
  then have "plain_sql (float_str r)" for r
    unfolding float_str_def Let_def using plain_append [OF signs(1)] by (cases "r < 0") (simp_all only: if_True if_False append_Nil)
  ultimately show ?thesis using assms signs(3,4) by (cases v) (auto simp: py_str_def)
qed

lemma number_or_text_kind: "number_or_text v = c \<Longrightarrow> py_num c \<noteq> None \<or> (\<exists>s. c = PStr s)"
  by (auto simp: number_or_text_def split: option.splits if_splits)

definition sql_value :: "pyval \<Rightarrow> bool" where
  "sql_value c = (py_num c \<noteq> None \<or> is_str c)"

lemma coerced_values:
  "inf_coerce_scalar flt v = Inr c \<Longrightarrow> sql_value c"
  "inf_coerce_range_value flt v = Inr c \<Longrightarrow> sql_value c"
  using number_or_text_kind [of v c]
  by (auto simp: inf_coerce_scalar_def inf_coerce_range_value_def sql_value_def bad_filter_def split: if_splits)

text \<open>Every key the program accepts is free of quotes.\<close>

lemma no_quote_in_key:
  assumes "identifier_like key"
  shows "CHR 0x27 \<notin> set (''$.'' @ key)"
proof -
  have "list_all (\<lambda>c. c \<noteq> CHR 0x27) (upper_letters @ lower_letters @ digit_chars @ ''_'')" by code_simp
  then have "CHR 0x27 \<notin> set (upper_letters @ lower_letters @ digit_chars @ ''_'')" unfolding list_all_iff by blast
  moreover have "set key \<subseteq> set (upper_letters @ lower_letters @ digit_chars @ ''_'') \<union> {CHR 0x0A}"
  proof (cases "key \<noteq> [] \<and> last key = CHR 0x0A")
    case True
    then have "set key = insert (CHR 0x0A) (set (butlast key))" by (metis append_butlast_last_id set_append list.set(1,2) Un_insert_right sup_bot_right)
    moreover have "list_all (\<lambda>c. c \<in> set (upper_letters @ lower_letters @ digit_chars @ ''_'')) (butlast key)"
      using assms True by (simp only: identifier_like_def Let_def if_True simp_thms)
    ultimately show ?thesis unfolding list_all_iff by blast
  next
    case False
    then have "list_all (\<lambda>c. c \<in> set (upper_letters @ lower_letters @ digit_chars @ ''_'')) key"
      using assms by (simp only: identifier_like_def Let_def if_False simp_thms)
    then show ?thesis unfolding list_all_iff by blast
  qed
  ultimately show ?thesis by auto
qed

lemma key_without_quote: "identifier_like key \<Longrightarrow> inside (''$.'' @ key)"
  by (rule inside_plain [OF no_quote_in_key])

lemma plain_parts:
  "plain_sql ''JSON_EXTRACT_STRING(meta_fields, ''" "plain_sql ''JSON_EXTRACT_DOUBLE(meta_fields, ''"
  "plain_sql ''JSON_CONTAINS(meta_fields, ''" "plain_sql '')''" "plain_sql '', ''" "plain_sql ''('' " "plain_sql ''NOT ''"
  "plain_sql '' = ''" "plain_sql '' != ''" "plain_sql '' LIKE ''" "plain_sql '' AND ''" "plain_sql '' OR ''" "plain_sql '' ''"
  by code_simp+

lemma closed_extract: "identifier_like key \<Longrightarrow> closed_sql (extract_string key)"
  using closed_append [OF closed_literal [OF plain_parts(1) key_without_quote] closed_plain [OF plain_parts(4)]]
  by (simp add: extract_string_def json_path_def)

lemma inside_quoted: "inside t \<Longrightarrow> inside (dquote @ t @ dquote)"
  using inside_append [OF inside_plain [of dquote] inside_append [OF _ inside_plain [of dquote]]] by (simp add: dquote_def)

lemma closed_contains:
  assumes "identifier_like key" and "sql_value c"
  shows "closed_sql (contains_value key c)"
proof -
  have head: "closed_sql (''JSON_CONTAINS(meta_fields, '' @ json_path key)"
    using closed_literal [OF plain_parts(3) key_without_quote [OF assms(1)]] by (simp add: json_path_def)
  have "closed_sql (contains_text key t)" for t
    using closed_append [OF closed_append [OF head closed_literal [OF plain_parts(5) inside_quoted [OF inside_escaped]]]
        closed_plain [OF plain_parts(4)], of t]
    by (simp add: contains_text_def)
  moreover have "closed_sql (contains_number key c)" if "py_num c \<noteq> None"
    using closed_append [OF closed_append [OF closed_append [OF head closed_plain [OF plain_parts(5)]]
          closed_plain [OF number_plain [OF that]]] closed_plain [OF plain_parts(4)]]
    by (simp add: contains_number_def)
  ultimately show ?thesis using assms(2) by (cases c) (auto simp: contains_value_def sql_value_def)
qed

lemma closed_not: "closed_sql s \<Longrightarrow> closed_sql (''NOT '' @ s)"
  by (rule closed_append [OF closed_plain [OF plain_parts(7)]])

lemma closed_grouped:
  assumes "list_all sql_value cs" and "cs \<noteq> []" and "closed_sql sep" and "\<And>c. sql_value c \<Longrightarrow> closed_sql (render c)"
  shows "grouped sep render cs \<noteq> [] \<and> list_all closed_sql (grouped sep render cs)"
proof -
  have part: "closed_sql (''('' @ join_str sep (map render xs) @ '')'')" if "xs \<noteq> []" "set xs \<subseteq> set cs" for xs
  proof -
    have "list_all closed_sql (map render xs)" using that assms(1,4) by (auto simp: list_all_iff)
    then have "closed_sql (join_str sep (map render xs))" using that(1) assms(3) by (intro closed_join) simp_all
    then show ?thesis by (rule closed_append [OF closed_plain [OF plain_parts(6)] closed_append [OF _ closed_plain [OF plain_parts(4)]]])
  qed
  have "filter is_str cs \<noteq> [] \<or> filter (\<lambda>v. \<not> is_str v) cs \<noteq> []"
    using assms(2) by (cases cs) auto
  then show ?thesis using part [of "filter is_str cs"] part [of "filter (\<lambda>v. \<not> is_str v) cs"]
    by (auto simp: grouped_def Let_def)
qed

lemma map_res_list_all: "map_res f xs = Inr ys \<Longrightarrow> (\<And>x y. f x = Inr y \<Longrightarrow> P y) \<Longrightarrow> list_all P ys"
  by (induction xs arbitrary: ys) (auto simp: try_then_Inr_iff)

lemma members_found: "inf_csv_or_list flt v = Inr ms \<Longrightarrow> ms \<noteq> []"
  by (auto simp: inf_csv_or_list_def bad_filter_def Let_def split: if_splits)

lemma closed_like: "identifier_like key \<Longrightarrow> inside t \<Longrightarrow> closed_sql (extract_string key @ '' LIKE '' @ quote @ t @ quote)"
  by (intro closed_append closed_extract closed_literal plain_parts)

lemma closed_compared:
  assumes "identifier_like key" and "plain_sql ('' '' @ o' @ '' '')" and "sql_value c"
  shows "closed_sql (case c of
      PStr s \<Rightarrow> extract_string key @ '' '' @ o' @ '' '' @ quote @ escape_sql_string s @ quote
    | _ \<Rightarrow> ''JSON_EXTRACT_DOUBLE(meta_fields, '' @ json_path key @ '') '' @ o' @ '' '' @ py_str c)"
proof (cases "is_str c")
  case True
  then show ?thesis
    using closed_append [OF closed_extract [OF assms(1)] closed_literal [OF assms(2) inside_escaped]] by (cases c) simp_all
next
  case False
  then have "py_num c \<noteq> None" using assms(3) by (simp add: sql_value_def)
  then have "closed_sql ((''JSON_EXTRACT_DOUBLE(meta_fields, '' @ quote @ (''$.'' @ key) @ quote) @ '')'' @ ('' '' @ o' @ '' '') @ py_str c)"
    by (intro closed_append closed_literal closed_plain plain_parts assms(2) number_plain key_without_quote assms(1))
  then show ?thesis using False by (cases c) (simp_all add: json_path_def)
qed

lemma sql_operators:
  assumes "map_of sql_range_ops op = Some r"
  shows "plain_sql ('' '' @ r @ '' '')"
proof -
  have "list_all (\<lambda>(a, r). plain_sql ('' '' @ r @ '' '')) sql_range_ops" by code_simp
  moreover have "(op, r) \<in> set sql_range_ops" using assms by (rule map_of_SomeD)
  ultimately show ?thesis unfolding list_all_iff by blast
qed

lemma inside_like: "inside (escape_sql_string t @ ''%'')" "inside (''%'' @ escape_sql_string t)"
  by (intro inside_append inside_escaped inside_plain; simp)+

lemma closed_blank: "identifier_like key \<Longrightarrow> plain_sql e \<Longrightarrow> closed_sql (extract_string key @ e @ quote @ (dquote @ [] @ dquote) @ quote)"
  by (intro closed_append closed_extract closed_literal inside_quoted) (simp_all add: inside_def)

lemma closed_translated:
  assumes "inf_translate_op flt op key v = Inr s" and "identifier_like key"
  shows "closed_sql s"
proof -
  note T = assms(1) [unfolded inf_translate_op_def]
  note key = assms(2)
  note signs = sign_ne_def sign_ge_def sign_le_def sql_range_ops_def
  have blank: "quote @ dquote @ dquote @ quote = quote @ (dquote @ [] @ dquote) @ quote" by simp
  consider "op = ''empty''" | "op = ''not empty''" | "op = ''=''" | "op = sign_ne" | "op \<in> {''>'', ''<'', sign_ge, sign_le}" | "op = ''in''"
    | "op = ''not in''" | "op = ''contains''" | "op = ''not contains''" | "op = ''start with''" | "op = ''end with''"
    using T by (simp only: if_False sql_range_ops_def split: if_splits) (auto split: if_splits)
  then show ?thesis
  proof cases
    case 1
    then have "s = extract_string key @ '' = '' @ quote @ (dquote @ [] @ dquote) @ quote" using T by simp
    then show ?thesis using closed_blank [OF key plain_parts(8)] by (simp only:)
  next
    case 2
    then have "s = extract_string key @ '' != '' @ quote @ (dquote @ [] @ dquote) @ quote" using T by simp
    then show ?thesis using closed_blank [OF key plain_parts(9)] by (simp only:)
  next
    case 3
    then show ?thesis using T closed_contains [OF key coerced_values(1)] by (auto simp: try_then_Inr_iff)
  next
    case 4
    then show ?thesis using T closed_not [OF closed_contains [OF key coerced_values(1)]] by (auto simp: try_then_Inr_iff signs)
  next
    case 5
    then obtain r where r: "map_of sql_range_ops op = Some r" by (auto simp: signs)
    have "op \<notin> {''empty'', ''not empty'', ''='', sign_ne}" using 5 by (auto simp: signs)
    then show ?thesis using T r closed_compared [OF key sql_operators [OF r] coerced_values(2)] by (auto simp: try_then_Inr_iff Let_def)
  next
    case 6
    then obtain ms cs where "inf_csv_or_list flt v = Inr ms" and cs: "map_res (inf_coerce_range_value flt) ms = Inr cs"
        and s: "s = ''('' @ join_str '' OR '' (grouped '' OR '' (contains_value key) cs) @ '')''"
      using T by (auto simp: try_then_Inr_iff signs)
    then have "cs \<noteq> []" using members_found map_res_length by fastforce
    with closed_grouped [OF map_res_list_all [OF cs coerced_values(2)] _ closed_plain [OF plain_parts(12)] closed_contains [OF key]]
    show ?thesis unfolding s by (intro closed_append closed_join closed_plain plain_parts) auto
  next
    case 7
    then obtain ms cs where "inf_csv_or_list flt v = Inr ms" and cs: "map_res (inf_coerce_range_value flt) ms = Inr cs"
        and s: "s = join_str '' AND '' (grouped '' AND '' (\<lambda>c. ''NOT '' @ contains_value key c) cs)"
      using T by (auto simp: try_then_Inr_iff signs)
    then have "cs \<noteq> []" using members_found map_res_length by fastforce
    with closed_grouped [OF map_res_list_all [OF cs coerced_values(2)] _ closed_plain [OF plain_parts(11)] closed_not [OF closed_contains [OF key]]]
    show ?thesis unfolding s by (intro closed_join closed_plain plain_parts) auto
  next
    case 8
    then obtain c where c: "inf_coerce_range_value flt v = Inr c"
        and s: "s = (case c of PStr s \<Rightarrow> contains_text key (py_str v) | _ \<Rightarrow> contains_number key c)"
      using T by (auto simp: try_then_Inr_iff signs bad_filter_def split: if_splits)
    show ?thesis using closed_contains [OF key coerced_values(2) [OF c]] closed_contains [OF key, of "PStr (py_str v)"]
      unfolding s by (cases c) (simp_all add: contains_value_def sql_value_def)
  next
    case 9
    then show ?thesis using T closed_not [OF closed_contains [OF key, of "PStr t" for t]]
      by (auto simp: try_then_Inr_iff signs contains_value_def sql_value_def)
  next
    case 10
    then obtain t where "s = extract_string key @ '' LIKE '' @ quote @ (escape_sql_string (escape_like_wildcards t) @ ''%'') @ quote"
      using T by (auto simp: try_then_Inr_iff signs)
    then show ?thesis using closed_like [OF key inside_like(1)] by (simp only:)
  next
    case 11
    then obtain t where "s = extract_string key @ '' LIKE '' @ quote @ (''%'' @ escape_sql_string (escape_like_wildcards t)) @ quote"
      using T by (auto simp: try_then_Inr_iff signs)
    then show ?thesis using closed_like [OF key inside_like(2)] by (simp only:)
  qed
qed

section \<open>The whole condition\<close>

lemma closed_translation:
  assumes "inf_translate flt = Inr s"
  shows "closed_sql s"
proof -
  obtain f where f: "as_dict ''get'' flt = Inr f" using assms by (auto simp: inf_translate_def try_then_Inr_iff)
  note T = assms [unfolded inf_translate_def f try_then.simps Let_def]
  obtain key where k: "get_none f ''key'' = PStr key" using T by (cases "get_none f ''key''") (simp_all add: bad_filter_def)
  have key: "identifier_like key" using T k by (auto simp: bad_filter_def split: if_splits)
  then obtain op where "inf_translate_op f op key (get_none f ''value'') = Inr s"
    using T k by (auto simp: bad_filter_def try_then_Inr_iff split: if_splits option.splits)
  then show ?thesis by (rule closed_translated [OF _ key])
qed

lemma closed_filter:
  assumes "build_infinity_filter filters logic = Inr sql"
  shows "closed_sql sql"
proof (cases "filters = []")
  case True
  have "closed_sql ''1=1''" by code_simp
  then show ?thesis using assms True by (simp add: build_infinity_filter_def)
next
  case False
  then obtain fs where fs: "map_res inf_translate filters = Inr fs"
      and sql: "sql = ''('' @ join_str (if logic = ''and'' then '' AND '' else '' OR '') fs @ '')''"
    using assms by (auto simp: build_infinity_filter_def inf_plan_pushdown_def try_then_Inr_iff split: if_splits)
  have "fs \<noteq> []" using False map_res_length [OF fs] by auto
  moreover have "list_all closed_sql fs" using fs closed_translation by (rule map_res_list_all)
  ultimately have "closed_sql (join_str '' AND '' fs)" "closed_sql (join_str '' OR '' fs)"
    using closed_join [OF closed_plain [OF plain_parts(11)]] closed_join [OF closed_plain [OF plain_parts(12)]] by blast+
  then have "closed_sql (join_str (if logic = ''and'' then '' AND '' else '' OR '') fs)" by simp
  then show ?thesis unfolding sql
    by (rule closed_append [OF closed_plain [OF plain_parts(6)] closed_append [OF _ closed_plain [OF plain_parts(4)]]])
qed

lemma closed_kbs: "closed_sql (kb_condition kb_ids)"
proof -
  have parts: "plain_sql ''kb_id IN (''" "CHR 0x27 \<notin> set '', ''" by code_simp+
  have one: "mode_after Code (quote @ escape_sql_string k @ quote @ r) = mode_after Ended r
      \<and> code_of Code (quote @ escape_sql_string k @ quote @ r) = quote @ code_of Ended r" for k r
    using inside_escaped [of k] by (simp add: quote_def inside_def mode_after_append code_of_append)
  have sep: "mode_after Ended ('', '' @ r) = mode_after Code r" "code_of Ended ('', '' @ r) = '', '' @ code_of Code r" for r
    by simp_all
  have chars: "set '', '' \<subseteq> set code_chars" "set quote \<subseteq> set code_chars" "set '')'' \<subseteq> set code_chars" by code_simp+
  have "mode_after Code (join_str '', '' (map (\<lambda>k. quote @ escape_sql_string k @ quote) kb_ids) @ '')'') = Code
      \<and> set (code_of Code (join_str '', '' (map (\<lambda>k. quote @ escape_sql_string k @ quote) kb_ids) @ '')'')) \<subseteq> set code_chars"
  proof (induction kb_ids)
    case Nil
    then show ?case using chars(3) by simp
  next
    case (Cons k kb_ids)
    show ?case
    proof (cases "kb_ids = []")
      case True
      then show ?thesis using one [of k "'')''"] chars(2,3) by simp
    next
      case False
      then show ?thesis using Cons one [of k "'', '' @ join_str '', '' (map (\<lambda>k. quote @ escape_sql_string k @ quote) kb_ids) @ '')''"]
          sep chars(1,2) by (simp only: join_Cons list.map map_is_Nil_conv append_assoc simp_thms) auto
    qed
  qed
  then show ?thesis using parts(1) plain_code [of "''kb_id IN (''"]
    by (simp add: closed_sql_def kb_condition_def mode_after_append code_of_append plain_sql_def)
qed



section \<open>A text read back\<close>

lemma escape_sql_append: "escape_sql_string (s @ t) = escape_sql_string s @ escape_sql_string t"
  by (simp add: escape_sql_chars)

lemma escape_sql_plain: "CHR 0x27 \<notin> set s \<Longrightarrow> escape_sql_string s = s"
  unfolding escape_sql_chars by (induction s) auto

lemma read_literal:
  assumes "r = [] \<or> hd r \<noteq> CHR 0x27"
  shows "literals_of Literal t (escape_sql_string b @ quote @ r) = (t @ b) # literals_of Code [] r"
proof (induction b arbitrary: t)
  case Nil
  then show ?case using assms by (cases r) (auto simp: escape_sql_chars quote_def)
next
  case (Cons c b)
  have "escape_sql_string (c # b) = (if c = CHR 0x27 then quote @ quote else [c]) @ escape_sql_string b" by (simp add: escape_sql_chars)
  then show ?case using Cons [of "t @ [c]"] by (cases "c = CHR 0x27") (simp_all add: quote_def)
qed

lemma read_code: "CHR 0x27 \<notin> set p \<Longrightarrow> literals_of Code [] (p @ r) = literals_of Code [] r"
  by (induction p) auto

lemma two_literals:
  assumes "CHR 0x27 \<notin> set p" and "CHR 0x27 \<notin> set m" and "m \<noteq> []" and "CHR 0x27 \<notin> set e"
  shows "literals_of Code [] (p @ quote @ escape_sql_string a @ quote @ m @ quote @ escape_sql_string b @ quote @ e) = [a, b]
    \<and> code_of Code (p @ quote @ escape_sql_string a @ quote @ m @ quote @ escape_sql_string b @ quote @ e) = p @ quote @ m @ quote @ e"
proof -
  have open_literal: "literals_of Code [] (quote @ r) = literals_of Literal [] r" for r by (simp add: quote_def)
  have last: "literals_of Literal [] (escape_sql_string b @ quote @ e) = [b]"
    using read_literal [of e "[]" b] assms(4) read_code [of e "[]"] by (cases e) auto
  have "hd (m @ quote @ escape_sql_string b @ quote @ e) \<noteq> CHR 0x27" using assms(2,3) by (cases m) auto
  then have "literals_of Code [] (p @ quote @ escape_sql_string a @ quote @ m @ quote @ escape_sql_string b @ quote @ e) = [a, b]"
    using read_code [OF assms(1)] read_code [OF assms(2)] read_literal open_literal last by simp
  moreover have "code_of Ended e = e" "mode_after Ended m = Code \<and> code_of Ended m = m"
    using plain_code [OF assms(4)] plain_code [OF assms(2)] ended_as_code [of e Ended] ended_as_code [of m Ended] assms(2-4)
    by (cases e; cases m; auto)+
  ultimately show ?thesis using plain_code [OF assms(1)] inside_escaped [of a] inside_escaped [of b]
    by (simp add: mode_after_append code_of_append inside_def quote_def)
qed

text \<open>What an operator makes of a text, and what it puts around the literals of the key and of the text.\<close>

definition sql_text :: "string \<Rightarrow> string \<Rightarrow> string" where
  "sql_text op v =
     (if op = ''start with'' then escape_like_wildcards v @ ''%''
      else if op = ''end with'' then ''%'' @ escape_like_wildcards v
      else if has_key sql_range_ops op then v
      else dquote @ v @ dquote)"

definition sql_frame :: "string \<Rightarrow> string \<times> string \<times> string" where
  "sql_frame op =
     (if op \<in> {''start with'', ''end with''} then (''JSON_EXTRACT_STRING(meta_fields, '', '') LIKE '', [])
      else case map_of sql_range_ops op of Some r \<Rightarrow> (''JSON_EXTRACT_STRING(meta_fields, '', '') '' @ r @ '' '', [])
      | None \<Rightarrow> ((if op \<in> {sign_ne, ''not contains''} then ''NOT '' else []) @ ''JSON_CONTAINS(meta_fields, '', '', '', '')''))"

definition text_operators :: "string list" where
  "text_operators = [''='', sign_ne, ''>'', ''<'', sign_ge, sign_le, ''contains'', ''not contains'', ''start with'', ''end with'']"

lemma framed_text:
  assumes "op \<in> set text_operators" and "v \<noteq> []" and "number_or_text (PStr v) = PStr v"
  shows "\<exists>p m e. sql_frame op = (p, m, e) \<and> inf_translate_op flt op key (PStr v)
    = Inr (p @ quote @ (''$.'' @ key) @ quote @ m @ quote @ escape_sql_string (sql_text op v) @ quote @ e)"
proof -
  note signs = sign_ne_def sign_ge_def sign_le_def sql_range_ops_def
  have coerced: "inf_coerce_scalar flt (PStr v) = Inr (PStr v)" "inf_coerce_range_value flt (PStr v) = Inr (PStr v)"
      "inf_coerce_string flt (PStr v) = Inr v"
    using assms(2,3) by (simp_all add: inf_coerce_scalar_def inf_coerce_range_value_def inf_coerce_string_def)
  have wrapped: "escape_sql_string (dquote @ v @ dquote) = dquote @ escape_sql_string v @ dquote"
      "escape_sql_string (t @ ''%'') = escape_sql_string t @ ''%''" "escape_sql_string (CHR ''%'' # t) = CHR ''%'' # escape_sql_string t" for t
    by (simp_all add: escape_sql_chars dquote_def)
  show ?thesis using assms(1) unfolding text_operators_def set_simps
    by (elim insertE emptyE)
      (simp_all add: inf_translate_op_def sql_frame_def sql_text_def coerced wrapped signs contains_value_def contains_text_def
        extract_string_def json_path_def assms(2))
qed

text \<open>A text compared by an operator is read back from its literal exactly as the operator wraps it, next to the
  literal of the key, and the code around the two literals depends on the operator alone.\<close>

theorem text_read_back_from_sql:
  assumes "identifier_like key" and "op \<in> set text_operators" and "v \<noteq> []" and "number_or_text (PStr v) = PStr v"
  shows "\<exists>s p m e. inf_translate_op flt op key (PStr v) = Inr s \<and> literals_of Code [] s = [''$.'' @ key, sql_text op v]
    \<and> sql_frame op = (p, m, e) \<and> code_of Code s = p @ quote @ m @ quote @ e"
proof -
  obtain p m e where f: "sql_frame op = (p, m, e)" and s: "inf_translate_op flt op key (PStr v)
      = Inr (p @ quote @ (''$.'' @ key) @ quote @ m @ quote @ escape_sql_string (sql_text op v) @ quote @ e)"
    using framed_text [OF assms(2-4)] by blast
  have "list_all (\<lambda>op. case sql_frame op of (p, m, e) \<Rightarrow> CHR 0x27 \<notin> set (p @ m @ e) \<and> m \<noteq> []) text_operators" by code_simp
  then have "CHR 0x27 \<notin> set p" "CHR 0x27 \<notin> set m" "m \<noteq> []" "CHR 0x27 \<notin> set e"
    using assms(2) f unfolding list_all_iff by fastforce+
  note two = two_literals [OF this, of "''$.'' @ key" "sql_text op v"]
  have "escape_sql_string (''$.'' @ key) = ''$.'' @ key"
    by (intro escape_sql_plain no_quote_in_key assms(1))
  then show ?thesis using f s two by auto
qed

theorem text_read_back_from_sql_witness:
  "literals_of Code [] (''JSON_CONTAINS(meta_fields, '' @ json_path ''name'' @ '', '' @ quote @ dquote @ ''O'' @ quote @ quote @ ''Neill'' @ dquote @ quote @ '')'')
    = [''$.name'', dquote @ ''O'' @ quote @ ''Neill'' @ dquote]"
proof -
  have "identifier_like ''name''" "''='' \<in> set text_operators" "number_or_text (PStr (''O'' @ quote @ ''Neill'')) = PStr (''O'' @ quote @ ''Neill'')"
    by code_simp+
  from text_read_back_from_sql [OF this(1,2) _ this(3), of "[]"]
  have "\<exists>s. inf_translate_op [] ''='' ''name'' (PStr (''O'' @ quote @ ''Neill'')) = Inr s
      \<and> literals_of Code [] s = [''$.name'', sql_text ''='' (''O'' @ quote @ ''Neill'')]" by auto
  moreover have "inf_translate_op [] ''='' ''name'' (PStr (''O'' @ quote @ ''Neill''))
      = Inr (''JSON_CONTAINS(meta_fields, '' @ json_path ''name'' @ '', '' @ quote @ dquote @ ''O'' @ quote @ quote @ ''Neill'' @ dquote @ quote @ '')'')"
      "sql_text ''='' (''O'' @ quote @ ''Neill'') = dquote @ ''O'' @ quote @ ''Neill'' @ dquote"
    by code_simp+
  ultimately show ?thesis by simp
qed

end
