(* ===== verification/PdfPositions.thy ===== *)
theory PdfPositions
  imports PyRegex "HOL-Library.Product_Lexorder"
begin

text \<open>
  Positions of text on the pages of a PDF, after \<^verbatim>\<open>rag/flow/parser/pdf_chunk_metadata.py\<close>, with the
  position tags of \<^verbatim>\<open>deepdoc/parser/pdf_parser.py\<close>.

  An item is a dict. The canonical form of a position is a page number with four coordinates; it is a
  HOL tuple here and the list the code makes of it where it is stored in an item. The previews
  (images and their storage) are not modelled.
\<close>

type_synonym position = "int \<times> rat \<times> rat \<times> rat \<times> rat"

definition pdf_positions_key :: string where
  "pdf_positions_key = ''_pdf_positions''"

definition position_value :: "position \<Rightarrow> pyval" where
  "position_value p = (case p of (n, l, r, t, b) \<Rightarrow> PList [PInt n, PFloat l, PFloat r, PFloat t, PFloat b])"

section \<open>Characters\<close>

text \<open>The characters of a UTF-8 text, each with its bytes; \<open>len\<close> counts them and a slice counts by them.\<close>

definition continuation_byte :: "char \<Rightarrow> bool" where
  "continuation_byte c = (128 \<le> (of_char c :: nat) \<and> (of_char c :: nat) < 192)"

fun chars_of :: "string \<Rightarrow> string list" where
  "chars_of [] = []"
| "chars_of (c # cs) = (case chars_of cs of
     [] \<Rightarrow> [[c]]
   | x # xs \<Rightarrow> if x \<noteq> [] \<and> continuation_byte (hd x) then (c # x) # xs else [c] # x # xs)"

definition char_count :: "string \<Rightarrow> nat" where
  "char_count s = length (chars_of s)"

lemma concat_chars_of [simp]: "concat (chars_of s) = s"
  by (induction s) (auto split: list.splits)

section \<open>Position tags\<close>

definition tag_rx :: rx where
  "tag_rx = RSeq (RStr ''@@'') (RSeq (RPlus (RSet (digit_chars @ ''-''))) (RSeq (RSet [CHR 0x09])
     (RSeq (RPlus (RSet (digit_chars @ [CHR ''.'', CHR 0x09]))) (RStr ''##''))))"

text \<open>\<open>re.findall\<close> without a group.\<close>

definition rx_findall :: "rx \<Rightarrow> string \<Rightarrow> string list" where
  "rx_findall a s = map (\<lambda>(p, m, c). m) (fst (rx_pieces a s))"

definition parse_tag :: "string \<Rightarrow> (int list \<times> rat \<times> rat \<times> rat \<times> rat) res" where
  "parse_tag tag = (case split_str [CHR 0x09] (strip_chars ''@'' (strip_chars ''#'' tag)) of
     [pn, l, r, t, b] \<Rightarrow>
       try_then (map_res (\<lambda>x. py_float (PStr x)) [l, r, t, b]) (\<lambda>xs.
       try_then (map_res (\<lambda>p. py_int (PStr p)) (split_str ''-'' pn)) (\<lambda>ps.
         Inr (map (\<lambda>p. p - 1) ps, xs ! 0, xs ! 1, xs ! 2, xs ! 3)))
   | _ \<Rightarrow> raise ValueError ''values to unpack'')"

definition extract_positions :: "string \<Rightarrow> (int list \<times> rat \<times> rat \<times> rat \<times> rat) list res" where
  "extract_positions txt = map_res parse_tag (rx_findall tag_rx txt)"

text \<open>The class in the middle has no \<open>#\<close>, so the lazy repetition of the code and a greedy one match the same.\<close>

definition remove_tag :: "string \<Rightarrow> string" where
  "remove_tag txt = rx_sub (RSeq (RStr ''@@'') (RSeq (RPlus (RSet (CHR 0x09 # digit_chars @ ''.-''))) (RStr ''##'')))
     (\<lambda>m c. []) txt"

section \<open>The positions of an item\<close>

definition tag_position :: "int list \<times> rat \<times> rat \<times> rat \<times> rat \<Rightarrow> pyval" where
  "tag_position p = (case p of (ns, l, r, t, b) \<Rightarrow> PList [PInt (last ns), PFloat l, PFloat r, PFloat t, PFloat b])"

definition five_long :: "pyval \<Rightarrow> bool" where
  "five_long v = (case v of PList xs \<Rightarrow> 5 \<le> length xs | _ \<Rightarrow> False)"

definition extract_raw_positions :: "pdict \<Rightarrow> pyval list res" where
  "extract_raw_positions item =
     (case get_none item pdf_positions_key of PList ps \<Rightarrow> Inr ps | _ \<Rightarrow>
     (case get_none item ''positions'' of PList ps \<Rightarrow> Inr ps | _ \<Rightarrow>
     (let tag = get_none item ''position_tag'' in
      if is_str tag \<and> truthy tag then try_then (extract_positions (py_str tag)) (\<lambda>ps. Inr (map tag_position ps))
      else (case get_none item ''position_int'' of PList ps \<Rightarrow> Inr (filter five_long ps) | _ \<Rightarrow>
        if get_none item ''page_number'' \<noteq> PNone
           \<and> list_all (\<lambda>k. get_none item k \<noteq> PNone) [''x0'', ''x1'', ''top'', ''bottom'']
        then Inr [PList [get_none item ''page_number'', get_none item ''x0'', get_none item ''x1'',
                         get_none item ''top'', get_none item ''bottom'']]
        else Inr []))))"

definition ref_page :: "pdict \<Rightarrow> int option" where
  "ref_page item = map_option (\<lambda>r. let n = trunc_rat r in if n \<le> 0 then n + 1 else n) (py_num (get_none item ''page_number''))"

text \<open>The page of a raw position: the last of a list of pages, or the value itself.\<close>

definition raw_page :: "pyval \<Rightarrow> pyval res" where
  "raw_page v = (case v of PList ps \<Rightarrow> py_index ps (- 1) | _ \<Rightarrow> Inr v)"

definition adjust_page :: "int option \<Rightarrow> int \<Rightarrow> int" where
  "adjust_page ref n = (case ref of
     Some r \<Rightarrow> if n = r - 1 then r else if n \<le> 0 then n + 1 else n
   | None \<Rightarrow> if n \<le> 0 then n + 1 else n)"

text \<open>The body of the loop: None for the positions it skips.\<close>

definition normal_position :: "int option \<Rightarrow> pyval \<Rightarrow> position option res" where
  "normal_position ref pos = (if \<not> five_long pos then Inr None else (case pos of PList xs \<Rightarrow>
     try_then (raw_page (xs ! 0)) (\<lambda>page.
       case try_then (py_int page) (\<lambda>n. try_then (map_res py_float (take 4 (tl xs))) (\<lambda>ys. Inr (n, ys))) of
         Inl e \<Rightarrow> if exc_class e \<in> {TypeError, ValueError} then Inr None else Inl e
       | Inr (n, ys) \<Rightarrow> Inr (Some (adjust_page ref n, ys ! 0, ys ! 1, ys ! 2, ys ! 3)))
   | _ \<Rightarrow> Inr None))"

definition extract_pdf_positions :: "pyval \<Rightarrow> position list res" where
  "extract_pdf_positions item = (case item of
     PDict d \<Rightarrow> try_then (extract_raw_positions d) (\<lambda>positions.
       try_then (map_res (normal_position (ref_page d)) positions) (\<lambda>ps.
         Inr (map the (filter (\<lambda>p. p \<noteq> None) ps))))
   | _ \<Rightarrow> Inr [])"

definition with_positions :: "position list \<Rightarrow> pdict \<Rightarrow> pdict" where
  "with_positions ps d = dset pdf_positions_key (PList (map position_value ps)) d"

definition normalize_pdf_item_metadata :: "pyval \<Rightarrow> pyval res" where
  "normalize_pdf_item_metadata item = (case item of
     PDict d \<Rightarrow> try_then (extract_pdf_positions item) (\<lambda>ps.
       Inr (PDict (if ps \<noteq> [] then with_positions ps d else dpop pdf_positions_key d)))
   | _ \<Rightarrow> Inr item)"

definition normalize_pdf_items_metadata :: "pyval \<Rightarrow> pyval res" where
  "normalize_pdf_items_metadata items = (case items of
     PList xs \<Rightarrow> try_then (map_res normalize_pdf_item_metadata xs) (\<lambda>ys. Inr (PList ys))
   | _ \<Rightarrow> Inr items)"

section \<open>Merging and storing\<close>

definition page_order :: "position \<Rightarrow> int \<times> rat \<times> rat" where
  "page_order p = (case p of (n, l, r, t, b) \<Rightarrow> (n, t, l))"

text \<open>The first of equal entries, in order.\<close>

fun firsts_from :: "'a list \<Rightarrow> 'a list \<Rightarrow> 'a list" where
  "firsts_from seen [] = []"
| "firsts_from seen (x # xs) = (if x \<in> set seen then firsts_from seen xs else x # firsts_from (x # seen) xs)"

definition merge_pdf_positions :: "pdict list \<Rightarrow> position list res" where
  "merge_pdf_positions sources = try_then (map_res (\<lambda>d. extract_pdf_positions (PDict d)) sources) (\<lambda>pss.
     Inr (sort_key page_order (firsts_from [] (concat pss))))"

definition int_position :: "position \<Rightarrow> int \<times> int \<times> int \<times> int \<times> int" where
  "int_position p = (case p of (n, l, r, t, b) \<Rightarrow> (n, trunc_rat l, trunc_rat r, trunc_rat t, trunc_rat b))"

definition build_pdf_position_fields :: "position list \<Rightarrow> pdict" where
  "build_pdf_position_fields positions =
     (let ps = map int_position positions
      in [(''position_int'', PList (map (\<lambda>(n, l, r, t, b). PList [PInt n, PInt l, PInt r, PInt t, PInt b]) ps)),
          (''page_num_int'', PList (map (\<lambda>(n, l, r, t, b). PInt n) ps)),
          (''top_int'', PList (map (\<lambda>(n, l, r, t, b). PInt t) ps))])"

definition finalize_pdf_chunk :: "pyval \<Rightarrow> pyval res" where
  "finalize_pdf_chunk chunk = (case chunk of
     PDict d \<Rightarrow> try_then (extract_pdf_positions chunk) (\<lambda>ps.
       Inr (PDict (dpop pdf_positions_key (if ps \<noteq> [] then dupdate d (build_pdf_position_fields ps) else d))))
   | _ \<Rightarrow> Inr chunk)"

end
