(* ===== verification/TitleChunker.thy ===== *)
theory TitleChunker
  imports PdfPositions
begin

text \<open>
  Chunking a document by its titles, after \<^verbatim>\<open>rag/flow/chunker/title_chunker/\<close> and the two tests of
  \<^verbatim>\<open>rag/nlp/__init__.py\<close> it uses.

  The upstream payload becomes a list of line records; a level is found for each of them (from the
  outline of the PDF, or from the family of patterns that hits most lines); a strategy groups the
  records; and the groups become chunks. The tree of the hierarchical strategy is built with the code's
  stack, whose nodes are kept apart until they are popped: closing a node appends it to the children of
  the one below, where the code appended it when it was pushed.

  The token counter (\<open>tiktoken\<close>), the outlines read from the PDF and the previews are parameters. A
  pattern of the settings is given as its parsed form; the empty pattern is \<open>REps\<close>. The text of an item
  is a string or missing.
\<close>

section \<open>Line records\<close>

record line_record =
  lr_text :: string
  lr_type :: string
  lr_img :: pyval
  lr_layout :: string
  lr_positions :: "position list"

record upstream =
  up_format :: string
  up_markdown :: "string option"
  up_text :: "string option"
  up_html :: "string option"
  up_chunks :: pyval
  up_json :: pyval
  up_file :: pyval

record title_param =
  tp_method :: string
  tp_levels :: "rx list list"
  tp_hierarchy :: pyval
  tp_include_heading_content :: bool
  tp_root_chunk_as_heading :: bool

definition body_level :: int where
  "body_level = 2 ^ 63 - 2"

definition text_line :: "string \<Rightarrow> line_record" where
  "text_line line = \<lparr>lr_text = line, lr_type = ''text'', lr_img = PNone, lr_layout = [], lr_positions = []\<rparr>"

definition text_payload :: "upstream \<Rightarrow> string option" where
  "text_payload u =
     (if up_format u = ''markdown'' then Some (case up_markdown u of None \<Rightarrow> [] | Some s \<Rightarrow> s)
      else if up_format u = ''text'' then Some (case up_text u of None \<Rightarrow> [] | Some s \<Rightarrow> s)
      else if up_format u = ''html'' then Some (case up_html u of None \<Rightarrow> [] | Some s \<Rightarrow> s)
      else None)"

definition item_text :: "pyval \<Rightarrow> string res" where
  "item_text v = (if truthy v then as_str ''strip'' v else Inr [])"

definition item_record :: "pyval \<Rightarrow> line_record res" where
  "item_record item = try_then (as_dict ''get'' item) (\<lambda>d.
     try_then (item_text (get_none d ''text'')) (\<lambda>t.
     try_then (extract_pdf_positions item) (\<lambda>ps.
       Inr \<lparr>lr_text = t, lr_type = py_str (py_or (get_none d ''doc_type_kwd'') (PStr ''text'')),
            lr_img = get_none d ''img_id'',
            lr_layout = strip (py_str (get_or d ''layout_type'' (PStr [])) @ '' '' @ py_str (get_or d ''layoutno'' (PStr []))),
            lr_positions = ps\<rparr>)))"

definition extract_line_records :: "upstream \<Rightarrow> line_record list res" where
  "extract_line_records u = (case text_payload u of
     Some payload \<Rightarrow>
       let lines = split_str [CHR 0x0A] payload;
           clean = (if up_format u = ''text'' then map strip (filter (\<lambda>l. strip l \<noteq> []) lines)
                    else filter (\<lambda>l. strip l \<noteq> []) lines)
       in Inr (map text_line clean)
   | None \<Rightarrow>
       let items = (if up_format u = ''chunks'' then up_chunks u else up_json u)
       in try_then (py_iter (py_or items (PList []))) (map_res item_record))"

section \<open>Levels\<close>

definition wide_minus :: string where
  "wide_minus = ''~-''"

text \<open>The characters of a class that are not ASCII are alternatives of their bytes.\<close>

fun RAny :: "rx list \<Rightarrow> rx" where
  "RAny [] = RSet []"
| "RAny [a] = a"
| "RAny (a # b # cs) = RAlt a (RAny (b # cs))"

definition not_bullet_rxs :: "rx list" where
  "not_bullet_rxs = [RStr ''0'',
     RSeq (RPlus (RSet digit_chars)) (RSeq (RPlus (RSet '' '')) (RAny [RSet (digit_chars @ wide_minus),
       RStr [CHR 0xE4, CHR 0xB8, CHR 0xAA], RStr [CHR 0xE5, CHR 0x8F, CHR 0xAA]])),
     RSeq (RPlus (RSet digit_chars)) (RSeq (RSet ''.'') (RPlus (RSet ''.'')))]"

definition not_bullet :: "string \<Rightarrow> bool" where
  "not_bullet line = list_ex (\<lambda>r. rx_match r line \<noteq> None) not_bullet_rxs"

definition chinese_numeral :: rx where
  "chinese_numeral = RAny (RSet digit_chars # map RStr
     [[CHR 0xE9, CHR 0x9B, CHR 0xB6], [CHR 0xE4, CHR 0xB8, CHR 0x80], [CHR 0xE4, CHR 0xBA, CHR 0x8C],
      [CHR 0xE4, CHR 0xB8, CHR 0x89], [CHR 0xE5, CHR 0x9B, CHR 0x9B], [CHR 0xE4, CHR 0xBA, CHR 0x94],
      [CHR 0xE5, CHR 0x85, CHR 0xAD], [CHR 0xE4, CHR 0xB8, CHR 0x83], [CHR 0xE5, CHR 0x85, CHR 0xAB],
      [CHR 0xE4, CHR 0xB9, CHR 0x9D], [CHR 0xE5, CHR 0x8D, CHR 0x81], [CHR 0xE7, CHR 0x99, CHR 0xBE]])"

definition article_rx :: rx where
  "article_rx = RSeq (RStr [CHR 0xE7, CHR 0xAC, CHR 0xAC]) (RSeq (RPlus chinese_numeral) (RStr [CHR 0xE6, CHR 0x9D, CHR 0xA1]))"

definition sentence_mark_rx :: rx where
  "sentence_mark_rx = RAny [RSet '',;!'', RStr [CHR 0xEF, CHR 0xBC, CHR 0x8C], RStr [CHR 0xE3, CHR 0x80, CHR 0x82],
     RStr [CHR 0xEF, CHR 0xBC, CHR 0x9B], RStr [CHR 0xEF, CHR 0xBC, CHR 0x81]]"

text \<open>\<open>s.split()\<close>.\<close>

fun words_from :: "string \<Rightarrow> string \<Rightarrow> string list" where
  "words_from w [] = (if w = [] then [] else [rev w])"
| "words_from w (c # cs) =
     (if c \<in> set ascii_space then (if w = [] then words_from [] cs else rev w # words_from [] cs)
      else words_from (c # w) cs)"

definition not_title :: "string \<Rightarrow> bool" where
  "not_title txt =
     (if rx_match article_rx txt \<noteq> None then False
      else if 12 < length (words_from [] txt) \<or> (\<not> str_in '' '' txt \<and> 32 \<le> char_count txt) then True
      else rx_search sentence_mark_rx txt \<noteq> None)"

definition pattern_hits :: "rx list \<Rightarrow> string \<Rightarrow> bool" where
  "pattern_hits family sec = list_ex (\<lambda>p. rx_match p sec \<noteq> None \<and> \<not> not_bullet sec) family"

fun match_level_from :: "int \<Rightarrow> string \<Rightarrow> rx list \<Rightarrow> int option" where
  "match_level_from n s [] = None"
| "match_level_from n s (p # ps) = (if rx_match p s \<noteq> None \<and> \<not> not_bullet s then Some n else match_level_from (n + 1) s ps)"

definition match_regex_level :: "string \<Rightarrow> rx list \<Rightarrow> int option" where
  "match_regex_level text family = match_level_from 1 (strip text) family"

definition group_hits :: "string list \<Rightarrow> rx list \<Rightarrow> nat" where
  "group_hits lines family = length (filter (\<lambda>sec. strip sec \<noteq> [] \<and> pattern_hits family (strip sec)) lines)"

text \<open>The first family with the most hits.\<close>

fun best_group :: "string list \<Rightarrow> rx list list \<Rightarrow> nat \<Rightarrow> rx list option \<Rightarrow> rx list option" where
  "best_group lines [] most best = best"
| "best_group lines (g # gs) most best =
     (if group_hits lines g \<le> most then best_group lines gs most best
      else best_group lines gs (group_hits lines g) (Some g))"

definition select_level_group :: "string list \<Rightarrow> rx list list \<Rightarrow> rx list" where
  "select_level_group lines raw_levels = (case best_group lines raw_levels 0 None of
     None \<Rightarrow> [] | Some g \<Rightarrow> filter (\<lambda>p. p \<noteq> REps) g)"

definition title_layout_rx :: rx where
  "title_layout_rx = RAny [RStrI True ''section'', RStrI True ''title'', RStrI True ''head'']"

definition match_layout_level :: "string \<Rightarrow> string \<Rightarrow> int \<Rightarrow> int" where
  "match_layout_level text layout fallback_level =
     (if rx_search title_layout_rx layout \<noteq> None \<and> \<not> not_title (strip (hd (split_str ''@'' text)))
      then fallback_level else body_level)"

text \<open>The pairs of neighbouring characters among the first \<open>n\<close> places.\<close>

definition char_pairs :: "nat \<Rightarrow> string \<Rightarrow> string list" where
  "char_pairs n s = (let cs = chars_of s in remdups (map (\<lambda>i. cs ! i @ cs ! Suc i) [0..<n]))"

definition left_pairs :: "string \<Rightarrow> string list" where
  "left_pairs l = char_pairs (char_count l - 1) l"

definition right_pairs :: "string \<Rightarrow> string \<Rightarrow> string list" where
  "right_pairs l r = char_pairs (min (char_count l) (char_count r - 1)) r"

definition outline_similarity :: "string \<Rightarrow> string \<Rightarrow> rat" where
  "outline_similarity l r =
     of_nat (length (filter (\<lambda>p. p \<in> set (right_pairs l r)) (left_pairs l)))
       / of_nat (max (max (length (left_pairs l)) (length (right_pairs l r))) 1)"

record resolved =
  rs_levels :: "int list"
  rs_most :: "int option"
  rs_source :: string

definition outline_level :: "(string \<times> int) list \<Rightarrow> line_record \<Rightarrow> int" where
  "outline_level outlines r =
     (if lr_type r \<noteq> ''text'' then body_level
      else case find (\<lambda>(t, l). 8 / 10 < outline_similarity t (lr_text r)) outlines of
        None \<Rightarrow> body_level | Some (t, l) \<Rightarrow> l + 1)"

definition resolve_outline_levels :: "(string \<times> int) list \<Rightarrow> line_record list \<Rightarrow> resolved option" where
  "resolve_outline_levels outlines rs =
     (if rs = [] \<or> (of_nat (length outlines) / of_nat (length rs) :: rat) \<le> 3 / 100 then None
      else Some \<lparr>rs_levels = map (outline_level outlines) rs,
                 rs_most = Some (let max_level = Max (set (map snd outlines)) + 1 in max 1 (max_level - 1)), rs_source = ''outline''\<rparr>)"

definition frequency_level :: "rx list \<Rightarrow> line_record \<Rightarrow> int" where
  "frequency_level family r =
     (if lr_type r \<noteq> ''text'' then body_level
      else case match_regex_level (lr_text r) family of
        Some l \<Rightarrow> l
      | None \<Rightarrow> match_layout_level (lr_text r) (lr_layout r) (int (length family) + 1))"

text \<open>\<open>Counter(levels).most_common()\<close>: by count, the first seen first.\<close>

definition most_common :: "int list \<Rightarrow> int list" where
  "most_common levels = sort_key (\<lambda>l. length levels - count_list levels l) (firsts_from [] levels)"

definition resolve_frequency_levels :: "rx list list \<Rightarrow> line_record list \<Rightarrow> resolved" where
  "resolve_frequency_levels raw_levels rs =
     (let family = select_level_group (map lr_text rs) raw_levels;
          levels = map (frequency_level family) rs
      in \<lparr>rs_levels = levels, rs_most = find (\<lambda>l. l < body_level) (most_common levels), rs_source = ''frequency''\<rparr>)"

definition resolve_title_levels :: "title_param \<Rightarrow> (string \<times> int) list \<Rightarrow> line_record list \<Rightarrow> resolved" where
  "resolve_title_levels p outlines rs = (case resolve_outline_levels outlines rs of
     Some r \<Rightarrow> r | None \<Rightarrow> resolve_frequency_levels (tp_levels p) rs)"

text \<open>What the outlines are read from.\<close>

definition outline_source :: "upstream \<Rightarrow> pyval" where
  "outline_source u = (case up_file u of
     PDict d \<Rightarrow> py_or (py_or (py_or (get_none d ''blob'') (get_none d ''binary'')) (get_none d ''path'')) (get_none d ''name'')
   | _ \<Rightarrow> PNone)"

definition extract_outlines :: "(pyval \<Rightarrow> (string \<times> int) list) \<Rightarrow> upstream \<Rightarrow> (string \<times> int) list" where
  "extract_outlines outlines_of u = (if truthy (outline_source u) then outlines_of (outline_source u) else [])"

definition title_levels :: "int list \<Rightarrow> int list" where
  "title_levels levels = sort (remdups (filter (\<lambda>l. 0 < l \<and> l < body_level) levels))"

definition resolve_target_level :: "int list \<Rightarrow> pyval \<Rightarrow> int option res" where
  "resolve_target_level levels hierarchy =
     (if title_levels levels = [] then Inr None
      else try_then (py_int hierarchy) (\<lambda>h.
        Inr (Some (title_levels levels ! nat (min (max h 1) (int (length (title_levels levels))) - 1)))))"

section \<open>Grouping by sections\<close>

definition min_group_tokens :: nat where
  "min_group_tokens = 32"

definition max_group_tokens :: nat where
  "max_group_tokens = 1024"

fun section_ids_from :: "int option \<Rightarrow> nat \<Rightarrow> int \<Rightarrow> int list \<Rightarrow> int list" where
  "section_ids_from target i sid [] = []"
| "section_ids_from target i sid (l # ls) =
     (let sid1 = (if (case target of None \<Rightarrow> False | Some t \<Rightarrow> l \<le> t) \<and> 0 < i then sid + 1 else sid)
      in sid1 # section_ids_from target (Suc i) sid1 ls)"

definition build_section_ids :: "int list \<Rightarrow> int option \<Rightarrow> int list" where
  "build_section_ids levels target = section_ids_from target 0 0 levels"

definition resolve_group_target_level :: "int list \<Rightarrow> pyval \<Rightarrow> int option \<Rightarrow> int option res" where
  "resolve_group_target_level levels hierarchy most_level =
     (if \<not> truthy hierarchy then Inr most_level
      else try_then (py_int hierarchy) (\<lambda>h. if 0 < h then resolve_target_level levels hierarchy else Inr most_level))"

record group_state =
  gs_groups :: "line_record list list"
  gs_tokens :: nat
  gs_last :: int

definition should_merge :: "group_state \<Rightarrow> int \<Rightarrow> bool" where
  "should_merge s sec_id = (gs_groups s \<noteq> [] \<and> lr_type (hd (last (gs_groups s))) = ''text''
     \<and> (gs_tokens s < min_group_tokens \<or> gs_tokens s < max_group_tokens \<and> sec_id = gs_last s))"

definition group_step :: "(string \<Rightarrow> nat) \<Rightarrow> line_record \<times> int \<Rightarrow> group_state \<Rightarrow> group_state" where
  "group_step num_tokens rec s = (case rec of (r, sec_id) \<Rightarrow>
     if lr_type r \<noteq> ''text'' then \<lparr>gs_groups = gs_groups s @ [[r]], gs_tokens = 0, gs_last = - 2\<rparr>
     else if strip (lr_text r) = [] then s
     else if should_merge s sec_id then
       \<lparr>gs_groups = butlast (gs_groups s) @ [last (gs_groups s) @ [r]],
        gs_tokens = gs_tokens s + num_tokens (lr_text r), gs_last = sec_id\<rparr>
     else \<lparr>gs_groups = gs_groups s @ [[r]], gs_tokens = num_tokens (lr_text r), gs_last = sec_id\<rparr>)"

definition group_records :: "(string \<Rightarrow> nat) \<Rightarrow> (line_record \<times> int) list \<Rightarrow> line_record list list" where
  "group_records num_tokens recs = gs_groups (fold (group_step num_tokens) recs \<lparr>gs_groups = [], gs_tokens = 0, gs_last = - 2\<rparr>)"

section \<open>Grouping by hierarchy\<close>

datatype chunk_node = ChunkNode (node_level: int) (title_indexes: "nat list") (body_indexes: "nat list")
  (node_children: "chunk_node list")

definition add_child :: "chunk_node \<Rightarrow> chunk_node \<Rightarrow> chunk_node" where
  "add_child p c = ChunkNode (node_level p) (title_indexes p) (body_indexes p) (node_children p @ [c])"

definition add_body_index :: "nat \<Rightarrow> chunk_node \<Rightarrow> chunk_node" where
  "add_body_index i n = ChunkNode (node_level n) (title_indexes n) (body_indexes n @ [i]) (node_children n)"

text \<open>The stack, top first; its last node is the root.\<close>

fun pop_to :: "int \<Rightarrow> chunk_node list \<Rightarrow> chunk_node list" where
  "pop_to l (c # p # st) = (if l \<le> node_level c then pop_to l (add_child p c # st) else c # p # st)"
| "pop_to l st = st"

fun close_all :: "chunk_node list \<Rightarrow> chunk_node list" where
  "close_all (c # p # st) = close_all (add_child p c # st)"
| "close_all st = st"

definition tree_step :: "int \<Rightarrow> int \<times> nat \<Rightarrow> chunk_node list \<Rightarrow> chunk_node list" where
  "tree_step depth line stack = (case line of (l, i) \<Rightarrow>
     if depth < l then (case stack of [] \<Rightarrow> [] | n # st \<Rightarrow> add_body_index i n # st)
     else ChunkNode l [i] [] [] # pop_to l stack)"

definition build_tree :: "chunk_node \<Rightarrow> (int \<times> nat) list \<Rightarrow> int \<Rightarrow> chunk_node" where
  "build_tree tree0 lines depth = hd (close_all (fold (tree_step depth) lines [tree0]))"

text \<open>The titles a node hands to its children, and the paths it adds itself.\<close>

definition path_titles :: "int \<Rightarrow> bool \<Rightarrow> nat list \<Rightarrow> chunk_node \<Rightarrow> nat list" where
  "path_titles depth heading ts n =
     (if 1 \<le> node_level n \<and> node_level n \<le> depth
      then (if heading then ts @ title_indexes n else ts @ title_indexes n @ body_indexes n) else ts)"

definition own_paths :: "int \<Rightarrow> bool \<Rightarrow> nat list \<Rightarrow> chunk_node \<Rightarrow> nat list list" where
  "own_paths depth heading ts n =
     (if node_level n = 0 \<and> body_indexes n \<noteq> [] then [ts @ body_indexes n] else [])
     @ (let inner = (1 \<le> node_level n \<and> node_level n \<le> depth); pt = path_titles depth heading ts n in
        if heading then (if body_indexes n \<noteq> [] \<and> inner then [pt @ body_indexes n]
                         else if node_children n = [] \<and> inner then [pt] else [])
        else if node_children n = [] \<and> inner then [pt] else [])"

fun dfs :: "int \<Rightarrow> bool \<Rightarrow> nat list \<Rightarrow> chunk_node \<Rightarrow> nat list list" where
  "dfs depth heading ts (ChunkNode l t b cs) =
     own_paths depth heading ts (ChunkNode l t b cs)
     @ concat (map (dfs depth heading (path_titles depth heading ts (ChunkNode l t b cs))) cs)"

definition get_paths :: "chunk_node \<Rightarrow> int \<Rightarrow> bool \<Rightarrow> nat list list" where
  "get_paths tree0 depth heading = dfs depth heading [] tree0"

definition flush_text_records :: "title_param \<Rightarrow> line_record list \<Rightarrow> int list \<Rightarrow> line_record list list res" where
  "flush_text_records p records levels =
     (if records = [] then Inr []
      else try_then (resolve_target_level levels (tp_hierarchy p)) (\<lambda>target. case target of
        None \<Rightarrow> Inr [records]
      | Some t \<Rightarrow>
          let tree = build_tree (ChunkNode 0 [] [] []) (zip levels [0..<length records]) t
          in Inr (map (map ((!) records)) (filter (\<lambda>path. path \<noteq> []) (get_paths tree t (tp_include_heading_content p))))))"

fun hierarchy_groups ::
    "title_param \<Rightarrow> line_record list \<Rightarrow> int list \<Rightarrow> (line_record \<times> int) list \<Rightarrow> line_record list list res" where
  "hierarchy_groups p texts levels [] = flush_text_records p texts levels"
| "hierarchy_groups p texts levels ((r, l) # recs) =
     (if lr_type r = ''text'' then hierarchy_groups p (texts @ [r]) (levels @ [l]) recs
      else try_then (flush_text_records p texts levels) (\<lambda>gs.
        try_then (hierarchy_groups p [] [] recs) (\<lambda>rest. Inr (gs @ [[r]] @ rest))))"

section \<open>Chunks\<close>

definition is_markup :: "upstream \<Rightarrow> bool" where
  "is_markup u = (up_format u \<in> {''markdown'', ''text'', ''html''})"

definition group_text :: "line_record list \<Rightarrow> string" where
  "group_text rs = concat (map (\<lambda>r. lr_text r @ [CHR 0x0A]) rs)"

definition record_dict :: "line_record \<Rightarrow> pdict" where
  "record_dict r = [(''text'', PStr (lr_text r)), (''doc_type_kwd'', PStr (lr_type r)), (''img_id'', lr_img r),
     (''layout'', PStr (lr_layout r)), (pdf_positions_key, PList (map position_value (lr_positions r)))]"

definition group_chunk :: "upstream \<Rightarrow> line_record list \<Rightarrow> pdict res" where
  "group_chunk u rs =
     (if is_markup u then Inr [(''text'', PStr (group_text rs))]
      else if lr_type (hd rs) = ''text'' then
        try_then (merge_pdf_positions (map record_dict rs)) (\<lambda>ps.
          Inr [(''text'', PStr (remove_tag (group_text rs))), (''doc_type_kwd'', PStr ''text''),
               (pdf_positions_key, PList (map position_value ps))])
      else let r = hd rs in
        Inr [(''text'', PStr (lr_text r)), (''doc_type_kwd'', PStr (lr_type r)), (''img_id'', lr_img r),
             (pdf_positions_key, PList (map position_value (lr_positions r)))])"

definition chunk_text :: "pdict \<Rightarrow> string" where
  "chunk_text c = py_str (get_or c ''text'' (PStr []))"

definition root_as_heading :: "pdict list \<Rightarrow> pdict list" where
  "root_as_heading chunks = map (\<lambda>c. dset ''text'' (PStr (chunk_text (hd chunks) @ [CHR 0x0A] @ chunk_text c)) c) (tl chunks)"

definition build_chunks_from_record_groups :: "title_param \<Rightarrow> upstream \<Rightarrow> line_record list list \<Rightarrow> pdict list res" where
  "build_chunks_from_record_groups p u groups =
     try_then (map_res (group_chunk u) (filter (\<lambda>rs. rs \<noteq> []) groups)) (\<lambda>chunks.
       Inr (if tp_root_chunk_as_heading p \<and> 1 < length chunks then root_as_heading chunks else chunks))"

definition set_chunks :: "(pdict list \<Rightarrow> pdict list) \<Rightarrow> upstream \<Rightarrow> pdict list \<Rightarrow> pyval list res" where
  "set_chunks previews u chunks =
     (if is_markup u then Inr (map PDict chunks)
      else map_res (\<lambda>c. finalize_pdf_chunk (PDict c)) (previews chunks))"

definition build_group_chunks ::
    "(string \<Rightarrow> nat) \<Rightarrow> title_param \<Rightarrow> upstream \<Rightarrow> line_record list \<Rightarrow> resolved \<Rightarrow> pdict list res" where
  "build_group_chunks num_tokens p u rs res =
     try_then (resolve_group_target_level (rs_levels res) (tp_hierarchy p) (rs_most res)) (\<lambda>target.
       build_chunks_from_record_groups p u (group_records num_tokens (zip rs (build_section_ids (rs_levels res) target))))"

definition build_hierarchy_chunks :: "title_param \<Rightarrow> upstream \<Rightarrow> line_record list \<Rightarrow> resolved \<Rightarrow> pdict list res" where
  "build_hierarchy_chunks p u rs res =
     try_then (hierarchy_groups p [] [] (zip rs (rs_levels res))) (build_chunks_from_record_groups p u)"

record title_env =
  te_num_tokens :: "string \<Rightarrow> nat"
  te_outlines :: "pyval \<Rightarrow> (string \<times> int) list"
  te_previews :: "pdict list \<Rightarrow> pdict list"

text \<open>The outputs of the component.\<close>

definition chunker_invoke :: "title_env \<Rightarrow> title_param \<Rightarrow> bool \<Rightarrow> upstream \<Rightarrow> pdict res" where
  "chunker_invoke env p hierarchical u =
     try_then (extract_line_records u) (\<lambda>rs.
       let res = resolve_title_levels p (extract_outlines (te_outlines env) u) rs
       in try_then (if hierarchical then build_hierarchy_chunks p u rs res
                    else build_group_chunks (te_num_tokens env) p u rs res) (\<lambda>chunks.
          try_then (set_chunks (te_previews env) u chunks) (\<lambda>out.
            Inr [(''output_format'', PStr ''chunks''), (''chunks'', PList out)])))"

definition title_chunker_invoke :: "title_env \<Rightarrow> title_param \<Rightarrow> upstream \<Rightarrow> pdict res" where
  "title_chunker_invoke env p u =
     (if tp_method p = ''hierarchy'' then chunker_invoke env p True u
      else if tp_method p = ''group'' then chunker_invoke env p False u
      else Inr [(''_ERROR'', PStr (''Unsupported TitleChunker method: '' @ tp_method p))])"

section \<open>The tree\<close>

text \<open>The indexes of a node in the order of the document.\<close>

fun preorder :: "chunk_node \<Rightarrow> nat list" where
  "preorder (ChunkNode l t b cs) = t @ b @ concat (map preorder cs)"

definition spine :: "chunk_node list \<Rightarrow> nat list" where
  "spine st = concat (map preorder (rev st))"

lemma preorder_add_child [simp]: "preorder (add_child p c) = preorder p @ preorder c"
  by (cases p) (simp add: add_child_def)

lemma preorder_add_body: "node_children n = [] \<Longrightarrow> preorder (add_body_index i n) = preorder n @ [i]"
  by (cases n) (simp add: add_body_index_def)

lemma spine_pop_to [simp]: "spine (pop_to l st) = spine st"
  by (induction l st rule: pop_to.induct) (simp_all add: spine_def)

lemma pop_to_nonempty [simp]: "pop_to l st = [] \<longleftrightarrow> st = []"
  by (induction l st rule: pop_to.induct) simp_all

lemma close_all_single: "st \<noteq> [] \<Longrightarrow> \<exists>n. close_all st = [n] \<and> preorder n = spine st"
  by (induction st rule: close_all.induct) (simp_all add: spine_def)

lemma fold_tree_step:
  "st \<noteq> [] \<Longrightarrow> node_children (hd st) = [] \<Longrightarrow>
    fold (tree_step depth) lines st \<noteq> [] \<and> spine (fold (tree_step depth) lines st) = spine st @ map snd lines"
proof (induction lines arbitrary: st)
  case Nil
  then show ?case by simp
next
  case (Cons line lines)
  obtain l i where line: "line = (l, i)" by (cases line)
  obtain n rest where st: "st = n # rest" using Cons.prems(1) by (cases st) auto
  show ?case
  proof (cases "depth < l")
    case True
    then have step: "tree_step depth line st = add_body_index i n # rest" by (simp add: tree_step_def line st)
    moreover have "node_children (add_body_index i n) = []" using Cons.prems(2) by (simp add: st add_body_index_def)
    ultimately show ?thesis using Cons.IH [of "add_body_index i n # rest"] Cons.prems(2)
      by (simp add: spine_def st line preorder_add_body)
  next
    case False
    then have step: "tree_step depth line st = ChunkNode l [i] [] [] # pop_to l st" by (simp add: tree_step_def line)
    have "spine (ChunkNode l [i] [] [] # pop_to l st) = spine st @ [i]"
      using spine_pop_to [of l st] by (simp add: spine_def)
    then show ?thesis using Cons.IH [of "ChunkNode l [i] [] [] # pop_to l st"] step by (simp add: line)
  qed
qed

lemma preorder_build_tree: "preorder (build_tree (ChunkNode l [] [] []) lines depth) = map snd lines"
  using fold_tree_step [of "[ChunkNode l [] [] []]" depth lines]
    close_all_single [of "fold (tree_step depth) lines [ChunkNode l [] [] []]"]
  by (auto simp: build_tree_def spine_def)

text \<open>The levels of a tree below its root.\<close>

fun titled :: "int \<Rightarrow> chunk_node \<Rightarrow> bool" where
  "titled depth (ChunkNode l t b cs) = (1 \<le> l \<and> l \<le> depth \<and> list_all (titled depth) cs)"

definition good_spine :: "int \<Rightarrow> chunk_node list \<Rightarrow> bool" where
  "good_spine depth st = (st \<noteq> [] \<and> list_all (titled depth) (butlast st)
     \<and> node_level (last st) = 0 \<and> title_indexes (last st) = [] \<and> list_all (titled depth) (node_children (last st)))"

lemma titled_parts: "titled depth n \<longleftrightarrow> 1 \<le> node_level n \<and> node_level n \<le> depth \<and> list_all (titled depth) (node_children n)"
  by (cases n) simp

lemma titled_add [simp]: "titled depth (add_child p c) \<longleftrightarrow> titled depth p \<and> titled depth c"
  "titled depth (add_body_index i n) \<longleftrightarrow> titled depth n"
  by (auto simp: titled_parts add_child_def add_body_index_def)

lemma good_close: "good_spine depth (c # p # st) \<Longrightarrow> good_spine depth (add_child p c # st)"
  by (cases st) (auto simp: good_spine_def add_child_def titled_parts)

lemma good_pop: "good_spine depth st \<Longrightarrow> good_spine depth (pop_to l st)"
  by (induction l st rule: pop_to.induct) (auto dest: good_close)

lemma good_close_all: "good_spine depth st \<Longrightarrow> good_spine depth (close_all st)"
  by (induction st rule: close_all.induct) (auto dest: good_close)

lemma good_step: "good_spine depth st \<Longrightarrow> 1 \<le> fst line \<Longrightarrow> good_spine depth (tree_step depth line st)"
proof -
  assume st: "good_spine depth st" and l: "1 \<le> fst line"
  show "good_spine depth (tree_step depth line st)"
  proof (cases "depth < fst line")
    case True
    then show ?thesis using st
      by (cases st; cases line) (auto simp: tree_step_def good_spine_def add_body_index_def titled_parts split: if_splits)
  next
    case False
    then show ?thesis using good_pop [OF st, of "fst line"] l
      by (cases line) (auto simp: tree_step_def good_spine_def)
  qed
qed

lemma good_fold: "good_spine depth st \<Longrightarrow> \<forall>line\<in>set lines. 1 \<le> fst line \<Longrightarrow> good_spine depth (fold (tree_step depth) lines st)"
  by (induction lines arbitrary: st) (simp_all add: good_step)

lemma build_tree_root:
  assumes "\<forall>line\<in>set lines. 1 \<le> fst line"
  obtains b cs where "build_tree (ChunkNode 0 [] [] []) lines depth = ChunkNode 0 [] b cs" "list_all (titled depth) cs"
proof -
  let ?st = "close_all (fold (tree_step depth) lines [ChunkNode 0 [] [] []])"
  have "good_spine depth [ChunkNode 0 [] [] []]" by (simp add: good_spine_def)
  from good_close_all [OF good_fold [OF this assms]] have g: "good_spine depth ?st" .
  moreover have "fold (tree_step depth) lines [ChunkNode 0 [] [] []] \<noteq> []"
    using fold_tree_step [of "[ChunkNode 0 [] [] []]" depth lines] by simp
  then obtain n where n: "?st = [n]" using close_all_single by blast
  ultimately have "node_level n = 0" "title_indexes n = []" "list_all (titled depth) (node_children n)"
    by (simp_all add: good_spine_def)
  then show ?thesis using n that by (cases n) (simp add: build_tree_def)
qed

section \<open>The paths\<close>

text \<open>A path is a part of the titles above and the node, in order; and no index of the node is left out.\<close>

lemma own_paths_subseq: "p \<in> set (own_paths depth heading ts n) \<Longrightarrow> subseq p (ts @ preorder n)"
proof -
  assume p: "p \<in> set (own_paths depth heading ts n)"
  obtain l t b cs where n: "n = ChunkNode l t b cs" by (cases n)
  let ?k = "concat (map preorder cs)"
  have "subseq (ts @ x) (ts @ t @ b @ ?k)" if "subseq x (t @ b @ ?k)" for x
    using that by (rule list_emb_append_mono [OF subseq_order.order_refl])
  moreover have "subseq b (t @ b @ ?k)" "subseq t (t @ b @ ?k)" "subseq (t @ b) (t @ b @ ?k)" "subseq [] (t @ b @ ?k)"
    by (simp_all add: list_emb_append2 list_emb_prefix subseq_order.order_refl flip: append_assoc)
  ultimately show ?thesis using p
    by (auto simp: own_paths_def path_titles_def Let_def n split: if_splits)
qed

lemma path_titles_subseq: "subseq (path_titles depth heading ts n) (ts @ title_indexes n @ body_indexes n)"
  by (auto simp: path_titles_def intro!: list_emb_append_mono)

lemma subseq_concat: "c \<in> set cs \<Longrightarrow> subseq (f c) (concat (map f cs))"
  by (induction cs) (auto intro: list_emb_prefix)

lemma dfs_subseq: "p \<in> set (dfs depth heading ts n) \<Longrightarrow> subseq p (ts @ preorder n)"
proof (induction depth heading ts n arbitrary: p rule: dfs.induct)
  case (1 depth heading ts l t b cs)
  let ?n = "ChunkNode l t b cs"
  from "1.prems" consider "p \<in> set (own_paths depth heading ts ?n)"
    | c where "c \<in> set cs" "p \<in> set (dfs depth heading (path_titles depth heading ts ?n) c)" by auto
  then show ?case
  proof cases
    case 1
    then show ?thesis by (rule own_paths_subseq)
  next
    case 2
    have "subseq p (path_titles depth heading ts ?n @ preorder c)" using "1.IH" 2 by blast
    moreover have "subseq (path_titles depth heading ts ?n @ preorder c) ((ts @ t @ b) @ concat (map preorder cs))"
      using path_titles_subseq [of depth heading ts ?n] subseq_concat [OF 2(1), of preorder]
      by (intro list_emb_append_mono) simp_all
    ultimately show ?thesis by (auto intro: subseq_order.trans)
  qed
qed

lemma dfs_covers:
  "titled depth n \<Longrightarrow> dfs depth heading ts n \<noteq> []
    \<and> (\<forall>p\<in>set (dfs depth heading ts n). set ts \<subseteq> set p)
    \<and> (\<forall>i\<in>set (preorder n). \<exists>p\<in>set (dfs depth heading ts n). i \<in> set p)"
proof (induction depth heading ts n rule: dfs.induct)
  case (1 depth heading ts l t b cs)
  let ?n = "ChunkNode l t b cs"
  let ?pt = "path_titles depth heading ts ?n"
  have inner: "1 \<le> l" "l \<le> depth" "l \<noteq> 0" and cs: "\<forall>c\<in>set cs. titled depth c"
    using "1.prems" by (auto simp: list_all_iff)
  have pt: "?pt = (if heading then ts @ t else ts @ t @ b)" using inner by (simp add: path_titles_def)
  have own: "own_paths depth heading ts ?n =
      (if heading then (if b \<noteq> [] then [?pt @ b] else if cs = [] then [?pt] else []) else if cs = [] then [?pt] else [])"
    using inner by (simp add: own_paths_def Let_def)
  have ih: "dfs depth heading ?pt c \<noteq> []" "\<forall>p\<in>set (dfs depth heading ?pt c). set ?pt \<subseteq> set p"
    "\<forall>i\<in>set (preorder c). \<exists>p\<in>set (dfs depth heading ?pt c). i \<in> set p" if "c \<in> set cs" for c
    using "1.IH" [OF that] cs that by blast+
  have below: "set (dfs depth heading ts ?n) = set (own_paths depth heading ts ?n) \<union> (\<Union>c\<in>set cs. set (dfs depth heading ?pt c))"
    by simp
  have some: "\<exists>p\<in>set (dfs depth heading ts ?n). set ?pt \<subseteq> set p"
  proof (cases cs)
    case Nil
    then show ?thesis using own by auto
  next
    case (Cons c ds)
    then obtain p where p: "p \<in> set (dfs depth heading ?pt c)" "c \<in> set cs"
      using ih(1) [of c] by (cases "dfs depth heading ?pt c") auto
    then show ?thesis using ih(2) [of c] below by blast
  qed
  have "set ts \<subseteq> set p" if "p \<in> set (dfs depth heading ts ?n)" for p
  proof -
    from that below consider "p \<in> set (own_paths depth heading ts ?n)" | c where "c \<in> set cs" "p \<in> set (dfs depth heading ?pt c)"
      by blast
    then show ?thesis
    proof cases
      case 1
      then show ?thesis unfolding own pt by (auto split: if_splits)
    next
      case 2
      then have "set ?pt \<subseteq> set p" using ih(2) by blast
      then show ?thesis unfolding pt by (auto split: if_splits)
    qed
  qed
  moreover have "\<exists>p\<in>set (dfs depth heading ts ?n). i \<in> set p" if "i \<in> set (preorder ?n)" for i
  proof -
    from that consider "i \<in> set ?pt" | "heading" "i \<in> set b" | c where "c \<in> set cs" "i \<in> set (preorder c)"
      unfolding pt by (cases heading) auto
    then show ?thesis
    proof cases
      case 1
      then show ?thesis using some by blast
    next
      case 2
      then have "b \<noteq> []" by (cases b) simp_all
      then have "?pt @ b \<in> set (own_paths depth heading ts ?n)" using 2(1) unfolding own by simp
      then have "?pt @ b \<in> set (dfs depth heading ts ?n)" unfolding below by blast
      moreover have "i \<in> set (?pt @ b)" using 2(2) by simp
      ultimately show ?thesis by blast
    next
      case 3
      then obtain q where "q \<in> set (dfs depth heading ?pt c)" "i \<in> set q" using ih(3) [of c] by blast
      moreover then have "q \<in> set (dfs depth heading ts ?n)" unfolding below using 3(1) by blast
      ultimately show ?thesis by blast
    qed
  qed
  moreover have "dfs depth heading ts ?n \<noteq> []" using some by (metis equals0D list.set(1))
  ultimately show ?case by blast
qed

lemma root_covers:
  assumes "list_all (titled depth) cs" and "i \<in> set (preorder (ChunkNode 0 [] b cs))"
  shows "\<exists>p\<in>set (dfs depth heading [] (ChunkNode 0 [] b cs)). i \<in> set p"
proof -
  have pt: "path_titles depth heading [] (ChunkNode 0 [] b cs) = []" by (simp add: path_titles_def)
  from assms(2) consider "i \<in> set b" | c where "c \<in> set cs" "i \<in> set (preorder c)" by auto
  then show ?thesis
  proof cases
    case 1
    then have "b \<in> set (own_paths depth heading [] (ChunkNode 0 [] b cs))" by (auto simp: own_paths_def)
    then show ?thesis using 1 by fastforce
  next
    case 2
    then have "titled depth c" using assms(1) by (simp add: list_all_iff)
    from dfs_covers [OF this, of heading "[]"] 2(2) obtain p where "p \<in> set (dfs depth heading [] c)" "i \<in> set p" by blast
    moreover then have "p \<in> set (dfs depth heading [] (ChunkNode 0 [] b cs))" using 2(1) pt by auto
    ultimately show ?thesis by blast
  qed
qed

lemma subseq_set: "subseq xs ys \<Longrightarrow> set xs \<subseteq> set ys"
  by (auto simp: subseq_conv_nths intro: in_set_nthsD)

section \<open>The hierarchical strategy loses nothing\<close>

lemma subseq_nths: "subseq is [0..<length xs] \<Longrightarrow> subseq (map ((!) xs) is) xs"
  using subseq_map [of "is" "[0..<length xs]" "(!) xs"] by (simp add: map_nth)

lemma flush_keeps:
  assumes "length levels = length records" and "\<forall>l\<in>set levels. 1 \<le> l" and "py_int (tp_hierarchy p) = Inr h"
  shows "\<exists>groups. flush_text_records p records levels = Inr groups \<and> (\<forall>g\<in>set groups. g \<noteq> [] \<and> subseq g records)
    \<and> set (concat groups) = set records"
proof (cases "records = []")
  case True
  then show ?thesis by (simp add: flush_text_records_def)
next
  case False
  obtain target where target: "resolve_target_level levels (tp_hierarchy p) = Inr target"
    using assms(3) by (cases "title_levels levels = []") (simp_all add: resolve_target_level_def)
  show ?thesis
  proof (cases target)
    case None
    then show ?thesis using False target by (simp add: flush_text_records_def)
  next
    case (Some t)
    let ?lines = "zip levels [0..<length records]"
    have lines: "\<forall>line\<in>set ?lines. 1 \<le> fst line" using assms(2) by (auto dest: set_zip_leftD)
    obtain b cs where tree: "build_tree (ChunkNode 0 [] [] []) ?lines t = ChunkNode 0 [] b cs" "list_all (titled t) cs"
      using build_tree_root [OF lines] by blast
    have pre: "preorder (ChunkNode 0 [] b cs) = [0..<length records]"
      using preorder_build_tree [of 0 ?lines t] assms(1) by (simp add: tree(1))
    define paths where "paths = filter (\<lambda>path. path \<noteq> []) (dfs t (tp_include_heading_content p) [] (ChunkNode 0 [] b cs))"
    have flush: "flush_text_records p records levels = Inr (map (map ((!) records)) paths)"
      using False target Some tree(1) by (simp add: flush_text_records_def get_paths_def paths_def Let_def)
    have paths: "path \<noteq> []" "subseq path [0..<length records]" if "path \<in> set paths" for path
      using that dfs_subseq [of path t "tp_include_heading_content p" "[]" "ChunkNode 0 [] b cs"] pre
      by (auto simp: paths_def)
    have covered: "\<exists>path\<in>set paths. i \<in> set path" if "i < length records" for i
    proof -
      have "i \<in> set (preorder (ChunkNode 0 [] b cs))" unfolding pre using that by simp
      then obtain q where "q \<in> set (dfs t (tp_include_heading_content p) [] (ChunkNode 0 [] b cs))" "i \<in> set q"
        using root_covers [OF tree(2)] by blast
      moreover have "q \<noteq> []" using \<open>i \<in> set q\<close> by (metis equals0D list.set(1))
      ultimately show ?thesis by (auto simp only: paths_def set_filter)
    qed
    have "set records \<subseteq> set (concat (map (map ((!) records)) paths))"
    proof
      fix r assume "r \<in> set records"
      then obtain i where "i < length records" "r = records ! i" by (auto simp: in_set_conv_nth)
      then show "r \<in> set (concat (map (map ((!) records)) paths))" using covered [of i] by auto
    qed
    moreover have sub: "subseq (map ((!) records) path) records" if "path \<in> set paths" for path
      using subseq_nths paths(2) [OF that] by blast
    then have "set (concat (map (map ((!) records)) paths)) \<subseteq> set records"
      using subseq_set by fastforce
    ultimately show ?thesis using flush sub paths(1) by auto
  qed
qed

lemma hierarchy_groups_keep:
  "py_int (tp_hierarchy p) = Inr h \<Longrightarrow> length levels = length texts \<Longrightarrow> \<forall>l\<in>set levels. 1 \<le> l \<Longrightarrow> \<forall>(r, l)\<in>set recs. 1 \<le> l \<Longrightarrow>
    \<exists>groups. hierarchy_groups p texts levels recs = Inr groups
      \<and> (\<forall>g\<in>set groups. g \<noteq> [] \<and> subseq g (texts @ map fst recs)) \<and> set (concat groups) = set texts \<union> fst ` set recs"
proof (induction p texts levels recs rule: hierarchy_groups.induct)
  case (1 p texts levels)
  from flush_keeps [OF 1(2,3,1)] show ?case by simp
next
  case (2 p texts levels r l recs)
  show ?case
  proof (cases "lr_type r = ''text''")
    case True
    then show ?thesis using "2.IH"(1) [OF True] "2.prems" by auto
  next
    case False
    obtain gs where gs: "flush_text_records p texts levels = Inr gs" "\<forall>g\<in>set gs. g \<noteq> [] \<and> subseq g texts"
      "set (concat gs) = set texts"
      using flush_keeps [OF "2.prems"(2,3,1)] by blast
    obtain rest where rest: "hierarchy_groups p [] [] recs = Inr rest" "\<forall>g\<in>set rest. g \<noteq> [] \<and> subseq g (map fst recs)"
      "set (concat rest) = fst ` set recs"
      using "2.IH"(2) [OF False gs(1) "2.prems"(1)] "2.prems"(4) by auto
    have "subseq g (texts @ r # map fst recs)" if "g \<in> set gs \<or> g = [r] \<or> g \<in> set rest" for g
      using that gs(2) rest(2) by (auto intro: list_emb_append2 list_emb_prefix)
    then show ?thesis using False gs rest by auto
  qed
qed

lemma match_level_from_ge: "match_level_from n s ps = Some l \<Longrightarrow> n \<le> l"
  by (induction n s ps rule: match_level_from.induct) (auto split: if_splits)

lemma frequency_level_positive: "1 \<le> frequency_level family r"
  using match_level_from_ge [of 1 "strip (lr_text r)" family]
  by (auto simp: frequency_level_def match_regex_level_def match_layout_level_def body_level_def split: option.splits)

lemma outline_level_positive: "\<forall>(t, l)\<in>set outlines. 0 \<le> l \<Longrightarrow> 1 \<le> outline_level outlines r"
  by (auto simp: outline_level_def body_level_def find_Some_iff split: option.splits) (metis (no_types, lifting) case_prodD nth_mem)

lemma resolved_levels:
  assumes "\<forall>(t, l)\<in>set outlines. 0 \<le> l"
  shows "length (rs_levels (resolve_title_levels p outlines rs)) = length rs"
    and "\<forall>l\<in>set (rs_levels (resolve_title_levels p outlines rs)). 1 \<le> l"
  using outline_level_positive [OF assms] frequency_level_positive
  by (auto simp: resolve_title_levels_def resolve_outline_levels_def resolve_frequency_levels_def Let_def)

text \<open>C10: The hierarchical strategy loses no line and reorders none: whatever the document, its outline and the
  hierarchy setting, every group is a non-empty part of the lines in their order, and every line is in
  some group.\<close>

theorem hierarchy_keeps_every_line:
  assumes "py_int (tp_hierarchy p) = Inr h" and "\<forall>(t, l)\<in>set outlines. 0 \<le> l"
  shows "\<exists>groups. hierarchy_groups p [] [] (zip rs (rs_levels (resolve_title_levels p outlines rs))) = Inr groups
    \<and> (\<forall>g\<in>set groups. g \<noteq> [] \<and> subseq g rs) \<and> set (concat groups) = set rs"
proof -
  let ?ls = "rs_levels (resolve_title_levels p outlines rs)"
  have "\<forall>(r, l)\<in>set (zip rs ?ls). 1 \<le> l" using resolved_levels(2) [OF assms(2), of p rs] by (auto dest: set_zip_rightD)
  from hierarchy_groups_keep [OF assms(1) _ _ this, of "[]" "[]"]
  have keep: "\<exists>groups. hierarchy_groups p [] [] (zip rs ?ls) = Inr groups
      \<and> (\<forall>g\<in>set groups. g \<noteq> [] \<and> subseq g ([] @ map fst (zip rs ?ls))) \<and> set (concat groups) = set [] \<union> fst ` set (zip rs ?ls)"
    by simp
  have "map fst (zip rs ?ls) = rs" using resolved_levels(1) [OF assms(2), of p rs] by (simp only: map_fst_zip)
  moreover have "fst ` set (zip rs ?ls) = set rs" using calculation by (metis list.set_map)
  ultimately show ?thesis using keep by (simp only: append_Nil set_empty2 Un_empty_left list.set(1))
qed

definition demo_title_param :: title_param where
  "demo_title_param = \<lparr>tp_method = ''hierarchy'', tp_levels = [[RStr ''# '', RStr ''## '']], tp_hierarchy = PInt 2,
     tp_include_heading_content = True, tp_root_chunk_as_heading = False\<rparr>"

definition demo_lines :: "line_record list" where
  "demo_lines = map text_line [''intro'', ''# A'', ''a1'', ''## B'', ''b1'', ''# C'', ''c1'']"

theorem hierarchy_keeps_every_line_witness:
  "map (map lr_text) [[text_line ''# A'', text_line ''## B'', text_line ''b1'']] = [[''# A'', ''## B'', ''b1'']]
    \<and> (\<exists>groups. hierarchy_groups demo_title_param [] []
        (zip demo_lines (rs_levels (resolve_title_levels demo_title_param [] demo_lines))) = Inr groups
      \<and> [text_line ''# A'', text_line ''## B'', text_line ''b1''] \<in> set groups \<and> set (concat groups) = set demo_lines)"
proof -
  have "py_int (tp_hierarchy demo_title_param) = Inr 2" by (simp add: demo_title_param_def py_int_def)
  from hierarchy_keeps_every_line [OF this, of "[]" demo_lines]
  obtain groups where "hierarchy_groups demo_title_param [] []
      (zip demo_lines (rs_levels (resolve_title_levels demo_title_param [] demo_lines))) = Inr groups"
    "set (concat groups) = set demo_lines" by auto
  moreover have "hierarchy_groups demo_title_param [] []
      (zip demo_lines (rs_levels (resolve_title_levels demo_title_param [] demo_lines)))
    = Inr (map (map text_line) [[''intro''], [''# A'', ''a1''], [''# A'', ''## B'', ''b1''], [''# C'', ''c1'']])" by code_simp
  ultimately show ?thesis by (auto simp: text_line_def)
qed

section \<open>The strategy by sections\<close>

definition tokens_of :: "(string \<Rightarrow> nat) \<Rightarrow> line_record list \<Rightarrow> nat" where
  "tokens_of nt rs = sum_list (map (nt \<circ> lr_text) rs)"

definition good_group :: "(string \<Rightarrow> nat) \<Rightarrow> line_record list \<Rightarrow> bool" where
  "good_group nt g = (g \<noteq> [] \<and> ((\<exists>r. g = [r] \<and> lr_type r \<noteq> ''text'')
     \<or> list_all (\<lambda>r. lr_type r = ''text'') g \<and> tokens_of nt (butlast g) < max_group_tokens))"

definition kept_record :: "line_record \<Rightarrow> bool" where
  "kept_record r = (\<not> (lr_type r = ''text'' \<and> strip (lr_text r) = []))"

definition group_inv :: "(string \<Rightarrow> nat) \<Rightarrow> line_record list \<Rightarrow> group_state \<Rightarrow> bool" where
  "group_inv nt rs s = (concat (gs_groups s) = filter kept_record rs \<and> list_all (good_group nt) (gs_groups s)
     \<and> (gs_groups s \<noteq> [] \<and> lr_type (hd (last (gs_groups s))) = ''text'' \<longrightarrow> gs_tokens s = tokens_of nt (last (gs_groups s))))"

lemma group_step_inv:
  assumes "group_inv nt rs s"
  shows "group_inv nt (rs @ [r]) (group_step nt (r, sec) s)"
proof -
  consider "lr_type r \<noteq> ''text''" | "lr_type r = ''text''" "strip (lr_text r) = []"
    | "lr_type r = ''text''" "strip (lr_text r) \<noteq> []" "should_merge s sec"
    | "lr_type r = ''text''" "strip (lr_text r) \<noteq> []" "\<not> should_merge s sec" by blast
  then show ?thesis
  proof cases
    case 3
    then obtain gs g where groups: "gs_groups s = gs @ [g]" by (cases "gs_groups s" rule: rev_cases) (auto simp: should_merge_def)
    have ht: "lr_type (hd g) = ''text''" and few: "gs_tokens s < max_group_tokens"
      using 3(3) by (auto simp: should_merge_def groups min_group_tokens_def max_group_tokens_def)
    have good: "good_group nt g" and toks: "gs_tokens s = tokens_of nt g"
      using assms ht by (auto simp: group_inv_def groups)
    then have "good_group nt (g @ [r])" using 3(1) ht few by (auto simp: good_group_def)
    moreover have "hd (g @ [r]) = hd g" using good by (simp add: good_group_def)
    ultimately show ?thesis using 3 assms groups toks ht
      by (simp add: group_step_def group_inv_def kept_record_def tokens_of_def)
  qed (use assms in \<open>auto simp: group_step_def group_inv_def good_group_def kept_record_def tokens_of_def max_group_tokens_def\<close>)
qed

lemma group_fold_inv: "group_inv nt rs s \<Longrightarrow> group_inv nt (rs @ map fst recs) (fold (group_step nt) recs s)"
proof (induction recs arbitrary: rs s)
  case Nil
  then show ?case by simp
next
  case (Cons x recs)
  then show ?case using Cons.IH [OF group_step_inv [OF Cons.prems, of "fst x" "snd x"]] by (cases x) simp
qed

text \<open>The strategy by sections puts every record that is not blank text into exactly one group, in the order of
  the document; a table or an image is alone in its group; and a group of text closes as soon as its
  tokens reach the limit, so without its last line it is below 1024 tokens.\<close>

theorem groups_partition_the_lines:
  "concat (group_records nt recs) = filter (\<lambda>r. \<not> (lr_type r = ''text'' \<and> strip (lr_text r) = [])) (map fst recs)
    \<and> list_all (\<lambda>g. g \<noteq> [] \<and> ((\<exists>r. g = [r] \<and> lr_type r \<noteq> ''text'')
        \<or> list_all (\<lambda>r. lr_type r = ''text'') g \<and> sum_list (map (nt \<circ> lr_text) (butlast g)) < 1024)) (group_records nt recs)"
proof -
  have "group_inv nt [] \<lparr>gs_groups = [], gs_tokens = 0, gs_last = - 2\<rparr>" by (simp add: group_inv_def)
  from group_fold_inv [OF this, of recs] show ?thesis
    unfolding group_records_def group_inv_def good_group_def [abs_def] tokens_of_def [abs_def] max_group_tokens_def kept_record_def [abs_def]
    by (simp only: append_Nil)
qed

theorem groups_partition_the_lines_witness:
  "concat (group_records (\<lambda>s. 40) (zip demo_lines [0, 1, 1, 2, 2, 3, 3])) = demo_lines
    \<and> length (group_records (\<lambda>s. 40) (zip demo_lines [0, 1, 1, 2, 2, 3, 3])) = 4"
proof -
  have "filter (\<lambda>r. \<not> (lr_type r = ''text'' \<and> strip (lr_text r) = [])) (map fst (zip demo_lines [0, 1, 1, 2, 2, 3, (3::int)])) = demo_lines"
    by code_simp
  then have "concat (group_records (\<lambda>s. 40) (zip demo_lines [0, 1, 1, 2, 2, 3, 3])) = demo_lines"
    using groups_partition_the_lines [of "\<lambda>s. 40" "zip demo_lines [0, 1, 1, 2, 2, 3, 3]"] by (simp only: simp_thms)
  moreover have "length (group_records (\<lambda>s. 40) (zip demo_lines [0, 1, 1, 2, 2, 3, 3])) = 4" by code_simp
  ultimately show ?thesis by blast
qed

section \<open>The target level\<close>

lemma below_nth: "sorted xs \<Longrightarrow> distinct xs \<Longrightarrow> i < length xs \<Longrightarrow> {x \<in> set xs. x < xs ! i} = set (take i xs)"
proof (induction xs arbitrary: i)
  case Nil
  then show ?case by simp
next
  case (Cons x xs)
  then show ?case
  proof (cases i)
    case 0
    then show ?thesis using Cons.prems by fastforce
  next
    case (Suc j)
    then have "{y \<in> set xs. y < xs ! j} = set (take j xs)" using Cons by simp
    moreover have "x < xs ! j" using Cons.prems Suc by (metis distinct.simps(2) length_Cons less_le not_less_eq nth_mem sorted_simps(2) Suc_less_eq)
    ultimately show ?thesis using Suc by auto
  qed
qed

text \<open>The level a document is split at is one of its title levels, with one fewer title levels above it than the
  hierarchy asks for (at least one, at most all of them).\<close>

theorem target_level_is_the_nth:
  assumes "resolve_target_level levels hierarchy = Inr (Some t)" and "py_int hierarchy = Inr h"
  shows "t \<in> set levels \<and> 0 < t \<and> t < body_level
    \<and> int (card {l \<in> set levels. 0 < l \<and> l < t}) = min (max h 1) (int (card {l \<in> set levels. 0 < l \<and> l < body_level})) - 1"
proof -
  let ?ts = "title_levels levels"
  have ts: "sorted ?ts" "distinct ?ts" "set ?ts = {l \<in> set levels. 0 < l \<and> l < body_level}"
    by (auto simp: title_levels_def)
  have card: "card {l \<in> set levels. 0 < l \<and> l < body_level} = length ?ts"
    using distinct_card [OF ts(2)] by (simp add: ts(3))
  define i where "i = nat (min (max h 1) (int (length ?ts)) - 1)"
  have ne: "?ts \<noteq> []" and t: "t = ?ts ! i" using assms by (auto simp: resolve_target_level_def i_def split: if_splits)
  have "0 < length ?ts" using ne by simp
  then have i: "i < length ?ts" "int i = min (max h 1) (int (length ?ts)) - 1" unfolding i_def by linarith+
  have "t \<in> set ?ts" unfolding t using i(1) by (rule nth_mem)
  then have t_in: "t \<in> set levels" "0 < t" "t < body_level" unfolding ts(3) by simp_all
  then have "{l \<in> set levels. 0 < l \<and> l < t} = {l \<in> set ?ts. l < t}" unfolding ts(3) by auto
  also have "\<dots> = set (take i ?ts)" using below_nth [OF ts(1,2) i(1)] unfolding t .
  finally have "card {l \<in> set levels. 0 < l \<and> l < t} = i"
    using distinct_card [OF distinct_take [OF ts(2), of i]] i(1) by simp
  then show ?thesis using t_in i(2) card by (simp only: simp_thms)
qed

theorem target_level_is_the_nth_witness:
  "resolve_target_level [3, 1, body_level, 2, 3] (PInt 2) = Inr (Some 2) \<and> card {l \<in> set [3, 1, body_level, 2, 3]. 0 < l \<and> l < (2::int)} = 1"
proof -
  have "resolve_target_level [3, 1, body_level, 2, 3] (PInt 2) = Inr (Some 2)" by code_simp
  moreover from target_level_is_the_nth [OF this, of 2]
  have "int (card {l \<in> set [3, 1, body_level, 2, 3]. 0 < l \<and> l < (2::int)})
      = min (max 2 1) (int (card {l \<in> set [3, 1, body_level, 2, 3]. 0 < l \<and> l < body_level})) - 1" by (simp add: py_int_def)
  moreover have "card {l \<in> set [3, 1, body_level, 2, 3]. 0 < l \<and> l < body_level} = 3"
  proof -
    have "{l \<in> set [3, 1, body_level, 2, 3]. 0 < l \<and> l < body_level} = {1, 2, 3}" by (auto simp: body_level_def)
    then show ?thesis by simp
  qed
  ultimately show ?thesis by simp
qed

section \<open>Positions stay inside\<close>

lemma map_res_all: "map_res f xs = Inr ys \<Longrightarrow> (\<And>x y. f x = Inr y \<Longrightarrow> P y) \<Longrightarrow> y \<in> set ys \<Longrightarrow> P y"
proof (induction xs arbitrary: ys)
  case Nil
  then show ?case by simp
next
  case (Cons x xs)
  then show ?case by (cases "f x"; cases "map_res f xs") auto
qed

lemma in_set_tl: "x \<in> set (tl xs) \<Longrightarrow> x \<in> set xs"
  by (cases xs) simp_all

lemma finalize_clean: "finalize_pdf_chunk (PDict c) = Inr v \<Longrightarrow> \<exists>d. v = PDict d \<and> \<not> has_key d pdf_positions_key"
  by (cases "extract_pdf_positions (PDict c)") (auto simp: finalize_pdf_chunk_def delete_conv')

lemma group_chunk_markup: "is_markup u \<Longrightarrow> group_chunk u rs = Inr c \<Longrightarrow> \<not> has_key c pdf_positions_key"
  by (auto simp: group_chunk_def pdf_positions_key_def)

lemma group_chunks_markup:
  assumes "is_markup u" and "build_chunks_from_record_groups p u gs = Inr chunks" and "c \<in> set chunks"
  shows "\<not> has_key c pdf_positions_key"
proof -
  obtain cs where cs: "map_res (group_chunk u) (filter (\<lambda>rs. rs \<noteq> []) gs) = Inr cs"
    "chunks = (if tp_root_chunk_as_heading p \<and> 1 < length cs then root_as_heading cs else cs)"
    using assms(2) by (cases "map_res (group_chunk u) (filter (\<lambda>rs. rs \<noteq> []) gs)") (auto simp: build_chunks_from_record_groups_def)
  have clean: "\<not> has_key d pdf_positions_key" if "d \<in> set cs" for d
    using map_res_all [OF cs(1), of "\<lambda>d. \<not> has_key d pdf_positions_key"] group_chunk_markup [OF assms(1)] that by blast
  then show ?thesis using assms(3) cs(2)
    by (auto simp: root_as_heading_def dget_dset pdf_positions_key_def dest: in_set_tl split: if_splits)
qed

text \<open>No chunk leaves the title chunker with the internal positions: they are turned into the indexed fields, or
  were never there.\<close>

theorem no_internal_positions_leak:
  assumes "chunker_invoke env p hierarchical u = Inr out"
  shows "\<exists>cs. map_of out ''chunks'' = Some (PList cs) \<and> (\<forall>c\<in>set cs. \<exists>d. c = PDict d \<and> \<not> has_key d pdf_positions_key)"
proof -
  obtain gs chunks cs where chunks: "build_chunks_from_record_groups p u gs = Inr chunks"
    "set_chunks (te_previews env) u chunks = Inr cs" and out: "out = [(''output_format'', PStr ''chunks''), (''chunks'', PList cs)]"
    using assms
    by (auto simp: chunker_invoke_def build_hierarchy_chunks_def build_group_chunks_def Let_def try_then_Inr_iff
        split: if_splits)
  have "\<exists>d. c = PDict d \<and> \<not> has_key d pdf_positions_key" if c: "c \<in> set cs" for c
  proof (cases "is_markup u")
    case True
    then show ?thesis using chunks c group_chunks_markup [OF True chunks(1)] by (auto simp: set_chunks_def)
  next
    case False
    then have "map_res (\<lambda>c. finalize_pdf_chunk (PDict c)) (te_previews env chunks) = Inr cs"
      using chunks(2) by (simp add: set_chunks_def)
    from map_res_all [OF this, of "\<lambda>c. \<exists>d. c = PDict d \<and> \<not> has_key d pdf_positions_key"] finalize_clean c
    show ?thesis by blast
  qed
  then show ?thesis using out by simp
qed

theorem no_internal_positions_leak_witness:
  "\<exists>out cs. chunker_invoke \<lparr>te_num_tokens = length, te_outlines = (\<lambda>v. []), te_previews = (\<lambda>cs. cs)\<rparr> demo_title_param True
      \<lparr>up_format = ''json'', up_markdown = None, up_text = None, up_html = None, up_chunks = PNone,
       up_json = PList [PDict [(''text'', PStr ''# A''), (''positions'', PList [PList [PInt 1, PInt 2, PInt 3, PInt 4, PInt 5]])]],
       up_file = PNone\<rparr> = Inr out
    \<and> map_of out ''chunks'' = Some (PList cs) \<and> (\<forall>c\<in>set cs. \<exists>d. c = PDict d \<and> \<not> has_key d pdf_positions_key) \<and> cs \<noteq> []"
proof -
  let ?u = "\<lparr>up_format = ''json'', up_markdown = None, up_text = None, up_html = None, up_chunks = PNone,
       up_json = PList [PDict [(''text'', PStr ''# A''), (''positions'', PList [PList [PInt 1, PInt 2, PInt 3, PInt 4, PInt 5]])]],
       up_file = PNone\<rparr>"
  let ?e = "\<lparr>te_num_tokens = length, te_outlines = (\<lambda>v. []), te_previews = (\<lambda>cs. cs)\<rparr>"
  have run: "chunker_invoke ?e demo_title_param True ?u = Inr
      [(''output_format'', PStr ''chunks''),
       (''chunks'', PList [PDict [(''text'', PStr (''# A'' @ [CHR 0x0A])), (''doc_type_kwd'', PStr ''text''),
         (''position_int'', PList [PList [PInt 1, PInt 2, PInt 3, PInt 4, PInt 5]]),
         (''page_num_int'', PList [PInt 1]), (''top_int'', PList [PInt 4])]])]" (is "_ = Inr ?out")
    by code_simp
  from no_internal_positions_leak [OF run] obtain cs where "map_of ?out ''chunks'' = Some (PList cs)"
    "\<forall>c\<in>set cs. \<exists>d. c = PDict d \<and> \<not> has_key d pdf_positions_key" by blast
  moreover then have "cs \<noteq> []" by auto
  ultimately show ?thesis using run by blast
qed

end
