(* ===== verification/TokenChunker.thy ===== *)
theory TokenChunker
  imports TitleChunker Component
begin

text \<open>
  Chunking by delimiters and token counts, after \<^verbatim>\<open>rag/flow/chunker/token_chunker.py\<close>, with
  \<open>naive_merge\<close> of \<^verbatim>\<open>rag/nlp/__init__.py\<close> and \<open>normalize_overlapped_percent\<close> of
  \<^verbatim>\<open>common/float_utils.py\<close>.

  An internal chunk of the code is a dict with fixed keys; it is a record here, a key the code leaves out
  being the empty text, \<open>PNone\<close> or None. A delimiter pattern is the alternation of its literals, longest
  first; literals of one length exclude each other at a place, so their order, which Python leaves
  open, does not matter. The token counter and the previews are parameters. Products of percentages are
  exact; the code divides floats and takes the floor.
\<close>

section \<open>Settings\<close>

record token_param =
  kp_mode :: pyval
  kp_size :: nat
  kp_delimiters :: "string list"
  kp_overlap :: pyval
  kp_children :: "string list"
  kp_table_context :: int
  kp_image_context :: int

definition delimiter_list :: "pyval \<Rightarrow> string list res" where
  "delimiter_list v = try_then (case v of
       PNone \<Rightarrow> Inr []
     | PStr s \<Rightarrow> Inr [s]
     | _ \<Rightarrow> try_then (py_iter v) (\<lambda>ds. Inr (map py_str (filter is_str ds)))) (\<lambda>ds. Inr (filter (\<lambda>d. d \<noteq> []) ds))"

definition normalize_overlapped_percent :: "pyval \<Rightarrow> int" where
  "normalize_overlapped_percent v = (case py_float v of
     Inl e \<Rightarrow> 0
   | Inr r \<Rightarrow> max 0 (min (trunc_rat (if 0 < r \<and> r < 1 then r * 100 else r)) 90))"

section \<open>Delimiters\<close>

definition backtick_rx :: rx where
  "backtick_rx = RSeq (RSet [CHR 0x60]) (RSeq (RGroup 1 (RPlus (RNotSet [CHR 0x60]))) (RSet [CHR 0x60]))"

definition custom_delimiters :: "string \<Rightarrow> string list" where
  "custom_delimiters raw = map (\<lambda>(p, m, c). PyRegex.group c 1) (fst (rx_pieces backtick_rx raw))"

text \<open>Distinct literals, longest first.\<close>

definition literal_pattern :: "string list \<Rightarrow> string list" where
  "literal_pattern ds = rev (sort_key char_count (rev (remdups ds)))"

definition compile_delimiter_pattern :: "string list \<Rightarrow> string list" where
  "compile_delimiter_pattern delimiters = literal_pattern (custom_delimiters (concat delimiters))"

definition pattern_rx :: "string list \<Rightarrow> rx" where
  "pattern_rx ds = RAny (map RStr ds)"

text \<open>\<open>re.split\<close> around one group, as pieces each with the delimiter after it.\<close>

definition split_pieces :: "rx \<Rightarrow> string \<Rightarrow> (string \<times> string) list" where
  "split_pieces a s = (case rx_pieces a s of (ps, t) \<Rightarrow> map (\<lambda>(p, m, c). (p, m)) ps @ [(t, [])])"

definition split_text_by_pattern :: "string \<Rightarrow> string list \<Rightarrow> string list" where
  "split_text_by_pattern text ds =
     (if ds = [] then [text]
      else filter (\<lambda>c. strip c \<noteq> []) (map (\<lambda>(p, m). p @ m) (filter (\<lambda>(p, m). p \<noteq> []) (split_pieces (pattern_rx ds) text))))"

section \<open>Merging sections\<close>

text \<open>The part of a text that overlaps into the next chunk.\<close>

definition overlap_tail :: "int \<Rightarrow> string \<Rightarrow> string" where
  "overlap_tail percent s = concat (drop (char_count s * nat (100 - percent) div 100) (chars_of s))"

definition over_threshold :: "nat \<Rightarrow> int \<Rightarrow> nat \<Rightarrow> bool" where
  "over_threshold limit percent tokens = (int limit * (100 - percent) < 100 * int tokens)"

text \<open>\<open>add_chunk\<close>: the chunks so far, each with its tokens.\<close>

definition add_chunk ::
    "(string \<Rightarrow> nat) \<Rightarrow> nat \<Rightarrow> int \<Rightarrow> string \<Rightarrow> string \<Rightarrow> (string \<times> nat) list \<Rightarrow> (string \<times> nat) list" where
  "add_chunk nt limit percent t pos0 cks =
     (let tnum = nt t; pos = (if tnum < 8 then [] else pos0); (c, n) = last cks
      in if c = [] \<or> over_threshold limit percent n then
           let t1 = overlap_tail percent (remove_tag c) @ t
           in cks @ [(if str_in pos t1 then t1 else t1 @ pos, tnum)]
         else butlast cks @ [(c @ (if str_in pos c then t else t @ pos), n + tnum)])"

definition split_custom :: "(string \<Rightarrow> nat) \<Rightarrow> string list \<Rightarrow> string \<times> string \<Rightarrow> string list" where
  "split_custom nt ds section = (case section of (sec, pos) \<Rightarrow>
     map (\<lambda>sub. let text = CHR 0x0A # sub; local_pos = (if nt text < 8 then [] else pos)
                in if local_pos \<noteq> [] \<and> \<not> str_in local_pos text then text @ local_pos else text)
       (filter (\<lambda>sub. sub \<notin> set ds) (concat (map (\<lambda>(p, m). [p, m]) (butlast (split_pieces (pattern_rx ds) sec)))
          @ [fst (last (split_pieces (pattern_rx ds) sec))])))"

definition naive_merge :: "(string \<Rightarrow> nat) \<Rightarrow> (string \<times> string) list \<Rightarrow> nat \<Rightarrow> string \<Rightarrow> int \<Rightarrow> string list" where
  "naive_merge nt sections limit delimiter percent =
     (if sections = [] then []
      else if custom_delimiters delimiter \<noteq> [] then
        concat (map (split_custom nt (literal_pattern (custom_delimiters delimiter))) sections)
      else map fst (fold (\<lambda>(sec, pos) cks. add_chunk nt limit percent (CHR 0x0A # sec) pos cks) sections [([], 0)]))"

section \<open>Working chunks\<close>

record token_chunk =
  tk_text :: string
  tk_type :: string
  tk_img :: pyval
  tk_positions :: "position list"
  tk_nums :: nat
  tk_above :: string
  tk_below :: string
  tk_mom :: "string option"

definition chunk_type :: "pdict \<Rightarrow> string" where
  "chunk_type d = (let t = lower (strip (py_str (py_or (get_none d ''doc_type_kwd'') (PStr []))))
     in if t = ''table'' then ''table'' else if t = ''image'' then ''image'' else ''text'')"

definition chunk_source_text :: "pdict \<Rightarrow> string" where
  "chunk_source_text d = (case get_none d ''text'' of PStr s \<Rightarrow> s
     | _ \<Rightarrow> (case get_none d ''content_with_weight'' of PStr s \<Rightarrow> s | _ \<Rightarrow> []))"

definition item_chunks :: "(string \<Rightarrow> nat) \<Rightarrow> string list \<Rightarrow> pyval \<Rightarrow> token_chunk list res" where
  "item_chunks nt ds item = try_then (as_dict ''get'' item) (\<lambda>d. try_then (extract_pdf_positions item) (\<lambda>ps.
     let text = chunk_source_text d; ty = chunk_type d
     in Inr (if ty = ''text'' then
          map (\<lambda>s. \<lparr>tk_text = s, tk_type = ''text'', tk_img = PNone, tk_positions = ps, tk_nums = nt s,
                      tk_above = [], tk_below = [], tk_mom = None\<rparr>)
            (filter (\<lambda>s. strip s \<noteq> []) (if ds = [] then [text] else split_text_by_pattern text ds))
        else [\<lparr>tk_text = text, tk_type = ty, tk_img = get_none d ''img_id'', tk_positions = ps, tk_nums = nt text,
               tk_above = [], tk_below = [], tk_mom = None\<rparr>])))"

definition build_json_chunks :: "(string \<Rightarrow> nat) \<Rightarrow> string list \<Rightarrow> pyval list \<Rightarrow> token_chunk list res" where
  "build_json_chunks nt ds items = try_then (map_res (item_chunks nt ds) items) (\<lambda>css. Inr (concat css))"

section \<open>Context of tables and images\<close>

definition sentence_rx :: rx where
  "sentence_rx = RAny [RSet [CHR ''!'', CHR ''?'', CHR 0x0A], RStr [CHR 0xE3, CHR 0x80, CHR 0x82],
     RStr [CHR 0xEF, CHR 0xBC, CHR 0x9F], RStr [CHR 0xEF, CHR 0xBC, CHR 0x9B], RStr [CHR 0xEF, CHR 0xBC, CHR 0x81], RStr ''. '']"

fun take_until :: "(string \<Rightarrow> nat) \<Rightarrow> int \<Rightarrow> bool \<Rightarrow> string \<Rightarrow> string list \<Rightarrow> string" where
  "take_until nt need from_end collected [] = collected"
| "take_until nt need from_end collected (s # ss) =
     (let c = (if from_end then s @ collected else collected @ s)
      in if need \<le> int (nt c) then c else take_until nt need from_end c ss)"

definition take_sentences :: "(string \<Rightarrow> nat) \<Rightarrow> string \<Rightarrow> int \<Rightarrow> bool \<Rightarrow> string" where
  "take_sentences nt text need from_end =
     (let ss = map (\<lambda>(p, m). p @ m) (split_pieces sentence_rx text)
      in take_until nt need from_end [] (if from_end then rev ss else ss))"

text \<open>The parts found while walking away from a chunk, nearest first.\<close>

fun context_parts :: "(string \<Rightarrow> nat) \<Rightarrow> bool \<Rightarrow> int \<Rightarrow> token_chunk list \<Rightarrow> string list" where
  "context_parts nt from_end remain [] = []"
| "context_parts nt from_end remain (c # cs) =
     (if remain \<le> 0 then []
      else if tk_type c = ''text'' then
        (if remain \<le> int (tk_nums c) then [take_sentences nt (tk_text c) remain from_end]
         else tk_text c # context_parts nt from_end (remain - int (tk_nums c)) cs)
      else context_parts nt from_end remain cs)"

definition with_context :: "(string \<Rightarrow> nat) \<Rightarrow> int \<Rightarrow> int \<Rightarrow> token_chunk list \<Rightarrow> token_chunk \<Rightarrow> token_chunk list \<Rightarrow> token_chunk" where
  "with_context nt table_size image_size front c behind =
     (if tk_type c \<notin> {''table'', ''image''} then c
      else let limit = (if tk_type c = ''image'' then image_size else table_size)
      in if limit \<le> 0 then c
         else c\<lparr>tk_above := concat (rev (context_parts nt True limit (rev front))),
                tk_below := concat (context_parts nt False limit behind)\<rparr>)"

definition attach_context_to_media_chunks :: "(string \<Rightarrow> nat) \<Rightarrow> int \<Rightarrow> int \<Rightarrow> token_chunk list \<Rightarrow> token_chunk list" where
  "attach_context_to_media_chunks nt table_size image_size chunks =
     map (\<lambda>i. with_context nt table_size image_size (take i chunks) (chunks ! i) (drop (Suc i) chunks)) [0..<length chunks]"

section \<open>Merging by token size\<close>

definition join_texts :: "string \<Rightarrow> string \<Rightarrow> string" where
  "join_texts a b = (if a \<noteq> [] \<and> b \<noteq> [] then a @ [CHR 0x0A] @ b else a @ b)"

definition merge_into :: "token_chunk \<Rightarrow> token_chunk \<Rightarrow> token_chunk" where
  "merge_into c d = c\<lparr>tk_text := join_texts (tk_text c) (tk_text d), tk_positions := tk_positions c @ tk_positions d,
     tk_nums := tk_nums c + tk_nums d\<rparr>"

text \<open>The state of the loop: the chunks so far and the index of the text chunk that is open.\<close>

definition merge_step :: "(string \<Rightarrow> nat) \<Rightarrow> nat \<Rightarrow> int \<Rightarrow> token_chunk \<Rightarrow> token_chunk list \<times> nat option \<Rightarrow> token_chunk list \<times> nat option" where
  "merge_step nt limit percent c st = (case st of (merged, prev) \<Rightarrow>
     if tk_type c \<noteq> ''text'' then (merged @ [c], None)
     else (case prev of
       None \<Rightarrow> (merged @ [c], Some (length merged))
     | Some i \<Rightarrow>
         if over_threshold limit percent (tk_nums (merged ! i)) then
           let t = overlap_tail percent (tk_text (merged ! i)) @ tk_text c
           in (merged @ [if 0 < percent \<and> tk_text (merged ! i) \<noteq> [] then c\<lparr>tk_text := t, tk_nums := nt t\<rparr> else c],
               Some (length merged))
         else (merged[i := merge_into (merged ! i) c], Some i)))"

definition merge_text_chunks_by_token_size :: "(string \<Rightarrow> nat) \<Rightarrow> nat \<Rightarrow> int \<Rightarrow> token_chunk list \<Rightarrow> token_chunk list" where
  "merge_text_chunks_by_token_size nt limit percent chunks = fst (fold (merge_step nt limit percent) chunks ([], None))"

section \<open>The outputs\<close>

definition split_chunk_docs_by_children :: "string list \<Rightarrow> token_chunk list \<Rightarrow> token_chunk list" where
  "split_chunk_docs_by_children ds chunks =
     (if ds = [] then chunks
      else concat (map (\<lambda>c. if tk_type c \<noteq> ''text'' then [c]
        else map (\<lambda>t. c\<lparr>tk_mom := Some (tk_text c), tk_text := t\<rparr>)
          (filter (\<lambda>t. strip t \<noteq> []) (split_text_by_pattern (tk_text c) ds))) chunks))"

definition chunk_doc :: "token_chunk \<Rightarrow> pdict" where
  "chunk_doc c = [(''text'', PStr (tk_above c @ tk_text c @ tk_below c)), (''doc_type_kwd'', PStr (tk_type c))]
     @ (if tk_positions c \<noteq> [] then [(pdf_positions_key, PList (map position_value (tk_positions c)))] else [])
     @ (case tk_mom c of Some m \<Rightarrow> if m \<noteq> [] then [(''mom'', PStr m)] else [] | None \<Rightarrow> [])
     @ (if truthy (tk_img c) then [(''img_id'', tk_img c)] else [])"

definition finalize_json_chunks :: "token_chunk list \<Rightarrow> pyval list res" where
  "finalize_json_chunks chunks =
     map_res (\<lambda>c. finalize_pdf_chunk (PDict (chunk_doc c)))
       (filter (\<lambda>c. strip (tk_above c @ tk_text c @ tk_below c) \<noteq> []) chunks)"

record token_env =
  ke_num_tokens :: "string \<Rightarrow> nat"
  ke_previews :: "token_chunk list \<Rightarrow> token_chunk list"

definition one_chunk :: "string \<Rightarrow> pyval list" where
  "one_chunk s = (if strip s = [] then [] else [PDict [(''text'', PStr s)]])"

definition text_chunks :: "token_env \<Rightarrow> token_param \<Rightarrow> string \<Rightarrow> pyval list" where
  "text_chunks env p payload =
     (let ds = compile_delimiter_pattern (kp_delimiters p); children = literal_pattern (kp_children p);
          cks = (if ds \<noteq> [] then split_text_by_pattern payload ds
                 else naive_merge (ke_num_tokens env) (if payload = [] then [] else [(payload, [])]) (kp_size p) []
                        (normalize_overlapped_percent (kp_overlap p)))
      in if kp_mode p = PStr ''one'' then one_chunk payload
         else if children \<noteq> [] then
           concat (map (\<lambda>c. map (\<lambda>t. PDict [(''text'', PStr t), (''mom'', PStr c)])
             (filter (\<lambda>t. strip t \<noteq> []) (split_text_by_pattern c children))) (filter (\<lambda>c. strip c \<noteq> []) cks))
         else map (\<lambda>c. PDict [(''text'', PStr (strip c))]) (filter (\<lambda>c. strip c \<noteq> []) cks))"

definition whole_item_text :: "pyval \<Rightarrow> string list res" where
  "whole_item_text item = try_then (as_dict ''get'' item) (\<lambda>d.
     let t = chunk_source_text d in Inr (if strip t \<noteq> [] then [t] else []))"

definition json_chunks :: "token_env \<Rightarrow> token_param \<Rightarrow> pyval list \<Rightarrow> pyval list res" where
  "json_chunks env p items =
     (if kp_mode p = PStr ''one'' then
        try_then (map_res whole_item_text items) (\<lambda>tss. Inr (one_chunk (join_str [CHR 0x0A] (concat tss))))
      else let ds = compile_delimiter_pattern (kp_delimiters p); children = literal_pattern (kp_children p);
               percent = normalize_overlapped_percent (kp_overlap p)
      in try_then (build_json_chunks (ke_num_tokens env) ds items) (\<lambda>cs0.
         let cs1 = attach_context_to_media_chunks (ke_num_tokens env) (kp_table_context p) (kp_image_context p) cs0;
             cs2 = (if ds = [] then merge_text_chunks_by_token_size (ke_num_tokens env) (kp_size p) percent cs1 else cs1);
             cs3 = split_chunk_docs_by_children children cs2
         in finalize_json_chunks (ke_previews env cs3)))"

definition token_chunker_invoke :: "token_env \<Rightarrow> token_param \<Rightarrow> upstream \<Rightarrow> pdict res" where
  "token_chunker_invoke env p u =
     try_then (case text_payload u of
         Some payload \<Rightarrow> Inr (text_chunks env p payload)
       | None \<Rightarrow> try_then (py_iter (py_or (up_json u) (PList []))) (json_chunks env p))
       (\<lambda>chunks. Inr [(''output_format'', PStr ''chunks''), (''chunks'', PList chunks)])"

section \<open>Splitting and merging\<close>

lemma split_pieces_concat: "concat (map (\<lambda>(p, m). p @ m) (split_pieces a s)) = s"
proof -
  obtain ps t where ps: "rx_pieces a s = (ps, t)" by (cases "rx_pieces a s")
  have "concat (map (\<lambda>(p, m). p @ m) (map (\<lambda>(p, m, c). (p, m)) qs)) = concat (map (\<lambda>(p, m, c). p @ m) qs)"
    for qs :: "(string \<times> string \<times> captures) list" by (induction qs) auto
  then show ?thesis using rx_pieces_concat [OF ps] unfolding split_pieces_def ps prod.case map_append concat_append by simp
qed

lemma strip_newline: "strip (CHR 0x0A # s) = strip s"
  by (simp add: strip_def strip_chars_def ascii_space_def)

lemma rx_pieces_empty: "rx_pieces a [] = ([], [])"
  by (subst rx_pieces.simps) simp

lemma remove_tag_empty: "remove_tag [] = []"
  by (simp add: remove_tag_def rx_sub_def rx_pieces_empty)

lemma str_in_empty: "str_in [] s"
  by (cases s) (simp_all add: str_in_def)

lemma naive_merge_text:
  "custom_delimiters [] = [] \<Longrightarrow> naive_merge nt [(s, [])] limit [] percent = [[], CHR 0x0A # s]"
  by (simp add: naive_merge_def add_chunk_def Let_def overlap_tail_def remove_tag_empty str_in_empty)

lemma custom_delimiters_none: "custom_delimiters [] = []"
  by (simp add: custom_delimiters_def rx_pieces_empty)

text \<open>In the token-size mode, with no delimiter between backticks (the defaults), a text, markdown or HTML
  payload is never split, whatever its length and the chunk size: it comes out as one chunk.\<close>

theorem token_size_never_splits_text:
  assumes "compile_delimiter_pattern (kp_delimiters p) = []" and "kp_children p = []"
    and "kp_mode p \<noteq> PStr ''one''" and "strip payload \<noteq> []"
  shows "text_chunks env p payload = [PDict [(''text'', PStr (strip payload))]]"
proof -
  have "payload \<noteq> []" using assms(4) by (auto simp: strip_def strip_chars_def)
  moreover have "literal_pattern [] = []" by (simp add: literal_pattern_def)
  moreover have "strip [] = []" by (simp add: strip_def strip_chars_def)
  ultimately show ?thesis using assms
    by (simp add: text_chunks_def Let_def naive_merge_text [OF custom_delimiters_none] strip_newline)
qed

definition demo_token_param :: token_param where
  "demo_token_param = \<lparr>kp_mode = PStr ''token_size'', kp_size = 2, kp_delimiters = [[CHR 0x0A]], kp_overlap = PInt 0,
     kp_children = [], kp_table_context = 0, kp_image_context = 0\<rparr>"

theorem token_size_never_splits_text_witness:
  "text_chunks \<lparr>ke_num_tokens = length, ke_previews = (\<lambda>cs. cs)\<rparr> demo_token_param (''one two. '' @ [CHR 0x0A] @ ''three'')
    = [PDict [(''text'', PStr (''one two. '' @ [CHR 0x0A] @ ''three''))]]"
proof -
  have "compile_delimiter_pattern (kp_delimiters demo_token_param) = []" "kp_children demo_token_param = []"
    "kp_mode demo_token_param \<noteq> PStr ''one''" by (code_simp)+
  moreover have "strip (''one two. '' @ [CHR 0x0A] @ ''three'') = ''one two. '' @ [CHR 0x0A] @ ''three''" by code_simp
  ultimately show ?thesis
    using token_size_never_splits_text [of demo_token_param "''one two. '' @ [CHR 0x0A] @ ''three''"] by simp
qed

section \<open>Merging loses nothing\<close>

definition flat_text :: "token_chunk \<Rightarrow> string" where
  "flat_text c = filter (\<lambda>x. x \<noteq> CHR 0x0A) (tk_text c)"

definition media_chunks :: "token_chunk list \<Rightarrow> token_chunk list" where
  "media_chunks cs = filter (\<lambda>c. tk_type c \<noteq> ''text'') cs"

text \<open>The open chunk is the last one, and it is text.\<close>

definition open_last :: "token_chunk list \<times> nat option \<Rightarrow> bool" where
  "open_last st = (case st of (merged, None) \<Rightarrow> True
     | (merged, Some i) \<Rightarrow> (\<exists>ms m. merged = ms @ [m] \<and> i = length ms \<and> tk_type m = ''text''))"

lemma merge_into_parts:
  "tk_type (merge_into c d) = tk_type c" "tk_positions (merge_into c d) = tk_positions c @ tk_positions d"
  "tk_nums (merge_into c d) = tk_nums c + tk_nums d" "flat_text (merge_into c d) = flat_text c @ flat_text d"
  by (simp_all add: merge_into_def flat_text_def join_texts_def)

lemma merge_step_keeps:
  assumes "open_last st"
  shows "open_last (merge_step nt limit percent c st)
    \<and> media_chunks (fst (merge_step nt limit percent c st)) = media_chunks (fst st @ [c])
    \<and> concat (map tk_positions (fst (merge_step nt limit percent c st))) = concat (map tk_positions (fst st @ [c]))"
proof -
  obtain merged prev where st: "st = (merged, prev)" by (cases st)
  show ?thesis
  proof (cases "tk_type c = ''text'' \<and> prev \<noteq> None")
    case True
    then obtain ms m where "merged = ms @ [m]" "prev = Some (length ms)" "tk_type m = ''text''"
      using assms st by (auto simp: open_last_def)
    then show ?thesis using True
      by (simp add: st merge_step_def open_last_def media_chunks_def merge_into_parts nth_append list_update_append Let_def)
  next
    case False
    then show ?thesis by (auto simp: st merge_step_def open_last_def media_chunks_def)
  qed
qed

lemma merge_step_keeps_text:
  assumes "open_last st"
  shows "concat (map flat_text (fst (merge_step nt limit 0 c st))) = concat (map flat_text (fst st @ [c]))
    \<and> sum_list (map tk_nums (fst (merge_step nt limit 0 c st))) = sum_list (map tk_nums (fst st @ [c]))"
proof -
  obtain merged prev where st: "st = (merged, prev)" by (cases st)
  show ?thesis
  proof (cases "tk_type c = ''text'' \<and> prev \<noteq> None")
    case True
    then obtain ms m where "merged = ms @ [m]" "prev = Some (length ms)"
      using assms st by (auto simp: open_last_def)
    then show ?thesis using True
      by (simp add: st merge_step_def merge_into_parts nth_append list_update_append Let_def)
  next
    case False
    then show ?thesis by (auto simp: st merge_step_def)
  qed
qed

lemma merge_fold_keeps:
  assumes "open_last st"
  shows "media_chunks (fst (fold (merge_step nt limit percent) cs st)) = media_chunks (fst st @ cs)
    \<and> concat (map tk_positions (fst (fold (merge_step nt limit percent) cs st))) = concat (map tk_positions (fst st @ cs))"
  using assms
proof (induction cs arbitrary: st)
  case Nil
  then show ?case by simp
next
  case (Cons c cs)
  have "open_last (merge_step nt limit percent c st)" using merge_step_keeps [OF Cons.prems] by blast
  from Cons.IH [OF this] merge_step_keeps [OF Cons.prems, of nt limit percent c] show ?case
    by (simp add: media_chunks_def)
qed

lemma merge_fold_keeps_text:
  assumes "open_last st"
  shows "concat (map flat_text (fst (fold (merge_step nt limit 0) cs st))) = concat (map flat_text (fst st @ cs))
    \<and> sum_list (map tk_nums (fst (fold (merge_step nt limit 0) cs st))) = sum_list (map tk_nums (fst st @ cs))"
  using assms
proof (induction cs arbitrary: st)
  case Nil
  then show ?case by simp
next
  case (Cons c cs)
  have "open_last (merge_step nt limit 0 c st)" using merge_step_keeps [OF Cons.prems] by blast
  from Cons.IH [OF this] merge_step_keeps_text [OF Cons.prems, of nt limit c] show ?case by simp
qed

text \<open>C27: Merging by token size keeps every table and image where it was and as it was, and every position; and
  without overlap it keeps the whole text, up to the line breaks it adds between joined chunks, and the
  token total.\<close>

theorem merge_by_tokens_loses_nothing:
  "filter (\<lambda>c. tk_type c \<noteq> ''text'') (merge_text_chunks_by_token_size nt limit percent cs) = filter (\<lambda>c. tk_type c \<noteq> ''text'') cs
    \<and> concat (map tk_positions (merge_text_chunks_by_token_size nt limit percent cs)) = concat (map tk_positions cs)
    \<and> concat (map (\<lambda>c. filter (\<lambda>x. x \<noteq> CHR 0x0A) (tk_text c)) (merge_text_chunks_by_token_size nt limit 0 cs))
      = concat (map (\<lambda>c. filter (\<lambda>x. x \<noteq> CHR 0x0A) (tk_text c)) cs)
    \<and> sum_list (map tk_nums (merge_text_chunks_by_token_size nt limit 0 cs)) = sum_list (map tk_nums cs)"
proof -
  have start: "open_last ([], None)" by (simp add: open_last_def)
  show ?thesis
    using merge_fold_keeps [OF start, of nt limit percent cs] merge_fold_keeps_text [OF start, of nt limit cs]
    unfolding merge_text_chunks_by_token_size_def media_chunks_def flat_text_def [abs_def] fst_conv append_Nil by blast
qed

end
