(* ===== verification/ChunkFeedback.thy ===== *)
theory ChunkFeedback
  imports RedisStore
begin

text \<open>
  User feedback on the chunks an answer cites, after \<^verbatim>\<open>api/db/services/chunk_feedback_service.py\<close>: the
  chunks a reference names, the split of a feedback unit over them, and the update of their weights in
  the document store, whose operations are a record of functions on its state. Floats are exact
  rationals; a score that is no finite number does not parse here, as \<open>isfinite\<close> excludes it there.
\<close>

section \<open>The split of a unit\<close>

definition score_keys :: "string list" where
  "score_keys = [''similarity'', ''vector_similarity'', ''term_similarity'']"

definition retrieval_signal :: "pdict \<Rightarrow> rat" where
  "retrieval_signal chunk = fold (\<lambda>key best. let raw = get_none chunk key in
     if raw = PNone then best else (case py_float raw of Inl e \<Rightarrow> best | Inr v \<Rightarrow> if v > best then v else best)) score_keys 0"

definition bump :: "nat \<Rightarrow> int list \<Rightarrow> int list res" where
  "bump i xs = (if i < length xs then Inr (xs[i := xs ! i + 1]) else raise IndexError ''list index out of range'')"

text \<open>The positions by falling remainder; equal remainders keep their order.\<close>

definition by_remainder :: "rat list \<Rightarrow> nat list" where
  "by_remainder raw = sort_key (\<lambda>i. - frac (raw ! i)) [0..<length raw]"

definition split_integer_budget :: "rat list \<Rightarrow> int \<Rightarrow> int list res" where
  "split_integer_budget magnitudes budget =
     (let n = length magnitudes; total = sum_list magnitudes in
      if n = 0 \<or> budget = 0 then Inr (replicate n 0)
      else if total \<le> 0 then
        fold_res bump [0..<nat (budget mod int n)] (replicate n (budget div int n))
      else
        let raw = map (\<lambda>m. of_int budget * m / total) magnitudes;
            floors = map floor raw;
            remainder = budget - sum_list floors;
            order = by_remainder raw
        in fold_res (\<lambda>j fl. if j < length order then bump (order ! j) fl else raise IndexError ''list index out of range'')
             [0..<nat remainder] floors)"

type_synonym chunk_row = "pyval \<times> pyval \<times> pdict"

definition allocate_deltas_uniform :: "(pyval \<times> pyval) list \<Rightarrow> int \<Rightarrow> (pyval \<times> pyval \<times> int) list" where
  "allocate_deltas_uniform rows signed_budget =
     (let step = (if signed_budget > 0 then 1 else - 1) in map (\<lambda>(cid, kb). (cid, kb, step)) rows)"

definition magnitude :: "pdict \<Rightarrow> rat" where
  "magnitude chunk = (let s = retrieval_signal chunk in if s > 0 then s else 1)"

definition allocate_deltas_relevance :: "chunk_row list \<Rightarrow> int \<Rightarrow> (pyval \<times> pyval \<times> int) list res" where
  "allocate_deltas_relevance rows signed_budget =
     (if rows = [] then Inr []
      else let magnitudes0 = map (\<lambda>(cid, kb, ch). magnitude ch) rows;
               magnitudes = (if sum_list magnitudes0 \<le> 0 then replicate (length rows) 1 else magnitudes0);
               sign = (if signed_budget > 0 then 1 else - 1)
           in try_then (split_integer_budget magnitudes \<bar>signed_budget\<bar>) (\<lambda>parts.
                if length parts \<noteq> length rows then raise ValueError ''zip() argument 2 is shorter than argument 1''
                else Inr (map (\<lambda>((cid, kb, ch), p). (cid, kb, sign * p)) (zip rows parts))))"

section \<open>The chunks of a reference\<close>

definition row_of_chunk :: "pyval \<Rightarrow> chunk_row list res" where
  "row_of_chunk chunk = try_then (as_dict ''get'' chunk) (\<lambda>d.
     let cid = py_or (get_none d ''id'') (get_none d ''chunk_id'');
         kb = py_or (get_none d ''dataset_id'') (get_none d ''kb_id'')
     in Inr (if truthy cid \<and> truthy kb then [(cid, kb, d)] else []))"

definition feedback_rows_from_reference :: "pyval \<Rightarrow> chunk_row list res" where
  "feedback_rows_from_reference reference =
     (if \<not> truthy reference then Inr []
      else try_then (get_method reference ''chunks'' (PList [])) (\<lambda>chunks. try_then (py_iter chunks) (\<lambda>cs.
        try_then (map_res row_of_chunk cs) (\<lambda>rs. Inr (concat rs)))))"

section \<open>The document store\<close>

text \<open>
  The connection: the engine it runs on, its atomic adjustment of a weight when it has one (chunk, index,
  knowledge base, step, row), reading a chunk (None when there is none) and updating one (condition, new
  value, index, knowledge base). An operation may raise.
\<close>

record 's doc_store =
  ds_engine :: string
  ds_adjust :: "(pyval \<Rightarrow> string \<Rightarrow> pyval \<Rightarrow> rat \<Rightarrow> rat \<Rightarrow> rat \<Rightarrow> int option \<Rightarrow> ('s, bool) act) option"
  ds_get :: "pyval \<Rightarrow> string \<Rightarrow> pyval list \<Rightarrow> ('s, pyval) act"
  ds_update :: "pdict \<Rightarrow> pdict \<Rightarrow> string \<Rightarrow> pyval \<Rightarrow> ('s, bool) act"

definition index_name :: "string \<Rightarrow> string" where
  "index_name uid = ''ragflow_'' @ uid"

definition min_pagerank_weight :: rat where
  "min_pagerank_weight = 0"

definition max_pagerank_weight :: rat where
  "max_pagerank_weight = 100"

definition clamp :: "rat \<Rightarrow> rat" where
  "clamp w = max min_pagerank_weight (min max_pagerank_weight w)"

definition new_weight_value :: "string \<Rightarrow> rat \<Rightarrow> pdict" where
  "new_weight_value engine w =
     (if w \<le> 0 \<and> lower engine \<in> {''elasticsearch'', ''opensearch''} then [(''remove'', PStr ''pagerank_fea'')]
      else [(''pagerank_fea'', PFloat w)])"

definition update_chunk_weight ::
    "'s doc_store \<Rightarrow> string \<Rightarrow> pyval \<Rightarrow> pyval \<Rightarrow> int \<Rightarrow> int option \<Rightarrow> ('s, bool) act" where
  "update_chunk_weight ds tenant cid kb delta row_id = try_except
     (let idx = index_name tenant in case ds_adjust ds of
        Some adjust \<Rightarrow> adjust cid idx kb (of_int delta) min_pagerank_weight max_pagerank_weight row_id
      | None \<Rightarrow> bnd (ds_get ds cid idx [kb]) (\<lambda>chunk.
          if \<not> truthy chunk then ret False
          else bnd (lift (try_then (get_method chunk ''pagerank_fea'' (PInt 0)) (\<lambda>w. py_float (py_or w (PInt 0))))) (\<lambda>current.
            ds_update ds [(''id'', cid)] (new_weight_value (ds_engine ds) (clamp (current + of_int delta))) idx kb)))
     (\<lambda>e. ret False)"

section \<open>Feedback\<close>

record feedback_settings =
  fb_enabled :: bool
  fb_weighting :: string

definition row_id_of :: "chunk_row list \<Rightarrow> pyval \<Rightarrow> int option" where
  "row_id_of rows cid = (case find (\<lambda>r. py_eq (fst r) cid) (rev rows) of
     None \<Rightarrow> None
   | Some (c, kb, ch) \<Rightarrow> (let rid = get_none ch ''row_id'' in
       if rid = PNone then None else (case py_int rid of Inl e \<Rightarrow> None | Inr i \<Rightarrow> Some i)))"

fun apply_deltas ::
    "'s doc_store \<Rightarrow> string \<Rightarrow> chunk_row list \<Rightarrow> (pyval \<times> pyval \<times> int) list \<Rightarrow> nat \<Rightarrow> nat \<Rightarrow> ('s, nat \<times> nat) act" where
  "apply_deltas ds tenant rows [] ok bad = ret (ok, bad)"
| "apply_deltas ds tenant rows ((cid, kb, delta) # ds') ok bad =
     (if delta = 0 then apply_deltas ds tenant rows ds' ok bad
      else bnd (update_chunk_weight ds tenant cid kb delta (row_id_of rows cid)) (\<lambda>success.
        if success then apply_deltas ds tenant rows ds' (Suc ok) bad else apply_deltas ds tenant rows ds' ok (Suc bad)))"

definition feedback_result :: "nat \<Rightarrow> nat \<Rightarrow> pyval list \<Rightarrow> pdict" where
  "feedback_result ok bad ids = [(''success_count'', PInt (int ok)), (''fail_count'', PInt (int bad)), (''chunk_ids'', PList ids)]"

definition apply_feedback :: "'s doc_store \<Rightarrow> feedback_settings \<Rightarrow> string \<Rightarrow> pyval \<Rightarrow> bool \<Rightarrow> ('s, pdict) act" where
  "apply_feedback ds cfg tenant reference is_positive =
     (if \<not> fb_enabled cfg then ret (feedback_result 0 0 [] @ [(''disabled'', PBool True)])
      else bnd (lift (feedback_rows_from_reference reference)) (\<lambda>rows.
        let ids = map fst rows; signed_budget = (if is_positive then 1 else - 1) in
        if ids = [] then ret (feedback_result 0 0 [])
        else bnd (lift (if fb_weighting cfg = ''uniform'' then Inr (allocate_deltas_uniform (map (\<lambda>(c, k, d). (c, k)) rows) signed_budget)
               else allocate_deltas_relevance rows signed_budget)) (\<lambda>deltas.
          bnd (lift (case find (\<lambda>c. \<not> usable_key c) ids of Some c \<Rightarrow> bad_key c | None \<Rightarrow> Inr ())) (\<lambda>_.
          bnd (apply_deltas ds tenant rows deltas 0 0) (\<lambda>(ok, bad). ret (feedback_result ok bad ids))))))"

section \<open>The split is exact\<close>

lemma fold_bump:
  "distinct ps \<Longrightarrow> set ps \<subseteq> {..<length xs} \<Longrightarrow>
    fold_res bump ps xs = Inr (map (\<lambda>i. xs ! i + of_bool (i \<in> set ps)) [0..<length xs])"
proof (induction ps arbitrary: xs)
  case Nil
  then show ?case by (simp add: map_nth)
next
  case (Cons p ps)
  then have "bump p xs = Inr (xs[p := xs ! p + 1])" by (simp add: bump_def)
  then have "fold_res bump (p # ps) xs
      = Inr (map (\<lambda>i. xs[p := xs ! p + 1] ! i + of_bool (i \<in> set ps)) [0..<length xs])"
    using Cons.IH [of "xs[p := xs ! p + 1]"] Cons.prems by simp
  also have "\<dots> = Inr (map (\<lambda>i. xs ! i + of_bool (i \<in> set (p # ps))) [0..<length xs])"
    using Cons.prems by (auto simp: nth_list_update)
  finally show ?case .
qed

lemma fold_order: "k \<le> length order \<Longrightarrow>
  fold_res (\<lambda>j fl. if j < length order then bump (order ! j) fl else raise IndexError ''list index out of range'') [0..<k] xs
    = fold_res bump (take k order) xs"
  by (induction k) (simp_all add: fold_res_append take_Suc_conv_app_nth try_then_Inr_iff cong: try_then_cong)

lemma sum_bumped:
  assumes "distinct ps" and "set ps \<subseteq> {..<n}"
  shows "(\<Sum>i\<leftarrow>[0..<n]. f i + of_bool (i \<in> set ps)) = (\<Sum>i\<leftarrow>[0..<n]. f i) + (int (length ps))"
proof -
  have "(\<Sum>i\<leftarrow>[0..<n]. of_bool (i \<in> set ps)) = int (card (set ps \<inter> {0..<n}))"
    by (subst sum_list_distinct_conv_sum_set) (auto simp: Int_commute Int_def)
  moreover have "set ps \<inter> {0..<n} = set ps" using assms(2) by auto
  ultimately show ?thesis using assms(1) by (simp add: sum_list_addf distinct_card)
qed

lemma by_remainder_perm: "distinct (by_remainder raw)" "set (by_remainder raw) = {..<length raw}" "length (by_remainder raw) = length raw"
  by (auto simp: by_remainder_def)

lemma by_remainder_falls:
  assumes "j \<le> k" and "k < length raw"
  shows "frac (raw ! (by_remainder raw ! k)) \<le> frac (raw ! (by_remainder raw ! j))"
proof -
  have "sorted (map (\<lambda>i. - frac (raw ! i)) (by_remainder raw))" unfolding by_remainder_def by (rule sorted_sort_key)
  then have "map (\<lambda>i. - frac (raw ! i)) (by_remainder raw) ! j \<le> map (\<lambda>i. - frac (raw ! i)) (by_remainder raw) ! k"
    by (rule sorted_nth_mono) (use assms by_remainder_perm(3) in auto)
  then show ?thesis using assms by (simp add: by_remainder_perm(3))
qed

text \<open>The remainders add up to what is left after rounding down, so only positions with a remainder get a unit more.\<close>

lemma frac_sum:
  fixes raw :: "rat list"
  assumes "sum_list raw = of_int b"
  shows "of_int (b - sum_list (map floor raw)) = (\<Sum>i\<leftarrow>by_remainder raw. frac (raw ! i))"
proof -
  have "(\<Sum>i\<leftarrow>by_remainder raw. frac (raw ! i)) = (\<Sum>i<length raw. frac (raw ! i))"
    using by_remainder_perm(1,2) [of raw] by (simp add: sum_list_distinct_conv_sum_set)
  also have "\<dots> = (\<Sum>i<length raw. raw ! i) - (\<Sum>i<length raw. of_int \<lfloor>raw ! i\<rfloor>)"
    by (simp add: frac_def sum_subtractf)
  also have "(\<Sum>i<length raw. raw ! i) = sum_list raw" by (simp add: sum_list_sum_nth atLeast0LessThan)
  also have "(\<Sum>i<length raw. of_int \<lfloor>raw ! i\<rfloor> :: rat) = of_int (sum_list (map floor raw))"
    by (simp add: sum_list_sum_nth atLeast0LessThan)
  finally show ?thesis using assms by simp
qed

lemma sum_take_less:
  fixes f :: "nat \<Rightarrow> rat"
  assumes "\<And>i. f i < 1" and "xs \<noteq> []"
  shows "(\<Sum>i\<leftarrow>xs. f i) < of_nat (length xs)"
  using assms(2)
proof (induction xs rule: list_nonempty_induct)
  case (single x)
  then show ?case using assms(1) by simp
next
  case (cons x xs)
  then show ?case using assms(1) [of x] by simp
qed

lemma remainder_positions:
  fixes raw :: "rat list"
  assumes sum: "sum_list raw = of_int b" and "raw \<noteq> []"
  shows "0 \<le> b - sum_list (map floor raw)" and "nat (b - sum_list (map floor raw)) < length raw"
    and "j < nat (b - sum_list (map floor raw)) \<Longrightarrow> 0 < frac (raw ! (by_remainder raw ! j))"
proof -
  let ?r = "b - sum_list (map floor raw)" and ?o = "by_remainder raw"
  note fs = frac_sum [OF sum]
  have "0 \<le> (\<Sum>i\<leftarrow>?o. frac (raw ! i))" by (rule sum_list_nonneg) (auto simp: frac_ge_0)
  then show r0: "0 \<le> ?r" unfolding fs [symmetric] by simp
  have "?o \<noteq> []" using assms(2) by_remainder_perm(3) [of raw] by auto
  from sum_take_less [OF _ this, of "\<lambda>i. frac (raw ! i)"] have "(of_int ?r :: rat) < of_nat (length raw)"
    unfolding fs by (simp add: frac_lt_1 by_remainder_perm(3))
  then show rn: "nat ?r < length raw" using r0 by linarith
  assume j: "j < nat ?r"
  show "0 < frac (raw ! (?o ! j))"
  proof (rule ccontr)
    assume "\<not> 0 < frac (raw ! (?o ! j))"
    then have "frac (raw ! (?o ! j)) \<le> 0" by (simp only: not_less)
    then have rest: "frac (raw ! (?o ! k)) = 0" if "j \<le> k" "k < length raw" for k
      using by_remainder_falls [OF that] frac_ge_0 [of "raw ! (?o ! k)"] by linarith
    have "frac (raw ! i) = 0" if i: "i \<in> set (drop j ?o)" for i
    proof -
      obtain k where k: "k < length (drop j ?o)" "i = drop j ?o ! k" using i unfolding in_set_conv_nth by blast
      then have "i = ?o ! (j + k)" "j + k < length raw" by (simp_all add: by_remainder_perm(3))
      then show ?thesis using rest [of "j + k"] by (simp only: le_add1)
    qed
    then have "map (\<lambda>i. frac (raw ! i)) (drop j ?o) = map (\<lambda>i. 0) (drop j ?o)" by (intro map_cong refl)
    then have zero: "(\<Sum>i\<leftarrow>drop j ?o. frac (raw ! i)) = 0" by (simp only: sum_list_0)
    have "(\<Sum>i\<leftarrow>take j ?o. frac (raw ! i)) + (\<Sum>i\<leftarrow>drop j ?o. frac (raw ! i)) = of_int ?r"
      unfolding fs by (simp flip: sum_list_append map_append)
    then have "(\<Sum>i\<leftarrow>take j ?o. frac (raw ! i)) = of_int ?r" using zero by simp
    moreover have "(\<Sum>i\<leftarrow>take j ?o. frac (raw ! i)) \<le> of_nat j"
      using sum_take_less [of "\<lambda>i. frac (raw ! i)" "take j ?o"] j rn
      by (cases "take j ?o = []") (auto simp: frac_lt_1 by_remainder_perm(3) less_imp_le)
    ultimately show False using j by linarith
  qed
qed

lemma split_evenly:
  assumes "ms \<noteq> []" and "sum_list ms \<le> 0" and "0 < b"
  shows "\<exists>parts. split_integer_budget ms b = Inr parts \<and> length parts = length ms \<and> sum_list parts = b
    \<and> (\<forall>i < length ms. 0 \<le> parts ! i)"
proof -
  let ?n = "length ms"
  let ?r = "nat (b mod int ?n)" and ?q = "b div int ?n"
  have sub: "set [0..<?r] \<subseteq> {..<?n}"
  proof -
    have "?r < ?n" using assms(1) by (simp add: nat_less_iff)
    then show ?thesis by auto
  qed
  then have "set [0..<?r] \<subseteq> {..<length (replicate ?n ?q)}" by simp
  from fold_bump [OF distinct_upt this]
  have "fold_res bump [0..<?r] (replicate ?n ?q) = Inr (map (\<lambda>i. ?q + of_bool (i \<in> set [0..<?r])) [0..<?n])"
    by (simp cong: map_cong)
  moreover have "(\<Sum>i\<leftarrow>[0..<?n]. ?q + of_bool (i \<in> set [0..<?r])) = b"
    unfolding sum_bumped [OF distinct_upt sub] using assms(1) by (simp add: sum_list_triv)
  moreover have "0 \<le> ?q" using assms(1,3) by (simp add: pos_imp_zdiv_nonneg_iff)
  ultimately show ?thesis using assms by (simp add: split_integer_budget_def Let_def)
qed

lemma sum_shares: "0 < sum_list ms \<Longrightarrow> sum_list (map (\<lambda>m. of_int b * m / sum_list ms) ms) = (of_int b :: rat)"
proof -
  have "sum_list (map (\<lambda>m. of_int b * m / t) ms) = of_int b * sum_list ms / t" for t
    by (induction ms) (simp_all add: add_divide_distrib distrib_left)
  then show "0 < sum_list ms \<Longrightarrow> ?thesis" by simp
qed

lemma split_by_share:
  fixes ms :: "rat list"
  defines "raw \<equiv> \<lambda>b. map (\<lambda>m. of_int b * m / sum_list ms) ms"
  assumes "ms \<noteq> []" and "0 < sum_list ms" and "0 < b"
  shows "split_integer_budget ms b = Inr (map (\<lambda>i. \<lfloor>raw b ! i\<rfloor>
      + of_bool (i \<in> set (take (nat (b - sum_list (map floor (raw b)))) (by_remainder (raw b))))) [0..<length ms])"
    and "sum_list (map (\<lambda>i. \<lfloor>raw b ! i\<rfloor>
      + of_bool (i \<in> set (take (nat (b - sum_list (map floor (raw b)))) (by_remainder (raw b))))) [0..<length ms]) = b"
proof -
  let ?raw = "raw b" and ?n = "length ms"
  let ?fl = "map floor ?raw" and ?o = "by_remainder ?raw"
  let ?r = "nat (b - sum_list ?fl)"
  have sum: "sum_list ?raw = of_int b" unfolding raw_def by (rule sum_shares [OF assms(3)])
  have len: "length ?raw = ?n" by (simp add: raw_def)
  have "?raw \<noteq> []" using assms(2) by (simp add: raw_def)
  note rem = remainder_positions [OF sum this, unfolded len]
  have ps: "distinct (take ?r ?o)" "set (take ?r ?o) \<subseteq> {..<?n}"
    using by_remainder_perm(1,2) [of ?raw] len by (auto dest: in_set_takeD)
  have "?r \<le> length ?o" using rem(2) len by (simp add: by_remainder_perm(3))
  note fold_order [OF this, of ?fl]
  moreover have "set (take ?r ?o) \<subseteq> {..<length ?fl}" using ps(2) len by simp
  note fold_bump [OF ps(1) this]
  moreover have "map (\<lambda>i. ?fl ! i + of_bool (i \<in> set (take ?r ?o))) [0..<length ?fl]
      = map (\<lambda>i. \<lfloor>?raw ! i\<rfloor> + of_bool (i \<in> set (take ?r ?o))) [0..<?n]"
    using len by (intro map_cong) simp_all
  ultimately show "split_integer_budget ms b = Inr (map (\<lambda>i. \<lfloor>?raw ! i\<rfloor> + of_bool (i \<in> set (take ?r ?o))) [0..<?n])"
    using assms(2-4) unfolding split_integer_budget_def Let_def raw_def by simp
  have "map (\<lambda>i. \<lfloor>?raw ! i\<rfloor>) [0..<?n] = ?fl" by (rule nth_equalityI) (simp_all add: len)
  then show "sum_list (map (\<lambda>i. \<lfloor>?raw ! i\<rfloor> + of_bool (i \<in> set (take ?r ?o))) [0..<?n]) = b"
    unfolding sum_bumped [OF ps] using rem(1,2) len by (simp add: by_remainder_perm(3))
qed

text \<open>A whole number of units is split over magnitudes without loss: the parts are not negative, add up to the
  budget, and each is less than one unit away from its exact share.\<close>

theorem split_budget_exact:
  assumes "ms \<noteq> []" and "list_all (\<lambda>m. 0 \<le> m) ms" and "0 \<le> b"
  shows "\<exists>parts. split_integer_budget ms b = Inr parts \<and> length parts = length ms \<and> sum_list parts = b
    \<and> (\<forall>i < length ms. 0 \<le> parts ! i \<and> (0 < sum_list ms \<longrightarrow> \<bar>of_int (parts ! i) - of_int b * ms ! i / sum_list ms\<bar> < 1))"
proof -
  consider "b = 0" | "0 < b" "sum_list ms \<le> 0" | "0 < b" "0 < sum_list ms" using assms(3) by linarith
  then show ?thesis
  proof cases
    case 1
    then show ?thesis using assms(1) by (simp add: split_integer_budget_def sum_list_replicate)
  next
    case 2
    then show ?thesis using split_evenly [OF assms(1) 2(2,1)] by auto
  next
    case 3
    let ?raw = "map (\<lambda>m. of_int b * m / sum_list ms) ms"
    let ?ps = "set (take (nat (b - sum_list (map floor ?raw))) (by_remainder ?raw))"
    have "?raw \<noteq> []" using assms(1) by simp
    note rem = remainder_positions(3) [OF sum_shares [OF 3(2)] this]
    have "0 \<le> \<lfloor>?raw ! i\<rfloor> + of_bool (i \<in> ?ps) \<and> \<bar>of_int (\<lfloor>?raw ! i\<rfloor> + of_bool (i \<in> ?ps)) - ?raw ! i\<bar> < 1"
      if i: "i < length ms" for i
    proof -
      have "0 \<le> \<lfloor>?raw ! i\<rfloor>" using assms(2) 3 i by (simp add: list_all_length)
      moreover have "0 < frac (?raw ! i)" if "i \<in> ?ps" using that rem unfolding in_set_conv_nth by auto
      ultimately show ?thesis using frac_lt_1 [of "?raw ! i"] frac_ge_0 [of "?raw ! i"] by (auto simp: frac_def)
    qed
    then show ?thesis using split_by_share [OF assms(1) 3(2,1)] by auto
  qed
qed

theorem split_budget_exact_witness:
  "\<exists>parts. split_integer_budget [1 / 2, 1 / 3, 0, 7 / 6] 5 = Inr parts \<and> sum_list parts = 5 \<and> parts ! 2 = 0"
proof -
  let ?ms = "[1 / 2, 1 / 3, 0, 7 / 6] :: rat list"
  have "?ms \<noteq> []" "list_all (\<lambda>m. 0 \<le> m) ?ms" "0 \<le> (5 :: int)" by simp_all
  from split_budget_exact [OF this] obtain parts where p: "split_integer_budget ?ms 5 = Inr parts" "sum_list parts = 5"
      "\<forall>i < length ?ms. 0 \<le> parts ! i \<and> (0 < sum_list ?ms \<longrightarrow> \<bar>of_int (parts ! i) - of_int 5 * ?ms ! i / sum_list ?ms\<bar> < 1)"
    by blast
  have "?ms ! 2 = 0" "2 < length ?ms" "0 < sum_list ?ms" by simp_all
  with p(3) have "0 \<le> parts ! 2" "\<bar>of_int (parts ! 2) :: rat\<bar> < 1" by (metis mult_zero_right div_0 diff_zero)+
  then have "parts ! 2 = 0" by linarith
  with p show ?thesis by blast
qed

section \<open>A single unit\<close>

lemma first_by_remainder:
  assumes "raw \<noteq> []"
  defines "i \<equiv> by_remainder raw ! 0"
  shows "i < length raw" and "j < length raw \<Longrightarrow> frac (raw ! j) \<le> frac (raw ! i)"
    and "j < i \<Longrightarrow> frac (raw ! j) < frac (raw ! i)"
proof -
  let ?f = "\<lambda>i. - frac (raw ! i)" and ?o = "by_remainder raw"
  have o: "?o \<noteq> []" using assms(1) by_remainder_perm(3) [of raw] by auto
  have "i \<in> set ?o" unfolding i_def using o by (intro nth_mem) simp
  then show il: "i < length raw" by (simp add: by_remainder_perm(2))
  have top: "frac (raw ! j) \<le> frac (raw ! i)" if "j < length raw" for j
  proof -
    have "j \<in> set ?o" using that by (simp add: by_remainder_perm(2))
    then obtain k where "k < length raw" "j = ?o ! k" unfolding in_set_conv_nth by (auto simp: by_remainder_perm(3))
    then show ?thesis unfolding i_def using by_remainder_falls [of 0 k raw] by (simp only: le0)
  qed
  then show "j < length raw \<Longrightarrow> frac (raw ! j) \<le> frac (raw ! i)" .
  assume ji: "j < i"
  show "frac (raw ! j) < frac (raw ! i)"
  proof (rule ccontr)
    assume "\<not> ?thesis"
    then have same: "?f j = ?f i" using top [of j] ji il by (simp only: not_less) linarith
    have "filter (\<lambda>k. ?f k = ?f i) ?o = filter (\<lambda>k. ?f k = ?f i) [0..<length raw]"
      unfolding by_remainder_def by (rule sort_key_stable)
    moreover have "hd (filter (\<lambda>k. ?f k = ?f i) ?o) = i" unfolding i_def using o by (cases ?o) simp_all
    moreover have "[0..<length raw] = [0..<i] @ i # [Suc i..<length raw]" using il upt_add_eq_append [of 0 i "length raw - i"] upt_conv_Cons [of i "length raw"] by simp
    moreover have "filter (\<lambda>k. ?f k = ?f i) [0..<i] \<noteq> []" using ji same by (auto simp: filter_empty_conv)
    ultimately have "i \<in> set (filter (\<lambda>k. ?f k = ?f i) [0..<i])" by (metis filter_append hd_append2 hd_in_set)
    then show False by simp
  qed
qed

lemma sum_positive: "list_all (\<lambda>m. 0 < m) xs \<Longrightarrow> xs \<noteq> [] \<Longrightarrow> 0 < sum_list (xs :: rat list)"
  by (induction xs rule: induct_list012) (auto intro: add_pos_pos)

lemma member_below_sum:
  fixes ms :: "rat list"
  assumes "list_all (\<lambda>m. 0 < m) ms" and "m \<in> set ms" and "length ms \<noteq> 1"
  shows "m < sum_list ms"
proof -
  obtain a b where ms: "ms = a @ m # b" using assms(2) by (auto simp: in_set_conv_decomp)
  then have "0 \<le> sum_list a" "0 \<le> sum_list b" "0 < sum_list a \<or> 0 < sum_list b"
    using assms sum_positive [of a] sum_positive [of b] by (auto simp: sum_list_nonneg less_imp_le list_all_iff)
  then show ?thesis using ms by auto
qed

lemma split_one_unit:
  assumes "ms \<noteq> []" and pos: "list_all (\<lambda>m. 0 < m) ms"
  shows "\<exists>i < length ms. split_integer_budget ms 1 = Inr (map (\<lambda>j. of_bool (j = i)) [0..<length ms])
    \<and> (\<forall>j < length ms. ms ! j \<le> ms ! i) \<and> (\<forall>j < i. ms ! j < ms ! i)"
proof -
  let ?t = "sum_list ms" and ?n = "length ms"
  let ?raw = "map (\<lambda>m. m / ?t) ms"
  have "0 \<le> ?t" "?t \<noteq> 0"
    using assms by (auto simp: sum_list_nonneg less_imp_le list_all_iff sum_list_nonneg_eq_0_iff neq_Nil_conv)
  then have t: "0 < ?t" by simp
  have raw: "map (\<lambda>m. of_int 1 * m / ?t) ms = ?raw" by simp
  note split = split_by_share [OF assms(1) t, of 1, unfolded raw]
  show ?thesis
  proof (cases "?n = 1")
    case True
    then obtain m where "ms = [m]" by (cases ms) auto
    then show ?thesis using split(1) t by (auto intro!: exI [of _ 0])
  next
    case False
    let ?i = "by_remainder ?raw ! 0"
    have small: "0 < ?raw ! j \<and> ?raw ! j < 1" if "j < ?n" for j
      using that pos t member_below_sum [OF pos nth_mem [OF that] False] by (simp add: list_all_length)
    then have fl: "\<lfloor>?raw ! j\<rfloor> = 0" "frac (?raw ! j) = ?raw ! j" if "j < ?n" for j
      using that by (simp_all add: floor_eq_iff frac_eq less_imp_le)
    have "map floor ?raw = replicate ?n 0" by (rule nth_equalityI) (use fl(1) in auto)
    then have one: "nat (1 - sum_list (map floor ?raw)) = 1" by (simp add: sum_list_replicate)
    have o: "by_remainder ?raw \<noteq> []" using assms(1) by_remainder_perm(3) [of ?raw] by auto
    then have first: "set (take 1 (by_remainder ?raw)) = {?i}" by (cases "by_remainder ?raw") simp_all
    have "split_integer_budget ms 1 = Inr (map (\<lambda>j. of_bool (j = ?i)) [0..<?n])"
    proof -
      have "map (\<lambda>j. \<lfloor>?raw ! j\<rfloor> + of_bool (j \<in> {?i})) [0..<?n] = map (\<lambda>j. of_bool (j = ?i)) [0..<?n]"
      proof (intro map_cong refl)
        fix j
        assume "j \<in> set [0..<?n]"
        then have "\<lfloor>?raw ! j\<rfloor> = 0" by (intro fl(1)) simp
        then show "\<lfloor>?raw ! j\<rfloor> + of_bool (j \<in> {?i}) = of_bool (j = ?i)" by (simp only: singleton_iff add_0)
      qed
      with split(1) [unfolded one first] show ?thesis by (simp only:)
    qed
    moreover have "?i < ?n" "j < ?n \<Longrightarrow> ?raw ! j \<le> ?raw ! ?i" "j < ?i \<Longrightarrow> ?raw ! j < ?raw ! ?i" for j
      using first_by_remainder [of ?raw] assms(1) fl(2) by (auto simp del: nth_map)
    moreover have "?raw ! j = ms ! j / ?t" if "j < ?n" for j using that by simp
    ultimately show ?thesis using t by (intro exI [of _ ?i]) (auto simp: divide_le_cancel divide_less_cancel)
  qed
qed

section \<open>What feedback changes\<close>

definition row_magnitude :: "chunk_row \<Rightarrow> rat" where
  "row_magnitude r = magnitude (snd (snd r))"

text \<open>The first of the chunks that were retrieved with the highest score.\<close>

definition best_row :: "chunk_row list \<Rightarrow> nat \<Rightarrow> bool" where
  "best_row rows i = (i < length rows \<and> (\<forall>j < length rows. row_magnitude (rows ! j) \<le> row_magnitude (rows ! i))
     \<and> (\<forall>j < i. row_magnitude (rows ! j) < row_magnitude (rows ! i)))"

lemma relevance_unit:
  assumes "rows \<noteq> []" and "sb \<in> {1, - 1}"
  shows "\<exists>i. best_row rows i \<and> allocate_deltas_relevance rows sb
    = Inr (map (\<lambda>j. (fst (rows ! j), fst (snd (rows ! j)), if j = i then sb else 0)) [0..<length rows])"
proof -
  let ?ms = "map (\<lambda>(cid, kb, ch). magnitude ch) rows"
  have pos: "list_all (\<lambda>m. 0 < m) ?ms" by (auto simp: list_all_iff magnitude_def Let_def)
  have ms: "?ms \<noteq> []" "length ?ms = length rows" using assms(1) by simp_all
  have "0 < sum_list ?ms"
    by (rule sum_positive [OF pos ms(1)])
  then have not_even: "(if sum_list ?ms \<le> 0 then replicate (length rows) 1 else ?ms) = ?ms" by simp
  obtain i where i: "i < length rows" "split_integer_budget ?ms 1 = Inr (map (\<lambda>j. of_bool (j = i)) [0..<length rows])"
      "\<forall>j < length rows. ?ms ! j \<le> ?ms ! i" "\<forall>j < i. ?ms ! j < ?ms ! i"
    using split_one_unit [OF ms(1) pos] unfolding ms(2) by blast
  have "?ms ! j = row_magnitude (rows ! j)" if "j < length rows" for j
    using that by (simp add: row_magnitude_def split: prod.split)
  then have "best_row rows i" using i(1,3,4) by (simp add: best_row_def)
  moreover have "\<bar>sb\<bar> = 1" "(if sb > 0 then 1 else - 1) = sb" using assms(2) by auto
  then have "allocate_deltas_relevance rows sb
      = Inr (map (\<lambda>((cid, kb, ch), p). (cid, kb, sb * p)) (zip rows (map (\<lambda>j. of_bool (j = i)) [0..<length rows])))"
    using assms(1) i(2) unfolding allocate_deltas_relevance_def Let_def not_even by simp
  moreover have "map (\<lambda>((cid, kb, ch), p). (cid, kb, sb * p)) (zip rows (map (\<lambda>j. of_bool (j = i)) [0..<length rows]))
      = map (\<lambda>j. (fst (rows ! j), fst (snd (rows ! j)), if j = i then sb else 0)) [0..<length rows]"
    by (rule nth_equalityI) (auto split: prod.splits)
  ultimately show ?thesis by auto
qed

lemma apply_no_deltas: "list_all (\<lambda>(c, k, d). d = 0) ds' \<Longrightarrow> apply_deltas ds tenant rows ds' ok bad = ret (ok, bad)"
  by (induction ds') auto

lemma apply_one_delta:
  "list_all (\<lambda>(c, k, d). d = 0) xs \<Longrightarrow> list_all (\<lambda>(c, k, d). d = 0) ys \<Longrightarrow> d \<noteq> 0 \<Longrightarrow>
    apply_deltas ds tenant rows (xs @ (c, k, d) # ys) ok bad
      = bnd (update_chunk_weight ds tenant c k d (row_id_of rows c)) (\<lambda>success. ret (if success then (Suc ok, bad) else (ok, Suc bad)))"
  by (induction xs) (auto simp: apply_no_deltas intro!: arg_cong [of _ _ "bnd _"])

lemma try_except_ret: "\<exists>a t. try_except m (\<lambda>e. ret b) s = (Inr a, t)"
proof (cases "m s")
  case (Pair r t)
  then show ?thesis by (cases r) (simp_all add: try_except_def ret_def)
qed

lemma update_never_raises: "\<exists>ok t. update_chunk_weight ds tenant c k d r s = (Inr ok, t)"
  unfolding update_chunk_weight_def by (rule try_except_ret)

text \<open>Feedback weighted by relevance moves the weight of one chunk by one, the first of those with the highest
  retrieval score; every other cited chunk keeps its weight, and a failing store is counted, never raised.\<close>

theorem feedback_moves_one_chunk:
  assumes "fb_enabled cfg" and "fb_weighting cfg \<noteq> ''uniform''"
    and "feedback_rows_from_reference reference = Inr rows" and "rows \<noteq> []" and "list_all (usable_key \<circ> fst) rows"
  shows "\<exists>i ok t. best_row rows i
    \<and> update_chunk_weight ds tenant (fst (rows ! i)) (fst (snd (rows ! i))) (if up then 1 else - 1) (row_id_of rows (fst (rows ! i))) s = (Inr ok, t)
    \<and> apply_feedback ds cfg tenant reference up s
      = (Inr (feedback_result (of_bool ok) (of_bool (\<not> ok)) (map fst rows)), t)"
proof -
  let ?sb = "if up then 1 else - 1 :: int"
  let ?delta = "\<lambda>i j. (fst (rows ! j), fst (snd (rows ! j)), if j = i then ?sb else 0)"
  obtain i where i: "best_row rows i" "allocate_deltas_relevance rows ?sb = Inr (map (?delta i) [0..<length rows])"
  proof -
    have "?sb \<in> {1, - 1}" by simp
    from relevance_unit [OF assms(4) this] show ?thesis using that by blast
  qed
  obtain ok t where u: "update_chunk_weight ds tenant (fst (rows ! i)) (fst (snd (rows ! i))) ?sb (row_id_of rows (fst (rows ! i))) s = (Inr ok, t)"
    using update_never_raises [of ds tenant "fst (rows ! i)" "fst (snd (rows ! i))" ?sb "row_id_of rows (fst (rows ! i))" s] by (elim exE)
  have "[0..<length rows] = [0..<i] @ i # [Suc i..<length rows]"
    using i(1) upt_add_eq_append [of 0 i "length rows - i"] upt_conv_Cons [of i "length rows"] by (simp add: best_row_def)
  then have "apply_deltas ds tenant rows (map (?delta i) [0..<length rows]) 0 0
      = bnd (update_chunk_weight ds tenant (fst (rows ! i)) (fst (snd (rows ! i))) ?sb (row_id_of rows (fst (rows ! i))))
          (\<lambda>success. ret (if success then (Suc 0, 0) else (0, Suc 0)))"
    using apply_one_delta [of "map (?delta i) [0..<i]" "map (?delta i) [Suc i..<length rows]" ?sb ds tenant rows "fst (rows ! i)" "fst (snd (rows ! i))" 0 0]
    by (simp add: list_all_iff)
  then have run: "apply_deltas ds tenant rows (map (?delta i) [0..<length rows]) 0 0 s = (Inr (of_bool ok, of_bool (\<not> ok)), t)"
    using u by (simp add: bnd_apply ret_def)
  have "find (\<lambda>c. \<not> usable_key c) (map fst rows) = None"
    using assms(5) by (auto simp: find_None_iff list_all_iff)
  then have "apply_feedback ds cfg tenant reference up s = (Inr (feedback_result (of_bool ok) (of_bool (\<not> ok)) (map fst rows)), t)"
    using assms(1-4) i(2) run by (simp add: apply_feedback_def bnd_apply lift_def ret_def)
  with i(1) u show ?thesis by blast
qed

text \<open>A store whose state is the weight of each chunk.\<close>

definition demo_store :: "(string, rat) dict doc_store" where
  "demo_store = \<lparr>ds_engine = ''infinity'', ds_adjust = None,
     ds_get = (\<lambda>cid idx kbs s. (Inr (case cid of PStr c \<Rightarrow> (case map_of s c of Some w \<Rightarrow> PDict [(''pagerank_fea'', PFloat w)] | None \<Rightarrow> PNone) | _ \<Rightarrow> PNone), s)),
     ds_update = (\<lambda>cond v idx kb s. case (get_none cond ''id'', get_none v ''pagerank_fea'') of
         (PStr c, PFloat w) \<Rightarrow> (Inr True, dset c w s) | _ \<Rightarrow> (Inr False, s))\<rparr>"

definition demo_reference :: pyval where
  "demo_reference = PDict [(''chunks'', PList
     [PDict [(''id'', PStr ''a''), (''kb_id'', PStr ''k''), (''similarity'', PFloat (1 / 2))],
      PDict [(''id'', PStr ''b''), (''kb_id'', PStr ''k''), (''vector_similarity'', PStr ''0.75'')],
      PDict [(''id'', PStr ''c'')]])]"

theorem feedback_moves_one_chunk_witness:
  "snd (apply_feedback demo_store \<lparr>fb_enabled = True, fb_weighting = ''relevance''\<rparr> ''t'' demo_reference True [(''a'', 3), (''b'', 100)])
    = [(''a'', 3), (''b'', 100)]"
proof -
  let ?rows = "[(PStr ''a'', PStr ''k'', [(''id'', PStr ''a''), (''kb_id'', PStr ''k''), (''similarity'', PFloat (1 / 2))]),
    (PStr ''b'', PStr ''k'', [(''id'', PStr ''b''), (''kb_id'', PStr ''k''), (''vector_similarity'', PStr ''0.75'')])]"
  have rows: "feedback_rows_from_reference demo_reference = Inr ?rows" by code_simp
  have mags: "row_magnitude (?rows ! 0) = 1 / 2" "row_magnitude (?rows ! 1) = 3 / 4" by code_simp+
  have step: "update_chunk_weight demo_store ''t'' (PStr ''b'') (PStr ''k'') 1 (row_id_of ?rows (PStr ''b'')) [(''a'', 3), (''b'', 100)]
      = (Inr True, [(''a'', 3), (''b'', 100)])" by code_simp
  let ?cfg = "\<lparr>fb_enabled = True, fb_weighting = ''relevance''\<rparr>"
  have prems: "fb_enabled ?cfg" "fb_weighting ?cfg \<noteq> ''uniform''" "?rows \<noteq> []" "list_all (usable_key \<circ> fst) ?rows"
    by (simp_all add: usable_key_def)
  from feedback_moves_one_chunk [OF prems(1,2) rows prems(3,4), of demo_store "''t''" True "[(''a'', 3), (''b'', 100)]"]
  obtain i ok t where i: "best_row ?rows i"
    and u: "update_chunk_weight demo_store ''t'' (fst (?rows ! i)) (fst (snd (?rows ! i))) (if True then 1 else - 1) (row_id_of ?rows (fst (?rows ! i)))
        [(''a'', 3), (''b'', 100)] = (Inr ok, t)"
    and run: "apply_feedback demo_store ?cfg ''t'' demo_reference True [(''a'', 3), (''b'', 100)]
        = (Inr (feedback_result (of_bool ok) (of_bool (\<not> ok)) (map fst ?rows)), t)" by blast
  have "1 < length ?rows" by simp
  then have "i < length ?rows" "row_magnitude (?rows ! 1) \<le> row_magnitude (?rows ! i)" using i unfolding best_row_def by blast+
  then have "i = 1" using mags by (cases "i = 0") auto
  then show ?thesis using u step run by simp
qed

section \<open>Weights stay in their range\<close>

text \<open>What reading a chunk, removing a weight, setting one within the range and adjusting one within the range keep,
  feedback keeps, whatever the store answers and whenever it raises.\<close>

lemma weights_stay_bounded:
  assumes "\<And>cid idx kbs. keeps P (ds_get ds cid idx kbs)"
    and "\<And>cond w idx kb. 0 \<le> w \<Longrightarrow> w \<le> 100 \<Longrightarrow> keeps P (ds_update ds cond [(''pagerank_fea'', PFloat w)] idx kb)"
    and "\<And>cond idx kb. keeps P (ds_update ds cond [(''remove'', PStr ''pagerank_fea'')] idx kb)"
    and "\<And>adjust cid idx kb step r. ds_adjust ds = Some adjust \<Longrightarrow> keeps P (adjust cid idx kb step 0 100 r)"
  shows "keeps P (apply_feedback ds cfg tenant reference up)"
proof -
  have upd: "keeps P (update_chunk_weight ds tenant c k d r)" for c k d r
    unfolding update_chunk_weight_def Let_def
    using assms by (intro keeps_try_except keeps_bnd keeps_ret keeps_lift)
      (auto simp: new_weight_value_def clamp_def min_pagerank_weight_def max_pagerank_weight_def
        intro!: keeps_bnd keeps_ret keeps_lift split: option.splits)
  have "keeps P (apply_deltas ds tenant rows ds' ok bad)" for rows ds' ok bad
  proof (induction ds' arbitrary: ok bad)
    case (Cons d ds')
    then show ?case using upd by (cases d) (auto intro!: keeps_bnd)
  qed simp
  then show ?thesis unfolding apply_feedback_def Let_def
    by (auto intro!: keeps_bnd keeps_ret keeps_lift split: prod.splits)
qed

end
