(* ===== verification/JsonParser.thy ===== *)
theory JsonParser
  imports PyJson PdfPositions
begin

text \<open>
  The parser of JSON documents into pieces, after \<^verbatim>\<open>deepdoc/parser/json_parser.py\<close>: a document is cut into
  objects below a size, each of which keeps the path of what it holds. Guessing the encoding of the bytes
  is outside: the parser gets the decoded text.
\<close>

section \<open>Splitting\<close>

record json_parser =
  max_chunk_size :: int
  min_chunk_size :: int

definition new_json_parser :: "int \<Rightarrow> int option \<Rightarrow> json_parser" where
  "new_json_parser mx mn = \<lparr>max_chunk_size = mx * 2,
     min_chunk_size = (case mn of Some m \<Rightarrow> m | None \<Rightarrow> max (mx - 200) 50)\<rparr>"

definition json_size :: "pyval \<Rightarrow> int" where
  "json_size data = int (char_count (json_dumps data))"

text \<open>\<open>d.setdefault(key, {})\<close> along the path, then an assignment.\<close>

fun set_nested_dict :: "string list \<Rightarrow> pyval \<Rightarrow> pdict \<Rightarrow> pdict res" where
  "set_nested_dict [] value d = raise IndexError ''list index out of range''"
| "set_nested_dict [k] value d = Inr (dset k value d)"
| "set_nested_dict (k # k' # ks) value d = (case map_of d k of
     None \<Rightarrow> try_then (set_nested_dict (k' # ks) value []) (\<lambda>e. Inr (dset k (PDict e) d))
   | Some (PDict e) \<Rightarrow> try_then (set_nested_dict (k' # ks) value e) (\<lambda>e'. Inr (dset k (PDict e') d))
   | Some w \<Rightarrow> if ks = [] then raise TypeError (type_name w @ '' does not support item assignment'') else no_attr w ''setdefault'')"

fun list_to_dict_preprocessing :: "pyval \<Rightarrow> pyval"
and preprocess_items :: "nat \<Rightarrow> pyval list \<Rightarrow> pdict"
and preprocess_members :: "pdict \<Rightarrow> pdict" where
  "list_to_dict_preprocessing (PDict d) = PDict (preprocess_members d)"
| "list_to_dict_preprocessing (PList xs) = PDict (preprocess_items 0 xs)"
| "list_to_dict_preprocessing (PStr s) = PStr s"
| "list_to_dict_preprocessing (PInt i) = PInt i"
| "list_to_dict_preprocessing (PFloat r) = PFloat r"
| "list_to_dict_preprocessing (PBool b) = PBool b"
| "list_to_dict_preprocessing PNone = PNone"
| "list_to_dict_preprocessing (PStream cs) = PStream cs"
| "preprocess_items i [] = []"
| "preprocess_items i (x # xs) = (nat_str i, list_to_dict_preprocessing x) # preprocess_items (Suc i) xs"
| "preprocess_members [] = []"
| "preprocess_members ((k, v) # d) = (k, list_to_dict_preprocessing v) # preprocess_members d"

definition put_last :: "string list \<Rightarrow> pyval \<Rightarrow> pdict list \<Rightarrow> pdict list res" where
  "put_last path value chunks = try_then (set_nested_dict path value (last chunks)) (\<lambda>d. Inr (butlast chunks @ [d]))"

text \<open>What one member does: it goes into the last piece when it fits there, and is cut up otherwise, in a new
  piece when the last one is big enough.\<close>

fun json_split :: "json_parser \<Rightarrow> pyval \<Rightarrow> string list \<Rightarrow> pdict list \<Rightarrow> pdict list res"
and split_members :: "json_parser \<Rightarrow> pdict \<Rightarrow> string list \<Rightarrow> pdict list \<Rightarrow> pdict list res" where
  "json_split p (PDict d) current chunks = split_members p d current chunks"
| "json_split p (PList xs) current chunks = put_last current (PList xs) chunks"
| "json_split p (PStr s) current chunks = put_last current (PStr s) chunks"
| "json_split p (PInt i) current chunks = put_last current (PInt i) chunks"
| "json_split p (PFloat r) current chunks = put_last current (PFloat r) chunks"
| "json_split p (PBool b) current chunks = put_last current (PBool b) chunks"
| "json_split p PNone current chunks = put_last current PNone chunks"
| "json_split p (PStream cs) current chunks = put_last current (PStream cs) chunks"
| "split_members p [] current chunks = Inr chunks"
| "split_members p ((k, v) # d) current chunks =
     (let new_path = current @ [k];
          chunk_size = json_size (PDict (last chunks));
          size = json_size (PDict [(k, v)]);
          remaining = max_chunk_size p - chunk_size
      in try_then (if size < remaining then put_last new_path v chunks
           else json_split p v new_path (if chunk_size \<ge> min_chunk_size p then chunks @ [[]] else chunks))
         (split_members p d current))"

definition split_json :: "json_parser \<Rightarrow> pyval \<Rightarrow> bool \<Rightarrow> pdict list res" where
  "split_json p data convert_lists =
     try_then (json_split p (if convert_lists then list_to_dict_preprocessing data else data) [] [[]]) (\<lambda>chunks.
       Inr (if last chunks = [] then butlast chunks else chunks))"

section \<open>Documents\<close>

definition chunk_texts :: "pdict list \<Rightarrow> string list" where
  "chunk_texts chunks = map (\<lambda>c. json_dumps (PDict c)) (filter (\<lambda>c. c \<noteq> []) chunks)"

definition parse_json :: "json_parser \<Rightarrow> string \<Rightarrow> string list res" where
  "parse_json p content = (case json_loads content of
     None \<Rightarrow> Inr []
   | Some data \<Rightarrow> try_then (split_json p data True) (\<lambda>chunks. Inr (chunk_texts chunks)))"

text \<open>\<open>str.splitlines()\<close>, with the line boundaries outside ASCII in UTF-8.\<close>

fun line_break :: "string \<Rightarrow> nat" where
  "line_break [] = 0"
| "line_break (c # cs) =
     (if c = CHR 0x0D then (case cs of d # _ \<Rightarrow> if d = CHR 0x0A then 2 else 1 | [] \<Rightarrow> 1)
      else if c \<in> {CHR 0x0A, CHR 0x0B, CHR 0x0C, CHR 0x1C, CHR 0x1D, CHR 0x1E} then 1
      else if take 1 cs = [CHR 0x85] \<and> c = CHR 0xC2 then 2
      else if c = CHR 0xE2 \<and> (take 2 cs = [CHR 0x80, CHR 0xA8] \<or> take 2 cs = [CHR 0x80, CHR 0xA9]) then 3
      else 0)"

function split_lines :: "string \<Rightarrow> string \<Rightarrow> string list" where
  "split_lines line s = (case s of
     [] \<Rightarrow> (if line = [] then [] else [line])
   | c # cs \<Rightarrow> (let n = line_break (c # cs) in
       if n = 0 then split_lines (line @ [c]) cs else line # split_lines [] (drop n (c # cs))))"
  by pat_completeness auto
termination by (relation "measure (\<lambda>(l, s). length s)") (auto split: if_splits)

declare split_lines.simps [simp del]

definition parse_line :: "json_parser \<Rightarrow> string \<Rightarrow> string list res" where
  "parse_line p line =
     (if strip line = [] then Inr []
      else case json_loads line of
        None \<Rightarrow> Inr []
      | Some data \<Rightarrow> try_then (split_json p data True) (\<lambda>chunks. Inr (chunk_texts chunks)))"

definition parse_jsonl :: "json_parser \<Rightarrow> string \<Rightarrow> string list res" where
  "parse_jsonl p content = try_then (map_res (parse_line p) (split_lines [] (strip content))) (\<lambda>ts. Inr (concat ts))"

definition is_valid_json :: "string \<Rightarrow> bool" where
  "is_valid_json line = (json_loads line \<noteq> None)"

text \<open>A text that is no JSON document and of whose first ten lines at least four in five are.\<close>

definition is_jsonl_format :: "string \<Rightarrow> bool" where
  "is_jsonl_format txt =
     (let lines = filter (\<lambda>l. l \<noteq> []) (map strip (split_lines [] (strip txt)));
          sample = take 10 lines;
          valid = length (filter is_valid_json sample)
      in lines \<noteq> [] \<and> \<not> is_valid_json txt \<and> valid \<noteq> 0 \<and> 5 * valid \<ge> 4 * length sample)"

definition parse_document :: "json_parser \<Rightarrow> string \<Rightarrow> string list res" where
  "parse_document p txt = (if is_jsonl_format txt then parse_jsonl p txt else parse_json p txt)"

section \<open>What a document holds\<close>

text \<open>The values that are no objects, each with its path, in the order of the text.\<close>

fun leaves :: "pyval \<Rightarrow> (string list \<times> pyval) list"
and member_leaves :: "pdict \<Rightarrow> (string list \<times> pyval) list" where
  "leaves (PDict d) = member_leaves d"
| "leaves (PList xs) = [([], PList xs)]"
| "leaves (PStr s) = [([], PStr s)]"
| "leaves (PInt i) = [([], PInt i)]"
| "leaves (PFloat r) = [([], PFloat r)]"
| "leaves (PBool b) = [([], PBool b)]"
| "leaves PNone = [([], PNone)]"
| "leaves (PStream cs) = [([], PStream cs)]"
| "member_leaves [] = []"
| "member_leaves ((k, v) # d) = map (\<lambda>(q, w). (k # q, w)) (leaves v) @ member_leaves d"

text \<open>Nothing stands at the path, and what stands along it is an object at the end of the one before.\<close>

fun open_at :: "pdict \<Rightarrow> string list \<Rightarrow> bool" where
  "open_at d [] = False"
| "open_at d [k] = (k \<notin> set (dkeys d))"
| "open_at d (k # k' # ks) = (k \<notin> set (dkeys d) \<or>
     (\<exists>b e. d = b @ [(k, PDict e)] \<and> k \<notin> set (dkeys b) \<and> open_at e (k' # ks)))"

lemma member_leaves_append: "member_leaves (a @ b) = member_leaves a @ member_leaves b"
  by (induction a) (auto split: prod.splits)

lemma dset_fresh: "k \<notin> set (dkeys d) \<Longrightarrow> dset k v d = d @ [(k, v)]"
  by (induction d) auto

lemma dset_last: "k \<notin> set (dkeys b) \<Longrightarrow> dset k v (b @ [(k, w)]) = b @ [(k, v)]"
  by (induction b) auto

lemma set_open:
  "open_at d path \<Longrightarrow> \<exists>d'. set_nested_dict path v d = Inr d'
    \<and> member_leaves d' = member_leaves d @ map (\<lambda>(q, w). (path @ q, w)) (leaves v)"
proof (induction path v d rule: set_nested_dict.induct)
  case (1 v d)
  then show ?case by simp
next
  case (2 k v d)
  then show ?case by (simp add: dset_fresh member_leaves_append)
next
  case (3 k k' ks v d)
  from "3.prems" consider "k \<notin> set (dkeys d)"
    | b e where "d = b @ [(k, PDict e)]" "k \<notin> set (dkeys b)" "open_at e (k' # ks)" by auto
  then show ?case
  proof cases
    case 1
    then have "map_of d k = None" by (simp add: map_of_eq_None_iff)
    moreover have "open_at [] (k' # ks)" by (cases ks) simp_all
    ultimately show ?thesis using "3.IH"(1) 1
      by (auto simp: dset_fresh member_leaves_append case_prod_beta' o_def)
  next
    case 2
    then have "map_of b k = None" by (simp add: map_of_eq_None_iff)
    then have "map_of d k = Some (PDict e)" using 2(1) by (simp add: map_add_def)
    then show ?thesis using "3.IH"(2) [of "PDict e" e] 2
      by (auto simp: dset_last member_leaves_append case_prod_beta' o_def)
  qed
qed

lemma open_empty: "path \<noteq> [] \<Longrightarrow> open_at [] path"
  by (cases path; cases "tl path") auto

lemma open_below: "open_at d path \<Longrightarrow> open_at d (path @ [k])"
  by (induction d path rule: open_at.induct) auto

lemma dset_keys: "fst ` set (dset k v d) = insert k (fst ` set d)"
  by (induction d) auto

lemma open_sibling:
  "open_at d (q @ [k']) \<Longrightarrow> open_at d (q @ k # r) \<Longrightarrow> k \<noteq> k' \<Longrightarrow> set_nested_dict (q @ k # r) v d = Inr d' \<Longrightarrow> open_at d' (q @ [k'])"
proof (induction q arbitrary: d d')
  case Nil
  then obtain w where "d' = dset k w d" by (cases r) (auto simp: try_then_Inr_iff no_attr_def split: option.splits pyval.splits if_splits)
  then show ?case using Nil by (simp add: dset_keys)
next
  case (Cons a q)
  have sub: "\<exists>e'. set_nested_dict (q @ k # r) v e = Inr e' \<and> open_at e' (q @ [k'])"
    if "open_at e (q @ [k'])" "open_at e (q @ k # r)" for e
    using set_open [OF that(2), of v] Cons.IH [OF that Cons.prems(3)] by auto
  obtain x xs where x: "q @ k # r = x # xs" by (cases q) auto
  obtain y ys where y: "q @ [k'] = y # ys" by (cases q) auto
  consider "a \<notin> set (dkeys d)" | b e where "d = b @ [(a, PDict e)]" "a \<notin> set (dkeys b)" "open_at e (q @ k # r)" "open_at e (q @ [k'])"
    using Cons.prems(1,2) x y by auto
  then show ?case
  proof cases
    case 1
    then have "map_of d a = None" by (simp add: map_of_eq_None_iff)
    moreover obtain e' where "set_nested_dict (q @ k # r) v [] = Inr e'" "open_at e' (q @ [k'])"
      using sub [of "[]"] open_empty by auto
    ultimately have "d' = d @ [(a, PDict e')]" using Cons.prems(4) 1 x by (simp add: dset_fresh)
    then show ?thesis using 1 y \<open>open_at e' (q @ [k'])\<close> by auto
  next
    case 2
    then have "map_of b a = None" by (simp add: map_of_eq_None_iff)
    then have "map_of d a = Some (PDict e)" using 2(1) by (simp add: map_add_def)
    moreover obtain e' where "set_nested_dict (q @ k # r) v e = Inr e'" "open_at e' (q @ [k'])"
      using sub [OF 2(4,3)] by auto
    ultimately have "d' = b @ [(a, PDict e')]" using Cons.prems(4) 2(1,2) x by (simp add: dset_last)
    then show ?thesis using 2(2) y \<open>open_at e' (q @ [k'])\<close> by auto
  qed
qed

text \<open>Pieces that hold what others held and then the leaves below a path, and still have room beside it.\<close>

definition extends :: "pdict list \<Rightarrow> string list \<Rightarrow> (string list \<times> pyval) list \<Rightarrow> pdict list \<Rightarrow> bool" where
  "extends chunks path ls cs = (cs \<noteq> [] \<and>
     concat (map member_leaves cs) = concat (map member_leaves chunks) @ map (\<lambda>(q, w). (path @ q, w)) ls \<and>
     (\<forall>q k k' r. path = q @ k # r \<longrightarrow> k \<noteq> k' \<longrightarrow> open_at (last chunks) (q @ [k']) \<longrightarrow> open_at (last cs) (q @ [k'])))"

lemma put_last_extends:
  assumes "chunks \<noteq> []" and "open_at (last chunks) path"
  shows "\<exists>cs. put_last path v chunks = Inr cs \<and> extends chunks path (leaves v) cs"
proof -
  obtain d' where d: "set_nested_dict path v (last chunks) = Inr d'"
      "member_leaves d' = member_leaves (last chunks) @ map (\<lambda>(q, w). (path @ q, w)) (leaves v)"
    using set_open [OF assms(2)] by blast
  have "concat (map member_leaves chunks) = concat (map member_leaves (butlast chunks)) @ member_leaves (last chunks)"
    using arg_cong [OF append_butlast_last_id [OF assms(1)], of "\<lambda>c. concat (map member_leaves c)"] by simp
  then have "concat (map member_leaves (butlast chunks @ [d'])) = concat (map member_leaves chunks) @ map (\<lambda>(q, w). (path @ q, w)) (leaves v)"
    using d(2) by simp
  moreover have "open_at d' (q @ [k'])" if "path = q @ k # r" "k \<noteq> k'" "open_at (last chunks) (q @ [k'])" for q k k' r
    using open_sibling [OF that(3) _ that(2)] assms(2) d(1) that(1) by blast
  ultimately have "extends chunks path (leaves v) (butlast chunks @ [d'])" unfolding extends_def by (simp only: last_snoc) blast
  then show ?thesis using d(1) by (simp add: put_last_def)
qed

lemma put_leaf:
  "leaves v = [([], v)] \<Longrightarrow> chunks \<noteq> [] \<Longrightarrow> open_at (last chunks) path \<Longrightarrow>
    \<exists>cs. put_last path v chunks = Inr cs \<and> extends chunks path [([], v)] cs"
  using put_last_extends [of chunks path v] by simp

lemma extends_trans:
  assumes "extends chunks (path @ [k]) ls cs" and "extends cs path ms ds"
  shows "extends chunks path (map (\<lambda>(q, w). (k # q, w)) ls @ ms) ds"
proof -
  have "open_at (last ds) (q @ [k'])" if "path = q @ a # r" "a \<noteq> k'" "open_at (last chunks) (q @ [k'])" for q a k' r
  proof -
    have "path @ [k] = q @ a # (r @ [k])" using that(1) by simp
    then have "open_at (last cs) (q @ [k'])" using assms(1) that(2,3) unfolding extends_def by blast
    then show ?thesis using assms(2) that(1,2) unfolding extends_def by blast
  qed
  then show ?thesis using assms by (auto simp: extends_def o_def case_prod_beta')
qed

lemma extends_new: "path \<noteq> [] \<Longrightarrow> extends (chunks @ [[]]) path ls cs \<Longrightarrow> extends chunks path ls cs"
  by (auto simp: extends_def open_empty)

lemma extends_nil: "chunks \<noteq> [] \<Longrightarrow> extends chunks path [] chunks"
  by (simp add: extends_def)

lemma split_extends:
  "jsonable v \<Longrightarrow> chunks \<noteq> [] \<Longrightarrow> path \<noteq> [] \<Longrightarrow> open_at (last chunks) path \<Longrightarrow>
    \<exists>cs. json_split p v path chunks = Inr cs \<and> extends chunks path (leaves v) cs"
  "jsonable_dict d \<Longrightarrow> distinct (dkeys d) \<Longrightarrow> chunks \<noteq> [] \<Longrightarrow> (\<forall>k \<in> set (dkeys d). open_at (last chunks) (path @ [k])) \<Longrightarrow>
    \<exists>cs. split_members p d path chunks = Inr cs \<and> extends chunks path (member_leaves d) cs"
proof (induction p v path chunks and p d path chunks rule: json_split_split_members.induct)
  case (1 p d path chunks)
  then show ?case using open_below by simp
next
  case (10 p k v d path chunks)
  let ?fits = "json_size (PDict [(k, v)]) < max_chunk_size p - json_size (PDict (last chunks))"
  let ?chunks = "if json_size (PDict (last chunks)) \<ge> min_chunk_size p then chunks @ [[]] else chunks"
  have k: "open_at (last chunks) (path @ [k])" "path @ [k] \<noteq> []" using "10.prems" by simp_all
  have "\<exists>cs. (if ?fits then put_last (path @ [k]) v chunks else json_split p v (path @ [k]) ?chunks) = Inr cs
      \<and> extends chunks (path @ [k]) (leaves v) cs"
  proof (cases ?fits)
    case True
    then show ?thesis using put_last_extends [OF "10.prems"(3) k(1)] by simp
  next
    case False
    have "?chunks \<noteq> []" "open_at (last ?chunks) (path @ [k])" using "10.prems"(3) k open_empty by auto
    then obtain cs where "json_split p v (path @ [k]) ?chunks = Inr cs" "extends ?chunks (path @ [k]) (leaves v) cs"
      using "10.IH"(1) [OF refl refl refl refl False] "10.prems"(1) k(2) by auto
    then show ?thesis using False extends_new [OF k(2)] by (auto split: if_splits)
  qed
  then obtain cs where cs: "(if ?fits then put_last (path @ [k]) v chunks else json_split p v (path @ [k]) ?chunks) = Inr cs"
      "extends chunks (path @ [k]) (leaves v) cs" by blast
  have "\<forall>k2 \<in> set (dkeys d). open_at (last cs) (path @ [k2])"
  proof
    fix k2
    assume "k2 \<in> set (dkeys d)"
    then have "k \<noteq> k2" "open_at (last chunks) (path @ [k2])" using "10.prems"(2,4) by auto
    then show "open_at (last cs) (path @ [k2])" using cs(2) unfolding extends_def by blast
  qed
  moreover have "cs \<noteq> []" using cs(2) by (simp add: extends_def)
  ultimately obtain ds where "split_members p d path cs = Inr ds" "extends cs path (member_leaves d) ds"
    using "10.IH"(2) [OF refl refl refl refl cs(1)] "10.prems"(1,2) by auto
  then show ?case using cs extends_trans [OF cs(2)] by (simp add: Let_def)
qed (simp_all add: put_leaf extends_nil)

section \<open>Pieces are read back\<close>

lemma set_nested_jsonable:
  "set_nested_dict path v d = Inr d' \<Longrightarrow> jsonable v \<Longrightarrow> jsonable (PDict d) \<Longrightarrow> jsonable (PDict d')"
proof (induction path v d arbitrary: d' rule: set_nested_dict.induct)
  case (2 k v d)
  then show ?case using jsonable_dset by auto
next
  case (3 k k' ks v d)
  have empty: "jsonable (PDict [])" by simp
  show ?case
  proof (cases "map_of d k")
    case None
    then obtain e where "set_nested_dict (k' # ks) v [] = Inr e" "d' = dset k (PDict e) d"
      using "3.prems"(1) by (auto simp: try_then_Inr_iff)
    then show ?thesis using "3.IH"(1) [OF None _ "3.prems"(2) empty] jsonable_dset [OF "3.prems"(3)] by blast
  next
    case (Some w)
    then obtain e0 e where "w = PDict e0" "set_nested_dict (k' # ks) v e0 = Inr e" "d' = dset k (PDict e) d"
      using "3.prems"(1) by (cases w) (auto simp: try_then_Inr_iff no_attr_def split: if_splits)
    then show ?thesis using "3.IH"(2) [OF Some] "3.prems"(2,3) jsonable_get [OF "3.prems"(3) Some] jsonable_dset [OF "3.prems"(3)] by blast
  qed
qed simp

definition all_jsonable :: "pdict list \<Rightarrow> bool" where
  "all_jsonable chunks = (chunks \<noteq> [] \<and> (\<forall>c \<in> set chunks. jsonable (PDict c)))"

lemma put_last_jsonable:
  assumes "put_last path v chunks = Inr cs" and "jsonable v" and "all_jsonable chunks"
  shows "all_jsonable cs"
proof -
  obtain d' where d: "set_nested_dict path v (last chunks) = Inr d'" "cs = butlast chunks @ [d']"
    using assms(1) by (auto simp: put_last_def try_then_Inr_iff)
  have "jsonable (PDict (last chunks))" using assms(3) last_in_set [of chunks] unfolding all_jsonable_def by blast
  then have "jsonable (PDict d')" by (rule set_nested_jsonable [OF d(1) assms(2)])
  then show ?thesis using d(2) assms(3) by (auto simp: all_jsonable_def dest: in_set_butlastD)
qed

lemma split_jsonable:
  "json_split p v path chunks = Inr cs \<Longrightarrow> jsonable v \<Longrightarrow> all_jsonable chunks \<Longrightarrow> all_jsonable cs"
  "split_members p d path chunks = Inr cs \<Longrightarrow> jsonable_dict d \<Longrightarrow> all_jsonable chunks \<Longrightarrow> all_jsonable cs"
proof (induction p v path chunks and p d path chunks arbitrary: cs and cs rule: json_split_split_members.induct)
  case (10 p k v d path chunks)
  let ?fits = "json_size (PDict [(k, v)]) < max_chunk_size p - json_size (PDict (last chunks))"
  let ?chunks = "if json_size (PDict (last chunks)) \<ge> min_chunk_size p then chunks @ [[]] else chunks"
  from "10.prems"(1) have "\<exists>ds. (if ?fits then put_last (path @ [k]) v chunks else json_split p v (path @ [k]) ?chunks) = Inr ds
      \<and> split_members p d path ds = Inr cs"
    unfolding split_members.simps(2) Let_def try_then_Inr_iff .
  then obtain ds where ds: "(if ?fits then put_last (path @ [k]) v chunks else json_split p v (path @ [k]) ?chunks) = Inr ds"
      "split_members p d path ds = Inr cs" by (elim exE conjE)
  have "all_jsonable ?chunks" using "10.prems"(3) by (auto simp: all_jsonable_def)
  then have "all_jsonable ds"
    using ds(1) put_last_jsonable "10.prems"(2,3) "10.IH"(1) [OF refl refl refl refl] by (cases ?fits) auto
  then show ?case using "10.IH"(2) [OF refl refl refl refl ds(1) ds(2)] "10.prems"(2) by simp
qed (auto intro: put_last_jsonable)

lemma preprocess_jsonable:
  "jsonable v \<Longrightarrow> jsonable (list_to_dict_preprocessing v)"
  "jsonable_list xs \<Longrightarrow> jsonable_dict (preprocess_items i xs) \<and> distinct (dkeys (preprocess_items i xs))
    \<and> (\<forall>k \<in> set (dkeys (preprocess_items i xs)). \<exists>j \<ge> i. k = nat_str j)"
  "jsonable_dict d \<Longrightarrow> jsonable_dict (preprocess_members d) \<and> dkeys (preprocess_members d) = dkeys d"
proof (induction v and i xs and d rule: list_to_dict_preprocessing_preprocess_items_preprocess_members.induct)
  case (10 i x xs)
  have inj: "nat_str i = nat_str j \<Longrightarrow> i = j" for j using nat_str_read(1) by metis
  have rest: "jsonable_dict (preprocess_items (Suc i) xs)" "distinct (dkeys (preprocess_items (Suc i) xs))"
      "\<forall>k \<in> set (dkeys (preprocess_items (Suc i) xs)). \<exists>j \<ge> Suc i. k = nat_str j"
    using "10.IH"(2) "10.prems" by auto
  then have "nat_str i \<notin> set (dkeys (preprocess_items (Suc i) xs))" using inj by fastforce
  moreover have "\<forall>k \<in> set (dkeys (preprocess_items (Suc i) xs)). \<exists>j \<ge> i. k = nat_str j" using rest(3) Suc_leD by blast
  ultimately show ?case using rest "10.IH"(1) "10.prems" by (simp only: preprocess_items.simps jsonable_dict.simps jsonable_list.simps list.map fst_conv distinct.simps list.set ball_simps insert_iff simp_thms) blast
qed simp_all

definition is_scalar :: "pyval \<Rightarrow> bool" where
  "is_scalar v = (\<not> is_dict v \<and> \<not> is_list v)"

text \<open>C30: A document that is an object or a list is cut into pieces that are read back from their texts, and that
  hold, in order and under their full paths, exactly the values of the document (lists as objects with
  their positions as keys), whatever the size limits are.\<close>

theorem parse_json_keeps_leaves:
  assumes "json_loads content = Some data" and "jsonable data" and "\<not> is_scalar data"
  shows "\<exists>sections chunks. parse_json p content = Inr sections \<and> map json_loads sections = map (\<lambda>c. Some (PDict c)) chunks
    \<and> concat (map member_leaves chunks) = leaves (list_to_dict_preprocessing data)"
proof -
  obtain d where d: "list_to_dict_preprocessing data = PDict d" using assms(3) by (cases data) (auto simp: is_scalar_def)
  have ok: "jsonable_dict d" "distinct (dkeys d)" using preprocess_jsonable(1) [OF assms(2)] d by auto
  have "\<forall>k \<in> set (dkeys d). open_at (last [[]]) ([] @ [k])" by simp
  from split_extends(2) [OF ok _ this] obtain cs where cs: "split_members p d [] [[]] = Inr cs" "extends [[]] [] (member_leaves d) cs" by blast
  have "all_jsonable cs" by (rule split_jsonable(2) [OF cs(1) ok(1)]) (simp add: all_jsonable_def)
  let ?chunks = "filter (\<lambda>c. c \<noteq> []) cs"
  have same: "filter (\<lambda>c. c \<noteq> []) (if last cs = [] then butlast cs else cs) = ?chunks"
    using cs(2) by (cases cs rule: rev_cases) (auto simp: extends_def)
  have "concat (map member_leaves (filter (\<lambda>c. c \<noteq> []) xs)) = concat (map member_leaves xs)" for xs
    by (induction xs) auto
  then have "concat (map member_leaves ?chunks) = member_leaves d" using cs(2) by (simp add: extends_def)
  moreover have "map json_loads (chunk_texts cs) = map (\<lambda>c. Some (PDict c)) ?chunks"
  proof -
    have "json_loads (json_dumps (PDict c)) = Some (PDict c)" if "c \<in> set ?chunks" for c
      using that \<open>all_jsonable cs\<close> unfolding all_jsonable_def by (intro json_loads_dumps) auto
    then show ?thesis unfolding chunk_texts_def by (simp del: json_dumps.simps)
  qed
  moreover have "parse_json p content = Inr (chunk_texts cs)"
    using assms(1) d cs(1) same by (simp add: parse_json_def split_json_def chunk_texts_def)
  ultimately show ?thesis using d by auto
qed

theorem parse_json_keeps_leaves_witness:
  "\<exists>sections chunks. parse_json \<lparr>max_chunk_size = 12, min_chunk_size = 5\<rparr> (json_dumps (PList [PInt 1, PDict [(''a'', PStr ''xyz''), (''b'', PInt 2)]])) = Inr sections
    \<and> map json_loads sections = map (\<lambda>c. Some (PDict c)) chunks
    \<and> concat (map member_leaves chunks) = [([''0''], PInt 1), ([''1'', ''a''], PStr ''xyz''), ([''1'', ''b''], PInt 2)]"
proof -
  let ?v = "PList [PInt 1, PDict [(''a'', PStr ''xyz''), (''b'', PInt 2)]]"
  have v: "jsonable ?v" "\<not> is_scalar ?v" by (simp_all add: is_scalar_def)
  have "leaves (list_to_dict_preprocessing ?v) = [([''0''], PInt 1), ([''1'', ''a''], PStr ''xyz''), ([''1'', ''b''], PInt 2)]" by code_simp
  with parse_json_keeps_leaves [OF json_loads_dumps [OF v(1)] v] show ?thesis by metis
qed

text \<open>A document that is a single scalar raises instead of being parsed, and so does a file of lines with a
  scalar on one of them: the walk assigns at an empty path, and only decoding errors are caught.\<close>

theorem scalar_document_raises:
  assumes "json_loads content = Some v" and "is_scalar v"
  shows "parse_json p content = raise IndexError ''list index out of range''
    \<and> (strip content \<noteq> [] \<longrightarrow> parse_line p content = raise IndexError ''list index out of range'')"
  using assms by (cases v) (simp_all add: parse_json_def parse_line_def split_json_def put_last_def is_scalar_def)

theorem scalar_document_raises_witness:
  "parse_json (new_json_parser 2000 None) ''42'' = raise IndexError ''list index out of range''
    \<and> parse_document (new_json_parser 2000 None) (json_dumps (PDict [(''a'', PInt 1)]) @ [CHR 0x0A] @ ''42'' @ [CHR 0x0A] @ ''true'')
      = raise IndexError ''list index out of range''"
proof -
  let ?p = "new_json_parser 2000 None" and ?t = "json_dumps (PDict [(''a'', PInt 1)]) @ [CHR 0x0A] @ ''42'' @ [CHR 0x0A] @ ''true''"
  have v: "json_loads ''42'' = Some (PInt 42)" by code_simp
  have "is_scalar (PInt 42)" "strip ''42'' \<noteq> []" by code_simp+
  with scalar_document_raises [OF v, of ?p] have one: "parse_json ?p ''42'' = raise IndexError ''list index out of range''"
      "parse_line ?p ''42'' = raise IndexError ''list index out of range''" by blast+
  have lines: "split_lines [] (strip ?t) = [json_dumps (PDict [(''a'', PInt 1)]), ''42'', ''true'']" by code_simp
  have fmt: "is_jsonl_format ?t" by code_simp
  have first: "parse_line ?p (json_dumps (PDict [(''a'', PInt 1)])) = Inr [json_dumps (PDict [(''a'', PInt 1)])]" by code_simp
  have "parse_jsonl ?p ?t = raise IndexError ''list index out of range''"
    unfolding parse_jsonl_def lines map_res.simps first one(2) try_then.simps ..
  then show ?thesis using one(1) fmt by (simp add: parse_document_def)
qed

end
