(* ===== verification/SsrfGuard.thy ===== *)
theory SsrfGuard
  imports PyVal "HOL-Library.Word"
begin

text \<open>
  The guard against requests to internal hosts, after \<^verbatim>\<open>common/ssrf_guard.py\<close>: the checks of a URL and of a
  host, and the pins that make a name resolve to the address that was checked. Addresses are words of 32
  and 128 bits, with \<open>is_global\<close> of Python's \<open>ipaddress\<close>; the text of an address is left to that library,
  so a resolver answers with addresses. The system resolver and the check of a host in brackets are
  parameters. Names in a URL are ASCII.
\<close>

section \<open>Addresses\<close>

datatype ip = V4 "32 word" | V6 "128 word"

definition in_network :: "'a::len word \<Rightarrow> 'a word \<times> nat \<Rightarrow> bool" where
  "in_network a n = (drop_bit (LENGTH('a) - snd n) a = drop_bit (LENGTH('a) - snd n) (fst n))"

definition v4 :: "nat \<Rightarrow> nat \<Rightarrow> nat \<Rightarrow> nat \<Rightarrow> 32 word" where
  "v4 a b c d = of_nat (((a * 256 + b) * 256 + c) * 256 + d)"

text \<open>The eight groups of an IPv6 address; fewer groups stand for the leading ones.\<close>

definition v6 :: "nat list \<Rightarrow> 128 word" where
  "v6 gs = of_nat (fold (\<lambda>g n. n * 65536 + g) (take 8 (gs @ replicate 8 0)) 0)"

definition private_v4 :: "(32 word \<times> nat) list" where
  "private_v4 = [(v4 0 0 0 0, 8), (v4 10 0 0 0, 8), (v4 127 0 0 0, 8), (v4 169 254 0 0, 16), (v4 172 16 0 0, 12), (v4 192 0 0 0, 24),
     (v4 192 0 0 170, 31), (v4 192 0 2 0, 24), (v4 192 168 0 0, 16), (v4 198 18 0 0, 15), (v4 198 51 100 0, 24), (v4 203 0 113 0, 24),
     (v4 240 0 0 0, 4), (v4 255 255 255 255, 32)]"

definition private_exceptions_v4 :: "(32 word \<times> nat) list" where
  "private_exceptions_v4 = [(v4 192 0 0 9, 32), (v4 192 0 0 10, 32)]"

definition is_global_v4 :: "32 word \<Rightarrow> bool" where
  "is_global_v4 a = (\<not> in_network a (v4 100 64 0 0, 10)
     \<and> \<not> (list_ex (in_network a) private_v4 \<and> list_all (\<lambda>n. \<not> in_network a n) private_exceptions_v4))"

definition private_v6 :: "(128 word \<times> nat) list" where
  "private_v6 = [(v6 [0, 0, 0, 0, 0, 0, 0, 1], 128), (v6 [], 128), (v6 [0, 0, 0, 0, 0, 0xFFFF], 96), (v6 [0x64, 0xFF9B, 1], 48), (v6 [0x100], 64),
     (v6 [0x2001], 23), (v6 [0x2001, 0xDB8], 32), (v6 [0x2002], 16), (v6 [0x3FFF], 20), (v6 [0xFC00], 7), (v6 [0xFE80], 10)]"

definition private_exceptions_v6 :: "(128 word \<times> nat) list" where
  "private_exceptions_v6 = [(v6 [0x2001, 1, 0, 0, 0, 0, 0, 1], 128), (v6 [0x2001, 1, 0, 0, 0, 0, 0, 2], 128), (v6 [0x2001, 3], 32),
     (v6 [0x2001, 4, 0x112], 48), (v6 [0x2001, 0x20], 28), (v6 [0x2001, 0x30], 28)]"

definition ipv4_mapped :: "128 word \<Rightarrow> 32 word option" where
  "ipv4_mapped a = (if drop_bit 32 a = 0xFFFF then Some (ucast a) else None)"

fun is_global :: "ip \<Rightarrow> bool" where
  "is_global (V4 a) = is_global_v4 a"
| "is_global (V6 a) = (case ipv4_mapped a of
     Some b \<Rightarrow> is_global_v4 b
   | None \<Rightarrow> \<not> (list_ex (in_network a) private_v6 \<and> list_all (\<lambda>n. \<not> in_network a n) private_exceptions_v6))"

fun effective_ip :: "ip \<Rightarrow> ip" where
  "effective_ip (V4 a) = V4 a"
| "effective_ip (V6 a) = (case ipv4_mapped a of Some b \<Rightarrow> V4 b | None \<Rightarrow> V6 a)"

section \<open>The parts of a URL\<close>

definition control_or_space :: "char list" where
  "control_or_space = map char_of [0..<33]"

definition scheme_chars :: string where
  "scheme_chars = upper_letters @ lower_letters @ digit_chars @ ''+-.''"

definition url_text :: "string \<Rightarrow> string" where
  "url_text url = filter (\<lambda>c. c \<notin> {CHR 0x09, CHR 0x0A, CHR 0x0D}) (dropWhile (\<lambda>c. c \<in> set control_or_space) url)"

text \<open>The scheme, lowered, and what follows it.\<close>

definition split_scheme :: "string \<Rightarrow> string \<times> string" where
  "split_scheme url = (case break_at '':'' url of
     Some (b, a) \<Rightarrow> if b \<noteq> [] \<and> hd b \<in> set (upper_letters @ lower_letters) \<and> set b \<subseteq> set scheme_chars then (lower b, a) else ([], url)
   | None \<Rightarrow> ([], url))"

definition netloc_of :: "string \<Rightarrow> string" where
  "netloc_of rest = (if starts_with rest ''//'' then takeWhile (\<lambda>c. c \<notin> set ''/?#'') (drop 2 rest) else [])"

definition before_sep :: "string \<Rightarrow> string \<Rightarrow> string" where
  "before_sep sep s = (case break_at sep s of Some (b, a) \<Rightarrow> b | None \<Rightarrow> s)"

definition after_sep :: "string \<Rightarrow> string \<Rightarrow> string" where
  "after_sep sep s = (case break_at sep s of Some (b, a) \<Rightarrow> a | None \<Rightarrow> [])"

definition hostname_of :: "string \<Rightarrow> string" where
  "hostname_of netloc =
     (let hostinfo = last (split_str ''@'' netloc);
          host = (if CHR ''['' \<in> set hostinfo then before_sep '']'' (after_sep ''['' hostinfo) else before_sep '':'' hostinfo)
      in case break_at ''%'' host of Some (b, a) \<Rightarrow> lower b @ ''%'' @ a | None \<Rightarrow> lower host)"

text \<open>The scheme and the network location; a location with one bracket, or with no address in its brackets, raises.\<close>

definition url_split :: "(string \<Rightarrow> bool) \<Rightarrow> string \<Rightarrow> (string \<times> string) res" where
  "url_split bracketed_ok url =
     (let (scheme, rest) = split_scheme (url_text url); netloc = netloc_of rest in
      if (CHR ''['' \<in> set netloc) \<noteq> (CHR '']'' \<in> set netloc) then raise ValueError ''Invalid IPv6 URL''
      else if CHR ''['' \<in> set netloc \<and> \<not> bracketed_ok (before_sep '']'' (after_sep ''['' netloc))
        then raise ValueError ''invalid address in brackets''
      else Inr (scheme, netloc))"

definition url_parse :: "(string \<Rightarrow> bool) \<Rightarrow> string \<Rightarrow> (string \<times> string) res" where
  "url_parse bracketed_ok url = try_then (url_split bracketed_ok url) (\<lambda>(scheme, netloc). Inr (scheme, hostname_of netloc))"

section \<open>Pins\<close>

text \<open>
  The pins of each thread and of the process, and the number of names looked up so far: the resolver of the
  system may give another answer to each lookup, so its answer depends on that number.
\<close>

record dns_state =
  local_pins :: "nat \<Rightarrow> (string, ip) dict"
  global_pins :: "(string, ip) dict"
  lookups :: nat

text \<open>The resolver of the system, the check of a host in brackets, and the text of an address.\<close>

record net_env =
  ne_resolve :: "nat \<Rightarrow> string \<Rightarrow> ip list res"
  ne_bracketed_ok :: "string \<Rightarrow> bool"
  ne_ip_text :: "ip \<Rightarrow> string"

definition getaddrinfo :: "'m net_env_scheme \<Rightarrow> nat \<Rightarrow> string \<Rightarrow> ('s dns_state_scheme, ip list) act" where
  "getaddrinfo env thread host = (\<lambda>s. case dget (local_pins s thread) host of
     Some a \<Rightarrow> (Inr [a], s)
   | None \<Rightarrow> (case dget (global_pins s) host of
       Some a \<Rightarrow> (Inr [a], s)
     | None \<Rightarrow> (ne_resolve env (lookups s) host, s\<lparr>lookups := Suc (lookups s)\<rparr>)))"

definition set_pin :: "nat \<Rightarrow> string \<Rightarrow> ip \<Rightarrow> 's dns_state_scheme \<Rightarrow> 's dns_state_scheme" where
  "set_pin thread host a s = s\<lparr>local_pins := (local_pins s)(thread := dset host a (local_pins s thread))\<rparr>"

definition pop_pin :: "nat \<Rightarrow> string \<Rightarrow> 's dns_state_scheme \<Rightarrow> 's dns_state_scheme" where
  "pop_pin thread host s = s\<lparr>local_pins := (local_pins s)(thread := dpop host (local_pins s thread))\<rparr>"

definition pin_dns :: "nat \<Rightarrow> string \<Rightarrow> ip \<Rightarrow> ('s dns_state_scheme, 'a) act \<Rightarrow> ('s dns_state_scheme, 'a) act" where
  "pin_dns thread host a body = (\<lambda>s. case body (set_pin thread host a s) of (r, t) \<Rightarrow> (r, pop_pin thread host t))"

definition set_global_pin :: "string \<Rightarrow> ip \<Rightarrow> 's dns_state_scheme \<Rightarrow> 's dns_state_scheme" where
  "set_global_pin host a s = s\<lparr>global_pins := dset host a (global_pins s)\<rparr>"

definition pop_global_pin :: "string \<Rightarrow> 's dns_state_scheme \<Rightarrow> 's dns_state_scheme" where
  "pop_global_pin host s = s\<lparr>global_pins := dpop host (global_pins s)\<rparr>"

definition pin_dns_global :: "string \<Rightarrow> ip \<Rightarrow> ('s dns_state_scheme, 'a) act \<Rightarrow> ('s dns_state_scheme, 'a) act" where
  "pin_dns_global host a body = (\<lambda>s. case body (set_global_pin host a s) of (r, t) \<Rightarrow> (r, pop_global_pin host t))"

section \<open>The checks\<close>

text \<open>Every address must be global; the first is the answer.\<close>

fun first_public :: "'m net_env_scheme \<Rightarrow> string \<Rightarrow> string \<Rightarrow> ip option \<Rightarrow> ip list \<Rightarrow> ip res" where
  "first_public env what no_address found [] = (case found of Some a \<Rightarrow> Inr a | None \<Rightarrow> raise ValueError no_address)"
| "first_public env what no_address found (a # as) =
     (if \<not> is_global (effective_ip a)
      then raise ValueError (what @ '' resolves to a non-public address ('' @ ne_ip_text env a @ ''), which is not allowed.'')
      else first_public env what no_address (case found of None \<Rightarrow> Some a | Some b \<Rightarrow> Some b) as)"

definition addresses_of :: "'m net_env_scheme \<Rightarrow> string \<Rightarrow> nat \<Rightarrow> string \<Rightarrow> ('s dns_state_scheme, ip list) act" where
  "addresses_of env what thread host = try_except (getaddrinfo env thread host)
     (\<lambda>e. lift (if exc_class e = GaiError
       then raise ValueError (''Could not resolve '' @ what @ '' '' @ str_repr host @ '': '' @ exc_text e) else Inl e))"

definition default_schemes :: "string list" where
  "default_schemes = [''http'', ''https'']"

definition assert_url_is_safe ::
    "'m net_env_scheme \<Rightarrow> nat \<Rightarrow> string list \<Rightarrow> string \<Rightarrow> ('s dns_state_scheme, string \<times> ip) act" where
  "assert_url_is_safe env thread schemes url = bnd (lift (url_parse (ne_bracketed_ok env) url)) (\<lambda>(scheme, host).
     if scheme \<notin> set schemes then lift (raise ValueError (''Disallowed URL scheme: '' @ str_repr scheme @ ''. Only ''
       @ py_repr (PList (map PStr (sort schemes))) @ '' are allowed.''))
     else if host = [] then lift (raise ValueError ''URL is missing a host.'')
     else bnd (addresses_of env ''hostname'' thread host) (\<lambda>as.
       bnd (lift (first_public env ''URL'' (''Hostname '' @ str_repr host @ '' resolved to no addresses.'') None as)) (\<lambda>a.
       ret (host, a))))"

definition assert_host_is_safe :: "'m net_env_scheme \<Rightarrow> nat \<Rightarrow> string \<Rightarrow> ('s dns_state_scheme, ip) act" where
  "assert_host_is_safe env thread host =
     (if host = [] then lift (raise ValueError ''Host must not be empty.'')
      else bnd (addresses_of env ''host'' thread host) (\<lambda>as.
        lift (first_public env ''Host'' (''Host '' @ str_repr host @ '' resolved to no addresses.'') None as)))"

section \<open>What a checked name reaches\<close>

abbreviation all_public :: "ip list \<Rightarrow> bool" where
  "all_public as \<equiv> \<forall>a \<in> set as. is_global (effective_ip a)"

text \<open>Nothing but the number of lookups differs.\<close>

definition same_pins :: "'s dns_state_scheme \<Rightarrow> 's dns_state_scheme \<Rightarrow> bool" where
  "same_pins s t = (\<exists>n \<ge> lookups s. t = s\<lparr>lookups := n\<rparr>)"

lemma same_pinsI: "n \<ge> lookups s \<Longrightarrow> t = s\<lparr>lookups := n\<rparr> \<Longrightarrow> same_pins s t"
  by (auto simp: same_pins_def)

lemma same_pins_refl [simp]: "same_pins s s"
  by (rule same_pinsI [of _ "lookups s"]) simp_all

lemma same_pins_local: "same_pins s t \<Longrightarrow> local_pins t = local_pins s"
  by (auto simp: same_pins_def)

lemma getaddrinfo_pins: "getaddrinfo env thread host s = (r, t) \<Longrightarrow> same_pins s t"
  by (auto simp: getaddrinfo_def split: option.splits intro: same_pinsI [of s "Suc (lookups s)"])

lemma first_public_global:
  assumes "first_public env what no_address found as = Inr a" and "\<And>b. found = Some b \<Longrightarrow> is_global (effective_ip b)"
  shows "all_public as \<and> is_global (effective_ip a) \<and> (found = Some a \<or> a \<in> set as)"
  using assms
proof (induction as arbitrary: found)
  case Nil
  then show ?case by (cases found) auto
next
  case (Cons b as)
  have b: "is_global (effective_ip b)" using Cons.prems(1) by (cases "is_global (effective_ip b)") simp_all
  have "first_public env what no_address (case found of None \<Rightarrow> Some b | Some c \<Rightarrow> Some c) as = Inr a" using Cons.prems(1) b by simp
  then have "all_public as \<and> is_global (effective_ip a) \<and> ((case found of None \<Rightarrow> Some b | Some c \<Rightarrow> Some c) = Some a \<or> a \<in> set as)"
    using b Cons.prems(2) by (intro Cons.IH) (auto split: option.splits)
  then show ?case using b by (auto split: option.splits)
qed

lemma resolved_run: "addresses_of env what thread host s = (r, t) \<Longrightarrow>
    same_pins s t \<and> (\<forall>as. r = Inr as \<longrightarrow> getaddrinfo env thread host s = (Inr as, t))"
  by (cases "getaddrinfo env thread host s")
     (auto simp: addresses_of_def try_except_def lift_def split: sum.splits if_splits dest: getaddrinfo_pins)

lemma assert_url_keeps_pins:
  assumes "assert_url_is_safe env thread schemes url s = (r, t)"
  shows "same_pins s t"
proof (cases "url_parse (ne_bracketed_ok env) url")
  case (Inl e)
  then show ?thesis using assms by (simp add: assert_url_is_safe_def bnd_apply lift_def)
next
  case (Inr p)
  obtain scheme host where p: "p = (scheme, host)" by (cases p)
  obtain q u where q: "addresses_of env ''hostname'' thread host s = (q, u)" by (cases "addresses_of env ''hostname'' thread host s")
  then have "same_pins s u" using resolved_run by blast
  then show ?thesis using assms Inr p q
    by (auto simp: assert_url_is_safe_def bnd_apply lift_def ret_def split: if_split_asm sum.splits)
qed

lemma checked_url:
  assumes "assert_url_is_safe env thread schemes url s = (Inr (host, a), t)"
  shows "(\<exists>scheme. url_parse (ne_bracketed_ok env) url = Inr (scheme, host) \<and> scheme \<in> set schemes) \<and> host \<noteq> []
    \<and> (\<exists>as. getaddrinfo env thread host s = (Inr as, t) \<and> a \<in> set as \<and> all_public as)"
proof -
  obtain scheme h as where u: "url_parse (ne_bracketed_ok env) url = Inr (scheme, h)" "scheme \<in> set schemes" "h \<noteq> []"
      "addresses_of env ''hostname'' thread h s = (Inr as, t)" "h = host"
      "first_public env ''URL'' (''Hostname '' @ str_repr h @ '' resolved to no addresses.'') None as = Inr a"
    using assms unfolding assert_url_is_safe_def
    by (clarsimp simp: bnd_Inr_iff lift_def ret_def split: if_split_asm)
  then show ?thesis using first_public_global [OF u(6)] resolved_run [OF u(4)] by auto
qed

lemma checked_host:
  assumes "assert_host_is_safe env thread host s = (Inr a, t)"
  shows "host \<noteq> [] \<and> (\<exists>as. getaddrinfo env thread host s = (Inr as, t) \<and> a \<in> set as \<and> all_public as)"
proof -
  obtain as where u: "host \<noteq> []" "addresses_of env ''host'' thread host s = (Inr as, t)"
      "first_public env ''Host'' (''Host '' @ str_repr host @ '' resolved to no addresses.'') None as = Inr a"
    using assms unfolding assert_host_is_safe_def by (clarsimp simp: bnd_Inr_iff lift_def split: if_split_asm)
  then show ?thesis using first_public_global [OF u(3)] resolved_run [OF u(2)] by auto
qed

lemma pinned_lookup: "getaddrinfo env thread host (set_pin thread host a s) = (Inr [a], set_pin thread host a s)"
  by (simp add: getaddrinfo_def set_pin_def dget_dset)

lemma pop_pin_absent: "dget (local_pins (pop_pin thread host s) thread) host = None"
  by (simp add: pop_pin_def dget_dpop)

end
