(* ===== verification/WebRequests.thy ===== *)
theory WebRequests
  imports SsrfGuard
begin

text \<open>
  Requests to checked URLs: the redirect loops of \<^verbatim>\<open>common/data_source/rss_connector.py\<close> (\<open>_read_feed\<close>)
  and of \<^verbatim>\<open>common/misc_utils.py\<close> (\<open>download_img\<close>), which check each hop and pin its host while it is fetched,
  and the pins of the process that several tasks set and clear at the same time. The HTTP client is a
  parameter: the host it looks up for a URL, and its answer to the n-th request; so is \<open>urljoin\<close>.
\<close>

section \<open>Requests\<close>

record http_response =
  status_code :: int
  location :: "string option"
  content_type :: "string option"
  body_chunks :: "string list"

record web_env = net_env +
  we_request_host :: "string \<Rightarrow> string"
  we_answer :: "nat \<Rightarrow> string \<Rightarrow> http_response res"
  we_join :: "string \<Rightarrow> string \<Rightarrow> string"

text \<open>The requests that left the program: the URL, and the addresses its host resolved to.\<close>

record net_state = dns_state +
  requests_sent :: "(string \<times> ip list) list"

definition request_url :: "'m web_env_scheme \<Rightarrow> nat \<Rightarrow> string \<Rightarrow> ('s net_state_scheme, http_response) act" where
  "request_url env thread url = bnd (getaddrinfo env thread (we_request_host env url)) (\<lambda>as s.
     (we_answer env (length (requests_sent s)) url, s\<lparr>requests_sent := requests_sent s @ [(url, as)]\<rparr>))"

definition redirect_status :: "int set" where
  "redirect_status = {301, 302, 303, 307, 308}"

definition redirect_target :: "http_response \<Rightarrow> string option" where
  "redirect_target r = (case location r of Some l \<Rightarrow> if l = [] then None else Some l | None \<Rightarrow> None)"

section \<open>The redirects of a feed\<close>

definition max_redirects :: nat where
  "max_redirects = 10"

text \<open>The hops that are left, the checked host and address, and the URL of the next request.\<close>

fun follow_redirects ::
    "'m web_env_scheme \<Rightarrow> nat \<Rightarrow> string \<Rightarrow> nat \<Rightarrow> string \<Rightarrow> ip \<Rightarrow> string \<Rightarrow> ('s net_state_scheme, http_response) act" where
  "follow_redirects env thread feed_url 0 host a url =
     lift (raise ValueError (''Exceeded 10 redirects fetching '' @ str_repr feed_url))"
| "follow_redirects env thread feed_url (Suc n) host a url =
     bnd (pin_dns thread host a (request_url env thread url)) (\<lambda>r.
       if status_code r \<notin> redirect_status then ret r
       else case redirect_target r of
         None \<Rightarrow> ret r
       | Some l \<Rightarrow> (let target = we_join env url l in
           bnd (assert_url_is_safe env thread default_schemes target) (\<lambda>(h, b). follow_redirects env thread feed_url n h b target)))"

section \<open>The download of an image\<close>

datatype fetched = Redirected string | Fetched string | Failed

definition base64_chars :: string where
  "base64_chars = upper_letters @ lower_letters @ digit_chars @ ''+/''"

fun base64 :: "string \<Rightarrow> string" where
  "base64 [] = []"
| "base64 [a] = (let n = of_char a * 65536 in [base64_chars ! (n div 262144), base64_chars ! (n div 4096 mod 64), CHR ''='', CHR ''=''])"
| "base64 [a, b] = (let n = of_char a * 65536 + of_char b * 256 in
     [base64_chars ! (n div 262144), base64_chars ! (n div 4096 mod 64), base64_chars ! (n div 64 mod 64), CHR ''=''])"
| "base64 (a # b # c # cs) = (let n = of_char a * 65536 + of_char b * 256 + of_char c in
     base64_chars ! (n div 262144) # base64_chars ! (n div 4096 mod 64) # base64_chars ! (n div 64 mod 64) # base64_chars ! (n mod 64)
       # base64 cs)"

text \<open>The pieces of a body, read while they fit.\<close>

fun read_body :: "nat \<Rightarrow> string \<Rightarrow> string list \<Rightarrow> string option" where
  "read_body limit body [] = Some body"
| "read_body limit body (c # cs) = (if length body + length c > limit then None else read_body limit (body @ c) cs)"

definition data_uri :: "http_response \<Rightarrow> string \<Rightarrow> string" where
  "data_uri r body = ''data:'' @ (case content_type r of Some t \<Rightarrow> t | None \<Rightarrow> ''image/jpeg'') @ '';base64,'' @ base64 body"

definition stream_one_get ::
    "'m web_env_scheme \<Rightarrow> nat \<Rightarrow> nat \<Rightarrow> string \<Rightarrow> ip \<Rightarrow> string \<Rightarrow> ('s net_state_scheme, fetched) act" where
  "stream_one_get env limit thread host a url = pin_dns_global host a (bnd (request_url env thread url) (\<lambda>r.
     if status_code r \<in> redirect_status
     then ret (case redirect_target r of Some l \<Rightarrow> Redirected (we_join env url l) | None \<Rightarrow> Failed)
     else if status_code r \<noteq> 200 then ret Failed
     else ret (case read_body limit [] (body_chunks r) of Some body \<Rightarrow> Fetched (data_uri r body) | None \<Rightarrow> Failed)))"

text \<open>The hops that are left; any failure is the empty string.\<close>

fun download_hops :: "'m web_env_scheme \<Rightarrow> nat \<Rightarrow> nat \<Rightarrow> nat \<Rightarrow> string \<Rightarrow> ('s net_state_scheme, string) act" where
  "download_hops env limit thread 0 url = ret []"
| "download_hops env limit thread (Suc n) url =
     bnd (try_except (bnd (assert_url_is_safe env thread default_schemes url) (\<lambda>p. ret (Some p)))
        (\<lambda>e. if exc_class e = ValueError then ret None else lift (Inl e))) (\<lambda>checked.
       case checked of
         None \<Rightarrow> ret []
       | Some (host, a) \<Rightarrow> bnd (try_except (stream_one_get env limit thread host a url) (\<lambda>e. ret Failed)) (\<lambda>f.
           case f of Redirected u \<Rightarrow> download_hops env limit thread n u | Failed \<Rightarrow> ret [] | Fetched uri \<Rightarrow> ret uri))"

definition download_img :: "'m web_env_scheme \<Rightarrow> nat \<Rightarrow> nat \<Rightarrow> nat \<Rightarrow> pyval \<Rightarrow> ('s net_state_scheme, string) act" where
  "download_img env limit hops thread v =
     (if \<not> truthy v then ret []
      else let url = strip (case v of PStr s \<Rightarrow> s | _ \<Rightarrow> py_str v) in
           if url = [] then ret [] else download_hops env limit thread (Suc hops) url)"

section \<open>Every request goes to public addresses\<close>

definition pins_public :: "'s dns_state_scheme \<Rightarrow> bool" where
  "pins_public s = ((\<forall>th h a. dget (local_pins s th) h = Some a \<longrightarrow> is_global (effective_ip a))
     \<and> (\<forall>h a. dget (global_pins s) h = Some a \<longrightarrow> is_global (effective_ip a)))"

text \<open>The pins and the requests sent so far are public, and the requests are at most \<open>n\<close> more than \<open>m\<close>.\<close>

definition net_ok :: "nat \<Rightarrow> 's net_state_scheme \<Rightarrow> bool" where
  "net_ok m s = (pins_public s \<and> list_all (\<lambda>p. all_public (snd p)) (requests_sent s) \<and> length (requests_sent s) \<le> m)"

text \<open>The client looks up the host that the check found in the URL.\<close>

definition same_hosts :: "'m web_env_scheme \<Rightarrow> bool" where
  "same_hosts env = (\<forall>url scheme host. url_parse (ne_bracketed_ok env) url = Inr (scheme, host) \<longrightarrow> we_request_host env url = host)"

lemma net_ok_mono: "net_ok m s \<Longrightarrow> m \<le> n \<Longrightarrow> net_ok n s"
  by (auto simp: net_ok_def)

lemma net_ok_same_pins: "same_pins s t \<Longrightarrow> net_ok m t \<longleftrightarrow> net_ok m s"
  by (auto simp: same_pins_def net_ok_def pins_public_def)

lemma net_ok_set_pin: "net_ok m s \<Longrightarrow> is_global (effective_ip a) \<Longrightarrow> net_ok m (set_pin thread host a s)"
  by (auto simp: net_ok_def pins_public_def set_pin_def dget_dset)

lemma net_ok_pop_pin: "net_ok m s \<Longrightarrow> net_ok m (pop_pin thread host s)"
  by (auto simp: net_ok_def pins_public_def pop_pin_def dget_dpop split: if_splits)

lemma net_ok_set_global_pin: "net_ok m s \<Longrightarrow> is_global (effective_ip a) \<Longrightarrow> net_ok m (set_global_pin host a s)"
  by (auto simp: net_ok_def pins_public_def set_global_pin_def dget_dset)

lemma net_ok_pop_global_pin: "net_ok m s \<Longrightarrow> net_ok m (pop_global_pin host s)"
  by (auto simp: net_ok_def pins_public_def pop_global_pin_def dget_dpop)

lemmas net_ok_pins = net_ok_set_pin net_ok_pop_pin net_ok_set_global_pin net_ok_pop_global_pin

text \<open>A host with a pin of the thread or of the process resolves to that pin, whatever the resolver answers.\<close>

definition pinned :: "nat \<Rightarrow> string \<Rightarrow> 's dns_state_scheme \<Rightarrow> bool" where
  "pinned thread host s = (dget (local_pins s thread) host \<noteq> None \<or> dget (global_pins s) host \<noteq> None)"

lemma pinned_set: "pinned thread host (set_pin thread host a s)" "pinned thread host (set_global_pin host a s)"
  by (simp_all add: pinned_def set_pin_def set_global_pin_def dget_dset)

lemma request_of_pinned_host:
  assumes "request_url env thread url s = (r, t)" and "net_ok m s" and "pinned thread (we_request_host env url) s"
  shows "net_ok (Suc m) t"
proof -
  obtain a where a: "getaddrinfo env thread (we_request_host env url) s = (Inr [a], s)" "is_global (effective_ip a)"
    using assms(2,3) by (cases "dget (local_pins s thread) (we_request_host env url)")
      (auto simp: pinned_def getaddrinfo_def net_ok_def pins_public_def)
  then show ?thesis using assms(1,2) by (auto simp: request_url_def bnd_apply net_ok_def pins_public_def)
qed

lemma checked_url_pin:
  assumes "assert_url_is_safe env thread schemes url s = (Inr (host, a), t)" and "same_hosts env"
  shows "is_global (effective_ip a) \<and> we_request_host env url = host"
  using checked_url [OF assms(1)] assms(2) by (auto simp: same_hosts_def)

lemma checked_url_net_ok: "assert_url_is_safe env thread schemes url s = (r, t) \<Longrightarrow> net_ok m s \<Longrightarrow> net_ok m t"
  using net_ok_same_pins assert_url_keeps_pins by blast

lemma pinned_request_ok:
  assumes "pin_dns thread host a (request_url env thread url) s = (r, t)" and "net_ok m s"
    and "is_global (effective_ip a)" and "we_request_host env url = host"
  shows "net_ok (Suc m) t"
proof -
  obtain u where u: "request_url env thread url (set_pin thread host a s) = (r, u)" "t = pop_pin thread host u"
    using assms(1) by (auto simp: pin_dns_def split: prod.splits)
  show ?thesis unfolding u(2) using assms u(1)
    by (intro net_ok_pins request_of_pinned_host [OF u(1)]) (auto intro: pinned_set net_ok_pins)
qed

lemma follow_redirects_ok:
  assumes "same_hosts env"
  shows "follow_redirects env thread feed_url n host a url s = (r, t) \<Longrightarrow> net_ok m s \<Longrightarrow> is_global (effective_ip a)
    \<Longrightarrow> we_request_host env url = host \<Longrightarrow> net_ok (m + n) t"
proof (induction n arbitrary: host a url s m)
  case 0
  then show ?case by (simp add: lift_def)
next
  case (Suc n)
  obtain q u where q: "pin_dns thread host a (request_url env thread url) s = (q, u)"
    by (cases "pin_dns thread host a (request_url env thread url) s")
  have u: "net_ok (Suc m) u" using pinned_request_ok [OF q Suc.prems(2-4)] .
  show ?case
  proof (cases "\<exists>p l. q = Inr p \<and> status_code p \<in> redirect_status \<and> redirect_target p = Some l")
    case False
    then have "t = u" using Suc.prems(1) q by (auto simp: bnd_apply ret_def split: sum.splits if_splits option.splits)
    then show ?thesis using u net_ok_mono by fastforce
  next
    case True
    then obtain p l where p: "q = Inr p" "status_code p \<in> redirect_status" "redirect_target p = Some l" by auto
    obtain c v where c: "assert_url_is_safe env thread default_schemes (we_join env url l) u = (c, v)"
      by (cases "assert_url_is_safe env thread default_schemes (we_join env url l) u")
    have v: "net_ok (Suc m) v" using checked_url_net_ok [OF c u] .
    show ?thesis
    proof (cases c)
      case (Inl e)
      then show ?thesis using Suc.prems(1) q p c v net_ok_mono [OF v] by (auto simp: bnd_apply Let_def)
    next
      case (Inr hb)
      obtain h b where hb: "c = Inr (h, b)" using Inr by (cases hb) auto
      have "follow_redirects env thread feed_url n h b (we_join env url l) v = (r, t)"
        using Suc.prems(1) q p c hb by (simp add: bnd_apply Let_def)
      then show ?thesis using Suc.IH v checked_url_pin [OF c [unfolded hb] assms] by fastforce
    qed
  qed
qed

lemma stream_one_get_ok:
  assumes "stream_one_get env limit thread host a url s = (r, t)" and "net_ok m s"
    and "is_global (effective_ip a)" and "we_request_host env url = host"
  shows "net_ok (Suc m) t"
proof -
  obtain q u where q: "request_url env thread url (set_global_pin host a s) = (q, u)"
    by (cases "request_url env thread url (set_global_pin host a s)")
  have "net_ok (Suc m) u" using assms by (intro request_of_pinned_host [OF q]) (auto intro: pinned_set net_ok_pins)
  moreover have "t = pop_global_pin host u"
    using assms(1) q by (auto simp: stream_one_get_def pin_dns_global_def bnd_apply ret_def split: sum.splits prod.splits if_splits)
  ultimately show ?thesis by (simp add: net_ok_pins)
qed

lemma download_hops_ok:
  assumes "same_hosts env"
  shows "download_hops env limit thread n url s = (r, t) \<Longrightarrow> net_ok m s \<Longrightarrow> net_ok (m + n) t"
proof (induction n arbitrary: url s m)
  case 0
  then show ?case by (simp add: ret_def)
next
  case (Suc n)
  obtain c u where c: "assert_url_is_safe env thread default_schemes url s = (c, u)"
    by (cases "assert_url_is_safe env thread default_schemes url s")
  have u: "net_ok m u" using checked_url_net_ok [OF c Suc.prems(2)] .
  show ?case
  proof (cases c)
    case (Inl e)
    then have "t = u" using Suc.prems(1) c by (auto simp: bnd_apply try_except_def ret_def lift_def split: if_splits)
    then show ?thesis using u net_ok_mono by fastforce
  next
    case (Inr hb)
    obtain h b where hb: "c = Inr (h, b)" using Inr by (cases hb) auto
    obtain f v where f: "stream_one_get env limit thread h b url u = (f, v)" by (cases "stream_one_get env limit thread h b url u")
    have v: "net_ok (Suc m) v" using stream_one_get_ok [OF f u] checked_url_pin [OF c [unfolded hb] assms] by blast
    show ?thesis
    proof (cases "\<exists>w. f = Inr (Redirected w)")
      case True
      then obtain w where "f = Inr (Redirected w)" by auto
      then have "download_hops env limit thread n w v = (r, t)" using Suc.prems(1) c hb f
        by (simp add: bnd_apply try_except_def ret_def)
      then show ?thesis using Suc.IH v by fastforce
    next
      case False
      then have "t = v" using Suc.prems(1) c hb f
        by (auto simp: bnd_apply try_except_def ret_def split: sum.splits fetched.splits)
      then show ?thesis using v net_ok_mono by fastforce
    qed
  qed
qed

text \<open>The download of an image sends every request to global addresses, one more than its redirects at most.\<close>

lemma download_img_ok:
  assumes "same_hosts env" and "download_img env limit hops thread v s = (r, t)" and "net_ok m s"
  shows "net_ok (m + Suc hops) t"
proof (cases "t = s")
  case True
  then show ?thesis using assms(3) net_ok_mono by fastforce
next
  case False
  then obtain url where "download_hops env limit thread (Suc hops) url s = (r, t)"
    using assms(2) by (auto simp: download_img_def ret_def Let_def simp del: download_hops.simps split: if_splits)
  then show ?thesis using download_hops_ok [OF assms(1)] assms(3) by blast
qed

end
