(* ===== verification/RssConnector.thy ===== *)
theory RssConnector
  imports WebRequests "HOL-Library.Multiset"
begin

text \<open>
  The connector of an RSS feed, after \<^verbatim>\<open>common/data_source/rss_connector.py\<close>, and its use by a sync
  (\<open>RSS._generate\<close> of \<^verbatim>\<open>rag/svr/sync_data_source.py\<close>): the feed is read once through checked redirects, its entries
  become documents or, for pruning, their identifiers, in batches. The parsers of feeds, of HTML and of dates, the
  digest and the clock are parameters; an entry is the mapping its \<open>get\<close> presents, with a \<open>struct_time\<close> as a list.
  The text of an entry is ASCII, so the size of a document is the length of its text.
\<close>

section \<open>State\<close>

record rss_feed =
  bozo :: bool
  bozo_exception :: "string option"
  entries :: "pdict list"

record rss_connector =
  feed_url :: string
  batch_size :: int
  cached_feed :: "rss_feed option"

record rss_document =
  doc_id :: string
  semantic_identifier :: string
  blob :: string
  doc_updated_at :: rat
  size_bytes :: nat
  doc_metadata :: pdict

text \<open>
  The digest of a text, the text of HTML, the date in a header, \<open>raise_for_status\<close> of a response, the feed in a
  response; the clock when the i-th entry is looked at.
\<close>

record rss_env = web_env +
  re_md5 :: "string \<Rightarrow> string"
  re_html_text :: "string \<Rightarrow> string"
  re_date :: "string \<Rightarrow> rat option"
  re_raise_for_status :: "http_response \<Rightarrow> unit res"
  re_parse :: "string \<Rightarrow> rss_feed"
  re_now :: "nat \<Rightarrow> rat"

record rss_state = net_state +
  connector :: rss_connector

definition new_rss :: "string \<Rightarrow> int \<Rightarrow> rss_connector" where
  "new_rss url n = \<lparr>feed_url = strip url, batch_size = n, cached_feed = None\<rparr>"

section \<open>Reading the feed\<close>

definition validate_feed_url :: "'m web_env_scheme \<Rightarrow> nat \<Rightarrow> (rss_state, string \<times> ip) act" where
  "validate_feed_url env thread = bnd (gets (feed_url \<circ> connector)) (\<lambda>url.
     if url = [] then lift (raise ValueError ''feed_url is required'')
     else bnd (lift (url_split (ne_bracketed_ok env) url)) (\<lambda>(scheme, netloc).
       if scheme \<notin> {''http'', ''https''} \<or> netloc = [] then lift (raise ValueError ''feed_url must be a valid http or https URL'')
       else assert_url_is_safe env thread default_schemes url))"

definition feed_of_response :: "rss_env \<Rightarrow> bool \<Rightarrow> http_response \<Rightarrow> rss_feed res" where
  "feed_of_response env require_entries r = try_then (re_raise_for_status env r) (\<lambda>_.
     let feed = re_parse env (concat (body_chunks r)) in
     if bozo feed \<and> entries feed = [] then raise ValueError (case bozo_exception feed of
         Some e \<Rightarrow> ''Failed to parse RSS feed: '' @ e | None \<Rightarrow> ''Failed to parse RSS feed'')
     else if require_entries \<and> entries feed = [] then raise ValueError ''RSS feed contains no entries''
     else Inr feed)"

definition read_feed :: "rss_env \<Rightarrow> nat \<Rightarrow> bool \<Rightarrow> (rss_state, rss_feed) act" where
  "read_feed env thread require_entries = bnd (gets connector) (\<lambda>c. case cached_feed c of
     Some feed \<Rightarrow> if require_entries \<and> entries feed = [] then lift (raise ValueError ''RSS feed contains no entries'') else ret feed
   | None \<Rightarrow> bnd (validate_feed_url env thread) (\<lambda>(host, a).
       bnd (follow_redirects env thread (feed_url c) (Suc max_redirects) host a (feed_url c)) (\<lambda>r.
       bnd (lift (feed_of_response env require_entries r)) (\<lambda>feed.
       bnd (modify (\<lambda>s. s\<lparr>connector := (connector s)\<lparr>cached_feed := Some feed\<rparr>\<rparr>)) (\<lambda>_. ret feed)))))"

definition validate_connector_settings :: "rss_env \<Rightarrow> nat \<Rightarrow> (rss_state, unit) act" where
  "validate_connector_settings env thread = bnd (validate_feed_url env thread) (\<lambda>_.
     bnd (gets (batch_size \<circ> connector)) (\<lambda>n.
     if n < 1 then lift (raise ValueError ''batch_size must be greater than 0'')
     else bnd (read_feed env thread True) (\<lambda>_. ret ())))"

section \<open>The time of an entry\<close>

definition is_leap :: "int \<Rightarrow> bool" where
  "is_leap y = (y mod 4 = 0 \<and> (y mod 100 \<noteq> 0 \<or> y mod 400 = 0))"

definition month_days :: "int \<Rightarrow> int list" where
  "month_days y = [31, if is_leap y then 29 else 28, 31, 30, 31, 30, 31, 31, 30, 31, 30, 31]"

text \<open>The day number of a date; 719163 is 1 January 1970.\<close>

definition ymd_ordinal :: "int \<Rightarrow> int \<Rightarrow> int \<Rightarrow> int" where
  "ymd_ordinal y m d = (y - 1) * 365 + (y - 1) div 4 - (y - 1) div 100 + (y - 1) div 400
     + sum_list (take (nat (m - 1)) (month_days y)) + d"

definition utc_timestamp :: "int \<Rightarrow> int \<Rightarrow> int \<Rightarrow> int \<Rightarrow> int \<Rightarrow> int \<Rightarrow> rat res" where
  "utc_timestamp y mo d h mi s =
     (if \<not> (1 \<le> y \<and> y \<le> 9999) then raise ValueError (''year '' @ int_str y @ '' is out of range'')
      else if \<not> (1 \<le> mo \<and> mo \<le> 12) then raise ValueError ''month must be in 1..12''
      else if \<not> (1 \<le> d \<and> d \<le> month_days y ! nat (mo - 1)) then raise ValueError ''day is out of range for month''
      else if \<not> (0 \<le> h \<and> h \<le> 23) then raise ValueError ''hour must be in 0..23''
      else if \<not> (0 \<le> mi \<and> mi \<le> 59) then raise ValueError ''minute must be in 0..59''
      else if \<not> (0 \<le> s \<and> s \<le> 59) then raise ValueError ''second must be in 0..59''
      else Inr (of_int ((ymd_ordinal y mo d - 719163) * 86400 + h * 3600 + mi * 60 + s)))"

definition int_field :: "pyval \<Rightarrow> int res" where
  "int_field v = (case v of PInt i \<Rightarrow> Inr i | PBool b \<Rightarrow> Inr (of_bool b)
     | _ \<Rightarrow> raise TypeError ([CHR 0x27] @ type_name v @ [CHR 0x27] @ '' object cannot be interpreted as an integer''))"

definition struct_time_to_utc :: "pyval \<Rightarrow> rat res" where
  "struct_time_to_utc v = (case v of
     PList xs \<Rightarrow> if length xs < 3 then raise TypeError ''function missing required argument''
       else try_then (map_res int_field (take 6 xs)) (\<lambda>is. let fs = is @ replicate (6 - length is) 0
         in utc_timestamp (fs ! 0) (fs ! 1) (fs ! 2) (fs ! 3) (fs ! 4) (fs ! 5))
   | _ \<Rightarrow> raise TypeError ''unsupported value for a date'')"

fun header_time :: "rss_env \<Rightarrow> pdict \<Rightarrow> string list \<Rightarrow> rat option" where
  "header_time env e [] = None"
| "header_time env e (k # ks) = (case get_none e k of
     PStr s \<Rightarrow> if strip s = [] then header_time env e ks else (case re_date env s of Some t \<Rightarrow> Some t | None \<Rightarrow> header_time env e ks)
   | _ \<Rightarrow> header_time env e ks)"

definition resolve_entry_time :: "rss_env \<Rightarrow> nat \<Rightarrow> pdict \<Rightarrow> rat res" where
  "resolve_entry_time env i e =
     (case find (\<lambda>k. truthy (get_none e k)) [''updated_parsed'', ''published_parsed''] of
        Some k \<Rightarrow> struct_time_to_utc (get_none e k)
      | None \<Rightarrow> Inr (case header_time env e [''updated'', ''published''] of Some t \<Rightarrow> t | None \<Rightarrow> re_now env i))"

section \<open>The document of an entry\<close>

definition stripped :: "pyval \<Rightarrow> string res" where
  "stripped v = try_then (as_str ''strip'' (py_or v (PStr []))) (\<lambda>s. Inr (strip s))"

definition resolve_stable_key :: "string \<Rightarrow> pdict \<Rightarrow> string res" where
  "resolve_stable_key url e = try_then (stripped (get_none e ''link'')) (\<lambda>link. try_then (stripped (get_none e ''title'')) (\<lambda>title.
     try_then (as_str ''strip'' (py_or (py_or (py_or (get_none e ''id'') (PStr link)) (PStr title)) (PStr url))) (\<lambda>s. Inr (strip s))))"

definition build_document_id :: "rss_env \<Rightarrow> string \<Rightarrow> pdict \<Rightarrow> string res" where
  "build_document_id env url e = try_then (resolve_stable_key url e) (\<lambda>k. Inr (''rss:'' @ re_md5 env k))"

definition normalize_text :: "rss_env \<Rightarrow> pyval \<Rightarrow> string" where
  "normalize_text env v = (case v of PStr s \<Rightarrow> re_html_text env s | _ \<Rightarrow> [])"

definition block_text :: "rss_env \<Rightarrow> pyval \<Rightarrow> string" where
  "block_text env b = normalize_text env (case b of PDict d \<Rightarrow> get_none d ''value'' | _ \<Rightarrow> PNone)"

definition build_content :: "rss_env \<Rightarrow> pdict \<Rightarrow> string \<Rightarrow> string res" where
  "build_content env e ident = try_then (py_iter (py_or (get_none e ''content'') (PList []))) (\<lambda>blocks.
     let parts = ident # filter (\<lambda>t. t \<noteq> []) (map (block_text env) blocks);
         fallback = normalize_text env (py_or (py_or (get_none e ''summary'') (get_none e ''description'')) (PStr []));
         parts = (if length parts = 1 then parts @ (if fallback = [] then [] else [fallback]) else parts)
     in Inr (strip (join_str [CHR 0x0A, CHR 0x0A] (filter (\<lambda>t. t \<noteq> []) parts))))"

definition tag_term :: "pyval \<Rightarrow> pyval list" where
  "tag_term tag = (case tag of PDict d \<Rightarrow> (case get_none d ''term'' of PStr t \<Rightarrow> if t = [] then [] else [PStr t] | _ \<Rightarrow> []) | _ \<Rightarrow> [])"

definition entry_metadata :: "string \<Rightarrow> pdict \<Rightarrow> string \<Rightarrow> pyval list \<Rightarrow> pdict" where
  "entry_metadata url e link tags =
     (let categories = concat (map tag_term tags) in
      [(''feed_url'', PStr url)] @ (if link = [] then [] else [(''link'', PStr link)])
      @ (if truthy (get_none e ''author'') then [(''author'', get_none e ''author'')] else [])
      @ (if categories = [] then [] else [(''categories'', PList categories)]))"

definition build_document :: "rss_env \<Rightarrow> string \<Rightarrow> pdict \<Rightarrow> rat \<Rightarrow> rss_document res" where
  "build_document env url e t = try_then (stripped (get_none e ''link'')) (\<lambda>link. try_then (stripped (get_none e ''title'')) (\<lambda>title.
     try_then (resolve_stable_key url e) (\<lambda>key.
     let ident = (if title \<noteq> [] then title else if link \<noteq> [] then link else key) in
     try_then (build_content env e ident) (\<lambda>content. try_then (py_iter (get_or e ''tags'' (PList []))) (\<lambda>tags.
     try_then (build_document_id env url e) (\<lambda>i.
     Inr \<lparr>doc_id = i, semantic_identifier = ident, blob = content, doc_updated_at = t, size_bytes = length content,
          doc_metadata = entry_metadata url e link tags\<rparr>))))))"

section \<open>Batches\<close>

text \<open>
  A loop that skips an item (None), raises, or adds it to the batch it yields when that is full: the batches
  it yields, and what it raises.
\<close>

fun batched :: "int \<Rightarrow> ('a \<Rightarrow> 'b option res) \<Rightarrow> 'b list \<Rightarrow> 'a list \<Rightarrow> 'b list list \<times> exc option" where
  "batched n f batch [] = (if batch = [] then [] else [batch], None)"
| "batched n f batch (x # xs) = (case f x of
     Inl e \<Rightarrow> ([], Some e)
   | Inr None \<Rightarrow> batched n f batch xs
   | Inr (Some y) \<Rightarrow> (let batch = batch @ [y] in
       if int (length batch) \<ge> n then (let (bs, e) = batched n f [] xs in (batch # bs, e)) else batched n f batch xs))"

definition in_window :: "rat option \<Rightarrow> rat option \<Rightarrow> rat \<Rightarrow> bool" where
  "in_window start end t = (\<not> (case start of Some a \<Rightarrow> t \<le> a | None \<Rightarrow> False) \<and> \<not> (case end of Some b \<Rightarrow> t > b | None \<Rightarrow> False))"

definition entry_document :: "rss_env \<Rightarrow> string \<Rightarrow> rat option \<Rightarrow> rat option \<Rightarrow> nat \<times> pdict \<Rightarrow> rss_document option res" where
  "entry_document env url start end = (\<lambda>(i, e). try_then (resolve_entry_time env i e) (\<lambda>t.
     if in_window start end t then try_then (build_document env url e t) (\<lambda>d. Inr (Some d)) else Inr None))"

definition load_entries :: "rss_env \<Rightarrow> nat \<Rightarrow> rat option \<Rightarrow> rat option \<Rightarrow> (rss_state, rss_document list list \<times> exc option) act" where
  "load_entries env thread start end = bnd (read_feed env thread False) (\<lambda>feed. gets (\<lambda>s.
     batched (batch_size (connector s)) (entry_document env (feed_url (connector s)) start end) []
       (enumerate 0 (entries feed))))"

definition load_from_state :: "rss_env \<Rightarrow> nat \<Rightarrow> (rss_state, rss_document list list \<times> exc option) act" where
  "load_from_state env thread = load_entries env thread None None"

definition poll_source :: "rss_env \<Rightarrow> nat \<Rightarrow> rat \<Rightarrow> rat \<Rightarrow> (rss_state, rss_document list list \<times> exc option) act" where
  "poll_source env thread start end = load_entries env thread (Some start) (Some end)"

definition entry_slim :: "rss_env \<Rightarrow> string \<Rightarrow> pdict \<Rightarrow> string option res" where
  "entry_slim env url e = try_then (build_document_id env url e) (\<lambda>i. Inr (Some i))"

definition retrieve_all_slim_docs :: "rss_env \<Rightarrow> nat \<Rightarrow> (rss_state, string list list \<times> exc option) act" where
  "retrieve_all_slim_docs env thread = bnd (read_feed env thread False) (\<lambda>feed. gets (\<lambda>s.
     batched (batch_size (connector s)) (entry_slim env (feed_url (connector s))) [] (entries feed)))"

text \<open>A sync: all entries when it reindexes or has no start, otherwise those up to the time it begins.\<close>

definition rss_generate :: "rss_env \<Rightarrow> nat \<Rightarrow> bool \<Rightarrow> rat option \<Rightarrow> rat \<Rightarrow> (rss_state, rss_document list list \<times> exc option) act" where
  "rss_generate env thread reindex poll_range_start now = bnd (validate_connector_settings env thread) (\<lambda>_.
     if reindex then load_from_state env thread
     else case poll_range_start of None \<Rightarrow> load_from_state env thread | Some start \<Rightarrow> poll_source env thread start now)"

section \<open>What the batches hold\<close>

lemma batched_Some_map:
  assumes "\<And>x y. x \<in> set xs \<Longrightarrow> f x = Inr (Some y) \<Longrightarrow> g x = Inr (Some (h y))"
    and "\<And>x. x \<in> set xs \<Longrightarrow> f x = Inr None \<Longrightarrow> g x = Inr None"
    and "batched n f batch xs = (bs, None)"
  shows "batched n g (map h batch) xs = (map (map h) bs, None)"
  using assms
proof (induction xs arbitrary: batch bs)
  case Nil
  then show ?case by auto
next
  case (Cons x xs)
  have IH: "\<And>batch bs. batched n f batch xs = (bs, None) \<Longrightarrow> batched n g (map h batch) xs = (map (map h) bs, None)"
    using Cons.IH Cons.prems(1,2) by (metis list.set_intros(2))
  consider "f x = Inr None" | (add) y where "f x = Inr (Some y)" | (err) e where "f x = Inl e" by (metis not_None_eq obj_sumE)
  then show ?case
  proof cases
    case 1
    then show ?thesis using Cons.prems(2,3) IH by simp
  next
    case add
    then show ?thesis using Cons.prems(1,3) IH [of "[]"] IH [of "batch @ [y]"]
      by (fastforce simp: Let_def split: if_splits prod.splits)
  next
    case err
    then show ?thesis using Cons.prems(3) by simp
  qed
qed

text \<open>A rule for what holds of the batches: nothing left, a skipped item, a full batch, one that is not full.\<close>

lemma batched_Cons_None: "f x = Inr None \<Longrightarrow> batched n f batch (x # xs) = batched n f batch xs"
  by simp

lemma batched_Cons_Some: "f x = Inr (Some y) \<Longrightarrow> batched n f batch (x # xs) =
    (if int (length batch) + 1 \<ge> n then apfst (Cons (batch @ [y])) (batched n f [] xs) else batched n f (batch @ [y]) xs)"
  by (simp add: Let_def apfst_def map_prod_def split: prod.splits)

lemma batched_map: "batched n f batch (map g xs) = batched n (\<lambda>x. f (g x)) batch xs"
  by (induction xs arbitrary: batch) (auto split: sum.splits option.splits simp: Let_def)

lemma batched_content:
  "batched n f batch xs = (bs, None) \<Longrightarrow>
    map Some (concat bs) = map Some batch @ filter (\<lambda>w. w \<noteq> None) (map (projr \<circ> f) xs) \<and> list_all (\<lambda>x. \<not> isl (f x)) xs"
proof (induction xs arbitrary: batch bs)
  case Nil
  then show ?case by auto
next
  case (Cons x xs)
  consider (err) e where "f x = Inl e" | (skip) "f x = Inr None" | (add) y where "f x = Inr (Some y)" by (metis not_None_eq obj_sumE)
  then show ?case
  proof cases
    case err
    then show ?thesis using Cons.prems by simp
  next
    case skip
    then show ?thesis using Cons by simp
  next
    case add
    show ?thesis
    proof (cases "int (length batch) + 1 \<ge> n")
      case True
      then obtain cs where "batched n f [] xs = (cs, None)" "bs = (batch @ [y]) # cs"
        using Cons.prems unfolding batched_Cons_Some [of f, OF add] by (cases "batched n f [] xs") auto
      then show ?thesis using Cons.IH [of "[]" cs] add by simp
    next
      case False
      then show ?thesis using Cons.prems Cons.IH [of "batch @ [y]" bs] add unfolding batched_Cons_Some [of f, OF add] by simp
    qed
  qed
qed

lemma batched_prefix_content:
  "batched n f batch xs = (bs, err) \<Longrightarrow> d \<in> set (concat bs) \<Longrightarrow> d \<in> set batch \<or> (\<exists>x \<in> set xs. f x = Inr (Some d))"
proof (induction xs arbitrary: batch bs err)
  case Nil
  then show ?case by (auto split: if_splits)
next
  case (Cons x xs)
  show ?case
  proof (cases "f x")
    case (Inl e)
    then show ?thesis using Cons.prems by simp
  next
    case (Inr v)
    then show ?thesis using Cons.prems Cons.IH [of batch] Cons.IH [of "[]"] Cons.IH [of "batch @ [the v]"]
      by (cases v) (fastforce simp: Let_def split: if_splits prod.splits)+
  qed
qed

lemma batched_sizes:
  "batched n f batch xs = (bs, err) \<Longrightarrow> batch = [] \<or> int (length batch) < n \<Longrightarrow> list_all (\<lambda>b. b \<noteq> [] \<and> int (length b) \<le> max 1 n) bs"
proof (induction xs arbitrary: batch bs err)
  case Nil
  then show ?case by (auto split: if_splits)
next
  case (Cons x xs)
  show ?case
  proof (cases "f x")
    case (Inl e)
    then show ?thesis using Cons.prems by simp
  next
    case (Inr v)
    then show ?thesis using Cons.prems Cons.IH [of batch] Cons.IH [of "[]"] Cons.IH [of "batch @ [the v]"]
      by (cases v) (fastforce simp: Let_def split: if_splits prod.splits)+
  qed
qed

section \<open>The feed in the state\<close>

abbreviation on_connector :: "rss_connector \<Rightarrow> rss_state \<Rightarrow> bool" where
  "on_connector c s \<equiv> connector s = c"

lemma keeps_getaddrinfo: "keeps (on_connector c) (getaddrinfo env thread host)"
  by (auto simp: keeps_def getaddrinfo_def split: option.splits)

lemma same_pins_connector: "same_pins (s :: rss_state) t \<Longrightarrow> connector t = connector s"
  by (auto simp: same_pins_def)

lemma keeps_assert_url: "keeps (on_connector c) (assert_url_is_safe env thread schemes url)"
proof (unfold keeps_def, intro allI impI)
  fix s :: rss_state
  assume "connector s = c"
  then show "connector (snd (assert_url_is_safe env thread schemes url s)) = c"
    by (cases "assert_url_is_safe env thread schemes url s") (auto dest!: assert_url_keeps_pins same_pins_connector)
qed

lemma keeps_request: "keeps (on_connector c) (request_url env thread url)"
  unfolding request_url_def by (rule keeps_bnd [OF keeps_getaddrinfo]) (simp add: keeps_def)

lemma keeps_pin_dns: "keeps (on_connector c) m \<Longrightarrow> keeps (on_connector c) (pin_dns thread host a m)"
  by (auto simp: keeps_def pin_dns_def set_pin_def pop_pin_def case_prod_unfold)

lemma keeps_follow_redirects: "keeps (on_connector c) (follow_redirects env thread url0 n host a url)"
proof (induction n arbitrary: host a url)
  case 0
  then show ?case by (simp add: keeps_def lift_def)
next
  case (Suc n)
  show ?case unfolding follow_redirects.simps Let_def
    by (intro keeps_bnd keeps_pin_dns keeps_request) (auto split: option.splits intro!: keeps_bnd keeps_assert_url Suc.IH)
qed

lemma keeps_validate_feed_url: "keeps (on_connector c) (validate_feed_url env thread)"
  unfolding validate_feed_url_def by (auto intro!: keeps_bnd keeps_assert_url)

lemma read_feed_cached: "cached_feed (connector s) = Some feed \<Longrightarrow> read_feed env thread False s = (Inr feed, s)"
  by (simp add: read_feed_def bnd_apply gets_def ret_def)

lemma read_feed_caches:
  assumes "read_feed env thread req s = (Inr feed, t)"
  shows "connector t = (connector s)\<lparr>cached_feed := Some feed\<rparr>"
proof (cases "cached_feed (connector s)")
  case (Some f)
  then show ?thesis using assms by (auto simp: read_feed_def bnd_apply gets_def ret_def lift_def split: if_splits)
next
  case None
  obtain host a u r v w where q: "validate_feed_url env thread s = (Inr (host, a), u)"
      "follow_redirects env thread (feed_url (connector s)) (Suc max_redirects) host a (feed_url (connector s)) u = (Inr r, v)"
      "t = v\<lparr>connector := (connector v)\<lparr>cached_feed := Some feed\<rparr>\<rparr>"
    using assms None unfolding read_feed_def
    by (auto simp: bnd_Inr_iff gets_def modify_def ret_def lift_def simp del: follow_redirects.simps)
  have "connector u = connector s" "connector v = connector u"
    using keepsD [OF keeps_validate_feed_url q(1)] keepsD [OF keeps_follow_redirects q(2)] by blast+
  then show ?thesis using q(3) by simp
qed

lemma load_entries_run:
  assumes "load_entries env thread start end s = (Inr r, t)"
  obtains feed where "cached_feed (connector t) = Some feed"
    and "r = batched (batch_size (connector t)) (entry_document env (feed_url (connector t)) start end) [] (enumerate 0 (entries feed))"
  using assms unfolding load_entries_def
  by (auto simp: bnd_Inr_iff gets_def dest!: read_feed_caches intro!: that)

lemma load_entries_cached:
  "cached_feed (connector s) = Some feed \<Longrightarrow> load_entries env thread start end s =
    (Inr (batched (batch_size (connector s)) (entry_document env (feed_url (connector s)) start end) [] (enumerate 0 (entries feed))), s)"
  by (simp add: load_entries_def read_feed_cached bnd_apply gets_def)

lemma build_document_Inr: "build_document env url e t = Inr d \<Longrightarrow> doc_updated_at d = t \<and> build_document_id env url e = Inr (doc_id d)"
  by (auto simp: build_document_def try_then_Inr_iff Let_def)

section \<open>Properties\<close>

text \<open>After a full load that ends without error, the listing that pruning uses has the identifiers of exactly the
  documents the load delivered, in the same order and the same batches, and it reads the feed no second time.\<close>

theorem slim_listing_matches_load:
  assumes "load_from_state env thread s = (Inr (bs, None), t)"
  shows "retrieve_all_slim_docs env thread t = (Inr (map (map doc_id) bs, None), t)"
proof -
  obtain feed where f: "cached_feed (connector t) = Some feed"
      and b: "batched (batch_size (connector t)) (entry_document env (feed_url (connector t)) None None) [] (enumerate 0 (entries feed)) = (bs, None)"
    using assms load_entries_run unfolding load_from_state_def by metis
  have slim: "batched n (\<lambda>p. entry_slim env url (snd p)) [] (enumerate 0 es) = batched n (entry_slim env url) [] es" for n url es
    using batched_map [of n "entry_slim env url" "[]" snd "enumerate 0 es"] by simp
  have "batched (batch_size (connector t)) (\<lambda>p. entry_slim env (feed_url (connector t)) (snd p)) (map doc_id ([] :: rss_document list)) (enumerate 0 (entries feed))
      = (map (map doc_id) bs, None)"
    by (rule batched_Some_map [OF _ _ b])
      (auto simp: entry_document_def entry_slim_def in_window_def try_then_Inr_iff dest!: build_document_Inr split: if_splits)
  then show ?thesis using f by (simp add: retrieve_all_slim_docs_def read_feed_cached bnd_apply gets_def slim)
qed

text \<open>The entry carries a time of its own.\<close>

definition dated :: "rss_env \<Rightarrow> pdict \<Rightarrow> bool" where
  "dated env e = (truthy (get_none e ''updated_parsed'') \<or> truthy (get_none e ''published_parsed'')
     \<or> header_time env e [''updated'', ''published''] \<noteq> None)"

lemma header_time_clock: "header_time (env\<lparr>re_now := n\<rparr>) e ks = header_time env e ks"
  by (induction ks) (auto split: pyval.splits option.splits)

lemma undated_time: "\<not> dated env e \<Longrightarrow> resolve_entry_time env i e = Inr (re_now env i)"
  by (auto simp: dated_def resolve_entry_time_def)

text \<open>A poll delivers no entry without a time of its own when the clock has moved past the end of its window: every
  document it yields, in an unfinished poll too, was built from a dated entry.\<close>

theorem poll_skips_undated:
  assumes "poll_source env thread start end s = (Inr (bs, err), t)" and "cached_feed (connector s) = Some feed"
    and "\<And>i. re_now env i > end" and "d \<in> set (concat bs)"
  shows "\<exists>e \<in> set (entries feed). dated env e \<and> build_document env (feed_url (connector s)) e (doc_updated_at d) = Inr d"
proof -
  have "batched (batch_size (connector s)) (entry_document env (feed_url (connector s)) (Some start) (Some end)) [] (enumerate 0 (entries feed)) = (bs, err)"
    using assms(1) load_entries_cached [OF assms(2)] by (auto simp: poll_source_def)
  then have "\<exists>p \<in> set (enumerate 0 (entries feed)). entry_document env (feed_url (connector s)) (Some start) (Some end) p = Inr (Some d)"
    using batched_prefix_content assms(4) by fastforce
  then obtain i e where e: "(i, e) \<in> set (enumerate 0 (entries feed))"
      "entry_document env (feed_url (connector s)) (Some start) (Some end) (i, e) = Inr (Some d)" by (metis surj_pair)
  obtain u where u: "resolve_entry_time env i e = Inr u" "in_window (Some start) (Some end) u"
      "build_document env (feed_url (connector s)) e u = Inr d"
    using e(2) by (auto simp: entry_document_def try_then_Inr_iff split: if_splits)
  have "doc_updated_at d = u" using build_document_Inr [OF u(3)] by simp
  moreover have "dated env e" using undated_time [of env e i] u(1,2) assms(3) [of i] by (force simp: in_window_def)
  moreover have "e \<in> set (entries feed)" using e(1) by (metis enumerate_eq_zip set_zip_rightD)
  ultimately show ?thesis using u(3) by auto
qed

definition rss_test_feed :: rss_feed where
  "rss_test_feed = \<lparr>bozo = False, bozo_exception = None, entries =
     [[(''id'', PStr ''a''), (''title'', PStr ''A''), (''updated_parsed'', PList (map PInt [1970, 1, 1, 0, 1, 0]))],
      [(''id'', PStr ''b''), (''title'', PStr ''B'')],
      [(''id'', PStr ''c''), (''title'', PStr ''C''), (''updated_parsed'', PList (map PInt [1970, 1, 1, 0, 2, 0]))]]\<rparr>"

definition rss_test_env :: rss_env where
  "rss_test_env = \<lparr>ne_resolve = \<lambda>n h. Inr [], ne_bracketed_ok = \<lambda>h. True, ne_ip_text = \<lambda>a. [],
     we_request_host = \<lambda>u. u,
     we_answer = \<lambda>n u. Inr \<lparr>status_code = 200, location = None, content_type = None, body_chunks = []\<rparr>, we_join = \<lambda>b u. u,
     re_md5 = \<lambda>s. s, re_html_text = \<lambda>s. s, re_date = \<lambda>s. None, re_raise_for_status = \<lambda>r. Inr (),
     re_parse = \<lambda>s. rss_test_feed, re_now = \<lambda>i. 1000\<rparr>"

definition rss_test_state :: "rss_feed option \<Rightarrow> rss_state" where
  "rss_test_state feed = \<lparr>local_pins = \<lambda>th. [], global_pins = [], lookups = 0, requests_sent = [],
     connector = \<lparr>feed_url = ''http://a.b/'', batch_size = 2, cached_feed = feed\<rparr>\<rparr>"

definition rss_test_doc :: "string \<Rightarrow> string \<Rightarrow> rat \<Rightarrow> rss_document" where
  "rss_test_doc i title t = \<lparr>doc_id = ''rss:'' @ i, semantic_identifier = title, blob = title, doc_updated_at = t, size_bytes = length title,
     doc_metadata = [(''feed_url'', PStr ''http://a.b/'')]\<rparr>"

lemma rss_test_cached: "cached_feed (connector (rss_test_state (Some f))) = Some f"
  "batch_size (connector (rss_test_state feed)) = 2" "feed_url (connector (rss_test_state feed)) = ''http://a.b/''"
  by (simp_all add: rss_test_state_def)

lemma rss_test_batches:
  "batched 2 (entry_document rss_test_env ''http://a.b/'' None None) [] (enumerate 0 (entries rss_test_feed))
    = ([[rss_test_doc ''a'' ''A'' 60, rss_test_doc ''b'' ''B'' 1000], [rss_test_doc ''c'' ''C'' 120]], None)"
  "batched 2 (entry_document rss_test_env ''http://a.b/'' (Some 0) (Some 500)) [] (enumerate 0 (entries rss_test_feed))
    = ([[rss_test_doc ''a'' ''A'' 60, rss_test_doc ''c'' ''C'' 120]], None)"
  by code_simp+

lemma rss_test_load:
  "load_from_state rss_test_env 0 (rss_test_state (Some rss_test_feed))
    = (Inr ([[rss_test_doc ''a'' ''A'' 60, rss_test_doc ''b'' ''B'' 1000], [rss_test_doc ''c'' ''C'' 120]], None), rss_test_state (Some rss_test_feed))"
  by (simp add: load_from_state_def load_entries_cached rss_test_cached rss_test_batches)

theorem slim_listing_matches_load_witness:
  "retrieve_all_slim_docs rss_test_env 0 (rss_test_state (Some rss_test_feed))
    = (Inr ([[''rss:a'', ''rss:b''], [''rss:c'']], None), rss_test_state (Some rss_test_feed))"
  using slim_listing_matches_load [OF rss_test_load] by (simp add: rss_test_doc_def)

lemma rss_test_poll:
  "poll_source rss_test_env 0 0 500 (rss_test_state (Some rss_test_feed))
    = (Inr ([[rss_test_doc ''a'' ''A'' 60, rss_test_doc ''c'' ''C'' 120]], None), rss_test_state (Some rss_test_feed))"
  by (simp add: poll_source_def load_entries_cached rss_test_cached rss_test_batches)

theorem poll_skips_undated_witness:
  "\<exists>e \<in> set (entries rss_test_feed). dated rss_test_env e
    \<and> build_document rss_test_env ''http://a.b/'' e 60 = Inr (rss_test_doc ''a'' ''A'' 60)"
  using poll_skips_undated [OF rss_test_poll rss_test_cached(1), of "rss_test_doc ''a'' ''A'' 60"]
  by (simp add: rss_test_cached rss_test_env_def rss_test_doc_def)

lemma dated_time: "dated env e \<Longrightarrow> resolve_entry_time (env\<lparr>re_now := n\<rparr>) i e = resolve_entry_time env 0 e"
  by (auto simp: dated_def resolve_entry_time_def header_time_clock simp del: header_time.simps split: option.splits)

lemma normalize_text_clock: "normalize_text (env\<lparr>re_now := n\<rparr>) = normalize_text env"
  by (auto simp: normalize_text_def split: pyval.splits)

lemma build_content_clock: "build_content (env\<lparr>re_now := n\<rparr>) = build_content env"
  by (intro ext) (simp add: build_content_def block_text_def [abs_def] normalize_text_clock)

lemma build_document_clock: "build_document (env\<lparr>re_now := n\<rparr>) = build_document env"
  by (intro ext) (simp add: build_document_def build_content_clock build_document_id_def)

text \<open>The documents of a window, of the entries that carry a time.\<close>

definition window_document :: "rss_env \<Rightarrow> string \<Rightarrow> rat \<Rightarrow> rat \<Rightarrow> pdict \<Rightarrow> rss_document option" where
  "window_document env url a b e = projr (entry_document env url (Some a) (Some b) (0, e))"

lemma dated_entry_document:
  "dated env e \<Longrightarrow> entry_document (env\<lparr>re_now := n\<rparr>) url start end (i, e) = entry_document env url start end (0, e)"
  using dated_time [of env e "re_now env" 0] by (simp add: entry_document_def dated_time build_document_clock cong: if_cong)

lemma split_filter_map:
  "(\<And>x. x \<in> set xs \<Longrightarrow> h x = f x \<and> g x = None \<or> h x = g x \<and> f x = None) \<Longrightarrow>
    mset (filter (\<lambda>w. w \<noteq> None) (map h xs)) = mset (filter (\<lambda>w. w \<noteq> None) (map f xs)) + mset (filter (\<lambda>w. w \<noteq> None) (map g xs))"
proof (induction xs)
  case Nil
  then show ?case by simp
next
  case (Cons x xs)
  then have "h x = f x \<and> g x = None \<or> h x = g x \<and> f x = None"
    and "mset (filter (\<lambda>w. w \<noteq> None) (map h xs)) = mset (filter (\<lambda>w. w \<noteq> None) (map f xs)) + mset (filter (\<lambda>w. w \<noteq> None) (map g xs))"
    by simp_all
  then show ?case by (elim disjE conjE) (simp_all del: not_None_eq)
qed

lemma poll_documents:
  assumes "poll_source (env\<lparr>re_now := n\<rparr>) thread a b s = (Inr (bs, None), t)" and "cached_feed (connector s) = Some feed"
    and "list_all (dated env) (entries feed)"
  shows "map Some (concat bs) = filter (\<lambda>w. w \<noteq> None) (map (window_document env (feed_url (connector s)) a b) (entries feed))
    \<and> list_all (\<lambda>e. \<not> isl (entry_document env (feed_url (connector s)) (Some a) (Some b) (0, e))) (entries feed)"
proof -
  let ?f = "entry_document (env\<lparr>re_now := n\<rparr>) (feed_url (connector s)) (Some a) (Some b)"
  let ?g = "entry_document env (feed_url (connector s)) (Some a) (Some b)"
  have b: "batched (batch_size (connector s)) ?f [] (enumerate 0 (entries feed)) = (bs, None)"
    using assms(1) load_entries_cached [OF assms(2)] by (auto simp: poll_source_def)
  have eq: "?f p = ?g (0, snd p)" if "p \<in> set (enumerate 0 (entries feed))" for p
  proof -
    have "snd p \<in> set (entries feed)" using that by (metis enumerate_eq_zip prod.collapse set_zip_rightD)
    then show ?thesis using assms(3) dated_entry_document [of env "snd p"] by (cases p) (simp add: list_all_iff)
  qed
  have m: "map (projr \<circ> ?f) (enumerate 0 (entries feed)) = map (projr \<circ> (\<lambda>e. ?g (0, e))) (map snd (enumerate 0 (entries feed)))"
    unfolding map_map comp_def using eq by (intro map_cong) simp_all
  have l: "list_all (\<lambda>p. \<not> isl (?f p)) (enumerate 0 (entries feed)) = list_all (\<lambda>e. \<not> isl (?g (0, e))) (map snd (enumerate 0 (entries feed)))"
    unfolding list.pred_map comp_def using eq by (intro list.pred_cong) simp_all
  show ?thesis using batched_content [OF b] unfolding m l by (simp add: window_document_def [abs_def] comp_def)
qed

lemma window_split:
  assumes "a \<le> b" "b \<le> c" and "\<not> isl (entry_document env url (Some a) (Some b) (0, e))"
    "\<not> isl (entry_document env url (Some b) (Some c) (0, e))"
  shows "window_document env url a c e = window_document env url a b e \<and> window_document env url b c e = None
    \<or> window_document env url a c e = window_document env url b c e \<and> window_document env url a b e = None"
proof -
  obtain t where "resolve_entry_time env 0 e = Inr t" using assms(3)
    by (cases "resolve_entry_time env 0 e") (auto simp: entry_document_def)
  then show ?thesis using assms(1,2) by (cases "t \<le> b") (auto simp: window_document_def entry_document_def in_window_def)
qed

text \<open>Two polls of adjacent windows deliver together exactly the documents of one poll of the whole window, each as often,
  when the entries carry times of their own and no poll raises, however the clock runs during each.\<close>

theorem poll_windows_tile:
  assumes "cached_feed (connector s) = Some feed" and "list_all (dated env) (entries feed)" and "a \<le> b" and "b \<le> c"
    and "poll_source (env\<lparr>re_now := n1\<rparr>) thread a b s = (Inr (xs, None), s)"
    and "poll_source (env\<lparr>re_now := n2\<rparr>) thread b c s = (Inr (ys, None), s)"
    and "poll_source (env\<lparr>re_now := n3\<rparr>) thread a c s = (Inr (zs, None), s)"
  shows "mset (concat zs) = mset (concat xs) + mset (concat ys)"
proof -
  note docs = assms(5-7) [THEN poll_documents, OF assms(1,2)]
  have "mset (map Some (concat zs)) = mset (map Some (concat xs)) + mset (map Some (concat ys))"
    unfolding docs [THEN conjunct1] using docs(1,2) window_split [OF assms(3,4)]
    by (intro split_filter_map) (auto simp: list_all_iff)
  then have "image_mset Some (mset (concat zs)) = image_mset Some (mset (concat xs) + mset (concat ys))" by simp
  then have "image_mset the (image_mset Some (mset (concat zs))) = image_mset the (image_mset Some (mset (concat xs) + mset (concat ys)))"
    by (rule arg_cong)
  then show ?thesis by (simp add: multiset.map_comp comp_def)
qed

definition dated_test_feed :: rss_feed where
  "dated_test_feed = rss_test_feed\<lparr>entries := [entries rss_test_feed ! 0, entries rss_test_feed ! 2]\<rparr>"

lemma dated_test_batches:
  "batched 2 (entry_document (rss_test_env\<lparr>re_now := \<lambda>i. 7\<rparr>) ''http://a.b/'' (Some 0) (Some 100)) [] (enumerate 0 (entries dated_test_feed))
    = ([[rss_test_doc ''a'' ''A'' 60]], None)"
  "batched 2 (entry_document (rss_test_env\<lparr>re_now := \<lambda>i. 8\<rparr>) ''http://a.b/'' (Some 100) (Some 200)) [] (enumerate 0 (entries dated_test_feed))
    = ([[rss_test_doc ''c'' ''C'' 120]], None)"
  "batched 2 (entry_document (rss_test_env\<lparr>re_now := \<lambda>i. 9\<rparr>) ''http://a.b/'' (Some 0) (Some 200)) [] (enumerate 0 (entries dated_test_feed))
    = ([[rss_test_doc ''a'' ''A'' 60, rss_test_doc ''c'' ''C'' 120]], None)"
  by code_simp+

lemma dated_test_feed_dated: "list_all (dated rss_test_env) (entries dated_test_feed)"
  by code_simp

theorem poll_windows_tile_witness:
  "mset (concat [[rss_test_doc ''a'' ''A'' 60, rss_test_doc ''c'' ''C'' 120]])
    = mset (concat [[rss_test_doc ''a'' ''A'' 60]]) + mset (concat [[rss_test_doc ''c'' ''C'' 120]])"
  by (rule poll_windows_tile [OF rss_test_cached(1) [of dated_test_feed] dated_test_feed_dated, where a = 0 and b = 100 and c = 200
        and ?n1.0 = "\<lambda>i. 7" and ?n2.0 = "\<lambda>i. 8" and ?n3.0 = "\<lambda>i. 9" and thread = 0])
     (simp_all add: poll_source_def load_entries_cached rss_test_cached dated_test_batches)

section \<open>Requests of the connector\<close>

lemma net_ok_validate:
  assumes "validate_feed_url env thread s = (r, t)" and "net_ok m s"
  shows "net_ok m t"
  using assms by (auto simp: validate_feed_url_def bnd_apply gets_def lift_def split: if_splits sum.splits prod.splits
    dest: checked_url_net_ok)

lemma validated_url:
  assumes "validate_feed_url env thread s = (Inr (host, a), t)" and "same_hosts env"
  shows "is_global (effective_ip a) \<and> we_request_host env (feed_url (connector s)) = host"
proof -
  have "assert_url_is_safe env thread default_schemes (feed_url (connector s)) s = (Inr (host, a), t)"
    using assms(1) by (auto simp: validate_feed_url_def bnd_apply gets_def lift_def split: if_splits sum.splits)
  then show ?thesis using assms(2) by (rule checked_url_pin)
qed

lemma net_ok_connector: "net_ok m (s\<lparr>connector := c\<rparr>) = net_ok m s"
  by (simp add: net_ok_def pins_public_def)


definition public_test_env :: rss_env where
  "public_test_env = rss_test_env\<lparr>we_request_host := \<lambda>u. (case url_parse (\<lambda>h. True) u of Inr p \<Rightarrow> snd p | Inl e \<Rightarrow> []),
     ne_resolve := \<lambda>n h. if n = 0 then Inr [V4 (v4 8 8 8 8)] else Inr [V4 (v4 10 0 0 1)]\<rparr>"


end
