(* ===== verification/GlobalPins.thy ===== *)
theory GlobalPins
  imports WebRequests
begin

text \<open>
  The pins of the process while several requests are in flight: the requests of \<^verbatim>\<open>agent/tools/crawler.py\<close>, of
  \<^verbatim>\<open>api/apps/restful_apis/mcp_api.py\<close> and of \<open>download_img\<close> enter and leave \<open>pin_dns_global\<close> of
  \<^verbatim>\<open>common/ssrf_guard.py\<close> in any order, each with the address that its check returned.
\<close>

section \<open>Requests in flight\<close>

text \<open>The requests between the entry and the exit of their context: host and address.\<close>

record pin_world =
  dns :: dns_state
  in_flight :: "(string \<times> ip) list"

definition enter_pin :: "string \<Rightarrow> ip \<Rightarrow> pin_world \<Rightarrow> pin_world" where
  "enter_pin host a w = w\<lparr>dns := set_global_pin host a (dns w), in_flight := (host, a) # in_flight w\<rparr>"

definition leave_pin :: "string \<Rightarrow> ip \<Rightarrow> pin_world \<Rightarrow> pin_world" where
  "leave_pin host a w = w\<lparr>dns := pop_global_pin host (dns w), in_flight := remove1 (host, a) (in_flight w)\<rparr>"

text \<open>A request checks its URL and enters, a request leaves, or some thread looks a name up.\<close>

inductive pin_step :: "'m net_env_scheme \<Rightarrow> pin_world \<Rightarrow> pin_world \<Rightarrow> bool" for env where
  Enter: "assert_url_is_safe env thread schemes url (dns w) = (Inr (host, a), s) \<Longrightarrow> pin_step env w (enter_pin host a (w\<lparr>dns := s\<rparr>))"
| Leave: "(host, a) \<in> set (in_flight w) \<Longrightarrow> pin_step env w (leave_pin host a w)"
| Lookup: "getaddrinfo env thread name (dns w) = (r, s) \<Longrightarrow> pin_step env w (w\<lparr>dns := s\<rparr>)"

definition no_pins :: pin_world where
  "no_pins = \<lparr>dns = \<lparr>local_pins = \<lambda>th. [], global_pins = [], lookups = 0\<rparr>, in_flight = []\<rparr>"

section \<open>What every interleaving keeps\<close>

lemma same_pins_global: "same_pins s t \<Longrightarrow> global_pins t = global_pins s"
  by (auto simp: same_pins_def)

text \<open>Each pin belongs to a request in flight, and each request in flight has a global address.\<close>

definition pins_owned :: "pin_world \<Rightarrow> bool" where
  "pins_owned w = ((\<forall>host a. dget (global_pins (dns w)) host = Some a \<longrightarrow> (host, a) \<in> set (in_flight w))
     \<and> (\<forall>p \<in> set (in_flight w). is_global (effective_ip (snd p))))"

lemma pins_owned_step: "pin_step env w v \<Longrightarrow> pins_owned w \<Longrightarrow> pins_owned v"
proof (induction rule: pin_step.induct)
  case (Enter thread schemes url w host a s)
  have "is_global (effective_ip a)" using checked_url [OF Enter(1)] by auto
  then show ?case using Enter(2) same_pins_global [OF assert_url_keeps_pins [OF Enter(1)]]
    by (auto simp: pins_owned_def enter_pin_def set_global_pin_def dget_dset)
next
  case (Leave host a w)
  then show ?case
    by (auto simp: pins_owned_def leave_pin_def pop_global_pin_def dget_dpop in_set_remove1 split: if_splits dest: set_remove1_subset [THEN subsetD])
next
  case (Lookup thread name w r s)
  then show ?case using same_pins_global [OF getaddrinfo_pins [OF Lookup(1)]] by (simp add: pins_owned_def)
qed

text \<open>C29: Whatever requests enter and leave, a pin of the process is a global address of a request that is still in flight; so
  when none is, no pin is left behind.\<close>

theorem global_pins_owned:
  assumes "(pin_step env)\<^sup>*\<^sup>* no_pins w" and "dget (global_pins (dns w)) host = Some a"
  shows "is_global (effective_ip a) \<and> (host, a) \<in> set (in_flight w)"
proof -
  have "pins_owned w"
    using assms(1) by (induction rule: rtranclp_induct) (simp add: pins_owned_def no_pins_def, rule pins_owned_step)
  then show ?thesis using assms(2) by (fastforce simp: pins_owned_def)
qed

text \<open>The requests in flight have different hosts, and each has its pin.\<close>

definition pins_stand :: "pin_world \<Rightarrow> bool" where
  "pins_stand w = (list_all (\<lambda>(host, a). dget (global_pins (dns w)) host = Some a) (in_flight w) \<and> (\<forall>th. local_pins (dns w) th = []))"

lemma pins_stand_step:
  assumes "pin_step env w v" and "distinct (map fst (in_flight v))" and "distinct (map fst (in_flight w))" and "pins_stand w"
  shows "pins_stand v"
  using assms
proof (induction rule: pin_step.induct)
  case (Enter thread schemes url w host a s)
  have "same_pins (dns w) s" using assert_url_keeps_pins [OF Enter(1)] .
  then have "global_pins s = global_pins (dns w)" "local_pins s = local_pins (dns w)" by (auto simp: same_pins_def)
  then show ?case using Enter(2,4) by (force simp: pins_stand_def enter_pin_def set_global_pin_def dget_dset list_all_iff)
next
  case (Leave host a w)
  have d: "distinct (in_flight w)" using Leave(3) by (simp add: distinct_map)
  have other: "fst p \<noteq> host" if "p \<in> set (in_flight w)" "p \<noteq> (host, a)" for p
    using that Leave(1,3) by (metis distinct_map fst_conv inj_on_contraD)
  have rest: "set (in_flight (leave_pin host a w)) = set (in_flight w) - {(host, a)}" using d by (simp add: leave_pin_def)
  have pin: "dget (global_pins (dns (leave_pin host a w))) h = dget (global_pins (dns w)) h" if "h \<noteq> host" for h
    using that by (simp add: leave_pin_def pop_global_pin_def dget_dpop)
  have "local_pins (dns (leave_pin host a w)) = local_pins (dns w)" by (simp add: leave_pin_def pop_global_pin_def)
  moreover have "dget (global_pins (dns (leave_pin host a w))) (fst p) = Some (snd p)" if "p \<in> set (in_flight w) - {(host, a)}" for p
    using that pin [OF other [of p]] Leave(4) by (auto simp: pins_stand_def list_all_iff)
  ultimately show ?case using Leave(4) unfolding pins_stand_def list_all_iff rest by (simp add: case_prod_unfold)
next
  case (Lookup thread name w r s)
  then have "same_pins (dns w) s" using getaddrinfo_pins by blast
  then show ?case using Lookup(4) by (auto simp: pins_stand_def same_pins_def)
qed

text \<open>As long as no two requests in flight have the same host, a request in flight reaches the address that was checked and
  nothing else: its host resolves to that address in every thread, whatever the resolver would answer.\<close>

theorem lone_request_stays_pinned:
  assumes "(\<lambda>w v. pin_step env w v \<and> distinct (map fst (in_flight v)))\<^sup>*\<^sup>* no_pins w" and "(host, a) \<in> set (in_flight w)"
  shows "getaddrinfo env thread host (dns w) = (Inr [a], dns w)"
proof -
  have "pins_stand w \<and> distinct (map fst (in_flight w))"
    using assms(1)
  proof (induction rule: rtranclp_induct)
    case base
    then show ?case by (simp add: pins_stand_def no_pins_def)
  next
    case (step u v)
    then show ?case using pins_stand_step by blast
  qed
  then show ?thesis using assms(2) by (auto simp: pins_stand_def list_all_iff getaddrinfo_def)
qed

section \<open>Two requests to one host\<close>

text \<open>A resolver whose first answer is a global address, and every later one an internal address.\<close>

definition rebinding :: net_env where
  "rebinding = \<lparr>ne_resolve = \<lambda>n h. Inr [if n = 0 then V4 (v4 8 8 8 8) else V4 (v4 10 0 0 1)], ne_bracketed_ok = \<lambda>h. True, ne_ip_text = \<lambda>a. []\<rparr>"

definition world_with :: "(string, ip) dict \<Rightarrow> (string \<times> ip) list \<Rightarrow> nat \<Rightarrow> pin_world" where
  "world_with pins flights n = \<lparr>dns = \<lparr>local_pins = \<lambda>th. [], global_pins = pins, lookups = n\<rparr>, in_flight = flights\<rparr>"

abbreviation public_ip :: ip where
  "public_ip \<equiv> V4 (v4 8 8 8 8)"

lemmas ip_defs = is_global_v4_def in_network_def v4_def private_v4_def private_exceptions_v4_def

lemma public_ip_global: "is_global_v4 (v4 8 8 8 8)"
  by (simp add: ip_defs)

text \<open>Multicast addresses are global for the check.\<close>

lemma multicast_passes: "is_global (effective_ip (V4 (v4 224 0 0 1)))"
  by (simp add: ip_defs)

lemma test_url: "url_parse (\<lambda>h. True) ''http://a.b/'' = Inr (''http'', ''a.b'')"
  by code_simp

lemma rebinding_check:
  "assert_url_is_safe rebinding 0 default_schemes ''http://a.b/'' (dns (world_with [] fs 0))
    = (Inr (''a.b'', public_ip), dns (world_with [] fs 1))"
  "assert_url_is_safe rebinding 0 default_schemes ''http://a.b/'' (dns (world_with [(''a.b'', public_ip)] fs n))
    = (Inr (''a.b'', public_ip), dns (world_with [(''a.b'', public_ip)] fs n))"
  by (simp_all add: assert_url_is_safe_def rebinding_def test_url lift_def bnd_apply ret_def default_schemes_def addresses_of_def try_except_def
      getaddrinfo_def world_with_def public_ip_global)

lemma rebinding_enter:
  "pin_step rebinding (world_with [] fs 0) (world_with [(''a.b'', public_ip)] ((''a.b'', public_ip) # fs) 1)"
  "pin_step rebinding (world_with [(''a.b'', public_ip)] fs n) (world_with [(''a.b'', public_ip)] ((''a.b'', public_ip) # fs) n)"
  using pin_step.Enter [OF rebinding_check(1) [of fs]] pin_step.Enter [OF rebinding_check(2) [of fs n]]
  by (simp_all add: enter_pin_def set_global_pin_def world_with_def)

lemma leave_world: "(host, a) \<in> set fs \<Longrightarrow> pin_step env (world_with pins fs n) (world_with (dpop host pins) (remove1 (host, a) fs) n)"
  using pin_step.Leave [of host a "world_with pins fs n" env] by (simp add: leave_pin_def pop_global_pin_def world_with_def)

lemma no_pins_world: "no_pins = world_with [] [] 0"
  by (simp add: no_pins_def world_with_def)

lemma first_flight: "(pin_step rebinding)\<^sup>*\<^sup>* no_pins (world_with [(''a.b'', public_ip)] [(''a.b'', public_ip)] 1)"
  unfolding no_pins_world by (rule r_into_rtranclp) (rule rebinding_enter(1))

theorem global_pins_owned_witness: "is_global public_ip \<and> (''a.b'', public_ip) \<in> set [(''a.b'', public_ip)]"
  using global_pins_owned [OF first_flight, of "''a.b''" public_ip] by (simp add: world_with_def)

theorem lone_request_stays_pinned_witness:
  "getaddrinfo rebinding 3 ''a.b'' (dns (world_with [(''a.b'', public_ip)] [(''a.b'', public_ip)] 1))
    = (Inr [public_ip], dns (world_with [(''a.b'', public_ip)] [(''a.b'', public_ip)] 1))"
proof (rule lone_request_stays_pinned [of rebinding])
  show "(\<lambda>w v. pin_step rebinding w v \<and> distinct (map fst (in_flight v)))\<^sup>*\<^sup>* no_pins (world_with [(''a.b'', public_ip)] [(''a.b'', public_ip)] 1)"
    unfolding no_pins_world by (rule r_into_rtranclp, rule conjI, rule rebinding_enter(1)) (simp add: world_with_def)
qed (simp add: world_with_def)

text \<open>Two requests to the same host can overlap so that one is still in flight without a pin: when the other leaves, it clears
  the pin they share, and the host of the one in flight then resolves to what the resolver now answers, here
  an internal address that no check has seen.\<close>

theorem overlapping_requests_lose_the_pin:
  "\<exists>(env :: net_env) w host a. (pin_step env)\<^sup>*\<^sup>* no_pins w \<and> (host, a) \<in> set (in_flight w) \<and> is_global (effective_ip a)
    \<and> (\<exists>b s. getaddrinfo env 0 host (dns w) = (Inr [b], s) \<and> \<not> is_global (effective_ip b))"
proof -
  let ?p = "[(''a.b'', public_ip)]"
  have "(pin_step rebinding)\<^sup>*\<^sup>* no_pins (world_with ?p (?p @ ?p) 1)"
    using first_flight rebinding_enter(2) [of ?p 1] by (simp add: rtranclp.rtrancl_into_rtrancl)
  then have run: "(pin_step rebinding)\<^sup>*\<^sup>* no_pins (world_with [] ?p 1)"
    using leave_world [of "''a.b''" public_ip "?p @ ?p" rebinding ?p 1] by (simp add: rtranclp.rtrancl_into_rtrancl)
  have "getaddrinfo rebinding 0 ''a.b'' (dns (world_with [] ?p 1)) = (Inr [V4 (v4 10 0 0 1)], dns (world_with [] ?p 2))"
    by (simp add: getaddrinfo_def world_with_def rebinding_def)
  moreover have "\<not> is_global (effective_ip (V4 (v4 10 0 0 1)))" by (simp add: ip_defs)
  ultimately have "\<exists>b s. getaddrinfo rebinding 0 ''a.b'' (dns (world_with [] ?p 1)) = (Inr [b], s) \<and> \<not> is_global (effective_ip b)" by blast
  moreover have "(''a.b'', public_ip) \<in> set (in_flight (world_with [] ?p 1))" "is_global (effective_ip public_ip)"
    by (simp_all add: world_with_def public_ip_global)
  ultimately show ?thesis using run by blast
qed

end
