(* ===== verification/Retrieval.thy ===== *)
theory Retrieval
  imports PyLiteral "HOL-Library.Multiset"
begin

text \<open>
  The retrieval of chunks, after \<open>Dealer\<close> of \<^verbatim>\<open>rag/nlp/search.py\<close>: the window of candidates, the pruning of chunks
  whose document is gone, the scores of each engine, thresholds, pages and counts per document, with the token
  similarity of \<^verbatim>\<open>rag/nlp/query.py\<close> and the tag features of \<^verbatim>\<open>common/tag_feature_utils.py\<close>. The search of the store,
  the documents that exist, the keywords of a question, the weights of tokens, the cosine of vectors and the
  model that ranks, and the square root, are parameters. Scores are exact reals; NaN and infinities are not modelled.
\<close>

section \<open>Tag features\<close>

definition finite_number :: "pyval \<Rightarrow> rat option" where
  "finite_number v = (case v of PInt i \<Rightarrow> Some (of_int i) | PFloat r \<Rightarrow> Some r | _ \<Rightarrow> None)"

fun clean_features :: "pdict \<Rightarrow> (string, rat) dict \<Rightarrow> (string, rat) dict" where
  "clean_features [] cleaned = cleaned"
| "clean_features ((k, v) # d) cleaned = (let key = strip k in
     clean_features d (case finite_number v of Some x \<Rightarrow> if key = [] then cleaned else dset key x cleaned | None \<Rightarrow> cleaned))"

text \<open>The JSON reading first, then the Python literal; JSON's \<open>null\<close> counts as unread.\<close>

definition parse_tag_features :: "bool \<Rightarrow> bool \<Rightarrow> pyval \<Rightarrow> (string, rat) dict" where
  "parse_tag_features allow_json allow_literal raw = (case raw of
     PStr s \<Rightarrow> let s = strip s;
         j = (if allow_json then (case json_loads s of Some PNone \<Rightarrow> None | r \<Rightarrow> r) else None);
         parsed = (if s = [] then None else if j = None \<and> allow_literal then literal_eval s else j)
       in (case parsed of Some (PDict d) \<Rightarrow> clean_features d [] | _ \<Rightarrow> [])
   | PDict d \<Rightarrow> clean_features d []
   | _ \<Rightarrow> [])"

fun validate_features :: "pdict \<Rightarrow> (string, rat) dict \<Rightarrow> (string, rat) dict res" where
  "validate_features [] cleaned = Inr cleaned"
| "validate_features ((k, v) # d) cleaned = (let key = strip k in
     if key = [] then raise ValueError ''keys must be non-empty strings''
     else case finite_number v of
       None \<Rightarrow> raise ValueError ''values must be finite numbers''
     | Some x \<Rightarrow> validate_features d (dset key x cleaned))"

definition validate_tag_features :: "pyval \<Rightarrow> (string, rat) dict option res" where
  "validate_tag_features raw = (case raw of
     PNone \<Rightarrow> Inr None
   | PDict d \<Rightarrow> try_then (validate_features d []) (\<lambda>c. Inr (Some c))
   | _ \<Rightarrow> raise ValueError ''must be an object mapping string tags to finite numeric scores'')"

section \<open>Token similarity\<close>

text \<open>The weights of the tokens, and of each pair of neighbours.\<close>

definition add_weight :: "string \<Rightarrow> real \<Rightarrow> (string, real) dict \<Rightarrow> (string, real) dict" where
  "add_weight k x d = dset k ((case dget d k of Some y \<Rightarrow> y | None \<Rightarrow> 0) + x) d"

fun token_dict :: "(string \<times> real) list \<Rightarrow> (string, real) dict \<Rightarrow> (string, real) dict" where
  "token_dict [] d = d"
| "token_dict ((t, c) # ws) d =
     (let d = add_weight t (c * 0.4) d
      in token_dict ws (case ws of [] \<Rightarrow> d | (t', c') # _ \<Rightarrow> add_weight (t @ t') (max c c' * 0.6) d))"

definition similarity :: "(string, real) dict \<Rightarrow> (string, real) dict \<Rightarrow> real" where
  "similarity q d = (1 / 10 ^ 9 + sum_list (map snd (filter (\<lambda>(k, v). has_key d k) q))) / (1 / 10 ^ 9 + sum_list (map snd q))"

definition token_similarity :: "(string list \<Rightarrow> (string \<times> real) list) \<Rightarrow> string list \<Rightarrow> string list list \<Rightarrow> real list" where
  "token_similarity weights atks btkss =
     (let q = token_dict (weights atks) [] in map (\<lambda>b. similarity q (token_dict (weights b) [])) btkss)"

section \<open>Results of a search\<close>

record search_result =
  sr_total :: nat
  sr_ids :: "string list"
  sr_query_vector :: "real list"
  sr_field :: "(string, pdict) dict"
  sr_highlight :: "(string, string) dict"

datatype engine = Infinity | OceanBase | OtherEngine

text \<open>
  What a retrieval calls: the search for a page of a size, the documents that exist, the keywords of the question,
  the weights of tokens, the cosine of a vector with each of a list, the scores of the engine for the candidates,
  the model that ranks texts, the clean-up of highlights and the square root.
\<close>

record retrieval_env =
  rv_engine :: engine
  rv_search :: "int \<Rightarrow> int \<Rightarrow> search_result res"
  rv_existing :: "string list \<Rightarrow> string list"
  rv_keywords :: "string list"
  rv_weights :: "string list \<Rightarrow> (string \<times> real) list"
  rv_cosine :: "real list \<Rightarrow> real list list \<Rightarrow> real list"
  rv_knn :: "search_result \<Rightarrow> (string, real) dict"
  rv_rank :: "(string list \<Rightarrow> real list) option"
  rv_tidy :: "string \<Rightarrow> string"
  rv_sqrt :: "real \<Rightarrow> real"

definition field_of :: "search_result \<Rightarrow> string \<Rightarrow> pdict res" where
  "field_of sres i = (case map_of (sr_field sres) i of Some d \<Rightarrow> Inr d | None \<Rightarrow> key_error i)"

section \<open>Chunks of deleted documents\<close>

definition chunk_doc_ids :: "search_result \<Rightarrow> pyval list" where
  "chunk_doc_ids sres = filter truthy (map (\<lambda>(i, ch). get_none ch ''doc_id'') (filter (\<lambda>(i, ch). ch \<noteq> []) (sr_field sres)))"

fun text_of :: "pyval \<Rightarrow> string" where
  "text_of (PStr s) = s" | "text_of v = []"

definition in_documents :: "string list \<Rightarrow> pdict \<Rightarrow> bool" where
  "in_documents existing ch = (case get_none ch ''doc_id'' of PStr s \<Rightarrow> s \<in> set existing | _ \<Rightarrow> False)"

definition keep_existing :: "string list \<Rightarrow> search_result \<Rightarrow> search_result" where
  "keep_existing existing sres =
     (let kept = filter (\<lambda>i. case map_of (sr_field sres) i of Some ch \<Rightarrow> ch \<noteq> [] \<and> in_documents existing ch | None \<Rightarrow> False) (sr_ids sres);
          fields = fold (\<lambda>i d. case map_of (sr_field sres) i of Some ch \<Rightarrow> dset i ch d | None \<Rightarrow> d) kept [];
          lights = fold (\<lambda>i d. case map_of (sr_highlight sres) i of Some h \<Rightarrow> dset i h d | None \<Rightarrow> d) kept []
      in sres\<lparr>sr_total := length kept, sr_ids := kept, sr_field := fields, sr_highlight := lights\<rparr>)"

text \<open>The identifiers of documents are texts.\<close>

definition prune_deleted_chunks :: "retrieval_env \<Rightarrow> search_result \<Rightarrow> search_result" where
  "prune_deleted_chunks env sres =
     (let docs = map text_of (chunk_doc_ids sres) in
      if docs = [] then sres
      else let existing = rv_existing env docs in
        if card (set existing) = card (set docs) then sres else keep_existing existing sres)"

section \<open>Scores\<close>

definition number_field :: "pdict \<Rightarrow> string \<Rightarrow> real res" where
  "number_field ch k = try_then (py_float (get_or ch k (PInt 0))) (\<lambda>r. Inr (of_rat r))"

text \<open>The square root of the array library is a parameter.\<close>

definition tag_norm :: "(real \<Rightarrow> real) \<Rightarrow> (string, real) dict \<Rightarrow> real" where
  "tag_norm sq rf = sq (sum_list (map (\<lambda>(t, s). s * s) (filter (\<lambda>(t, s). t \<noteq> ''pagerank_fea'') rf)))"

definition tag_score :: "(real \<Rightarrow> real) \<Rightarrow> (string, real) dict \<Rightarrow> (string, rat) dict \<Rightarrow> real" where
  "tag_score sq rf feas =
     (let nor = sum_list (map (\<lambda>(t, sc). (case map_of rf t of Some w \<Rightarrow> w * of_rat sc | None \<Rightarrow> 0)) feas);
          denor = sum_list (map (\<lambda>(t, sc). of_rat sc * of_rat sc) feas)
      in if denor = 0 then 0 else nor / sq denor / tag_norm sq rf)"

definition rank_feature_scores :: "retrieval_env \<Rightarrow> (string, real) dict \<Rightarrow> search_result \<Rightarrow> real list res" where
  "rank_feature_scores env rf sres = try_then (map_res (field_of sres) (sr_ids sres)) (\<lambda>chs.
     try_then (map_res (\<lambda>ch. number_field ch ''pagerank_fea'') chs) (\<lambda>pageranks.
     if rf = [] \<or> tag_norm (rv_sqrt env) rf = 0 then Inr pageranks
     else Inr (map2 (\<lambda>ch p. tag_score (rv_sqrt env) rf (parse_tag_features True True (get_none ch ''tag_feas'')) * 10 + p) chs pageranks)))"

definition distinct_words :: "string list \<Rightarrow> string list" where
  "distinct_words ws = rev (remdups (rev ws))"

text \<open>A single important keyword becomes a list of one.\<close>

definition listed_keywords :: "pdict \<Rightarrow> pdict" where
  "listed_keywords ch = (case get_or ch ''important_kwd'' (PList []) of PStr s \<Rightarrow> dset ''important_kwd'' (PList [PStr s]) ch | _ \<Rightarrow> ch)"

definition with_listed_keywords :: "search_result \<Rightarrow> search_result" where
  "with_listed_keywords sres =
     sres\<lparr>sr_field := map (\<lambda>(i, ch). (i, if i \<in> set (sr_ids sres) then listed_keywords ch else ch)) (sr_field sres)\<rparr>"

definition words_of :: "pdict \<Rightarrow> string \<Rightarrow> string list res" where
  "words_of ch k = try_then (as_str ''split'' (get_or ch k (PStr []))) (\<lambda>s. Inr (py_words s))"

definition keyword_list :: "pdict \<Rightarrow> string list res" where
  "keyword_list ch = (case get_or ch ''important_kwd'' (PList []) of
     PList vs \<Rightarrow> map_res str_arg vs
   | v \<Rightarrow> raise TypeError (''can only concatenate list (not '' @ type_name v @ '') to list''))"

definition repeat_list :: "nat \<Rightarrow> 'a list \<Rightarrow> 'a list" where
  "repeat_list n xs = concat (replicate n xs)"

text \<open>The tokens of a chunk: its content once, its title, keywords and questions several times.\<close>

definition weighted_tokens :: "pdict \<Rightarrow> string list res" where
  "weighted_tokens ch = try_then (dict_item ch ''content_ltks'') (\<lambda>c. try_then (as_str ''split'' c) (\<lambda>content.
     try_then (words_of ch ''title_tks'') (\<lambda>title. try_then (words_of ch ''question_tks'') (\<lambda>question.
     try_then (keyword_list ch) (\<lambda>kwds.
     Inr (distinct_words (py_words content) @ repeat_list 2 title @ repeat_list 5 kwds @ repeat_list 6 question))))))"

definition model_tokens :: "pdict \<Rightarrow> string list res" where
  "model_tokens ch = try_then (dict_item ch ''content_ltks'') (\<lambda>c. try_then (as_str ''split'' c) (\<lambda>content.
     try_then (words_of ch ''title_tks'') (\<lambda>title. try_then (keyword_list ch) (\<lambda>kwds. Inr (py_words content @ title @ kwds)))))"

definition chunk_tokens :: "(pdict \<Rightarrow> string list res) \<Rightarrow> search_result \<Rightarrow> string list list res" where
  "chunk_tokens tokens sres = map_res (\<lambda>i. try_then (field_of sres i) tokens) (sr_ids sres)"

text \<open>Arrays of different sizes do not add.\<close>

definition add_scores :: "real list \<Rightarrow> real list \<Rightarrow> real list res" where
  "add_scores xs ys = (if length xs = length ys then Inr (map2 (+) xs ys) else raise ValueError ''operands could not be broadcast together'')"

text \<open>The chunks, whose keywords may have been listed, and the scores: combined, of tokens, of vectors.\<close>

type_synonym scored = "search_result \<times> real list \<times> real list \<times> real list"

definition combined :: "retrieval_env \<Rightarrow> (string, real) dict \<Rightarrow> search_result \<Rightarrow> real list \<Rightarrow> real list \<Rightarrow> real list \<Rightarrow> scored res" where
  "combined env rf sres base tsim vsim =
     try_then (rank_feature_scores env rf sres) (\<lambda>fea. try_then (add_scores base fea) (\<lambda>sim. Inr (sres, sim, tsim, vsim)))"

definition rerank_with_knn :: "retrieval_env \<Rightarrow> (string, real) dict \<Rightarrow> real \<Rightarrow> real \<Rightarrow> search_result \<Rightarrow> scored res" where
  "rerank_with_knn env rf tkweight vtweight sres0 = (let sres = with_listed_keywords sres0; knn = rv_knn env sres0 in
     try_then (chunk_tokens weighted_tokens sres) (\<lambda>tks.
     let tksim = token_similarity (rv_weights env) (rv_keywords env) tks;
         vtsim = map (\<lambda>i. case map_of knn i of Some x \<Rightarrow> x | None \<Rightarrow> 0) (sr_ids sres)
     in try_then (add_scores (map ((*) tkweight) tksim) (map ((*) vtweight) vtsim)) (\<lambda>base. combined env rf sres base tksim vtsim)))"

definition vector_column :: "nat \<Rightarrow> string" where
  "vector_column len = ''q_'' @ nat_str len @ ''_vec''"

text \<open>A component that is no number reads as minus infinity, which the cosine refuses.\<close>

definition vector_of :: "nat \<Rightarrow> pdict \<Rightarrow> real list res" where
  "vector_of len ch = (case map_of ch (vector_column len) of
     None \<Rightarrow> Inr (replicate len 0)
   | Some (PStr s) \<Rightarrow> map_res (\<lambda>x. case py_float (PStr x) of Inr r \<Rightarrow> Inr (of_rat r) | Inl e \<Rightarrow> raise ValueError ''Input contains infinity'')
       (split_str [CHR 0x09] s)
   | Some (PList vs) \<Rightarrow> map_res (\<lambda>v. try_then (py_float v) (\<lambda>r. Inr (of_rat r))) vs
   | Some v \<Rightarrow> raise ValueError ''Expected 2D array'')"

definition hybrid_similarity ::
    "retrieval_env \<Rightarrow> real list \<Rightarrow> real list list \<Rightarrow> string list \<Rightarrow> string list list \<Rightarrow> real \<Rightarrow> real \<Rightarrow> (real list \<times> real list \<times> real list) res" where
  "hybrid_similarity env avec bvecs atks btkss tkweight vtweight =
     (let sims = rv_cosine env avec bvecs; tksim = token_similarity (rv_weights env) atks btkss in
      if sum_list sims = 0 then Inr (tksim, tksim, sims)
      else try_then (add_scores (map ((*) vtweight) sims) (map ((*) tkweight) tksim)) (\<lambda>sim. Inr (sim, tksim, sims)))"

definition rerank :: "retrieval_env \<Rightarrow> (string, real) dict \<Rightarrow> real \<Rightarrow> real \<Rightarrow> search_result \<Rightarrow> scored res" where
  "rerank env rf tkweight vtweight sres0 =
     try_then (map_res (\<lambda>i. try_then (field_of sres0 i) (vector_of (length (sr_query_vector sres0)))) (sr_ids sres0)) (\<lambda>vectors.
     if vectors = [] then Inr (sres0, [], [], [])
     else let sres = with_listed_keywords sres0 in
       try_then (chunk_tokens weighted_tokens sres) (\<lambda>tks. try_then (rank_feature_scores env rf sres) (\<lambda>fea.
       try_then (hybrid_similarity env (sr_query_vector sres) vectors (rv_keywords env) tks tkweight vtweight) (\<lambda>(sim, tksim, vtsim).
       try_then (add_scores sim fea) (\<lambda>sim. Inr (sres, sim, tksim, vtsim))))))"

definition rerank_by_model ::
    "retrieval_env \<Rightarrow> (string list \<Rightarrow> real list) \<Rightarrow> (string, real) dict \<Rightarrow> real \<Rightarrow> real \<Rightarrow> search_result \<Rightarrow> scored res" where
  "rerank_by_model env rank rf tkweight vtweight sres0 = (let sres = with_listed_keywords sres0 in
     try_then (chunk_tokens model_tokens sres) (\<lambda>tks.
     let docs = map (\<lambda>ts. rv_tidy env (join_str '' '' ts)) tks;
         tksim = token_similarity (rv_weights env) (rv_keywords env) tks;
         vtsim = rank docs
     in try_then (rank_feature_scores env rf sres) (\<lambda>fea. try_then (add_scores (map ((*) tkweight) tksim) (map ((*) vtweight) vtsim)) (\<lambda>base.
        try_then (add_scores base fea) (\<lambda>sim. Inr (sres, sim, tksim, vtsim))))))"

definition engine_score :: "pdict \<Rightarrow> real res" where
  "engine_score ch = (case get_or ch ''_score'' (PFloat 0) of PNone \<Rightarrow> Inr 0 | v \<Rightarrow> try_then (py_float v) (\<lambda>r. Inr (of_rat r)))"

definition score_chunks :: "retrieval_env \<Rightarrow> (string, real) dict \<Rightarrow> real \<Rightarrow> real \<Rightarrow> search_result \<Rightarrow> scored res" where
  "score_chunks env rf tkweight vtweight sres = (case rv_rank env of
     Some rank \<Rightarrow> rerank_by_model env rank rf tkweight vtweight sres
   | None \<Rightarrow> (case rv_engine env of
       Infinity \<Rightarrow> try_then (map_res (\<lambda>i. try_then (field_of sres i) engine_score) (sr_ids sres)) (\<lambda>sim. Inr (sres, sim, sim, sim))
     | OceanBase \<Rightarrow> rerank env rf tkweight vtweight sres
     | OtherEngine \<Rightarrow> rerank_with_knn env rf tkweight vtweight sres))"

section \<open>Windows and pages\<close>

definition ceil_div :: "int \<Rightarrow> int \<Rightarrow> int" where
  "ceil_div a b = - ((- a) div b)"

definition rerank_window :: "int \<Rightarrow> int \<Rightarrow> int" where
  "rerank_window page_size cap =
     (if page_size \<le> 1 then (if cap > 0 then min 30 cap else 30)
      else let window = ceil_div 64 page_size * page_size in
        if cap > 0 then min window (ceil_div cap page_size * page_size) else window)"

record retrieval_request =
  rq_page :: int
  rq_page_size :: int
  rq_threshold :: real
  rq_vector_weight :: real
  rq_top :: int
  rq_aggs :: bool
  rq_highlight :: bool
  rq_features :: "(string, real) dict"

record hit =
  hit_id :: string
  hit_fields :: pdict
  hit_similarity :: real
  hit_vector_similarity :: real
  hit_term_similarity :: real
  hit_highlight :: "string option"

record doc_agg =
  agg_name :: pyval
  agg_doc :: pyval
  agg_count :: nat

record ranks =
  rk_total :: nat
  rk_chunks :: "hit list"
  rk_aggs :: "doc_agg list"

definition no_ranks :: ranks where
  "no_ranks = \<lparr>rk_total = 0, rk_chunks = [], rk_aggs = []\<rparr>"

text \<open>\<open>xs[a:b]\<close>.\<close>

definition py_slice :: "'a list \<Rightarrow> int \<Rightarrow> int \<Rightarrow> 'a list" where
  "py_slice xs a b = (let i = slice_pos (length xs) a; j = slice_pos (length xs) b in take (j - i) (drop i xs))"

text \<open>The positions at or above the threshold, by falling score; equal scores keep their order.\<close>

definition valid_positions :: "real list \<Rightarrow> real \<Rightarrow> nat list" where
  "valid_positions sim threshold = filter (\<lambda>i. sim ! i \<ge> threshold) (sort_key (\<lambda>i. - (sim ! i)) [0..<length sim])"

definition hit_of :: "retrieval_env \<Rightarrow> retrieval_request \<Rightarrow> scored \<Rightarrow> nat \<Rightarrow> hit res" where
  "hit_of env rq = (\<lambda>(sres, sim, tsim, vsim) i. try_then (py_index (sr_ids sres) (int i)) (\<lambda>cid. try_then (field_of sres cid) (\<lambda>ch.
     try_then (dict_item ch ''content_ltks'') (\<lambda>ltks. try_then (dict_item ch ''content_with_weight'') (\<lambda>content.
     try_then (dict_item ch ''kb_id'') (\<lambda>kb. try_then (py_index vsim (int i)) (\<lambda>v. try_then (py_index tsim (int i)) (\<lambda>t.
     let len = length (sr_query_vector sres);
         fields = [(''content_ltks'', ltks), (''content_with_weight'', content), (''doc_id'', get_or ch ''doc_id'' (PStr [])),
           (''docnm_kwd'', get_or ch ''docnm_kwd'' (PStr [])), (''kb_id'', kb), (''important_kwd'', get_or ch ''important_kwd'' (PList [])),
           (''tag_kwd'', get_or ch ''tag_kwd'' (PList [])), (''image_id'', get_or ch ''img_id'' (PStr [])),
           (''vector'', get_or ch (vector_column len) (PList (replicate len (PFloat 0)))), (''positions'', get_or ch ''position_int'' (PList [])),
           (''doc_type_kwd'', get_or ch ''doc_type_kwd'' (PStr [])), (''mom_id'', get_or ch ''mom_id'' (PStr [])),
           (''row_id'', get_none ch ''row_id()'')];
         light = (if rq_highlight rq \<and> sr_highlight sres \<noteq> [] then (case map_of (sr_highlight sres) cid of
             Some h \<Rightarrow> Some (rv_tidy env h) | None \<Rightarrow> Some (text_of content)) else None)
     in Inr \<lparr>hit_id = cid, hit_fields = fields, hit_similarity = sim ! i, hit_vector_similarity = v, hit_term_similarity = t, hit_highlight = light\<rparr>))))))))"

definition add_count :: "pyval \<Rightarrow> pyval \<Rightarrow> doc_agg list \<Rightarrow> doc_agg list" where
  "add_count name doc aggs = (if list_ex (\<lambda>g. agg_name g = name) aggs
     then map (\<lambda>g. if agg_name g = name then g\<lparr>agg_count := Suc (agg_count g)\<rparr> else g) aggs
     else aggs @ [\<lparr>agg_name = name, agg_doc = doc, agg_count = 1\<rparr>])"

definition count_document :: "search_result \<Rightarrow> nat \<Rightarrow> doc_agg list \<Rightarrow> doc_agg list res" where
  "count_document sres i aggs = try_then (py_index (sr_ids sres) (int i)) (\<lambda>cid. try_then (field_of sres cid) (\<lambda>ch.
     let name = get_or ch ''docnm_kwd'' (PStr []); doc = get_or ch ''doc_id'' (PStr []) in
     if \<not> usable_key name then bad_key name
     else Inr (add_count name doc aggs)))"

definition document_counts :: "search_result \<Rightarrow> nat list \<Rightarrow> doc_agg list res" where
  "document_counts sres idx = try_then (fold_res (count_document sres) idx []) (\<lambda>aggs. Inr (sort_key (\<lambda>g. - int (agg_count g)) aggs))"

definition window_of :: "retrieval_env \<Rightarrow> retrieval_request \<Rightarrow> int" where
  "window_of env rq = rerank_window (rq_page_size rq) (if rv_rank env = None then 0 else rq_top rq)"

text \<open>Without weight on vectors the threshold means nothing.\<close>

definition threshold_of :: "retrieval_request \<Rightarrow> real" where
  "threshold_of rq = (if rq_vector_weight rq \<le> 0 then 0 else rq_threshold rq)"

definition page_offset :: "retrieval_request \<Rightarrow> int" where
  "page_offset rq = (max (rq_page rq) 1 - 1) * rq_page_size rq"

definition retrieval :: "retrieval_env \<Rightarrow> retrieval_request \<Rightarrow> string \<Rightarrow> ranks res" where
  "retrieval env rq question =
     (if question = [] then Inr no_ranks
      else let window = window_of env rq; offset = page_offset rq
      in if window = 0 then raise ZeroDivisionError ''integer division or modulo by zero''
      else try_then (rv_search env (offset div window + 1) window) (\<lambda>found.
        let sres = prune_deleted_chunks env found in
        if sr_total sres = 0 then Inr no_ranks
        else try_then (score_chunks env (rq_features rq) (1 - rq_vector_weight rq) (rq_vector_weight rq) sres) (\<lambda>(sres, sim, tsim, vsim).
          let valid = valid_positions sim (threshold_of rq);
              begin = offset mod window
          in if valid = [] then Inr no_ranks
             else try_then (map_res (hit_of env rq (sres, sim, tsim, vsim)) (py_slice valid begin (begin + rq_page_size rq))) (\<lambda>hits.
               try_then (if rq_aggs rq then document_counts sres valid else Inr []) (\<lambda>aggs.
               Inr \<lparr>rk_total = length valid, rk_chunks = hits, rk_aggs = aggs\<rparr>)))))"

section \<open>The window\<close>

lemma ceil_div_bounds: "0 < b \<Longrightarrow> a \<le> ceil_div a b * b \<and> ceil_div a b * b < a + b"
proof -
  assume b: "0 < b"
  have "(- a) div b * b + (- a) mod b = - a" by (rule div_mult_mod_eq)
  moreover have "0 \<le> (- a) mod b" "(- a) mod b < b" using b by simp_all
  moreover have "ceil_div a b * b = - ((- a) div b * b)" by (simp add: ceil_div_def)
  ultimately show ?thesis by linarith
qed

text \<open>With pages of more than one chunk the window is a whole number of pages, at least one; without a ranking model it has
  room for 64 candidates and less than a page more, and with one it stays below the limit of candidates by less than a page.\<close>

theorem window_holds_whole_pages:
  assumes "1 < page_size"
  shows "page_size dvd rerank_window page_size cap \<and> page_size \<le> rerank_window page_size cap
    \<and> (cap \<le> 0 \<longrightarrow> 64 \<le> rerank_window page_size cap) \<and> rerank_window page_size cap < 64 + page_size
    \<and> (0 < cap \<longrightarrow> rerank_window page_size cap < cap + page_size)"
proof -
  let ?a = "ceil_div 64 page_size * page_size" and ?b = "ceil_div cap page_size * page_size"
  have a: "64 \<le> ?a" "?a < 64 + page_size" and b: "cap \<le> ?b" "?b < cap + page_size"
    using ceil_div_bounds [of page_size 64] ceil_div_bounds [of page_size cap] assms by simp_all
  have whole: "page_size \<le> n" if "page_size dvd n" "0 < n" for n using that by (rule zdvd_imp_le)
  obtain x y where xy: "?a = x" "?b = y" "page_size dvd x" "page_size dvd y" by simp
  have window: "rerank_window page_size cap = (if 0 < cap then min x y else x)"
    using assms xy(1,2) by (simp add: rerank_window_def Let_def)
  have "page_size \<le> x" using a(1) xy by (intro whole) simp_all
  moreover have "page_size \<le> y" if "0 < cap" using b(1) xy that by (intro whole) simp_all
  ultimately show ?thesis using a b xy(3,4) unfolding window xy(1,2) by (auto simp: min_def)
qed

theorem window_holds_whole_pages_witness: "7 dvd rerank_window 7 20 \<and> rerank_window 7 20 < 27"
  using window_holds_whole_pages [of 7 20] by simp

section \<open>Pages\<close>

text \<open>All hits of a block of candidates, which the pages of the block cut into slices.\<close>

definition block_hits :: "retrieval_env \<Rightarrow> retrieval_request \<Rightarrow> int \<Rightarrow> hit list res" where
  "block_hits env rq b =
     (let window = window_of env rq in
      try_then (rv_search env (b + 1) window) (\<lambda>found.
        let sres = prune_deleted_chunks env found in
        if sr_total sres = 0 then Inr []
        else try_then (score_chunks env (rq_features rq) (1 - rq_vector_weight rq) (rq_vector_weight rq) sres) (\<lambda>(sres, sim, tsim, vsim).
          map_res (hit_of env rq (sres, sim, tsim, vsim))
            (valid_positions sim (threshold_of rq)))))"

lemma map_res_take: "map_res f xs = Inr ys \<Longrightarrow> map_res f (take n xs) = Inr (take n ys)"
proof (induction xs arbitrary: n ys)
  case Nil
  then show ?case by simp
next
  case (Cons x xs)
  then show ?case by (cases n) (auto simp: try_then_Inr_iff)
qed

lemma map_res_drop: "map_res f xs = Inr ys \<Longrightarrow> map_res f (drop n xs) = Inr (drop n ys)"
proof (induction xs arbitrary: n ys)
  case Nil
  then show ?case by simp
next
  case (Cons x xs)
  then show ?case by (cases n) (auto simp: try_then_Inr_iff)
qed

lemma map_res_slice: "map_res f xs = Inr ys \<Longrightarrow> map_res f (py_slice xs a b) = Inr (py_slice ys a b)"
  using map_res_length [of f xs ys] by (simp add: py_slice_def Let_def map_res_take map_res_drop)

lemma retrieval_run:
  "question \<noteq> [] \<Longrightarrow> retrieval env rq question =
    (if window_of env rq = 0 then raise ZeroDivisionError ''integer division or modulo by zero''
      else try_then (rv_search env (page_offset rq div window_of env rq + 1) (window_of env rq)) (\<lambda>found.
        if sr_total (prune_deleted_chunks env found) = 0 then Inr no_ranks
        else try_then (score_chunks env (rq_features rq) (1 - rq_vector_weight rq) (rq_vector_weight rq) (prune_deleted_chunks env found))
          (\<lambda>(sres, sim, tsim, vsim).
             if valid_positions sim (threshold_of rq) = [] then Inr no_ranks
             else try_then (map_res (hit_of env rq (sres, sim, tsim, vsim)) (py_slice (valid_positions sim (threshold_of rq))
                   (page_offset rq mod window_of env rq) (page_offset rq mod window_of env rq + rq_page_size rq))) (\<lambda>hits.
               try_then (if rq_aggs rq then document_counts sres (valid_positions sim (threshold_of rq)) else Inr []) (\<lambda>aggs.
               Inr \<lparr>rk_total = length (valid_positions sim (threshold_of rq)), rk_chunks = hits, rk_aggs = aggs\<rparr>)))))"
  unfolding retrieval_def Let_def by simp

text \<open>A retrieval that returns: no candidate is left, or the hits of a page of the valid positions.\<close>

lemma retrieval_cases:
  assumes "retrieval env rq question = Inr r"
  obtains (none) "r = no_ranks"
  | (page) found sres sim tsim vsim where "rv_search env (page_offset rq div window_of env rq + 1) (window_of env rq) = Inr found"
      and "sr_total (prune_deleted_chunks env found) \<noteq> 0"
      and "score_chunks env (rq_features rq) (1 - rq_vector_weight rq) (rq_vector_weight rq) (prune_deleted_chunks env found) = Inr (sres, sim, tsim, vsim)"
      and "map_res (hit_of env rq (sres, sim, tsim, vsim)) (py_slice (valid_positions sim (threshold_of rq))
            (page_offset rq mod window_of env rq) (page_offset rq mod window_of env rq + rq_page_size rq)) = Inr (rk_chunks r)"
      and "rk_total r = length (valid_positions sim (threshold_of rq))"
      and "(if rq_aggs rq then document_counts sres (valid_positions sim (threshold_of rq)) else Inr []) = Inr (rk_aggs r)"
proof (cases "question = [] \<or> r = no_ranks")
  case True
  then have "r = no_ranks" using assms by (auto simp: retrieval_def)
  then show ?thesis by (rule none)
next
  case False
  then have q: "question \<noteq> []" and r: "r \<noteq> no_ranks" by auto
  note run = assms [unfolded retrieval_run [OF q]]
  obtain found where found: "rv_search env (page_offset rq div window_of env rq + 1) (window_of env rq) = Inr found"
      "sr_total (prune_deleted_chunks env found) \<noteq> 0"
    using run r by (auto simp: try_then_Inr_iff split: if_split_asm)
  obtain sres sim tsim vsim where sc: "score_chunks env (rq_features rq) (1 - rq_vector_weight rq) (rq_vector_weight rq)
      (prune_deleted_chunks env found) = Inr (sres, sim, tsim, vsim)"
    using run found by (auto simp: try_then_Inr_iff split: if_split_asm)
  show ?thesis using run found r by (intro page [OF found sc]) (auto simp: sc try_then_Inr_iff split: if_split_asm)
qed

lemma retrieval_slice:
  assumes "retrieval env rq question = Inr r" and "question \<noteq> []"
    and "block_hits env rq (page_offset rq div window_of env rq) = Inr hs"
  shows "rk_chunks r = py_slice hs (page_offset rq mod window_of env rq) (page_offset rq mod window_of env rq + rq_page_size rq)"
proof -
  note run = assms(1) [unfolded retrieval_run [OF assms(2)]] and block = assms(3) [unfolded block_hits_def Let_def]
  obtain found where found: "rv_search env (page_offset rq div window_of env rq + 1) (window_of env rq) = Inr found"
    using block by (auto simp: try_then_Inr_iff)
  show ?thesis
  proof (cases "sr_total (prune_deleted_chunks env found) = 0")
    case True
    then have "hs = []" "r = no_ranks" using block run found by (simp_all split: if_split_asm)
    then show ?thesis by (simp add: no_ranks_def py_slice_def)
  next
    case False
    then obtain sres sim tsim vsim where sc: "score_chunks env (rq_features rq) (1 - rq_vector_weight rq) (rq_vector_weight rq)
          (prune_deleted_chunks env found) = Inr (sres, sim, tsim, vsim)"
        and hs: "map_res (hit_of env rq (sres, sim, tsim, vsim)) (valid_positions sim (threshold_of rq)) = Inr hs"
      using block found by (auto simp: try_then_Inr_iff)
    note slice = map_res_slice [OF hs, of "page_offset rq mod window_of env rq" "page_offset rq mod window_of env rq + rq_page_size rq"]
    show ?thesis
    proof (cases "valid_positions sim (threshold_of rq) = []")
      case True
      then have "hs = []" "r = no_ranks" using hs run found False sc by (simp_all split: if_split_asm)
      then show ?thesis by (simp add: no_ranks_def py_slice_def)
    next
      case valid: False
      then show ?thesis using run found False sc slice by (auto simp: try_then_Inr_iff split: if_split_asm)
    qed
  qed
qed

lemma py_slice_nat: "py_slice xs (int a) (int a + int n) = take n (drop a xs)"
proof -
  have "slice_pos (length xs) (int a) = min (length xs) a" "slice_pos (length xs) (int a + int n) = min (length xs) (a + n)"
    by (simp_all add: slice_pos_def nat_add_distrib)
  then show ?thesis by (cases "a \<le> length xs") (auto simp: py_slice_def Let_def min_def)
qed

lemma block_hits_page: "block_hits env (rq\<lparr>rq_page := p\<rparr>) b = block_hits env rq b"
proof -
  have "hit_of env (rq\<lparr>rq_page := p\<rparr>) = hit_of env rq" by (intro ext) (simp add: hit_of_def)
  then show ?thesis by (simp add: block_hits_def window_of_def threshold_of_def cong: if_cong)
qed

text \<open>C31: The pages of a block of candidates deliver together the hits of the block, in order, none twice and none lost: the hits are
  those of all candidates that pass the threshold, as long as the store returns no more than it was asked for.\<close>

theorem pages_tile_the_block:
  assumes "question \<noteq> []" and "0 < rq_page_size rq" and "window_of env rq = int m * rq_page_size rq" and "0 \<le> b"
    and "block_hits env rq b = Inr hs" and "int (length hs) \<le> window_of env rq"
    and "\<And>q. q < m \<Longrightarrow> retrieval env (rq\<lparr>rq_page := b * int m + int q + 1\<rparr>) question = Inr (r q)"
  shows "concat (map (\<lambda>q. rk_chunks (r q)) [0..<m]) = hs"
proof -
  define n where "n = nat (rq_page_size rq)"
  have n: "rq_page_size rq = int n" "0 < n" using assms(2) by (simp_all add: n_def)
  have page: "rk_chunks (r q) = take n (drop (q * n) hs)" if q: "q < m" for q
  proof -
    let ?rq = "rq\<lparr>rq_page := b * int m + int q + 1\<rparr>"
    have "window_of env ?rq = window_of env rq" by (simp add: window_of_def)
    then have w: "window_of env ?rq = int m * int n" using assms(3) n(1) by simp
    have o: "page_offset ?rq = b * (int m * int n) + int q * int n"
    proof -
      have "max (b * int m + int q + 1) 1 = b * int m + int q + 1" using assms(4) by (intro max_absorb1) simp
      then show ?thesis using n(1) by (simp add: page_offset_def algebra_simps)
    qed
    have lt: "int q * int n < int m * int n" "0 \<le> int q * int n" using q n(2) by simp_all
    have "c \<noteq> 0 \<Longrightarrow> 0 \<le> d \<Longrightarrow> d < c \<Longrightarrow> (b * c + d) div c = b \<and> (b * c + d) mod c = d" for c d :: int
      by (simp add: div_mult_self3)
    then have "page_offset ?rq div window_of env ?rq = b" "page_offset ?rq mod window_of env ?rq = int q * int n"
      unfolding o w using lt by (metis less_le_not_le order.strict_trans1)+
    moreover have "block_hits env ?rq b = Inr hs" using assms(5) by (simp only: block_hits_page)
    ultimately have "rk_chunks (r q) = py_slice hs (int q * int n) (int q * int n + int n)"
      using retrieval_slice [OF assms(7) [OF q] assms(1)] n(1) by simp
    also have "\<dots> = take n (drop (q * n) hs)"
      using py_slice_nat [of hs "q * n" n] by simp
    finally show ?thesis .
  qed
  have "concat (map (\<lambda>q. take n (drop (q * n) hs)) [0..<k]) = take (k * n) hs" for k
  proof (induction k)
    case (Suc k)
    have "take (Suc k * n) hs = take (k * n) hs @ take n (drop (k * n) hs)" by (metis add.commute mult_Suc take_add)
    then show ?case using Suc by simp
  qed simp
  moreover have "map (\<lambda>q. rk_chunks (r q)) [0..<m] = map (\<lambda>q. take n (drop (q * n) hs)) [0..<m]" using page by simp
  ultimately have "concat (map (\<lambda>q. rk_chunks (r q)) [0..<m]) = take (m * n) hs" by (simp only:)
  then show ?thesis using assms(3,6) n(1) by (metis int_ops(7) of_nat_le_iff take_all)
qed

section \<open>Order and counts\<close>

lemma sorted_valid: "sorted_wrt (\<lambda>i j. sim ! i \<ge> sim ! j) (valid_positions sim threshold)"
proof -
  have "sorted (map (\<lambda>i. - (sim ! i)) (sort_key (\<lambda>i. - (sim ! i)) [0..<length sim]))" by simp
  then have "sorted_wrt (\<lambda>i j. - (sim ! i) \<le> - (sim ! j)) (sort_key (\<lambda>i. - (sim ! i)) [0..<length sim])" by (simp add: sorted_map)
  then show ?thesis unfolding valid_positions_def by (intro sorted_wrt_filter) simp
qed

lemma valid_above: "i \<in> set (valid_positions sim threshold) \<Longrightarrow> i < length sim \<and> sim ! i \<ge> threshold"
  by (simp add: valid_positions_def)

lemma slice_sorted: "sorted_wrt P xs \<Longrightarrow> sorted_wrt P (py_slice xs a b)"
  by (simp add: py_slice_def Let_def sorted_wrt_take sorted_wrt_drop)

lemma slice_subset: "set (py_slice xs a b) \<subseteq> set xs"
  unfolding py_slice_def Let_def by (meson order_trans set_drop_subset set_take_subset)

lemma slice_length:
  assumes "0 \<le> a" and "0 \<le> k"
  shows "int (length (py_slice xs a (a + k))) \<le> k"
proof -
  have "length (py_slice xs a (a + k)) \<le> min (length xs) (nat (a + k)) - min (length xs) (nat a)"
    using assms by (simp add: py_slice_def slice_pos_def Let_def)
  also have "\<dots> \<le> nat (a + k) - nat a" by simp
  finally show ?thesis using assms by linarith
qed

lemma map_res_nth: "map_res f xs = Inr ys \<Longrightarrow> i < length xs \<Longrightarrow> f (xs ! i) = Inr (ys ! i)"
proof (induction xs arbitrary: ys i)
  case (Cons x xs)
  then show ?case by (cases i) (auto simp: try_then_Inr_iff)
qed simp

lemma hit_score: "hit_of env rq (sres, sim, tsim, vsim) i = Inr h \<Longrightarrow> hit_similarity h = sim ! i"
  by (auto simp: hit_of_def try_then_Inr_iff Let_def)

text \<open>The hits of a retrieval are in falling order of their scores, none is below the threshold, and they are no more than a page.\<close>

theorem hits_ordered_above_threshold:
  assumes "retrieval env rq question = Inr r" and "0 \<le> rq_page_size rq" and "0 < window_of env rq"
  shows "sorted_wrt (\<lambda>g h. hit_similarity g \<ge> hit_similarity h) (rk_chunks r)
    \<and> (\<forall>h \<in> set (rk_chunks r). hit_similarity h \<ge> threshold_of rq) \<and> int (length (rk_chunks r)) \<le> rq_page_size rq"
  using assms(1)
proof (cases rule: retrieval_cases)
  case none
  then show ?thesis using assms(2) by (simp add: no_ranks_def)
next
  case (page found sres sim tsim vsim)
  let ?o = "page_offset rq mod window_of env rq"
  let ?p = "py_slice (valid_positions sim (threshold_of rq)) ?o (?o + rq_page_size rq)"
  have o: "0 \<le> ?o" using assms(3) by simp
  have len: "length (rk_chunks r) = length ?p" using map_res_length [OF page(4)] by simp
  have score: "hit_similarity (rk_chunks r ! i) = sim ! (?p ! i)" if "i < length ?p" for i
    using map_res_nth [OF page(4) that] by (rule hit_score)
  have "sorted_wrt (\<lambda>i j. sim ! i \<ge> sim ! j) ?p" using sorted_valid by (rule slice_sorted)
  then have "sorted_wrt (\<lambda>g h. hit_similarity g \<ge> hit_similarity h) (rk_chunks r)"
    unfolding sorted_wrt_iff_nth_less len using score by simp
  moreover have "hit_similarity h \<ge> threshold_of rq" if mem: "h \<in> set (rk_chunks r)" for h
  proof -
    obtain i where lt: "i < length (rk_chunks r)" and h: "rk_chunks r ! i = h" using mem unfolding in_set_conv_nth by blast
    have i: "i < length ?p" using lt unfolding len .
    have "?p ! i \<in> set (valid_positions sim (threshold_of rq))" using slice_subset nth_mem [OF i] by (rule subsetD)
    then have "sim ! (?p ! i) \<ge> threshold_of rq" using valid_above by blast
    then show ?thesis using score [OF i] unfolding h by simp
  qed
  moreover have "int (length ?p) \<le> rq_page_size rq"
    using o assms(2) by (rule slice_length)
  ultimately show ?thesis using len by simp
qed

lemma add_count_names: "distinct (map agg_name aggs) \<Longrightarrow> distinct (map agg_name (add_count name doc aggs))"
proof -
  have "map agg_name (map (\<lambda>g. if agg_name g = name then g\<lparr>agg_count := Suc (agg_count g)\<rparr> else g) aggs) = map agg_name aggs" by simp
  moreover assume "distinct (map agg_name aggs)"
  ultimately show ?thesis by (auto simp: add_count_def list_ex_iff simp del: map_map)
qed

lemma add_count_total: "distinct (map agg_name aggs) \<Longrightarrow> sum_list (map agg_count (add_count name doc aggs)) = Suc (sum_list (map agg_count aggs))"
proof (induction aggs)
  case Nil
  then show ?case by (simp add: add_count_def)
next
  case (Cons g gs)
  show ?case
  proof (cases "agg_name g = name")
    case True
    then have "map (\<lambda>g. if agg_name g = name then g\<lparr>agg_count := Suc (agg_count g)\<rparr> else g) gs = gs"
      using Cons.prems by (intro map_idI) (metis distinct.simps(2) list.set_map list.simps(9) rev_image_eqI)
    then show ?thesis using True by (simp add: add_count_def)
  next
    case False
    then have "add_count name doc (g # gs) = g # add_count name doc gs" by (simp add: add_count_def)
    then show ?thesis using Cons by simp
  qed
qed

lemma counted_total:
  "count_document sres i aggs = Inr aggs' \<Longrightarrow> distinct (map agg_name aggs) \<Longrightarrow>
    distinct (map agg_name aggs') \<and> sum_list (map agg_count aggs') = Suc (sum_list (map agg_count aggs))"
  by (auto simp: count_document_def try_then_Inr_iff Let_def bad_key_def add_count_names add_count_total split: if_split_asm)

lemma counted_totals:
  "fold_res (count_document sres) idx aggs = Inr aggs' \<Longrightarrow> distinct (map agg_name aggs) \<Longrightarrow>
    distinct (map agg_name aggs') \<and> sum_list (map agg_count aggs') = length idx + sum_list (map agg_count aggs)"
proof (induction idx arbitrary: aggs)
  case (Cons i idx)
  then obtain as where "count_document sres i aggs = Inr as" "fold_res (count_document sres) idx as = Inr aggs'"
    by (auto simp: try_then_Inr_iff)
  then show ?case using counted_total [of sres i aggs as] Cons by fastforce
qed simp

text \<open>The counts per document name each document once, in falling order, and add up to the number of candidates above the threshold.\<close>

theorem document_counts_add_up:
  assumes "retrieval env rq question = Inr r" and "rq_aggs rq"
  shows "distinct (map agg_name (rk_aggs r)) \<and> sorted_wrt (\<lambda>g h. agg_count g \<ge> agg_count h) (rk_aggs r)
    \<and> sum_list (map agg_count (rk_aggs r)) = rk_total r"
  using assms(1)
proof (cases rule: retrieval_cases)
  case none
  then show ?thesis by (simp add: no_ranks_def)
next
  case (page found sres sim tsim vsim)
  obtain aggs where aggs: "fold_res (count_document sres) (valid_positions sim (threshold_of rq)) [] = Inr aggs"
      "rk_aggs r = sort_key (\<lambda>g. - int (agg_count g)) aggs"
    using page(6) assms(2) by (auto simp: document_counts_def try_then_Inr_iff)
  have "distinct (map agg_name aggs)" "sum_list (map agg_count aggs) = rk_total r" using counted_totals [OF aggs(1)] page(5) by simp_all
  moreover have "mset (rk_aggs r) = mset aggs" unfolding aggs(2) by simp
  ultimately have "distinct (map agg_name (rk_aggs r))" "sum_list (map agg_count (rk_aggs r)) = rk_total r"
    by (metis mset_map mset_eq_imp_distinct_iff, metis mset_map sum_mset_sum_list)
  moreover have "sorted (map (\<lambda>g. - int (agg_count g)) (rk_aggs r))" unfolding aggs(2) by simp
  ultimately show ?thesis by (simp add: sorted_map)
qed

section \<open>Deleted documents\<close>

lemma kept_fields:
  "map_of (fold (\<lambda>i d. case map_of f i of Some ch \<Rightarrow> dset i ch d | None \<Rightarrow> d) is acc) j = Some ch \<Longrightarrow>
    map_of acc j = Some ch \<or> j \<in> set is \<and> map_of f j = Some ch"
proof (induction "is" arbitrary: acc)
  case (Cons i js)
  then show ?case
  proof (cases "map_of f i")
    case None
    then show ?thesis using Cons.prems Cons.IH [of acc] by auto
  next
    case (Some c)
    then have "map_of (dset i c acc) j = Some ch \<or> j \<in> set js \<and> map_of f j = Some ch" using Cons.prems Cons.IH [of "dset i c acc"] by simp
    then show ?thesis using Some by (auto simp: dget_dset split: if_splits)
  qed
qed simp

text \<open>After pruning a chunk with a document has one that exists.\<close>

lemma pruned_field:
  assumes "\<And>docs. set (rv_existing env docs) = set docs \<inter> db" and "map_of (sr_field (prune_deleted_chunks env sres)) i = Some ch"
    and "get_none ch ''doc_id'' = PStr d" and "d \<noteq> []"
  shows "d \<in> db"
proof -
  define docs where "docs = map text_of (chunk_doc_ids sres)"
  have ex: "set (rv_existing env docs) = set docs \<inter> db" using assms(1) .
  have doc: "d \<in> set docs" if "map_of (sr_field sres) i = Some ch"
  proof -
    have "(i, ch) \<in> set (sr_field sres)" "ch \<noteq> []" using that assms(3) by (auto simp: get_or_def dest: map_of_SomeD)
    then have "PStr d \<in> set (chunk_doc_ids sres)" using assms(3,4) unfolding chunk_doc_ids_def by force
    then show ?thesis unfolding docs_def by force
  qed
  consider (empty) "docs = []" | (all) "docs \<noteq> []" "card (set (rv_existing env docs)) = card (set docs)"
    | (some) "docs \<noteq> []" "card (set (rv_existing env docs)) \<noteq> card (set docs)" by blast
  then show ?thesis
  proof cases
    case empty
    then show ?thesis using doc assms(2) by (simp add: prune_deleted_chunks_def docs_def [symmetric])
  next
    case all
    then have "set (rv_existing env docs) = set docs" using ex by (intro card_subset_eq) auto
    then show ?thesis using doc assms(2) all ex by (auto simp: prune_deleted_chunks_def docs_def [symmetric])
  next
    case some
    define kept where "kept = filter (\<lambda>i. case map_of (sr_field sres) i of Some ch \<Rightarrow> ch \<noteq> [] \<and> in_documents (rv_existing env docs) ch | None \<Rightarrow> False) (sr_ids sres)"
    have "map_of (fold (\<lambda>i e. case map_of (sr_field sres) i of Some ch \<Rightarrow> dset i ch e | None \<Rightarrow> e) kept []) i = Some ch"
      using assms(2) some by (simp add: prune_deleted_chunks_def docs_def [symmetric] keep_existing_def Let_def kept_def)
    then have "i \<in> set kept" "map_of (sr_field sres) i = Some ch" using kept_fields by fastforce+
    then have "in_documents (rv_existing env docs) ch" by (simp add: kept_def)
    then show ?thesis using assms(3) ex by (simp add: in_documents_def)
  qed
qed

lemma scored_fields: "score_chunks env rf a b s = Inr (sres, sim, tsim, vsim) \<Longrightarrow> sres = s \<or> sres = with_listed_keywords s"
  by (auto simp: score_chunks_def rerank_by_model_def rerank_def rerank_with_knn_def combined_def try_then_Inr_iff Let_def
      split: option.splits engine.splits if_splits)

lemma listed_doc_id: "get_none (listed_keywords ch) ''doc_id'' = get_none ch ''doc_id''"
  by (auto simp: listed_keywords_def get_or_dset split: pyval.splits)

lemma listed_field: "map_of (sr_field (with_listed_keywords s)) i = Some ch \<Longrightarrow>
    \<exists>ch0. map_of (sr_field s) i = Some ch0 \<and> get_none ch ''doc_id'' = get_none ch0 ''doc_id''"
proof -
  have listed: "map_of (map (\<lambda>(i, ch). (i, if i \<in> I then listed_keywords ch else ch)) d) j
      = map_option (\<lambda>ch. if j \<in> I then listed_keywords ch else ch) (map_of d j)" for I d j
    by (induction d) auto
  assume "map_of (sr_field (with_listed_keywords s)) i = Some ch"
  then have "map_option (\<lambda>ch. if i \<in> set (sr_ids s) then listed_keywords ch else ch) (map_of (sr_field s) i) = Some ch"
    by (simp add: with_listed_keywords_def listed)
  then show ?thesis by (auto simp: listed_doc_id split: if_splits)
qed

lemma get_none_Some: "map_of d k = Some v \<Longrightarrow> get_none d k = v"
  by (simp add: get_or_def)

lemma hit_chunk: "hit_of env rq (sres, sim, tsim, vsim) i = Inr h \<Longrightarrow>
    \<exists>ch. map_of (sr_field sres) (hit_id h) = Some ch \<and> get_none (hit_fields h) ''doc_id'' = get_or ch ''doc_id'' (PStr [])"
  by (auto simp: hit_of_def try_then_Inr_iff Let_def field_of_def key_error_def get_none_Some split: option.splits)

text \<open>C32: No hit of a retrieval belongs to a document that has been deleted, when asking for documents answers with those that exist.\<close>

theorem deleted_documents_not_retrieved:
  assumes "retrieval env rq question = Inr r" and "\<And>docs. set (rv_existing env docs) = set docs \<inter> db"
    and "h \<in> set (rk_chunks r)" and "get_none (hit_fields h) ''doc_id'' = PStr d" and "d \<noteq> []"
  shows "d \<in> db"
  using assms(1)
proof (cases rule: retrieval_cases)
  case none
  then show ?thesis using assms(3) by (simp add: no_ranks_def)
next
  case (page found sres sim tsim vsim)
  obtain i where "i < length (rk_chunks r)" "rk_chunks r ! i = h" using assms(3) unfolding in_set_conv_nth by blast
  then have "\<exists>i. hit_of env rq (sres, sim, tsim, vsim) i = Inr h"
    using map_res_nth [OF page(4), of i] map_res_length [OF page(4)] by auto
  then obtain cid ch where ch: "map_of (sr_field sres) cid = Some ch" "get_none (hit_fields h) ''doc_id'' = get_or ch ''doc_id'' (PStr [])"
    using hit_chunk by blast
  then have d: "get_none ch ''doc_id'' = PStr d" using assms(4,5) by (auto simp: get_or_def split: option.splits)
  obtain ch0 where "map_of (sr_field (prune_deleted_chunks env found)) cid = Some ch0" "get_none ch0 ''doc_id'' = PStr d"
    using scored_fields [OF page(3)] ch(1) d listed_field by metis
  then show ?thesis using pruned_field [OF assms(2)] assms(5) by blast
qed

section \<open>Bounds of the scores\<close>

lemma add_weight_nonneg:
  assumes "list_all (\<lambda>p. 0 \<le> snd p) d" and "0 \<le> x"
  shows "list_all (\<lambda>p. 0 \<le> snd p) (add_weight k x d)"
proof -
  have "0 \<le> (case dget d k of Some y \<Rightarrow> y | None \<Rightarrow> 0)" using assms(1)
    by (auto simp: list_all_iff split: option.splits dest!: map_of_SomeD)
  then have "0 \<le> (case dget d k of Some y \<Rightarrow> y | None \<Rightarrow> 0) + x" using assms(2) by simp
  then show ?thesis unfolding add_weight_def using assms(1) by (induction d) auto
qed

lemma token_dict_nonneg:
  "list_all (\<lambda>w. 0 \<le> snd w) ws \<Longrightarrow> list_all (\<lambda>p. 0 \<le> snd p) d \<Longrightarrow> list_all (\<lambda>p. 0 \<le> snd p) (token_dict ws d)"
proof (induction ws d rule: token_dict.induct)
  case (2 t c ws d)
  let ?d = "add_weight t (c * 0.4) d"
  have d: "list_all (\<lambda>p. 0 \<le> snd p) ?d" using "2.prems" by (intro add_weight_nonneg) simp_all
  have "list_all (\<lambda>p. 0 \<le> snd p) (case ws of [] \<Rightarrow> ?d | (t', c') # _ \<Rightarrow> add_weight (t @ t') (max c c' * 0.6) ?d)"
    using d "2.prems"(1) by (auto intro!: add_weight_nonneg split: list.splits)
  moreover have "list_all (\<lambda>w. 0 \<le> snd w) ws" using "2.prems"(1) by simp
  ultimately show ?case unfolding token_dict.simps Let_def by (intro "2.IH" [OF refl])
qed simp

text \<open>The similarity of tokens is positive and at most one, when no weight is negative.\<close>

theorem token_similarity_bounded:
  assumes "\<And>ts w. w \<in> set (weights ts) \<Longrightarrow> 0 \<le> snd w" and "x \<in> set (token_similarity weights atks btkss)"
  shows "0 < x \<and> x \<le> 1"
proof -
  obtain b where x: "x = similarity (token_dict (weights atks) []) (token_dict (weights b) [])"
    using assms(2) by (auto simp: token_similarity_def)
  define q where "q = token_dict (weights atks) []"
  define f where "f = filter (\<lambda>(k, v). has_key (token_dict (weights b) []) k) q"
  have q: "list_all (\<lambda>p. 0 \<le> snd p) q" unfolding q_def using assms(1) by (intro token_dict_nonneg) (auto simp: list_all_iff)
  then have "0 \<le> sum_list (map snd f)" by (intro sum_list_nonneg) (auto simp: f_def list_all_iff)
  moreover have "sum_list (map snd f) \<le> sum_list (map snd q)"
    using q unfolding f_def by (induction q) (auto simp: add_increasing)
  ultimately show ?thesis unfolding x similarity_def q_def [symmetric] f_def [symmetric] by simp
qed

lemma cauchy_schwarz_list:
  fixes ps :: "(real \<times> real) list"
  shows "(sum_list (map (\<lambda>(x, y). x * y) ps))\<^sup>2 \<le> sum_list (map (\<lambda>(x, y). x * x) ps) * sum_list (map (\<lambda>(x, y). y * y) ps)"
proof (induction ps)
  case (Cons p ps)
  obtain x y where p: "p = (x, y)" by (cases p)
  define s a b where "s = sum_list (map (\<lambda>(x, y). x * y) ps)" and "a = sum_list (map (\<lambda>(x, y). x * x) ps)"
    and "b = sum_list (map (\<lambda>(x, y). y * y) ps)"
  have ab: "0 \<le> a" "0 \<le> b" unfolding a_def b_def by (intro sum_list_nonneg; auto)+
  have s: "s\<^sup>2 \<le> a * b" using Cons by (simp add: s_def a_def b_def)
  have "(2 * (x * y * s))\<^sup>2 = 4 * (x\<^sup>2 * y\<^sup>2) * s\<^sup>2" by (simp add: power2_eq_square)
  also have "\<dots> \<le> 4 * (x\<^sup>2 * y\<^sup>2) * (a * b)" using s by (intro mult_left_mono) simp_all
  also have "\<dots> \<le> (x\<^sup>2 * b + y\<^sup>2 * a)\<^sup>2"
    using zero_le_power2 [of "x\<^sup>2 * b - y\<^sup>2 * a"] by (simp add: power2_eq_square algebra_simps)
  finally have "2 * (x * y * s) \<le> x\<^sup>2 * b + y\<^sup>2 * a"
    by (rule power2_le_imp_le) (use ab in simp)
  then have "(x * y + s)\<^sup>2 \<le> (x * x + a) * (y * y + b)"
    using s by (simp add: power2_eq_square algebra_simps)
  then show ?case by (simp add: p s_def a_def b_def)
qed simp

definition weight_in :: "(string, real) dict \<Rightarrow> string \<Rightarrow> real" where
  "weight_in rf t = (case map_of rf t of Some w \<Rightarrow> w | None \<Rightarrow> 0)"

lemma weight_outside: "t \<notin> set (dkeys rf) \<Longrightarrow> weight_in rf t = 0"
  by (simp add: weight_in_def map_of_eq_None_iff [THEN iffD2])

lemma tag_norm_weights:
  assumes "dict_ok rf"
  shows "tag_norm sqrt rf = sqrt (\<Sum>t \<in> set (dkeys rf) - {''pagerank_fea''}. weight_in rf t * weight_in rf t)"
proof -
  let ?f = "filter (\<lambda>(t, s). t \<noteq> ''pagerank_fea'') rf"
  have "map (\<lambda>(t, s). s * s) ?f = map (\<lambda>t. weight_in rf t * weight_in rf t) (map fst ?f)"
    using assms by (auto simp: weight_in_def dict_ok_def)
  moreover have "distinct (map fst ?f)" using assms by (simp add: dict_ok_def distinct_map_filter)
  moreover have "set (map fst ?f) = set (dkeys rf) - {''pagerank_fea''}" by force
  ultimately show ?thesis by (simp add: tag_norm_def sum_list_distinct_conv_sum_set del: map_map)
qed

text \<open>The tags of a chunk move its score by no more than ten, whatever the weights of the query and of the tags are, as long as no
  tag has the name of the page rank.\<close>

theorem tag_score_bounded:
  assumes "dict_ok rf" and "dict_ok feas" and "''pagerank_fea'' \<notin> set (dkeys feas)" and "tag_norm sqrt rf \<noteq> 0"
  shows "\<bar>tag_score sqrt rf feas * 10\<bar> \<le> 10"
proof -
  define ps where "ps = map (\<lambda>(t, sc). (weight_in rf t, of_rat sc :: real)) feas"
  define nor where "nor = sum_list (map (\<lambda>(x, y). x * y) ps)"
  define a where "a = sum_list (map (\<lambda>(x, y). x * x) ps)"
  define b where "b = sum_list (map (\<lambda>(x, y). y * y) ps)"
  have nor: "nor = sum_list (map (\<lambda>(t, sc). (case map_of rf t of Some w \<Rightarrow> w * of_rat sc | None \<Rightarrow> 0)) feas)"
    unfolding nor_def ps_def by (auto simp: weight_in_def comp_def case_prod_unfold intro!: arg_cong [where f = sum_list] split: option.splits)
  have b: "b = sum_list (map (\<lambda>(t, sc). of_rat sc * of_rat sc) feas)" unfolding b_def ps_def by (simp add: comp_def case_prod_unfold)
  have "0 \<le> b" unfolding b_def by (intro sum_list_nonneg) auto
  have n: "tag_norm sqrt rf = sqrt (\<Sum>t \<in> set (dkeys rf) - {''pagerank_fea''}. weight_in rf t * weight_in rf t)" (is "_ = sqrt ?s")
    using assms(1) by (rule tag_norm_weights)
  have "a = sum_list (map (\<lambda>t. weight_in rf t * weight_in rf t) (dkeys feas))" unfolding a_def ps_def by (simp add: comp_def case_prod_unfold)
  also have "\<dots> = (\<Sum>t \<in> set (dkeys feas). weight_in rf t * weight_in rf t)" using assms(2) by (simp add: dict_ok_def sum_list_distinct_conv_sum_set del: map_map set_map)
  also have "\<dots> = (\<Sum>t \<in> set (dkeys feas) \<inter> (set (dkeys rf) - {''pagerank_fea''}). weight_in rf t * weight_in rf t)"
  proof (rule sum.mono_neutral_right)
    show "\<forall>t \<in> set (dkeys feas) - set (dkeys feas) \<inter> (set (dkeys rf) - {''pagerank_fea''}). weight_in rf t * weight_in rf t = 0"
    proof
      fix t
      assume t: "t \<in> set (dkeys feas) - set (dkeys feas) \<inter> (set (dkeys rf) - {''pagerank_fea''})"
      then have "t \<noteq> ''pagerank_fea''" using assms(3) by blast
      then have "t \<notin> set (dkeys rf)" using t by blast
      then have "weight_in rf t = 0" by (rule weight_outside)
      then show "weight_in rf t * weight_in rf t = 0" by simp
    qed
  qed simp_all
  also have "\<dots> \<le> ?s" by (intro sum_mono2) auto
  finally have a: "a \<le> ?s" .
  have "nor\<^sup>2 \<le> a * b" unfolding nor_def a_def b_def by (rule cauchy_schwarz_list)
  also have "\<dots> \<le> ?s * b" using a \<open>0 \<le> b\<close> by (rule mult_right_mono)
  finally have "sqrt (nor\<^sup>2) \<le> sqrt (?s * b)" by (rule real_sqrt_le_mono)
  then have "\<bar>nor\<bar> \<le> tag_norm sqrt rf * sqrt b" unfolding n by (simp add: real_sqrt_mult)
  moreover have "0 \<le> tag_norm sqrt rf" unfolding n by (intro real_sqrt_ge_zero sum_nonneg) simp
  then have "0 < tag_norm sqrt rf" using assms(4) by simp
  moreover have "tag_score sqrt rf feas = (if b = 0 then 0 else nor / sqrt b / tag_norm sqrt rf)" by (simp add: tag_score_def nor b Let_def)
  ultimately show ?thesis using \<open>0 \<le> b\<close> by (simp add: field_simps abs_mult)
qed

section \<open>A store with two pages\<close>

definition search_chunk :: "string \<Rightarrow> rat \<Rightarrow> pdict" where
  "search_chunk doc score = [(''content_ltks'', PStr ''x''), (''content_with_weight'', PStr ''x''), (''kb_id'', PStr ''k''),
     (''doc_id'', PStr doc), (''docnm_kwd'', PStr doc), (''_score'', PFloat score)]"

definition search_env :: retrieval_env where
  "search_env = \<lparr>rv_engine = Infinity,
     rv_search = \<lambda>page size. Inr \<lparr>sr_total = 4, sr_ids = [''a'', ''b'', ''c'', ''d''], sr_query_vector = [],
       sr_field = [(''a'', search_chunk ''u'' (1 / 2)), (''b'', search_chunk ''v'' (9 / 10)), (''c'', search_chunk ''gone'' 1), (''d'', search_chunk ''u'' (1 / 10))],
       sr_highlight = []\<rparr>,
     rv_existing = filter (\<lambda>d. d \<noteq> ''gone''), rv_keywords = [], rv_weights = \<lambda>ts. [], rv_cosine = \<lambda>v vs. [], rv_knn = \<lambda>s. [],
     rv_rank = None, rv_tidy = id, rv_sqrt = id\<rparr>"

definition search_request :: "int \<Rightarrow> retrieval_request" where
  "search_request page = \<lparr>rq_page = page, rq_page_size = 40, rq_threshold = 1 / 5, rq_vector_weight = 3 / 10, rq_top = 1024,
     rq_aggs = True, rq_highlight = False, rq_features = []\<rparr>"

definition search_ranks :: "int \<Rightarrow> ranks" where
  "search_ranks page = projr (retrieval search_env (search_request page) ''q'')"

lemma search_run: "isl (retrieval search_env (search_request 1) ''q'') = False" "isl (retrieval search_env (search_request 2) ''q'') = False"
  by code_simp+

lemma search_result_of: "page \<in> {1, 2} \<Longrightarrow> retrieval search_env (search_request page) ''q'' = Inr (search_ranks page)"
  using search_run by (cases "retrieval search_env (search_request page) ''q''") (auto simp: search_ranks_def)

lemma search_hits: "map hit_id (rk_chunks (search_ranks 1)) = [''b'', ''a'']" "map hit_id (rk_chunks (search_ranks 2)) = []"
  by code_simp+

lemma search_window: "window_of search_env (search_request 1) = 80"
  by code_simp

lemma search_block: "\<exists>hs. block_hits search_env (search_request 1) 0 = Inr hs \<and> map hit_id hs = [''b'', ''a'']"
proof -
  have split: "(case w of Inr hs \<Rightarrow> P hs | Inl e \<Rightarrow> False) \<Longrightarrow> \<exists>hs. w = Inr hs \<and> P hs" for w :: "hit list res" and P by (cases w) simp_all
  have "(case block_hits search_env (search_request 1) 0 of Inr hs \<Rightarrow> map hit_id hs = [''b'', ''a''] | Inl e \<Rightarrow> False)" by code_simp
  then show ?thesis by (rule split)
qed

theorem pages_tile_the_block_witness:
  "\<exists>hs. block_hits search_env (search_request 1) 0 = Inr hs \<and> concat (map (\<lambda>q. rk_chunks (search_ranks (int q + 1))) [0..<2]) = hs"
proof -
  from search_block obtain hs where hs: "block_hits search_env (search_request 1) 0 = Inr hs" "map hit_id hs = [''b'', ''a'']"
    by (elim exE conjE)
  have len: "length hs = 2" using arg_cong [OF hs(2), of length] by simp
  have page: "search_request 1\<lparr>rq_page := p\<rparr> = search_request p" for p by (simp add: search_request_def)
  have "concat (map (\<lambda>q. rk_chunks (search_ranks (int q + 1))) [0..<2]) = hs"
    by (rule pages_tile_the_block [where question = "''q''" and rq = "search_request 1" and env = search_env and b = 0])
       (auto simp: page hs(1) len search_window search_result_of less_2_cases_iff, simp_all add: search_request_def)
  then show ?thesis using hs(1) by blast
qed

theorem hits_ordered_above_threshold_witness:
  "sorted_wrt (\<lambda>g h. hit_similarity g \<ge> hit_similarity h) (rk_chunks (search_ranks 1))"
  using hits_ordered_above_threshold [OF search_result_of, of 1] search_window by (simp add: search_request_def)

theorem document_counts_add_up_witness: "sum_list (map agg_count (rk_aggs (search_ranks 1))) = rk_total (search_ranks 1)"
  using document_counts_add_up [OF search_result_of, of 1] by (simp add: search_request_def)

theorem deleted_documents_not_retrieved_witness:
  "get_none (hit_fields (hd (rk_chunks (search_ranks 1)))) ''doc_id'' = PStr ''v'' \<and> ''v'' \<in> {d. d \<noteq> ''gone''}"
proof
  have "rk_chunks (search_ranks 1) \<noteq> []" using search_hits(1) by auto
  then have first: "hd (rk_chunks (search_ranks 1)) \<in> set (rk_chunks (search_ranks 1))" by simp
  show doc: "get_none (hit_fields (hd (rk_chunks (search_ranks 1)))) ''doc_id'' = PStr ''v''" by code_simp
  show "''v'' \<in> {d. d \<noteq> ''gone''}"
    by (rule deleted_documents_not_retrieved [OF search_result_of, of 1, OF _ _ first doc]) (auto simp: search_env_def)
qed

theorem token_similarity_bounded_witness:
  "list_all (\<lambda>x. 0 < x \<and> x \<le> 1) (token_similarity (map (\<lambda>t. (t, 1))) [''a'', ''b''] [[''b''], [''c'']])"
proof -
  have "0 < x \<and> x \<le> 1" if "x \<in> set (token_similarity (map (\<lambda>t. (t, 1))) [''a'', ''b''] [[''b''], [''c'']])" for x
    by (rule token_similarity_bounded [OF _ that]) auto
  then show ?thesis by (simp only: list_all_iff) blast
qed

theorem tag_score_bounded_witness: "\<bar>tag_score sqrt [(''a'', 3)] [(''a'', 2), (''b'', 5)] * 10\<bar> \<le> 10"
  by (rule tag_score_bounded) (simp_all add: dict_ok_def tag_norm_def)

end
