(* ===== verification/Citations.thy ===== *)
theory Citations
  imports PyVal
begin

text \<open>
  The citations of an answer, after \<open>insert_citations\<close> of \<^verbatim>\<open>rag/nlp/search.py\<close>: the answer is cut into sentences,
  code blocks kept whole, and behind a sentence the chunks that resemble it are named, each once. How much each
  chunk resembles each sentence is a parameter, and so is the order in which a set of numbers is walked.
\<close>

section \<open>Sentences\<close>

definition is_continuation :: "char \<Rightarrow> bool" where
  "is_continuation c = (0x80 \<le> (of_char c :: nat) \<and> (of_char c :: nat) < 0xC0)"

text \<open>The characters of a text, each the bytes of its UTF-8 form.\<close>

function text_chars :: "string \<Rightarrow> string list" where
  "text_chars [] = []"
| "text_chars (c # cs) = (c # takeWhile is_continuation cs) # text_chars (dropWhile is_continuation cs)"
  by pat_completeness auto
termination by (relation "measure length") (auto simp: le_imp_less_Suc length_dropWhile_le)

text \<open>The marks that end a sentence by themselves, and those that need a blank after them.\<close>

definition strong_marks :: "string list" where
  "strong_marks = [[CHR 0xEF, CHR 0xBC, CHR 0x9B], [CHR 0xE3, CHR 0x80, CHR 0x82], [CHR 0xEF, CHR 0xBC, CHR 0x9F], ''!'',
     [CHR 0xEF, CHR 0xBC, CHR 0x81], [CHR 0xD8, CHR 0x8C], [CHR 0xD8, CHR 0x9B], [CHR 0xD8, CHR 0x9F], [CHR 0xDB, CHR 0x94], [CHR 0x0A]]"

definition weak_marks :: "string list" where
  "weak_marks = [''.'', ''?'', '';'', ''!'', [CHR 0xD8, CHR 0x8C], [CHR 0xD8, CHR 0x9B], [CHR 0xD8, CHR 0x9F]]"

definition is_letter :: "string \<Rightarrow> bool" where
  "is_letter x = ((length x = 1 \<and> hd x \<in> set lower_letters) \<or> (length x = 2 \<and> hd x \<in> {CHR 0xD8, CHR 0xD9, CHR 0xDA, CHR 0xDB}))"

text \<open>The number of characters of the boundary a text starts with.\<close>

definition boundary :: "string list \<Rightarrow> nat option" where
  "boundary cs = (case cs of
     x # y # rest \<Rightarrow> if x \<noteq> ''|'' \<and> y \<in> set strong_marks then Some 2
       else (case rest of z # _ \<Rightarrow> if is_letter x \<and> y \<in> set weak_marks \<and> z \<in> {'' '', [CHR 0x0A]} then Some 3 else None | [] \<Rightarrow> None)
   | _ \<Rightarrow> None)"

lemma boundary_Some: "boundary cs = Some n \<Longrightarrow> 0 < n \<and> n \<le> length cs"
  by (auto simp: boundary_def split: list.splits if_splits)

text \<open>\<open>re.split\<close> at the boundaries, which it keeps between the parts.\<close>

function split_sentences :: "string \<Rightarrow> string list \<Rightarrow> string list" where
  "split_sentences part cs = (case boundary cs of
     Some n \<Rightarrow> part # concat (take n cs) # split_sentences [] (drop n cs)
   | None \<Rightarrow> (case cs of [] \<Rightarrow> [part] | c # cs' \<Rightarrow> split_sentences (part @ c) cs'))"
  by pat_completeness auto
termination by (relation "measure (\<lambda>(p, cs). length cs)") (auto dest: boundary_Some)

declare split_sentences.simps [simp del]

definition fence :: string where
  "fence = ''```''"

text \<open>The parts between fences with the fences between them.\<close>

fun with_fences :: "string list \<Rightarrow> string list" where
  "with_fences [] = []"
| "with_fences [p] = [p]"
| "with_fences (p # q # ps) = p # fence # with_fences (q # ps)"

text \<open>A block of code is one piece, with a line feed behind it; the rest is cut into sentences.\<close>

function code_pieces :: "string list \<Rightarrow> string list" where
  "code_pieces [] = []"
| "code_pieces (p # ps) =
     (if p = fence then
        (let body = takeWhile (\<lambda>q. q \<noteq> fence) ps; rest = dropWhile (\<lambda>q. q \<noteq> fence) ps in
         (concat (p # body) @ concat (take 1 rest) @ [CHR 0x0A]) # code_pieces (drop 1 rest))
      else split_sentences [] (text_chars p) @ code_pieces ps)"
  by pat_completeness auto
termination by (relation "measure length") (auto simp: less_Suc_eq_le intro: le_trans [OF diff_le_self length_dropWhile_le])

text \<open>The first character of a boundary goes to the part before it.\<close>

fun move_heads :: "string \<Rightarrow> string list \<Rightarrow> string list" where
  "move_heads p [] = [p]"
| "move_heads p (q # qs) = (case text_chars q of
     c # cs \<Rightarrow> if boundary (c # cs) \<noteq> None then (p @ c) # move_heads (concat cs) qs else p # move_heads q qs
   | [] \<Rightarrow> p # move_heads q qs)"

definition answer_pieces :: "string \<Rightarrow> string list" where
  "answer_pieces answer =
     (let parts = with_fences (split_str fence answer);
          pieces = (if length parts \<ge> 3 then code_pieces parts else split_sentences [] (text_chars answer))
      in move_heads (hd pieces) (tl pieces))"

text \<open>The positions of the pieces that are long enough to be cited.\<close>

definition cited_positions :: "string list \<Rightarrow> nat list" where
  "cited_positions pieces = filter (\<lambda>i. length (text_chars (pieces ! i)) \<ge> 5) [0..<length pieces]"

section \<open>Chunks\<close>

text \<open>
  What the embedding and the tokens say: for the sentences, the similarity of each of them with each chunk; and the
  order in which the numbers of a set are walked.
\<close>

record cite_env =
  ce_sims :: "string list \<Rightarrow> nat \<Rightarrow> rat list"
  ce_order :: "nat list \<Rightarrow> nat list"

definition cite_piece :: "cite_env \<Rightarrow> rat \<Rightarrow> rat list \<Rightarrow> nat list option res" where
  "cite_piece env thr sim =
     (if sim = [] then raise ValueError ''zero-size array to reduction operation maximum which has no identity''
      else let mx = Max (set sim) * 99 / 100 in
        if mx < thr then Inr None
        else Inr (Some (take 4 (ce_order env (filter (\<lambda>i. sim ! i > mx) [0..<length sim])))))"

definition cite_round :: "cite_env \<Rightarrow> string list \<Rightarrow> nat list \<Rightarrow> rat \<Rightarrow> (nat, nat list) dict res" where
  "cite_round env sentences idx thr = fold_res (\<lambda>i cites. try_then (cite_piece env thr (ce_sims env sentences i)) (\<lambda>c.
     Inr (case c of Some cs \<Rightarrow> dset (idx ! i) cs cites | None \<Rightarrow> cites))) [0..<length sentences] []"

text \<open>The threshold falls by a fifth until some sentence is cited.\<close>

function cite_rounds :: "cite_env \<Rightarrow> string list \<Rightarrow> nat list \<Rightarrow> rat \<Rightarrow> (nat, nat list) dict res" where
  "cite_rounds env sentences idx thr =
     (if thr \<le> 3 / 10 then Inr []
      else case cite_round env sentences idx thr of
        Inl e \<Rightarrow> Inl e
      | Inr cites \<Rightarrow> if cites \<noteq> [] then Inr cites else cite_rounds env sentences idx (thr * 8 / 10))"
  by pat_completeness auto
termination
proof (relation "measure (\<lambda>(env, ss, idx, thr). nat \<lceil>thr / (6 / 100)\<rceil>)")
  fix thr :: rat
  assume "\<not> thr \<le> 3 / 10"
  then have "thr * 8 / 10 / (6 / 100) \<le> thr / (6 / 100) - 1" "0 < thr / (6 / 100)" by (simp_all add: field_simps)
  then have "\<lceil>thr * 8 / 10 / (6 / 100)\<rceil> \<le> \<lceil>thr / (6 / 100)\<rceil> - 1" "0 < \<lceil>thr / (6 / 100)\<rceil>"
    by (metis ceiling_diff_one ceiling_mono, simp)
  then show "((env, ss, idx, thr * 8 / 10), env, ss, idx, thr) \<in> measure (\<lambda>(env, ss, idx, thr). nat \<lceil>thr / (6 / 100)\<rceil>)" for env ss idx
    by simp
qed simp

declare cite_rounds.simps [simp del]

definition marker :: "nat \<Rightarrow> string" where
  "marker c = '' [ID:'' @ nat_str c @ '']''"

text \<open>A chunk is named where it is cited first.\<close>

fun name_chunks :: "nat list \<Rightarrow> nat list \<Rightarrow> string \<times> nat list" where
  "name_chunks [] seted = ([], seted)"
| "name_chunks (c # cs) seted =
     (if c \<in> set seted then name_chunks cs seted
      else let (written, names) = name_chunks cs (seted @ [c]) in (marker c @ written, names))"

fun write_pieces :: "(nat, nat list) dict \<Rightarrow> nat \<Rightarrow> string list \<Rightarrow> nat list \<Rightarrow> string \<times> nat list" where
  "write_pieces cites i [] seted = ([], seted)"
| "write_pieces cites i (p # ps) seted =
     (let (named, seted) = (case dget cites i of None \<Rightarrow> ([], seted) | Some cs \<Rightarrow> name_chunks cs seted);
          (written, seted) = write_pieces cites (Suc i) ps seted
      in (p @ named @ written, seted))"

text \<open>The answer with its citations and the chunks they name, in the order of their naming.\<close>

definition insert_citations :: "cite_env \<Rightarrow> string \<Rightarrow> nat \<Rightarrow> nat \<Rightarrow> (string \<times> nat list) res" where
  "insert_citations env answer chunks vectors =
     (if chunks \<noteq> vectors then raise AssertionError []
      else if chunks = 0 then Inr (answer, [])
      else let pieces = answer_pieces answer; idx = cited_positions pieces; sentences = map ((!) pieces) idx in
        if sentences = [] then Inr (answer, [])
        else try_then (cite_rounds env sentences idx (63 / 100)) (\<lambda>cites. Inr (write_pieces cites 0 pieces [])))"

section \<open>Citing only inserts\<close>

lemma concat_text_chars: "concat (text_chars s) = s"
  by (induction s rule: text_chars.induct) simp_all

lemma concat_split_sentences: "concat (split_sentences part cs) = part @ concat cs"
proof (induction part cs rule: split_sentences.induct)
  case (1 part cs)
  show ?case
  proof (cases "boundary cs")
    case None
    show ?thesis
    proof (cases cs)
      case Nil
      then show ?thesis using None by (subst split_sentences.simps) simp
    next
      case (Cons c cs')
      then show ?thesis using 1 None by (subst split_sentences.simps) simp
    qed
  next
    case (Some n)
    have "concat (take n cs) @ concat (drop n cs) = concat cs" by (metis append_take_drop_id concat_append)
    then show ?thesis using 1 Some by (subst split_sentences.simps) simp
  qed
qed

lemma split_sentences_nonempty: "split_sentences part cs \<noteq> []"
proof (induction part cs rule: split_sentences.induct)
  case (1 part cs)
  then show ?case by (subst split_sentences.simps) (auto split: option.split list.split)
qed

lemma concat_move_heads: "concat (move_heads p qs) = p @ concat qs"
proof (induction p qs rule: move_heads.induct)
  case (2 p q qs)
  then show ?case using concat_text_chars [of q] by (cases "text_chars q") auto
qed simp

lemma answer_pieces_concat: "\<not> sublist fence answer \<Longrightarrow> concat (answer_pieces answer) = answer"
proof -
  assume "\<not> sublist fence answer"
  then have "split_str fence answer = [answer]" by (rule split_str_absent)
  moreover have "concat (move_heads (hd ps) (tl ps)) = concat ps" if "ps \<noteq> []" for ps
    using that by (cases ps) (simp_all add: concat_move_heads)
  ultimately show ?thesis using split_sentences_nonempty concat_split_sentences [of "[]" "text_chars answer"]
    by (simp add: answer_pieces_def concat_text_chars Let_def)
qed

lemma name_chunks_marks:
  "name_chunks cs seted = (written, names) \<Longrightarrow> distinct seted \<Longrightarrow>
    \<exists>ms. written = concat (map marker ms) \<and> names = seted @ ms \<and> distinct names \<and> set ms \<subseteq> set cs"
proof (induction cs seted arbitrary: written rule: name_chunks.induct)
  case (2 c cs seted)
  show ?case
  proof (cases "c \<in> set seted")
    case True
    then show ?thesis using 2(1) [OF True] 2(3,4) by auto
  next
    case False
    obtain t where t: "name_chunks cs (seted @ [c]) = (t, names)" "written = marker c @ t"
      using 2(3) False by (auto split: prod.splits)
    then obtain ms where "t = concat (map marker ms)" "names = seted @ [c] @ ms" "distinct names" "set ms \<subseteq> set cs"
      using 2(2) [OF False t(1)] 2(4) False by auto
    then show ?thesis using t(2) by (intro exI [of _ "c # ms"]) auto
  qed
qed simp

lemma write_pieces_marks:
  "write_pieces cites i ps seted = (written, names) \<Longrightarrow> distinct seted \<Longrightarrow>
    \<exists>marks. length marks = length ps \<and> written = concat (map2 (\<lambda>p ms. p @ concat (map marker ms)) ps marks)
      \<and> names = seted @ concat marks \<and> distinct names \<and> set (concat marks) \<subseteq> \<Union> (set ` set (map snd cites))"
proof (induction cites i ps seted arbitrary: written rule: write_pieces.induct)
  case (2 cites i p ps seted)
  define here where "here = (case dget cites i of None \<Rightarrow> ([], seted) | Some cs \<Rightarrow> name_chunks cs seted)"
  obtain named mid where here: "here = (named, mid)" by (cases here)
  have "\<exists>ms. named = concat (map marker ms) \<and> mid = seted @ ms \<and> distinct mid \<and> set ms \<subseteq> \<Union> (set ` set (map snd cites))"
  proof (cases "dget cites i")
    case None
    then show ?thesis using here 2(3) by (simp add: here_def)
  next
    case (Some cs)
    then have "cs \<in> set (map snd cites)" by (force dest: map_of_SomeD)
    moreover obtain ms where "named = concat (map marker ms)" "mid = seted @ ms" "distinct mid" "set ms \<subseteq> set cs"
      using name_chunks_marks [of cs seted named mid] here Some 2(3) by (auto simp: here_def)
    ultimately show ?thesis by blast
  qed
  then obtain ms where ms: "named = concat (map marker ms)" "mid = seted @ ms" "distinct mid" "set ms \<subseteq> \<Union> (set ` set (map snd cites))" by blast
  obtain t where t: "write_pieces cites (Suc i) ps mid = (t, names)" "written = p @ named @ t"
    using 2(2) here by (auto simp: here_def split: prod.splits)
  obtain marks where "length marks = length ps" "t = concat (map2 (\<lambda>p ms. p @ concat (map marker ms)) ps marks)"
      "names = mid @ concat marks" "distinct names" "set (concat marks) \<subseteq> \<Union> (set ` set (map snd cites))"
    using 2(1) [of here named mid] t(1) here ms(3) by (auto simp: here_def)
  then show ?case using t(2) ms by (intro exI [of _ "ms # marks"]) auto
qed simp

text \<open>The order in which a set is walked neither adds nor loses a number.\<close>

definition walks_sets :: "cite_env \<Rightarrow> bool" where
  "walks_sets env = (\<forall>xs. set (ce_order env xs) = set xs)"

text \<open>What a round cites resembles its sentence by more than the threshold.\<close>

definition resembling :: "cite_env \<Rightarrow> string list \<Rightarrow> nat \<Rightarrow> (nat, nat list) dict \<Rightarrow> bool" where
  "resembling env sentences n cites = list_all (\<lambda>(i, cs). list_all (\<lambda>c. c < n
     \<and> (\<exists>k < length sentences. 3 / 10 < ce_sims env sentences k ! c)) cs) cites"

lemma resembling_dset: "resembling env ss n d \<Longrightarrow>
    list_all (\<lambda>c. c < n \<and> (\<exists>k < length ss. 3 / 10 < ce_sims env ss k ! c)) cs \<Longrightarrow> resembling env ss n (dset i cs d)"
  unfolding resembling_def by (induction d) auto

lemma cite_round_resembling:
  assumes "walks_sets env" and "3 / 10 < thr" and "list_all (\<lambda>k. length (ce_sims env ss k) = n) [0..<length ss]"
    and "cite_round env ss idx thr = Inr cites"
  shows "resembling env ss n cites"
  using assms(4) unfolding cite_round_def
proof (rule fold_res_invariant [where P = "resembling env ss n"])
  show "resembling env ss n []" by (simp add: resembling_def)
next
  fix k d d'
  assume k: "k \<in> set [0..<length ss]" and d: "resembling env ss n d"
    and step: "try_then (cite_piece env thr (ce_sims env ss k)) (\<lambda>c. Inr (case c of Some cs \<Rightarrow> dset (idx ! k) cs d | None \<Rightarrow> d)) = Inr d'"
  obtain c where c: "cite_piece env thr (ce_sims env ss k) = Inr c" "d' = (case c of Some cs \<Rightarrow> dset (idx ! k) cs d | None \<Rightarrow> d)"
    using step by (auto simp: try_then_Inr_iff)
  show "resembling env ss n d'"
  proof (cases c)
    case None
    then show ?thesis using c(2) d by simp
  next
    case (Some cs)
    let ?sim = "ce_sims env ss k" and ?mx = "Max (set (ce_sims env ss k)) * 99 / 100"
    have mx: "thr \<le> ?mx" and cs: "cs = take 4 (ce_order env (filter (\<lambda>i. ?mx < ?sim ! i) [0..<length ?sim]))"
      using c(1) Some by (auto simp: cite_piece_def Let_def split: if_split_asm)
    have len: "length ?sim = n" using assms(3) k by (simp add: list_all_iff)
    have "set cs \<subseteq> set (filter (\<lambda>i. ?mx < ?sim ! i) [0..<length ?sim])"
      using assms(1) set_take_subset [of 4] unfolding cs walks_sets_def by metis
    then have "x < n \<and> 3 / 10 < ?sim ! x" if "x \<in> set cs" for x using that mx assms(2) len by fastforce
    then have "list_all (\<lambda>x. x < n \<and> (\<exists>k < length ss. 3 / 10 < ce_sims env ss k ! x)) cs" using k by (auto simp: list_all_iff)
    then show ?thesis using c(2) Some d by (simp add: resembling_dset)
  qed
qed

lemma cite_rounds_resembling:
  "cite_rounds env ss idx thr = Inr cites \<Longrightarrow> walks_sets env \<Longrightarrow>
    list_all (\<lambda>k. length (ce_sims env ss k) = n) [0..<length ss] \<Longrightarrow> resembling env ss n cites"
proof (induction env ss idx thr rule: cite_rounds.induct)
  case (1 env ss idx thr)
  note run = "1.prems"(1) [unfolded cite_rounds.simps [of env ss idx thr]]
  show ?case
  proof (cases "thr \<le> 3 / 10")
    case True
    then show ?thesis using run by (simp add: resembling_def)
  next
    case False
    then obtain c where c: "cite_round env ss idx thr = Inr c" using run by (auto split: sum.splits)
    show ?thesis
    proof (cases "c = []")
      case True
      then show ?thesis using run False c "1.IH" [OF False c] "1.prems"(2,3) by simp
    next
      case cited: False
      then have "cites = c" using run False c by simp
      then show ?thesis using cite_round_resembling [OF "1.prems"(2) _ "1.prems"(3) c] False by simp
    qed
  qed
qed

text \<open>C33: Inserting citations changes an answer without code blocks by nothing but markers behind its sentences: cut at the right
  places the answer is the text without them, each cited chunk is named exactly once, and the chunks named are those reported.\<close>

theorem citations_only_insert:
  assumes "insert_citations env answer chunks vectors = Inr (res, named)" and "\<not> sublist fence answer"
  shows "\<exists>pieces marks. concat pieces = answer \<and> length marks = length pieces
    \<and> res = concat (map2 (\<lambda>p ms. p @ concat (map marker ms)) pieces marks) \<and> concat marks = named \<and> distinct named"
proof -
  note run = assms(1) [unfolded insert_citations_def Let_def]
  have same: ?thesis if "res = answer" "named = []"
    using that by (intro exI [of _ "[answer]"] exI [of _ "[[]]"]) simp
  show ?thesis
  proof (cases "chunks = 0 \<or> map ((!) (answer_pieces answer)) (cited_positions (answer_pieces answer)) = []")
    case True
    then show ?thesis using run by (intro same) (auto split: if_split_asm)
  next
    case False
    then obtain cites where w: "write_pieces cites 0 (answer_pieces answer) [] = (res, named)"
      using run by (auto simp: try_then_Inr_iff split: if_split_asm)
    show ?thesis using write_pieces_marks [OF w] answer_pieces_concat [OF assms(2)] by auto
  qed
qed

text \<open>Every chunk that is cited exists and resembles some sentence of the answer by more than three tenths, the least threshold.\<close>

theorem cited_chunks_resemble:
  assumes "insert_citations env answer n n = Inr (res, named)" and "walks_sets env" and "c \<in> set named"
    and "\<And>ss k. length (ce_sims env ss k) = n"
  shows "c < n \<and> (\<exists>ss k. k < length ss \<and> 3 / 10 < ce_sims env ss k ! c)"
proof -
  note run = assms(1) [unfolded insert_citations_def Let_def]
  define ss where "ss = map ((!) (answer_pieces answer)) (cited_positions (answer_pieces answer))"
  have "n \<noteq> 0 \<and> ss \<noteq> []" using run assms(3) by (auto simp: ss_def split: if_split_asm)
  then obtain cites where cites: "cite_rounds env ss (cited_positions (answer_pieces answer)) (63 / 100) = Inr cites"
      and w: "write_pieces cites 0 (answer_pieces answer) [] = (res, named)"
    using run unfolding ss_def by (auto simp: try_then_Inr_iff split: if_split_asm)
  have "resembling env ss n cites" by (rule cite_rounds_resembling [OF cites assms(2)]) (simp add: assms(4) list_all_iff)
  moreover obtain marks where "named = concat marks" "set (concat marks) \<subseteq> \<Union> (set ` set (map snd cites))"
    using write_pieces_marks [OF w] by auto
  moreover then have "c \<in> \<Union> (set ` set (map snd cites))" using assms(3) by blast
  ultimately show ?thesis by (fastforce simp: resembling_def list_all_iff)
qed

section \<open>An answer with a citation\<close>

definition cite_test :: cite_env where
  "cite_test = \<lparr>ce_sims = \<lambda>ss k. [1 / 10, 1 / 2], ce_order = id\<rparr>"

lemma cite_test_run: "insert_citations cite_test ''Berlin is big. And old.'' 2 2 = Inr (''Berlin is big [ID:1]. And old.'', [1])"
  by code_simp

theorem citations_only_insert_witness:
  "\<exists>pieces marks. concat pieces = ''Berlin is big. And old.'' \<and> length marks = length pieces \<and> concat marks = [1]
    \<and> ''Berlin is big [ID:1]. And old.'' = concat (map2 (\<lambda>p ms. p @ concat (map marker ms)) pieces marks)"
proof -
  have "\<not> sublist fence ''Berlin is big. And old.''" by code_simp
  from citations_only_insert [OF cite_test_run this] show ?thesis by blast
qed

theorem cited_chunks_resemble_witness: "(1 :: nat) < 2 \<and> (\<exists>ss k. k < length ss \<and> 3 / 10 < ce_sims cite_test ss k ! 1)"
  by (rule cited_chunks_resemble [OF cite_test_run]) (simp_all add: cite_test_def walks_sets_def)

text \<open>An answer with a block of code is changed in its text too: a line feed follows the block.\<close>

lemma code_block_gains_a_line:
  "insert_citations (cite_test\<lparr>ce_sims := \<lambda>ss k. [0]\<rparr>) ''see ```x```, ok'' 1 1 = Inr (''see ```x```'' @ [CHR 0x0A] @ '', ok'', [])"
  by code_simp

end
