(* ===== verification/TaskService.thy ===== *)
theory TaskService
  imports RedisStore
begin

text \<open>
  The tasks of documents, after \<open>TaskService\<close> of \<^verbatim>\<open>api/db/services/task_service.py\<close>: rows of the database, the
  handing out of a task to a worker, reports of progress with their log, and cancellation through Redis, with
  \<open>set_progress\<close> of \<^verbatim>\<open>rag/svr/task_executor.py\<close>, which workers report through. A statement on the database is one
  step; a report reads its row before it takes the lock, so reports interleave by a step relation. Progress is
  exact; the length of a text is its number of characters, each of one byte.
\<close>

section \<open>Rows\<close>

datatype run_status = UNSTART | RUNNING | CANCEL | DONE | FAIL | SCHEDULE

record task_row =
  tr_id :: string
  tr_doc :: string
  tr_from :: int
  tr_to :: int
  tr_type :: string
  tr_priority :: int
  tr_begin :: "rat option"
  tr_duration :: rat
  tr_progress :: rat
  tr_msg :: string
  tr_retry :: nat
  tr_digest :: string
  tr_chunk_ids :: string
  tr_created :: int

record document_row =
  dr_id :: string
  dr_kb :: string
  dr_type :: string
  dr_parser :: string
  dr_config :: pdict
  dr_tokens :: int
  dr_chunks :: int
  dr_progress :: rat
  dr_msg :: string
  dr_begin :: "rat option"
  dr_duration :: rat
  dr_run :: "run_status option"
  dr_valid :: bool
  dr_source :: string

record kb_row =
  kr_id :: string
  kr_tenant :: string
  kr_docs :: int
  kr_tokens :: int
  kr_chunks :: int

record db =
  db_tasks :: "task_row list"
  db_documents :: "document_row list"
  db_kbs :: "kb_row list"
  db_tenants :: "string list"

text \<open>\<open>UPDATE ... WHERE\<close> and \<open>DELETE ... WHERE\<close>.\<close>

definition update_where :: "('r \<Rightarrow> bool) \<Rightarrow> ('r \<Rightarrow> 'r) \<Rightarrow> 'r list \<Rightarrow> 'r list" where
  "update_where p f = map (\<lambda>r. if p r then f r else r)"

definition delete_where :: "('r \<Rightarrow> bool) \<Rightarrow> 'r list \<Rightarrow> 'r list" where
  "delete_where p = filter (\<lambda>r. \<not> p r)"

definition task_of :: "db \<Rightarrow> string \<Rightarrow> task_row option" where
  "task_of d i = find (\<lambda>t. tr_id t = i) (db_tasks d)"

definition document_of :: "db \<Rightarrow> string \<Rightarrow> document_row option" where
  "document_of d i = find (\<lambda>r. dr_id r = i) (db_documents d)"

definition kb_of :: "db \<Rightarrow> string \<Rightarrow> kb_row option" where
  "kb_of d i = find (\<lambda>r. kr_id r = i) (db_kbs d)"

section \<open>Tasks of a document\<close>

text \<open>The order of the tasks of a document: by first page, the younger first.\<close>

datatype task_key = TaskKey int int

instantiation task_key :: linorder
begin

fun less_eq_task_key :: "task_key \<Rightarrow> task_key \<Rightarrow> bool" where
  "less_eq_task_key (TaskKey p c) (TaskKey q d) = (p < q \<or> p = q \<and> d \<le> c)"

definition less_task_key :: "task_key \<Rightarrow> task_key \<Rightarrow> bool" where
  "less_task_key a b = (a \<le> b \<and> \<not> b \<le> a)"

instance
proof
  fix a b c :: task_key
  show "a < b \<longleftrightarrow> a \<le> b \<and> \<not> b \<le> a" by (simp add: less_task_key_def)
  show "a \<le> a" by (cases a) simp
  show "a \<le> b \<Longrightarrow> b \<le> c \<Longrightarrow> a \<le> c" by (cases a; cases b; cases c) auto
  show "a \<le> b \<Longrightarrow> b \<le> a \<Longrightarrow> a = b" by (cases a; cases b) auto
  show "a \<le> b \<or> b \<le> a" by (cases a; cases b) auto
qed

end

definition task_key :: "task_row \<Rightarrow> task_key" where
  "task_key t = TaskKey (tr_from t) (tr_created t)"

definition get_tasks :: "string \<Rightarrow> db \<Rightarrow> task_row list" where
  "get_tasks doc d = sort_key task_key (filter (\<lambda>t. tr_doc t = doc) (db_tasks d))"

definition get_tasks_progress_by_doc_ids :: "string list \<Rightarrow> db \<Rightarrow> task_row list" where
  "get_tasks_progress_by_doc_ids docs d = sort_key (\<lambda>t. - tr_created t) (filter (\<lambda>t. tr_doc t \<in> set docs) (db_tasks d))"

definition update_chunk_ids :: "string \<Rightarrow> string \<Rightarrow> db \<Rightarrow> db" where
  "update_chunk_ids i ids d = d\<lparr>db_tasks := update_where (\<lambda>t. tr_id t = i) (tr_chunk_ids_update (\<lambda>_. ids)) (db_tasks d)\<rparr>"

definition delete_by_doc_ids :: "string list \<Rightarrow> db \<Rightarrow> db" where
  "delete_by_doc_ids docs d = d\<lparr>db_tasks := delete_where (\<lambda>t. tr_doc t \<in> set docs) (db_tasks d)\<rparr>"

text \<open>The task row does not match without its document, the knowledge base of that and its tenant.\<close>

definition joined_rows :: "string \<Rightarrow> db \<Rightarrow> (document_row \<times> kb_row) option" where
  "joined_rows doc d = (case document_of d doc of None \<Rightarrow> None
   | Some r \<Rightarrow> (case kb_of d (dr_kb r) of None \<Rightarrow> None
     | Some k \<Rightarrow> if kr_tenant k \<in> set (db_tenants d) then Some (r, k) else None))"

text \<open>
  \<open>get_task\<close>: the comparison of the document column with a text is an expression, which counts as true, so the
  first of the given documents is joined_rows whenever there are any.
\<close>

definition get_task :: "string \<Rightarrow> rat \<Rightarrow> string \<Rightarrow> string list \<Rightarrow> db \<Rightarrow> (task_row \<times> document_row \<times> kb_row) option \<times> db" where
  "get_task now luck i doc_ids d = (case task_of d i of None \<Rightarrow> (None, d)
   | Some t \<Rightarrow> (case joined_rows (if doc_ids = [] then tr_doc t else hd doc_ids) d of None \<Rightarrow> (None, d)
     | Some (r, k) \<Rightarrow>
         let spent = tr_retry t \<ge> 3;
             msg = CHR 0x0A # (if spent then ''ERROR: Task is abandoned after 3 times attempts.'' else now @ '' Task has been received.'')
         in (if spent then None else Some (t, r, k),
             d\<lparr>db_tasks := update_where (\<lambda>u. tr_id u = i)
               (\<lambda>u. u\<lparr>tr_msg := tr_msg u @ msg, tr_progress := (if spent then - 1 else luck / 10), tr_retry := tr_retry t + 1\<rparr>) (db_tasks d)\<rparr>)))"

section \<open>Progress\<close>

fun after_break :: "nat \<Rightarrow> string \<Rightarrow> string option" where
  "after_break m [] = None"
| "after_break m (c # cs) = (if c = CHR 0x0A \<and> Suc (length cs) \<le> m then Some cs else after_break m cs)"

definition trim_header_by_lines :: "string \<Rightarrow> nat \<Rightarrow> string" where
  "trim_header_by_lines s max_length =
     (if length s \<le> max_length then s else case after_break max_length s of Some t \<Rightarrow> t | None \<Rightarrow> s)"

record progress_info =
  pi_msg :: "string option"
  pi_progress :: "rat option"

definition may_set_progress :: "rat \<Rightarrow> rat \<Rightarrow> bool" where
  "may_set_progress new cur = (new \<ge> 1 \<or> cur \<noteq> - 1 \<and> (new = - 1 \<or> new > cur))"

definition write_msg :: "nat \<Rightarrow> string \<Rightarrow> string \<Rightarrow> string \<Rightarrow> task_row list \<Rightarrow> task_row list" where
  "write_msg limit i read_msg msg = update_where (\<lambda>t. tr_id t = i)
     (tr_msg_update (\<lambda>_. trim_header_by_lines (read_msg @ [CHR 0x0A] @ msg) limit))"

definition write_progress :: "string \<Rightarrow> rat \<Rightarrow> task_row list \<Rightarrow> task_row list" where
  "write_progress i new = update_where (\<lambda>t. tr_id t = i \<and> may_set_progress new (tr_progress t)) (tr_progress_update (\<lambda>_. new))"

text \<open>What a report does with the row that it has read; a report without a message raises, whatever its progress.\<close>

definition report :: "nat \<Rightarrow> rat \<Rightarrow> progress_info \<Rightarrow> task_row \<Rightarrow> task_row list \<Rightarrow> unit res \<times> task_row list" where
  "report limit now info t ts = (case pi_msg info of None \<Rightarrow> (key_error ''progress_msg'', ts)
   | Some msg \<Rightarrow>
       let ts = (if msg = [] then ts else write_msg limit (tr_id t) (tr_msg t) msg ts);
           ts = (case pi_progress info of None \<Rightarrow> ts | Some p \<Rightarrow> write_progress (tr_id t) p ts);
           ts = (case tr_begin t of None \<Rightarrow> ts | Some b \<Rightarrow> update_where (\<lambda>u. tr_id u = tr_id t) (tr_duration_update (\<lambda>_. now - b)) ts)
       in (Inr (), ts))"

text \<open>A report that no other interrupts; \<open>get_by_id\<close> raises when there is no such task.\<close>

definition update_progress :: "nat \<Rightarrow> rat \<Rightarrow> string \<Rightarrow> progress_info \<Rightarrow> db \<Rightarrow> unit res \<times> db" where
  "update_progress limit now i info d = (case task_of d i of
     None \<Rightarrow> (raise DoesNotExist [], d)
   | Some t \<Rightarrow> (case report limit now info t (db_tasks d) of (r, ts) \<Rightarrow> (r, d\<lparr>db_tasks := ts\<rparr>)))"

section \<open>Reports that interleave\<close>

text \<open>The rows, and the reports that have read theirs and not yet written.\<close>

type_synonym reporting = "task_row list \<times> (progress_info \<times> task_row) list"

inductive report_step :: "nat \<Rightarrow> reporting \<Rightarrow> reporting \<Rightarrow> bool" for limit :: nat where
  begin_report: "find (\<lambda>t. tr_id t = i) ts = Some t \<Longrightarrow> report_step limit (ts, ps) (ts, ps @ [(info, t)])"
| end_report: "report limit now info t ts = (r, ts') \<Longrightarrow> report_step limit (ts, ps @ (info, t) # qs) (ts', ps @ qs)"

inductive_cases report_stepE: "report_step limit s s'"

section \<open>Cancellation\<close>

definition cancel_key :: "string \<Rightarrow> string" where
  "cancel_key i = i @ ''-cancel''"

record 's task_world =
  wd_db :: db
  wd_redis :: 's

definition on_redis :: "('s, 'a) act \<Rightarrow> ('s task_world, 'a) act" where
  "on_redis m w = (case m (wd_redis w) of (r, s) \<Rightarrow> (r, w\<lparr>wd_redis := s\<rparr>))"

definition on_db :: "(db \<Rightarrow> 'a res \<times> db) \<Rightarrow> ('s task_world, 'a) act" where
  "on_db m w = (case m (wd_db w) of (r, d) \<Rightarrow> (r, w\<lparr>wd_db := d\<rparr>))"

text \<open>The expiry that \<open>REDIS_CONN.set\<close> takes by default, in seconds.\<close>

definition default_expiry :: nat where
  "default_expiry = 3600"

definition set_flag :: "'s redis_api \<Rightarrow> task_row \<Rightarrow> ('s task_world, unit) act" where
  "set_flag api t = try_except (bnd (on_redis (redis_set api (cancel_key (tr_id t)) ''x'' default_expiry)) (\<lambda>_. ret ())) (\<lambda>e. ret ())"

definition cancel_all_task_of :: "'s redis_api \<Rightarrow> string \<Rightarrow> ('s task_world, unit) act" where
  "cancel_all_task_of api doc = bnd (gets (\<lambda>w. filter (\<lambda>t. tr_doc t = doc) (db_tasks (wd_db w)))) (\<lambda>ts.
     for_each (set_flag api) ts)"

definition has_canceled :: "'s redis_api \<Rightarrow> string \<Rightarrow> ('s task_world, bool) act" where
  "has_canceled api i = try_except
     (bnd (on_redis (redis_get api (cancel_key i))) (\<lambda>v. ret (case v of None \<Rightarrow> False | Some s \<Rightarrow> s \<noteq> []))) (\<lambda>e. ret False)"

definition do_cancel :: "string \<Rightarrow> db \<Rightarrow> bool res" where
  "do_cancel i d = (case task_of d i of None \<Rightarrow> raise DoesNotExist []
   | Some t \<Rightarrow> (case document_of d (tr_doc t) of None \<Rightarrow> raise AttributeError ''run''
     | Some r \<Rightarrow> Inr (dr_run r = Some CANCEL \<or> dr_progress r < 0)))"

definition page_text :: "int \<Rightarrow> int \<Rightarrow> string \<Rightarrow> string" where
  "page_text from_page to_page msg = (if to_page > 0 \<and> msg \<noteq> [] \<and> from_page < to_page
     then ''Page('' @ int_str (from_page + 1) @ ''~'' @ int_str (to_page + 1) @ ''): '' @ msg else msg)"

definition report_text :: "string \<Rightarrow> int \<Rightarrow> int \<Rightarrow> bool \<Rightarrow> rat option \<Rightarrow> string \<Rightarrow> string" where
  "report_text clock from_page to_page cancel prog msg =
     (let msg = (case prog of Some p \<Rightarrow> if p < 0 then ''[ERROR]'' @ msg else msg | None \<Rightarrow> msg);
          msg = page_text from_page to_page (if cancel then msg @ '' [Canceled]'' else msg)
      in if msg = [] then [] else clock @ '' '' @ msg)"

text \<open>\<open>set_progress\<close>: a cancelled task is failed and its worker stopped; other errors are swallowed.\<close>

definition set_progress ::
    "'s redis_api \<Rightarrow> nat \<Rightarrow> rat \<Rightarrow> string \<Rightarrow> string \<Rightarrow> int \<Rightarrow> int \<Rightarrow> rat option \<Rightarrow> string \<Rightarrow> ('s task_world, unit) act" where
  "set_progress api limit now clock i from_page to_page prog msg = try_except
     (bnd (has_canceled api i) (\<lambda>cancel.
      let m = report_text clock from_page to_page cancel prog msg; prog = (if cancel then Some (- 1) else prog)
      in bnd (on_db (update_progress limit now i \<lparr>pi_msg = Some m, pi_progress = prog\<rparr>)) (\<lambda>_.
         if cancel then lift (raise TaskCanceledException m) else ret ())))
     (\<lambda>e. if exc_class e = TaskCanceledException then lift (Inl e) else ret ())"

section \<open>The log\<close>

lemma after_break_cases:
  "case after_break m s of Some t \<Rightarrow> (\<exists>p. s = p @ CHR 0x0A # t) \<and> length t < m
   | None \<Rightarrow> CHR 0x0A \<notin> set (drop (length s - m) s)"
proof (induction s)
  case (Cons c cs)
  show ?case
  proof (cases "c = CHR 0x0A \<and> Suc (length cs) \<le> m")
    case True
    then show ?thesis by auto
  next
    case False
    show ?thesis
    proof (cases "after_break m cs")
      case None
      then show ?thesis using Cons.IH False by (cases "Suc (length cs) \<le> m") (auto simp: Suc_diff_le not_le)
    next
      case (Some t)
      then obtain p where p: "cs = p @ CHR 0x0A # t" "length t < m" using Cons.IH by auto
      have "after_break m (c # cs) = Some t" using Some False by auto
      then show ?thesis using p by (auto intro: exI [of _ "c # p"])
    qed
  qed
qed simp

text \<open>The log of a task keeps its end: it is cut behind a line break, to less than the limit, unless the last part of that length has no
  line break, when it is not cut at all.\<close>

theorem log_keeps_its_end:
  "suffix (trim_header_by_lines s m) s
   \<and> (length (trim_header_by_lines s m) \<le> m \<or> trim_header_by_lines s m = s \<and> CHR 0x0A \<notin> set (drop (length s - m) s))"
  using after_break_cases [where m = m and s = s] by (auto simp: trim_header_by_lines_def suffix_def split: option.splits)

lemma long_line_not_trimmed: "trim_header_by_lines (CHR 0x0A # ''abcdef'') 4 = CHR 0x0A # ''abcdef''"
  by code_simp

section \<open>Progress under interleaving\<close>

text \<open>What one write of progress, or none, does to a value.\<close>

definition advances :: "rat \<Rightarrow> rat \<Rightarrow> bool" where
  "advances p q = (q = p \<or> may_set_progress q p)"

lemma advances_trans: "advances p q \<Longrightarrow> advances q r \<Longrightarrow> advances p r"
  by (auto simp: advances_def may_set_progress_def)

definition same_tasks :: "task_row list \<Rightarrow> task_row list \<Rightarrow> bool" where
  "same_tasks = list_all2 (\<lambda>t u. tr_id u = tr_id t \<and> tr_retry u = tr_retry t \<and> tr_doc u = tr_doc t \<and> advances (tr_progress t) (tr_progress u))"

lemma same_tasks_refl [simp]: "same_tasks ts ts"
  by (simp add: same_tasks_def list_all2_same advances_def)

lemma same_tasks_trans [trans]: "same_tasks ts us \<Longrightarrow> same_tasks us vs \<Longrightarrow> same_tasks ts vs"
  unfolding same_tasks_def list_all2_conv_all_nth by simp (metis advances_trans)

lemma same_tasks_update:
  assumes "\<And>t. p t \<Longrightarrow> tr_id (f t) = tr_id t \<and> tr_retry (f t) = tr_retry t \<and> tr_doc (f t) = tr_doc t \<and> advances (tr_progress t) (tr_progress (f t))"
  shows "same_tasks ts (update_where p f ts)"
  using assms by (induction ts) (auto simp: same_tasks_def update_where_def advances_def)

lemma same_tasks_report: "report limit now info t ts = (r, ts') \<Longrightarrow> same_tasks ts ts'"
proof (cases "pi_msg info")
  case (Some msg)
  assume run: "report limit now info t ts = (r, ts')"
  define a where "a = (if msg = [] then ts else write_msg limit (tr_id t) (tr_msg t) msg ts)"
  define b where "b = (case pi_progress info of None \<Rightarrow> a | Some p \<Rightarrow> write_progress (tr_id t) p a)"
  have ts': "ts' = (case tr_begin t of None \<Rightarrow> b | Some x \<Rightarrow> update_where (\<lambda>u. tr_id u = tr_id t) (tr_duration_update (\<lambda>_. now - x)) b)"
    unfolding a_def b_def using run Some by (auto simp: report_def Let_def)
  have "same_tasks us (write_msg limit i rm m us)" "same_tasks us (write_progress i p us)"
      "same_tasks us (update_where q (tr_duration_update g) us)" for us i rm m p q g
    unfolding write_msg_def write_progress_def by (auto intro!: same_tasks_update simp: advances_def)
  then have "same_tasks ts a" "same_tasks a b" "same_tasks b ts'" unfolding a_def b_def ts' by (auto split: option.split)
  then show ?thesis by (blast intro: same_tasks_trans)
qed (simp add: report_def key_error_def)

lemma same_tasks_steps: "(report_step limit)\<^sup>*\<^sup>* s s' \<Longrightarrow> same_tasks (fst s) (fst s')"
proof (induction rule: rtranclp_induct)
  case (step u v)
  from step.hyps(2) have "same_tasks (fst u) (fst v)" by (cases rule: report_step.cases) (auto dest: same_tasks_report)
  with step.IH show ?case by (rule same_tasks_trans)
qed simp

text \<open>C34: However the reports of workers interleave, the progress of a task never falls back: it grows, or is set to failed, and a
  failed task leaves that state only by finishing.\<close>

theorem progress_never_falls_back:
  assumes "(report_step limit)\<^sup>*\<^sup>* (ts, ps) (ts', ps')"
  shows "list_all2 (\<lambda>t u. tr_id u = tr_id t \<and> (tr_progress u < 1 \<longrightarrow>
    tr_progress u = - 1 \<or> tr_progress t \<noteq> - 1 \<and> tr_progress t \<le> tr_progress u)) ts ts'"
proof -
  have "same_tasks ts ts'" using same_tasks_steps [OF assms] by simp
  then show ?thesis unfolding same_tasks_def by (rule list_all2_mono) (auto simp: advances_def may_set_progress_def)
qed

section \<open>A lost message\<close>

definition msg_of :: "string \<Rightarrow> task_row list \<Rightarrow> string option" where
  "msg_of i ts = map_option tr_msg (find (\<lambda>t. tr_id t = i) ts)"

lemma find_update: "(\<And>r. tr_id (f r) = tr_id r) \<Longrightarrow> find (\<lambda>t. tr_id t = i) (update_where p f ts)
    = map_option (\<lambda>r. if p r then f r else r) (find (\<lambda>t. tr_id t = i) ts)"
  by (induction ts) (auto simp: update_where_def)

lemma find_id: "find (\<lambda>t. tr_id t = i) ts = Some t \<Longrightarrow> tr_id t = i"
  by (auto simp: find_Some_iff)

lemma found_iff: "find (\<lambda>t. tr_id t = i) ts \<noteq> None \<longleftrightarrow> i \<in> tr_id ` set ts"
  by (auto simp: find_None_iff)

lemma same_tasks_ids: "same_tasks ts us \<Longrightarrow> map tr_id us = map tr_id ts"
  unfolding same_tasks_def by (induction rule: list_all2_induct) simp_all

lemma msg_of_report:
  assumes "pi_msg info = Some m" and "m \<noteq> []" and "report limit now info t ts = (r, ts')" and "find (\<lambda>u. tr_id u = tr_id t) ts \<noteq> None"
  shows "msg_of (tr_id t) ts' = Some (trim_header_by_lines (tr_msg t @ [CHR 0x0A] @ m) limit)"
  using assms by (auto simp: report_def Let_def msg_of_def write_msg_def write_progress_def find_update option.map_comp
    dest: find_id split: option.splits)

text \<open>Two reports on one task that overlap lose a message: both read the log before either writes, and the log ends as if the
  first had never been made, although each write holds the lock.\<close>

theorem overlapping_reports_lose_a_message:
  assumes "find (\<lambda>u. tr_id u = i) ts = Some t" and "pi_msg a = Some m" and "pi_msg b = Some n" and "n \<noteq> []"
  shows "\<exists>ts1 ts2. (report_step limit)\<^sup>*\<^sup>* (ts, []) (ts, [(a, t), (b, t)])
    \<and> report_step limit (ts, [(a, t), (b, t)]) (ts1, [(b, t)]) \<and> report_step limit (ts1, [(b, t)]) (ts2, [])
    \<and> msg_of i ts2 = Some (trim_header_by_lines (tr_msg t @ [CHR 0x0A] @ n) limit)"
proof -
  have i: "tr_id t = i" using assms(1) by (auto simp: find_Some_iff)
  have steps: "report_step limit (ts, []) (ts, [(a, t)])" "report_step limit (ts, [(a, t)]) (ts, [(a, t), (b, t)])"
    using begin_report [OF assms(1), of limit "[]" a] begin_report [OF assms(1), of limit "[(a, t)]" b] by simp_all
  have reads: "(report_step limit)\<^sup>*\<^sup>* (ts, []) (ts, [(a, t), (b, t)])" by (rule converse_rtranclp_into_rtranclp, rule steps(1), rule r_into_rtranclp, rule steps(2))
  obtain r ts1 where one: "report limit 0 a t ts = (r, ts1)" by fastforce
  obtain q ts2 where two: "report limit 0 b t ts1 = (q, ts2)" by fastforce
  have "map tr_id ts1 = map tr_id ts" using one by (intro same_tasks_ids same_tasks_report)
  then have "tr_id ` set ts1 = tr_id ` set ts" by (metis set_map)
  moreover have "tr_id t \<in> tr_id ` set ts" using assms(1) i by (intro iffD1 [OF found_iff]) simp
  ultimately have "find (\<lambda>u. tr_id u = tr_id t) ts1 \<noteq> None" by (intro iffD2 [OF found_iff]) simp
  then have "msg_of i ts2 = Some (trim_header_by_lines (tr_msg t @ [CHR 0x0A] @ n) limit)"
    using msg_of_report [OF assms(3,4) two] i by simp
  moreover have "report_step limit (ts, [(a, t), (b, t)]) (ts1, [(b, t)])" "report_step limit (ts1, [(b, t)]) (ts2, [])"
    using end_report [OF one, of "[]" "[(b, t)]"] end_report [OF two, of "[]" "[]"] by simp_all
  ultimately show ?thesis using reads by - (rule exI [of _ ts1], rule exI [of _ ts2], intro conjI)
qed

section \<open>Handing a task out\<close>

text \<open>What happens to a task: a worker asks for it, or reports on it.\<close>

datatype task_call = Ask string rat "string list" | Report rat progress_info

fun run_calls :: "nat \<Rightarrow> string \<Rightarrow> task_call list \<Rightarrow> db \<Rightarrow> nat \<times> db" where
  "run_calls limit i [] d = (0, d)"
| "run_calls limit i (Ask now luck docs # cs) d = (case get_task now luck i docs d of (r, d) \<Rightarrow>
     (case run_calls limit i cs d of (n, d) \<Rightarrow> ((if r = None then n else Suc n), d)))"
| "run_calls limit i (Report now info # cs) d = run_calls limit i cs (snd (update_progress limit now i info d))"

lemma same_tasks_find:
  "same_tasks ts us \<Longrightarrow> find (\<lambda>t. tr_id t = i) ts = Some t \<Longrightarrow>
    \<exists>u. find (\<lambda>t. tr_id t = i) us = Some u \<and> tr_retry u = tr_retry t \<and> tr_doc u = tr_doc t"
  unfolding same_tasks_def by (induction rule: list_all2_induct) (auto split: if_split_asm)

lemma update_progress_row:
  assumes "task_of d i = Some t"
  shows "\<exists>u. task_of (snd (update_progress limit now i info d)) i = Some u \<and> tr_retry u = tr_retry t \<and> tr_doc u = tr_doc t"
proof -
  obtain r ts where run: "report limit now info t (db_tasks d) = (r, ts)" by fastforce
  show ?thesis using same_tasks_find [OF same_tasks_report [OF run]] assms run by (simp add: update_progress_def task_of_def)
qed

lemma get_task_row:
  assumes "task_of d i = Some t" and "get_task now luck i docs d = (r, d')"
  shows "(r = None \<and> d' = d) \<or> (\<exists>u. task_of d' i = Some u \<and> tr_retry u = Suc (tr_retry t) \<and> (r \<noteq> None \<longleftrightarrow> tr_retry t < 3)
    \<and> (3 \<le> tr_retry t \<longrightarrow> tr_progress u = - 1))"
proof -
  have "tr_id t = i" using assms(1) by (auto simp: task_of_def dest: find_id)
  then show ?thesis using assms
    by (auto simp: get_task_def Let_def task_of_def find_update split: option.splits prod.splits if_splits)
qed

text \<open>C35: A task is handed out at most three times, less the attempts it has had, whatever workers report in between.\<close>

theorem handed_out_at_most_three_times:
  assumes "task_of d i = Some t"
  shows "fst (run_calls limit i cs d) \<le> 3 - tr_retry t"
  using assms
proof (induction limit i cs d arbitrary: t rule: run_calls.induct)
  case (2 limit i now luck docs cs d)
  obtain r d' where run: "get_task now luck i docs d = (r, d')" by fastforce
  from get_task_row [OF 2(2) run] show ?case
  proof (elim disjE exE conjE)
    assume "r = None" "d' = d"
    then show ?thesis using 2(1) [OF run [symmetric], of t] 2(2) run by (auto split: prod.split)
  next
    fix u
    assume u: "task_of d' i = Some u" "tr_retry u = Suc (tr_retry t)" "r \<noteq> None \<longleftrightarrow> tr_retry t < 3"
    then show ?thesis using 2(1) [OF run [symmetric] u(1)] run by (auto split: prod.split)
  qed
next
  case (3 limit i now info cs d)
  from update_progress_row [OF 3(2)] obtain u where
    "task_of (snd (update_progress limit now i info d)) i = Some u" "tr_retry u = tr_retry t" by blast
  then show ?case using 3(1) by force
qed simp

section \<open>A cancelled task\<close>

lemma on_redis_run: "m (wd_redis w) = (r, s) \<Longrightarrow> on_redis m w = (r, w\<lparr>wd_redis := s\<rparr>)"
  by (simp add: on_redis_def)

text \<open>Setting the flags of tasks reaches each of them and touches nothing else of the database.\<close>

lemma cancel_flags:
  assumes "redis_laws api up look" and "up (wd_redis w)"
  shows "\<exists>s. for_each (set_flag api) ts w
      = (Inr (), w\<lparr>wd_redis := s\<rparr>) \<and> up s
    \<and> look s = (\<lambda>k. if k \<in> (\<lambda>t. cancel_key (tr_id t)) ` set ts then Some ''x'' else look (wd_redis w) k)"
  using assms(2)
proof (induction ts arbitrary: w)
  case Nil
  then show ?case by (auto simp: ret_def intro!: exI [of _ "wd_redis w"])
next
  case (Cons t ts)
  obtain s where s: "srv_set api (cancel_key (tr_id t)) ''x'' default_expiry (wd_redis w) = (Inr (), s)" "up s"
      "look s = (look (wd_redis w))(cancel_key (tr_id t) := Some ''x'')"
    using assms(1) Cons.prems unfolding redis_laws_def by blast
  have "redis_set api (cancel_key (tr_id t)) ''x'' default_expiry (wd_redis w) = (Inr True, s)"
    by (simp add: redis_set_def try_except_def bnd_apply s(1) ret_def)
  then have step: "set_flag api t w
      = (Inr (), w\<lparr>wd_redis := s\<rparr>)"
    by (simp add: set_flag_def try_except_def bnd_apply on_redis_run ret_def)
  have "\<exists>s'. for_each (set_flag api) ts
      (w\<lparr>wd_redis := s\<rparr>) = (Inr (), w\<lparr>wd_redis := s'\<rparr>) \<and> up s'
      \<and> look s' = (\<lambda>k. if k \<in> (\<lambda>t. cancel_key (tr_id t)) ` set ts then Some ''x'' else look s k)"
    using Cons.IH [of "w\<lparr>wd_redis := s\<rparr>"] s(2) by (simp cong: if_cong)
  then obtain s' where "for_each (set_flag api) ts
      (w\<lparr>wd_redis := s\<rparr>) = (Inr (), w\<lparr>wd_redis := s'\<rparr>)" "up s'"
      "look s' = (\<lambda>k. if k \<in> (\<lambda>t. cancel_key (tr_id t)) ` set ts then Some ''x'' else look s k)"
    by (elim exE conjE)
  then show ?case using s(3) by (intro exI [of _ s']) (auto simp: bnd_apply step)
qed

lemma canceled_run:
  assumes "redis_laws api up look" and "up (wd_redis w)"
  shows "has_canceled api i w = (Inr (case look (wd_redis w) (cancel_key i) of None \<Rightarrow> False | Some s \<Rightarrow> s \<noteq> []), w)"
  using redis_get_up [OF assms, of "cancel_key i"]
  by (simp add: has_canceled_def try_except_def bnd_apply on_redis_def ret_def)

lemma failed_report:
  assumes "task_of d i = Some t"
  shows "\<exists>d' u. update_progress limit now i \<lparr>pi_msg = Some m, pi_progress = Some (- 1)\<rparr> d = (Inr (), d')
    \<and> task_of d' i = Some u \<and> tr_progress u = - 1"
  using assms find_id [of i "db_tasks d" t]
  by (auto simp: update_progress_def report_def Let_def task_of_def write_msg_def write_progress_def find_update may_set_progress_def
    split: option.splits)

text \<open>C36: Once the tasks of a document have been cancelled, the next report of each of them fails the task and stops its worker, while
  Redis answers and keeps the flag.\<close>

theorem cancelled_task_stops:
  assumes "redis_laws api up look" and "up (wd_redis w)" and "task_of (wd_db w) i = Some t"
  shows "\<exists>w1 w2 msg u. cancel_all_task_of api (tr_doc t) w = (Inr (), w1)
    \<and> set_progress api limit now clock i from_page to_page prog m w1 = (Inl (Exc TaskCanceledException msg), w2)
    \<and> task_of (wd_db w2) i = Some u \<and> tr_progress u = - 1"
proof -
  let ?ts = "filter (\<lambda>u. tr_doc u = tr_doc t) (db_tasks (wd_db w))"
  obtain s where s: "cancel_all_task_of api (tr_doc t) w = (Inr (), w\<lparr>wd_redis := s\<rparr>)" "up s"
      "look s = (\<lambda>k. if k \<in> (\<lambda>t. cancel_key (tr_id t)) ` set ?ts then Some ''x'' else look (wd_redis w) k)"
    using cancel_flags [OF assms(1,2), of ?ts] by (auto simp: cancel_all_task_of_def bnd_apply gets_def)
  have "t \<in> set ?ts" "tr_id t = i" using assms(3) find_id [of i] by (auto simp: task_of_def find_Some_iff)
  then have "has_canceled api i (w\<lparr>wd_redis := s\<rparr>) = (Inr True, w\<lparr>wd_redis := s\<rparr>)"
    using canceled_run [OF assms(1), of "w\<lparr>wd_redis := s\<rparr>" i] s(2,3) by auto
  moreover define msg where "msg = report_text clock from_page to_page True prog m"
  moreover obtain d' u where u: "update_progress limit now i \<lparr>pi_msg = Some msg, pi_progress = Some (- 1)\<rparr> (wd_db w) = (Inr (), d')"
      "task_of d' i = Some u" "tr_progress u = - 1"
    using failed_report [OF assms(3), of limit now msg] by blast
  ultimately have "set_progress api limit now clock i from_page to_page prog m (w\<lparr>wd_redis := s\<rparr>)
      = (Inl (Exc TaskCanceledException msg), w\<lparr>wd_redis := s, wd_db := d'\<rparr>)"
    by (simp add: set_progress_def try_except_def bnd_apply Let_def on_db_def lift_def)
  then show ?thesis using s(1) u(2,3) 
    by (intro exI [of _ "w\<lparr>wd_redis := s\<rparr>"] exI [of _ "w\<lparr>wd_redis := s, wd_db := d'\<rparr>"] exI [of _ msg] exI [of _ u]) simp
qed

section \<open>A database with one task\<close>

definition queued_task :: task_row where
  "queued_task = \<lparr>tr_id = ''t'', tr_doc = ''d'', tr_from = 0, tr_to = 12, tr_type = [], tr_priority = 0, tr_begin = None, tr_duration = 0,
     tr_progress = 0, tr_msg = [], tr_retry = 0, tr_digest = [], tr_chunk_ids = [], tr_created = 0\<rparr>"

definition one_task :: db where
  "one_task = \<lparr>db_tasks = [queued_task],
     db_documents = [\<lparr>dr_id = ''d'', dr_kb = ''k'', dr_type = ''pdf'', dr_parser = ''naive'', dr_config = [], dr_tokens = 0, dr_chunks = 0,
       dr_progress = 0, dr_msg = [], dr_begin = None, dr_duration = 0, dr_run = Some RUNNING, dr_valid = True, dr_source = ''local''\<rparr>],
     db_kbs = [\<lparr>kr_id = ''k'', kr_tenant = ''u'', kr_docs = 1, kr_tokens = 0, kr_chunks = 0\<rparr>], db_tenants = [''u'']\<rparr>"

lemma one_task_found: "task_of one_task ''t'' = Some queued_task" "find (\<lambda>u. tr_id u = ''t'') [queued_task] = Some queued_task"
  by (simp_all add: one_task_def task_of_def queued_task_def)

lemma asked_four_times: "fst (run_calls 100 ''t'' (replicate 4 (Ask ''12:00:00'' 0 [])) one_task) = 3"
  by code_simp

theorem handed_out_at_most_three_times_witness: "fst (run_calls 100 ''t'' (replicate 4 (Ask ''12:00:00'' 0 [])) one_task) \<le> 3"
  using handed_out_at_most_three_times [OF one_task_found(1), of 100 "replicate 4 (Ask ''12:00:00'' 0 [])"] by (simp add: queued_task_def)

theorem overlapping_reports_lose_a_message_witness:
  "\<exists>ts1 ts2. (report_step 100)\<^sup>*\<^sup>* ([queued_task], []) ([queued_task], [(\<lparr>pi_msg = Some ''a'', pi_progress = None\<rparr>, queued_task), (\<lparr>pi_msg = Some ''b'', pi_progress = None\<rparr>, queued_task)])
    \<and> msg_of ''t'' ts2 = Some (CHR 0x0A # ''b'')"
  using overlapping_reports_lose_a_message [OF one_task_found(2), of "\<lparr>pi_msg = Some ''a'', pi_progress = None\<rparr>" "''a''"
      "\<lparr>pi_msg = Some ''b'', pi_progress = None\<rparr>" "''b''" 100]
  by (auto simp: trim_header_by_lines_def queued_task_def)

theorem progress_never_falls_back_witness:
  "list_all2 (\<lambda>t u. tr_id u = tr_id t \<and> (tr_progress u < 1 \<longrightarrow>
    tr_progress u = - 1 \<or> tr_progress t \<noteq> - 1 \<and> tr_progress t \<le> tr_progress u)) [queued_task] [queued_task\<lparr>tr_progress := 1 / 2\<rparr>]"
proof -
  have reads: "report_step 100 ([queued_task], []) ([queued_task], [(\<lparr>pi_msg = Some [], pi_progress = Some (1 / 2)\<rparr>, queued_task)])"
    using begin_report [OF one_task_found(2), of 100 "[]"] by simp
  have "report 100 0 \<lparr>pi_msg = Some [], pi_progress = Some (1 / 2)\<rparr> queued_task [queued_task] = (Inr (), [queued_task\<lparr>tr_progress := 1 / 2\<rparr>])"
    by (simp add: report_def write_progress_def update_where_def may_set_progress_def queued_task_def)
  from end_report [OF this, of "[]" "[]"]
  have writes: "report_step 100 ([queued_task], [(\<lparr>pi_msg = Some [], pi_progress = Some (1 / 2)\<rparr>, queued_task)]) ([queued_task\<lparr>tr_progress := 1 / 2\<rparr>], [])"
    by simp
  have "(report_step 100)\<^sup>*\<^sup>* ([queued_task], []) ([queued_task\<lparr>tr_progress := 1 / 2\<rparr>], [])"
    by (rule converse_rtranclp_into_rtranclp, rule reads, rule r_into_rtranclp, rule writes)
  then show ?thesis by (rule progress_never_falls_back)
qed

theorem cancelled_task_stops_witness:
  "\<exists>w1 w2 msg u. cancel_all_task_of map_server ''d'' \<lparr>wd_db = one_task, wd_redis = []\<rparr> = (Inr (), w1)
    \<and> set_progress map_server 100 0 ''12:00:00'' ''t'' 0 12 (Some (1 / 2)) ''ok'' w1 = (Inl (Exc TaskCanceledException msg), w2)
    \<and> task_of (wd_db w2) ''t'' = Some u \<and> tr_progress u = - 1"
  using cancelled_task_stops [OF map_server_laws, of "\<lparr>wd_db = one_task, wd_redis = []\<rparr>" "''t''" queued_task 100 0 "''12:00:00''" 0 12 "Some (1 / 2)" "''ok''"]
  by (simp add: one_task_found(1)) (simp add: queued_task_def)

end
