(* ===== verification/DocumentService.thy ===== *)
theory DocumentService
  imports TaskService
begin

text \<open>
  The documents of knowledge bases, after \<open>DocumentService\<close> of \<^verbatim>\<open>api/db/services/document_service.py\<close>: the counters of
  chunks and tokens that documents and their knowledge bases keep in step, the progress of a document drawn from its
  tasks, and its configuration; with the handlers of \<^verbatim>\<open>api/apps/restful_apis\<close> that parse again or stop, as far as they
  touch the counters. A statement on the database is one step, and \<open>DB.atomic\<close> undoes what a failing block has done.
\<close>

section \<open>Statements\<close>

text \<open>\<open>with DB.atomic()\<close>.\<close>

definition atomic :: "('s, 'a) act \<Rightarrow> ('s, 'a) act" where
  "atomic m s = (case m s of (Inl e, t) \<Rightarrow> (Inl e, s) | (Inr a, t) \<Rightarrow> (Inr a, t))"

text \<open>An update answers how many rows it has reached.\<close>

definition update_documents :: "(document_row \<Rightarrow> bool) \<Rightarrow> (document_row \<Rightarrow> document_row) \<Rightarrow> (db, nat) act" where
  "update_documents p f d = (Inr (length (filter p (db_documents d))), d\<lparr>db_documents := update_where p f (db_documents d)\<rparr>)"

definition update_kbs :: "(kb_row \<Rightarrow> bool) \<Rightarrow> (kb_row \<Rightarrow> kb_row) \<Rightarrow> (db, nat) act" where
  "update_kbs p f d = (Inr (length (filter p (db_kbs d))), d\<lparr>db_kbs := update_where p f (db_kbs d)\<rparr>)"

definition delete_documents :: "(document_row \<Rightarrow> bool) \<Rightarrow> (db, nat) act" where
  "delete_documents p d = (Inr (length (filter p (db_documents d))), d\<lparr>db_documents := delete_where p (db_documents d)\<rparr>)"

definition update_by_id :: "string \<Rightarrow> (document_row \<Rightarrow> document_row) \<Rightarrow> (db, nat) act" where
  "update_by_id doc = update_documents (\<lambda>r. dr_id r = doc)"

section \<open>Counters\<close>

definition add_counts :: "int \<Rightarrow> int \<Rightarrow> rat \<Rightarrow> document_row \<Rightarrow> document_row" where
  "add_counts tokens chunks duration r =
     r\<lparr>dr_tokens := dr_tokens r + tokens, dr_chunks := dr_chunks r + chunks, dr_duration := dr_duration r + duration\<rparr>"

definition add_kb_counts :: "int \<Rightarrow> int \<Rightarrow> int \<Rightarrow> kb_row \<Rightarrow> kb_row" where
  "add_kb_counts docs tokens chunks k = k\<lparr>kr_docs := kr_docs k + docs, kr_tokens := kr_tokens k + tokens, kr_chunks := kr_chunks k + chunks\<rparr>"

definition increment_chunk_num :: "string \<Rightarrow> string \<Rightarrow> int \<Rightarrow> int \<Rightarrow> rat \<Rightarrow> (db, nat) act" where
  "increment_chunk_num doc kb tokens chunks duration = atomic
     (bnd (update_documents (\<lambda>r. dr_id r = doc \<and> dr_kb r = kb) (add_counts tokens chunks duration)) (\<lambda>n.
      if n = 0 then lift (raise LookupError ''Document not found which is supposed to be there'')
      else bnd (update_kbs (\<lambda>k. kr_id k = kb) (add_kb_counts 0 tokens chunks)) (\<lambda>n.
      if n = 0 then lift (raise LookupError ''Knowledgebase not found which is supposed to be there'') else ret n)))"

definition decrement_chunk_num :: "string \<Rightarrow> string \<Rightarrow> int \<Rightarrow> int \<Rightarrow> rat \<Rightarrow> (db, nat) act" where
  "decrement_chunk_num doc kb tokens chunks duration = atomic
     (bnd (update_documents (\<lambda>r. dr_id r = doc \<and> dr_kb r = kb) (add_counts (- tokens) (- chunks) duration)) (\<lambda>n.
      if n = 0 then lift (raise LookupError ''Document not found which is supposed to be there'')
      else bnd (update_kbs (\<lambda>k. kr_id k = kb) (add_kb_counts 0 (- tokens) (- chunks))) (\<lambda>n.
      if n = 0 then lift (raise LookupError ''Knowledgebase not found which is supposed to be there'') else ret n)))"

definition delete_document_and_update_kb_counts :: "string \<Rightarrow> (db, bool) act" where
  "delete_document_and_update_kb_counts doc = atomic (bnd (gets (\<lambda>d. document_of d doc)) (\<lambda>found. case found of
     None \<Rightarrow> ret False
   | Some r \<Rightarrow> bnd (delete_documents (\<lambda>r. dr_id r = doc)) (\<lambda>n. if n = 0 then ret False
       else bnd (update_kbs (\<lambda>k. kr_id k = dr_kb r) (add_kb_counts (- 1) (- dr_tokens r) (- dr_chunks r))) (\<lambda>_. ret True))))"

definition found_document :: "string \<Rightarrow> (db, document_row) act" where
  "found_document doc = gets_res (\<lambda>d. case document_of d doc of None \<Rightarrow> raise DoesNotExist [] | Some r \<Rightarrow> Inr r)"

definition clear_chunk_num :: "string \<Rightarrow> (db, nat) act" where
  "clear_chunk_num doc = bnd (found_document doc) (\<lambda>r.
     update_kbs (\<lambda>k. kr_id k = dr_kb r) (add_kb_counts (- 1) (- dr_tokens r) (- dr_chunks r)))"

definition clear_chunk_num_when_rerun :: "string \<Rightarrow> (db, nat) act" where
  "clear_chunk_num_when_rerun doc = bnd (found_document doc) (\<lambda>r.
     update_kbs (\<lambda>k. kr_id k = dr_kb r) (add_kb_counts 0 (- dr_tokens r) (- dr_chunks r)))"

text \<open>\<open>insert\<close>; the row of a new document has no chunks yet.\<close>

definition insert_document :: "document_row \<Rightarrow> (db, unit) act" where
  "insert_document r = bnd (modify (\<lambda>d. d\<lparr>db_documents := db_documents d @ [r]\<rparr>)) (\<lambda>_.
     bnd (update_kbs (\<lambda>k. kr_id k = dr_kb r) (add_kb_counts 1 0 0)) (\<lambda>n.
     if n = 0 then lift (raise GenericException ''Database error (Knowledgebase)!'') else ret ()))"

section \<open>Parsing again, and stopping\<close>

definition no_counts :: "document_row \<Rightarrow> document_row" where
  "no_counts r = r\<lparr>dr_tokens := 0, dr_chunks := 0\<rparr>"

text \<open>What \<open>_run_sync\<close> of the ingest handler does to the row when it deletes and runs again.\<close>

definition rerun_with_delete :: "string \<Rightarrow> (db, unit) act" where
  "rerun_with_delete doc = bnd (found_document doc) (\<lambda>r.
     bnd (if dr_run r = Some DONE then bnd (clear_chunk_num_when_rerun doc) (\<lambda>_. ret ()) else ret ()) (\<lambda>_.
     bnd (update_by_id doc (\<lambda>r. no_counts r\<lparr>dr_run := Some RUNNING, dr_progress := 0, dr_msg := []\<rparr>)) (\<lambda>_. ret ())))"

text \<open>The parse handler of documents, which resets the counters of a finished document only.\<close>

definition parse_documents_row :: "string \<Rightarrow> (db, unit) act" where
  "parse_documents_row doc = bnd (found_document doc) (\<lambda>r.
     if dr_run r = Some DONE
     then bnd (clear_chunk_num_when_rerun doc) (\<lambda>_.
          bnd (update_by_id doc (\<lambda>r. no_counts r\<lparr>dr_run := Some RUNNING, dr_progress := 0, dr_msg := []\<rparr>)) (\<lambda>_. ret ()))
     else bnd (update_by_id doc (\<lambda>r. r\<lparr>dr_run := Some RUNNING, dr_progress := 0\<rparr>)) (\<lambda>_. ret ()))"

text \<open>The parse handler of chunks, which answers whether the document was not running.\<close>

definition parse_row :: "string \<Rightarrow> (db, bool) act" where
  "parse_row doc = bnd (update_documents (\<lambda>r. dr_id r = doc \<and> dr_run r \<noteq> Some RUNNING)
     (\<lambda>r. no_counts r\<lparr>dr_run := Some RUNNING, dr_progress := 0, dr_msg := []\<rparr>)) (\<lambda>n. ret (n \<noteq> 0))"

definition stop_parsing_row :: "string \<Rightarrow> (db, nat) act" where
  "stop_parsing_row doc = update_by_id doc (\<lambda>r. r\<lparr>dr_run := Some CANCEL, dr_progress := 0, dr_chunks := 0\<rparr>)"

section \<open>Progress of a document\<close>

definition begin2parse :: "rat \<Rightarrow> rat \<Rightarrow> string \<Rightarrow> bool \<Rightarrow> (db, nat) act" where
  "begin2parse now luck doc keep_progress = update_by_id doc (\<lambda>r.
     let r = r\<lparr>dr_msg := ''Task is queued...'', dr_begin := Some now\<rparr>
     in if keep_progress then r else r\<lparr>dr_progress := luck / 100, dr_run := Some RUNNING\<rparr>)"

definition unfinished :: "task_row \<Rightarrow> bool" where
  "unfinished t = (0 \<le> tr_progress t \<and> tr_progress t < 1)"

definition get_unfinished_docs :: "db \<Rightarrow> document_row list" where
  "get_unfinished_docs d = filter (\<lambda>r. dr_valid r \<and> dr_type r \<noteq> ''virtual'' \<and> dr_run r \<noteq> Some CANCEL
     \<and> (0 < dr_progress r \<and> dr_progress r < 1 \<or> dr_id r \<in> tr_doc ` set (filter unfinished (db_tasks d))
        \<or> dr_progress r = - 1 \<and> dr_run r = Some FAIL \<and> dr_id r \<in> tr_doc ` set (filter (\<lambda>t. tr_progress t \<ge> 0) (db_tasks d))))
     (db_documents d)"

definition special_types :: "string list" where
  "special_types = [''raptor'', ''graphrag'', ''mindmap'']"

definition mean_progress :: "task_row list \<Rightarrow> rat" where
  "mean_progress ts = sum_list (map (\<lambda>t. if tr_progress t \<ge> 0 then tr_progress t else 0) ts) / of_nat (length ts)"

definition tasks_state :: "task_row list \<Rightarrow> rat \<times> run_status" where
  "tasks_state ts =
     (if list_ex unfinished ts then (mean_progress ts, RUNNING)
      else if list_ex (\<lambda>t. tr_progress t = - 1) ts then (- 1, FAIL)
      else (1, DONE))"

definition ahead_text :: "int \<Rightarrow> string" where
  "ahead_text n = int_str n @ '' tasks are ahead in the queue...''"

text \<open>The messages of the tasks, sorted; the length of the queue of a priority is a parameter.\<close>

definition tasks_msg :: "(int \<Rightarrow> int) \<Rightarrow> task_row list \<Rightarrow> string" where
  "tasks_msg queue_length ts =
     (let msg = join_str [CHR 0x0A] (sort (filter (\<lambda>m. strip m \<noteq> []) (map tr_msg ts)));
          ahead = ahead_text (queue_length (fold (\<lambda>t p. max p (tr_priority t)) ts 0))
      in if msg = [] then ahead
         else if list_ex (\<lambda>x. ends_with msg (''created task '' @ x)) special_types then msg @ [CHR 0x0A] @ ahead
         else msg)"

text \<open>What a sync has gathered when it writes: status, duration, message and, unless kept, progress.\<close>

record sync_info =
  si_run :: run_status
  si_duration :: rat
  si_msg :: string
  si_progress :: "rat option"

definition sync_info_of :: "(int \<Rightarrow> int) \<Rightarrow> rat \<Rightarrow> rat \<Rightarrow> document_row \<Rightarrow> task_row list \<Rightarrow> sync_info" where
  "sync_info_of queue_length now began r ts =
     (let (prg, status) = tasks_state ts;
          freeze = list_ex (\<lambda>t. lower (tr_type t) \<in> set special_types) ts \<and> dr_progress r \<ge> 1 \<and> list_ex unfinished ts
      in \<lparr>si_run = status, si_duration = max (now - began) 0, si_msg = tasks_msg queue_length ts,
          si_progress = (if prg \<noteq> 0 \<and> \<not> freeze then Some prg else None)\<rparr>)"

definition sync_write :: "string \<Rightarrow> sync_info \<Rightarrow> (db, nat) act" where
  "sync_write doc info = update_documents (\<lambda>r. dr_id r = doc \<and> dr_run r \<noteq> Some CANCEL)
     (\<lambda>r. r\<lparr>dr_run := Some (si_run info), dr_duration := si_duration info, dr_msg := si_msg info,
         dr_progress := (case si_progress info of Some p \<Rightarrow> p | None \<Rightarrow> dr_progress r)\<rparr>)"

text \<open>One document of \<open>_sync_progress\<close>: the listed row and, when it is fetched again, the current one.\<close>

definition sync_document :: "(int \<Rightarrow> int) \<Rightarrow> rat \<Rightarrow> document_row \<Rightarrow> (db, unit) act" where
  "sync_document queue_length now listed = try_except
     (bnd (gets (\<lambda>d. filter (\<lambda>t. tr_doc t = dr_id listed) (db_tasks d))) (\<lambda>ts.
      if ts = [] then ret ()
      else bnd (gets_res (\<lambda>d. case document_of d (dr_id listed) of None \<Rightarrow> raise AttributeError ''run'' | Some r \<Rightarrow> Inr r)) (\<lambda>r.
      if dr_run r = Some CANCEL then ret ()
      else bnd (case dr_begin listed of Some b \<Rightarrow> ret b
          | None \<Rightarrow> bnd (update_by_id (dr_id listed) (dr_begin_update (\<lambda>_. Some now))) (\<lambda>_. ret now)) (\<lambda>began.
      bnd (sync_write (dr_id listed) (sync_info_of queue_length now began r ts)) (\<lambda>_. ret ())))))
     (\<lambda>e. ret ())"

definition sync_progress :: "(int \<Rightarrow> int) \<Rightarrow> rat \<Rightarrow> document_row list \<Rightarrow> (db, unit) act" where
  "sync_progress queue_length now docs = for_each (sync_document queue_length now) docs"

definition update_progress_of_docs :: "(int \<Rightarrow> int) \<Rightarrow> rat \<Rightarrow> (db, unit) act" where
  "update_progress_of_docs queue_length now = bnd (gets get_unfinished_docs) (sync_progress queue_length now)"

section \<open>Counts of statuses\<close>

definition kb_documents :: "string \<Rightarrow> db \<Rightarrow> document_row list" where
  "kb_documents kb d = filter (\<lambda>r. dr_kb r = kb) (db_documents d)"

definition count_run :: "run_status \<Rightarrow> document_row list \<Rightarrow> nat" where
  "count_run s rs = length (filter (\<lambda>r. dr_run r = Some s) rs)"

definition status_names :: "(run_status \<times> string) list" where
  "status_names = [(UNSTART, ''unstart_count''), (RUNNING, ''running_count''), (CANCEL, ''cancel_count''), (DONE, ''done_count''), (FAIL, ''fail_count'')]"

definition get_parsing_status_by_kb_ids :: "string list \<Rightarrow> db \<Rightarrow> (string, (string \<times> nat) list) dict" where
  "get_parsing_status_by_kb_ids kbs d =
     fold (\<lambda>kb res. dset kb (map (\<lambda>(s, n). (n, count_run s (kb_documents kb d))) status_names) res) kbs []"

record basic_info =
  bi_processing :: nat
  bi_finished :: nat
  bi_failed :: nat
  bi_cancelled :: nat
  bi_downloaded :: nat

definition knowledgebase_basic_info :: "string \<Rightarrow> db \<Rightarrow> basic_info" where
  "knowledgebase_basic_info kb d =
     (let rs = kb_documents kb d; live = filter (\<lambda>r. dr_run r \<noteq> Some CANCEL) rs in
      \<lparr>bi_processing = length (filter (\<lambda>r. dr_progress r = 0 \<or> 0 < dr_progress r \<and> dr_progress r < 1) live),
       bi_finished = length (filter (\<lambda>r. dr_progress r = 1) live),
       bi_failed = length (filter (\<lambda>r. dr_progress r = - 1) live),
       bi_cancelled = count_run CANCEL rs,
       bi_downloaded = length (filter (\<lambda>r. dr_source r \<noteq> ''local'') rs)\<rparr>)"

section \<open>Configuration\<close>

function dfs_update :: "pdict \<Rightarrow> pdict \<Rightarrow> pdict" where
  "dfs_update old [] = old"
| "dfs_update old ((k, v) # new) = dfs_update (case (dget old k, v) of
     (Some (PDict o'), PDict n) \<Rightarrow> dset k (PDict (dfs_update o' n)) old
   | _ \<Rightarrow> dset k v old) new"
  by pat_completeness auto
termination by (relation "measure (\<lambda>(old, new). size (PDict new))") auto

definition update_parser_config :: "string \<Rightarrow> pdict \<Rightarrow> (db, unit) act" where
  "update_parser_config doc config = (if config = [] then ret ()
   else bnd (gets (\<lambda>d. document_of d doc)) (\<lambda>found. case found of
     None \<Rightarrow> lift (raise LookupError (''Document('' @ doc @ '') not found.''))
   | Some r \<Rightarrow>
       let c = dfs_update (dr_config r) config;
           c = (if \<not> truthy (get_none config ''raptor'') \<and> truthy (get_none c ''raptor'') then dpop ''raptor'' c else c)
       in bnd (update_by_id doc (dr_config_update (\<lambda>_. c))) (\<lambda>_. ret ())))"

section \<open>Counters in step\<close>

text \<open>What each knowledge base counts is the sum over its documents.\<close>

definition in_step :: "(document_row \<Rightarrow> int) \<Rightarrow> (kb_row \<Rightarrow> int) \<Rightarrow> db \<Rightarrow> bool" where
  "in_step amount counter d = list_all (\<lambda>k. counter k = sum_list (map amount (kb_documents (kr_id k) d))) (db_kbs d)"

definition counted :: "db \<Rightarrow> bool" where
  "counted d = (distinct (map dr_id (db_documents d)) \<and> distinct (map kr_id (db_kbs d))
     \<and> in_step (\<lambda>r. 1) kr_docs d \<and> in_step dr_tokens kr_tokens d \<and> in_step dr_chunks kr_chunks d)"

lemma kb_sum: "sum_list (map amount (filter (\<lambda>r. dr_kb r = kb) rs)) = sum_list (map (\<lambda>r. if dr_kb r = kb then amount r else (0 :: int)) rs)"
  by (induction rs) simp_all

lemma sum_of_zeros: "\<forall>x \<in> set xs. f x = 0 \<Longrightarrow> sum_list (map f xs) = (0 :: int)"
  by (induction xs) simp_all

lemma sum_at_id:
  "distinct (map dr_id rs) \<Longrightarrow> r \<in> set rs \<Longrightarrow> sum_list (map (\<lambda>x. if dr_id x = dr_id r then h x else (0 :: int)) rs) = h r"
proof (induction rs)
  case (Cons x rs)
  have "sum_list (map (\<lambda>y. if dr_id y = dr_id x then h y else 0) rs) = 0" using Cons.prems(1)
    by (intro sum_of_zeros) (force simp: rev_image_eqI)
  then show ?case using Cons by (cases "r = x") (auto simp: rev_image_eqI)
qed simp

lemma document_found: "document_of d i = Some r \<Longrightarrow> r \<in> set (db_documents d) \<and> dr_id r = i"
  by (auto simp: document_of_def find_Some_iff)

lemma update_sum:
  assumes "distinct (map dr_id (db_documents d))" and "document_of d doc = Some r"
    and "\<And>x. dr_id x = doc \<Longrightarrow> dr_kb (f x) = dr_kb x"
  shows "sum_list (map amount (filter (\<lambda>r. dr_kb r = kb) (update_where (\<lambda>x. dr_id x = doc) f (db_documents d))))
    = sum_list (map amount (filter (\<lambda>r. dr_kb r = kb) (db_documents d))) + (if dr_kb r = kb then amount (f r) - amount r else (0 :: int))"
proof -
  let ?h = "\<lambda>x. if dr_kb x = kb then amount (f x) - amount x else 0"
  have "sum_list (map (\<lambda>x. if dr_kb x = kb then amount x else 0) (update_where (\<lambda>x. dr_id x = doc) f rs))
      = sum_list (map (\<lambda>x. if dr_kb x = kb then amount x else 0) rs) + sum_list (map (\<lambda>x. if dr_id x = doc then ?h x else 0) rs)" for rs
    using assms(3) by (induction rs) (auto simp: update_where_def)
  then show ?thesis using sum_at_id [OF assms(1), of r ?h] document_found [OF assms(2)] by (simp add: kb_sum)
qed

lemma in_stepD: "in_step amount counter d \<Longrightarrow> k \<in> set (db_kbs d) \<Longrightarrow>
    counter k = sum_list (map amount (filter (\<lambda>r. dr_kb r = kr_id k) (db_documents d)))"
  by (simp add: in_step_def kb_documents_def list_all_iff)

lemma in_stepI:
  assumes "\<And>k. k \<in> set (db_kbs d) \<Longrightarrow> counter (if p k then g k else k) = sum_list (map amount (filter (\<lambda>r. dr_kb r = kr_id k) docs))"
    and "\<And>k. kr_id (g k) = kr_id k"
  shows "in_step amount counter (d\<lparr>db_documents := docs, db_kbs := update_where p g (db_kbs d)\<rparr>)"
  using assms by (simp add: in_step_def kb_documents_def list_all_iff update_where_def) force

lemma in_step_update:
  assumes "in_step amount counter d" and "distinct (map dr_id (db_documents d))" and "document_of d doc = Some r"
    and "\<And>x. dr_kb (f x) = dr_kb x" and "\<And>k. kr_id (g k) = kr_id k"
    and "\<And>k. counter (g k) = counter k + (amount (f r) - amount r)"
  shows "in_step amount counter (d\<lparr>db_documents := update_where (\<lambda>x. dr_id x = doc) f (db_documents d),
    db_kbs := update_where (\<lambda>k. kr_id k = dr_kb r) g (db_kbs d)\<rparr>)"
  using in_stepD [OF assms(1)] update_sum [OF assms(2,3,4), of amount] assms(5,6) by (intro in_stepI) simp_all

text \<open>Rows may change in whatever the counters do not read.\<close>

definition keeps_counts :: "(document_row \<Rightarrow> document_row) \<Rightarrow> bool" where
  "keeps_counts f = (\<forall>x. dr_id (f x) = dr_id x \<and> dr_kb (f x) = dr_kb x \<and> dr_tokens (f x) = dr_tokens x \<and> dr_chunks (f x) = dr_chunks x)"

lemma keeps_counts_fields [intro]:
  assumes "keeps_counts f"
  shows "dr_id (f x) = dr_id x" "dr_kb (f x) = dr_kb x" "dr_tokens (f x) = dr_tokens x" "dr_chunks (f x) = dr_chunks x"
  using assms by (simp_all add: keeps_counts_def)

lemma keeps_update_documents: "keeps_counts f \<Longrightarrow> keeps counted (update_documents p f)"
proof -
  assume f: "keeps_counts f"
  have "map dr_id (update_where p f rs) = map dr_id rs" for rs using f by (auto simp: update_where_def keeps_counts_def)
  moreover have "map amount (filter (\<lambda>r. dr_kb r = kb) (update_where p f rs)) = map amount (filter (\<lambda>r. dr_kb r = kb) rs)"
    if "\<And>x. amount (f x) = amount x" for amount :: "document_row \<Rightarrow> int" and kb rs
    using that f by (induction rs) (auto simp: update_where_def keeps_counts_def)
  moreover have "\<And>x. dr_tokens (f x) = dr_tokens x" "\<And>x. dr_chunks (f x) = dr_chunks x" using f by (simp_all add: keeps_counts_def)
  ultimately show ?thesis by (simp add: keeps_def update_documents_def counted_def in_step_def kb_documents_def)
qed

lemma matched_iff: "length (filter (\<lambda>r. dr_id r = doc) (db_documents d)) = 0 \<longleftrightarrow> document_of d doc = None"
  by (auto simp: document_of_def find_None_iff filter_empty_conv)

text \<open>A document and its knowledge base that change by the same amounts stay in step.\<close>

lemma counted_move:
  assumes "counted d" and "document_of d doc = Some r"
    and "\<And>x. dr_id (f x) = dr_id x \<and> dr_kb (f x) = dr_kb x" and "\<And>k. kr_id (g k) = kr_id k \<and> kr_docs (g k) = kr_docs k"
    and "\<And>k. kr_tokens (g k) = kr_tokens k + (dr_tokens (f r) - dr_tokens r) \<and> kr_chunks (g k) = kr_chunks k + (dr_chunks (f r) - dr_chunks r)"
  shows "counted (d\<lparr>db_documents := update_where (\<lambda>x. dr_id x = doc) f (db_documents d),
    db_kbs := update_where (\<lambda>k. kr_id k = dr_kb r) g (db_kbs d)\<rparr>)"
proof -
  have "map dr_id (update_where (\<lambda>x. dr_id x = doc) f rs) = map dr_id rs" for rs using assms(3) by (auto simp: update_where_def)
  moreover have "map kr_id (update_where (\<lambda>k. kr_id k = dr_kb r) g ks) = map kr_id ks" for ks using assms(4) by (auto simp: update_where_def)
  ultimately show ?thesis using assms by (auto simp: counted_def intro!: in_step_update)
qed

lemma find_unique: "distinct (map key rs) \<Longrightarrow> r \<in> set rs \<Longrightarrow> find (\<lambda>x. key x = key r) rs = Some r"
  by (induction rs) (auto simp: rev_image_eqI)

lemma document_of_member: "distinct (map dr_id (db_documents d)) \<Longrightarrow> r \<in> set (db_documents d) \<Longrightarrow> document_of d (dr_id r) = Some r"
  unfolding document_of_def by (rule find_unique)

lemma change_counts:
  "keeps counted (atomic (bnd (update_documents (\<lambda>r. dr_id r = doc \<and> dr_kb r = kb) (add_counts tokens chunks duration)) (\<lambda>n.
      if n = 0 then lift (Inl e) else bnd (update_kbs (\<lambda>k. kr_id k = kb) (add_kb_counts 0 tokens chunks)) (\<lambda>n.
      if n = 0 then lift (Inl e') else ret n))))" (is "keeps counted (atomic ?body)")
  unfolding keeps_def
proof (intro allI impI)
  fix d
  assume d: "counted d"
  let ?docs = "update_where (\<lambda>r. dr_id r = doc) (add_counts tokens chunks duration) (db_documents d)"
  show "counted (snd (atomic ?body d))"
  proof (cases "filter (\<lambda>r. dr_id r = doc \<and> dr_kb r = kb) (db_documents d) = [] \<or> filter (\<lambda>k. kr_id k = kb) (db_kbs d) = []")
    case True
    then have "snd (atomic ?body d) = d"
      by (auto simp: atomic_def bnd_apply update_documents_def update_kbs_def lift_def)
    then show ?thesis using d by simp
  next
    case False
    then obtain r where r: "r \<in> set (db_documents d)" "dr_id r = doc" "dr_kb r = kb" by (auto simp: filter_empty_conv)
    then have found: "document_of d doc = Some r" using d document_of_member [of d r] by (auto simp: counted_def)
    have "x = r" if "x \<in> set (db_documents d)" "dr_id x = doc" for x
      using that d found document_of_member [of d x] by (auto simp: counted_def)
    then have same: "update_where (\<lambda>r. dr_id r = doc \<and> dr_kb r = kb) (add_counts tokens chunks duration) (db_documents d) = ?docs"
      using r(3) by (auto simp: update_where_def)
    have "snd (atomic ?body d) = d\<lparr>db_documents := ?docs, db_kbs := update_where (\<lambda>k. kr_id k = dr_kb r) (add_kb_counts 0 tokens chunks) (db_kbs d)\<rparr>"
      using False r(3) same by (simp add: atomic_def bnd_apply update_documents_def update_kbs_def ret_def)
    then show ?thesis using counted_move [OF d found, of "add_counts tokens chunks duration" "add_kb_counts 0 tokens chunks"]
      by (simp add: add_counts_def add_kb_counts_def)
  qed
qed

lemma delete_sum:
  assumes "distinct (map dr_id (db_documents d))" and "document_of d doc = Some r"
  shows "sum_list (map amount (filter (\<lambda>r. dr_kb r = kb) (delete_where (\<lambda>x. dr_id x = doc) (db_documents d))))
    = sum_list (map amount (filter (\<lambda>r. dr_kb r = kb) (db_documents d))) - (if dr_kb r = kb then amount r else (0 :: int))"
proof -
  let ?h = "\<lambda>x. if dr_kb x = kb then amount x else 0"
  have "sum_list (map ?h (delete_where (\<lambda>x. dr_id x = doc) rs)) = sum_list (map ?h rs) - sum_list (map (\<lambda>x. if dr_id x = doc then ?h x else 0) rs)" for rs
    by (induction rs) (auto simp: delete_where_def)
  then show ?thesis using sum_at_id [OF assms(1), of r ?h] document_found [OF assms(2)] by (simp add: kb_sum)
qed

lemma in_step_delete:
  assumes "in_step amount counter d" and "distinct (map dr_id (db_documents d))" and "document_of d doc = Some r"
    and "\<And>k. kr_id (g k) = kr_id k \<and> counter (g k) = counter k - amount r"
  shows "in_step amount counter (d\<lparr>db_documents := delete_where (\<lambda>x. dr_id x = doc) (db_documents d),
    db_kbs := update_where (\<lambda>k. kr_id k = dr_kb r) g (db_kbs d)\<rparr>)"
  using in_stepD [OF assms(1)] delete_sum [OF assms(2,3), of amount] assms(4) by (intro in_stepI) simp_all

lemma kb_ids: "map kr_id (update_where p (add_kb_counts a b c) ks) = map kr_id ks"
  by (auto simp: update_where_def add_kb_counts_def)

lemma delete_keeps_counts: "keeps counted (delete_document_and_update_kb_counts doc)"
  unfolding keeps_def
proof (intro allI impI)
  fix d
  assume d: "counted d"
  show "counted (snd (delete_document_and_update_kb_counts doc d))"
  proof (cases "document_of d doc")
    case None
    then show ?thesis using d by (simp add: delete_document_and_update_kb_counts_def atomic_def bnd_apply gets_def ret_def)
  next
    case (Some r)
    have "filter (\<lambda>r. dr_id r = doc) (db_documents d) \<noteq> []" using document_found [OF Some] by (auto simp: filter_empty_conv)
    then have run: "snd (delete_document_and_update_kb_counts doc d) = d\<lparr>db_documents := delete_where (\<lambda>r. dr_id r = doc) (db_documents d),
        db_kbs := update_where (\<lambda>k. kr_id k = dr_kb r) (add_kb_counts (- 1) (- dr_tokens r) (- dr_chunks r)) (db_kbs d)\<rparr>"
      using Some by (simp add: delete_document_and_update_kb_counts_def atomic_def bnd_apply gets_def ret_def delete_documents_def update_kbs_def)
    have "distinct (map dr_id (delete_where p rs))" if "distinct (map dr_id rs)" for p rs
      using that by (simp add: delete_where_def distinct_map_filter)
    then show ?thesis using d Some kb_ids [of "\<lambda>k. kr_id k = dr_kb r" "- 1" "- dr_tokens r" "- dr_chunks r" "db_kbs d"]
      unfolding run by (auto simp: counted_def add_kb_counts_def intro!: in_step_delete)
  qed
qed

lemma insert_keeps_counts:
  assumes "counted d" and "document_of d (dr_id r) = None" and "dr_tokens r = 0" and "dr_chunks r = 0"
  shows "counted (snd (insert_document r d))"
proof -
  have "dr_id r \<notin> dr_id ` set (db_documents d)" using assms(2) by (auto simp: document_of_def find_None_iff)
  then have "counted (d\<lparr>db_documents := db_documents d @ [r], db_kbs := update_where (\<lambda>k. kr_id k = dr_kb r) (add_kb_counts 1 0 0) (db_kbs d)\<rparr>)"
    using assms(1,3,4) kb_ids [of "\<lambda>k. kr_id k = dr_kb r" 1 0 0 "db_kbs d"]
    by (simp add: counted_def in_step_def kb_documents_def) (auto simp: list_all_iff update_where_def add_kb_counts_def)
  then show ?thesis by (simp add: insert_document_def bnd_apply modify_def update_kbs_def lift_def ret_def split: prod.split)
qed

text \<open>Parsing a finished document again takes its counts from the knowledge base and from the document.\<close>

lemma reset_keeps_counts:
  assumes "counted d" and "document_of d doc = Some r"
    and "\<And>x. dr_id (f x) = dr_id x \<and> dr_kb (f x) = dr_kb x \<and> dr_tokens (f x) = 0 \<and> dr_chunks (f x) = 0"
  shows "counted (snd (bnd (clear_chunk_num_when_rerun doc) (\<lambda>_. bnd (update_by_id doc f) (\<lambda>_. ret ())) d))"
proof -
  have "snd (bnd (clear_chunk_num_when_rerun doc) (\<lambda>_. bnd (update_by_id doc f) (\<lambda>_. ret ())) d)
      = d\<lparr>db_documents := update_where (\<lambda>x. dr_id x = doc) f (db_documents d),
          db_kbs := update_where (\<lambda>k. kr_id k = dr_kb r) (add_kb_counts 0 (- dr_tokens r) (- dr_chunks r)) (db_kbs d)\<rparr>"
    using assms(2) by (simp add: clear_chunk_num_when_rerun_def found_document_def bnd_apply gets_res_def update_kbs_def update_by_id_def
      update_documents_def ret_def)
  then show ?thesis using counted_move [OF assms(1,2), of f "add_kb_counts 0 (- dr_tokens r) (- dr_chunks r)"] assms(3)
    by (simp add: add_kb_counts_def)
qed

lemma keeps_counts_update: "keeps_counts f \<Longrightarrow> keeps counted (update_by_id doc f)"
  unfolding update_by_id_def by (rule keeps_update_documents)

lemma parse_documents_keeps: "keeps counted (parse_documents_row doc)"
  unfolding keeps_def
proof (intro allI impI)
  fix d
  assume d: "counted d"
  show "counted (snd (parse_documents_row doc d))"
  proof (cases "document_of d doc")
    case None
    then show ?thesis using d by (simp add: parse_documents_row_def found_document_def bnd_apply gets_res_def)
  next
    case (Some r)
    then have run: "parse_documents_row doc d = (if dr_run r = Some DONE
        then bnd (clear_chunk_num_when_rerun doc) (\<lambda>_. bnd (update_by_id doc (\<lambda>r. no_counts r\<lparr>dr_run := Some RUNNING, dr_progress := 0, dr_msg := []\<rparr>)) (\<lambda>_. ret ())) d
        else bnd (update_by_id doc (\<lambda>r. r\<lparr>dr_run := Some RUNNING, dr_progress := 0\<rparr>)) (\<lambda>_. ret ()) d)"
      by (simp add: parse_documents_row_def found_document_def bnd_apply gets_res_def)
    have "keeps counted (bnd (update_by_id doc (\<lambda>r. r\<lparr>dr_run := Some RUNNING, dr_progress := 0\<rparr>)) (\<lambda>_. ret ()))"
      by (intro keeps_bnd keeps_counts_update keeps_ret) (simp add: keeps_counts_def)
    then show ?thesis unfolding run using d reset_keeps_counts [OF d Some] by (simp add: keeps_def no_counts_def)
  qed
qed

lemma sync_keeps_counts: "keeps counted (sync_document queue_length now listed)"
  unfolding sync_document_def sync_write_def
  by (intro keeps_try_except keeps_bnd keeps_gets keeps_gets_res)
    (auto split: option.split intro!: keeps_bnd keeps_update_documents keeps_counts_update simp: keeps_counts_def)

text \<open>What the services do to documents, and the handlers that parse again, as long as the document was finished.\<close>

inductive counter_step :: "db \<Rightarrow> db \<Rightarrow> bool" where
  step_increment: "counter_step d (snd (increment_chunk_num doc kb tokens chunks duration d))"
| step_decrement: "counter_step d (snd (decrement_chunk_num doc kb tokens chunks duration d))"
| step_delete: "counter_step d (snd (delete_document_and_update_kb_counts doc d))"
| step_insert: "document_of d (dr_id r) = None \<Longrightarrow> dr_tokens r = 0 \<Longrightarrow> dr_chunks r = 0 \<Longrightarrow> counter_step d (snd (insert_document r d))"
| step_sync: "counter_step d (snd (sync_progress queue_length now docs d))"
| step_begin: "counter_step d (snd (begin2parse now luck doc keep_progress d))"
| step_config: "counter_step d (snd (update_parser_config doc config d))"
| step_parse: "counter_step d (snd (parse_documents_row doc d))"
| step_rerun: "document_of d doc = Some r \<Longrightarrow> dr_run r = Some DONE \<Longrightarrow> counter_step d (snd (rerun_with_delete doc d))"

lemma counted_step: "counter_step d d' \<Longrightarrow> counted d \<Longrightarrow> counted d'"
proof (induction rule: counter_step.induct)
  case (step_increment d doc kb tokens chunks duration)
  then show ?case using change_counts unfolding increment_chunk_num_def keeps_def by blast
next
  case (step_decrement d doc kb tokens chunks duration)
  then show ?case using change_counts unfolding decrement_chunk_num_def keeps_def by blast
next
  case (step_delete d doc)
  then show ?case using delete_keeps_counts by (simp add: keeps_def)
next
  case (step_insert d r)
  then show ?case by (intro insert_keeps_counts)
next
  case (step_sync d queue_length now docs)
  have "keeps counted (sync_progress queue_length now docs)" unfolding sync_progress_def by (intro keeps_for_each sync_keeps_counts)
  then show ?case using step_sync by (simp add: keeps_def)
next
  case (step_begin d now luck doc keep_progress)
  have "keeps counted (begin2parse now luck doc keep_progress)" unfolding begin2parse_def
    by (intro keeps_counts_update) (simp add: keeps_counts_def Let_def)
  then show ?case using step_begin by (simp add: keeps_def)
next
  case (step_config d doc config)
  have "keeps counted (update_parser_config doc config)" unfolding update_parser_config_def Let_def
    by (auto split: option.split intro!: keeps_bnd keeps_counts_update simp: keeps_counts_def)
  then show ?case using step_config by (simp add: keeps_def)
next
  case (step_parse d doc)
  then show ?case using parse_documents_keeps by (simp add: keeps_def)
next
  case (step_rerun d doc r)
  have "rerun_with_delete doc d = bnd (clear_chunk_num_when_rerun doc)
      (\<lambda>_. bnd (update_by_id doc (\<lambda>r. no_counts r\<lparr>dr_run := Some RUNNING, dr_progress := 0, dr_msg := []\<rparr>)) (\<lambda>_. ret ())) d"
    using step_rerun(1,2) by (simp add: rerun_with_delete_def found_document_def bnd_apply gets_res_def ret_def split: sum.split prod.split)
  then show ?case using reset_keeps_counts [OF step_rerun(3,1)] by (simp add: no_counts_def)
qed


text \<open>Stopping a document sets its count of chunks to zero and leaves that of its knowledge base, which from then on counts as many
  chunks too many.\<close>

theorem stopping_unbalances:
  assumes "counted d" and "document_of d doc = Some r" and "kb_of d (dr_kb r) = Some k"
  shows "kb_of (snd (stop_parsing_row doc d)) (dr_kb r) = Some k
    \<and> kr_chunks k = sum_list (map dr_chunks (kb_documents (dr_kb r) (snd (stop_parsing_row doc d)))) + dr_chunks r"
proof -
  have k: "k \<in> set (db_kbs d)" "kr_id k = dr_kb r" using assms(3) by (auto simp: kb_of_def find_Some_iff)
  have "distinct (map dr_id (db_documents d))" "in_step dr_chunks kr_chunks d" using assms(1) by (auto simp: counted_def)
  then show ?thesis using in_stepD [of dr_chunks kr_chunks d k] k assms(3)
      update_sum [OF _ assms(2), of "\<lambda>r. r\<lparr>dr_run := Some CANCEL, dr_progress := 0, dr_chunks := 0\<rparr>" dr_chunks "dr_kb r"]
    by (simp add: stop_parsing_row_def update_by_id_def update_documents_def kb_documents_def kb_of_def)
qed

section \<open>Synchronised progress\<close>

lemma document_of_update: "(\<And>r. dr_id (f r) = dr_id r) \<Longrightarrow> find (\<lambda>t. dr_id t = i) (update_where p f rs)
    = map_option (\<lambda>r. if p r then f r else r) (find (\<lambda>t. dr_id t = i) rs)"
  by (induction rs) (auto simp: update_where_def)

text \<open>Rows of cancelled documents are the same.\<close>

definition spares_cancelled :: "document_row list \<Rightarrow> document_row list \<Rightarrow> bool" where
  "spares_cancelled = list_all2 (\<lambda>r u. dr_id u = dr_id r \<and> (dr_run r = Some CANCEL \<longrightarrow> u = r))"

lemma spares_refl [simp]: "spares_cancelled rs rs"
  by (simp add: spares_cancelled_def list_all2_same)

lemma spares_trans: "spares_cancelled rs us \<Longrightarrow> spares_cancelled us vs \<Longrightarrow> spares_cancelled rs vs"
  by (auto simp: spares_cancelled_def list_all2_conv_all_nth)

text \<open>The result of one document: nothing, or its row drawn from its tasks.\<close>

lemma sync_document_cases:
  "(snd (sync_document q now listed d) = d \<and> (document_of d (dr_id listed) = None \<or> (\<exists>r. document_of d (dr_id listed) = Some r \<and> dr_run r = Some CANCEL)
      \<or> filter (\<lambda>t. tr_doc t = dr_id listed) (db_tasks d) = []))
   \<or> (\<exists>r began b. document_of d (dr_id listed) = Some r \<and> dr_run r \<noteq> Some CANCEL
      \<and> snd (sync_document q now listed d) = snd (sync_write (dr_id listed)
          (sync_info_of q now began r (filter (\<lambda>t. tr_doc t = dr_id listed) (db_tasks d)))
          (d\<lparr>db_documents := update_where (\<lambda>r. b \<and> dr_id r = dr_id listed) (dr_begin_update (\<lambda>_. Some now)) (db_documents d)\<rparr>)))"
proof (cases "filter (\<lambda>t. tr_doc t = dr_id listed) (db_tasks d) = []")
  case True
  then show ?thesis by (simp add: sync_document_def try_except_def bnd_apply gets_def ret_def)
next
  case tasks: False
  show ?thesis
  proof (cases "document_of d (dr_id listed)")
    case None
    then show ?thesis using tasks by (simp add: sync_document_def try_except_def bnd_apply gets_def gets_res_def ret_def)
  next
    case (Some r)
    have same: "update_where (\<lambda>r. False \<and> dr_id r = i) f rs = rs" for i f and rs :: "document_row list" by (simp add: update_where_def)
    show ?thesis
    proof (cases "dr_run r = Some CANCEL")
      case True
      then show ?thesis using tasks Some by (simp add: sync_document_def try_except_def bnd_apply gets_def gets_res_def ret_def)
    next
      case running: False
      show ?thesis
      proof (cases "dr_begin listed")
        case None
        have "snd (sync_document q now listed d) = snd (sync_write (dr_id listed)
            (sync_info_of q now now r (filter (\<lambda>t. tr_doc t = dr_id listed) (db_tasks d)))
            (d\<lparr>db_documents := update_where (\<lambda>r. True \<and> dr_id r = dr_id listed) (dr_begin_update (\<lambda>_. Some now)) (db_documents d)\<rparr>))"
          using tasks Some running None
          by (simp add: sync_document_def try_except_def bnd_apply gets_def gets_res_def ret_def update_by_id_def update_documents_def sync_write_def)
        then show ?thesis using Some running by blast
      next
        case (Some b)
        have "snd (sync_document q now listed d) = snd (sync_write (dr_id listed)
            (sync_info_of q now b r (filter (\<lambda>t. tr_doc t = dr_id listed) (db_tasks d)))
            (d\<lparr>db_documents := update_where (\<lambda>r. False \<and> dr_id r = dr_id listed) (dr_begin_update (\<lambda>_. Some now)) (db_documents d)\<rparr>))"
          unfolding same using tasks \<open>document_of d (dr_id listed) = Some r\<close> running Some
          by (simp add: sync_document_def try_except_def bnd_apply gets_def gets_res_def ret_def update_documents_def sync_write_def)
        then show ?thesis using \<open>document_of d (dr_id listed) = Some r\<close> running by blast
      qed
    qed
  qed
qed

lemma spares_update:
  "(\<And>r. r \<in> set rs \<Longrightarrow> p r \<Longrightarrow> dr_id (f r) = dr_id r \<and> dr_run r \<noteq> Some CANCEL) \<Longrightarrow> spares_cancelled rs (update_where p f rs)"
  by (induction rs) (auto simp: spares_cancelled_def update_where_def)

lemma sync_document_spares:
  assumes "distinct (map dr_id (db_documents d))"
  shows "spares_cancelled (db_documents d) (db_documents (snd (sync_document q now listed d)))"
proof -
  consider "snd (sync_document q now listed d) = d"
    | r info b where "document_of d (dr_id listed) = Some r" "dr_run r \<noteq> Some CANCEL" "snd (sync_document q now listed d) = snd (sync_write (dr_id listed) info
        (d\<lparr>db_documents := update_where (\<lambda>r. b \<and> dr_id r = dr_id listed) (dr_begin_update (\<lambda>_. Some now)) (db_documents d)\<rparr>))"
    using sync_document_cases [of q now listed d] by blast
  then show ?thesis
  proof cases
    case (2 r info b)
    have "dr_run x \<noteq> Some CANCEL" if "x \<in> set (db_documents d)" "dr_id x = dr_id listed" for x
      using document_of_member [OF assms that(1)] that(2) 2(1,2) by simp
    then have "spares_cancelled (db_documents d) (update_where (\<lambda>r. b \<and> dr_id r = dr_id listed) (dr_begin_update (\<lambda>_. Some now)) (db_documents d))"
      by (intro spares_update) auto
    then show ?thesis unfolding 2(3) by (simp add: sync_write_def update_documents_def) (erule spares_trans, rule spares_update, simp)
  qed simp
qed

text \<open>Whatever its tasks report, a cancelled document stays as it is: no sync touches its row.\<close>

theorem sync_spares_cancelled:
  assumes "distinct (map dr_id (db_documents d))"
  shows "list_all2 (\<lambda>r u. dr_id u = dr_id r \<and> (dr_run r = Some CANCEL \<longrightarrow> u = r))
    (db_documents d) (db_documents (snd (sync_progress q now docs d)))"
proof -
  have "spares_cancelled (db_documents d) (db_documents (snd (sync_progress q now docs d)))"
    using assms unfolding sync_progress_def
  proof (induction docs arbitrary: d)
    case (Cons x xs)
    have one: "spares_cancelled (db_documents d) (db_documents (snd (sync_document q now x d)))" by (rule sync_document_spares [OF Cons.prems])
    then have "map dr_id (db_documents (snd (sync_document q now x d))) = map dr_id (db_documents d)"
      unfolding spares_cancelled_def by (induction rule: list_all2_induct) simp_all
    then have "distinct (map dr_id (db_documents (snd (sync_document q now x d))))" using Cons.prems by simp
    from one Cons.IH [OF this] have "spares_cancelled (db_documents d) (db_documents (snd (for_each (sync_document q now) xs (snd (sync_document q now x d)))))"
      by (rule spares_trans)
    moreover have "snd (for_each (sync_document q now) (x # xs) d) = snd (sync_document q now x d)
        \<or> snd (for_each (sync_document q now) (x # xs) d) = snd (for_each (sync_document q now) xs (snd (sync_document q now x d)))"
      by (auto simp: bnd_apply split: prod.split sum.split)
    ultimately show ?case using one by (elim disjE) simp_all
  qed (simp add: ret_def)
  then show ?thesis by (simp add: spares_cancelled_def)
qed

lemma mean_below_one:
  assumes "list_all (\<lambda>t. tr_progress t \<le> 1) ts" and "list_ex unfinished ts"
  shows "0 \<le> mean_progress ts \<and> mean_progress ts < 1"
proof -
  let ?f = "\<lambda>t. if tr_progress t \<ge> 0 then tr_progress t else 0"
  have "0 \<le> sum_list (map ?f ts)" by (induction ts) auto
  moreover have "sum_list (map ?f ts) < of_nat (length ts)" using assms
  proof (induction ts)
    case (Cons t ts)
    have "sum_list (map ?f ts) \<le> of_nat (length ts)" using Cons.prems(1) by (induction ts) auto
    then show ?case using Cons by (cases "unfinished t") (auto simp: unfinished_def)
  qed simp
  moreover have "ts \<noteq> []" using assms(2) by auto
  ultimately show ?thesis using assms(1) by (simp add: mean_progress_def)
qed

text \<open>C38: A sync makes a document that is not cancelled say what its tasks say: done at one when all have finished, failed at minus one
  when none is unfinished and some failed, and otherwise running with a progress below one, unless it keeps the progress it had.\<close>

theorem sync_follows_tasks:
  assumes "document_of d (dr_id listed) = Some r" and "dr_run r \<noteq> Some CANCEL"
    and "ts = filter (\<lambda>t. tr_doc t = dr_id listed) (db_tasks d)" and "ts \<noteq> []" and "list_all (\<lambda>t. tr_progress t \<le> 1) ts"
  shows "\<exists>u. document_of (snd (sync_document q now listed d)) (dr_id listed) = Some u
    \<and> (if list_ex unfinished ts then dr_run u = Some RUNNING \<and> (dr_progress u = dr_progress r \<or> 0 < dr_progress u \<and> dr_progress u < 1)
       else if list_ex (\<lambda>t. tr_progress t = - 1) ts then dr_run u = Some FAIL \<and> dr_progress u = - 1
       else dr_run u = Some DONE \<and> dr_progress u = 1)"
proof -
  obtain began b where run: "snd (sync_document q now listed d) = snd (sync_write (dr_id listed) (sync_info_of q now began r ts)
      (d\<lparr>db_documents := update_where (\<lambda>r. b \<and> dr_id r = dr_id listed) (dr_begin_update (\<lambda>_. Some now)) (db_documents d)\<rparr>))"
    using sync_document_cases [of q now listed d] assms(1-4) by fastforce
  define info where "info = sync_info_of q now began r ts"
  have row: "\<exists>u. document_of (snd (sync_document q now listed d)) (dr_id listed) = Some u \<and> dr_run u = Some (si_run info)
      \<and> dr_progress u = (case si_progress info of Some p \<Rightarrow> p | None \<Rightarrow> dr_progress r)"
    using assms(1,2) document_found [OF assms(1)] unfolding run info_def [symmetric]
    by (auto simp: sync_write_def update_documents_def document_of_def document_of_update split: option.split)
  have "si_run info = snd (tasks_state ts)"
      "si_progress info = None \<and> (list_ex unfinished ts) \<or> si_progress info = Some (fst (tasks_state ts)) \<and> fst (tasks_state ts) \<noteq> 0"
    by (auto simp: info_def sync_info_of_def tasks_state_def Let_def)
  then show ?thesis using row mean_below_one [OF assms(5)] by (auto simp: tasks_state_def split: if_splits)
qed

section \<open>Counts of statuses\<close>

text \<open>The processing, finished, failed and cancelled documents of a knowledge base are all of its documents, each counted once.\<close>

theorem basic_info_partitions:
  assumes "list_all (\<lambda>r. dr_progress r = - 1 \<or> 0 \<le> dr_progress r \<and> dr_progress r \<le> 1) (kb_documents kb d)"
  shows "bi_processing (knowledgebase_basic_info kb d) + bi_finished (knowledgebase_basic_info kb d)
    + bi_failed (knowledgebase_basic_info kb d) + bi_cancelled (knowledgebase_basic_info kb d) = length (kb_documents kb d)"
proof -
  have "length (filter (\<lambda>r. dr_progress r = 0 \<or> 0 < dr_progress r \<and> dr_progress r < 1) (filter (\<lambda>r. dr_run r \<noteq> Some CANCEL) rs))
      + length (filter (\<lambda>r. dr_progress r = 1) (filter (\<lambda>r. dr_run r \<noteq> Some CANCEL) rs))
      + length (filter (\<lambda>r. dr_progress r = - 1) (filter (\<lambda>r. dr_run r \<noteq> Some CANCEL) rs))
      + length (filter (\<lambda>r. dr_run r = Some CANCEL) rs) = length rs"
    if "list_all (\<lambda>r. dr_progress r = - 1 \<or> 0 \<le> dr_progress r \<and> dr_progress r \<le> 1) rs" for rs
    using that by (induction rs) auto
  from this [OF assms] show ?thesis by (simp add: knowledgebase_basic_info_def count_run_def Let_def)
qed

section \<open>Configurations merged\<close>

text \<open>How one entry is merged into what is there.\<close>

definition merged_value :: "pyval option \<Rightarrow> pyval \<Rightarrow> pyval" where
  "merged_value old v = (case (old, v) of (Some (PDict o'), PDict n) \<Rightarrow> PDict (dfs_update o' n) | _ \<Rightarrow> v)"

lemma dfs_update_Cons: "dfs_update old ((k, v) # new) = dfs_update (dset k (merged_value (dget old k) v) old) new"
  by (auto simp: merged_value_def split: option.split pyval.split)

declare dfs_update.simps(2) [simp del]

lemma dfs_update_other: "k \<notin> set (dkeys new) \<Longrightarrow> dget (dfs_update old new) k = dget old k"
  by (induction new arbitrary: old) (auto simp: dfs_update_Cons dget_dset)

text \<open>Merging a configuration changes exactly the keys it has: an entry that is an object on both sides is merged in turn, any other
  entry replaces what was there.\<close>

theorem config_merged_by_key:
  assumes "dict_ok new"
  shows "dget (dfs_update old new) k = (case dget new k of None \<Rightarrow> dget old k
    | Some v \<Rightarrow> Some (case (dget old k, v) of (Some (PDict o'), PDict n) \<Rightarrow> PDict (dfs_update o' n) | _ \<Rightarrow> v))"
proof -
  have "dget (dfs_update old new) k = (case dget new k of None \<Rightarrow> dget old k | Some v \<Rightarrow> Some (merged_value (dget old k) v))"
    using assms
  proof (induction new arbitrary: old)
    case (Cons e new)
    obtain k' v where e: "e = (k', v)" by (cases e)
    have new: "dict_ok new" "k' \<notin> set (dkeys new)" using Cons.prems e by (auto simp: dict_ok_def)
    show ?case
    proof (cases "k = k'")
      case True
      then show ?thesis using e new(2) dfs_update_other [of k' new] by (simp add: dfs_update_Cons dget_dset)
    next
      case False
      then show ?thesis using e Cons.IH [OF new(1)] by (simp add: dfs_update_Cons dget_dset split: option.split)
    qed
  qed simp
  then show ?thesis unfolding merged_value_def .
qed

theorem config_merged_by_key_witness:
  "dget (dfs_update [(''a'', PDict [(''x'', PInt 1)]), (''b'', PInt 2)] [(''a'', PDict [(''y'', PInt 3)])]) ''a''
     = Some (PDict [(''x'', PInt 1), (''y'', PInt 3)])"
proof -
  have "dict_ok [(''a'', PDict [(''y'', PInt 3)])]" by (simp add: dict_ok_def)
  from config_merged_by_key [OF this, of "[(''a'', PDict [(''x'', PInt 1)]), (''b'', PInt 2)]" "''a''"]
  show ?thesis by (simp add: dfs_update_Cons merged_value_def)
qed

section \<open>A document with a task\<close>

lemma one_task_counted: "counted one_task"
  by (simp add: counted_def in_step_def kb_documents_def one_task_def)


definition parsed :: db where
  "parsed = snd (increment_chunk_num ''d'' ''k'' 70 3 1 one_task)"

lemma parsed_counted: "counted parsed"
  unfolding parsed_def by (rule counted_step [OF step_increment one_task_counted])

theorem stopping_unbalances_witness:
  "map kr_chunks (db_kbs (snd (stop_parsing_row ''d'' parsed))) = [3] \<and> map dr_chunks (db_documents (snd (stop_parsing_row ''d'' parsed))) = [0]
    \<and> kb_of (snd (stop_parsing_row ''d'' parsed)) ''k'' = Some (hd (db_kbs parsed))"
proof (intro conjI)
  have rows: "document_of parsed ''d'' = Some (hd (db_documents parsed))" "dr_kb (hd (db_documents parsed)) = ''k''"
      "kb_of parsed ''k'' = Some (hd (db_kbs parsed))" by code_simp+
  show "kb_of (snd (stop_parsing_row ''d'' parsed)) ''k'' = Some (hd (db_kbs parsed))"
    using stopping_unbalances [OF parsed_counted rows(1)] rows(2,3) by simp
qed code_simp+

theorem sync_spares_cancelled_witness:
  "list_all2 (\<lambda>r u. dr_id u = dr_id r \<and> (dr_run r = Some CANCEL \<longrightarrow> u = r)) (db_documents one_task)
    (db_documents (snd (sync_progress (\<lambda>p. 0) 5 (db_documents one_task) one_task)))"
  by (rule sync_spares_cancelled) (simp add: one_task_def)

theorem sync_follows_tasks_witness:
  "\<exists>u. document_of (snd (sync_document (\<lambda>p. 0) 5 (hd (db_documents one_task)) one_task)) ''d'' = Some u \<and> dr_run u = Some RUNNING"
proof -
  have "\<exists>r. document_of one_task (dr_id (hd (db_documents one_task))) = Some r \<and> dr_run r \<noteq> Some CANCEL"
    by (simp add: one_task_def document_of_def)
  then obtain r where r: "document_of one_task (dr_id (hd (db_documents one_task))) = Some r" "dr_run r \<noteq> Some CANCEL" by blast
  have ts: "[queued_task] = filter (\<lambda>t. tr_doc t = dr_id (hd (db_documents one_task))) (db_tasks one_task)"
    by (simp add: one_task_def queued_task_def)
  show ?thesis using sync_follows_tasks [OF r ts, of "\<lambda>p. 0" 5] by (simp add: unfinished_def queued_task_def one_task_def) blast
qed

theorem basic_info_partitions_witness:
  "bi_processing (knowledgebase_basic_info ''k'' parsed) + bi_finished (knowledgebase_basic_info ''k'' parsed)
    + bi_failed (knowledgebase_basic_info ''k'' parsed) + bi_cancelled (knowledgebase_basic_info ''k'' parsed) = 1"
proof -
  have "list_all (\<lambda>r. dr_progress r = - 1 \<or> 0 \<le> dr_progress r \<and> dr_progress r \<le> 1) (kb_documents ''k'' parsed)" by code_simp
  moreover have "length (kb_documents ''k'' parsed) = 1" by code_simp
  ultimately show ?thesis using basic_info_partitions [of "''k''" parsed] by simp
qed

end
