(* ===== verification/TaskQueue.thy ===== *)
theory TaskQueue
  imports DocumentService "HOL-Library.Multiset"
begin

text \<open>
  The queueing of tasks, after \<open>queue_tasks\<close>, \<open>reuse_prev_task_chunks\<close> and \<open>queue_dataflow\<close> of
  \<^verbatim>\<open>api/db/services/task_service.py\<close>, \<open>queue_raptor_o_graphrag_tasks\<close> of \<^verbatim>\<open>document_service.py\<close> and
  \<open>bulk_insert_into_db\<close> of \<^verbatim>\<open>api/db/db_utils.py\<close>: a document is cut into tasks by pages or rows, tasks take over the
  chunks of earlier tasks that did the same, and the others are sent to the broker. The number of pages or rows of a
  file, the configuration of a document, digests, fresh identifiers, the clock and the broker are parameters; the
  requests to the store of chunks and to the broker are recorded.
\<close>

section \<open>Pages\<close>

definition maximum_page_number :: int where
  "maximum_page_number = 100000"

definition maximum_task_page_number :: int where
  "maximum_task_page_number = maximum_page_number * 1000"

definition range_arg :: "pyval \<Rightarrow> int res" where
  "range_arg v = (case v of PInt i \<Rightarrow> Inr i | PBool b \<Rightarrow> Inr (if b then 1 else 0)
   | _ \<Rightarrow> raise TypeError ([CHR 0x27] @ type_name v @ [CHR 0x27] @ '' object cannot be interpreted as an integer''))"

text \<open>\<open>range(s, e, k)\<close>.\<close>

definition py_range :: "int \<Rightarrow> int \<Rightarrow> int \<Rightarrow> int list res" where
  "py_range s e k = (if k = 0 then raise ValueError ''range() arg 3 must not be zero''
     else Inr (map (\<lambda>i. s + int i * k) [0..<nat (if k > 0 then (e - s + k - 1) div k else (s - e - k - 1) div - k)]))"

definition range_pair :: "pyval \<Rightarrow> (int \<times> int) res" where
  "range_pair v = (case v of
     PList [a, b] \<Rightarrow> try_then (range_arg a) (\<lambda>s. try_then (range_arg b) (\<lambda>e. Inr (s, e)))
   | PList vs \<Rightarrow> raise ValueError ''wrong number of values to unpack''
   | _ \<Rightarrow> raise TypeError ''cannot unpack non-iterable object'')"

definition task_page_size :: "document_row \<Rightarrow> pyval" where
  "task_page_size doc = (let cfg = dr_config doc in
     if dr_parser doc \<in> {''one'', ''knowledge_graph''} \<or> \<not> py_eq (get_or cfg ''layout_recognize'' (PStr ''DeepDOC'')) (PStr ''DeepDOC'')
       \<or> truthy (get_or cfg ''toc_extraction'' (PBool False))
     then PInt maximum_task_page_number
     else py_or (get_none cfg ''task_page_size'') (PInt (if dr_parser doc = ''paper'' then 22 else 12)))"

definition page_ranges :: "document_row \<Rightarrow> (int \<times> int) list res" where
  "page_ranges doc = try_then (py_iter (py_or (get_none (dr_config doc) ''pages'') (PList [PList [PInt 1, PInt maximum_page_number]])))
     (map_res range_pair)"

text \<open>The tasks of a range of pages, which counts from one and ends before its end.\<close>

definition range_intervals :: "int \<Rightarrow> int \<Rightarrow> int \<times> int \<Rightarrow> (int \<times> int) list res" where
  "range_intervals pages width = (\<lambda>(s, e). let s = max 0 (s - 1); e = min (e - 1) pages in
     try_then (py_range s e width) (\<lambda>ps. Inr (map (\<lambda>p. (p, min (p + width) e)) ps)))"

section \<open>Parameters and requests\<close>

record queue_env =
  qe_pages :: "nat option"
  qe_rows :: "int option"
  qe_config :: "pdict option"
  qe_digest :: "string \<Rightarrow> string"
  qe_uuid :: "nat \<Rightarrow> string"
  qe_now :: rat
  qe_clock :: string
  qe_luck :: rat
  qe_stamp :: int
  qe_broker :: "(string \<times> task_row \<times> pdict) list \<Rightarrow> bool"

record queue_world =
  qw_db :: db
  qw_deleted :: "string list list"
  qw_sent :: "(string \<times> task_row \<times> pdict) list"

definition in_db :: "(db, 'a) act \<Rightarrow> (queue_world, 'a) act" where
  "in_db m w = (case m (qw_db w) of (r, d) \<Rightarrow> (r, w\<lparr>qw_db := d\<rparr>))"

section \<open>Tasks\<close>

definition new_task :: "queue_env \<Rightarrow> string \<Rightarrow> nat \<Rightarrow> task_row" where
  "new_task env doc i = \<lparr>tr_id = qe_uuid env i, tr_doc = doc, tr_from = 0, tr_to = maximum_task_page_number, tr_type = [], tr_priority = 0,
     tr_begin = Some (qe_now env), tr_duration = 0, tr_progress = 0, tr_msg = [], tr_retry = 0, tr_digest = [], tr_chunk_ids = [], tr_created = 0\<rparr>"

definition task_intervals :: "queue_env \<Rightarrow> document_row \<Rightarrow> (int \<times> int) list res" where
  "task_intervals env doc =
     (if dr_type doc = ''pdf'' then
        try_then (page_ranges doc) (\<lambda>prs. try_then (range_arg (task_page_size doc)) (\<lambda>width.
        try_then (map_res (range_intervals (case qe_pages env of None \<Rightarrow> 0 | Some n \<Rightarrow> int n) width) prs) (\<lambda>ivs. Inr (concat ivs))))
      else if dr_parser doc = ''table'' then (case qe_rows env of
          None \<Rightarrow> raise TypeError ''NoneType object cannot be interpreted as an integer''
        | Some rn \<Rightarrow> try_then (py_range 0 rn 3000) (\<lambda>ps. Inr (map (\<lambda>p. (p, min (p + 3000) rn)) ps)))
      else Inr [(0, maximum_task_page_number)])"

text \<open>The text a digest is made of: the configuration by sorted keys, for the tasks of a document without its graph sections.\<close>

definition without_graphs :: "string \<times> pyval \<Rightarrow> pyval" where
  "without_graphs = (\<lambda>(k, v). case v of PDict d \<Rightarrow> if k = ''parser_config'' then PDict (dpop ''graphrag'' (dpop ''raptor'' d)) else v | _ \<Rightarrow> v)"

definition config_text :: "(string \<times> pyval \<Rightarrow> pyval) \<Rightarrow> pdict \<Rightarrow> string" where
  "config_text f cfg = concat (map (py_str \<circ> f) (sort_key fst cfg))"

definition task_text :: "task_row \<Rightarrow> string" where
  "task_text t = tr_doc t @ int_str (tr_from t) @ int_str (tr_to t)"

definition prepared_tasks :: "queue_env \<Rightarrow> document_row \<Rightarrow> int \<Rightarrow> (int \<times> int) list \<Rightarrow> task_row list res" where
  "prepared_tasks env doc priority ivs =
     (let ts = map (\<lambda>(i, (a, b)). (new_task env (dr_id doc) i)\<lparr>tr_from := a, tr_to := b\<rparr>) (enumerate 0 ivs) in
      if ts = [] then Inr []
      else case qe_config env of
        None \<Rightarrow> no_attr PNone ''keys''
      | Some cfg \<Rightarrow> Inr (map (\<lambda>t. t\<lparr>tr_digest := qe_digest env (config_text without_graphs cfg @ task_text t), tr_priority := priority\<rparr>) ts))"

section \<open>Chunks of earlier tasks\<close>

text \<open>The first earlier task with the same first page and the same digest.\<close>

fun match_at :: "task_row \<Rightarrow> task_row list \<Rightarrow> nat option" where
  "match_at t [] = None"
| "match_at t (p # ps) = (if tr_from p = tr_from t \<and> tr_digest p = tr_digest t then Some 0 else map_option Suc (match_at t ps))"

definition reuse_text :: "string \<Rightarrow> task_row \<Rightarrow> string" where
  "reuse_text clock t = join_str '' ''
     [clock,
      (if tr_to t - tr_from t \<ge> 10 ^ 6 \<or> tr_from t = maximum_task_page_number \<and> tr_to t = maximum_task_page_number
       then ''Page('' @ int_str (tr_from t) @ ''~'' @ int_str (tr_to t) @ ''): '' else []),
      ''Reused previous task'' @ [CHR 0x27] @ ''s chunks.'']"

definition reuse_prev_task_chunks :: "string \<Rightarrow> task_row \<Rightarrow> task_row list \<Rightarrow> task_row \<times> task_row list \<times> nat" where
  "reuse_prev_task_chunks clock t prevs = (case match_at t prevs of
     None \<Rightarrow> (t, prevs, 0)
   | Some i \<Rightarrow> let p = prevs ! i in
       if tr_progress p < 1 \<or> tr_chunk_ids p = [] then (t, prevs, 0)
       else (t\<lparr>tr_chunk_ids := tr_chunk_ids p, tr_progress := 1, tr_msg := reuse_text clock t\<rparr>,
             prevs[i := p\<lparr>tr_chunk_ids := []\<rparr>], length (py_words (tr_chunk_ids p))))"

fun reuse_all :: "string \<Rightarrow> task_row list \<Rightarrow> task_row list \<Rightarrow> task_row list \<times> task_row list \<times> nat" where
  "reuse_all clock [] prevs = ([], prevs, 0)"
| "reuse_all clock (t # ts) prevs = (case reuse_prev_task_chunks clock t prevs of (t', prevs, n) \<Rightarrow>
     (case reuse_all clock ts prevs of (ts', prevs, m) \<Rightarrow> (t' # ts', prevs, n + m)))"

definition chunks_of :: "task_row list \<Rightarrow> string list" where
  "chunks_of ts = concat (map (\<lambda>t. py_words (tr_chunk_ids t)) ts)"

section \<open>The database and the broker\<close>

text \<open>A row with a known identifier replaces that row but for its time of creation; no rows at all is an index error.\<close>

definition upsert :: "task_row \<Rightarrow> task_row list \<Rightarrow> task_row list" where
  "upsert t ts = (if list_ex (\<lambda>u. tr_id u = tr_id t) ts
     then map (\<lambda>u. if tr_id u = tr_id t then t\<lparr>tr_created := tr_created u\<rparr> else u) ts else ts @ [t])"

definition stamped :: "int \<Rightarrow> task_row list \<Rightarrow> task_row list" where
  "stamped stamp ts = map (\<lambda>(i, t). t\<lparr>tr_created := stamp + int i\<rparr>) (enumerate 0 ts)"

definition bulk_insert_into_db :: "int \<Rightarrow> task_row list \<Rightarrow> (db, unit) act" where
  "bulk_insert_into_db stamp ts d = (if ts = [] then (raise IndexError ''list index out of range'', d)
     else (Inr (), d\<lparr>db_tasks := fold upsert (stamped stamp ts) (db_tasks d)\<rparr>))"

definition delete_tasks :: "string \<Rightarrow> (db, unit) act" where
  "delete_tasks doc = modify (\<lambda>d. d\<lparr>db_tasks := delete_where (\<lambda>t. tr_doc t = doc) (db_tasks d)\<rparr>)"

text \<open>Every suffix names the common queue of its priority.\<close>

definition svr_queue_name :: "int \<Rightarrow> string \<Rightarrow> string" where
  "svr_queue_name priority kind = ''te.'' @ int_str priority @ ''.common''"

definition queue_product :: "queue_env \<Rightarrow> string \<Rightarrow> task_row \<Rightarrow> pdict \<Rightarrow> (queue_world, bool) act" where
  "queue_product env name t extra w = (if qe_broker env (qw_sent w) then (Inr True, w\<lparr>qw_sent := qw_sent w @ [(name, t, extra)]\<rparr>) else (Inr False, w))"

definition redis_down :: string where
  "redis_down = ''Can'' @ [CHR 0x27] @ ''t access Redis. Please check the Redis'' @ [CHR 0x27] @ '' status.''"

definition send :: "queue_env \<Rightarrow> string \<Rightarrow> task_row \<Rightarrow> (queue_world, unit) act" where
  "send env name t = bnd (queue_product env name t []) (\<lambda>ok.
     if ok then ret () else lift (raise AssertionError redis_down))"

section \<open>Queueing a document\<close>

text \<open>Earlier tasks give their chunks to the new ones; then they are deleted, and the chunks that nobody took as well.\<close>

definition take_over :: "queue_env \<Rightarrow> string \<Rightarrow> task_row list \<Rightarrow> task_row list \<Rightarrow> (queue_world, task_row list \<times> nat) act" where
  "take_over env doc ts prevs = (case reuse_all (qe_clock env) ts prevs of (ts, prevs, n) \<Rightarrow>
     bnd (in_db (delete_tasks doc)) (\<lambda>_.
     if chunks_of prevs = [] then ret (ts, n)
     else case qe_config env of
         None \<Rightarrow> lift (raise TypeError ''NoneType object is not subscriptable'')
       | Some cfg \<Rightarrow> bnd (lift (dict_item cfg ''tenant_id'')) (\<lambda>_. bnd (lift (dict_item cfg ''kb_id'')) (\<lambda>_.
           bnd (modify (\<lambda>w. w\<lparr>qw_deleted := qw_deleted w @ [chunks_of prevs]\<rparr>)) (\<lambda>_. ret (ts, n))))))"

definition queue_tasks :: "queue_env \<Rightarrow> document_row \<Rightarrow> int \<Rightarrow> (queue_world, unit) act" where
  "queue_tasks env doc priority =
     bnd (lift (task_intervals env doc)) (\<lambda>ivs.
     bnd (lift (prepared_tasks env doc priority ivs)) (\<lambda>ts.
     bnd (gets (\<lambda>w. get_tasks (dr_id doc) (qw_db w))) (\<lambda>prevs.
     bnd (if prevs = [] then ret (ts, 0) else take_over env (dr_id doc) ts prevs) (\<lambda>(ts, n).
     bnd (in_db (update_by_id (dr_id doc) (dr_chunks_update (\<lambda>_. int n)))) (\<lambda>_.
     bnd (in_db (bulk_insert_into_db (qe_stamp env) ts)) (\<lambda>_.
     bnd (in_db (begin2parse (qe_now env) (qe_luck env) (dr_id doc) False)) (\<lambda>_.
     for_each (send env (svr_queue_name priority (if dr_parser doc \<noteq> ''resume'' then ''common'' else ''resume'')))
       (filter (\<lambda>t. tr_progress t < 1) ts))))))))"

definition fake_documents :: "string list" where
  "fake_documents = [''dataflow_x'', ''graph_raptor_x'']"

definition kb_id_of :: "db \<Rightarrow> string \<Rightarrow> pyval" where
  "kb_id_of d doc = (case document_of d doc of None \<Rightarrow> PNone | Some r \<Rightarrow> PStr (dr_kb r))"

definition queue_dataflow ::
    "queue_env \<Rightarrow> string \<Rightarrow> string \<Rightarrow> string \<Rightarrow> string \<Rightarrow> pyval \<Rightarrow> int \<Rightarrow> bool \<Rightarrow> (queue_world, bool \<times> string) act" where
  "queue_dataflow env tenant flow i doc file priority rerun =
     (let t = (new_task env doc 0)\<lparr>tr_id := i, tr_type := (if rerun then ''dataflow_rerun'' else ''dataflow''), tr_priority := priority\<rparr> in
      bnd (if doc \<in> set fake_documents then ret ()
           else bnd (in_db (delete_tasks doc)) (\<lambda>_. bnd (in_db (begin2parse (qe_now env) (qe_luck env) doc False)) (\<lambda>_. ret ()))) (\<lambda>_.
      bnd (in_db (bulk_insert_into_db (qe_stamp env) [t])) (\<lambda>_.
      bnd (gets (\<lambda>w. kb_id_of (qw_db w) doc)) (\<lambda>kb.
      bnd (queue_product env (svr_queue_name priority ''common'') t
         [(''kb_id'', kb), (''tenant_id'', PStr tenant), (''dataflow_id'', PStr flow), (''file'', file)]) (\<lambda>ok.
      ret (if ok then (True, []) else (False, redis_down)))))))"

definition queue_raptor_o_graphrag_tasks ::
    "queue_env \<Rightarrow> string \<Rightarrow> int \<Rightarrow> string \<Rightarrow> string list \<Rightarrow> (queue_world, string) act" where
  "queue_raptor_o_graphrag_tasks env ty priority doc doc_ids =
     (if ty \<notin> {''graphrag'', ''raptor'', ''mindmap''} then lift (raise AssertionError ''type should be graphrag, raptor or mindmap'')
      else case qe_config env of
        None \<Rightarrow> lift (no_attr PNone ''keys'')
      | Some cfg \<Rightarrow>
          let t = (new_task env doc 0)\<lparr>tr_from := maximum_task_page_number, tr_type := ty, tr_msg := qe_clock env @ '' created task '' @ ty\<rparr>;
              t = t\<lparr>tr_digest := qe_digest env (config_text snd cfg @ task_text t @ ty)\<rparr>
          in bnd (in_db (bulk_insert_into_db (qe_stamp env) [t])) (\<lambda>_.
             bnd (in_db (begin2parse (qe_now env) (qe_luck env) doc True)) (\<lambda>_.
             bnd (queue_product env (svr_queue_name priority ty) t [(''doc_ids'', PList (map PStr doc_ids))]) (\<lambda>ok.
             if ok then ret (tr_id t) else lift (raise AssertionError redis_down)))))"

section \<open>Ranges of pages\<close>

lemma py_range_positive:
  assumes "0 < k"
  shows "py_range s e k = Inr (map (\<lambda>i. s + int i * k) [0..<nat ((e - s + k - 1) div k)])"
  using assms by (simp add: py_range_def)

lemma upto_join: "a \<le> b \<Longrightarrow> b \<le> c + 1 \<Longrightarrow> [a .. b - 1] @ [b .. c] = [a .. (c :: int)]"
  using upto_split2 [of a "b - 1" c] by (cases "a = b") simp_all

text \<open>Steps of a positive width cover a range: each interval starts where the one before ends.\<close>

lemma intervals_tile:
  assumes "0 < k"
  shows "concat (map (\<lambda>i. [s + int i * k .. min (s + int i * k + k) e - 1]) [0..<n]) = [s .. min (s + int n * k) e - 1]"
proof (induction n)
  case (Suc n)
  let ?m = "s + int n * k"
  have "[s .. min ?m e - 1] @ [?m .. min (?m + k) e - 1] = [s .. min (?m + k) e - 1]"
  proof (cases "?m \<le> e")
    case True
    then have "[s .. ?m - 1] @ [?m .. min (?m + k) e - 1] = [s .. min (?m + k) e - 1]" using assms by (intro upto_join) auto
    then show ?thesis using True by (simp add: min_absorb1)
  next
    case False
    then show ?thesis using assms by (simp add: min_def)
  qed
  then show ?case using Suc by (simp add: algebra_simps)
qed simp

lemma steps_enough:
  assumes "0 < k"
  shows "min (s + int (nat ((e - s + k - 1) div k)) * k) e = e"
    and "i < nat ((e - s + k - 1) div k) \<Longrightarrow> s + int i * k < e"
proof -
  let ?q = "(e - s + k - 1) div k"
  have q: "?q * k \<le> e - s + k - 1" "e - s - 1 < ?q * k"
    using div_mult_mod_eq [of "e - s + k - 1" k] pos_mod_bound [OF assms, of "e - s + k - 1"] pos_mod_sign [OF assms, of "e - s + k - 1"] by linarith+
  have "0 \<le> int (nat ?q) * k" "?q * k \<le> int (nat ?q) * k" using assms by (simp_all add: mult_right_mono)
  then show "min (s + int (nat ?q) * k) e = e" using q(2) by linarith
  assume "i < nat ?q"
  then have "int i + 1 \<le> ?q" by simp
  then have "(int i + 1) * k \<le> ?q * k" using assms by (simp add: mult_right_mono)
  then show "s + int i * k < e" using q(1) assms by (simp add: algebra_simps)
qed

text \<open>The pages of an interval, its end excluded.\<close>

definition pages_in :: "int \<times> int \<Rightarrow> int list" where
  "pages_in = (\<lambda>(a, b). [a .. b - 1])"

lemma range_intervals_tile:
  assumes "0 < width" and "range_intervals pages width r = Inr ivs"
  shows "concat (map pages_in ivs) = [max 0 (fst r - 1) .. min (snd r - 1) pages - 1]"
    and "list_all (\<lambda>(a, b). 0 \<le> a \<and> a < b \<and> b \<le> pages \<and> b \<le> a + width) ivs"
proof -
  obtain s0 e0 where r: "r = (s0, e0)" by (cases r)
  let ?s = "max 0 (s0 - 1)" and ?e = "min (e0 - 1) pages"
  let ?n = "nat ((?e - ?s + width - 1) div width)"
  have ivs: "ivs = map (\<lambda>i. (?s + int i * width, min (?s + int i * width + width) ?e)) [0..<?n]"
    using assms by (simp add: range_intervals_def r Let_def py_range_positive comp_def)
  have "concat (map pages_in ivs) = [?s .. min (?s + int ?n * width) ?e - 1]"
    unfolding ivs pages_in_def using intervals_tile [OF assms(1), of ?s ?e ?n] by (simp add: comp_def)
  then show "concat (map pages_in ivs) = [max 0 (fst r - 1) .. min (snd r - 1) pages - 1]"
    using steps_enough(1) [OF assms(1), of ?s ?e] by (simp only: r fst_conv snd_conv)
  show "list_all (\<lambda>(a, b). 0 \<le> a \<and> a < b \<and> b \<le> pages \<and> b \<le> a + width) ivs"
    unfolding ivs list_all_iff
  proof
    fix iv
    assume "iv \<in> set (map (\<lambda>i. (?s + int i * width, min (?s + int i * width + width) ?e)) [0..<?n])"
    then obtain i where i: "i < ?n" "iv = (?s + int i * width, min (?s + int i * width + width) ?e)" by auto
    define a where "a = ?s + int i * width"
    have "a < ?e" unfolding a_def using i(1) by (rule steps_enough(2) [OF assms(1)])
    moreover have "0 \<le> a" using assms(1) by (simp add: a_def)
    ultimately show "case iv of (a, b) \<Rightarrow> 0 \<le> a \<and> a < b \<and> b \<le> pages \<and> b \<le> a + width"
      using assms(1) unfolding i(2) a_def [symmetric] by simp
  qed
qed

text \<open>C39: The tasks of a PDF with a positive page size cover each range of pages that is asked for exactly once and in order, as far as
  the file has pages, and no task is empty or larger than the page size.\<close>

theorem pdf_tasks_tile_the_pages:
  assumes "dr_type doc = ''pdf''" and "page_ranges doc = Inr prs" and "range_arg (task_page_size doc) = Inr width" and "0 < width"
    and "task_intervals env doc = Inr ivs" and "qe_pages env = Some pages"
  shows "concat (map pages_in ivs) = concat (map (\<lambda>(s, e). [max 0 (s - 1) .. min (e - 1) (int pages) - 1]) prs)
    \<and> list_all (\<lambda>(a, b). 0 \<le> a \<and> a < b \<and> b \<le> int pages \<and> b \<le> a + width) ivs"
proof -
  obtain ivss where ivss: "map_res (range_intervals (int pages) width) prs = Inr ivss" "ivs = concat ivss"
    using assms by (auto simp: task_intervals_def try_then_Inr_iff)
  have tile: "concat (map pages_in (concat ivss)) = concat (map (\<lambda>(s, e). [max 0 (s - 1) .. min (e - 1) (int pages) - 1]) prs)
      \<and> list_all (\<lambda>(a, b). 0 \<le> a \<and> a < b \<and> b \<le> int pages \<and> b \<le> a + width) (concat ivss)"
    if "map_res (range_intervals (int pages) width) prs = Inr ivss" for ivss
    using that
  proof (induction prs arbitrary: ivss)
    case (Cons r prs)
    obtain iv rest where iv: "range_intervals (int pages) width r = Inr iv" "map_res (range_intervals (int pages) width) prs = Inr rest" "ivss = iv # rest"
      using Cons.prems by (auto simp: try_then_Inr_iff)
    show ?case using Cons.IH [OF iv(2)] range_intervals_tile [OF assms(4) iv(1)] iv(3) by (cases r) simp
  qed simp
  show ?thesis using tile [OF ivss(1)] ivss(2) by blast
qed

section \<open>Chunks are kept or deleted\<close>

lemma py_words_empty [simp]: "py_words [] = []"
  by code_simp

lemma chunks_of_simps [simp]: "chunks_of [] = []" "chunks_of (t # ts) = py_words (tr_chunk_ids t) @ chunks_of ts"
  by (simp_all add: chunks_of_def)

lemma match_at_less: "match_at t ps = Some i \<Longrightarrow> i < length ps"
  by (induction ps arbitrary: i) (auto split: if_splits)

lemma chunks_of_update: "i < length ps \<Longrightarrow> mset (chunks_of ps)
    = mset (py_words (tr_chunk_ids (ps ! i))) + mset (chunks_of (ps[i := (ps ! i)\<lparr>tr_chunk_ids := []\<rparr>]))"
  by (induction ps arbitrary: i) (auto split: nat.split)

text \<open>What a task is when it has taken over chunks, or has not.\<close>

definition same_job :: "task_row \<Rightarrow> task_row \<Rightarrow> bool" where
  "same_job t u = (tr_id u = tr_id t \<and> tr_doc u = tr_doc t \<and> tr_from u = tr_from t \<and> tr_to u = tr_to t
     \<and> (tr_progress u = tr_progress t \<and> tr_chunk_ids u = tr_chunk_ids t \<or> tr_progress u = 1 \<and> tr_chunk_ids u \<noteq> []))"

lemma reuse_one:
  assumes "reuse_prev_task_chunks clock t prevs = (t', prevs', n)" and "tr_chunk_ids t = []"
  shows "mset (chunks_of prevs) = mset (chunks_of [t']) + mset (chunks_of prevs') \<and> n = length (chunks_of [t']) \<and> same_job t t'"
proof (cases "match_at t prevs")
  case None
  then show ?thesis using assms by (auto simp: reuse_prev_task_chunks_def same_job_def)
next
  case (Some i)
  then show ?thesis using assms chunks_of_update [OF match_at_less [OF Some]]
    by (auto simp: reuse_prev_task_chunks_def same_job_def Let_def split: if_splits)
qed

lemma reuse_all_conserves:
  "reuse_all clock ts prevs = (ts', prevs', n) \<Longrightarrow> list_all (\<lambda>t. tr_chunk_ids t = []) ts \<Longrightarrow>
    mset (chunks_of prevs) = mset (chunks_of ts') + mset (chunks_of prevs') \<and> n = length (chunks_of ts') \<and> list_all2 same_job ts ts'"
proof (induction clock ts prevs arbitrary: ts' n rule: reuse_all.induct)
  case (2 clock t ts prevs)
  obtain t1 p1 n1 where one: "reuse_prev_task_chunks clock t prevs = (t1, p1, n1)" by (cases "reuse_prev_task_chunks clock t prevs")
  obtain ts1 n2 where rest: "reuse_all clock ts p1 = (ts1, prevs', n2)" "ts' = t1 # ts1" "n = n1 + n2"
    using 2(2) one by (auto split: prod.splits)
  show ?case using 2(1) [OF one [symmetric] refl rest(1)] 2(3) reuse_one [OF one] rest by simp
qed simp

lemma mset_chunks_of: "mset (chunks_of ts) = \<Sum>\<^sub># (image_mset (\<lambda>t. mset (py_words (tr_chunk_ids t))) (mset ts))"
  by (induction ts) simp_all

lemma chunks_of_tasks: "mset (chunks_of (get_tasks doc d)) = mset (chunks_of (filter (\<lambda>t. tr_doc t = doc) (db_tasks d)))"
  by (simp add: mset_chunks_of get_tasks_def)

lemma sent_all: "for_each (send env name) ts w = (Inr (), w') \<Longrightarrow> w' = w\<lparr>qw_sent := qw_sent w @ map (\<lambda>t. (name, t, [])) ts\<rparr>"
proof (induction ts arbitrary: w)
  case (Cons t ts)
  then obtain u where u: "send env name t w = (Inr (), u)" "for_each (send env name) ts u = (Inr (), w')" by (auto simp: bnd_Inr_iff)
  from u(1) have "u = w\<lparr>qw_sent := qw_sent w @ [(name, t, [])]\<rparr>"
    by (auto simp: send_def bnd_Inr_iff queue_product_def ret_def lift_def split: if_splits)
  then show ?case using Cons.IH [OF u(2)] by simp
qed (simp add: ret_def)

lemma take_over_run:
  assumes "take_over env doc ts prevs w = (Inr (ts', n), w')"
  obtains prevs' where "reuse_all (qe_clock env) ts prevs = (ts', prevs', n)"
    "qw_db w' = (qw_db w)\<lparr>db_tasks := delete_where (\<lambda>t. tr_doc t = doc) (db_tasks (qw_db w))\<rparr>"
    "qw_sent w' = qw_sent w" "qw_deleted w' = qw_deleted w @ (if chunks_of prevs' = [] then [] else [chunks_of prevs'])"
proof -
  obtain ts1 prevs' n1 where r: "reuse_all (qe_clock env) ts prevs = (ts1, prevs', n1)" by (cases "reuse_all (qe_clock env) ts prevs")
  show ?thesis using assms r
    by (intro that [of prevs']) (auto simp: take_over_def bnd_Inr_iff in_db_def delete_tasks_def modify_def ret_def lift_def
      split: if_splits option.splits)
qed

lemma upsert_fresh: "tr_id t \<notin> tr_id ` set ts \<Longrightarrow> upsert t ts = ts @ [t]"
  by (auto simp: upsert_def list_ex_iff image_iff)

lemma upserts_fresh:
  "distinct (map tr_id us) \<Longrightarrow> tr_id ` set us \<inter> tr_id ` set ts = {} \<Longrightarrow> fold upsert us ts = ts @ us"
  by (induction us arbitrary: ts) (auto simp: upsert_fresh image_Un)

lemma stamped_map:
  assumes "\<And>t n. f (t\<lparr>tr_created := n\<rparr>) = f t"
  shows "map f (stamped stamp ts) = map f ts"
proof -
  have "map (\<lambda>(i, t). f t) (enumerate k ts) = map f ts" for k by (induction ts arbitrary: k) simp_all
  then show ?thesis using assms by (auto simp: stamped_def comp_def case_prod_unfold)
qed

lemma prepared_tasks_run:
  assumes "prepared_tasks env doc priority ivs = Inr ts"
  shows "map tr_id ts = map (qe_uuid env) [0..<length ivs]" and "list_all (\<lambda>t. tr_doc t = dr_id doc \<and> tr_chunk_ids t = [] \<and> tr_progress t = 0) ts"
    and "map (\<lambda>t. (tr_from t, tr_to t)) ts = ivs"
proof -
  have ids: "map (\<lambda>(i, (a, b)). qe_uuid env i) (enumerate k xs) = map (qe_uuid env) [k..<k + length xs]"
      "map (\<lambda>(i, (a, b)). (a, b)) (enumerate k xs) = xs" for k and xs :: "(int \<times> int) list"
    by (induction xs arbitrary: k) (simp_all add: upt_rec)
  show "map tr_id ts = map (qe_uuid env) [0..<length ivs]" "map (\<lambda>t. (tr_from t, tr_to t)) ts = ivs"
    using assms ids(1) [of 0 ivs] ids(2) [of 0 ivs]
    by (auto simp: prepared_tasks_def Let_def new_task_def comp_def case_prod_unfold no_attr_def split: if_splits option.splits)
  show "list_all (\<lambda>t. tr_doc t = dr_id doc \<and> tr_chunk_ids t = [] \<and> tr_progress t = 0) ts"
    using assms by (auto simp: prepared_tasks_def Let_def new_task_def list_all_iff no_attr_def split: if_splits option.splits)
qed

lemma job_keys: "list_all2 same_job ts us \<Longrightarrow> map tr_id us = map tr_id ts \<and> map tr_doc us = map tr_doc ts"
  by (induction rule: list_all2_induct) (simp_all add: same_job_def)

lemma find_updated: "(\<And>r. dr_id (f r) = dr_id r) \<Longrightarrow> find (\<lambda>r. dr_id r = i) (update_where (\<lambda>r. dr_id r = i) f rs)
    = map_option f (find (\<lambda>r. dr_id r = i) rs)"
  by (induction rs) (auto simp: update_where_def)

text \<open>What a run that returns has done: the tasks it has prepared, the chunks they have taken over, the rows and the messages.\<close>

lemma queue_tasks_run:
  assumes "queue_tasks env doc priority w = (Inr (), w')" and "inj (qe_uuid env)" and "\<And>i. qe_uuid env i \<notin> tr_id ` set (db_tasks (qw_db w))"
  obtains ivs ts0 ts n where "task_intervals env doc = Inr ivs" "prepared_tasks env doc priority ivs = Inr ts0" "list_all2 same_job ts0 ts"
    "n = length (chunks_of ts)"
    "mset (chunks_of (get_tasks (dr_id doc) (qw_db w))) = mset (chunks_of ts) + mset (concat (drop (length (qw_deleted w)) (qw_deleted w')))"
    "filter (\<lambda>t. tr_doc t = dr_id doc) (db_tasks (qw_db w')) = stamped (qe_stamp env) ts"
    "\<And>u. document_of (qw_db w') (dr_id doc) = Some u \<Longrightarrow> dr_chunks u = int n"
    "qw_sent w' = qw_sent w @ map (\<lambda>t. (svr_queue_name priority ''common'', t, [])) (filter (\<lambda>t. tr_progress t < 1) ts)"
proof -
  let ?name = "svr_queue_name priority ''common''" and ?doc = "dr_id doc"
  let ?prevs = "get_tasks ?doc (qw_db w)"
  have name: "svr_queue_name priority (if dr_parser doc \<noteq> ''resume'' then ''common'' else ''resume'') = ?name" by (simp add: svr_queue_name_def)
  obtain ivs ts0 ts n w1 where r: "task_intervals env doc = Inr ivs" "prepared_tasks env doc priority ivs = Inr ts0"
      "(if ?prevs = [] then ret (ts0, 0) else take_over env ?doc ts0 ?prevs) w = (Inr (ts, n), w1)"
    and rest: "bnd (in_db (update_by_id ?doc (dr_chunks_update (\<lambda>_. int n)))) (\<lambda>_. bnd (in_db (bulk_insert_into_db (qe_stamp env) ts)) (\<lambda>_.
      bnd (in_db (begin2parse (qe_now env) (qe_luck env) ?doc False)) (\<lambda>_.
      for_each (send env ?name) (filter (\<lambda>t. tr_progress t < 1) ts)))) w1 = (Inr (), w')"
    using assms(1) unfolding queue_tasks_def name by (auto simp: bnd_Inr_iff lift_def gets_def)
  note prep = prepared_tasks_run [OF r(2)]
  have "list_all2 same_job ts0 ts \<and> n = length (chunks_of ts)
        \<and> mset (chunks_of ?prevs) = mset (chunks_of ts) + mset (concat (drop (length (qw_deleted w)) (qw_deleted w1)))
        \<and> filter (\<lambda>t. tr_doc t = ?doc) (db_tasks (qw_db w1)) = [] \<and> set (db_tasks (qw_db w1)) \<subseteq> set (db_tasks (qw_db w)) \<and> qw_sent w1 = qw_sent w"
  proof (cases "?prevs = []")
    case True
    then have "filter (\<lambda>t. tr_doc t = ?doc) (db_tasks (qw_db w)) = []" by (metis get_tasks_def length_0_conv length_sort)
    moreover have "chunks_of ts0 = []" using prep(2) by (auto simp: chunks_of_def list_all_iff)
    moreover have "list_all2 same_job ts0 ts0" by (simp add: list_all2_same same_job_def)
    ultimately show ?thesis
      using True r(3) by (auto simp: ret_def)
  next
    case False
    then have "take_over env ?doc ts0 ?prevs w = (Inr (ts, n), w1)" using r(3) by simp
    then obtain prevs' where t: "reuse_all (qe_clock env) ts0 ?prevs = (ts, prevs', n)"
        "qw_db w1 = (qw_db w)\<lparr>db_tasks := delete_where (\<lambda>t. tr_doc t = ?doc) (db_tasks (qw_db w))\<rparr>"
        "qw_sent w1 = qw_sent w" "qw_deleted w1 = qw_deleted w @ (if chunks_of prevs' = [] then [] else [chunks_of prevs'])"
      by (rule take_over_run)
    have "list_all (\<lambda>t. tr_chunk_ids t = []) ts0" using prep(2) by (auto simp: list_all_iff)
    from reuse_all_conserves [OF t(1) this] show ?thesis
      using t(2-4) by (auto simp: delete_where_def filter_empty_conv)
  qed
  then have job: "list_all2 same_job ts0 ts" and n: "n = length (chunks_of ts)"
    and old: "mset (chunks_of ?prevs) = mset (chunks_of ts) + mset (concat (drop (length (qw_deleted w)) (qw_deleted w1)))"
    and rows: "filter (\<lambda>t. tr_doc t = ?doc) (db_tasks (qw_db w1)) = []" "set (db_tasks (qw_db w1)) \<subseteq> set (db_tasks (qw_db w))"
    and sent: "qw_sent w1 = qw_sent w" by blast+
  define d2 where "d2 = (qw_db w1)\<lparr>db_tasks := fold upsert (stamped (qe_stamp env) ts) (db_tasks (qw_db w1)),
    db_documents := update_where (\<lambda>r. dr_id r = ?doc)
      (\<lambda>r. r\<lparr>dr_msg := ''Task is queued...'', dr_begin := Some (qe_now env), dr_progress := qe_luck env / 100, dr_run := Some RUNNING\<rparr>)
      (update_where (\<lambda>r. dr_id r = ?doc) (dr_chunks_update (\<lambda>_. int n)) (db_documents (qw_db w1)))\<rparr>"
  have w': "w' = w1\<lparr>qw_db := d2, qw_sent := qw_sent w1 @ map (\<lambda>t. (?name, t, [])) (filter (\<lambda>t. tr_progress t < 1) ts)\<rparr>"
    using rest by (auto simp: bnd_Inr_iff in_db_def update_by_id_def update_documents_def bulk_insert_into_db_def begin2parse_def Let_def d2_def
      dest!: sent_all split: if_splits prod.splits)
  have d2: "db_tasks d2 = fold upsert (stamped (qe_stamp env) ts) (db_tasks (qw_db w1))"
    "\<And>u. document_of d2 ?doc = Some u \<Longrightarrow> dr_chunks u = int n"
    by (simp add: d2_def) (auto simp add: d2_def document_of_def find_updated)
  have ids: "map tr_id (stamped (qe_stamp env) ts) = map tr_id ts0" "map tr_doc (stamped (qe_stamp env) ts) = map tr_doc ts0"
    using job_keys [OF job] stamped_map [of tr_id "qe_stamp env" ts] stamped_map [of tr_doc "qe_stamp env" ts] by simp_all
  have "distinct (map tr_id (stamped (qe_stamp env) ts))" unfolding ids prep(1)
    by (simp add: distinct_map inj_on_subset [OF assms(2) subset_UNIV])
  moreover have "tr_id ` set (stamped (qe_stamp env) ts) \<inter> tr_id ` set (db_tasks (qw_db w1)) = {}"
  proof -
    have "set (map tr_id (stamped (qe_stamp env) ts)) = set (map (qe_uuid env) [0..<length ivs])" by (simp only: ids(1) prep(1))
    then have "tr_id ` set (stamped (qe_stamp env) ts) \<subseteq> range (qe_uuid env)" by auto
    moreover have "range (qe_uuid env) \<inter> tr_id ` set (db_tasks (qw_db w1)) = {}" using assms(3) rows(2) by blast
    ultimately show ?thesis by blast
  qed
  ultimately have tasks: "db_tasks d2 = db_tasks (qw_db w1) @ stamped (qe_stamp env) ts" using d2(1) by (simp add: upserts_fresh)
  have "tr_doc x = ?doc" if "x \<in> set (stamped (qe_stamp env) ts)" for x
    using that prep(2) arg_cong [OF ids(2), of set] by (auto simp: list_all_iff)
  then have "filter (\<lambda>t. tr_doc t = ?doc) (db_tasks (qw_db w')) = stamped (qe_stamp env) ts" using w' tasks rows(1) by (simp add: filter_id_conv)
  then show ?thesis using that [OF r(1,2) job n] old w' d2(2) sent by simp
qed

lemma stamped_chunks: "chunks_of (stamped stamp ts) = chunks_of ts"
  unfolding chunks_of_def by (subst stamped_map) simp_all

text \<open>C40: Queueing a document again neither loses nor doubles a chunk: the chunks of its earlier tasks are those that its new tasks have
  taken over and those whose deletion is requested, and the document counts the former.\<close>

theorem queueing_accounts_for_chunks:
  assumes "queue_tasks env doc priority w = (Inr (), w')" and "inj (qe_uuid env)" and "\<And>i. qe_uuid env i \<notin> tr_id ` set (db_tasks (qw_db w))"
  shows "mset (chunks_of (filter (\<lambda>t. tr_doc t = dr_id doc) (db_tasks (qw_db w))))
      = mset (chunks_of (filter (\<lambda>t. tr_doc t = dr_id doc) (db_tasks (qw_db w'))))
        + mset (concat (drop (length (qw_deleted w)) (qw_deleted w')))
    \<and> (\<forall>u. document_of (qw_db w') (dr_id doc) = Some u
      \<longrightarrow> dr_chunks u = int (length (chunks_of (filter (\<lambda>t. tr_doc t = dr_id doc) (db_tasks (qw_db w'))))))"
  by (rule queue_tasks_run [OF assms]) (simp add: chunks_of_tasks stamped_chunks)

text \<open>The broker receives exactly the new tasks that have taken nothing over, in order and on the queue of their priority.\<close>

theorem unfinished_tasks_are_sent:
  assumes "queue_tasks env doc priority w = (Inr (), w')" and "inj (qe_uuid env)" and "\<And>i. qe_uuid env i \<notin> tr_id ` set (db_tasks (qw_db w))"
  shows "\<exists>msgs. qw_sent w' = qw_sent w @ msgs \<and> list_all (\<lambda>(q, t, x). q = svr_queue_name priority ''common'') msgs
    \<and> map (\<lambda>(q, t, x). tr_id t) msgs = map tr_id (filter (\<lambda>t. tr_chunk_ids t = []) (filter (\<lambda>t. tr_doc t = dr_id doc) (db_tasks (qw_db w'))))"
proof (rule queue_tasks_run [OF assms])
  fix ivs ts0 ts
  assume prep: "prepared_tasks env doc priority ivs = Inr ts0" and job: "list_all2 same_job ts0 ts"
    and rows: "filter (\<lambda>t. tr_doc t = dr_id doc) (db_tasks (qw_db w')) = stamped (qe_stamp env) ts"
    and sent: "qw_sent w' = qw_sent w @ map (\<lambda>t. (svr_queue_name priority ''common'', t, [])) (filter (\<lambda>t. tr_progress t < 1) ts)"
  have "list_all (\<lambda>t. tr_progress t < 1 \<longleftrightarrow> tr_chunk_ids t = []) ts"
    using job prepared_tasks_run(2) [OF prep] by (induction rule: list_all2_induct) (auto simp: same_job_def)
  then have "filter (\<lambda>t. tr_progress t < 1) ts = filter (\<lambda>t. tr_chunk_ids t = []) ts" by (intro filter_cong) (auto simp: list_all_iff)
  moreover have "map tr_id (filter (\<lambda>t. tr_chunk_ids t = []) (stamped (qe_stamp env) ts)) = map tr_id (filter (\<lambda>t. tr_chunk_ids t = []) ts)"
  proof -
    have pairs: "map tr_id (filter (\<lambda>t. tr_chunk_ids t = []) us) = map fst (filter (\<lambda>p. snd p = []) (map (\<lambda>t. (tr_id t, tr_chunk_ids t)) us))" for us
      by (induction us) simp_all
    have same: "map (\<lambda>t. (tr_id t, tr_chunk_ids t)) (stamped (qe_stamp env) ts) = map (\<lambda>t. (tr_id t, tr_chunk_ids t)) ts"
      by (rule stamped_map) simp
    show ?thesis by (simp only: pairs same)
  qed
  ultimately show ?thesis using sent rows by (intro exI [of _ "map (\<lambda>t. (svr_queue_name priority ''common'', t, [])) (filter (\<lambda>t. tr_progress t < 1) ts)"])
    (simp add: comp_def list_all_iff)
qed

text \<open>A document without pages that can be counted loses its chunks: its earlier tasks and the chunks of them are deleted, then
  queueing raises, with no new task and no message, and the document counts no chunk.\<close>

theorem document_without_pages_loses_its_chunks:
  assumes "task_intervals env doc = Inr []" and "chunks_of (get_tasks (dr_id doc) (qw_db w)) \<noteq> []" and "qe_config env = Some cfg"
    and "has_key cfg ''tenant_id''" and "has_key cfg ''kb_id''"
  shows "\<exists>w'. queue_tasks env doc priority w = (Inl (Exc IndexError ''list index out of range''), w') \<and> qw_sent w' = qw_sent w
    \<and> qw_deleted w' = qw_deleted w @ [chunks_of (get_tasks (dr_id doc) (qw_db w))]
    \<and> filter (\<lambda>t. tr_doc t = dr_id doc) (db_tasks (qw_db w')) = []
    \<and> (\<forall>u. document_of (qw_db w') (dr_id doc) = Some u \<longrightarrow> dr_chunks u = 0)"
proof -
  let ?prevs = "get_tasks (dr_id doc) (qw_db w)"
  have "?prevs \<noteq> []" using assms(2) by auto
  moreover have "\<exists>v. dict_item cfg k = Inr v" if "has_key cfg k" for k using that by (auto simp: dict_item_def)
  then obtain v v' where "dict_item cfg ''tenant_id'' = Inr v" "dict_item cfg ''kb_id'' = Inr v'" using assms(4,5) by meson
  moreover have "prepared_tasks env doc priority [] = Inr []" by (simp add: prepared_tasks_def)
  ultimately show ?thesis using assms(1-3)
    by (auto simp: queue_tasks_def bnd_apply lift_def gets_def take_over_def in_db_def delete_tasks_def modify_def ret_def
      update_by_id_def update_documents_def bulk_insert_into_db_def document_of_def find_updated delete_where_def)
qed

section \<open>A document of thirty pages\<close>

definition thirty_pages :: document_row where
  "thirty_pages = \<lparr>dr_id = ''d'', dr_kb = ''k'', dr_type = ''pdf'', dr_parser = ''naive'', dr_config = [], dr_tokens = 9, dr_chunks = 3,
     dr_progress = 1, dr_msg = [], dr_begin = None, dr_duration = 0, dr_run = Some DONE, dr_valid = True, dr_source = ''local''\<rparr>"

definition queue_test :: "nat option \<Rightarrow> queue_env" where
  "queue_test pages = \<lparr>qe_pages = pages, qe_rows = None, qe_config = Some [(''kb_id'', PStr ''k''), (''tenant_id'', PStr ''u'')], qe_digest = id,
     qe_uuid = \<lambda>i. replicate (Suc i) (CHR ''n''), qe_now = 5, qe_clock = ''12:00:00'', qe_luck = 0, qe_stamp = 7, qe_broker = \<lambda>sent. True\<rparr>"

text \<open>The first earlier task did what the first new one is to do, the second worked on other pages.\<close>

definition earlier_tasks :: "task_row list" where
  "earlier_tasks = [queued_task\<lparr>tr_id := ''x'', tr_progress := 1, tr_digest := ''kud012'', tr_chunk_ids := ''a b''\<rparr>,
     queued_task\<lparr>tr_id := ''y'', tr_from := 12, tr_to := 20, tr_progress := 1, tr_digest := ''kud1220'', tr_chunk_ids := ''c''\<rparr>]"

definition queue_start :: queue_world where
  "queue_start = \<lparr>qw_db = \<lparr>db_tasks = earlier_tasks, db_documents = [thirty_pages],
     db_kbs = [\<lparr>kr_id = ''k'', kr_tenant = ''u'', kr_docs = 1, kr_tokens = 9, kr_chunks = 3\<rparr>], db_tenants = [''u'']\<rparr>,
     qw_deleted = [], qw_sent = []\<rparr>"

definition queue_end :: queue_world where
  "queue_end = snd (queue_tasks (queue_test (Some 30)) thirty_pages 0 queue_start)"

lemma queue_test_run: "queue_tasks (queue_test (Some 30)) thirty_pages 0 queue_start = (Inr (), queue_end)"
proof -
  have "fst (queue_tasks (queue_test (Some 30)) thirty_pages 0 queue_start) = Inr ()" by code_simp
  then show ?thesis by (simp add: queue_end_def prod_eq_iff)
qed

lemma queue_end_rows: "map (\<lambda>t. (tr_from t, tr_to t, tr_chunk_ids t)) (db_tasks (qw_db queue_end)) = [(0, 12, ''a b''), (12, 24, []), (24, 30, [])]"
    "qw_deleted queue_end = [[''c'']]" "map (\<lambda>(q, t, x). tr_from t) (qw_sent queue_end) = [12, 24]"
  by code_simp+

lemma queue_test_fresh: "inj (qe_uuid (queue_test pages))" "qe_uuid (queue_test pages) i \<notin> tr_id ` set (db_tasks (qw_db queue_start))"
  by (auto simp: queue_test_def queue_start_def earlier_tasks_def inj_def replicate_eq_replicate Cons_eq_append_conv)

theorem queueing_accounts_for_chunks_witness:
  "mset (chunks_of (filter (\<lambda>t. tr_doc t = ''d'') (db_tasks (qw_db queue_start))))
    = mset (chunks_of (filter (\<lambda>t. tr_doc t = ''d'') (db_tasks (qw_db queue_end)))) + {#''c''#}"
  using queueing_accounts_for_chunks [OF queue_test_run queue_test_fresh] queue_end_rows(2) by (simp add: thirty_pages_def queue_start_def)

theorem unfinished_tasks_are_sent_witness:
  "map (\<lambda>(q, t, x). tr_id t) (qw_sent queue_end)
    = map tr_id (filter (\<lambda>t. tr_chunk_ids t = []) (filter (\<lambda>t. tr_doc t = ''d'') (db_tasks (qw_db queue_end))))"
  using unfinished_tasks_are_sent [OF queue_test_run queue_test_fresh] by (auto simp: thirty_pages_def queue_start_def)

theorem pdf_tasks_tile_the_pages_witness:
  "concat (map pages_in [(0, 12), (12, 24), (24, 30)]) = [0 .. 29]"
proof -
  have "page_ranges thirty_pages = Inr [(1, 100000)]" "range_arg (task_page_size thirty_pages) = Inr 12"
      "task_intervals (queue_test (Some 30)) thirty_pages = Inr [(0, 12), (12, 24), (24, 30)]" by code_simp+
  from pdf_tasks_tile_the_pages [OF _ this(1,2) _ this(3), of 30] show ?thesis by (simp add: thirty_pages_def queue_test_def)
qed

text \<open>The chunk that nobody took leaves the document and not its knowledge base.\<close>

lemma queueing_unbalances: "counted (qw_db queue_start) \<and> \<not> counted (qw_db queue_end)"
  by code_simp

theorem document_without_pages_loses_its_chunks_witness:
  "\<exists>w'. queue_tasks (queue_test None) thirty_pages 0 queue_start = (Inl (Exc IndexError ''list index out of range''), w')
    \<and> qw_deleted w' = [[''a'', ''b'', ''c'']] \<and> filter (\<lambda>t. tr_doc t = ''d'') (db_tasks (qw_db w')) = []"
proof -
  have none: "task_intervals (queue_test None) thirty_pages = Inr []"
      and chunks: "chunks_of (get_tasks (dr_id thirty_pages) (qw_db queue_start)) = [''a'', ''b'', ''c'']" by code_simp+
  then have "chunks_of (get_tasks (dr_id thirty_pages) (qw_db queue_start)) \<noteq> []" by simp
  from document_without_pages_loses_its_chunks [OF none this, of "[(''kb_id'', PStr ''k''), (''tenant_id'', PStr ''u'')]" 0] show ?thesis
    unfolding chunks by (auto simp: queue_test_def queue_start_def thirty_pages_def)
qed

end
