(* ===== verification/Sealing.thy ===== *)
theory Sealing
  imports PyJson
begin

text \<open>
  Bytes at rest: the base64 of the standard library, the encryption with a magic header of
  \<^verbatim>\<open>common/crypto_utils.py\<close> and the storage that encrypts what it stores,
  \<^verbatim>\<open>rag/utils/encrypted_storage.py\<close>. A byte is a character. The cipher, its padding and the derivation of keys
  are functions of the library \<^verbatim>\<open>cryptography\<close>: a record, of which \<open>block_laws\<close> says that it decrypts what it
  has encrypted. The storage behind the wrapper is a record as well.
\<close>

section \<open>Base64\<close>

definition b64_alphabet :: string where
  "b64_alphabet = upper_letters @ lower_letters @ digit_chars @ ''+/''"

definition url_char :: "char \<Rightarrow> char" where
  "url_char c = (if c = CHR ''+'' then CHR ''-'' else if c = CHR ''/'' then CHR ''_'' else c)"

definition std_char :: "char \<Rightarrow> char" where
  "std_char c = (if c = CHR ''-'' then CHR ''+'' else if c = CHR ''_'' then CHR ''/'' else c)"

definition sextet :: "nat \<Rightarrow> char" where
  "sextet n = b64_alphabet ! n"

abbreviation byte :: "char \<Rightarrow> nat" where
  "byte c \<equiv> of_char c"

fun b64encode :: "string \<Rightarrow> string" where
  "b64encode [] = []"
| "b64encode [a] = [sextet (byte a div 4), sextet (byte a mod 4 * 16), CHR ''='', CHR ''='']"
| "b64encode [a, b] = [sextet (byte a div 4), sextet (byte a mod 4 * 16 + byte b div 16), sextet (byte b mod 16 * 4), CHR ''='']"
| "b64encode (a # b # c # r) = sextet (byte a div 4) # sextet (byte a mod 4 * 16 + byte b div 16)
     # sextet (byte b mod 16 * 4 + byte c div 64) # sextet (byte c mod 64) # b64encode r"

definition b64_digit :: "char \<Rightarrow> nat option" where
  "b64_digit c = map_of (zip b64_alphabet [0..<64]) c"

text \<open>
  The decoder of \<open>binascii\<close>, which is not strict: characters outside the alphabet are skipped, and it stops where the
  padding completes a quadruple. Arguments: the position in the quadruple, the bits left over, the padding seen
  since the last digit, the bytes so far.
\<close>

fun a2b :: "nat \<Rightarrow> nat \<Rightarrow> nat \<Rightarrow> string \<Rightarrow> string \<Rightarrow> string res" where
  "a2b quad left pads out [] =
     (if quad = 0 then Inr out
      else if quad = 1 then raise ValueError (''Invalid base64-encoded string: number of data characters ('' @
        nat_str (length out div 3 * 4 + 1) @ '') cannot be 1 more than a multiple of 4'')
      else raise ValueError ''Incorrect padding'')"
| "a2b quad left pads out (c # cs) =
     (if c = CHR ''='' then
        (if quad \<ge> 2 then (if quad + Suc pads \<ge> 4 then Inr out else a2b quad left (Suc pads) out cs)
         else a2b quad left pads out cs)
      else case b64_digit c of
        None \<Rightarrow> a2b quad left pads out cs
      | Some d \<Rightarrow>
          if quad = 0 then a2b 1 d 0 out cs
          else if quad = 1 then a2b 2 (d mod 16) 0 (out @ [char_of (left * 4 + d div 16)]) cs
          else if quad = 2 then a2b 3 (d mod 4) 0 (out @ [char_of (left * 16 + d div 4)]) cs
          else a2b 0 0 0 (out @ [char_of (left * 64 + d)]) cs)"

definition b64decode :: "string \<Rightarrow> string res" where
  "b64decode s = (if list_ex (\<lambda>c. byte c \<ge> 128) s then raise ValueError ''string argument should contain only ASCII characters''
     else a2b 0 0 0 [] s)"

definition urlsafe_b64encode :: "string \<Rightarrow> string" where
  "urlsafe_b64encode s = map url_char (b64encode s)"

definition urlsafe_b64decode :: "string \<Rightarrow> string res" where
  "urlsafe_b64decode s = b64decode (map std_char s)"

section \<open>Encryption with a header\<close>

datatype algorithm = AES128CBC | AES256CBC | SM4CBC

record cipher_lib =
  cl_derive :: "nat \<Rightarrow> string \<Rightarrow> string"
  cl_pad :: "string \<Rightarrow> string"
  cl_unpad :: "string \<Rightarrow> string res"
  cl_encrypt :: "string \<Rightarrow> string \<Rightarrow> string \<Rightarrow> string \<Rightarrow> string res"
  cl_decrypt :: "string \<Rightarrow> string \<Rightarrow> string \<Rightarrow> string \<Rightarrow> string res"

definition key_length :: "algorithm \<Rightarrow> nat" where
  "key_length a = (case a of AES128CBC \<Rightarrow> 16 | AES256CBC \<Rightarrow> 32 | SM4CBC \<Rightarrow> 16)"

definition block_cipher :: "algorithm \<Rightarrow> string" where
  "block_cipher a = (case a of AES128CBC \<Rightarrow> ''AES'' | AES256CBC \<Rightarrow> ''AES'' | SM4CBC \<Rightarrow> ''SM4'')"

definition encrypted_magic :: string where
  "encrypted_magic = ''RAGF''"

definition iv_length :: nat where
  "iv_length = 16"

record crypto =
  cy_alg :: algorithm
  cy_key :: string
  cy_iv :: "string option"

definition new_crypto :: "cipher_lib \<Rightarrow> algorithm \<Rightarrow> string \<Rightarrow> string option \<Rightarrow> crypto" where
  "new_crypto lib a key iv = \<lparr>cy_alg = a, cy_key = cl_derive lib (key_length a) key, cy_iv = iv\<rparr>"

text \<open>\<open>encrypt\<close>, with the bytes that \<open>os.urandom\<close> draws.\<close>

definition encrypt_bytes :: "cipher_lib \<Rightarrow> crypto \<Rightarrow> string \<Rightarrow> string \<Rightarrow> string res" where
  "encrypt_bytes lib c drawn data =
     (let iv = (case cy_iv c of Some v \<Rightarrow> if v = [] then drawn else v | None \<Rightarrow> drawn)
      in try_then (cl_encrypt lib (block_cipher (cy_alg c)) (cy_key c) iv (cl_pad lib data))
           (\<lambda>text. Inr (encrypted_magic @ iv @ text)))"

definition decrypt_bytes :: "cipher_lib \<Rightarrow> crypto \<Rightarrow> string \<Rightarrow> string res" where
  "decrypt_bytes lib c data =
     (if \<not> starts_with data encrypted_magic then Inr data
      else let body = drop (length encrypted_magic) data; iv = take iv_length body; text = drop iv_length body
        in try_then (cl_decrypt lib (block_cipher (cy_alg c)) (cy_key c) iv text) (cl_unpad lib))"

definition supported_algorithms :: "(string, algorithm) dict" where
  "supported_algorithms = [(''aes-128-cbc'', AES128CBC), (''aes-256-cbc'', AES256CBC), (''sm4-cbc'', SM4CBC)]"

definition crypto_util :: "cipher_lib \<Rightarrow> string \<Rightarrow> string option \<Rightarrow> string option \<Rightarrow> crypto res" where
  "crypto_util lib algorithm key iv = (case map_of supported_algorithms algorithm of
     None \<Rightarrow> raise ValueError (''Unsupported algorithm: '' @ algorithm)
   | Some a \<Rightarrow> (case key of
       None \<Rightarrow> raise ValueError ''Encryption key not provided and RAGFLOW_CRYPTO_KEY environment variable not set''
     | Some k \<Rightarrow> if k = [] then raise ValueError ''Encryption key not provided and RAGFLOW_CRYPTO_KEY environment variable not set''
         else Inr (new_crypto lib a k iv)))"

definition block_laws :: "cipher_lib \<Rightarrow> bool" where
  "block_laws lib = (\<forall>d. cl_unpad lib (cl_pad lib d) = Inr d \<and>
     (\<forall>b k iv. length iv = iv_length \<longrightarrow> (\<exists>t. cl_encrypt lib b k iv (cl_pad lib d) = Inr t \<and> cl_decrypt lib b k iv t = Inr (cl_pad lib d))))"

section \<open>The storage that encrypts\<close>

text \<open>Bucket, file name and tenant name an object. What a storage may lack is optional.\<close>

datatype object_name = ObjectName string string "string option"

record 's object_store =
  os_put :: "object_name \<Rightarrow> string \<Rightarrow> ('s, unit) act"
  os_get :: "object_name \<Rightarrow> ('s, string option) act"
  os_rm :: "object_name \<Rightarrow> ('s, unit) act"
  os_exist :: "object_name \<Rightarrow> ('s, bool) act"
  os_bucket_exists :: "(string \<Rightarrow> ('s, bool) act) option"
  os_presigned :: "(object_name \<Rightarrow> nat \<Rightarrow> ('s, string option) act) option"
  os_scan :: "(object_name \<Rightarrow> ('s, string list option) act) option"
  os_copy :: "(string \<times> string \<Rightarrow> string \<times> string \<Rightarrow> ('s, bool) act) option"
  os_move :: "(string \<times> string \<Rightarrow> string \<times> string \<Rightarrow> ('s, bool) act) option"
  os_remove_bucket :: "(string \<Rightarrow> ('s, bool) act) option"

record 's wrapper =
  wr_impl :: "'s object_store"
  wr_lib :: cipher_lib
  wr_crypto :: crypto
  wr_enabled :: bool

definition create_encrypted_storage :: "'s object_store \<Rightarrow> cipher_lib \<Rightarrow> string \<Rightarrow> string option \<Rightarrow> bool \<Rightarrow> 's wrapper res" where
  "create_encrypted_storage impl lib algorithm key enabled = try_then (crypto_util lib algorithm key None)
     (\<lambda>c. Inr \<lparr>wr_impl = impl, wr_lib = lib, wr_crypto = c, wr_enabled = enabled\<rparr>)"

definition storage_put :: "'s wrapper \<Rightarrow> string \<Rightarrow> object_name \<Rightarrow> string \<Rightarrow> ('s, unit) act" where
  "storage_put w drawn name data =
     (if \<not> wr_enabled w then os_put (wr_impl w) name data
      else bnd (lift (encrypt_bytes (wr_lib w) (wr_crypto w) drawn data)) (os_put (wr_impl w) name))"

definition storage_get :: "'s wrapper \<Rightarrow> object_name \<Rightarrow> ('s, string option) act" where
  "storage_get w name = bnd (os_get (wr_impl w) name) (\<lambda>found. case found of
     None \<Rightarrow> ret None
   | Some data \<Rightarrow> if \<not> wr_enabled w then ret (Some data)
       else bnd (lift (decrypt_bytes (wr_lib w) (wr_crypto w) data)) (\<lambda>d. ret (Some d)))"

definition storage_rm :: "'s wrapper \<Rightarrow> object_name \<Rightarrow> ('s, unit) act" where
  "storage_rm w name = os_rm (wr_impl w) name"

definition storage_exist :: "'s wrapper \<Rightarrow> object_name \<Rightarrow> ('s, bool) act" where
  "storage_exist w name = os_exist (wr_impl w) name"

definition storage_bucket_exists :: "'s wrapper \<Rightarrow> string \<Rightarrow> ('s, bool) act" where
  "storage_bucket_exists w bucket = (case os_bucket_exists (wr_impl w) of None \<Rightarrow> ret False | Some f \<Rightarrow> f bucket)"

definition storage_presigned_url :: "'s wrapper \<Rightarrow> object_name \<Rightarrow> nat \<Rightarrow> ('s, string option) act" where
  "storage_presigned_url w name expires = (case os_presigned (wr_impl w) of None \<Rightarrow> ret None | Some f \<Rightarrow> f name expires)"

definition storage_scan :: "'s wrapper \<Rightarrow> object_name \<Rightarrow> ('s, string list option) act" where
  "storage_scan w name = (case os_scan (wr_impl w) of None \<Rightarrow> ret None | Some f \<Rightarrow> f name)"

definition storage_copy :: "'s wrapper \<Rightarrow> string \<times> string \<Rightarrow> string \<times> string \<Rightarrow> ('s, bool) act" where
  "storage_copy w src dest = (case os_copy (wr_impl w) of None \<Rightarrow> ret False | Some f \<Rightarrow> f src dest)"

definition storage_move :: "'s wrapper \<Rightarrow> string \<times> string \<Rightarrow> string \<times> string \<Rightarrow> ('s, bool) act" where
  "storage_move w src dest = (case os_move (wr_impl w) of None \<Rightarrow> ret False | Some f \<Rightarrow> f src dest)"

definition storage_remove_bucket :: "'s wrapper \<Rightarrow> string \<Rightarrow> ('s, bool) act" where
  "storage_remove_bucket w bucket = (case os_remove_bucket (wr_impl w) of None \<Rightarrow> ret False | Some f \<Rightarrow> f bucket)"

definition enable_encryption :: "'s wrapper \<Rightarrow> 's wrapper" where
  "enable_encryption w = w\<lparr>wr_enabled := True\<rparr>"

definition disable_encryption :: "'s wrapper \<Rightarrow> 's wrapper" where
  "disable_encryption w = w\<lparr>wr_enabled := False\<rparr>"

section \<open>Base64 is read back\<close>

lemma b64_digit_sextet: "n < 64 \<Longrightarrow> b64_digit (sextet n) = Some n \<and> byte (sextet n) < 128 \<and> sextet n \<noteq> CHR ''=''
   \<and> std_char (url_char (sextet n)) = sextet n"
proof -
  have "list_all (\<lambda>n. b64_digit (sextet n) = Some n \<and> byte (sextet n) < 128 \<and> sextet n \<noteq> CHR ''=''
      \<and> std_char (url_char (sextet n)) = sextet n) [0..<64]" by code_simp
  then show "n < 64 \<Longrightarrow> ?thesis" by (simp add: list_all_iff)
qed

lemma a2b_step:
  "d < 64 \<Longrightarrow> a2b 0 l p out (sextet d # cs) = a2b 1 d 0 out cs"
  "d < 64 \<Longrightarrow> a2b (Suc 0) l p out (sextet d # cs) = a2b 2 (d mod 16) 0 (out @ [char_of (l * 4 + d div 16)]) cs"
  "d < 64 \<Longrightarrow> a2b 2 l p out (sextet d # cs) = a2b 3 (d mod 4) 0 (out @ [char_of (l * 16 + d div 4)]) cs"
  "d < 64 \<Longrightarrow> a2b 3 l p out (sextet d # cs) = a2b 0 0 0 (out @ [char_of (l * 64 + d)]) cs"
  by (simp_all add: b64_digit_sextet)

lemma byte_less: "byte c < (256 :: nat)"
  by (metis of_char_of nat_of_char_less_256)

text \<open>The sextets of three bytes, and the bytes put together again.\<close>

lemma sextets_of_bytes:
  assumes "a < (256::nat)" "b < 256" "c < 256"
  shows "a div 4 < 64" "a mod 4 * 16 + b div 16 < 64" "b mod 16 * 4 + c div 64 < 64" "c mod 64 < 64" "a mod 4 * 16 < 64" "b mod 16 * 4 < 64"
    and "a div 4 * 4 + (a mod 4 * 16 + b div 16) div 16 = a" "(a mod 4 * 16 + b div 16) mod 16 = b div 16"
    and "b div 16 * 16 + (b mod 16 * 4 + c div 64) div 4 = b" "(b mod 16 * 4 + c div 64) mod 4 = c div 64" "c div 64 * 64 + c mod 64 = c"
    and "a div 4 * 4 + a mod 4 * 16 div 16 = a" "b div 16 * 16 + b mod 16 * 4 div 4 = b"
proof -
  have b: "b div 16 < 16" "c div 64 < 4" using assms by auto
  have m: "a mod 4 < 4" "b mod 16 < 16" by simp_all
  show "a div 4 < 64" "c mod 64 < 64" "a mod 4 * 16 < 64" "b mod 16 * 4 < 64" using assms m by auto
  show "a mod 4 * 16 + b div 16 < 64" "b mod 16 * 4 + c div 64 < 64" using b m by linarith+
  show "(a mod 4 * 16 + b div 16) mod 16 = b div 16" "(b mod 16 * 4 + c div 64) mod 4 = c div 64" using b by (auto simp: mod_add_left_eq [symmetric])
  show "a div 4 * 4 + (a mod 4 * 16 + b div 16) div 16 = a" "b div 16 * 16 + (b mod 16 * 4 + c div 64) div 4 = b" using b by auto
  show "c div 64 * 64 + c mod 64 = c" "a div 4 * 4 + a mod 4 * 16 div 16 = a" "b div 16 * 16 + b mod 16 * 4 div 4 = b" by simp_all
qed

lemma a2b_quads:
  "d < 64 \<Longrightarrow> e < 64 \<Longrightarrow> f < 64 \<Longrightarrow> g < 64 \<Longrightarrow> a2b 0 0 0 out (sextet d # sextet e # sextet f # sextet g # cs)
     = a2b 0 0 0 (out @ [char_of (d * 4 + e div 16), char_of (e mod 16 * 16 + f div 4), char_of (f mod 4 * 64 + g)]) cs"
  "d < 64 \<Longrightarrow> e < 64 \<Longrightarrow> f < 64 \<Longrightarrow> a2b 0 0 0 out [sextet d, sextet e, sextet f, CHR ''='']
     = Inr (out @ [char_of (d * 4 + e div 16), char_of (e mod 16 * 16 + f div 4)])"
  "d < 64 \<Longrightarrow> e < 64 \<Longrightarrow> a2b 0 0 0 out [sextet d, sextet e, CHR ''='', CHR ''=''] = Inr (out @ [char_of (d * 4 + e div 16)])"
  by (simp_all add: a2b_step del: a2b.simps(2)) (simp_all add: numeral_2_eq_2 [symmetric])

lemma a2b_encode: "a2b 0 0 0 out (b64encode s) = Inr (out @ s)"
proof (induction s arbitrary: out rule: b64encode.induct)
  case (2 a)
  note f = sextets_of_bytes [of "byte a" "byte a" "byte a", OF byte_less byte_less byte_less]
  show ?case by (simp only: b64encode.simps a2b_quads f char_of_char)
next
  case (3 a b)
  note f = sextets_of_bytes [of "byte a" "byte b" "byte b", OF byte_less byte_less byte_less]
  show ?case by (simp only: b64encode.simps a2b_quads f char_of_char)
next
  case (4 a b c r)
  note f = sextets_of_bytes [of "byte a" "byte b" "byte c", OF byte_less byte_less byte_less]
  show ?case by (simp only: b64encode.simps a2b_quads f char_of_char "4.IH" append_assoc append.simps)
qed simp

lemma pad_char: "(byte CHR ''='' :: nat) < 128 \<and> std_char (url_char CHR ''='') = CHR ''=''"
  by code_simp

lemma b64encode_chars: "list_all (\<lambda>c. (byte c :: nat) < 128 \<and> std_char (url_char c) = c) (b64encode s)"
proof (induction s rule: b64encode.induct)
  case (2 a)
  note f = sextets_of_bytes [of "byte a" "byte a" "byte a", OF byte_less byte_less byte_less]
  show ?case using f(1-6) by (simp only: b64encode.simps list.pred_inject b64_digit_sextet pad_char simp_thms)
next
  case (3 a b)
  note f = sextets_of_bytes [of "byte a" "byte b" "byte b", OF byte_less byte_less byte_less]
  show ?case using f(1-6) by (simp only: b64encode.simps list.pred_inject b64_digit_sextet pad_char simp_thms)
next
  case (4 a b c r)
  note f = sextets_of_bytes [of "byte a" "byte b" "byte c", OF byte_less byte_less byte_less]
  show ?case using f(1-4) "4.IH" by (simp only: b64encode.simps list.pred_inject b64_digit_sextet simp_thms)
qed simp

lemma b64decode_encode: "b64decode (b64encode s) = Inr s"
  using b64encode_chars [of s] by (auto simp: b64decode_def a2b_encode list_ex_iff list_all_iff not_le)

lemma urlsafe_decode_encode: "urlsafe_b64decode (urlsafe_b64encode s) = Inr s"
proof -
  have "map std_char (map url_char (b64encode s)) = b64encode s" using b64encode_chars [of s] by (auto intro!: map_idI simp: list_all_iff)
  then show ?thesis by (simp add: urlsafe_b64decode_def urlsafe_b64encode_def b64decode_encode)
qed

text \<open>Without its padding a text can be padded again.\<close>

definition strip_padding :: "string \<Rightarrow> string" where
  "strip_padding s = rev (dropWhile (\<lambda>c. c = CHR ''='') (rev s))"

definition add_padding :: "string \<Rightarrow> string" where
  "add_padding s = s @ replicate ((4 - length s mod 4) mod 4) CHR ''=''"

lemma b64encode_shape: "\<exists>t n. b64encode s = t @ replicate n CHR ''='' \<and> CHR ''='' \<notin> set t \<and> n < 4 \<and> (length t + n) mod 4 = 0"
proof (induction s rule: b64encode.induct)
  case 1
  show ?case by (rule exI [of _ "[]"], rule exI [of _ 0]) simp
next
  case (2 a)
  note f = sextets_of_bytes [of "byte a" "byte a" "byte a", OF byte_less byte_less byte_less]
  have "CHR ''='' \<notin> set [sextet (byte a div 4), sextet (byte a mod 4 * 16)]"
    using b64_digit_sextet [OF f(1)] b64_digit_sextet [OF f(5)] by auto
  then show ?case by (intro exI [of _ "[sextet (byte a div 4), sextet (byte a mod 4 * 16)]"] exI [of _ 2]) (simp add: numeral_2_eq_2)
next
  case (3 a b)
  note f = sextets_of_bytes [of "byte a" "byte b" "byte b", OF byte_less byte_less byte_less]
  have "CHR ''='' \<notin> set [sextet (byte a div 4), sextet (byte a mod 4 * 16 + byte b div 16), sextet (byte b mod 16 * 4)]"
    using b64_digit_sextet [OF f(1)] b64_digit_sextet [OF f(2)] b64_digit_sextet [OF f(6)] by auto
  then show ?case
    by (intro exI [of _ "[sextet (byte a div 4), sextet (byte a mod 4 * 16 + byte b div 16), sextet (byte b mod 16 * 4)]"] exI [of _ 1]) simp
next
  case (4 a b c r)
  note f = sextets_of_bytes [of "byte a" "byte b" "byte c", OF byte_less byte_less byte_less]
  let ?q = "[sextet (byte a div 4), sextet (byte a mod 4 * 16 + byte b div 16), sextet (byte b mod 16 * 4 + byte c div 64), sextet (byte c mod 64)]"
  have "CHR ''='' \<notin> set ?q"
    using b64_digit_sextet [OF f(1)] b64_digit_sextet [OF f(2)] b64_digit_sextet [OF f(3)] b64_digit_sextet [OF f(4)] by auto
  moreover obtain t n where "b64encode r = t @ replicate n CHR ''=''" "CHR ''='' \<notin> set t" "n < 4" "(length t + n) mod 4 = 0" using "4.IH" by (elim exE conjE) (rule that)
  ultimately show ?case by (intro exI [of _ "?q @ t"] exI [of _ n]) auto
qed

lemma padding_count: "r < (4 :: nat) \<Longrightarrow> n < 4 \<Longrightarrow> (r + n) mod 4 = 0 \<Longrightarrow> (4 - r) mod 4 = n"
proof -
  assume r: "r < 4" "n < 4" "(r + n) mod 4 = 0"
  then obtain q where "r + n = 4 * q" by (metis mod_0_imp_dvd dvdE)
  moreover have "q < 2" using r(1,2) calculation by linarith
  ultimately have "r = 0 \<and> n = 0 \<or> n = 4 - r" by (cases "q = 0") auto
  then show ?thesis using r by auto
qed

lemma unpadded_b64_read_back: "urlsafe_b64decode (add_padding (strip_padding (urlsafe_b64encode s))) = Inr s"
proof -
  obtain t n where t: "b64encode s = t @ replicate n CHR ''=''" "CHR ''='' \<notin> set t" "n < 4" "(length t + n) mod 4 = 0"
    using b64encode_shape [of s] by (elim exE conjE) (rule that)
  let ?u = "map url_char t"
  have u: "urlsafe_b64encode s = ?u @ replicate n CHR ''=''" using t(1) by (simp add: urlsafe_b64encode_def url_char_def)
  have "CHR ''='' \<notin> set (rev ?u)" using t(2) by (auto simp: url_char_def split: if_splits)
  then have "dropWhile (\<lambda>c. c = CHR ''='') (rev ?u) = rev ?u" by (metis dropWhile_eq_self_iff hd_in_set)
  then have strip: "strip_padding (urlsafe_b64encode s) = ?u" unfolding u strip_padding_def by (simp add: dropWhile_append)
  have "(4 - length t mod 4) mod 4 = n" using t(3,4) by (intro padding_count) (simp_all add: mod_add_left_eq)
  then have "add_padding ?u = urlsafe_b64encode s" by (simp add: add_padding_def u)
  then show ?thesis by (simp add: strip urlsafe_decode_encode)
qed

section \<open>What is encrypted is decrypted\<close>

lemma encrypted_has_magic: "encrypt_bytes lib c drawn d = Inr t \<Longrightarrow> starts_with t encrypted_magic"
  by (auto simp: encrypt_bytes_def Let_def try_then_Inr_iff)

lemma decrypt_encrypt:
  assumes "block_laws lib" "cy_iv c = None" "length drawn = iv_length"
  shows "\<exists>t. encrypt_bytes lib c drawn d = Inr t \<and> decrypt_bytes lib c t = Inr d"
proof -
  obtain t where t: "cl_encrypt lib (block_cipher (cy_alg c)) (cy_key c) drawn (cl_pad lib d) = Inr t"
      "cl_decrypt lib (block_cipher (cy_alg c)) (cy_key c) drawn t = Inr (cl_pad lib d)" "cl_unpad lib (cl_pad lib d) = Inr d"
    using assms(1,3) unfolding block_laws_def by blast
  then show ?thesis using assms(2,3) by (simp add: encrypt_bytes_def decrypt_bytes_def Let_def)
qed

lemma plain_passes: "\<not> starts_with t encrypted_magic \<Longrightarrow> decrypt_bytes lib c t = Inr t"
  by (simp add: decrypt_bytes_def)

section \<open>Encrypting the storage is transparent\<close>

definition store_laws :: "'s object_store \<Rightarrow> ('s \<Rightarrow> bool) \<Rightarrow> ('s \<Rightarrow> object_name \<Rightarrow> string option) \<Rightarrow> bool" where
  "store_laws api up look = (\<forall>s. up s \<longrightarrow> (\<forall>k. os_get api k s = (Inr (look s k), s))
     \<and> (\<forall>k d. \<exists>t. os_put api k d s = (Inr (), t) \<and> up t \<and> look t = (look s)(k := Some d))
     \<and> (\<forall>k. \<exists>t. os_rm api k s = (Inr (), t) \<and> up t \<and> look t = (look s)(k := None)))"

datatype store_op = Put object_name string string | Remove object_name | Enable | Disable

fun apply_op :: "store_op \<Rightarrow> 's wrapper \<times> 's \<Rightarrow> 's wrapper \<times> 's" where
  "apply_op (Put k d drawn) (w, s) = (w, snd (storage_put w drawn k d s))"
| "apply_op (Remove k) (w, s) = (w, snd (storage_rm w k s))"
| "apply_op Enable (w, s) = (enable_encryption w, s)"
| "apply_op Disable (w, s) = (disable_encryption w, s)"

text \<open>What the operations mean for a map from names to contents.\<close>

fun op_meaning :: "store_op \<Rightarrow> (object_name \<Rightarrow> string option) \<Rightarrow> (object_name \<Rightarrow> string option)" where
  "op_meaning (Put k d drawn) m = m(k := Some d)"
| "op_meaning (Remove k) m = m(k := None)"
| "op_meaning _ m = m"

text \<open>Drawn bytes have the length of an initialisation vector, and what is stored while encryption is off does not look encrypted.\<close>

fun safe_ops :: "bool \<Rightarrow> store_op list \<Rightarrow> bool" where
  "safe_ops on [] = True"
| "safe_ops on (Put k d drawn # ops) = (length drawn = iv_length \<and> (on \<or> \<not> starts_with d encrypted_magic) \<and> safe_ops on ops)"
| "safe_ops on (Remove k # ops) = safe_ops on ops"
| "safe_ops on (Enable # ops) = safe_ops True ops"
| "safe_ops on (Disable # ops) = safe_ops False ops"

definition reads_as :: "cipher_lib \<Rightarrow> crypto \<Rightarrow> string option \<Rightarrow> string option \<Rightarrow> bool" where
  "reads_as lib c stored v = (case v of None \<Rightarrow> stored = None | Some d \<Rightarrow> \<exists>t. stored = Some t \<and> decrypt_bytes lib c t = Inr d)"

definition holds_map :: "cipher_lib \<Rightarrow> crypto \<Rightarrow> (object_name \<Rightarrow> string option) \<Rightarrow> (object_name \<Rightarrow> string option) \<Rightarrow> bool" where
  "holds_map lib c stored m = (\<forall>k. reads_as lib c (stored k) (m k))"

lemma reads_as_simps: "reads_as lib c v None \<longleftrightarrow> v = None" "reads_as lib c (Some t) (Some d) \<longleftrightarrow> decrypt_bytes lib c t = Inr d"
  by (simp_all add: reads_as_def)

lemma holds_map_update: "holds_map lib c stored m \<Longrightarrow> decrypt_bytes lib c t = Inr d \<Longrightarrow> holds_map lib c (stored(k := Some t)) (m(k := Some d))"
  and holds_map_delete: "holds_map lib c stored m \<Longrightarrow> holds_map lib c (stored(k := None)) (m(k := None))"
  by (simp_all add: holds_map_def reads_as_simps)

lemma put_keeps_map:
  assumes laws: "store_laws (wr_impl w) up look" "block_laws (wr_lib w)" and iv: "cy_iv (wr_crypto w) = None" "length drawn = iv_length"
    and safe: "wr_enabled w \<or> \<not> starts_with d encrypted_magic" and s: "up s" "holds_map (wr_lib w) (wr_crypto w) (look s) m"
  shows "\<exists>t. storage_put w drawn k d s = (Inr (), t) \<and> up t \<and> holds_map (wr_lib w) (wr_crypto w) (look t) (m(k := Some d))"
proof -
  obtain c where c: "(if wr_enabled w then encrypt_bytes (wr_lib w) (wr_crypto w) drawn d else Inr d) = Inr c" "decrypt_bytes (wr_lib w) (wr_crypto w) c = Inr d"
    using decrypt_encrypt [OF laws(2) iv, of d] safe plain_passes by (cases "wr_enabled w") auto
  obtain t where "os_put (wr_impl w) k c s = (Inr (), t)" "up t" "look t = (look s)(k := Some c)" using laws(1) s(1) unfolding store_laws_def by meson
  moreover from this have "holds_map (wr_lib w) (wr_crypto w) (look t) (m(k := Some d))" using holds_map_update [OF s(2) c(2)] by metis
  ultimately show ?thesis using c(1) by (auto simp: storage_put_def lift_def bnd_apply split: if_splits)
qed

lemma ops_keep_map:
  assumes "store_laws (wr_impl w) up look" "block_laws (wr_lib w)" "cy_iv (wr_crypto w) = None"
    and "up s" "holds_map (wr_lib w) (wr_crypto w) (look s) m" "safe_ops (wr_enabled w) ops" "fold apply_op ops (w, s) = (w', s')"
  shows "up s' \<and> holds_map (wr_lib w) (wr_crypto w) (look s') (fold op_meaning ops m) \<and> w'\<lparr>wr_enabled := True\<rparr> = w\<lparr>wr_enabled := True\<rparr>"
  using assms
proof (induction ops arbitrary: w s m)
  case (Cons a ops)
  note laws = Cons.prems(1-3) and s = Cons.prems(4,5)
  show ?case
  proof (cases a)
    case (Put k d drawn)
    with Cons.prems(6) have safe: "length drawn = iv_length" "wr_enabled w \<or> \<not> starts_with d encrypted_magic" "safe_ops (wr_enabled w) ops" by auto
    obtain t where t: "storage_put w drawn k d s = (Inr (), t)" "up t" "holds_map (wr_lib w) (wr_crypto w) (look t) (m(k := Some d))"
      using put_keeps_map [OF laws safe(1,2) s] by blast
    have "fold apply_op ops (w, t) = (w', s')" using Cons.prems(7) Put t(1) by simp
    from Cons.IH [OF laws t(2,3) safe(3) this] show ?thesis using Put by (simp add: fun_upd_def)
  next
    case (Remove k)
    obtain t where t: "os_rm (wr_impl w) k s = (Inr (), t)" "up t" "look t = (look s)(k := None)" using laws(1) s(1) unfolding store_laws_def by meson
    have "holds_map (wr_lib w) (wr_crypto w) (look t) (m(k := None))" unfolding t(3) by (rule holds_map_delete [OF s(2)])
    moreover have "safe_ops (wr_enabled w) ops" "fold apply_op ops (w, t) = (w', s')" using Cons.prems(6,7) Remove t(1) by (auto simp: storage_rm_def)
    ultimately show ?thesis using Cons.IH [OF laws t(2)] Remove by (simp add: fun_upd_def)
  next
    case Enable
    then show ?thesis using Cons.IH [of "enable_encryption w" s m] Cons.prems by (auto simp: enable_encryption_def)
  next
    case Disable
    then show ?thesis using Cons.IH [of "disable_encryption w" s m] Cons.prems by (auto simp: disable_encryption_def)
  qed
qed simp

text \<open>C20: Encryption is transparent: over a storage that held plain files, whatever is stored, removed and switched on and off, the
  wrapper reads what a map from names to contents holds, provided that nothing stored in plain looks encrypted.\<close>

theorem encrypted_storage_is_a_map:
  assumes "create_encrypted_storage impl lib algorithm key enabled = Inr w" "store_laws impl up look" "block_laws lib" "up s"
    and "\<forall>k d. look s k = Some d \<longrightarrow> \<not> starts_with d encrypted_magic"
    and "safe_ops enabled ops" "fold apply_op ops (w, s) = (w', s')"
  shows "storage_get (enable_encryption w') k s' = (Inr (fold op_meaning ops (look s) k), s')"
proof -
  from assms(1) have w: "wr_impl w = impl" "wr_lib w = lib" "cy_iv (wr_crypto w) = None" "wr_enabled w = enabled"
    by (auto simp: create_encrypted_storage_def try_then_Inr_iff crypto_util_def new_crypto_def split: option.splits if_splits)
  have "holds_map lib (wr_crypto w) (look s) (look s)" using assms(5) plain_passes by (auto simp: holds_map_def reads_as_def split: option.split)
  with ops_keep_map [of w up look s "look s" ops w' s'] w assms
  have r: "up s'" "holds_map lib (wr_crypto w) (look s') (fold op_meaning ops (look s))" "w'\<lparr>wr_enabled := True\<rparr> = w\<lparr>wr_enabled := True\<rparr>" by auto
  have "os_get impl k s' = (Inr (look s' k), s')" using assms(2) r(1) by (auto simp: store_laws_def)
  moreover have "reads_as lib (wr_crypto w) (look s' k) (fold op_meaning ops (look s) k)" using r(2) by (simp add: holds_map_def)
  ultimately show ?thesis using w unfolding r(3) enable_encryption_def storage_get_def reads_as_def
    by (auto simp: bnd_apply lift_def ret_def split: option.splits)
qed

section \<open>A library and a storage to evaluate on\<close>

definition toy_cipher :: cipher_lib where
  "toy_cipher = \<lparr>cl_derive = (\<lambda>n k. k), cl_pad = (\<lambda>d. d @ ''.''), cl_unpad = (\<lambda>d. if d = [] then raise ValueError ''Invalid padding bytes.'' else Inr (butlast d)),
     cl_encrypt = (\<lambda>b k iv d. Inr (k @ rev d)),
     cl_decrypt = (\<lambda>b k iv t. if starts_with t k then Inr (rev (drop (length k) t)) else raise ValueError ''Invalid padding bytes.'')\<rparr>"

lemma toy_block_laws: "block_laws toy_cipher"
  by (simp add: block_laws_def toy_cipher_def)

definition map_store :: "(object_name, string) dict object_store" where
  "map_store = \<lparr>os_put = (\<lambda>k d s. (Inr (), dset k d s)), os_get = (\<lambda>k s. (Inr (map_of s k), s)), os_rm = (\<lambda>k s. (Inr (), dpop k s)),
     os_exist = (\<lambda>k s. (Inr (has_key s k), s)), os_bucket_exists = None, os_presigned = None, os_scan = None, os_copy = None, os_move = None, os_remove_bucket = None\<rparr>"

lemma map_store_laws: "store_laws map_store (\<lambda>s. True) map_of"
  by (auto simp: store_laws_def map_store_def update_conv delete_conv)

definition toy_wrapper :: "(object_name, string) dict wrapper" where
  "toy_wrapper = \<lparr>wr_impl = map_store, wr_lib = toy_cipher, wr_crypto = \<lparr>cy_alg = AES256CBC, cy_key = ''k'', cy_iv = None\<rparr>, wr_enabled = True\<rparr>"

definition toy_ops :: "store_op list" where
  "toy_ops = [Put (ObjectName ''b'' ''f'' None) ''secret'' ''0123456789abcdef'', Disable, Put (ObjectName ''b'' ''g'' None) ''plain'' ''0123456789abcdef'', Enable]"

text \<open>A file stored encrypted is read back after another was stored in plain.\<close>

theorem encrypted_storage_is_a_map_witness:
  "storage_get (enable_encryption (fst (fold apply_op toy_ops (toy_wrapper, [(ObjectName ''b'' ''old'' None, ''older'')]))))
     (ObjectName ''b'' ''f'' None) (snd (fold apply_op toy_ops (toy_wrapper, [(ObjectName ''b'' ''old'' None, ''older'')])))
   = (Inr (Some ''secret''), snd (fold apply_op toy_ops (toy_wrapper, [(ObjectName ''b'' ''old'' None, ''older'')])))"
proof -
  have w: "create_encrypted_storage map_store toy_cipher ''aes-256-cbc'' (Some ''k'') True = Inr toy_wrapper"
    by (simp add: create_encrypted_storage_def crypto_util_def supported_algorithms_def new_crypto_def toy_wrapper_def toy_cipher_def)
  have "safe_ops True toy_ops" by (simp add: toy_ops_def iv_length_def encrypted_magic_def)
  moreover have "\<forall>k d. map_of [(ObjectName ''b'' ''old'' None, ''older'')] k = Some d \<longrightarrow> \<not> starts_with d encrypted_magic"
    by (auto simp: encrypted_magic_def)
  moreover have "fold op_meaning toy_ops (map_of [(ObjectName ''b'' ''old'' None, ''older'')]) (ObjectName ''b'' ''f'' None) = Some ''secret''"
    by (simp add: toy_ops_def)
  ultimately show ?thesis
    using encrypted_storage_is_a_map [OF w map_store_laws toy_block_laws, of "[(ObjectName ''b'' ''old'' None, ''older'')]" toy_ops]
    by (metis prod.collapse)
qed

end
