(* ===== verification/HardwareAuth.thy ===== *)
theory HardwareAuth
  imports Vault Sealing
begin

text \<open>
  Sign-in with a hardware module: \<^verbatim>\<open>common/hardware_auth.py\<close>, the vault bound to such a sign-in
  (\<^verbatim>\<open>common/privacy_vault.py\<close>) and the handlers of \<^verbatim>\<open>api/apps/restful_apis/privacy_api.py\<close> over them. A user enrols
  modules, which a file per user keeps encrypted; a challenge waits in Redis for the answer of a module and is
  spent by it; a verified answer earns a token. The WebAuthn library, digests and signed tokens are functions of a
  record, as is the cipher; challenges, initialisation vectors and the clock are arguments. JSON files are read and
  written by value.
\<close>

section \<open>The world\<close>

record 's hw_env =
  he_redis :: "'s redis_api"
  he_lib :: cipher_lib
  he_hexdigest :: "string \<Rightarrow> string"
  he_digest :: "string \<Rightarrow> string"
  he_store_key :: string
  he_secret :: string
  he_webauthn :: bool
  he_rp_id :: string
  he_rp_name :: string
  he_transports :: "string list"
  he_reg_options :: "string \<Rightarrow> string \<Rightarrow> string list \<Rightarrow> string \<Rightarrow> pyval"
  he_auth_options :: "(string \<times> string list) list \<Rightarrow> string \<Rightarrow> pyval"
  he_verify_reg :: "pyval \<Rightarrow> string \<Rightarrow> (string \<times> string \<times> int) res"
  he_verify_auth :: "pyval \<Rightarrow> string \<Rightarrow> string \<Rightarrow> int \<Rightarrow> int res"
  he_sign :: "pdict \<Rightarrow> string \<Rightarrow> string"
  he_open :: "string \<Rightarrow> string \<Rightarrow> int \<Rightarrow> pdict option"
  he_ttl :: int

text \<open>Redis and the files of the local vault are those of theory Vault.\<close>

record 's hw_world = "'s world" +
  hw_stores :: "(string, string) dict"
  hw_vaults :: "(string, string) dict"
  hw_sealed :: "(string, string) dict"

type_synonym ('s, 'a) hw_act = "('s hw_world, 'a) act"

definition at_redis :: "('s, 'a) act \<Rightarrow> ('s, 'a) hw_act" where
  "at_redis m w = (case m (w_redis w) of (r, s) \<Rightarrow> (r, w\<lparr>w_redis := s\<rparr>))"

definition on_vault :: "('s, 'a) vault_act \<Rightarrow> ('s, 'a) hw_act" where
  "on_vault m w = (case m (world.truncate w) of (r, v) \<Rightarrow> (r, w\<lparr>w_redis := w_redis v, w_meta := w_meta v, w_blob := w_blob v\<rparr>))"

section \<open>The store of modules\<close>

definition require_webauthn :: "'s hw_env \<Rightarrow> unit res" where
  "require_webauthn env = (if he_webauthn env then Inr () else raise GenericException ''WebAuthn support is not installed. Run: uv add webauthn'')"

definition store_path :: "'s hw_env \<Rightarrow> string \<Rightarrow> string" where
  "store_path env user = take 32 (he_hexdigest env user)"

definition store_salt :: string where
  "store_salt = ''mail-intel-hardware-auth-store-v1''"

definition store_cipher_key :: "'s hw_env \<Rightarrow> string" where
  "store_cipher_key env = (let raw = strip (he_store_key env) in he_digest env (store_salt @ (if raw = [] then he_secret env else raw)))"

definition store_crypto :: "'s hw_env \<Rightarrow> crypto" where
  "store_crypto env = new_crypto (he_lib env) AES256CBC (store_cipher_key env) None"

definition encrypt_store_payload :: "'s hw_env \<Rightarrow> string \<Rightarrow> pyval \<Rightarrow> pyval res" where
  "encrypt_store_payload env drawn payload = try_then (json_text payload) (\<lambda>t.
     try_then (encrypt_bytes (he_lib env) (store_crypto env) drawn t) (\<lambda>b.
       Inr (PDict [(''v'', PInt 1), (''encrypted'', PBool True), (''blob'', PStr (b64encode b))])))"

definition b64_arg :: "pyval \<Rightarrow> string res" where
  "b64_arg v = (case v of PStr s \<Rightarrow> b64decode s
     | _ \<Rightarrow> raise TypeError (''argument should be a bytes-like object or ASCII string, not '' @ [CHR 0x27] @ type_name v @ [CHR 0x27]))"

definition decrypt_store_payload :: "'s hw_env \<Rightarrow> pdict \<Rightarrow> pyval res" where
  "decrypt_store_payload env envelope =
     (let blob = get_none envelope ''blob''
      in if \<not> truthy blob then raise ValueError ''Encrypted hardware auth store is missing ciphertext.''
         else try_then (b64_arg blob) (\<lambda>b. try_then (decrypt_bytes (he_lib env) (store_crypto env) b) parse_file))"

definition corrupted_store :: pyval where
  "corrupted_store = PDict [(''credentials'', PList []), (''_store_corrupted'', PBool True)]"

definition load_store :: "'s hw_env \<Rightarrow> string \<Rightarrow> ('s, pyval) hw_act" where
  "load_store env user = gets_res (\<lambda>w. case map_of (hw_stores w) (store_path env user) of
     None \<Rightarrow> Inr (PDict [(''credentials'', PList [])])
   | Some t \<Rightarrow> (case json_loads t of
       None \<Rightarrow> Inr corrupted_store
     | Some (PDict raw) \<Rightarrow>
         if truthy (get_none raw ''encrypted'') \<and> truthy (get_none raw ''blob'') then
           (case decrypt_store_payload env raw of Inl e \<Rightarrow> Inr corrupted_store | Inr p \<Rightarrow> Inr p)
         else if is_list (get_none raw ''credentials'') then Inr (PDict raw)
         else Inr corrupted_store
     | Some v \<Rightarrow> no_attr v ''get''))"

definition store_corrupted :: "'s hw_env \<Rightarrow> string \<Rightarrow> ('s, bool) hw_act" where
  "store_corrupted env user = bnd (load_store env user) (\<lambda>store.
     bnd (lift (get_method store ''_store_corrupted'' PNone)) (\<lambda>v. ret (truthy v)))"

definition save_store :: "'s hw_env \<Rightarrow> string \<Rightarrow> string \<Rightarrow> pyval \<Rightarrow> ('s, unit) hw_act" where
  "save_store env drawn user payload = bnd (lift (encrypt_store_payload env drawn payload)) (\<lambda>envelope.
     modify (\<lambda>w. w\<lparr>hw_stores := dset (store_path env user) (json_dumps envelope) (hw_stores w)\<rparr>))"

definition clear_store :: "'s hw_env \<Rightarrow> string \<Rightarrow> ('s, unit) hw_act" where
  "clear_store env user = modify (\<lambda>w. w\<lparr>hw_stores := dpop (store_path env user) (hw_stores w)\<rparr>)"

section \<open>Challenges\<close>

definition challenge_key :: "string \<Rightarrow> string \<Rightarrow> string" where
  "challenge_key user purpose = ''mail-intel:webauthn:'' @ purpose @ '':'' @ user"

definition challenge_ttl :: nat where
  "challenge_ttl = 300"

definition store_challenge :: "'s hw_env \<Rightarrow> string \<Rightarrow> string \<Rightarrow> string \<Rightarrow> ('s, unit) hw_act" where
  "store_challenge env user purpose challenge =
     bnd (at_redis (redis_set (he_redis env) (challenge_key user purpose) challenge challenge_ttl)) (\<lambda>_. ret ())"

text \<open>\<open>_pop_challenge\<close> reads the challenge and then deletes it, in two calls.\<close>

definition read_challenge :: "'s hw_env \<Rightarrow> string \<Rightarrow> string \<Rightarrow> ('s, string) hw_act" where
  "read_challenge env user purpose = bnd (at_redis (redis_get (he_redis env) (challenge_key user purpose))) (\<lambda>v.
     ret (case v of None \<Rightarrow> [] | Some c \<Rightarrow> c))"

definition drop_challenge :: "'s hw_env \<Rightarrow> string \<Rightarrow> string \<Rightarrow> string \<Rightarrow> ('s, unit) hw_act" where
  "drop_challenge env user purpose challenge =
     (if challenge = [] then ret () else bnd (at_redis (redis_delete (he_redis env) (challenge_key user purpose))) (\<lambda>_. ret ()))"

definition pop_challenge :: "'s hw_env \<Rightarrow> string \<Rightarrow> string \<Rightarrow> ('s, string) hw_act" where
  "pop_challenge env user purpose = bnd (read_challenge env user purpose) (\<lambda>c.
     bnd (drop_challenge env user purpose c) (\<lambda>_. ret c))"

definition b64_text :: "string \<Rightarrow> string" where
  "b64_text data = strip_padding (urlsafe_b64encode data)"

definition b64_bytes :: "string \<Rightarrow> string res" where
  "b64_bytes s = urlsafe_b64decode (add_padding s)"

text \<open>\<open>_b64decode\<close> of a value that may not be a string.\<close>

definition b64_value :: "pyval \<Rightarrow> string res" where
  "b64_value v = (case v of
     PStr s \<Rightarrow> b64_bytes s
   | PList xs \<Rightarrow> raise TypeError (''can only concatenate list (not '' @ [CHR 0x22] @ ''str'' @ [CHR 0x22] @ '') to list'')
   | PDict d \<Rightarrow> raise TypeError (''unsupported operand type(s) for +: '' @ [CHR 0x27] @ ''dict'' @ [CHR 0x27] @ '' and '' @ [CHR 0x27] @ ''str'' @ [CHR 0x27])
   | _ \<Rightarrow> raise TypeError (''object of type '' @ [CHR 0x27] @ type_name v @ [CHR 0x27] @ '' has no len()''))"

section \<open>Transports and credentials\<close>

definition cross_platform_transports :: "string list" where
  "cross_platform_transports = [''usb'', ''nfc'']"

definition transport_texts :: "pyval list \<Rightarrow> string list" where
  "transport_texts xs = List.map_filter (\<lambda>x. case x of PStr s \<Rightarrow> if strip s = [] then None else Some (lower (strip s)) | _ \<Rightarrow> None) xs"

definition transport_value_list :: "pyval \<Rightarrow> string list res" where
  "transport_value_list v = (if \<not> truthy v then Inr cross_platform_transports
     else try_then (py_iter v) (\<lambda>xs. Inr (if transport_texts xs = [] then cross_platform_transports else transport_texts xs)))"

definition transport_enums :: "'s hw_env \<Rightarrow> pyval list \<Rightarrow> string list" where
  "transport_enums env xs =
     (let out = filter (\<lambda>t. t \<in> set (he_transports env)) (transport_texts xs)
      in if xs = [] \<or> out = [] then cross_platform_transports else out)"

record credential =
  hc_id :: pyval
  hc_key :: pyval
  hc_count :: int
  hc_transports :: "pyval list"

definition credential_of :: "pyval \<Rightarrow> credential res" where
  "credential_of item = try_then (subscript item ''credential_id'') (\<lambda>i. try_then (subscript item ''public_key'') (\<lambda>k.
     try_then (get_method item ''sign_count'' (PInt 0)) (\<lambda>c. try_then (py_int c) (\<lambda>n.
     try_then (get_method item ''transports'' PNone) (\<lambda>t. try_then (py_iter (py_or t (PList []))) (\<lambda>ts.
       Inr \<lparr>hc_id = i, hc_key = k, hc_count = n, hc_transports = ts\<rparr>))))))"

definition stored_items :: "pyval \<Rightarrow> pyval list res" where
  "stored_items store = try_then (get_method store ''credentials'' (PList [])) py_iter"

definition list_credentials :: "'s hw_env \<Rightarrow> string \<Rightarrow> ('s, credential list) hw_act" where
  "list_credentials env user = bnd (load_store env user) (\<lambda>store. lift (try_then (stored_items store) (map_res credential_of)))"

definition has_registered_credentials :: "'s hw_env \<Rightarrow> string \<Rightarrow> ('s, bool) hw_act" where
  "has_registered_credentials env user = bnd (list_credentials env user) (\<lambda>cs. ret (cs \<noteq> []))"

section \<open>Enrolment\<close>

definition registration_options :: "'s hw_env \<Rightarrow> string \<Rightarrow> string \<Rightarrow> string \<Rightarrow> ('s, pyval) hw_act" where
  "registration_options env challenge user username = bnd (lift (require_webauthn env)) (\<lambda>_.
     bnd (list_credentials env user) (\<lambda>existing.
     bnd (lift (map_res (\<lambda>c. b64_value (hc_id c)) existing)) (\<lambda>exclude.
     bnd (store_challenge env user ''register'' (b64_text challenge)) (\<lambda>_.
       ret (he_reg_options env user (if username = [] then user else username) exclude challenge)))))"

definition other_credentials :: "string \<Rightarrow> pyval list \<Rightarrow> pyval list res" where
  "other_credentials cred_id items = try_then (map_res (\<lambda>c. get_method c ''credential_id'' PNone) items) (\<lambda>ids.
     Inr (map snd (filter (\<lambda>(i, c). i \<noteq> PStr cred_id) (zip ids items))))"

definition verify_registration :: "'s hw_env \<Rightarrow> string \<Rightarrow> string \<Rightarrow> pyval \<Rightarrow> ('s, unit) hw_act" where
  "verify_registration env drawn user credential = bnd (lift (require_webauthn env)) (\<lambda>_.
     bnd (pop_challenge env user ''register'') (\<lambda>expected.
     if expected = [] then lift (raise ValueError ''Module enrollment session expired. Reconnect your hardware module and try again.'')
     else bnd (lift (try_then (b64_bytes expected) (he_verify_reg env credential))) (\<lambda>(new_id, key, count).
     bnd (load_store env user) (\<lambda>store.
     bnd (lift (as_dict ''setdefault'' store)) (\<lambda>d.
     bnd (lift (try_then (py_iter (get_or d ''credentials'' (PList []))) (other_credentials (b64_text new_id)))) (\<lambda>others.
     bnd (lift (try_then (get_method credential ''transports'' PNone) transport_value_list)) (\<lambda>transports.
       save_store env drawn user (PDict (dset ''credentials'' (PList (others @
         [PDict [(''credential_id'', PStr (b64_text new_id)), (''public_key'', PStr (b64_text key)), (''sign_count'', PInt count),
           (''transports'', PList (map PStr transports))]])) d)))))))))"

section \<open>Sign-in\<close>

definition authentication_options :: "'s hw_env \<Rightarrow> string \<Rightarrow> string \<Rightarrow> ('s, pyval) hw_act" where
  "authentication_options env challenge user = bnd (lift (require_webauthn env)) (\<lambda>_.
     bnd (list_credentials env user) (\<lambda>creds.
     if creds = [] then lift (raise ValueError ''No hardware module enrolled. Complete initial provisioning first.'')
     else bnd (lift (map_res (\<lambda>c. try_then (b64_value (hc_id c)) (\<lambda>i. Inr (i, transport_enums env (hc_transports c)))) creds)) (\<lambda>allow.
     bnd (store_challenge env user ''authenticate'' (b64_text challenge)) (\<lambda>_.
       ret (he_auth_options env allow challenge)))))"

text \<open>\<open>bytes(v)\<close>: the numbers of a list, or as many zeros as a number says.\<close>

definition bytes_of_value :: "pyval \<Rightarrow> string res" where
  "bytes_of_value v = (case v of
     PInt n \<Rightarrow> if n < 0 then raise ValueError ''negative count'' else Inr (replicate (nat n) (CHR 0x00))
   | PBool b \<Rightarrow> Inr (replicate (of_bool b) (CHR 0x00))
   | PList xs \<Rightarrow> map_res (\<lambda>x. case x of
         PInt n \<Rightarrow> if 0 \<le> n \<and> n < 256 then Inr (char_of (nat n)) else raise ValueError ''bytes must be in range(0, 256)''
       | PBool b \<Rightarrow> Inr (char_of (of_bool b :: nat))
       | _ \<Rightarrow> raise TypeError ([CHR 0x27] @ type_name x @ [CHR 0x27] @ '' object cannot be interpreted as an integer'')) xs
   | PDict d \<Rightarrow> raise TypeError ([CHR 0x27] @ ''str'' @ [CHR 0x27] @ '' object cannot be interpreted as an integer'')
   | _ \<Rightarrow> raise TypeError (''cannot convert '' @ [CHR 0x27] @ type_name v @ [CHR 0x27] @ '' object to bytes''))"

definition raw_credential_id :: "pyval \<Rightarrow> string res" where
  "raw_credential_id raw_id = (case raw_id of
     PStr s \<Rightarrow> try_then (b64_bytes s) (\<lambda>_. Inr s)
   | _ \<Rightarrow> try_then (bytes_of_value raw_id) (\<lambda>b. Inr (b64_text b)))"

text \<open>\<open>{c.credential_id: c for c in creds}.get(cred_id)\<close>: of equal keys the last one stays.\<close>

definition hashable_ids :: "credential list \<Rightarrow> unit res" where
  "hashable_ids creds = (case find (\<lambda>c. \<not> usable_key (hc_id c)) creds of Some c \<Rightarrow> bad_key (hc_id c) | None \<Rightarrow> Inr ())"

definition credential_by_id :: "string \<Rightarrow> credential list \<Rightarrow> credential option" where
  "credential_by_id cred_id creds = find (\<lambda>c. hc_id c = PStr cred_id) (rev creds)"

definition set_sign_count :: "string \<Rightarrow> int \<Rightarrow> pyval \<Rightarrow> pyval res" where
  "set_sign_count cred_id count item = try_then (get_method item ''credential_id'' PNone) (\<lambda>i.
     if i = PStr cred_id then (case item of PDict d \<Rightarrow> Inr (PDict (dset ''sign_count'' (PInt count) d)) | _ \<Rightarrow> Inr item) else Inr item)"

text \<open>The items are updated in place, in the object that is saved.\<close>

definition with_sign_count :: "string \<Rightarrow> int \<Rightarrow> pyval \<Rightarrow> pyval res" where
  "with_sign_count cred_id count store = (case store of
     PDict d \<Rightarrow> (case map_of d ''credentials'' of
         None \<Rightarrow> Inr store
       | Some (PList xs) \<Rightarrow> try_then (map_res (set_sign_count cred_id count) xs) (\<lambda>ys. Inr (PDict (dset ''credentials'' (PList ys) d)))
       | Some v \<Rightarrow> try_then (py_iter v) (\<lambda>xs. try_then (map_res (set_sign_count cred_id count) xs) (\<lambda>_. Inr store)))
   | _ \<Rightarrow> no_attr store ''get'')"

definition token_payload :: "'s hw_env \<Rightarrow> int \<Rightarrow> string \<Rightarrow> pdict" where
  "token_payload env now user = [(''sub'', PStr user), (''hw'', PBool True), (''iat'', PInt now), (''exp'', PInt (now + he_ttl env))]"

text \<open>\<open>issue_hardware_token\<close> behind the challenge.\<close>

definition answer_challenge :: "'s hw_env \<Rightarrow> string \<Rightarrow> int \<Rightarrow> string \<Rightarrow> pyval \<Rightarrow> string \<Rightarrow> ('s, string) hw_act" where
  "answer_challenge env drawn now user credential expected =
     (if expected = [] then lift (raise ValueError ''Module verification session expired. Reconnect your hardware module and try again.'')
      else bnd (list_credentials env user) (\<lambda>creds.
       bnd (lift (hashable_ids creds)) (\<lambda>_.
       bnd (lift (try_then (get_method credential ''rawId'' PNone) (\<lambda>r. try_then (get_method credential ''id'' PNone) (\<lambda>i. Inr (py_or r i))))) (\<lambda>raw_id.
       if \<not> truthy raw_id then lift (raise ValueError ''Module verification payload is incomplete.'')
       else bnd (lift (raw_credential_id raw_id)) (\<lambda>cred_id.
       case credential_by_id cred_id creds of
         None \<Rightarrow> lift (raise ValueError ''Unknown hardware module. Complete enrollment first.'')
       | Some c \<Rightarrow>
         bnd (lift (try_then (b64_bytes expected) (\<lambda>challenge. try_then (b64_value (hc_key c)) (\<lambda>key.
               he_verify_auth env credential challenge key (hc_count c))))) (\<lambda>count.
         bnd (load_store env user) (\<lambda>store.
         bnd (lift (with_sign_count cred_id count store)) (\<lambda>updated.
         bnd (save_store env drawn user updated) (\<lambda>_.
           ret (he_sign env (token_payload env now user) (he_secret env)))))))))))"

definition issue_hardware_token :: "'s hw_env \<Rightarrow> string \<Rightarrow> int \<Rightarrow> string \<Rightarrow> pyval \<Rightarrow> ('s, string) hw_act" where
  "issue_hardware_token env drawn now user credential = bnd (lift (require_webauthn env)) (\<lambda>_.
     bnd (pop_challenge env user ''authenticate'') (answer_challenge env drawn now user credential))"

definition verify_hardware_token :: "'s hw_env \<Rightarrow> int \<Rightarrow> string option \<Rightarrow> string \<Rightarrow> bool" where
  "verify_hardware_token env now token user = (case token of None \<Rightarrow> False
   | Some t \<Rightarrow> t \<noteq> [] \<and> (case he_open env t (he_secret env) now of None \<Rightarrow> False
       | Some payload \<Rightarrow> get_none payload ''sub'' = PStr user \<and> get_none payload ''hw'' = PBool True))"

section \<open>Secrets bound to a sign-in\<close>

definition sealing_crypto :: "'s hw_env \<Rightarrow> string \<Rightarrow> string \<Rightarrow> string \<Rightarrow> crypto" where
  "sealing_crypto env user token purpose = new_crypto (he_lib env) AES256CBC (he_digest env (join_str ''|'' [user, token, purpose])) None"

definition seal_text :: "'s hw_env \<Rightarrow> crypto \<Rightarrow> string \<Rightarrow> string \<Rightarrow> pyval res" where
  "seal_text env c drawn text = try_then (encrypt_bytes (he_lib env) c drawn text) (\<lambda>b. Inr (PStr (b64encode b)))"

definition unseal_text :: "'s hw_env \<Rightarrow> crypto \<Rightarrow> string \<Rightarrow> string \<Rightarrow> string res" where
  "unseal_text env c member file = try_then (parse_file file) (\<lambda>payload. try_then (subscript payload member) (\<lambda>blob.
     try_then (b64_arg blob) (decrypt_bytes (he_lib env) c)))"

definition seal_blob :: "'s hw_env \<Rightarrow> string \<Rightarrow> string \<Rightarrow> string \<Rightarrow> string \<Rightarrow> string \<Rightarrow> ('s, unit) hw_act" where
  "seal_blob env drawn user token name plaintext =
     bnd (lift (seal_text env (sealing_crypto env user token ''mail-intel-vault'') drawn plaintext)) (\<lambda>c.
       modify (\<lambda>w. w\<lparr>hw_sealed := dset name (json_dumps (PDict [(''name'', PStr name), (''ciphertext'', c)])) (hw_sealed w)\<rparr>))"

definition unseal_blob :: "'s hw_env \<Rightarrow> string \<Rightarrow> string \<Rightarrow> string \<Rightarrow> ('s, string) hw_act" where
  "unseal_blob env user token name = gets_res (\<lambda>w. case map_of (hw_sealed w) name of
     None \<Rightarrow> raise GenericException (''Sealed blob not found: '' @ name)
   | Some t \<Rightarrow> unseal_text env (sealing_crypto env user token ''mail-intel-vault'') ''ciphertext'' t)"

definition load_sealed_prompt :: "'s hw_env \<Rightarrow> string \<Rightarrow> string \<Rightarrow> string \<Rightarrow> ('s, string option) hw_act" where
  "load_sealed_prompt env user token name = try_except (bnd (unseal_blob env user token name) (\<lambda>t. ret (Some t))) (\<lambda>e. ret None)"

definition seal_user_vault :: "'s hw_env \<Rightarrow> string \<Rightarrow> string \<Rightarrow> string \<Rightarrow> pdict \<Rightarrow> ('s, unit) hw_act" where
  "seal_user_vault env drawn user token secrets = bnd (lift (json_text (PDict secrets))) (\<lambda>t.
     bnd (lift (seal_text env (sealing_crypto env user token ''mail-intel-user-vault'') drawn t)) (\<lambda>c.
       modify (\<lambda>w. w\<lparr>hw_vaults := dset (store_path env user) (json_dumps (PDict [(''blob'', c)])) (hw_vaults w)\<rparr>)))"

definition unseal_user_vault :: "'s hw_env \<Rightarrow> string \<Rightarrow> string \<Rightarrow> ('s, pyval) hw_act" where
  "unseal_user_vault env user token = gets_res (\<lambda>w. case map_of (hw_vaults w) (store_path env user) of
     None \<Rightarrow> Inr (PDict [])
   | Some t \<Rightarrow> try_then (unseal_text env (sealing_crypto env user token ''mail-intel-user-vault'') ''blob'' t) parse_file)"

section \<open>Handlers\<close>

datatype reply = Reply pyval | Refused string | ServerFault string

definition user_safe_hardware_error :: "exc \<Rightarrow> string" where
  "user_safe_hardware_error e =
     (let message = strip (exc_text e); l = lower message; failed = ''Hardware module operation failed. Try again.''
      in if message = [] \<or> str_in ''has no attribute'' l \<or> str_in ''attributeerror'' l then failed
         else if list_ex (\<lambda>t. str_in t l) [''fido'', ''webauthn'', ''yubikey'', ''passkey'', ''security key''] then
           (if str_in ''expired'' l \<or> str_in ''challenge'' l then ''Module session expired. Reconnect your hardware module and try again.''
            else if str_in ''enroll'' l \<or> str_in ''register'' l \<or> str_in ''unknown'' l then ''No hardware module enrolled. Complete initial provisioning first.''
            else failed)
         else message)"

definition hardware_reply :: "('s, pyval) hw_act \<Rightarrow> ('s, reply) hw_act" where
  "hardware_reply m = try_except (bnd m (\<lambda>v. ret (Reply v))) (\<lambda>e. ret (Refused (user_safe_hardware_error e)))"

text \<open>Two handlers around the vault: its own errors are told, others are faults of the server.\<close>

definition vault_reply :: "('s, pyval) hw_act \<Rightarrow> ('s, reply) hw_act" where
  "vault_reply m = try_except (bnd m (\<lambda>v. ret (Reply v)))
     (\<lambda>e. ret (if exc_class e \<in> {VaultError, VaultLockedError} then Refused (exc_text e) else ServerFault (exc_text e)))"

definition privacy_body :: "pyval \<Rightarrow> pdict" where
  "privacy_body req = (case req of PDict d \<Rightarrow> (case get_none d ''data'' of PDict nested \<Rightarrow> nested | _ \<Rightarrow> d) | _ \<Rightarrow> [])"

definition privacy_status :: "'s hw_env \<Rightarrow> string \<Rightarrow> ('s, reply) hw_act" where
  "privacy_status env user = bnd (store_corrupted env user) (\<lambda>corrupted. bnd (has_registered_credentials env user) (\<lambda>registered.
     ret (Reply (PDict [(''registered'', PBool registered), (''store_corrupted'', PBool corrupted), (''needs_reprovision'', PBool corrupted),
       (''rp_id'', PStr (he_rp_id env)), (''rp_name'', PStr (he_rp_name env))]))))"

definition webauthn_register_options :: "'s hw_env \<Rightarrow> string \<Rightarrow> string \<Rightarrow> string \<Rightarrow> ('s, reply) hw_act" where
  "webauthn_register_options env challenge user email = hardware_reply (bnd (store_corrupted env user) (\<lambda>corrupted.
     bnd (if corrupted then clear_store env user else ret ()) (\<lambda>_. registration_options env challenge user email)))"

definition webauthn_register_verify :: "'s hw_env \<Rightarrow> string \<Rightarrow> string \<Rightarrow> pyval \<Rightarrow> ('s, reply) hw_act" where
  "webauthn_register_verify env drawn user req =
     (let credential = get_none (privacy_body req) ''credential''
      in if \<not> truthy credential then ret (Refused ''Module enrollment payload is required.'')
         else hardware_reply (bnd (verify_registration env drawn user credential) (\<lambda>_. ret (PDict [(''registered'', PBool True)]))))"

definition webauthn_authenticate_options :: "'s hw_env \<Rightarrow> string \<Rightarrow> string \<Rightarrow> ('s, reply) hw_act" where
  "webauthn_authenticate_options env challenge user = hardware_reply (authentication_options env challenge user)"

definition webauthn_authenticate_verify :: "'s hw_env \<Rightarrow> string \<Rightarrow> int \<Rightarrow> string \<Rightarrow> pyval \<Rightarrow> ('s, reply) hw_act" where
  "webauthn_authenticate_verify env drawn now user req =
     (let credential = get_none (privacy_body req) ''credential''
      in if \<not> truthy credential then ret (Refused ''Module verification payload is required.'')
         else hardware_reply (bnd (issue_hardware_token env drawn now user credential) (\<lambda>t.
           ret (PDict [(''hardware_token'', PStr t), (''expires_in'', PInt (he_ttl env))]))))"

definition hardware_auth_required_from_dsl :: "pyval \<Rightarrow> bool res" where
  "hardware_auth_required_from_dsl dsl = try_then (privacy_policy dsl) (\<lambda>p. Inr (map_of p ''hardware_auth_required'' = Some True))"

text \<open>Whether an unlock needs the module; \<open>lookup\<close> is the row of the agent, and any exception means no.\<close>

definition unlock_requires_hardware :: "(pyval \<Rightarrow> (bool \<times> pyval) res) \<Rightarrow> pdict \<Rightarrow> bool" where
  "unlock_requires_hardware lookup req =
     (let hint = get_none req ''agent_id''
      in case (if \<not> truthy hint then Inr False
               else try_then (lookup hint) (\<lambda>(ok, row). if ok \<and> truthy row
                 then try_then (get_method row ''dsl'' PNone) hardware_auth_required_from_dsl else Inr False)) of
           Inl e \<Rightarrow> False | Inr b \<Rightarrow> b)"

definition privacy_vault_unlock ::
    "'s hw_env \<Rightarrow> 's vault_env \<Rightarrow> (pyval \<Rightarrow> (bool \<times> pyval) res) \<Rightarrow> int \<Rightarrow> string option \<Rightarrow> string \<Rightarrow> pyval \<Rightarrow> ('s, reply) hw_act" where
  "privacy_vault_unlock env venv lookup now token user request =
     (let req = privacy_body request; code = strip (py_str (py_or (py_or (get_none req ''totp_code'') (get_none req ''code'')) (PStr [])))
      in if code = [] then ret (Refused ''Verification code is required.'')
         else if unlock_requires_hardware lookup req \<and> \<not> verify_hardware_token env now token user then ret (Refused ''Hardware authentication required.'')
         else vault_reply (bnd (on_vault (unlock_vault venv user code (case token of None \<Rightarrow> [] | Some t \<Rightarrow> t)
                (truthy (get_or req ''unlock_vault'' (PBool True))) (truthy (get_or req ''unlock_obsidian'' (PBool True))))) (\<lambda>d. ret (PDict d))))"

definition privacy_vault_status :: "'s hw_env \<Rightarrow> 's vault_env \<Rightarrow> string \<Rightarrow> ('s, reply) hw_act" where
  "privacy_vault_status env venv user = bnd (try_except (bnd (on_vault (vault_status venv user)) (\<lambda>d. ret (Inr d)))
       (\<lambda>e. if exc_class e \<in> {VaultError, VaultLockedError} then ret (Inl (exc_text e)) else lift (Inl e)))
     (\<lambda>status. case status of Inl msg \<Rightarrow> ret (Refused msg)
      | Inr d \<Rightarrow> bnd (has_registered_credentials env user) (\<lambda>r. ret (Reply (PDict (dset ''hardware_registered'' (PBool r) d)))))"

definition privacy_vault_lock :: "'s vault_env \<Rightarrow> string \<Rightarrow> ('s, reply) hw_act" where
  "privacy_vault_lock venv user = bnd (on_vault (lock_vault venv user)) (\<lambda>_. ret (Reply (PDict [(''locked'', PBool True)])))"

definition privacy_vault_seal :: "'s hw_env \<Rightarrow> 's vault_env \<Rightarrow> string \<Rightarrow> int \<Rightarrow> string option \<Rightarrow> string \<Rightarrow> pyval \<Rightarrow> ('s, reply) hw_act" where
  "privacy_vault_seal env venv drawn now token user request =
     (case token of None \<Rightarrow> ret (Refused ''Hardware authentication required.'') | Some t \<Rightarrow>
      if \<not> verify_hardware_token env now token user then ret (Refused ''Hardware authentication required.'')
      else let req = privacy_body request in case get_none req ''categories'' of
        PDict categories \<Rightarrow> vault_reply (bnd (on_vault (seal_categories venv user categories)) (\<lambda>_.
          ret (PDict [(''sealed'', PBool True), (''store'', PStr ''local_vault'')])))
      | _ \<Rightarrow> (case get_none req ''secrets'' of
          PDict secrets \<Rightarrow> try_except (bnd (seal_user_vault env drawn user t secrets) (\<lambda>_.
            ret (Reply (PDict [(''sealed'', PBool True), (''store'', PStr ''legacy'')])))) (\<lambda>e. ret (ServerFault (exc_text e)))
        | _ \<Rightarrow> ret (Refused ''`secrets` or `categories` object is required.'')))"

definition privacy_vault_unseal :: "'s hw_env \<Rightarrow> int \<Rightarrow> string option \<Rightarrow> string \<Rightarrow> ('s, reply) hw_act" where
  "privacy_vault_unseal env now token user =
     (case token of None \<Rightarrow> ret (Refused ''Hardware authentication required.'') | Some t \<Rightarrow>
      if \<not> verify_hardware_token env now token user then ret (Refused ''Hardware authentication required.'')
      else try_except (bnd (unseal_user_vault env user t) (\<lambda>v. ret (Reply (PDict [(''secrets'', v)])))) (\<lambda>e. ret (ServerFault (exc_text e))))"

section \<open>The gates of an agent\<close>

definition require_hardware_auth_for_dsl :: "'s hw_env \<Rightarrow> int \<Rightarrow> string option \<Rightarrow> string \<Rightarrow> pyval \<Rightarrow> ('s, bool \<times> string) hw_act" where
  "require_hardware_auth_for_dsl env now token user dsl = bnd (lift (hardware_auth_required_from_dsl dsl)) (\<lambda>needed.
     if \<not> needed then ret (True, [])
     else bnd (has_registered_credentials env user) (\<lambda>registered.
       ret (if \<not> registered then (False, ''Enroll your hardware security module before using this agent.'')
            else if \<not> verify_hardware_token env now token user then (False, ''Verify with your hardware security module to continue.'')
            else (True, []))))"

definition require_local_vault_for_dsl :: "'s vault_env \<Rightarrow> string \<Rightarrow> pyval \<Rightarrow> ('s, bool \<times> string) hw_act" where
  "require_local_vault_for_dsl venv user dsl = bnd (lift (privacy_policy dsl)) (\<lambda>p.
     if map_of p ''local_vault_required'' \<noteq> Some True \<and> map_of p ''zero_trust'' \<noteq> Some True then ret (True, [])
     else bnd (on_vault (gets (vault_initialized venv user))) (\<lambda>ready.
       if \<not> ready then ret (False, ''Initialize your local secrets vault before using this agent.'')
       else bnd (on_vault (is_unlocked venv user)) (\<lambda>unlocked.
         ret (if \<not> unlocked then (False, ''Local vault is locked. Enter your authenticator code to unlock.'') else (True, [])))))"

end
