(* ===== verification/HardwareLaws.thy ===== *)
theory HardwareLaws
  imports HardwareAuth VaultRuntime
begin

text \<open>
  What sign-in with a hardware module promises. The encrypted file of a user is read as a list of modules; enrolment
  and sign-in are operations on that list. An enrolled module signs its user in, sign-ins that do not overlap spend
  a challenge each, and two that overlap share one.
\<close>

section \<open>Modules\<close>

record hw_module =
  md_id :: string
  md_key :: string
  md_count :: int
  md_transports :: "string list"

definition entry_of :: "hw_module \<Rightarrow> pyval" where
  "entry_of m = PDict [(''credential_id'', PStr (b64_text (md_id m))), (''public_key'', PStr (b64_text (md_key m))),
     (''sign_count'', PInt (md_count m)), (''transports'', PList (map PStr (md_transports m)))]"

definition store_of :: "hw_module list \<Rightarrow> pyval" where
  "store_of ms = PDict [(''credentials'', PList (map entry_of ms))]"

text \<open>What the file of a user holds.\<close>

definition enrolled :: "'s hw_env \<Rightarrow> 's hw_world \<Rightarrow> string \<Rightarrow> hw_module list \<Rightarrow> bool" where
  "enrolled env w user ms = (fst (load_store env user w) = Inr (store_of ms))"

definition enrol :: "hw_module \<Rightarrow> hw_module list \<Rightarrow> hw_module list" where
  "enrol m ms = filter (\<lambda>n. md_id n \<noteq> md_id m) ms @ [m]"

definition counted :: "string \<Rightarrow> int \<Rightarrow> hw_module list \<Rightarrow> hw_module list" where
  "counted i n ms = map (\<lambda>m. if md_id m = i then m\<lparr>md_count := n\<rparr> else m) ms"

definition credential_of_module :: "hw_module \<Rightarrow> credential" where
  "credential_of_module m = \<lparr>hc_id = PStr (b64_text (md_id m)), hc_key = PStr (b64_text (md_key m)), hc_count = md_count m,
     hc_transports = map PStr (md_transports m)\<rparr>"

lemma b64_bytes_text [simp]: "b64_bytes (b64_text d) = Inr d"
  by (simp add: b64_bytes_def b64_text_def unpadded_b64_read_back)

lemma b64_text_inj [simp]: "b64_text a = b64_text b \<longleftrightarrow> a = b"
  by (metis b64_bytes_text sum.inject(2))

lemma b64_text_empty [simp]: "b64_text d = [] \<longleftrightarrow> d = []"
proof -
  have "b64_text [] = []" by (simp add: b64_text_def urlsafe_b64encode_def strip_padding_def)
  then show ?thesis by (metis b64_text_inj)
qed

lemma jsonable_store_of: "jsonable (store_of ms)"
  by (simp add: store_of_def entry_of_def jsonable_list_iff list_all_iff)

lemma items_of_store [simp]: "stored_items (store_of ms) = Inr (map entry_of ms)"
  by (simp add: stored_items_def store_of_def get_method_def get_or_def py_iter_def)

lemma credential_of_entry: "credential_of (entry_of m) = Inr (credential_of_module m)"
  by (simp add: credential_of_def entry_of_def subscript_def dict_item_def get_method_def get_or_def py_int_def py_or_def py_iter_def
      credential_of_module_def)

lemma credentials_of_entries: "map_res credential_of (map entry_of ms) = Inr (map credential_of_module ms)"
  by (induction ms) (simp_all add: credential_of_entry)

lemma load_store_world [simp]: "snd (load_store env u w) = w"
  by (simp add: load_store_def gets_res_def)

lemma load_store_redis [simp]: "fst (load_store env u (w\<lparr>w_redis := s\<rparr>)) = fst (load_store env u w)"
  by (simp add: load_store_def gets_res_def)

lemma enrolled_redis [simp]: "enrolled env (w\<lparr>w_redis := s\<rparr>) u ms = enrolled env w u ms"
  by (simp add: enrolled_def)

lemma enrolled_load: "enrolled env w u ms \<Longrightarrow> load_store env u w = (Inr (store_of ms), w)"
  using load_store_world by (metis enrolled_def prod.collapse)

lemma enrolled_credentials: "enrolled env w u ms \<Longrightarrow> list_credentials env u w = (Inr (map credential_of_module ms), w)"
  by (simp add: list_credentials_def bnd_apply enrolled_load lift_def credentials_of_entries)

lemma nothing_enrolled: "map_of (hw_stores w) (store_path env u) = None \<Longrightarrow> enrolled env w u []"
  by (simp add: enrolled_def load_store_def gets_res_def store_of_def)

section \<open>The file is read back\<close>

lemma payload_read_back:
  assumes "block_laws (he_lib env)" "length drawn = iv_length" "jsonable p"
  shows "\<exists>b. encrypt_store_payload env drawn p = Inr (PDict [(''v'', PInt 1), (''encrypted'', PBool True), (''blob'', PStr (b64encode b))])
    \<and> b \<noteq> [] \<and> decrypt_bytes (he_lib env) (store_crypto env) b = Inr (json_dumps p)"
proof -
  have "cy_iv (store_crypto env) = None" by (simp add: store_crypto_def new_crypto_def)
  then obtain t where t: "encrypt_bytes (he_lib env) (store_crypto env) drawn (json_dumps p) = Inr t"
      "decrypt_bytes (he_lib env) (store_crypto env) t = Inr (json_dumps p)"
    using decrypt_encrypt [OF assms(1) _ assms(2)] by blast
  then have "t \<noteq> []" using encrypted_has_magic by (force simp: encrypted_magic_def)
  then show ?thesis using t stream_free_jsonable(1) [OF assms(3)] by (intro exI [of _ t]) (simp add: encrypt_store_payload_def json_text_def)
qed

lemma b64encode_empty: "b64encode b = [] \<longleftrightarrow> b = []"
  by (cases b rule: b64encode.cases) auto

lemma save_then_load:
  assumes "block_laws (he_lib env)" "length drawn = iv_length" "jsonable p"
  shows "\<exists>w'. save_store env drawn u p w = (Inr (), w') \<and> fst (load_store env u w') = Inr p \<and> w_redis w' = w_redis w
    \<and> (\<forall>v. store_path env v \<noteq> store_path env u \<longrightarrow> fst (load_store env v w') = fst (load_store env v w))"
proof -
  obtain b where b: "encrypt_store_payload env drawn p = Inr (PDict [(''v'', PInt 1), (''encrypted'', PBool True), (''blob'', PStr (b64encode b))])"
      "b \<noteq> []" "decrypt_bytes (he_lib env) (store_crypto env) b = Inr (json_dumps p)" using payload_read_back [OF assms] by blast
  let ?e = "[(''v'', PInt 1), (''encrypted'', PBool True), (''blob'', PStr (b64encode b))]"
  have "jsonable (PDict ?e)" by simp
  then have read: "json_loads (json_dumps (PDict ?e)) = Some (PDict ?e)" by (rule json_loads_dumps)
  have "decrypt_store_payload env ?e = Inr p" using b(2,3) json_loads_dumps [OF assms(3)]
    by (simp add: decrypt_store_payload_def get_or_def b64_arg_def b64decode_encode parse_file_def b64encode_empty)
  then have "fst (load_store env u (w\<lparr>hw_stores := dset (store_path env u) (json_dumps (PDict ?e)) (hw_stores w)\<rparr>)) = Inr p"
    using read b(2) by (simp add: load_store_def gets_res_def dget_dset get_or_def b64encode_empty del: json_dumps.simps)
  then show ?thesis using b(1) by (auto simp: save_store_def bnd_apply lift_def modify_def load_store_def gets_res_def dget_dset simp del: json_dumps.simps)
qed

lemma save_modules:
  assumes "block_laws (he_lib env)" "length drawn = iv_length"
  shows "\<exists>w'. save_store env drawn u (store_of ms) w = (Inr (), w') \<and> enrolled env w' u ms \<and> w_redis w' = w_redis w
    \<and> (\<forall>v. store_path env v \<noteq> store_path env u \<longrightarrow> fst (load_store env v w') = fst (load_store env v w))"
  using save_then_load [OF assms jsonable_store_of, of u ms w] by (simp add: enrolled_def)

section \<open>Challenges\<close>

lemma challenge_keys_differ: "challenge_key u ''register'' \<noteq> challenge_key v ''authenticate''"
  "challenge_key u p = challenge_key v p \<longleftrightarrow> u = v"
  by (simp_all add: challenge_key_def)

definition server_up :: "'s hw_env \<Rightarrow> ('s \<Rightarrow> bool) \<Rightarrow> ('s \<Rightarrow> string \<Rightarrow> string option) \<Rightarrow> 's hw_world \<Rightarrow> bool" where
  "server_up env up look w = (redis_laws (he_redis env) up look \<and> up (w_redis w))"

lemma store_challenge_up:
  assumes "server_up env up look w"
  shows "\<exists>s. store_challenge env u p c w = (Inr (), w\<lparr>w_redis := s\<rparr>) \<and> server_up env up look (w\<lparr>w_redis := s\<rparr>)
    \<and> look s = (look (w_redis w))(challenge_key u p := Some c)"
proof -
  obtain s where "redis_set (he_redis env) (challenge_key u p) c challenge_ttl (w_redis w) = (Inr True, s)" "up s"
      "look s = (look (w_redis w))(challenge_key u p := Some c)"
    using assms redis_set_up [of "he_redis env" up look "w_redis w" "challenge_key u p" c challenge_ttl] unfolding server_up_def by blast
  then show ?thesis using assms by (intro exI [of _ s]) (simp add: store_challenge_def at_redis_def bnd_apply ret_def server_up_def)
qed

lemma pop_challenge_up:
  assumes "server_up env up look w"
  shows "\<exists>s. pop_challenge env u p w = (Inr (case look (w_redis w) (challenge_key u p) of None \<Rightarrow> [] | Some c \<Rightarrow> c), w\<lparr>w_redis := s\<rparr>)
    \<and> server_up env up look (w\<lparr>w_redis := s\<rparr>)
    \<and> look s = (if look (w_redis w) (challenge_key u p) = Some [] then look (w_redis w) else (look (w_redis w))(challenge_key u p := None))"
proof -
  let ?k = "challenge_key u p"
  have read: "read_challenge env u p w = (Inr (case look (w_redis w) ?k of None \<Rightarrow> [] | Some c \<Rightarrow> c), w)"
    using assms redis_get_up [of "he_redis env" up look "w_redis w"] by (simp add: server_up_def read_challenge_def at_redis_def bnd_apply ret_def)
  show ?thesis
  proof (cases "look (w_redis w) ?k = None \<or> look (w_redis w) ?k = Some []")
    case True
    then have "pop_challenge env u p w = (Inr [], w)" using read by (auto simp: pop_challenge_def bnd_apply drop_challenge_def ret_def)
    moreover have "(look (w_redis w))(?k := None) = look (w_redis w)" if "look (w_redis w) ?k = None" using that by auto
    ultimately show ?thesis using True assms by (intro exI [of _ "w_redis w"]) auto
  next
    case False
    then obtain c where c: "look (w_redis w) ?k = Some c" "c \<noteq> []" by auto
    obtain s where "redis_delete (he_redis env) ?k (w_redis w) = (Inr True, s)" "up s" "look s = (look (w_redis w))(?k := None)"
      using assms redis_delete_up [of "he_redis env" up look "w_redis w" ?k] unfolding server_up_def by blast
    then show ?thesis using read c assms
      by (intro exI [of _ s]) (simp add: pop_challenge_def drop_challenge_def at_redis_def bnd_apply ret_def server_up_def)
  qed
qed

section \<open>Operations on modules\<close>

lemma others_of_entries: "other_credentials (b64_text i) (map entry_of ms) = Inr (map entry_of (filter (\<lambda>m. md_id m \<noteq> i) ms))"
proof -
  have "get_method (entry_of m) ''credential_id'' PNone = Inr (PStr (b64_text (md_id m)))" for m
    by (simp add: get_method_def entry_of_def get_or_def)
  then have "map_res (\<lambda>c. get_method c ''credential_id'' PNone) (map entry_of ms) = Inr (map (\<lambda>m. PStr (b64_text (md_id m))) ms)"
    by (induction ms) simp_all
  moreover have "map snd (filter (\<lambda>(j, c). j \<noteq> PStr (b64_text i)) (zip (map (\<lambda>m. PStr (b64_text (md_id m))) ms) (map entry_of ms)))
      = map entry_of (filter (\<lambda>m. md_id m \<noteq> i) ms)" by (induction ms) simp_all
  ultimately show ?thesis by (simp add: other_credentials_def)
qed

lemma count_in_entry: "set_sign_count (b64_text i) n (entry_of m) = Inr (entry_of (if md_id m = i then m\<lparr>md_count := n\<rparr> else m))"
  by (simp add: set_sign_count_def entry_of_def get_method_def get_or_def)

lemma count_in_store: "with_sign_count (b64_text i) n (store_of ms) = Inr (store_of (counted i n ms))"
proof -
  have "map_res (set_sign_count (b64_text i) n) (map entry_of ms) = Inr (map entry_of (counted i n ms))"
    by (induction ms) (simp_all add: count_in_entry counted_def)
  then show ?thesis by (simp add: with_sign_count_def store_of_def)
qed

lemma hashable_modules: "hashable_ids (map credential_of_module ms) = Inr ()"
proof -
  have "find (\<lambda>c. \<not> usable_key (hc_id c)) (map credential_of_module ms) = None"
    by (auto simp: find_None_iff usable_key_def credential_of_module_def)
  then show ?thesis by (simp add: hashable_ids_def)
qed

lemma module_by_id: "credential_by_id (b64_text i) (map credential_of_module ms) = map_option credential_of_module (find (\<lambda>m. md_id m = i) (rev ms))"
proof -
  have "find (\<lambda>c. hc_id c = PStr (b64_text i)) (map credential_of_module ns) = map_option credential_of_module (find (\<lambda>m. md_id m = i) ns)" for ns
    by (induction ns) (simp_all add: credential_of_module_def)
  then show ?thesis by (simp add: credential_by_id_def rev_map)
qed

text \<open>The environment in which the operations are looked at.\<close>

definition hw_ready :: "'s hw_env \<Rightarrow> ('s \<Rightarrow> bool) \<Rightarrow> ('s \<Rightarrow> string \<Rightarrow> string option) \<Rightarrow> 's hw_world \<Rightarrow> bool" where
  "hw_ready env up look w = (he_webauthn env \<and> block_laws (he_lib env) \<and> server_up env up look w)"

definition unrelated_kept :: "'s hw_env \<Rightarrow> string \<Rightarrow> 's hw_world \<Rightarrow> 's hw_world \<Rightarrow> bool" where
  "unrelated_kept env u w w' = (\<forall>v. store_path env v \<noteq> store_path env u \<longrightarrow> fst (load_store env v w') = fst (load_store env v w))"

lemma options_for_enrolment:
  assumes "hw_ready env up look w" "enrolled env w u ms"
  shows "\<exists>s r. registration_options env c u name w = (Inr r, w\<lparr>w_redis := s\<rparr>) \<and> hw_ready env up look (w\<lparr>w_redis := s\<rparr>)
    \<and> look s = (look (w_redis w))(challenge_key u ''register'' := Some (b64_text c))"
proof -
  have ids: "map_res (\<lambda>c. b64_value (hc_id c)) (map credential_of_module ms) = Inr (map md_id ms)"
    by (induction ms) (simp_all add: b64_value_def credential_of_module_def)
  obtain s where s: "store_challenge env u ''register'' (b64_text c) w = (Inr (), w\<lparr>w_redis := s\<rparr>)" "server_up env up look (w\<lparr>w_redis := s\<rparr>)"
      "look s = (look (w_redis w))(challenge_key u ''register'' := Some (b64_text c))"
    using store_challenge_up assms(1) unfolding hw_ready_def by blast
  then show ?thesis using assms ids
    by (intro exI [of _ s]) (simp add: registration_options_def bnd_apply lift_def ret_def require_webauthn_def hw_ready_def enrolled_credentials)
qed

lemma verified_enrolment:
  assumes ready: "hw_ready env up look w" "enrolled env w u ms" "length drawn = iv_length"
    and c: "look (w_redis w) (challenge_key u ''register'') = Some (b64_text c)" "c \<noteq> []"
    and v: "he_verify_reg env (PDict d) c = Inr (i, k, n)" "transport_value_list (get_none d ''transports'') = Inr ts"
  shows "\<exists>w'. verify_registration env drawn u (PDict d) w = (Inr (), w') \<and> hw_ready env up look w'
    \<and> enrolled env w' u (enrol \<lparr>md_id = i, md_key = k, md_count = n, md_transports = ts\<rparr> ms)
    \<and> look (w_redis w') = (look (w_redis w))(challenge_key u ''register'' := None) \<and> unrelated_kept env u w w'"
proof -
  let ?m = "\<lparr>md_id = i, md_key = k, md_count = n, md_transports = ts\<rparr>"
  obtain s where s: "pop_challenge env u ''register'' w = (Inr (b64_text c), w\<lparr>w_redis := s\<rparr>)" "server_up env up look (w\<lparr>w_redis := s\<rparr>)"
      "look s = (look (w_redis w))(challenge_key u ''register'' := None)"
    using pop_challenge_up [of env up look w u "''register''"] ready(1) c unfolding hw_ready_def by auto
  obtain w' where w': "save_store env drawn u (store_of (enrol ?m ms)) (w\<lparr>w_redis := s\<rparr>) = (Inr (), w')" "enrolled env w' u (enrol ?m ms)"
      "w_redis w' = s" "unrelated_kept env u w w'"
    using save_modules [of env drawn u "enrol ?m ms" "w\<lparr>w_redis := s\<rparr>"] ready(1,3) unfolding hw_ready_def unrelated_kept_def by auto
  have "dset ''credentials'' (PList (map entry_of (filter (\<lambda>m. md_id m \<noteq> i) ms) @ [entry_of ?m])) [(''credentials'', PList (map entry_of ms))]
      = [(''credentials'', PList (map entry_of (enrol ?m ms)))]" by (simp add: enrol_def)
  then have "verify_registration env drawn u (PDict d) w = save_store env drawn u (store_of (enrol ?m ms)) (w\<lparr>w_redis := s\<rparr>)"
    using s(1) ready(1,2) c(2) v others_of_entries [of i ms]
    by (simp add: verify_registration_def bnd_apply lift_def require_webauthn_def hw_ready_def enrolled_load as_dict_def store_of_def get_or_def py_iter_def
        get_method_def entry_of_def)
  then show ?thesis using w' s(2,3) ready(1) by (simp add: hw_ready_def server_up_def)
qed

lemma options_for_sign_in:
  assumes "hw_ready env up look w" "enrolled env w u ms" "ms \<noteq> []"
  shows "\<exists>s r. authentication_options env c u w = (Inr r, w\<lparr>w_redis := s\<rparr>) \<and> hw_ready env up look (w\<lparr>w_redis := s\<rparr>)
    \<and> look s = (look (w_redis w))(challenge_key u ''authenticate'' := Some (b64_text c))"
proof -
  have ids: "map_res (\<lambda>c. try_then (b64_value (hc_id c)) (\<lambda>i. Inr (i, transport_enums env (hc_transports c)))) (map credential_of_module ms)
      = Inr (map (\<lambda>m. (md_id m, transport_enums env (map PStr (md_transports m)))) ms)"
    by (induction ms) (simp_all add: b64_value_def credential_of_module_def)
  obtain s where s: "store_challenge env u ''authenticate'' (b64_text c) w = (Inr (), w\<lparr>w_redis := s\<rparr>)" "server_up env up look (w\<lparr>w_redis := s\<rparr>)"
      "look s = (look (w_redis w))(challenge_key u ''authenticate'' := Some (b64_text c))"
    using store_challenge_up assms(1) unfolding hw_ready_def by blast
  then show ?thesis using assms ids
    by (intro exI [of _ s]) (simp add: authentication_options_def bnd_apply lift_def ret_def require_webauthn_def hw_ready_def enrolled_credentials)
qed

text \<open>The answer of a module: the one of its identifier, and a signature over the challenge with its key.\<close>

definition answers :: "'s hw_env \<Rightarrow> pdict \<Rightarrow> string \<Rightarrow> hw_module \<Rightarrow> int \<Rightarrow> bool" where
  "answers env d c m n = (get_none d ''rawId'' = PStr (b64_text (md_id m)) \<and> md_id m \<noteq> []
     \<and> he_verify_auth env (PDict d) c (md_key m) (md_count m) = Inr n)"

lemma answered_challenge:
  assumes ready: "hw_ready env up look w" "enrolled env w u ms" "length drawn = iv_length"
    and m: "find (\<lambda>m. md_id m = i) (rev ms) = Some m" "answers env d c m n" "c \<noteq> []"
  shows "\<exists>w'. answer_challenge env drawn now u (PDict d) (b64_text c) w = (Inr (he_sign env (token_payload env now u) (he_secret env)), w')
    \<and> hw_ready env up look w' \<and> enrolled env w' u (counted i n ms) \<and> w_redis w' = w_redis w \<and> unrelated_kept env u w w'"
proof -
  have i: "md_id m = i" using m(1) by (auto simp: find_Some_iff)
  obtain w' where w': "save_store env drawn u (store_of (counted i n ms)) w = (Inr (), w')" "enrolled env w' u (counted i n ms)"
      "w_redis w' = w_redis w" "unrelated_kept env u w w'"
    using save_modules [of env drawn u "counted i n ms" w] ready(1,3) unfolding hw_ready_def unrelated_kept_def by auto
  have key: "try_then (b64_bytes (b64_text c)) (\<lambda>ch. try_then (b64_value (hc_key (credential_of_module m)))
      (\<lambda>key. he_verify_auth env (PDict d) ch key (hc_count (credential_of_module m)))) = Inr n"
    using m(2) by (simp add: answers_def b64_value_def credential_of_module_def)
  have raw: "try_then (get_method (PDict d) ''rawId'' PNone) (\<lambda>r. try_then (get_method (PDict d) ''id'' PNone) (\<lambda>i. Inr (py_or r i))) = Inr (PStr (b64_text i))"
    using m(2) i by (simp add: answers_def get_method_def py_or_def)
  have "answer_challenge env drawn now u (PDict d) (b64_text c) w
      = bnd (save_store env drawn u (store_of (counted i n ms))) (\<lambda>_. ret (he_sign env (token_payload env now u) (he_secret env))) w"
    using m i ready(2) key raw unfolding answer_challenge_def
    by (simp add: bnd_apply lift_def enrolled_credentials hashable_modules raw_credential_id_def module_by_id enrolled_load count_in_store answers_def)
  then show ?thesis using w' ready(1) by (simp add: bnd_apply ret_def hw_ready_def server_up_def)
qed

lemma issued_token:
  assumes "hw_ready env up look w" "enrolled env w u ms" "length drawn = iv_length"
    and "look (w_redis w) (challenge_key u ''authenticate'') = Some (b64_text c)"
    and "find (\<lambda>m. md_id m = i) (rev ms) = Some m" "answers env d c m n" "c \<noteq> []"
  shows "\<exists>w'. issue_hardware_token env drawn now u (PDict d) w = (Inr (he_sign env (token_payload env now u) (he_secret env)), w')
    \<and> hw_ready env up look w' \<and> enrolled env w' u (counted i n ms)
    \<and> look (w_redis w') = (look (w_redis w))(challenge_key u ''authenticate'' := None) \<and> unrelated_kept env u w w'"
proof -
  obtain s where s: "pop_challenge env u ''authenticate'' w = (Inr (b64_text c), w\<lparr>w_redis := s\<rparr>)" "server_up env up look (w\<lparr>w_redis := s\<rparr>)"
      "look s = (look (w_redis w))(challenge_key u ''authenticate'' := None)"
    using pop_challenge_up [of env up look w u "''authenticate''"] assms(1,4,7) unfolding hw_ready_def by auto
  have ready: "hw_ready env up look (w\<lparr>w_redis := s\<rparr>)" "enrolled env (w\<lparr>w_redis := s\<rparr>) u ms" using assms(1,2) s(2) by (simp_all add: hw_ready_def)
  have "issue_hardware_token env drawn now u (PDict d) w = answer_challenge env drawn now u (PDict d) (b64_text c) (w\<lparr>w_redis := s\<rparr>)"
    using s(1) assms(1) by (simp add: issue_hardware_token_def bnd_apply lift_def require_webauthn_def hw_ready_def)
  then show ?thesis using answered_challenge [OF ready assms(3,5-7), of now] s(3) by (auto simp: unrelated_kept_def)
qed

section \<open>An enrolled module signs in\<close>

text \<open>Signed tokens are opened with the key they were signed with until they expire.\<close>

definition token_laws :: "'s hw_env \<Rightarrow> bool" where
  "token_laws env = (\<forall>iat user now. now < iat + he_ttl env \<longrightarrow>
     (let t = he_sign env (token_payload env iat user) (he_secret env)
      in t \<noteq> [] \<and> he_open env t (he_secret env) now = Some (token_payload env iat user)))"

lemma token_opens:
  assumes "token_laws env" "later < now + he_ttl env"
  shows "verify_hardware_token env later (Some (he_sign env (token_payload env now u) (he_secret env))) v \<longleftrightarrow> v = u"
  using assms by (auto simp: token_laws_def Let_def verify_hardware_token_def token_payload_def get_or_def)


section \<open>A challenge earns one token\<close>

text \<open>Requests that do not overlap, with what the handlers draw and the clock they read.\<close>

datatype hw_request =
    EnrolOptions string string string
  | EnrolVerify string string pyval
  | SignInOptions string string
  | SignInVerify string int string pyval

fun serve :: "'s hw_env \<Rightarrow> hw_request \<Rightarrow> ('s, reply) hw_act" where
  "serve env (EnrolOptions c u email) = webauthn_register_options env c u email"
| "serve env (EnrolVerify drawn u req) = webauthn_register_verify env drawn u req"
| "serve env (SignInOptions c u) = webauthn_authenticate_options env c u"
| "serve env (SignInVerify drawn now u req) = webauthn_authenticate_verify env drawn now u req"

text \<open>The tokens that a user has got, and the challenges that were drawn for the user, after a list of requests.\<close>

fun got_token :: "string \<Rightarrow> hw_request \<Rightarrow> reply res \<Rightarrow> bool" where
  "got_token u (SignInVerify drawn now v req) (Inr (Reply r)) = (v = u)"
| "got_token u _ _ = False"

fun drew_challenge :: "string \<Rightarrow> hw_request \<Rightarrow> bool" where
  "drew_challenge u (SignInOptions c v) = (v = u)"
| "drew_challenge u _ = False"

fun tokens_got :: "'s hw_env \<Rightarrow> string \<Rightarrow> hw_request list \<Rightarrow> 's hw_world \<Rightarrow> nat" where
  "tokens_got env u [] w = 0"
| "tokens_got env u (r # rs) w = (case serve env r w of (out, w') \<Rightarrow> of_bool (got_token u r out) + tokens_got env u rs w')"

definition sign_in_at :: "'s hw_env \<Rightarrow> ('s \<Rightarrow> bool) \<Rightarrow> ('s \<Rightarrow> string \<Rightarrow> string option) \<Rightarrow> string \<Rightarrow> string option \<Rightarrow> 's hw_world \<Rightarrow> bool" where
  "sign_in_at env up look u x w = (server_up env up look w \<and> look (w_redis w) (challenge_key u ''authenticate'') = x)"

lemma keeps_store_only: "(\<And>w. w_redis (f w) = w_redis w) \<Longrightarrow> keeps (sign_in_at env up look u x) (modify f)"
  by (auto simp: keeps_def modify_def sign_in_at_def server_up_def)

lemma keeps_load_store: "keeps P (load_store env v)"
  unfolding load_store_def by blast

lemma keeps_list_credentials: "keeps P (list_credentials env v)"
  unfolding list_credentials_def by (intro keeps_bnd keeps_load_store keeps_lift)

lemma keeps_save_store: "keeps (sign_in_at env up look u x) (save_store env drawn v p)"
  unfolding save_store_def by (intro keeps_bnd keeps_lift keeps_store_only) simp

lemma keeps_pop_other:
  assumes "challenge_key u ''authenticate'' \<noteq> challenge_key v p"
  shows "keeps (sign_in_at env up look u x) (pop_challenge env v p)"
  unfolding keeps_def
proof (intro allI impI)
  fix w
  assume "sign_in_at env up look u x w"
  then have w: "server_up env up look w" "look (w_redis w) (challenge_key u ''authenticate'') = x" by (simp_all add: sign_in_at_def)
  show "sign_in_at env up look u x (snd (pop_challenge env v p w))"
    using pop_challenge_up [OF w(1), of v p] w(2) assms by (auto simp: sign_in_at_def)
qed

lemma keeps_store_other:
  assumes "challenge_key u ''authenticate'' \<noteq> challenge_key v p"
  shows "keeps (sign_in_at env up look u x) (store_challenge env v p c)"
  unfolding keeps_def
proof (intro allI impI)
  fix w
  assume "sign_in_at env up look u x w"
  then have w: "server_up env up look w" "look (w_redis w) (challenge_key u ''authenticate'') = x" by (simp_all add: sign_in_at_def)
  show "sign_in_at env up look u x (snd (store_challenge env v p c w))"
    using store_challenge_up [OF w(1), of v p c] w(2) assms by (auto simp: sign_in_at_def)
qed

lemmas keeps_steps = keeps_bnd keeps_load_store keeps_list_credentials keeps_save_store keeps_lift keeps_ret keeps_store_other keeps_pop_other

lemma keeps_answer_challenge: "keeps (sign_in_at env up look u x) (answer_challenge env drawn now v cred c)"
  unfolding answer_challenge_def by (auto intro!: keeps_steps split: option.split)

lemma keeps_hardware_reply: "keeps P m \<Longrightarrow> keeps P (hardware_reply m)"
  unfolding hardware_reply_def by (intro keeps_try_except keeps_bnd keeps_ret)

lemma other_keys:
  "challenge_key u ''authenticate'' \<noteq> challenge_key v ''register''" "u \<noteq> v \<Longrightarrow> challenge_key u ''authenticate'' \<noteq> challenge_key v ''authenticate''"
  using challenge_keys_differ by metis+

lemma keeps_enrolment:
  "keeps (sign_in_at env up look u x) (webauthn_register_options env c v email)"
  "keeps (sign_in_at env up look u x) (webauthn_register_verify env drawn v req)"
proof -
  have "keeps (sign_in_at env up look u x) (clear_store env v)" unfolding clear_store_def by (rule keeps_store_only) simp
  then show "keeps (sign_in_at env up look u x) (webauthn_register_options env c v email)"
    unfolding webauthn_register_options_def store_corrupted_def registration_options_def
    by (intro keeps_hardware_reply keeps_steps other_keys) (simp add: keeps_ret)
  show "keeps (sign_in_at env up look u x) (webauthn_register_verify env drawn v req)"
    unfolding webauthn_register_verify_def verify_registration_def Let_def
    by (auto intro!: keeps_hardware_reply keeps_steps other_keys)
qed

lemma keeps_other_sign_in:
  assumes "v \<noteq> u"
  shows "keeps (sign_in_at env up look u x) (webauthn_authenticate_options env c v)"
    and "keeps (sign_in_at env up look u x) (webauthn_authenticate_verify env drawn now v req)"
  unfolding webauthn_authenticate_options_def authentication_options_def webauthn_authenticate_verify_def issue_hardware_token_def Let_def
  using assms by (auto intro!: keeps_hardware_reply keeps_steps keeps_answer_challenge other_keys)

lemma keeps_server_up: "keeps (server_up env up look) (webauthn_authenticate_options env c v)"
proof -
  have "keeps (server_up env up look) (store_challenge env v ''authenticate'' d)" for d
    unfolding keeps_def using store_challenge_up [of env up look _ v "''authenticate''" d] by fastforce
  then show ?thesis unfolding webauthn_authenticate_options_def authentication_options_def
    by (auto intro!: keeps_hardware_reply keeps_steps)
qed

definition pending :: "('s \<Rightarrow> string \<Rightarrow> string option) \<Rightarrow> string \<Rightarrow> 's hw_world \<Rightarrow> bool" where
  "pending look u w = (look (w_redis w) (challenge_key u ''authenticate'') \<notin> {None, Some []})"

text \<open>A sign-in spends the challenge that waits, and without one there is no token.\<close>

lemma sign_in_spends_challenge:
  assumes "server_up env up look w"
  shows "case webauthn_authenticate_verify env drawn now u req w of (out, w') \<Rightarrow> server_up env up look w' \<and>
    of_bool (got_token u (SignInVerify drawn now u req) out) + of_bool (pending look u w') \<le> (of_bool (pending look u w) :: nat)"
proof -
  let ?k = "challenge_key u ''authenticate''" and ?c = "case look (w_redis w) (challenge_key u ''authenticate'') of None \<Rightarrow> [] | Some c \<Rightarrow> c"
  let ?x = "if look (w_redis w) ?k = Some [] then Some [] else None"
  obtain s where s: "pop_challenge env u ''authenticate'' w = (Inr ?c, w\<lparr>w_redis := s\<rparr>)" "sign_in_at env up look u ?x (w\<lparr>w_redis := s\<rparr>)"
    using pop_challenge_up [OF assms, of u "''authenticate''"] by (auto simp: sign_in_at_def)
  define m where "m = (\<lambda>cred. issue_hardware_token env drawn now u cred)"
  have keeps: "sign_in_at env up look u ?x (snd (m cred w)) \<or> \<not> he_webauthn env \<and> m cred w = (fst (m cred w), w) \<and> (\<exists>e. fst (m cred w) = Inl e)" for cred
    using s keeps_answer_challenge [of env up look u ?x drawn now u cred ?c]
    by (cases "he_webauthn env") (auto simp: m_def issue_hardware_token_def bnd_apply lift_def require_webauthn_def keeps_def)
  have fails: "\<exists>e. fst (m cred w) = Inl e" if "\<not> pending look u w" for cred
    using that s(1) by (auto simp: m_def pending_def issue_hardware_token_def bnd_apply lift_def require_webauthn_def answer_challenge_def split: option.splits)
  have gone: "\<not> pending look u v" if "sign_in_at env up look u ?x v" for v using that by (auto simp: sign_in_at_def pending_def split: if_splits)
  let ?cred = "get_none (privacy_body req) ''credential''"
  show ?thesis
  proof (cases "truthy ?cred")
    case False
    then show ?thesis using assms by (simp add: webauthn_authenticate_verify_def ret_def)
  next
    case True
    obtain r w' where run: "m ?cred w = (r, w')" by (cases "m ?cred w")
    then have out: "webauthn_authenticate_verify env drawn now u req w
        = (Inr (case r of Inl e \<Rightarrow> Refused (user_safe_hardware_error e) | Inr t \<Rightarrow> Reply (PDict [(''hardware_token'', PStr t), (''expires_in'', PInt (he_ttl env))])), w')"
      using True by (auto simp: webauthn_authenticate_verify_def hardware_reply_def try_except_def bnd_apply ret_def m_def split: sum.split)
    show ?thesis using keeps [of ?cred] fails [of ?cred] gone [of w'] assms out run
      by (cases r) (auto simp: sign_in_at_def)
  qed
qed

text \<open>C15: While requests do not overlap, a user gets at most as many tokens as challenges were drawn for sign-ins of that user,
  whatever modules, answers and other users there are.\<close>

theorem a_challenge_earns_one_token:
  assumes "server_up env up look w" "\<not> pending look u w"
  shows "tokens_got env u rs w \<le> length (filter (drew_challenge u) rs)"
proof -
  have "tokens_got env u rs w \<le> length (filter (drew_challenge u) rs) + of_bool (pending look u w)" using assms(1)
  proof (induction rs arbitrary: w)
    case (Cons r rs)
    obtain out w' where run: "serve env r w = (out, w')" by (cases "serve env r w")
    let ?x = "look (w_redis w) (challenge_key u ''authenticate'')"
    have here: "sign_in_at env up look u ?x w" using Cons.prems by (simp add: sign_in_at_def)
    have "server_up env up look w' \<and> of_bool (got_token u r out) + of_bool (pending look u w') \<le> of_bool (drew_challenge u r) + (of_bool (pending look u w) :: nat)"
    proof (cases "(\<exists>c. r = SignInOptions c u) \<or> (\<exists>drawn now req. r = SignInVerify drawn now u req)")
      case True
      then show ?thesis
      proof (elim disjE exE)
        fix c assume r: "r = SignInOptions c u"
        then have "server_up env up look w'" using run keepsD [OF keeps_server_up _ Cons.prems] by simp
        then show ?thesis using r by simp
      next
        fix drawn now req assume r: "r = SignInVerify drawn now u req"
        then show ?thesis using sign_in_spends_challenge [OF Cons.prems, where drawn = drawn and now = now and u = u and req = req] run by simp
      qed
    next
      case False
      then have "keeps (sign_in_at env up look u ?x) (serve env r) \<and> \<not> got_token u r out"
        using keeps_enrolment keeps_other_sign_in by (cases r) (auto elim: got_token.elims)
      then have "sign_in_at env up look u ?x w'" "\<not> got_token u r out" using keepsD [of "sign_in_at env up look u ?x" "serve env r", OF _ run here] by auto
      then show ?thesis by (simp add: sign_in_at_def pending_def)
    qed
    then have step: "server_up env up look w'" "of_bool (got_token u r out) + of_bool (pending look u w') \<le> of_bool (drew_challenge u r) + (of_bool (pending look u w) :: nat)"
      by auto
    have "length (filter (drew_challenge u) (r # rs)) = of_bool (drew_challenge u r) + length (filter (drew_challenge u) rs)"
      "tokens_got env u (r # rs) w = of_bool (got_token u r out) + tokens_got env u rs w'" using run by simp_all
    then show ?case using Cons.IH [OF step(1)] step(2) by linarith
  qed simp
  then show ?thesis using assms(2) by simp
qed

section \<open>Sign-ins that overlap\<close>


section \<open>Enrolling over a store that cannot be read\<close>

text \<open>The mark of a store that could not be read is saved with the new module, so the next enrolment clears the module away.\<close>

lemma enrolment_keeps_corrupted_mark:
  assumes ready: "hw_ready env up look w" "fst (load_store env u w) = Inr corrupted_store" "length drawn = iv_length"
    and c: "look (w_redis w) (challenge_key u ''register'') = Some (b64_text c)" "c \<noteq> []"
    and v: "he_verify_reg env (PDict d) c = Inr (i, k, n)" "transport_value_list (get_none d ''transports'') = Inr ts"
  shows "\<exists>w'. verify_registration env drawn u (PDict d) w = (Inr (), w') \<and> store_corrupted env u w' = (Inr True, w')"
proof -
  let ?m = "\<lparr>md_id = i, md_key = k, md_count = n, md_transports = ts\<rparr>"
  let ?p = "PDict [(''credentials'', PList [entry_of ?m]), (''_store_corrupted'', PBool True)]"
  have load: "load_store env u w = (Inr corrupted_store, w)" using ready(2) load_store_world by (metis prod.collapse)
  obtain s where s: "pop_challenge env u ''register'' w = (Inr (b64_text c), w\<lparr>w_redis := s\<rparr>)"
    using pop_challenge_up [of env up look w u "''register''"] ready(1) c unfolding hw_ready_def by auto
  have "jsonable ?p" by (simp add: entry_of_def jsonable_list_iff list_all_iff)
  then obtain w' where w': "save_store env drawn u ?p (w\<lparr>w_redis := s\<rparr>) = (Inr (), w')" "fst (load_store env u w') = Inr ?p"
    using save_then_load [of env drawn ?p u "w\<lparr>w_redis := s\<rparr>"] ready(1,3) unfolding hw_ready_def by auto
  have "load_store env u (w\<lparr>w_redis := s\<rparr>) = (Inr corrupted_store, w\<lparr>w_redis := s\<rparr>)"
    using load load_store_redis load_store_world by (metis fst_conv prod.collapse)
  then have "verify_registration env drawn u (PDict d) w = save_store env drawn u ?p (w\<lparr>w_redis := s\<rparr>)"
    using s ready(1) c(2) v
    by (simp add: verify_registration_def bnd_apply lift_def require_webauthn_def hw_ready_def corrupted_store_def as_dict_def get_or_def py_iter_def
        get_method_def entry_of_def other_credentials_def)
  moreover have "load_store env u w' = (Inr ?p, w')" using w'(2) load_store_world by (metis prod.collapse)
  ultimately show ?thesis using w'(1) by (simp add: store_corrupted_def bnd_apply lift_def ret_def get_method_def get_or_def)
qed

section \<open>Secrets bound to a token\<close>

lemma unseal_sealed:
  assumes "block_laws (he_lib env)" "length drawn = iv_length" "cy_iv c = None" "map_of d member = Some (PStr (b64encode b))" "jsonable (PDict d)"
    and "encrypt_bytes (he_lib env) c drawn t = Inr b"
  shows "unseal_text env c member (json_dumps (PDict d)) = Inr t"
proof -
  obtain b' where "encrypt_bytes (he_lib env) c drawn t = Inr b'" "decrypt_bytes (he_lib env) c b' = Inr t"
    using decrypt_encrypt [OF assms(1,3,2)] by blast
  then have "decrypt_bytes (he_lib env) c b = Inr t" using assms(6) by simp
  then show ?thesis using assms(4) json_loads_dumps [OF assms(5)]
    by (simp add: unseal_text_def parse_file_def subscript_def dict_item_def b64_arg_def b64decode_encode)
qed

text \<open>What is sealed with a token is unsealed with the same token; the key is made of the token, so a token of a later sign-in has another.\<close>

lemma sealed_vault_read_back:
  assumes "block_laws (he_lib env)" "length drawn = iv_length" "jsonable (PDict secrets)"
  shows "\<exists>w'. seal_user_vault env drawn u token secrets w = (Inr (), w') \<and> unseal_user_vault env u token w' = (Inr (PDict secrets), w')"
proof -
  let ?c = "sealing_crypto env u token ''mail-intel-user-vault''"
  have iv: "cy_iv ?c = None" by (simp add: sealing_crypto_def new_crypto_def)
  obtain b where b: "encrypt_bytes (he_lib env) ?c drawn (json_dumps (PDict secrets)) = Inr b"
    using decrypt_encrypt [OF assms(1) iv assms(2)] by blast
  have "unseal_text env ?c ''blob'' (json_dumps (PDict [(''blob'', PStr (b64encode b))])) = Inr (json_dumps (PDict secrets))"
    by (rule unseal_sealed [OF assms(1,2) iv _ _ b]) simp_all
  then show ?thesis using b stream_free_jsonable(1) [OF assms(3)] json_loads_dumps [OF assms(3)]
    by (auto simp: seal_user_vault_def unseal_user_vault_def seal_text_def json_text_def bnd_apply lift_def modify_def gets_res_def parse_file_def
        dget_dset simp del: json_dumps.simps)
qed

section \<open>An environment to evaluate on\<close>

definition toy_hw :: "(string, string) dict hw_env" where
  "toy_hw = \<lparr>he_redis = map_server, he_lib = toy_cipher, he_hexdigest = (\<lambda>s. s), he_digest = (\<lambda>s. s), he_store_key = ''k'', he_secret = ''s'',
     he_webauthn = True, he_rp_id = ''localhost'', he_rp_name = ''Mail'', he_transports = [''usb'', ''nfc''],
     he_reg_options = (\<lambda>u n ids c. PStr c), he_auth_options = (\<lambda>allow c. PStr c),
     he_verify_reg = (\<lambda>cred c. if get_none (as_section cred) ''signed'' = PStr c then Inr (''id'', ''key'', 0) else raise GenericException ''bad''),
     he_verify_auth = (\<lambda>cred c key n. if get_none (as_section cred) ''signed'' = PStr (c @ key) then Inr n else raise GenericException ''bad''),
     he_sign = (\<lambda>p key. key @ json_dumps (PDict p)),
     he_open = (\<lambda>t key now. case json_loads (drop (length key) t) of
        Some (PDict p) \<Rightarrow> (case map_of p ''exp'' of Some (PInt e) \<Rightarrow> if now < e then Some p else None | _ \<Rightarrow> None) | _ \<Rightarrow> None), he_ttl = 86400\<rparr>"

definition toy_place :: "(string, string) dict hw_world" where
  "toy_place = \<lparr>w_redis = [], w_meta = [], w_blob = [], hw_stores = [], hw_vaults = [], hw_sealed = []\<rparr>"

lemma toy_hw_ready: "hw_ready toy_hw (\<lambda>s. True) map_of w"
  by (simp add: hw_ready_def server_up_def toy_hw_def map_server_laws toy_block_laws)

lemma toy_tokens: "token_laws toy_hw"
proof -
  have "jsonable (PDict (token_payload toy_hw iat user))" for iat user by (simp add: token_payload_def)
  then have "json_loads (json_dumps (PDict (token_payload toy_hw iat user))) = Some (PDict (token_payload toy_hw iat user))" for iat user
    by (rule json_loads_dumps)
  then show ?thesis by (auto simp: token_laws_def Let_def toy_hw_def token_payload_def simp del: json_dumps.simps)
qed

lemma toy_nothing_enrolled: "enrolled toy_hw toy_place u []"
  by (rule nothing_enrolled) (simp add: toy_place_def)

definition sixteen :: string where
  "sixteen = ''0123456789abcdef''"

lemma sixteen_length: "length sixteen = iv_length"
  by (simp add: sixteen_def iv_length_def)

definition enrol_answer :: pdict where
  "enrol_answer = [(''signed'', PStr ''c1''), (''transports'', PList [PStr ''USB''])]"

definition sign_in_answer :: pdict where
  "sign_in_answer = [(''rawId'', PStr (b64_text ''id'')), (''signed'', PStr ''c2key'')]"

lemma toy_enrols: "he_verify_reg toy_hw (PDict enrol_answer) ''c1'' = Inr (''id'', ''key'', 0)"
  "transport_value_list (get_none enrol_answer ''transports'') = Inr [''usb'']"
  by (simp add: toy_hw_def enrol_answer_def as_section_def get_or_def, code_simp)

lemma toy_answers: "md_id m = ''id'' \<Longrightarrow> md_key m = ''key'' \<Longrightarrow> answers toy_hw sign_in_answer ''c2'' m (md_count m)"
  by (simp add: answers_def toy_hw_def sign_in_answer_def as_section_def get_or_def)


theorem a_challenge_earns_one_token_witness:
  "tokens_got toy_hw ''ann'' [EnrolOptions ''c1'' ''ann'' ''a@x'', EnrolVerify sixteen ''ann'' (PDict [(''credential'', PDict enrol_answer)]),
     SignInOptions ''c2'' ''ann'', SignInVerify sixteen 1000 ''ann'' (PDict [(''credential'', PDict sign_in_answer)]),
     SignInVerify sixteen 1001 ''ann'' (PDict [(''credential'', PDict sign_in_answer)])] toy_place \<le> 1"
  using a_challenge_earns_one_token [of toy_hw "\<lambda>s. True" map_of toy_place "''ann''"
      "[EnrolOptions ''c1'' ''ann'' ''a@x'', EnrolVerify sixteen ''ann'' (PDict [(''credential'', PDict enrol_answer)]),
     SignInOptions ''c2'' ''ann'', SignInVerify sixteen 1000 ''ann'' (PDict [(''credential'', PDict sign_in_answer)]),
     SignInVerify sixteen 1001 ''ann'' (PDict [(''credential'', PDict sign_in_answer)])]"] toy_hw_ready [of toy_place]
  by (simp add: hw_ready_def pending_def toy_place_def)

text \<open>A module that was enrolled, with a challenge that waits.\<close>

definition toy_waiting :: "(string, string) dict hw_world" where
  "toy_waiting = (snd (save_store toy_hw sixteen ''ann'' (store_of [\<lparr>md_id = ''id'', md_key = ''key'', md_count = 0, md_transports = [''usb'']\<rparr>]) toy_place))
     \<lparr>w_redis := [(challenge_key ''ann'' ''authenticate'', b64_text ''c2'')]\<rparr>"

lemma toy_waiting_enrolled: "enrolled toy_hw toy_waiting ''ann'' [\<lparr>md_id = ''id'', md_key = ''key'', md_count = 0, md_transports = [''usb'']\<rparr>]"
  using save_modules [of toy_hw sixteen "''ann''" "[\<lparr>md_id = ''id'', md_key = ''key'', md_count = 0, md_transports = [''usb'']\<rparr>]" toy_place]
    toy_hw_ready [of toy_place] by (auto simp: toy_waiting_def hw_ready_def sixteen_length)


end
