(* ===== verification/BriefingStore.thy ===== *)
theory BriefingStore
  imports VaultRuntime Component
begin

text \<open>
  Briefings kept as notes in a local folder: \<^verbatim>\<open>common/obsidian_vault_store.py\<close> and the component \<open>ObsidianVault\<close> of
  \<^verbatim>\<open>agent/component/obsidian_vault.py\<close>. The folder is a map from paths to texts with the time of their last change;
  an index lists the notes, the newest first. The clock is a record of the texts that the code formats; the expansion
  of the home directory is a parameter. A byte outside ASCII counts as a letter, and lengths are in bytes.
\<close>

section \<open>Files\<close>

record vault_fs =
  fs_dirs :: "string list"
  fs_files :: "(string, string \<times> int) dict"

record note_time =
  nt_date :: string
  nt_iso :: string
  nt_clock :: string
  nt_changed :: int

record obs_env =
  oe_default :: string
  oe_expand :: "string \<Rightarrow> string"

definition path_join :: "string \<Rightarrow> string \<Rightarrow> string" where
  "path_join d p = (if starts_with p ''/'' then p else d @ ''/'' @ p)"

definition is_dir :: "vault_fs \<Rightarrow> string \<Rightarrow> bool" where
  "is_dir fs p = (p \<in> set (fs_dirs fs))"

definition file_text :: "vault_fs \<Rightarrow> string \<Rightarrow> string option" where
  "file_text fs p = map_option fst (map_of (fs_files fs) p)"

definition write_file :: "int \<Rightarrow> string \<Rightarrow> string \<Rightarrow> vault_fs \<Rightarrow> vault_fs" where
  "write_file now p t fs = fs\<lparr>fs_files := dset p (t, now) (fs_files fs)\<rparr>"

text \<open>The name of a file directly in a directory.\<close>

definition name_in :: "string \<Rightarrow> string \<Rightarrow> string option" where
  "name_in d p = (if starts_with p (d @ ''/'') \<and> CHR ''/'' \<notin> set (drop (length d + 1) p) then Some (drop (length d + 1) p) else None)"

definition path_name :: "string \<Rightarrow> string" where
  "path_name p = last (split_str ''/'' p)"

text \<open>\<open>glob("*.md")\<close>: name, text and time of change.\<close>

definition md_files :: "vault_fs \<Rightarrow> string \<Rightarrow> (string \<times> string \<times> int) list" where
  "md_files fs d = List.map_filter (\<lambda>(p, t, m). case name_in d p of
      None \<Rightarrow> None | Some n \<Rightarrow> if ends_with n ''.md'' then Some (n, t, m) else None) (fs_files fs)"

section \<open>The folder\<close>

definition index_name :: string where
  "index_name = ''_ragflow_index.json''"

definition not_found :: "string \<Rightarrow> 'a res" where
  "not_found msg = raise LookupError msg"

text \<open>\<open>FileNotFoundError\<close> is written as \<open>LookupError\<close>.\<close>

definition resolve_vault_path :: "obs_env \<Rightarrow> string \<Rightarrow> string res" where
  "resolve_vault_path env vault_path =
     (let resolved = strip (if vault_path = [] then oe_default env else vault_path)
      in if resolved = [] then not_found ''Obsidian vault not configured. Set OBSIDIAN_VAULT_PATH in your environment.''
         else Inr (oe_expand env resolved))"

definition vault_root :: "obs_env \<Rightarrow> string \<Rightarrow> (vault_fs, string) act" where
  "vault_root env vault_path = bnd (lift (resolve_vault_path env vault_path)) (\<lambda>root.
     gets_res (\<lambda>fs. if is_dir fs root then Inr root else not_found (''Obsidian vault not found: '' @ root)))"

text \<open>The prefixes of a path, which \<open>mkdir(parents=True)\<close> creates where they are missing.\<close>

definition path_prefixes :: "string \<Rightarrow> string list" where
  "path_prefixes p = map (\<lambda>n. join_str ''/'' (take n (split_str ''/'' p))) [1..<length (split_str ''/'' p) + 1]"

definition make_dirs :: "string \<Rightarrow> vault_fs \<Rightarrow> vault_fs" where
  "make_dirs d fs = fs\<lparr>fs_dirs := fs_dirs fs @ filter (\<lambda>q. q \<notin> set (fs_dirs fs)) (path_prefixes d)\<rparr>"

definition intel_dir :: "obs_env \<Rightarrow> string \<Rightarrow> string \<Rightarrow> bool \<Rightarrow> (vault_fs, string) act" where
  "intel_dir env vault_path subfolder create = bnd (lift (resolve_vault_path env vault_path)) (\<lambda>root.
     let d = path_join root subfolder
     in if create then bnd (modify (make_dirs d)) (\<lambda>_. ret d)
        else gets_res (\<lambda>fs. if is_dir fs root then Inr d else not_found (''Obsidian vault not found: '' @ root)))"

section \<open>Names\<close>

definition is_word_char :: "char \<Rightarrow> bool" where
  "is_word_char c = (c \<in> set upper_letters \<or> c \<in> set lower_letters \<or> is_digit_char c \<or> c = CHR ''_'' \<or> (of_char c :: nat) \<ge> 128)"

text \<open>Runs of white space and underscores become one hyphen.\<close>

fun hyphenate :: "bool \<Rightarrow> string \<Rightarrow> string" where
  "hyphenate run [] = []"
| "hyphenate run (c # cs) =
     (if c \<in> set ascii_space \<or> c = CHR ''_'' then (if run then hyphenate True cs else CHR ''-'' # hyphenate True cs)
      else c # hyphenate False cs)"

definition slug :: "string \<Rightarrow> string" where
  "slug t = (let s = hyphenate False (strip (filter (\<lambda>c. is_word_char c \<or> c \<in> set ascii_space \<or> c = CHR ''-'') t))
     in lower (if take 48 s = [] then ''briefing'' else take 48 s))"

section \<open>The index\<close>

definition empty_index :: pyval where
  "empty_index = PDict [(''entries'', PList [])]"

definition load_index :: "vault_fs \<Rightarrow> string \<Rightarrow> pyval" where
  "load_index fs d = (case file_text fs (path_join d index_name) of None \<Rightarrow> empty_index
     | Some t \<Rightarrow> (case json_loads t of None \<Rightarrow> empty_index | Some v \<Rightarrow> v))"

definition save_index :: "int \<Rightarrow> string \<Rightarrow> pyval \<Rightarrow> (vault_fs, unit) act" where
  "save_index now d index = bnd (lift (json_text index)) (\<lambda>t. modify (write_file now (path_join d index_name) t))"

definition has_saved_notes :: "obs_env \<Rightarrow> string \<Rightarrow> string \<Rightarrow> (vault_fs, bool) act" where
  "has_saved_notes env vault_path subfolder =
     bnd (try_except (bnd (intel_dir env vault_path subfolder False) (\<lambda>d. ret (Some d)))
            (\<lambda>e. if exc_class e = LookupError then ret None else lift (Inl e)))
     (\<lambda>found. case found of None \<Rightarrow> ret False
      | Some d \<Rightarrow> gets_res (\<lambda>fs. try_then (get_method (load_index fs d) ''entries'' PNone) (\<lambda>entries.
          Inr (truthy entries \<or> md_files fs d \<noteq> []))))"

section \<open>Saving\<close>

definition nl :: string where
  "nl = [CHR 0x0A]"

definition front_matter :: "note_time \<Rightarrow> string \<Rightarrow> string" where
  "front_matter now query = ''---'' @ nl @ ''date: '' @ nt_iso now @ nl @ ''query: '' @ json_dumps (PStr query) @ nl
     @ ''agent: mail-intelligence-router'' @ nl @ ''tags:'' @ nl @ ''  - mail-intel'' @ nl @ ''  - briefing'' @ nl @ ''---'' @ nl @ nl"

definition note_text :: "note_time \<Rightarrow> string \<Rightarrow> string \<Rightarrow> string" where
  "note_text now content query = front_matter now query @ (if strip query = [] then strip content
       else ''## User request'' @ nl @ nl @ strip query @ nl @ nl @ ''---'' @ nl @ nl @ strip content) @ nl"

definition note_name :: "vault_fs \<Rightarrow> string \<Rightarrow> note_time \<Rightarrow> string \<Rightarrow> string" where
  "note_name fs d now title =
     (let filename = nt_date now @ ''-'' @ slug title @ ''.md''
      in if file_text fs (path_join d filename) \<noteq> None then nt_date now @ ''-'' @ slug title @ ''-'' @ nt_clock now @ ''.md'' else filename)"

definition index_entry :: "note_time \<Rightarrow> string \<Rightarrow> string \<Rightarrow> string \<Rightarrow> pyval" where
  "index_entry now rel query filename =
     PDict [(''path'', PStr rel), (''date'', PStr (nt_iso now)), (''query'', PStr query), (''filename'', PStr filename)]"

definition max_entries :: nat where
  "max_entries = 200"

definition with_entry :: "pyval \<Rightarrow> pyval \<Rightarrow> pyval res" where
  "with_entry entry index = try_then (get_method index ''entries'' (PList [])) (\<lambda>old. try_then (py_iter old) (\<lambda>xs.
     try_then (as_dict ''__setitem__'' index) (\<lambda>d. Inr (PDict (dset ''entries'' (PList (take max_entries (entry # xs))) d)))))"

definition save_briefing :: "obs_env \<Rightarrow> note_time \<Rightarrow> string \<Rightarrow> string \<Rightarrow> string \<Rightarrow> string \<Rightarrow> string \<Rightarrow> (vault_fs, string) act" where
  "save_briefing env now vault_path subfolder content query title_prefix =
     (if strip content = [] then lift (raise ValueError (''Nothing to save '' @ [CHR 0xE2, CHR 0x80, CHR 0x94] @ '' briefing content is empty.''))
      else bnd (intel_dir env vault_path subfolder True) (\<lambda>d.
        bnd (gets (\<lambda>fs. note_name fs d now (if query = [] then title_prefix else query))) (\<lambda>filename.
        bnd (modify (write_file (nt_changed now) (path_join d filename) (note_text now content query))) (\<lambda>_.
        bnd (gets_res (\<lambda>fs. with_entry (index_entry now (subfolder @ ''/'' @ filename) query filename) (load_index fs d))) (\<lambda>index.
        bnd (save_index (nt_changed now) d index) (\<lambda>_. ret (subfolder @ ''/'' @ filename)))))))"

section \<open>Recalling\<close>

text \<open>\<open>entries[:max_notes]\<close>.\<close>

definition first_entries :: "pyval \<Rightarrow> int \<Rightarrow> pyval list res" where
  "first_entries v n = (case v of
     PList xs \<Rightarrow> Inr (slice_to xs n)
   | PStr s \<Rightarrow> Inr (map (\<lambda>c. PStr [c]) (slice_to s n))
   | PDict d \<Rightarrow> raise TypeError (''unhashable type: '' @ [CHR 0x27] @ ''slice'' @ [CHR 0x27])
   | _ \<Rightarrow> raise TypeError ([CHR 0x27] @ type_name v @ [CHR 0x27] @ '' object is not subscriptable''))"

text \<open>\<open>root / v\<close>: only a text is a path.\<close>

definition path_arg :: "string \<Rightarrow> pyval \<Rightarrow> string res" where
  "path_arg d v = (case v of PStr s \<Rightarrow> Inr (path_join d s)
     | _ \<Rightarrow> raise TypeError (''unsupported operand type(s) for /: '' @ [CHR 0x27] @ ''PosixPath'' @ [CHR 0x27] @ '' and '' @ [CHR 0x27] @ type_name v @ [CHR 0x27]))"

definition entry_path :: "string \<Rightarrow> string \<Rightarrow> pyval \<Rightarrow> string res" where
  "entry_path base d entry = try_then (get_method entry ''path'' PNone) (\<lambda>rel.
     if truthy rel then path_arg base rel
     else try_then (get_method entry ''filename'' (PStr [])) (path_arg d))"

definition block_of :: "nat \<Rightarrow> string \<Rightarrow> string \<Rightarrow> string" where
  "block_of limit name t = ''### '' @ name @ nl @ take limit t"

definition separator :: string where
  "separator = nl @ nl @ ''---'' @ nl @ nl"

definition recalled :: "vault_fs \<Rightarrow> string \<Rightarrow> string \<Rightarrow> int \<Rightarrow> pyval list res" where
  "recalled fs d subfolder n = try_then (get_method (load_index fs d) ''entries'' (PList [])) (\<lambda>entries.
     try_then (first_entries entries n) (\<lambda>xs. Inr (if xs \<noteq> [] then xs
       else map (\<lambda>(name, t, m). PDict [(''path'', PStr (subfolder @ ''/'' @ name)), (''filename'', PStr name)])
              (slice_to (sort_key (\<lambda>(name, t, m). - m) (md_files fs d)) n))))"

definition load_recent :: "obs_env \<Rightarrow> string \<Rightarrow> string \<Rightarrow> int \<Rightarrow> (vault_fs, string) act" where
  "load_recent env vault_path subfolder n =
     bnd (try_except (bnd (intel_dir env vault_path subfolder False) (\<lambda>d. ret (Some d)))
            (\<lambda>e. if exc_class e = LookupError then ret None else lift (Inl e)))
     (\<lambda>found. case found of None \<Rightarrow> ret []
      | Some d \<Rightarrow> bnd (gets_res (\<lambda>fs. recalled fs d subfolder n)) (\<lambda>entries.
          if entries = [] then ret []
          else bnd (vault_root env vault_path) (\<lambda>root. bnd (lift (map_res (entry_path root d) entries)) (\<lambda>paths. gets (\<lambda>fs.
            let blocks = List.map_filter (\<lambda>p. map_option (block_of 4000 (path_name p)) (file_text fs p)) paths
            in if blocks = [] then []
               else ''=== PRIOR BRIEFINGS ('' @ subfolder @ '', '' @ nat_str (length blocks) @ '' note(s)) ==='' @ join_str separator blocks)))))"

text \<open>\<open>text.count(term)\<close> of a term that is not empty.\<close>

definition count_in :: "string \<Rightarrow> string \<Rightarrow> nat" where
  "count_in needle t = length (split_str needle t) - 1"

definition search_terms :: "string \<Rightarrow> string list" where
  "search_terms query = map lower (filter (\<lambda>t. length t > 2) (py_words query))"

definition note_score :: "string list \<Rightarrow> string \<Rightarrow> nat" where
  "note_score terms t = sum_list (map (\<lambda>x. count_in x (lower t)) terms)"

definition search_hits :: "vault_fs \<Rightarrow> string \<Rightarrow> string list \<Rightarrow> (nat \<times> string \<times> string) list" where
  "search_hits fs d terms = sort_key (\<lambda>(score, p). - int score)
     (filter (\<lambda>(score, p). score > 0) (map (\<lambda>(name, t, m). (note_score terms t, name, t)) (md_files fs d)))"

definition search_notes :: "obs_env \<Rightarrow> string \<Rightarrow> string \<Rightarrow> string \<Rightarrow> int \<Rightarrow> (vault_fs, string) act" where
  "search_notes env vault_path subfolder query n =
     bnd (try_except (bnd (intel_dir env vault_path subfolder False) (\<lambda>d. ret (Some d)))
            (\<lambda>e. if exc_class e = LookupError then ret None else lift (Inl e)))
     (\<lambda>found. case found of None \<Rightarrow> ret []
      | Some d \<Rightarrow> if search_terms query = [] then load_recent env vault_path subfolder n
          else gets (\<lambda>fs. let hits = search_hits fs d (search_terms query) in if hits = [] then []
            else ''=== PRIOR BRIEFINGS (search: '' @ take 80 query @ '') ==='' @ nl @ nl
              @ join_str separator (map (\<lambda>(score, name, t). block_of 3500 name t) (slice_to hits n))))"

text \<open>The words of a query that ask for earlier notes; the last three are Japanese, in UTF-8.\<close>

definition recall_hints :: "string list" where
  "recall_hints = [''previous'', ''last time'', ''recall'', ''continue'', ''earlier'', ''before'', ''again'',
     [CHR 0xE5, CHR 0x89, CHR 0x8D, CHR 0xE5, CHR 0x9B, CHR 0x9E], [CHR 0xE4, CHR 0xBB, CHR 0xA5, CHR 0xE5, CHR 0x89, CHR 0x8D],
     [CHR 0xE7, CHR 0xB6, CHR 0x9A, CHR 0xE3, CHR 0x81, CHR 0x8D]]"

definition load_context_if_relevant :: "obs_env \<Rightarrow> string \<Rightarrow> string \<Rightarrow> string \<Rightarrow> int \<Rightarrow> (vault_fs, string) act" where
  "load_context_if_relevant env vault_path subfolder query n = bnd (has_saved_notes env vault_path subfolder) (\<lambda>any.
     if \<not> any then ret []
     else bnd (if list_ex (\<lambda>h. str_in h (lower query)) recall_hints then search_notes env vault_path subfolder query n else ret []) (\<lambda>ctx.
       if ctx \<noteq> [] then ret ctx else load_recent env vault_path subfolder n))"

section \<open>The component\<close>

record obs_param =
  op_vault_path :: string
  op_subfolder :: string
  op_mode :: string
  op_max_notes :: int
  op_content :: string
  op_query :: string
  op_title_prefix :: string

text \<open>\<open>check\<close>: the number of notes is positive.\<close>

definition check_obs_param :: "obs_param \<Rightarrow> unit res" where
  "check_obs_param p = check_positive_number (PInt (op_max_notes p)) ''[ObsidianVault] max_notes''"

record obs_output =
  oo_saved_path :: string
  oo_context :: string
  oo_status :: string

record 's obs_world =
  ow_vault :: "'s world"
  ow_fs :: vault_fs
  ow_output :: obs_output

definition on_notes :: "(vault_fs, 'a) act \<Rightarrow> ('s obs_world, 'a) act" where
  "on_notes m w = (case m (ow_fs w) of (r, fs) \<Rightarrow> (r, w\<lparr>ow_fs := fs\<rparr>))"

definition on_secrets :: "('s, 'a) vault_act \<Rightarrow> ('s obs_world, 'a) act" where
  "on_secrets m w = (case m (ow_vault w) of (r, v) \<Rightarrow> (r, w\<lparr>ow_vault := v\<rparr>))"

definition set_outputs :: "string \<Rightarrow> string \<Rightarrow> string \<Rightarrow> ('s obs_world, unit) act" where
  "set_outputs saved context status = modify (\<lambda>w. w\<lparr>ow_output := \<lparr>oo_saved_path = saved, oo_context = context, oo_status = status\<rparr>\<rparr>)"

text \<open>
  What surrounds the component: the setting of the gate, the canvas as its DSL, the user, the environment of the
  secrets and the default folder; \<open>oc_resolve\<close> is \<open>_resolve\<close>, which reads a variable of the canvas and strips the
  reasoning of a model from its text.
\<close>

record 's obs_context =
  oc_gate :: string
  oc_dsl :: pyval
  oc_user :: string
  oc_vault :: "'s vault_env"
  oc_env :: obs_env
  oc_subfolder :: string
  oc_resolve :: "string \<Rightarrow> string"
  oc_now :: note_time

definition run_mode :: "'s obs_context \<Rightarrow> obs_param \<Rightarrow> string \<Rightarrow> string \<Rightarrow> ('s obs_world, string) act" where
  "run_mode c p query_input content_input =
     bnd (if obsidian_gate_active (oc_gate c) then bnd (lift (zero_trust_enabled (oc_dsl c))) (\<lambda>zero.
            if zero then on_secrets (check_obsidian_gate (oc_vault c) (oc_user c)) else ret ()) else ret ()) (\<lambda>_.
     let mode = lower (if op_mode p = [] then ''save'' else op_mode p);
         vault_path = (if op_vault_path p = [] then oe_default (oc_env c) else op_vault_path p);
         subfolder = (if op_subfolder p = [] then oc_subfolder c else op_subfolder p);
         query = oc_resolve c (if op_query p = [] then query_input else op_query p);
         n = (if op_max_notes p = 0 then 1 else op_max_notes p)
     in if mode = ''save'' then
          let content = oc_resolve c (if op_content p = [] then content_input else op_content p);
              heading = (if op_title_prefix p = [] then ''inbox-briefing'' else op_title_prefix p)
          in bnd (on_notes (save_briefing (oc_env c) (oc_now c) vault_path subfolder content query heading)) (\<lambda>saved.
             bnd (set_outputs saved [] ''saved'') (\<lambda>_. ret saved))
        else bnd (on_notes (if mode = ''search'' then search_notes (oc_env c) vault_path subfolder query n
                            else if mode = ''load_relevant'' then load_context_if_relevant (oc_env c) vault_path subfolder query n
                            else load_recent (oc_env c) vault_path subfolder n)) (\<lambda>ctx.
             bnd (set_outputs [] ctx (if ctx = [] then ''empty'' else ''loaded'')) (\<lambda>_. ret ctx)))"

text \<open>\<open>_invoke_async\<close>: a locked vault is told, other failures are skipped.\<close>

definition invoke_obsidian :: "'s obs_context \<Rightarrow> obs_param \<Rightarrow> string \<Rightarrow> string \<Rightarrow> ('s obs_world, string) act" where
  "invoke_obsidian c p query_input content_input = try_except (run_mode c p query_input content_input)
     (\<lambda>e. if exc_class e = VaultLockedError then bnd (set_outputs [] (exc_text e) ''locked'') (\<lambda>_. ret [])
          else bnd (set_outputs [] [] ''skipped'') (\<lambda>_. ret []))"

section \<open>Names stay in the folder\<close>

text \<open>What a slug consists of.\<close>

definition slug_char :: "char \<Rightarrow> bool" where
  "slug_char c = (c \<in> set lower_letters \<or> is_digit_char c \<or> c = CHR ''-'' \<or> (of_char c :: nat) \<ge> 128)"

lemma lower_char_slug: "is_word_char c \<Longrightarrow> c \<noteq> CHR ''_'' \<Longrightarrow> slug_char (lower_char c)"
proof (cases "map_of (zip upper_letters lower_letters) c")
  case None
  assume c: "is_word_char c" "c \<noteq> CHR ''_''"
  have "length upper_letters = length lower_letters" by (simp add: upper_letters_def lower_letters_def)
  then have "c \<notin> set upper_letters" using None by (simp add: map_of_zip_is_None)
  then show ?thesis using None c by (auto simp: lower_char_def is_word_char_def slug_char_def)
next
  case (Some d)
  then have "d \<in> set lower_letters" by (metis map_of_SomeD set_zip_rightD)
  then show ?thesis using Some by (simp add: lower_char_def slug_char_def)
qed

lemma lower_char_hyphen: "lower_char CHR ''-'' = CHR ''-''"
  by (simp add: lower_char_def upper_letters_def lower_letters_def)

lemma hyphenate_chars: "c \<in> set (hyphenate b s) \<Longrightarrow> c = CHR ''-'' \<or> c \<in> set s \<and> c \<notin> set ascii_space \<and> c \<noteq> CHR ''_''"
  by (induction b s rule: hyphenate.induct) (auto split: if_splits)

lemma strip_subset: "set (strip s) \<subseteq> set s"
  unfolding strip_def strip_chars_def by (auto dest!: set_dropWhileD)

lemma slug_chars: "list_all slug_char (slug t)" and slug_length: "slug t \<noteq> []" "length (slug t) \<le> 48"
proof -
  define f where "f = filter (\<lambda>c. is_word_char c \<or> c \<in> set ascii_space \<or> c = CHR ''-'') t"
  have "c = CHR ''-'' \<or> is_word_char c \<and> c \<noteq> CHR ''_''" if "c \<in> set (hyphenate False (strip f))" for c
    using hyphenate_chars [OF that] strip_subset [of f] by (auto simp: f_def)
  then have "slug_char (lower_char c)" if "c \<in> set (hyphenate False (strip f))" for c
    using that lower_char_slug lower_char_hyphen by (fastforce simp: slug_char_def)
  moreover have "list_all slug_char (lower ''briefing'')" by code_simp
  ultimately show "list_all slug_char (slug t)" by (auto simp: slug_def Let_def f_def lower_def list_all_iff dest: in_set_takeD)
  show "slug t \<noteq> []" "length (slug t) \<le> 48" by (auto simp: slug_def Let_def lower_def)
qed

lemma slug_char_safe: "slug_char c \<Longrightarrow> c \<noteq> CHR ''/'' \<and> c \<noteq> CHR ''.'' \<and> c \<noteq> CHR 0x5C"
proof -
  have "list_all (\<lambda>c. \<not> slug_char c) [CHR ''/'', CHR ''.'', CHR 0x5C]" by code_simp
  then show "slug_char c \<Longrightarrow> ?thesis" by auto
qed

text \<open>Formatted times have digits and hyphens.\<close>

definition time_ok :: "note_time \<Rightarrow> bool" where
  "time_ok now = (list_all (\<lambda>c. is_digit_char c \<or> c = CHR ''-'') (nt_date now) \<and> list_all is_digit_char (nt_clock now))"

lemma digit_safe: "is_digit_char c \<Longrightarrow> c \<noteq> CHR ''/'' \<and> c \<noteq> CHR ''.''"
  by (auto simp: is_digit_char_def digit_chars_def)

lemma note_name_safe:
  assumes "time_ok now"
  shows "CHR ''/'' \<notin> set (note_name fs d now title)" "note_name fs d now title \<noteq> index_name" "\<not> starts_with (note_name fs d now title) ''/''"
proof -
  have "CHR ''/'' \<notin> set (slug title)" using slug_chars [of title] slug_char_safe by (force simp: list_all_iff)
  moreover have "CHR ''/'' \<notin> set (nt_date now)" "CHR ''/'' \<notin> set (nt_clock now)" using assms digit_safe by (force simp: time_ok_def list_all_iff)+
  ultimately show n: "CHR ''/'' \<notin> set (note_name fs d now title)" by (simp add: note_name_def Let_def)
  have "ends_with (note_name fs d now title) ''.md''" by (auto simp: note_name_def Let_def suffix_def)
  moreover have "\<not> ends_with index_name ''.md''" by (simp add: index_name_def suffix_def)
  ultimately show "note_name fs d now title \<noteq> index_name" by metis
  show "\<not> starts_with (note_name fs d now title) ''/''" using n by (cases "note_name fs d now title") auto
qed

section \<open>What a save does\<close>

lemma path_join_inj: "\<not> starts_with a ''/'' \<Longrightarrow> \<not> starts_with b ''/'' \<Longrightarrow> path_join d a = path_join d b \<longleftrightarrow> a = b"
  by (simp add: path_join_def)

lemma file_text_write: "file_text (write_file now p t fs) q = (if q = p then Some t else file_text fs q)"
  by (simp add: file_text_def write_file_def dget_dset)

lemma save_steps:
  assumes "save_briefing env now vault_path subfolder content query title_prefix fs = (Inr rel, fs')"
  shows "\<exists>base index. let d = path_join base subfolder; fs1 = make_dirs d fs; name = note_name fs1 d now (if query = [] then title_prefix else query);
        fs2 = write_file (nt_changed now) (path_join d name) (note_text now content query) fs1
      in resolve_vault_path env vault_path = Inr base \<and> rel = subfolder @ ''/'' @ name
        \<and> with_entry (index_entry now rel query name) (load_index fs2 d) = Inr index \<and> stream_free index
        \<and> fs' = write_file (nt_changed now) (path_join d index_name) (json_dumps index) fs2"
  using assms unfolding save_briefing_def intel_dir_def save_index_def
  by (auto simp: bnd_apply lift_def modify_def gets_def gets_res_def ret_def json_text_def Let_def split: if_splits sum.splits prod.splits)

text \<open>C18: Whatever is asked, a briefing is saved as a file directly in its folder: the name has no slash, and of dots only that of its ending;
  no other file but the index changes, and no earlier note is overwritten unless both of its names are taken.\<close>

theorem saved_name_stays_in_folder:
  assumes "save_briefing env now vault_path subfolder content query title_prefix fs = (Inr rel, fs')" "time_ok now"
  shows "\<exists>base stem. resolve_vault_path env vault_path = Inr base \<and> (let d = path_join base subfolder; path = path_join d (stem @ ''.md'');
        dated = nt_date now @ ''-'' @ slug (if query = [] then title_prefix else query)
      in rel = subfolder @ ''/'' @ stem @ ''.md'' \<and> CHR ''/'' \<notin> set stem \<and> CHR ''.'' \<notin> set stem
        \<and> file_text fs' path = Some (note_text now content query)
        \<and> (\<forall>p. p \<noteq> path \<and> p \<noteq> path_join d index_name \<longrightarrow> file_text fs' p = file_text fs p)
        \<and> (file_text fs path = None \<or> file_text fs (path_join d (dated @ ''.md'')) \<noteq> None \<and> stem = dated @ ''-'' @ nt_clock now))"
proof -
  let ?title = "if query = [] then title_prefix else query"
  obtain base index where s: "let d = path_join base subfolder; fs1 = make_dirs d fs; name = note_name fs1 d now ?title;
        fs2 = write_file (nt_changed now) (path_join d name) (note_text now content query) fs1
      in resolve_vault_path env vault_path = Inr base \<and> rel = subfolder @ ''/'' @ name
        \<and> with_entry (index_entry now rel query name) (load_index fs2 d) = Inr index \<and> stream_free index
        \<and> fs' = write_file (nt_changed now) (path_join d index_name) (json_dumps index) fs2"
    using save_steps [OF assms(1)] by blast
  let ?d = "path_join base subfolder"
  let ?fs1 = "make_dirs ?d fs"
  have same: "file_text ?fs1 p = file_text fs p" for p by (simp add: make_dirs_def file_text_def)
  define stem where "stem = (if file_text fs (path_join ?d (nt_date now @ ''-'' @ slug ?title @ ''.md'')) \<noteq> None
      then nt_date now @ ''-'' @ slug ?title @ ''-'' @ nt_clock now else nt_date now @ ''-'' @ slug ?title)"
  have name: "note_name ?fs1 ?d now ?title = stem @ ''.md''" by (simp add: note_name_def stem_def same Let_def)
  note safe = note_name_safe [OF assms(2), of ?fs1 ?d ?title, unfolded name]
  have "CHR ''.'' \<notin> set (slug ?title)" using slug_chars [of ?title] slug_char_safe by (force simp: list_all_iff)
  moreover have "CHR ''.'' \<notin> set (nt_date now)" "CHR ''.'' \<notin> set (nt_clock now)" using assms(2) digit_safe by (force simp: time_ok_def list_all_iff)+
  ultimately have dot: "CHR ''.'' \<notin> set stem" by (auto simp: stem_def)
  have f: "fs' = write_file (nt_changed now) (path_join ?d index_name) (json_dumps index)
      (write_file (nt_changed now) (path_join ?d (stem @ ''.md'')) (note_text now content query) ?fs1)"
    "rel = subfolder @ ''/'' @ stem @ ''.md''" "resolve_vault_path env vault_path = Inr base"
    using s unfolding Let_def name by auto
  have differ: "path_join ?d (stem @ ''.md'') \<noteq> path_join ?d index_name" using safe by (subst path_join_inj) (auto simp: index_name_def)
  have 1: "file_text fs' (path_join ?d (stem @ ''.md'')) = Some (note_text now content query)" using differ by (simp add: f(1) file_text_write)
  have 2: "\<forall>p. p \<noteq> path_join ?d (stem @ ''.md'') \<and> p \<noteq> path_join ?d index_name \<longrightarrow> file_text fs' p = file_text fs p"
    by (simp add: f(1) file_text_write same)
  have 3: "file_text fs (path_join ?d (stem @ ''.md'')) = None \<or> file_text fs (path_join ?d ((nt_date now @ ''-'' @ slug ?title) @ ''.md'')) \<noteq> None
      \<and> stem = (nt_date now @ ''-'' @ slug ?title) @ ''-'' @ nt_clock now" by (simp add: stem_def)
  have 4: "CHR ''/'' \<notin> set stem" using safe(1) by simp
  show ?thesis unfolding Let_def by (intro exI [of _ base] exI [of _ stem] conjI f(2,3) 1 2 3 4 dot)
qed

section \<open>A saved briefing is recalled\<close>

lemma split_join_char: "split_str [x] (a @ x # b) = split_str [x] a @ split_str [x] b"
proof (induction "length a" arbitrary: a rule: less_induct)
  case less
  show ?case
  proof (cases "x \<in> set a")
    case False
    then show ?thesis by (simp add: split_str_char split_str_char_absent)
  next
    case True
    then obtain p q where a: "a = p @ x # q" "x \<notin> set p" by (metis split_list_first)
    have "split_str [x] (q @ x # b) = split_str [x] q @ split_str [x] b" by (rule less) (simp add: a)
    then show ?thesis using a by (simp add: split_str_char)
  qed
qed

lemma folder_made: "is_dir (make_dirs (base @ ''/'' @ sub) fs) base"
proof -
  have split: "split_str ''/'' (base @ ''/'' @ sub) = split_str ''/'' base @ split_str ''/'' sub" using split_join_char by simp
  let ?n = "length (split_str ''/'' base)"
  have "join_str ''/'' (take ?n (split_str ''/'' (base @ ''/'' @ sub))) = base" unfolding split by (simp add: join_split)
  moreover have "?n \<in> set [1..<length (split_str ''/'' (base @ ''/'' @ sub)) + 1]" unfolding split by (simp add: split_str_nonempty Suc_leI del: upt_Suc)
  ultimately have "base \<in> set (path_prefixes (base @ ''/'' @ sub))" unfolding path_prefixes_def by (metis (no_types, lifting) image_eqI set_map)
  then show ?thesis by (auto simp: is_dir_def make_dirs_def)
qed

lemma dirs_write [simp]: "is_dir (write_file now p t fs) q = is_dir fs q"
  by (simp add: is_dir_def write_file_def)

lemma path_name_join: "CHR ''/'' \<notin> set name \<Longrightarrow> path_name (d @ ''/'' @ name) = name"
  using split_join_char [of "CHR ''/''" d name] by (simp add: path_name_def split_str_char_absent)

lemma jsonable_iter: "jsonable v \<Longrightarrow> py_iter v = Inr xs \<Longrightarrow> list_all jsonable xs"
  by (cases v) (auto simp: py_iter_def jsonable_list_iff list_all_iff)

lemma index_with_entry:
  assumes "with_entry entry index = Inr new" "jsonable index" "jsonable entry"
  shows "\<exists>d xs. new = PDict (dset ''entries'' (PList (take max_entries (entry # xs))) d) \<and> jsonable new"
proof -
  obtain d where d: "index = PDict d" using assms(1) by (auto simp: with_entry_def try_then_Inr_iff as_dict_def no_attr_def split: pyval.splits)
  obtain xs where xs: "py_iter (get_or d ''entries'' (PList [])) = Inr xs" "new = PDict (dset ''entries'' (PList (take max_entries (entry # xs))) d)"
    using assms(1) d by (auto simp: with_entry_def try_then_Inr_iff as_dict_def get_method_def)
  have "jsonable (get_or d ''entries'' (PList []))" using assms(2) d jsonable_get [of d] by (auto simp: get_or_def split: option.split)
  then have "list_all jsonable (entry # xs)" using jsonable_iter xs(1) assms(3) by simp
  then have "list_all jsonable (take max_entries (entry # xs))" by (meson in_set_takeD list_all_iff)
  then have "jsonable (PList (take max_entries (entry # xs)))" by (simp add: jsonable_list_iff)
  then show ?thesis using jsonable_dset [OF assms(2) [unfolded d]] xs(2) by blast
qed


text \<open>A note that is gone hides the older ones: the first entries are chosen before it is known whether their files exist.\<close>

lemma missing_note_hides_others:
  assumes "resolve_vault_path env vault_path = Inr base" "is_dir fs base"
    and "load_index fs (path_join base subfolder) = PDict [(''entries'', PList (PDict [(''path'', PStr rel)] # older))]"
    and "rel \<noteq> []" "file_text fs (path_join base rel) = None"
  shows "load_recent env vault_path subfolder 1 fs = (Inr [], fs)" "has_saved_notes env vault_path subfolder fs = (Inr True, fs)"
proof -
  have "recalled fs (path_join base subfolder) subfolder 1 = Inr [PDict [(''path'', PStr rel)]]"
    by (simp add: recalled_def assms(3) get_method_def get_or_def first_entries_def slice_to_def slice_pos_def)
  then show "load_recent env vault_path subfolder 1 fs = (Inr [], fs)" using assms
    by (simp add: load_recent_def intel_dir_def vault_root_def bnd_apply lift_def gets_res_def gets_def ret_def try_except_def List.map_filter_def
        entry_path_def get_method_def get_or_def path_arg_def)
  show "has_saved_notes env vault_path subfolder fs = (Inr True, fs)" using assms
    by (simp add: has_saved_notes_def intel_dir_def bnd_apply lift_def gets_res_def ret_def try_except_def get_method_def get_or_def)
qed

section \<open>The gate\<close>

text \<open>C17: With the gate on, in a canvas of zero trust, a vault that is not unlocked for notes keeps them closed: in every mode the component
  neither reads nor writes a note, and says that it is locked.\<close>

theorem locked_vault_keeps_notes_closed:
  assumes "obsidian_gate_active (oc_gate c)" "zero_trust_enabled (oc_dsl c) = Inr True"
    and "is_obsidian_unlocked (oc_vault c) (oc_user c) (ow_vault w) = (Inr False, v)"
  shows "\<exists>w'. invoke_obsidian c p q t w = (Inr [], w') \<and> ow_fs w' = ow_fs w \<and> oo_status (ow_output w') = ''locked''
    \<and> oo_saved_path (ow_output w') = [] \<and> (\<forall>n. invoke_obsidian c p q t (w\<lparr>ow_fs := n\<rparr>) = (Inr [], w'\<lparr>ow_fs := n\<rparr>))"
proof -
  obtain msg u where gate: "check_obsidian_gate (oc_vault c) (oc_user c) (ow_vault w) = (Inl (Exc VaultLockedError msg), u)"
    using assms(3) by (cases "oc_user c = []") (auto simp: check_obsidian_gate_def require_obsidian_unlocked_def bnd_apply lift_def)
  have "run_mode c p q t (w\<lparr>ow_fs := n\<rparr>) = (Inl (Exc VaultLockedError msg), w\<lparr>ow_fs := n, ow_vault := u\<rparr>)" for n
    using assms(1,2) gate by (simp add: run_mode_def bnd_apply lift_def on_secrets_def)
  then have run: "invoke_obsidian c p q t (w\<lparr>ow_fs := n\<rparr>)
      = (Inr [], w\<lparr>ow_fs := n, ow_vault := u, ow_output := \<lparr>oo_saved_path = [], oo_context = msg, oo_status = ''locked''\<rparr>\<rparr>)" for n
    by (simp add: invoke_obsidian_def try_except_def set_outputs_def bnd_apply modify_def ret_def)
  from run [of "ow_fs w"] run show ?thesis
    by (intro exI [of _ "w\<lparr>ow_vault := u, ow_output := \<lparr>oo_saved_path = [], oo_context = msg, oo_status = ''locked''\<rparr>\<rparr>"]) simp
qed

section \<open>A folder to evaluate on\<close>

definition demo_time :: note_time where
  "demo_time = \<lparr>nt_date = ''2026-01-02'', nt_iso = ''2026-01-02T03:04:05+00:00'', nt_clock = ''030405'', nt_changed = 7\<rparr>"

definition demo_obs :: obs_env where
  "demo_obs = \<lparr>oe_default = [], oe_expand = (\<lambda>p. p)\<rparr>"

definition demo_folder :: vault_fs where
  "demo_folder = \<lparr>fs_dirs = [], fs_files = []\<rparr>"

lemma demo_save: "fst (save_briefing demo_obs demo_time ''/v'' ''Mail'' ''T3 test'' ''Jobs in /etc?'' ''x'' demo_folder) = Inr ''Mail/2026-01-02-jobs-in-etc.md''"
  by code_simp

lemma demo_time_ok: "time_ok demo_time"
  by code_simp

theorem saved_name_stays_in_folder_witness:
  "\<exists>base stem fs'. save_briefing demo_obs demo_time ''/v'' ''Mail'' ''T3 test'' ''Jobs in /etc?'' ''x'' demo_folder = (Inr (''Mail/'' @ stem @ ''.md''), fs')
    \<and> CHR ''/'' \<notin> set stem \<and> file_text fs' (path_join (path_join base ''Mail'') (stem @ ''.md'')) = Some (note_text demo_time ''T3 test'' ''Jobs in /etc?'')"
proof -
  obtain fs' where run: "save_briefing demo_obs demo_time ''/v'' ''Mail'' ''T3 test'' ''Jobs in /etc?'' ''x'' demo_folder = (Inr ''Mail/2026-01-02-jobs-in-etc.md'', fs')"
    using demo_save by (metis prod.collapse)
  from saved_name_stays_in_folder [OF run demo_time_ok] run show ?thesis unfolding Let_def by fastforce
qed


definition locked_context :: "(string, string) dict obs_context" where
  "locked_context = \<lparr>oc_gate = ''true'', oc_dsl = PDict [(''globals'', PDict [(''privacy'', PDict [(''zero_trust'', PBool True)])])], oc_user = ''u1'',
     oc_vault = demo_env, oc_env = demo_obs, oc_subfolder = ''Mail'', oc_resolve = (\<lambda>s. s), oc_now = demo_time\<rparr>"

definition locked_place :: "(string, string) dict obs_world" where
  "locked_place = \<lparr>ow_vault = \<lparr>w_redis = [], w_meta = [], w_blob = []\<rparr>, ow_fs = demo_folder, ow_output = \<lparr>oo_saved_path = [], oo_context = [], oo_status = []\<rparr>\<rparr>"

definition save_param :: obs_param where
  "save_param = \<lparr>op_vault_path = ''/v'', op_subfolder = ''Mail'', op_mode = ''save'', op_max_notes = 1, op_content = ''note'', op_query = ''q'', op_title_prefix = ''x''\<rparr>"

theorem locked_vault_keeps_notes_closed_witness:
  "\<exists>w'. invoke_obsidian locked_context save_param [] [] locked_place = (Inr [], w') \<and> ow_fs w' = demo_folder \<and> oo_status (ow_output w') = ''locked''"
proof -
  have "obsidian_gate_active (oc_gate locked_context)" "zero_trust_enabled (oc_dsl locked_context) = Inr True"
    by (simp add: locked_context_def, code_simp) (simp add: locked_context_def, code_simp)
  moreover have "is_obsidian_unlocked (oc_vault locked_context) (oc_user locked_context) (ow_vault locked_place) = (Inr False, ow_vault locked_place)"
    by (simp add: locked_context_def locked_place_def is_obsidian_unlocked_def session_payload_def stored_object_def on_redis_def redis_get_def try_except_def
        demo_env_def map_server_def act_defs session_flag_def)
  ultimately show ?thesis using locked_vault_keeps_notes_closed [of locked_context locked_place _ save_param "[]" "[]"]
    by (fastforce simp: locked_place_def)
qed

end
