(* ===== verification/Spec2Isabelle.thy ===== *)
theory Spec2Isabelle
  imports Pause ControlLaws DataLaws DslMigration CanvasReplica VaultRuntime PushdownLaws SqlLiterals TokenChunker ChunkFeedback JsonParser RssConnector GlobalPins Retrieval Citations TaskQueue HardwareLaws BriefingStore
begin

text \<open>
  Verification of the agent and retrieval core of BriefingRoom (a RAGFlow derivative, Python). The root
  theory only collects the others; every theory opens with what it holds.

  \<^bold>\<open>The program.\<close> A canvas is a graph of components stored as JSON (the DSL). When an agent is opened,
  \<open>agent/dsl_migration.py\<close> brings its DSL to the current schema, \<open>api/apps/services/canvas_replica_service.py\<close> keeps one
  runtime replica per user in Redis (\<open>rag/utils/redis_conn.py\<close>), and \<open>common/vault_runtime.py\<close> injects secrets that
  \<open>common/local_secrets_vault.py\<close> keeps encrypted. \<open>agent/canvas.py\<close> runs the graph batch by batch over the components of
  \<open>agent/component/\<close>. Users sign in with hardware modules (\<open>common/hardware_auth.py\<close>, \<open>api/apps/restful_apis/privacy_api.py\<close>),
  and briefings are kept as notes in a local folder (\<open>common/obsidian_vault_store.py\<close>). Documents reach the retrieval side through connectors (\<open>common/data_source/\<close>), parsers and the
  chunkers of \<open>rag/flow/chunker/\<close>; their metadata are filtered in memory (\<open>common/metadata_utils.py\<close>) or by the
  search engine (\<open>common/metadata_es_filter.py\<close>, \<open>common/metadata_infinity_filter.py\<close>); the chunks an answer cites
  receive feedback (\<open>api/db/services/chunk_feedback_service.py\<close>); \<open>rag/nlp/search.py\<close> retrieves chunks and cites them.
  \<open>api/db/services/document_service.py\<close> and \<open>task_service.py\<close> keep the rows of documents, knowledge bases and tasks and
  queue the parsing of a document as tasks for the workers. Requests to the outside pass \<open>common/ssrf_guard.py\<close>.

  \<^bold>\<open>Shared theories.\<close> \<open>Prelude\<close>: errors as values (\<open>'a res\<close>), actions on a state (\<open>('s, 'a) act\<close> with \<open>bnd\<close>, \<open>try_except\<close>
  and \<open>keeps\<close>), strings, dictionaries as association lists. \<open>PyVal\<close>: Python values, truth, equality, numbers, comparison.
  \<open>PyJson\<close>: \<open>json.dumps\<close> and \<open>json.loads\<close> with their round trip. \<open>PyLiteral\<close>: \<open>ast.literal_eval\<close>. \<open>PyRegex\<close>: the fragment of \<open>re\<close>
  in use. A raise is \<open>Inl\<close>, and an action returns the state it leaves whether or not it raises.

  \<^bold>\<open>The canvas.\<close> \<open>Component\<close> models \<open>agent/component/base.py\<close> (slots, error slot, templates) and \<open>Canvas\<close> the state of
  \<open>agent/canvas.py\<close> and its variable references; assignments are read back (\<open>variable_read_back\<close>) and a reset is
  idempotent. \<open>Controls\<close> and \<open>DataComponents\<close> are the components, \<open>ControlLaws\<close> and \<open>DataLaws\<close> what they compute, against
  reference definitions. \<open>Engine\<close> is \<open>Canvas.run\<close>: batches, next nodes, exceptions, events; \<open>GraphShape\<close> and \<open>RunInvariant\<close>
  show what every stage of a run keeps (one locale for the bookkeeping of a node, one that extends it for the
  run), \<open>RunTerminates\<close> that a run of an acyclic canvas ends, \<open>Pause\<close> where a paused run continues. The loop of the run
  takes fuel, one unit per batch; \<open>run_terminates\<close> shows that as many units as there are components are enough.

  \<^bold>\<open>Storage and secrets.\<close> \<open>DslMigration\<close>, \<open>RedisStore\<close>, \<open>CanvasReplica\<close>: the migration is idempotent and leaves no legacy
  name, what a run commits is what the next one loads, and a lost write is reported as success. \<open>Vault\<close> and
  \<open>VaultRuntime\<close>: a locked vault reveals nothing, only an accepted code unlocks it, sealed sections are read back.

  \<^bold>\<open>Sign-in and notes.\<close> \<open>Sealing\<close>: base64 with its round trip, the encryption with a magic header (\<open>common/crypto_utils.py\<close>) and
  the storage that encrypts (\<open>rag/utils/encrypted_storage.py\<close>), which refines a map from names to contents. \<open>HardwareAuth\<close>: the
  encrypted store of modules, challenges in Redis, enrolment, sign-in, tokens, the secrets bound to them
  (\<open>common/privacy_vault.py\<close>) and the handlers; \<open>HardwareLaws\<close> reads the store as a list of modules and shows that an
  enrolled module signs in, that a challenge earns one token while requests do not overlap, and that two which overlap
  share it. \<open>BriefingStore\<close>: notes stay in their folder, the last one saved is recalled, and a locked vault keeps them closed.

  \<^bold>\<open>Retrieval.\<close> \<open>MetaFilter\<close>: conditions and filters in memory, by record and by combination. \<open>MetaPushdown\<close> translates
  filters to both engines; \<open>PushdownLaws\<close> compares Elasticsearch with memory, over an engine that satisfies the
  predicates \<open>answers\<close> and \<open>es_laws\<close>; \<open>SqlLiterals\<close> reads the SQL condition back and shows that no value leaves its literal.
  \<open>PdfPositions\<close>, \<open>TitleChunker\<close> and \<open>TokenChunker\<close>: chunking loses no line, leaks no internal position, and merging keeps
  media, positions and totals. \<open>JsonParser\<close>: the pieces of a JSON document hold its leaves under their paths.
  \<open>Retrieval\<close> is \<open>Dealer.retrieval\<close>: the pages of a block of candidates are the block, deleted documents do not come
  back, scores are ordered and tags move them by at most ten. \<open>Citations\<close> is \<open>insert_citations\<close>: it inserts markers
  only, and of chunks that resemble the answer. \<open>ChunkFeedback\<close>: a unit of feedback is split exactly, and weights stay in their range.

  \<^bold>\<open>Ingestion.\<close> Tables are lists of records, a statement is an action on the database. \<open>TaskService\<close>: a task is handed
  out at most three times, its progress never falls back under any interleaving of workers (a step relation over
  reads and writes of reports), a cancelled task is told so, and two overlapping reports lose a message.
  \<open>DocumentService\<close>: the counters of a knowledge base stay those of its documents under every operation that counts,
  and the progress of a document is drawn from its tasks; with the handlers that start and stop parsing. \<open>TaskQueue\<close>: the
  tasks of a PDF tile its pages, and every chunk of an earlier run is either taken over by one new task or deleted.

  \<^bold>\<open>The outside.\<close> \<open>SsrfGuard\<close> models the checks and the pins with 32 and 128 bit words; \<open>WebRequests\<close> the redirect loops
  of the feed reader and of \<open>download_img\<close>; \<open>RssConnector\<close> the connector with its windows, batches and listing for
  pruning; \<open>GlobalPins\<close> the pins of the process under every interleaving of requests, by rule induction over a step
  relation, with the overlap that loses one.

  \<^bold>\<open>Bounds.\<close> The parsers of JSON and of literals take twice the length of their input plus two as fuel, one unit per
  value and per item, and \<open>json_loads_dumps\<close> shows it enough for what \<open>json_dumps\<close> writes. The redirect loops count down
  the hops the code allows (eleven requests of a feed). The other recursions are structural or come with a measure.

  \<^bold>\<open>Parameters.\<close> What is not under \<open>src/\<close> is an argument of the definitions that use it: the components outside the
  model, the clock, the Redis client, encryption, digests, one-time passwords, the WebAuthn library and signed tokens, the token counter, the search
  engines, the document store, the weights of tokens, the cosine and the square root, the ranking model, fresh identifiers, the counts of pages and rows, the queue of the workers, the resolver, the HTTP client, the parsers of feeds, HTML and dates.
  The laws a property needs of them are hypotheses of that property, and its witness satisfies them.

  \<^bold>\<open>Not modelled.\<close> Clients of language models and of external services, HTTP interfaces other than the handlers of sign-in and
  those that start and stop parsing, the listing and removal of documents, the SQL of the object-relational mapper below its statements, layout
  recognition, and rendering. Within the modelled parts: the concurrency of the
  components of a batch (they run in path order), streams that fail midway, deep copies of parameter objects,
  rounding of floats (a float is its exact rational), case folding and white space outside ASCII, parenthesised
  literals, the limit of 256 bytes of indexed keywords, and the text of an IP address.
\<close>

end
